(* ===== verification/Prelude.thy ===== *)
theory Prelude
  imports Main "HOL-Library.Char_ord" "HOL-Library.List_Lexorder"
begin

text \<open>
  What every component of the development shares: results of fallible Rust functions as a
  sum type with its sequencing operator, searching and updating the first matching element
  of a vector, sorted and deduplicated vectors, saturating arithmetic, and the collections
  of facts the component proofs hand to the simplifier.
\<close>

named_theorems result_simps \<open>unfolding of the result type's operations\<close>
named_theorems inv_intros \<open>preservation facts of the components' invariants\<close>

section \<open>Fallible functions\<close>

text \<open>
  \<open>anyhow::Result\<close> with an error value: \<open>Inl\<close> is \<open>Err\<close>, \<open>Inr\<close> is \<open>Ok\<close>.
  \<open>bindE\<close> is the question mark operator, \<open>ensure\<close> is \<open>anyhow::ensure!\<close>.
\<close>

type_synonym ('e, 'a) result = "'e + 'a"

fun bindE :: "('e, 'a) result \<Rightarrow> ('a \<Rightarrow> ('e, 'b) result) \<Rightarrow> ('e, 'b) result" where
  "bindE (Inl e) f = Inl e"
| "bindE (Inr a) f = f a"

definition ensure :: "bool \<Rightarrow> 'e \<Rightarrow> ('e, unit) result" where
  "ensure b e = (if b then Inr () else Inl e)"

definition ok_or :: "'a option \<Rightarrow> 'e \<Rightarrow> ('e, 'a) result" where
  "ok_or x e = (case x of None \<Rightarrow> Inl e | Some a \<Rightarrow> Inr a)"

definition is_ok :: "('e, 'a) result \<Rightarrow> bool" where
  "is_ok r = (case r of Inl _ \<Rightarrow> False | Inr _ \<Rightarrow> True)"

lemma bindE_Inr_iff [result_simps]:
  "bindE r f = Inr b \<longleftrightarrow> (\<exists>a. r = Inr a \<and> f a = Inr b)"
  by (cases r) auto

lemma bindE_Inl_iff:
  "bindE r f = Inl e \<longleftrightarrow> r = Inl e \<or> (\<exists>a. r = Inr a \<and> f a = Inl e)"
  by (cases r) auto

lemma ensure_Inr_iff [result_simps]: "ensure b e = Inr u \<longleftrightarrow> b"
  by (simp add: ensure_def)

lemma ensure_Inl_iff [result_simps]: "ensure b e = Inl e' \<longleftrightarrow> \<not> b \<and> e' = e"
  by (auto simp: ensure_def)

lemma bindE_ensure [result_simps]:
  "bindE (ensure b e) f = (if b then f () else Inl e)"
  by (simp add: ensure_def)

lemma ok_or_Inr_iff [result_simps]: "ok_or x e = Inr a \<longleftrightarrow> x = Some a"
  by (simp add: ok_or_def split: option.split)

lemma ok_or_Inl_iff [result_simps]: "ok_or x e = Inl e' \<longleftrightarrow> x = None \<and> e' = e"
  by (auto simp: ok_or_def split: option.split)

lemma is_ok_simps [simp]: "\<not> is_ok (Inl e)" "is_ok (Inr a)"
  by (simp_all add: is_ok_def)

lemma is_ok_iff: "is_ok r \<longleftrightarrow> (\<exists>a. r = Inr a)"
  by (cases r) auto

text \<open>\<open>Option::map(f).transpose()\<close>: apply a fallible function to an optional argument.\<close>

definition transpose_map :: "('a \<Rightarrow> ('e, 'b) result) \<Rightarrow> 'a option \<Rightarrow> ('e, 'b option) result" where
  "transpose_map f x = (case x of None \<Rightarrow> Inr None
     | Some a \<Rightarrow> bindE (f a) (\<lambda>b. Inr (Some b)))"

lemma transpose_map_simps [simp]:
  "transpose_map f None = Inr None"
  "transpose_map f (Some a) = bindE (f a) (\<lambda>b. Inr (Some b))"
  by (simp_all add: transpose_map_def)

text \<open>An error passed on inside another error type.\<close>

definition map_err :: "('e \<Rightarrow> 'f) \<Rightarrow> ('e, 'a) result \<Rightarrow> ('f, 'a) result" where
  "map_err f r = (case r of Inl e \<Rightarrow> Inl (f e) | Inr a \<Rightarrow> Inr a)"

lemma map_err_Inr_iff [result_simps]: "map_err f r = Inr a \<longleftrightarrow> r = Inr a"
  by (cases r) (simp_all add: map_err_def)

lemma map_err_simps [simp]: "map_err f (Inl e) = Inl (f e)" "map_err f (Inr a) = Inr a"
  by (simp_all add: map_err_def)

text \<open>A loop that validates every element and stops at the first error.\<close>

fun for_each :: "('a \<Rightarrow> ('e, unit) result) \<Rightarrow> 'a list \<Rightarrow> ('e, unit) result" where
  "for_each f [] = Inr ()"
| "for_each f (x # xs) = bindE (f x) (\<lambda>_. for_each f xs)"

lemma for_each_Inr_iff [result_simps]:
  "for_each f xs = Inr u \<longleftrightarrow> (\<forall>x\<in>set xs. f x = Inr ())"
  by (induction xs) (auto simp: result_simps)

section \<open>The first matching element of a vector\<close>

text \<open>
  \<open>iter_mut().find(p)\<close> followed by a write through the reference changes the first element
  that satisfies the predicate and no other.
\<close>

fun update_first :: "('a \<Rightarrow> bool) \<Rightarrow> ('a \<Rightarrow> 'a) \<Rightarrow> 'a list \<Rightarrow> 'a list" where
  "update_first p f [] = []"
| "update_first p f (x # xs) = (if p x then f x # xs else x # update_first p f xs)"

lemma length_update_first [simp]: "length (update_first p f xs) = length xs"
  by (induction xs) auto

lemma update_first_none: "(\<And>x. x \<in> set xs \<Longrightarrow> \<not> p x) \<Longrightarrow> update_first p f xs = xs"
  by (induction xs) auto

lemma set_update_first_subset: "set (update_first p f xs) \<subseteq> set xs \<union> f ` {x \<in> set xs. p x}"
  by (induction xs) auto

lemma set_update_firstD:
  "y \<in> set (update_first p f xs) \<Longrightarrow> y \<in> set xs \<or> (\<exists>x\<in>set xs. p x \<and> y = f x)"
  using set_update_first_subset [of p f xs] by auto

lemma map_update_first_id:
  "(\<And>x. x \<in> set xs \<Longrightarrow> p x \<Longrightarrow> g (f x) = g x) \<Longrightarrow> map g (update_first p f xs) = map g xs"
  by (induction xs) auto

lemma find_update_first_same:
  "find p xs = Some x \<Longrightarrow> (\<And>y. p y \<Longrightarrow> p (f y)) \<Longrightarrow> find p (update_first p f xs) = Some (f x)"
  by (induction xs) (auto split: if_splits)

lemma find_update_first_other:
  "(\<And>x. p x \<Longrightarrow> \<not> q x \<and> \<not> q (f x)) \<Longrightarrow> find q (update_first p f xs) = find q xs"
  by (induction xs) auto

lemma find_Some_set: "find p xs = Some x \<Longrightarrow> x \<in> set xs \<and> p x"
  by (auto simp: find_Some_iff)

lemma find_None_iff_all: "find p xs = None \<longleftrightarrow> (\<forall>x\<in>set xs. \<not> p x)"
  by (auto simp: find_None_iff)

lemma find_key_unique:
  "distinct (map k xs) \<Longrightarrow> x \<in> set xs \<Longrightarrow> find (\<lambda>y. k y = k x) xs = Some x"
  by (induction xs) (auto simp: image_iff)

lemma distinct_update_first:
  "distinct (map k xs) \<Longrightarrow> (\<And>x. k (f x) = k x) \<Longrightarrow> distinct (map k (update_first p f xs))"
  by (subst map_update_first_id) auto

lemma distinct_map_remove1: "distinct (map f xs) \<Longrightarrow> distinct (map f (remove1 x xs))"
  using set_remove1_subset by (induction xs) fastforce+

lemma find_append: "find p (xs @ ys) = (case find p xs of None \<Rightarrow> find p ys | Some x \<Rightarrow> Some x)"
  by (induction xs) auto

lemma find_filter_other: "(\<And>x. p x \<Longrightarrow> q x) \<Longrightarrow> find p (filter q xs) = find p xs"
  by (induction xs) auto

lemma find_filter_none: "(\<And>x. p x \<Longrightarrow> \<not> q x) \<Longrightarrow> find p (filter q xs) = None"
  by (induction xs) auto

lemma find_ext: "(\<And>x. x \<in> set xs \<Longrightarrow> p x = q x) \<Longrightarrow> find p xs = find q xs"
  by (induction xs) auto

section \<open>Sorted, deduplicated vectors\<close>

text \<open>\<open>values.sort(); values.dedup();\<close> and the contents of a \<open>BTreeSet\<close> in order.\<close>

definition sort_dedup :: "'a::linorder list \<Rightarrow> 'a list" where
  "sort_dedup xs = remdups_adj (sort xs)"

lemma sorted_remdups_adj_strict: "sorted xs \<Longrightarrow> sorted_wrt (<) (remdups_adj xs)"
  by (induction xs rule: remdups_adj.induct) (auto simp: less_le)

lemma set_sort_dedup [simp]: "set (sort_dedup xs) = set xs"
  by (simp add: sort_dedup_def)

lemma strict_sort_dedup: "sorted_wrt (<) (sort_dedup xs)"
  by (simp add: sort_dedup_def sorted_remdups_adj_strict)

lemma sorted_sort_dedup: "sorted (sort_dedup xs)"
  using strict_sort_dedup by (metis strict_sorted_iff)

lemma distinct_sort_dedup: "distinct (sort_dedup xs)"
  using strict_sort_dedup by (metis strict_sorted_iff)

lemma length_sort_dedup_le: "length (sort_dedup xs) \<le> length xs"
  using remdups_adj_length [of "sort xs"] by (simp add: sort_dedup_def)

lemma sort_dedup_cong: "set xs = set ys \<Longrightarrow> sort_dedup xs = sort_dedup ys"
  by (metis distinct_sort_dedup set_sort_dedup sorted_distinct_set_unique sorted_sort_dedup)

lemma sort_dedup_idem [simp]: "sort_dedup (sort_dedup xs) = sort_dedup xs"
  by (rule sort_dedup_cong) simp

lemma sort_dedup_Nil_iff [simp]: "sort_dedup xs = [] \<longleftrightarrow> xs = []"
  by (metis set_empty set_sort_dedup)

lemma sorted_key_le_last:
  "sorted_wrt (<) (map (f :: 'a \<Rightarrow> 'b::linorder) xs) \<Longrightarrow> x \<in> set xs \<Longrightarrow> f x \<le> f (last xs)"
proof (induction xs rule: rev_induct)
  case (snoc y ys)
  then show ?case by (auto simp: sorted_wrt_append intro: less_imp_le)
qed simp

lemma sorted_key_lt_last:
  "sorted_wrt (<) (map (f :: 'a \<Rightarrow> 'b::linorder) xs) \<Longrightarrow> x \<in> set xs \<Longrightarrow> x \<noteq> last xs \<Longrightarrow> f x < f (last xs)"
  by (induction xs rule: rev_induct) (auto simp: sorted_wrt_append)

section \<open>Bounded windows\<close>

text \<open>Appending to a sequence that keeps its newest elements: the oldest go when there is no room.\<close>

definition push_bounded :: "nat \<Rightarrow> 'a \<Rightarrow> 'a list \<Rightarrow> 'a list" where
  "push_bounded cap x w = drop (Suc (length w) - cap) w @ [x]"

lemma length_push_bounded: "1 \<le> cap \<Longrightarrow> length (push_bounded cap x w) \<le> cap"
  by (simp add: push_bounded_def)

lemma push_bounded_keeps:
  assumes "length v < cap"
  obtains u' where "push_bounded cap x (u @ v) = u' @ v @ [x]"
proof -
  have "Suc (length (u @ v)) - cap \<le> length u" using assms by simp
  then have "push_bounded cap x (u @ v) = drop (Suc (length (u @ v)) - cap) u @ v @ [x]"
    by (simp add: push_bounded_def)
  then show thesis by (rule that)
qed

lemma set_push_bounded: "set (push_bounded cap x w) \<subseteq> insert x (set w)"
  using set_drop_subset [of "Suc (length w) - cap" w] by (auto simp: push_bounded_def)

lemma last_push_bounded: "last (push_bounded cap x w) = x"
  by (simp add: push_bounded_def)

text \<open>Removing elements by their keys is dropping them when they are a prefix with distinct keys.\<close>

lemma filter_not_taken:
  "distinct (map k xs) \<Longrightarrow> filter (\<lambda>x. k x \<notin> k ` set (take n xs)) xs = drop n xs"
proof (induction xs arbitrary: n)
  case (Cons x xs)
  show ?case
  proof (cases n)
    case (Suc m)
    have "filter (\<lambda>y. k y \<notin> k ` set (take (Suc m) (x # xs))) xs = filter (\<lambda>y. k y \<notin> k ` set (take m xs)) xs"
      using Cons.prems by (intro filter_cong) (auto, metis imageI)
    with Suc Cons show ?thesis by simp
  qed (simp)
qed simp

section \<open>Step relations\<close>

text \<open>
  What the components described as step relations share. An invariant that the initial states
  have and every step keeps holds in every reachable state; what moreover goes up in a preorder
  with every step goes up along any sequence of steps.
\<close>

definition reachable :: "('s \<Rightarrow> bool) \<Rightarrow> ('s \<Rightarrow> 's \<Rightarrow> bool) \<Rightarrow> 's \<Rightarrow> bool" where
  "reachable init step s \<longleftrightarrow> (\<exists>s0. init s0 \<and> step\<^sup>*\<^sup>* s0 s)"

lemma reachable_start: "init s \<Longrightarrow> reachable init step s"
  by (auto simp: reachable_def)

lemma reachable_step: "reachable init step s \<Longrightarrow> step s s' \<Longrightarrow> reachable init step s'"
  by (auto simp: reachable_def intro: rtranclp.rtrancl_into_rtrancl)

lemma reachable_steps: "reachable init step s \<Longrightarrow> step\<^sup>*\<^sup>* s s' \<Longrightarrow> reachable init step s'"
  by (auto simp: reachable_def intro: rtranclp_trans)

locale step_invariant =
  fixes init :: "'s \<Rightarrow> bool" and step :: "'s \<Rightarrow> 's \<Rightarrow> bool" and inv :: "'s \<Rightarrow> bool"
  assumes init_inv: "init s \<Longrightarrow> inv s"
    and step_inv: "inv s \<Longrightarrow> step s s' \<Longrightarrow> inv s'"
begin

lemma steps_inv: "step\<^sup>*\<^sup>* s t \<Longrightarrow> inv s \<Longrightarrow> inv t"
  by (induction rule: rtranclp_induct) (auto intro: step_inv)

lemma always_inv: "reachable init step s \<Longrightarrow> inv s"
  using init_inv steps_inv by (auto simp: reachable_def)

end

locale stepwise = step_invariant init step inv
  for init :: "'s \<Rightarrow> bool" and step :: "'s \<Rightarrow> 's \<Rightarrow> bool" and inv :: "'s \<Rightarrow> bool" +
  fixes grows :: "'s \<Rightarrow> 's \<Rightarrow> bool"
  assumes step_grows: "inv s \<Longrightarrow> step s s' \<Longrightarrow> grows s s'"
    and grows_refl: "grows s s"
    and grows_trans: "grows s t \<Longrightarrow> grows t u \<Longrightarrow> grows s u"
begin

lemma steps_grow: "step\<^sup>*\<^sup>* s t \<Longrightarrow> inv s \<Longrightarrow> grows s t"
  by (induction rule: rtranclp_induct) (auto intro: grows_refl grows_trans step_grows steps_inv)

lemma always_grow: "reachable init step s \<Longrightarrow> step\<^sup>*\<^sup>* s t \<Longrightarrow> grows s t"
  using always_inv steps_grow by blast

end

section \<open>Machine arithmetic on sizes\<close>

text \<open>
  \<open>usize\<close> and \<open>u64\<close> values are natural numbers; \<open>saturating_sub\<close> is then the truncated
  subtraction of \<open>nat\<close>, and \<open>clamp\<close> is \<open>Ord::clamp\<close>.
\<close>

definition clamp :: "'a::linorder \<Rightarrow> 'a \<Rightarrow> 'a \<Rightarrow> 'a" where
  "clamp x lo hi = (if x < lo then lo else if hi < x then hi else x)"

lemma clamp_bounds: "lo \<le> hi \<Longrightarrow> lo \<le> clamp x lo hi \<and> clamp x lo hi \<le> hi"
  by (auto simp: clamp_def)

lemma clamp_idem: "lo \<le> hi \<Longrightarrow> clamp (clamp x lo hi) lo hi = clamp x lo hi"
  by (auto simp: clamp_def)

text \<open>
  The cells of the metadata table hold JSON texts. A cell is absent, holds a text that does
  not deserialise, or holds the serialisation of a value.
\<close>

datatype 'a cell = Missing | Malformed | Json 'a

end
