(* ===== verification/Text.thy ===== *)
theory Text
  imports Prelude
begin

text \<open>
  The operations of Rust's \<open>str\<close> and \<open>char\<close> the code uses, on strings as sequences of
  UTF-8 bytes: \<open>len\<close> is the number of bytes, equality and order are those of the bytes,
  and the character-wise operations (\<open>trim\<close>, \<open>is_control\<close>, \<open>is_char_boundary\<close>) read the
  encoding the way the standard library does.
\<close>

section \<open>Characters of a UTF-8 string\<close>

definition byte :: "char \<Rightarrow> nat" where
  "byte c = of_char c"

lemma byte_less: "byte c < 256"
  by (simp add: byte_def)

definition is_cont :: "char \<Rightarrow> bool" where
  "is_cont c \<longleftrightarrow> 128 \<le> byte c \<and> byte c < 192"

function utf8_chars :: "string \<Rightarrow> string list" where
  "utf8_chars [] = []"
| "utf8_chars (c # cs) = (c # takeWhile is_cont cs) # utf8_chars (dropWhile is_cont cs)"
  by pat_completeness auto
termination
  by (relation "measure length") (auto simp: length_dropWhile_le less_Suc_eq_le)

lemma concat_utf8_chars [simp]: "concat (utf8_chars s) = s"
  by (induction s rule: utf8_chars.induct) auto

lemma utf8_chars_nonempty: "g \<in> set (utf8_chars s) \<Longrightarrow> g \<noteq> []"
  by (induction s rule: utf8_chars.induct) auto

fun code_point :: "string \<Rightarrow> nat" where
  "code_point [a] = byte a"
| "code_point [a, b] = (byte a mod 32) * 64 + byte b mod 64"
| "code_point [a, b, c] = (byte a mod 16) * 4096 + (byte b mod 64) * 64 + byte c mod 64"
| "code_point [a, b, c, d] = (byte a mod 8) * 262144 + (byte b mod 64) * 4096
     + (byte c mod 64) * 64 + byte d mod 64"
| "code_point _ = 0"

text \<open>\<open>char::is_whitespace\<close> (the Unicode property \<open>White_Space\<close>) and \<open>char::is_control\<close>
  (the category \<open>Cc\<close>), on code points.\<close>

definition is_whitespace :: "nat \<Rightarrow> bool" where
  "is_whitespace n \<longleftrightarrow> 9 \<le> n \<and> n \<le> 13 \<or> n = 32 \<or> n = 133 \<or> n = 160 \<or> n = 5760
     \<or> 8192 \<le> n \<and> n \<le> 8202 \<or> n = 8232 \<or> n = 8233 \<or> n = 8239 \<or> n = 8287 \<or> n = 12288"

definition is_control :: "nat \<Rightarrow> bool" where
  "is_control n \<longleftrightarrow> n < 32 \<or> 127 \<le> n \<and> n < 160"

text \<open>\<open>is_ascii_alphanumeric\<close> of a character by its code point, or of a byte.\<close>

definition is_ascii_alnum :: "nat \<Rightarrow> bool" where
  "is_ascii_alnum n \<longleftrightarrow> 48 \<le> n \<and> n \<le> 57 \<or> 65 \<le> n \<and> n \<le> 90 \<or> 97 \<le> n \<and> n \<le> 122"

definition ws_char :: "string \<Rightarrow> bool" where
  "ws_char g \<longleftrightarrow> is_whitespace (code_point g)"

definition any_control :: "string \<Rightarrow> bool" where
  "any_control s \<longleftrightarrow> list_ex (\<lambda>g. is_control (code_point g)) (utf8_chars s)"

section \<open>Trimming and case\<close>

definition trim_start :: "string \<Rightarrow> string" where
  "trim_start s = concat (dropWhile ws_char (utf8_chars s))"

definition trim :: "string \<Rightarrow> string" where
  "trim s = concat (rev (dropWhile ws_char (rev (dropWhile ws_char (utf8_chars s)))))"

lemma concat_nonempty_Nil: "(\<And>g. g \<in> set gs \<Longrightarrow> g \<noteq> []) \<Longrightarrow> concat gs = [] \<longleftrightarrow> gs = []"
  by (induction gs) auto

lemma dropWhile_rev_Nil_iff: "dropWhile P (rev (dropWhile P xs)) = [] \<longleftrightarrow> list_all P xs"
proof
  assume "dropWhile P (rev (dropWhile P xs)) = []"
  then have all: "\<forall>x\<in>set (dropWhile P xs). P x" by (simp only: dropWhile_eq_Nil_conv set_rev)
  have "dropWhile P xs = []"
  proof (rule ccontr)
    assume ne: "dropWhile P xs \<noteq> []"
    then have "\<not> P (hd (dropWhile P xs))" by (rule hd_dropWhile)
    with all ne show False by simp
  qed
  then show "list_all P xs" by (simp add: list_all_iff)
next
  assume "list_all P xs"
  then show "dropWhile P (rev (dropWhile P xs)) = []"
    by (auto simp: list_all_iff dest: set_dropWhileD)
qed

lemma trim_empty_iff: "trim s = [] \<longleftrightarrow> list_all ws_char (utf8_chars s)"
proof -
  let ?gs = "rev (dropWhile ws_char (rev (dropWhile ws_char (utf8_chars s))))"
  have "g \<noteq> []" if "g \<in> set ?gs" for g
    using that utf8_chars_nonempty [of g s] by (auto dest!: set_dropWhileD)
  then have "concat ?gs = [] \<longleftrightarrow> ?gs = []"
    by (rule concat_nonempty_Nil)
  then have "trim s = [] \<longleftrightarrow> dropWhile ws_char (rev (dropWhile ws_char (utf8_chars s))) = []"
    unfolding trim_def by (simp only: rev_is_Nil_conv)
  then show ?thesis by (simp only: dropWhile_rev_Nil_iff)
qed

lemma trim_Nil [simp]: "trim [] = []"
  by (simp add: trim_def)

definition lower_byte :: "char \<Rightarrow> char" where
  "lower_byte c = (if 65 \<le> byte c \<and> byte c \<le> 90 then char_of (byte c + 32) else c)"

definition to_ascii_lowercase :: "string \<Rightarrow> string" where
  "to_ascii_lowercase s = map lower_byte s"

lemma length_to_ascii_lowercase [simp]: "length (to_ascii_lowercase s) = length s"
  by (simp add: to_ascii_lowercase_def)

section \<open>Searching\<close>

fun starts_with :: "string \<Rightarrow> string \<Rightarrow> bool" where
  "starts_with s [] = True"
| "starts_with [] (c # cs) = False"
| "starts_with (x # xs) (c # cs) = (x = c \<and> starts_with xs cs)"

lemma starts_with_iff: "starts_with s p \<longleftrightarrow> (\<exists>r. s = p @ r)"
  by (induction s p rule: starts_with.induct) auto

fun str_contains :: "string \<Rightarrow> string \<Rightarrow> bool" where
  "str_contains [] p = (p = [])"
| "str_contains (x # xs) p = (starts_with (x # xs) p \<or> str_contains xs p)"

lemma starts_with_take:
  "starts_with s p \<Longrightarrow> length p \<le> length s \<and> take (length p) s = p"
  by (auto simp: starts_with_iff)

lemma str_contains_iff: "str_contains s p \<longleftrightarrow> (\<exists>l r. s = l @ p @ r)"
proof (induction s)
  case Nil
  show ?case by auto
next
  case (Cons x xs)
  have "(\<exists>l r. x # xs = l @ p @ r) \<longleftrightarrow> (\<exists>r. x # xs = p @ r) \<or> (\<exists>l r. xs = l @ p @ r)"
    (is "?lhs \<longleftrightarrow> ?rhs")
  proof
    assume ?lhs
    then obtain l r where lr: "x # xs = l @ p @ r" by blast
    show ?rhs
    proof (cases l)
      case Nil
      with lr show ?thesis by auto
    next
      case (Cons y ys)
      with lr show ?thesis by auto
    qed
  next
    assume ?rhs
    then show ?lhs
    proof
      assume "\<exists>r. x # xs = p @ r"
      then show ?lhs by (metis append_Nil)
    next
      assume "\<exists>l r. xs = l @ p @ r"
      then show ?lhs by (metis append_Cons)
    qed
  qed
  then show ?case by (simp add: Cons.IH starts_with_iff)
qed

text \<open>\<open>str::find\<close> and \<open>str::rfind\<close>: the first and the last byte offset of a pattern.\<close>

fun find_at :: "string \<Rightarrow> string \<Rightarrow> nat option" where
  "find_at [] p = (if p = [] then Some 0 else None)"
| "find_at (x # xs) p = (if starts_with (x # xs) p then Some 0 else map_option Suc (find_at xs p))"

fun rfind_at :: "string \<Rightarrow> string \<Rightarrow> nat option" where
  "rfind_at [] p = (if p = [] then Some 0 else None)"
| "rfind_at (x # xs) p = (case rfind_at xs p of
     Some i \<Rightarrow> Some (Suc i)
   | None \<Rightarrow> if starts_with (x # xs) p then Some 0 else None)"

lemma find_at_Some: "find_at s p = Some i \<Longrightarrow> i + length p \<le> length s \<and> take (length p) (drop i s) = p"
proof (induction s arbitrary: i)
  case (Cons x xs)
  then show ?case
    by (cases "starts_with (x # xs) p") (auto dest: starts_with_take simp del: starts_with.simps)
qed (simp split: if_splits)

lemma rfind_at_Some: "rfind_at s p = Some i \<Longrightarrow> i + length p \<le> length s \<and> take (length p) (drop i s) = p"
proof (induction s arbitrary: i)
  case (Cons x xs)
  then show ?case
    by (auto dest: starts_with_take simp del: starts_with.simps split: option.splits if_splits)
qed (simp split: if_splits)

lemma find_at_None: "find_at s p = None \<longleftrightarrow> \<not> str_contains s p"
  by (induction s) auto

lemma trim_infix: "\<exists>l r. s = l @ trim s @ r"
proof -
  let ?a = "takeWhile ws_char (utf8_chars s)" and ?b = "dropWhile ws_char (utf8_chars s)"
  let ?c = "takeWhile ws_char (rev ?b)" and ?d = "dropWhile ws_char (rev ?b)"
  have "s = concat (?a @ ?b)" by simp
  also have "?b = rev ?d @ rev ?c"
    by (metis rev_append rev_rev_ident takeWhile_dropWhile_id)
  finally show ?thesis unfolding trim_def concat_append by blast
qed

lemma trim_found: "\<exists>i. find_at s (trim s) = Some i"
  using trim_infix [of s] find_at_None [of s "trim s"] by (auto simp: str_contains_iff)

text \<open>A text of printable ASCII characters is trimmed as it is.\<close>

lemma utf8_chars_ascii: "list_all (\<lambda>c. byte c < 128) s \<Longrightarrow> utf8_chars s = map (\<lambda>c. [c]) s"
proof (induction s)
  case (Cons c s)
  then have "takeWhile is_cont s = []" "dropWhile is_cont s = s" by (cases s; simp add: is_cont_def)+
  with Cons show ?case by simp
qed simp

lemma trim_plain:
  assumes "list_all (\<lambda>c. 32 < byte c \<and> byte c < 127) s"
  shows "trim s = s"
proof -
  have u: "utf8_chars s = map (\<lambda>c. [c]) s"
    using assms by (intro utf8_chars_ascii) (auto simp: list_all_iff)
  have n: "\<not> ws_char g" if "g \<in> set (map (\<lambda>c. [c]) s)" for g
    using assms that by (auto simp: ws_char_def is_whitespace_def list_all_iff)
  have d: "dropWhile ws_char gs = gs" if "\<forall>g\<in>set gs. \<not> ws_char g" for gs
    using that by (cases gs) auto
  from d [of "map (\<lambda>c. [c]) s"] d [of "rev (map (\<lambda>c. [c]) s)"] n u show ?thesis
    by (simp add: trim_def del: rev_map)
qed

section \<open>Character boundaries\<close>

text \<open>
  \<open>str::is_char_boundary\<close>: offset 0, the length, and any offset whose byte is not a
  continuation byte (the test \<open>(byte as i8) >= -0x40\<close> of the standard library).
\<close>

definition is_char_boundary :: "string \<Rightarrow> nat \<Rightarrow> bool" where
  "is_char_boundary s i \<longleftrightarrow>
     i = 0 \<or> i = length s \<or> (i < length s \<and> \<not> is_cont (s ! i))"

lemma is_char_boundary_0 [simp]: "is_char_boundary s 0"
  by (simp add: is_char_boundary_def)

lemma is_char_boundary_length [simp]: "is_char_boundary s (length s)"
  by (simp add: is_char_boundary_def)

lemma is_char_boundary_le: "is_char_boundary s i \<Longrightarrow> i \<le> length s"
  by (auto simp: is_char_boundary_def)

text \<open>The loop \<open>while !s.is_char_boundary(end) { end -= 1; }\<close>, which stops at 0 at the latest:
  the greatest boundary at or below \<open>end\<close>.\<close>

fun floor_boundary :: "string \<Rightarrow> nat \<Rightarrow> nat" where
  "floor_boundary s 0 = 0"
| "floor_boundary s (Suc n) = (if is_char_boundary s (Suc n) then Suc n else floor_boundary s n)"

lemma floor_boundary_le: "floor_boundary s n \<le> n"
  by (induction n) auto

lemma floor_boundary_boundary [simp]: "is_char_boundary s (floor_boundary s n)"
  by (induction n) auto

lemma floor_boundary_greatest: "is_char_boundary s k \<Longrightarrow> k \<le> n \<Longrightarrow> k \<le> floor_boundary s n"
  by (induction n) (auto simp: le_Suc_eq)

lemma floor_boundary_id: "is_char_boundary s n \<Longrightarrow> floor_boundary s n = n"
  by (cases n) auto

lemma floor_boundary_le_length: "floor_boundary s n \<le> length s"
  by (rule is_char_boundary_le) simp

text \<open>\<open>&s[a..b]\<close>.\<close>

definition slice :: "string \<Rightarrow> nat \<Rightarrow> nat \<Rightarrow> string" where
  "slice s a b = take (b - a) (drop a s)"

lemma slice_slice:
  "b \<le> length (slice s i j) \<Longrightarrow> slice (slice s i j) a b = slice s (a + i) (b + i)"
  by (cases "a \<le> b") (auto simp: slice_def drop_take min_def add.commute split: if_splits)

lemma length_slice_le: "length (slice s a b) \<le> b - a"
  by (simp add: slice_def)

text \<open>A string whose characters are encoded in one to four bytes, as those of a \<open>str\<close> are, and
  the weaker fact the searches for boundaries need: no four continuation bytes in a row.\<close>

definition wf_utf8 :: "string \<Rightarrow> bool" where
  "wf_utf8 s \<longleftrightarrow> list_all (\<lambda>g. length g = 1 \<and> byte (hd g) < 128
     \<or> 1 < length g \<and> length g \<le> 4 \<and> 192 \<le> byte (hd g)) (utf8_chars s)"

definition narrow :: "string \<Rightarrow> bool" where
  "narrow s \<longleftrightarrow> (\<forall>i. i + 4 \<le> length s \<longrightarrow> \<not> list_all is_cont (take 4 (drop i s)))"

lemma wf_utf8_narrow: "wf_utf8 s \<Longrightarrow> narrow s"
proof (induction s rule: utf8_chars.induct)
  case 1
  show ?case by (simp add: narrow_def)
next
  case (2 c cs)
  let ?k = "length (takeWhile is_cont cs)" and ?r = "dropWhile is_cont cs"
  have cs: "cs = takeWhile is_cont cs @ ?r" by simp
  from "2.prems" have c: "\<not> is_cont c" and k: "?k \<le> 3" and wf: "wf_utf8 ?r"
    by (auto simp: wf_utf8_def is_cont_def)
  have drop: "drop (Suc ?k) (c # cs) = ?r" by (simp add: dropWhile_eq_drop)
  show ?case unfolding narrow_def
  proof (intro allI impI notI)
    fix i
    assume i: "i + 4 \<le> length (c # cs)" and all: "list_all is_cont (take 4 (drop i (c # cs)))"
    have at: "is_cont ((c # cs) ! (i + j))" if "j < 4" for j
      using all i that by (auto simp: list_all_length)
    show False
    proof (cases "i \<le> ?k")
      case True
      have "0 < i" using at [of 0] c by (cases i) auto
      with True k have "Suc ?k = i + (Suc ?k - i)" "Suc ?k - i < 4" by auto
      with at [of "Suc ?k - i"] have "is_cont (cs ! ?k)" by simp
      moreover have "?k < length cs" using i k \<open>0 < i\<close> by auto
      ultimately show False using nth_length_takeWhile [of is_cont cs] by blast
    next
      case False
      then have "drop i (c # cs) = drop (i - Suc ?k) ?r"
        by (simp only: drop [symmetric] drop_drop) simp
      moreover have "i - Suc ?k + 4 \<le> length ?r"
        using i False arg_cong [OF drop, of length] by simp
      ultimately show False
        using "2.IH" [OF wf] all by (simp add: narrow_def)
    qed
  qed
qed

lemma narrow_drop: "narrow s \<Longrightarrow> narrow (drop n s)"
  by (auto simp: narrow_def add_ac)

lemma narrow_take: "narrow s \<Longrightarrow> narrow (take n s)"
  by (auto simp: narrow_def take_drop min_def)

lemma narrow_slice: "narrow s \<Longrightarrow> narrow (slice s a b)"
  by (simp add: slice_def narrow_drop narrow_take)

lemma narrow_boundary:
  assumes "narrow s" "i < length s"
  obtains j where "i < j" "j \<le> i + 4" "is_char_boundary s j"
proof (cases "length s \<le> i + 4")
  case True
  with assms(2) show thesis by (intro that [of "length s"]) auto
next
  case False
  with assms(1) have "\<not> list_all is_cont (take 4 (drop (i + 1) s))"
    by (simp add: narrow_def)
  then obtain k where "k < 4" "\<not> is_cont (s ! (i + 1 + k))"
    using False by (auto simp: list_all_length)
  with False show thesis by (intro that [of "i + 1 + k"]) (auto simp: is_char_boundary_def)
qed

lemma floor_boundary_gt:
  assumes "narrow s" "n \<le> length s"
  shows "n < floor_boundary s n + 4"
proof (cases "n < 4")
  case False
  show ?thesis
  proof (cases "n = length s")
    case True
    then show ?thesis by (simp add: floor_boundary_id)
  next
    case False
    then have "\<not> list_all is_cont (take 4 (drop (n - 3) s)) \<or> length s < n + 1"
      using assms \<open>\<not> n < 4\<close> by (simp add: narrow_def)
    with False assms(2) obtain k where "k < 4" "\<not> is_cont (s ! (n - 3 + k))"
      by (auto simp: list_all_length)
    then have "is_char_boundary s (n - 3 + k)"
      using assms(2) False \<open>\<not> n < 4\<close> by (auto simp: is_char_boundary_def)
    then have "n - 3 + k \<le> floor_boundary s n"
      using \<open>k < 4\<close> \<open>\<not> n < 4\<close> by (intro floor_boundary_greatest) auto
    then show ?thesis by linarith
  qed
qed simp

lemma length_slice: "b \<le> length s \<Longrightarrow> length (slice s a b) = b - a"
  by (simp add: slice_def)

lemma slice_append:
  assumes "a \<le> b" "b \<le> c"
  shows "slice s a b @ slice s b c = slice s a c"
proof -
  have "slice s a c = take ((b - a) + (c - b)) (drop a s)"
    using assms by (simp add: slice_def)
  also have "\<dots> = take (b - a) (drop a s) @ take (c - b) (drop (b - a) (drop a s))"
    by (rule take_add)
  finally show ?thesis
    using assms by (simp add: slice_def)
qed

lemma slice_self [simp]: "slice s 0 (length s) = s"
  by (simp add: slice_def)

section \<open>Words\<close>

text \<open>\<open>str::split_whitespace\<close>: the maximal runs of characters that are not white space, each
  as the list of its characters; \<open>words\<close> joins the characters of each run.\<close>

function split_ws :: "string list \<Rightarrow> string list list" where
  "split_ws gs = (case dropWhile ws_char gs of [] \<Rightarrow> []
     | g # hs \<Rightarrow> (g # takeWhile (\<lambda>x. \<not> ws_char x) hs) # split_ws (dropWhile (\<lambda>x. \<not> ws_char x) hs))"
  by pat_completeness auto
termination
proof (relation "measure length")
  fix gs g and hs :: "string list"
  assume *: "dropWhile ws_char gs = g # hs"
  have "length (g # hs) \<le> length gs"
    using length_dropWhile_le [of ws_char gs] * by simp
  then show "(dropWhile (\<lambda>x. \<not> ws_char x) hs, gs) \<in> measure length"
    using length_dropWhile_le [of "\<lambda>x. \<not> ws_char x" hs] by simp
qed simp

declare split_ws.simps [simp del]

definition words :: "string \<Rightarrow> string list" where
  "words s = map concat (split_ws (utf8_chars s))"

lemma split_ws_no_ws: "w \<in> set (split_ws gs) \<Longrightarrow> g \<in> set w \<Longrightarrow> \<not> ws_char g \<and> g \<in> set gs"
proof (induction gs rule: split_ws.induct)
  case (1 gs)
  show ?case
  proof (cases "dropWhile ws_char gs")
    case Nil
    with "1.prems"(1) show ?thesis by (simp add: split_ws.simps [of gs])
  next
    case (Cons h hs)
    have sub: "set (h # hs) \<subseteq> set gs"
      using Cons by (metis set_dropWhileD subsetI)
    have h: "\<not> ws_char h"
      using Cons hd_dropWhile [of ws_char gs] by simp
    from "1.prems"(1) Cons consider "w = h # takeWhile (\<lambda>x. \<not> ws_char x) hs"
      | "w \<in> set (split_ws (dropWhile (\<lambda>x. \<not> ws_char x) hs))"
      by (auto simp: split_ws.simps [of gs])
    then show ?thesis
    proof cases
      case 1
      with "1.prems"(2) h sub show ?thesis by (auto dest: set_takeWhileD)
    next
      case 2
      from "1.IH" [OF Cons 2 "1.prems"(2)] sub show ?thesis by (auto dest: set_dropWhileD)
    qed
  qed
qed

text \<open>\<open>slice::join\<close>.\<close>

fun join :: "string \<Rightarrow> string list \<Rightarrow> string" where
  "join sep [] = []"
| "join sep [x] = x"
| "join sep (x # y # xs) = x @ sep @ join sep (y # xs)"

section \<open>Numbers and lines\<close>

text \<open>The decimal text of a number.\<close>

fun decimal :: "nat \<Rightarrow> string" where
  "decimal n = (if n < 10 then [char_of (48 + n)] else decimal (n div 10) @ [char_of (48 + n mod 10)])"

declare decimal.simps [simp del]

definition newline :: char where
  "newline = char_of (10::nat)"

text \<open>\<open>split_inclusive('\n')\<close>: the lines with their line ends.\<close>

fun split_inclusive :: "string \<Rightarrow> string list" where
  "split_inclusive [] = []"
| "split_inclusive (c # cs) = (if c = newline then [c] # split_inclusive cs
     else (case split_inclusive cs of [] \<Rightarrow> [[c]] | l # ls \<Rightarrow> (c # l) # ls))"

lemma concat_split_inclusive [simp]: "concat (split_inclusive s) = s"
  by (induction s) (auto split: list.splits)

section \<open>Evaluation on literals\<close>

lemmas text_eval = trim_def trim_start_def byte_def ws_char_def is_whitespace_def is_cont_def
  any_control_def is_control_def to_ascii_lowercase_def lower_byte_def

text \<open>A character given by its code, as a literal.\<close>

lemmas char_eval = char_of_def bit_0

end
