(* ===== verification/Disk.thy ===== *)
theory Disk
  imports Text "HOL-Library.Sublist" "HOL-Library.AList"
begin

text \<open>
  The part of the file system the control planes of \<open>tenant.rs\<close> and \<open>team.rs\<close> touch: one
  data-plane store per directory, of which the model keeps the metadata table. Paths are the
  text of a Unix path; two texts denote the same directory when their components agree, as
  \<open>std::path::Path::components\<close> computes them.
\<close>

section \<open>Paths\<close>

type_synonym path = string

fun split_slash :: "string \<Rightarrow> string list" where
  "split_slash [] = [[]]"
| "split_slash (c # cs) = (if c = CHR ''/'' then [] # split_slash cs
     else (case split_slash cs of [] \<Rightarrow> [[c]] | g # gs \<Rightarrow> (c # g) # gs))"

text \<open>
  Repeated separators and \<open>.\<close> components are dropped, except a leading \<open>.\<close> of a relative
  path; the leading separator is the root component.
\<close>

definition path_components :: "path \<Rightarrow> string list" where
  "path_components p =
     (let gs = filter (\<lambda>g. g \<noteq> []) (split_slash p);
          rest = filter (\<lambda>g. g \<noteq> ''.'')
      in if starts_with p ''/'' then ''/'' # rest gs
         else (case gs of [] \<Rightarrow> [] | g # hs \<Rightarrow> g # rest hs))"

definition path_starts_with :: "path \<Rightarrow> path \<Rightarrow> bool" where
  "path_starts_with p base = prefix (path_components base) (path_components p)"

definition same_dir :: "path \<Rightarrow> path \<Rightarrow> bool" where
  "same_dir p q \<longleftrightarrow> path_components p = path_components q"

lemma path_starts_with_refl [simp]: "path_starts_with p p"
  by (simp add: path_starts_with_def)

lemma same_dir_under: "same_dir p q \<Longrightarrow> path_starts_with p q"
  by (simp add: same_dir_def path_starts_with_def)

lemmas path_eval = path_starts_with_def path_components_def same_dir_def Let_def

section \<open>Data-plane stores\<close>

text \<open>
  An entry is a directory made for a store, with the metadata rows of its database, none before
  anything is written to it. \<open>Store::open\<close> creates what is missing and leaves an existing database
  as it is; \<open>meta_set\<close> writes one metadata row; \<open>remove_dir_all\<close> destroys every store at or below a
  directory, or, when it fails, some of them. Symbolic links and \<open>..\<close> are not followed: two different
  lists of components are two directories.
\<close>

type_synonym meta = "(string \<times> string) list"
type_synonym disk = "(string list \<times> meta) list"

definition disk_lookup :: "disk \<Rightarrow> path \<Rightarrow> meta option" where
  "disk_lookup d p = map_of d (path_components p)"

definition disk_open :: "path \<Rightarrow> disk \<Rightarrow> disk" where
  "disk_open p d = (case disk_lookup d p of
     None \<Rightarrow> AList.update (path_components p) [] d | Some _ \<Rightarrow> d)"

definition disk_meta_get :: "disk \<Rightarrow> path \<Rightarrow> string \<Rightarrow> string option" where
  "disk_meta_get d p k = (case disk_lookup d p of None \<Rightarrow> None | Some m \<Rightarrow> map_of m k)"

definition disk_meta_set :: "path \<Rightarrow> string \<Rightarrow> string \<Rightarrow> disk \<Rightarrow> disk" where
  "disk_meta_set p k v d = AList.update (path_components p)
     (AList.update k v (case disk_lookup d p of None \<Rightarrow> [] | Some m \<Rightarrow> m)) d"

definition disk_exists :: "path \<Rightarrow> disk \<Rightarrow> bool" where
  "disk_exists p d = list_ex (\<lambda>(q, _). prefix (path_components p) q) d"

text \<open>How a call of \<open>Store::open\<close> ends: the store is open; it is refused before anything is created (the
  symbolic-link check, \<open>create_dir_all\<close>); or it fails after the directory is there (the connection,
  the schema).\<close>

datatype open_outcome = Opened | OpenRefused | OpenFailed

definition store_open :: "open_outcome \<Rightarrow> path \<Rightarrow> disk \<Rightarrow> disk" where
  "store_open outcome p d = (if outcome = OpenRefused then d else disk_open p d)"

text \<open>\<open>gone\<close> says of which directories the removal gets rid.\<close>

definition disk_remove :: "(string list \<Rightarrow> bool) \<Rightarrow> path \<Rightarrow> disk \<Rightarrow> disk" where
  "disk_remove gone p d = filter (\<lambda>(q, _). \<not> (prefix (path_components p) q \<and> gone q)) d"

definition disk_remove_all :: "path \<Rightarrow> disk \<Rightarrow> disk" where
  "disk_remove_all p d = disk_remove (\<lambda>_. True) p d"

named_theorems disk_simps \<open>what a metadata lookup sees after a disk operation\<close>

lemma disk_lookup_open [disk_simps]:
  "disk_lookup (disk_open p d) q =
     (if same_dir p q \<and> disk_lookup d p = None then Some [] else disk_lookup d q)"
  by (auto simp: disk_open_def disk_lookup_def same_dir_def update_conv' split: option.split)

lemma disk_lookup_same: "same_dir p q \<Longrightarrow> disk_lookup d p = disk_lookup d q"
  by (simp add: disk_lookup_def same_dir_def)

lemma disk_meta_get_open [disk_simps]: "disk_meta_get (disk_open p d) q k = disk_meta_get d q k"
  by (auto simp: disk_meta_get_def disk_lookup_open dest: disk_lookup_same [of p q d]
      split: option.split)

lemma disk_lookup_set [disk_simps]:
  "disk_lookup (disk_meta_set p k v d) q =
     (if same_dir p q then Some (AList.update k v (case disk_lookup d p of None \<Rightarrow> [] | Some m \<Rightarrow> m))
      else disk_lookup d q)"
  by (auto simp: disk_meta_set_def disk_lookup_def same_dir_def update_conv')

lemma disk_meta_get_set [disk_simps]:
  "disk_meta_get (disk_meta_set p k v d) q k' =
     (if same_dir p q \<and> k' = k then Some v else disk_meta_get d q k')"
  by (auto simp: disk_meta_get_def disk_lookup_set update_conv' dest: disk_lookup_same [of p q d]
      split: option.split)

lemma map_of_filter_keys: "map_of (filter (\<lambda>(q, _). P q) d) q = (if P q then map_of d q else None)"
  by (induction d) auto

lemma disk_meta_get_store_open [disk_simps]:
  "disk_meta_get (store_open outcome p d) q k = disk_meta_get d q k"
  by (simp add: store_open_def disk_simps)

lemma disk_lookup_remove [disk_simps]:
  "disk_lookup (disk_remove gone p d) q =
     (if path_starts_with q p \<and> gone (path_components q) then None else disk_lookup d q)"
  using map_of_filter_keys [of "\<lambda>q. \<not> (prefix (path_components p) q \<and> gone q)" d "path_components q"]
  by (simp add: disk_remove_def disk_lookup_def path_starts_with_def)

lemma disk_meta_get_remove [disk_simps]:
  "disk_meta_get (disk_remove gone p d) q k =
     (if path_starts_with q p \<and> gone (path_components q) then None else disk_meta_get d q k)"
  by (simp add: disk_meta_get_def disk_simps)

lemma disk_remove_all_absent: "\<not> disk_exists p d \<Longrightarrow> disk_remove_all p d = d"
  by (auto simp: disk_exists_def disk_remove_all_def disk_remove_def list_ex_iff filter_id_conv)

section \<open>The contract the control planes rely on\<close>

text \<open>
  A control plane sees a data plane through its identity marker. The interface: reading the
  marker at a path, stamping a path, destroying what is at or below a path, completely or as far as
  a failing removal gets, with the laws of each; the facts below are what the clients use.
\<close>

locale marked_planes =
  fixes marker_at :: "'d \<Rightarrow> path \<Rightarrow> string option"
    and stamp :: "path \<Rightarrow> string \<Rightarrow> 'd \<Rightarrow> 'd"
    and destroy :: "'g \<Rightarrow> path \<Rightarrow> 'd \<Rightarrow> 'd"
    and everything :: 'g
  assumes marker_stamp: "same_dir p q \<Longrightarrow> marker_at (stamp p v d) q = Some v"
    and marker_stamp_other: "\<not> same_dir p q \<Longrightarrow> marker_at (stamp p v d) q = marker_at d q"
    and marker_destroy: "path_starts_with q p \<Longrightarrow> marker_at (destroy everything p d) q = None"
    and marker_destroy_some: "marker_at (destroy g p d) q = marker_at d q \<or> marker_at (destroy g p d) q = None"
    and marker_destroy_other: "\<not> path_starts_with q p \<Longrightarrow> marker_at (destroy g p d) q = marker_at d q"
begin

lemma marker_destroy_self: "marker_at (destroy everything p d) p = None"
  by (rule marker_destroy) simp

lemma marker_lost_by_destroy:
  "marker_at d q = Some v \<Longrightarrow> marker_at (destroy g p d) q \<noteq> Some v \<Longrightarrow>
     path_starts_with q p \<and> marker_at (destroy g p d) q = None"
  using marker_destroy_other [of q p g d] marker_destroy_some [of g p d q] by auto

lemma marker_changed_by_stamp:
  "marker_at d q = Some v \<Longrightarrow> marker_at (stamp p w d) q \<noteq> Some v \<Longrightarrow> same_dir p q \<and> w \<noteq> v"
  by (metis marker_stamp marker_stamp_other)

lemma marker_stamp_destroy:
  "\<not> path_starts_with q p \<Longrightarrow> marker_at (destroy g p (stamp q v d)) q = Some v"
  by (simp add: marker_destroy_other marker_stamp same_dir_def)

end

end
