(* ===== verification/Tenant.thy ===== *)
theory Tenant
  imports Disk
begin

text \<open>
  The tenant control plane, \<open>crates/core/src/tenant.rs\<close>: the registry of tenant records kept
  as one JSON cell of the metadata table, the lifecycle operations on it, and the data-plane
  stores on disk they create, open and destroy. Every operation is a function of the plane's
  state and of what the outside world supplies to the call (the clock, the fresh identifier,
  the outcome of the file-system calls, the digest function).
\<close>

section \<open>State\<close>

datatype tenant_status = Provisioning | Active | Suspended | Purging | Purged

record tenant_record =
  tenant_id :: string
  tenant_name :: string
  tenant_residency :: string
  source_of_truth :: string
  tenant_status :: tenant_status
  tenant_path :: path
  max_documents :: nat
  storage_quota_bytes :: nat
  retention_days :: nat
  tenant_created_at :: string
  suspended_at :: "string option"
  purge_requested_at :: "string option"
  purged_at :: "string option"
  tenant_receipt :: "string option"

record tenant_plane =
  tenant_registry_file :: path
  tenant_registry :: "tenant_record list cell"
  tenant_disk :: disk

record provision_request =
  req_name :: string
  req_residency :: string
  req_source_of_truth :: string
  req_store_path :: path
  req_max_documents :: nat
  req_storage_quota_bytes :: nat
  req_retention_days :: nat

text \<open>What one call receives from outside: the result of \<open>now_rfc3339\<close>, of \<open>Uuid::new_v4\<close>,
  whether \<open>create_dir_all\<close> and \<open>remove_dir_all\<close> succeed, what a failing \<open>remove_dir_all\<close> has
  destroyed by then, how \<open>Store::open\<close> ends, the SHA-256 digest in hexadecimal and the decimal
  rendering of a number.\<close>

record call_io =
  io_now :: string
  io_uuid :: string
  io_mkdir_ok :: bool
  io_rmdir_ok :: bool
  io_gone :: "string list \<Rightarrow> bool"
  io_open :: open_outcome
  io_sha256_hex :: "string \<Rightarrow> string"
  io_decimal :: "nat \<Rightarrow> string"

datatype tenant_error =
    TenantNameEmpty
  | BadSourceOfTruth
  | TenantContainsRegistry
  | TenantRegistryMalformed
  | TenantLimitReached
  | TenantPathTaken
  | TenantCreateFailed
  | TenantOpenFailed
  | UnknownTenant string
  | TenantCannotOpen string tenant_status
  | TenantMarkerMismatch
  | OnlyActiveSuspend
  | OnlySuspendedReactivate
  | CannotEnterPurging
  | PurgeConfirmationMismatch
  | NoPurgeIntent string
  | TenantDestroyFailed

definition REGISTRY_TENANT_LIMIT :: nat where
  "REGISTRY_TENANT_LIMIT = 1000"

definition DATA_PLANE_MARKER :: string where
  "DATA_PLANE_MARKER = ''tenant.tenant_id''"

section \<open>Operations\<close>

definition load_tenants :: "tenant_plane \<Rightarrow> (tenant_error, tenant_record list) result" where
  "load_tenants s = (case tenant_registry s of
     Json r \<Rightarrow> Inr r | Malformed \<Rightarrow> Inl TenantRegistryMalformed | Missing \<Rightarrow> Inr [])"

definition save_tenants :: "tenant_record list \<Rightarrow> tenant_plane \<Rightarrow> tenant_plane" where
  "save_tenants r s = s\<lparr>tenant_registry := Json r\<rparr>"

definition find_tenant :: "string \<Rightarrow> tenant_record list \<Rightarrow> (tenant_error, tenant_record) result" where
  "find_tenant tid r = ok_or (find (\<lambda>t. tenant_id t = tid) r) (UnknownTenant tid)"

text \<open>\<open>record_mut\<close> and the write through it: the first record with the identifier is replaced
  and the registry saved.\<close>

definition write_tenant ::
  "string \<Rightarrow> (tenant_record \<Rightarrow> tenant_record) \<Rightarrow> tenant_record list \<Rightarrow> tenant_plane \<Rightarrow> tenant_plane" where
  "write_tenant tid f r s = save_tenants (update_first (\<lambda>t. tenant_id t = tid) f r) s"

definition new_tenant_record :: "call_io \<Rightarrow> provision_request \<Rightarrow> tenant_record" where
  "new_tenant_record io q =
     \<lparr>tenant_id = io_uuid io, tenant_name = trim (req_name q),
      tenant_residency = trim (req_residency q), source_of_truth = req_source_of_truth q,
      tenant_status = Active, tenant_path = req_store_path q,
      max_documents = req_max_documents q, storage_quota_bytes = req_storage_quota_bytes q,
      retention_days = req_retention_days q, tenant_created_at = io_now io,
      suspended_at = None, purge_requested_at = None, purged_at = None, tenant_receipt = None\<rparr>"

definition provision ::
  "call_io \<Rightarrow> provision_request \<Rightarrow> tenant_plane \<Rightarrow> tenant_plane \<times> (tenant_error, tenant_record) result" where
  "provision io q s =
     (if trim (req_name q) = [] then (s, Inl TenantNameEmpty)
      else if req_source_of_truth q \<notin> set [''local'', ''cloud'', ''hybrid''] then (s, Inl BadSourceOfTruth)
      else if path_starts_with (tenant_registry_file s) (req_store_path q)
        then (s, Inl TenantContainsRegistry)
      else case load_tenants s of Inl e \<Rightarrow> (s, Inl e) | Inr r \<Rightarrow>
        if REGISTRY_TENANT_LIMIT \<le> length r then (s, Inl TenantLimitReached)
        else if list_ex (\<lambda>t. tenant_path t = req_store_path q) r then (s, Inl TenantPathTaken)
        else if \<not> io_mkdir_ok io then (s, Inl TenantCreateFailed)
        else if io_open io \<noteq> Opened
          then (s\<lparr>tenant_disk := disk_open (req_store_path q) (tenant_disk s)\<rparr>, Inl TenantOpenFailed)
        else
          let p = req_store_path q;
              d1 = disk_open p (tenant_disk s);
              d2 = disk_meta_set p DATA_PLANE_MARKER (io_uuid io) d1;
              d3 = disk_meta_set p ''tenant.max_documents'' (io_decimal io (req_max_documents q)) d2;
              d4 = disk_meta_set p ''tenant.storage_quota_bytes''
                     (io_decimal io (req_storage_quota_bytes q)) d3;
              t = new_tenant_record io q
          in (save_tenants (r @ [t]) (s\<lparr>tenant_disk := d4\<rparr>), Inr t))"

definition list_tenants :: "tenant_plane \<Rightarrow> (tenant_error, tenant_record list) result" where
  "list_tenants s = load_tenants s"

text \<open>Opening a data plane returns its path as the handle of the opened store.\<close>

definition open_data_plane ::
  "call_io \<Rightarrow> string \<Rightarrow> tenant_plane \<Rightarrow> tenant_plane \<times> (tenant_error, path) result" where
  "open_data_plane io tid s =
     (case load_tenants s of Inl e \<Rightarrow> (s, Inl e) | Inr r \<Rightarrow>
      case find_tenant tid r of Inl e \<Rightarrow> (s, Inl e) | Inr t \<Rightarrow>
        if tenant_status t \<noteq> Active then (s, Inl (TenantCannotOpen tid (tenant_status t)))
        else let d = store_open (io_open io) (tenant_path t) (tenant_disk s); s' = s\<lparr>tenant_disk := d\<rparr> in
          if io_open io \<noteq> Opened then (s', Inl TenantOpenFailed)
          else if disk_meta_get d (tenant_path t) DATA_PLANE_MARKER \<noteq> Some tid
          then (s', Inl TenantMarkerMismatch)
          else (s', Inr (tenant_path t)))"

text \<open>The shape \<open>suspend\<close>, \<open>activate\<close> and \<open>request_purge\<close> share: load, find, check the
  status, write the record, save, return the written record.\<close>

definition transition_tenant ::
  "string \<Rightarrow> (tenant_status \<Rightarrow> bool) \<Rightarrow> tenant_error \<Rightarrow> (tenant_record \<Rightarrow> tenant_record)
    \<Rightarrow> tenant_plane \<Rightarrow> tenant_plane \<times> (tenant_error, tenant_record) result" where
  "transition_tenant tid ok err f s =
     (case load_tenants s of Inl e \<Rightarrow> (s, Inl e) | Inr r \<Rightarrow>
      case find_tenant tid r of Inl e \<Rightarrow> (s, Inl e) | Inr t \<Rightarrow>
        if \<not> ok (tenant_status t) then (s, Inl err)
        else (write_tenant tid f r s, Inr (f t)))"

definition suspend ::
  "call_io \<Rightarrow> string \<Rightarrow> tenant_plane \<Rightarrow> tenant_plane \<times> (tenant_error, tenant_record) result" where
  "suspend io tid = transition_tenant tid (\<lambda>st. st = Active) OnlyActiveSuspend
     (\<lambda>t. t\<lparr>tenant_status := Suspended, suspended_at := Some (io_now io)\<rparr>)"

definition activate ::
  "string \<Rightarrow> tenant_plane \<Rightarrow> tenant_plane \<times> (tenant_error, tenant_record) result" where
  "activate tid = transition_tenant tid (\<lambda>st. st = Suspended) OnlySuspendedReactivate
     (\<lambda>t. t\<lparr>tenant_status := Active, suspended_at := None\<rparr>)"

definition request_purge ::
  "call_io \<Rightarrow> string \<Rightarrow> tenant_plane \<Rightarrow> tenant_plane \<times> (tenant_error, tenant_record) result" where
  "request_purge io tid = transition_tenant tid (\<lambda>st. st = Active \<or> st = Suspended) CannotEnterPurging
     (\<lambda>t. t\<lparr>tenant_status := Purging, purge_requested_at := Some (io_now io)\<rparr>)"

definition purge_digest :: "call_io \<Rightarrow> string \<Rightarrow> path \<Rightarrow> string" where
  "purge_digest io tid p = ''sha256:'' @
     io_sha256_hex io (''cortana.tenant.purge.v1'' @ tid @ io_now io @ p)"

definition confirm_purge ::
  "call_io \<Rightarrow> string \<Rightarrow> string \<Rightarrow> tenant_plane \<Rightarrow> tenant_plane \<times> (tenant_error, tenant_record) result" where
  "confirm_purge io tid confirmation s =
     (if confirmation \<noteq> tid then (s, Inl PurgeConfirmationMismatch)
      else case load_tenants s of Inl e \<Rightarrow> (s, Inl e) | Inr r \<Rightarrow>
      case find_tenant tid r of Inl e \<Rightarrow> (s, Inl e) | Inr t \<Rightarrow>
        if tenant_status t \<noteq> Purging then (s, Inl (NoPurgeIntent tid))
        else if disk_exists (tenant_path t) (tenant_disk s) \<and> \<not> io_rmdir_ok io
          then (s\<lparr>tenant_disk := disk_remove (io_gone io) (tenant_path t) (tenant_disk s)\<rparr>, Inl TenantDestroyFailed)
        else
          let d = disk_remove_all (tenant_path t) (tenant_disk s);
              f = (\<lambda>t. t\<lparr>tenant_status := Purged, purged_at := Some (io_now io),
                     tenant_receipt := Some (purge_digest io tid (tenant_path t))\<rparr>)
          in (write_tenant tid f r (s\<lparr>tenant_disk := d\<rparr>), Inr (f t)))"

definition tenant_status_report ::
  "tenant_plane \<Rightarrow> (tenant_error, nat \<times> (tenant_status \<times> nat) list) result" where
  "tenant_status_report s = bindE (load_tenants s) (\<lambda>r.
     Inr (length r, map (\<lambda>st. (st, length (filter (\<lambda>t. tenant_status t = st) r)))
       [Active, Suspended, Purging, Purged]))"

text \<open>The calls that change the control plane, and their runs.\<close>

datatype tenant_call =
    CProvision provision_request
  | COpen string
  | CSuspend string
  | CActivate string
  | CRequestPurge string
  | CConfirmPurge string string

fun tenant_exec :: "call_io \<Rightarrow> tenant_call \<Rightarrow> tenant_plane \<Rightarrow> tenant_plane" where
  "tenant_exec io (CProvision q) s = fst (provision io q s)"
| "tenant_exec io (COpen tid) s = fst (open_data_plane io tid s)"
| "tenant_exec io (CSuspend tid) s = fst (suspend io tid s)"
| "tenant_exec io (CActivate tid) s = fst (activate tid s)"
| "tenant_exec io (CRequestPurge tid) s = fst (request_purge io tid s)"
| "tenant_exec io (CConfirmPurge tid c) s = fst (confirm_purge io tid c s)"

definition tenants :: "tenant_plane \<Rightarrow> tenant_record list" where
  "tenants s = (case tenant_registry s of Json r \<Rightarrow> r | _ \<Rightarrow> [])"

section \<open>Effects of the calls\<close>

interpretation tp: marked_planes
  "\<lambda>d p. disk_meta_get d p DATA_PLANE_MARKER"
  "\<lambda>p v d. disk_meta_set p DATA_PLANE_MARKER v d"
  disk_remove "\<lambda>_. True"
  by unfold_locales (auto simp: disk_simps)

text \<open>The edges of the lifecycle: provisioning completes within its call, so a record enters
  the registry active.\<close>

inductive lifecycle_edge :: "tenant_status \<Rightarrow> tenant_status \<Rightarrow> bool" where
  suspend_edge: "lifecycle_edge Active Suspended"
| reactivate_edge: "lifecycle_edge Suspended Active"
| purge_active_edge: "lifecycle_edge Active Purging"
| purge_suspended_edge: "lifecycle_edge Suspended Purging"
| purged_edge: "lifecycle_edge Purging Purged"

inductive_simps lifecycle_edge_from_Purged [simp]: "lifecycle_edge Purged st"
inductive_simps lifecycle_edge_to_Provisioning [simp]: "lifecycle_edge st Provisioning"

lemma find_tenant_Inr [result_simps]:
  "find_tenant tid r = Inr t \<longleftrightarrow> find (\<lambda>t. tenant_id t = tid) r = Some t"
  by (simp add: find_tenant_def result_simps)

lemma load_tenants_Inr: "load_tenants s = Inr r \<Longrightarrow> tenants s = r"
  by (auto simp: load_tenants_def tenants_def split: cell.splits)

lemma tenants_save [simp]: "tenants (save_tenants r s) = r"
  by (simp add: save_tenants_def tenants_def)

lemma tenants_disk [simp]: "tenants (s\<lparr>tenant_disk := d\<rparr>) = tenants s"
  by (simp add: tenants_def)

lemma disk_save [simp]: "tenant_disk (save_tenants r s) = tenant_disk s"
  by (simp add: save_tenants_def)

lemma registry_file_save [simp]: "tenant_registry_file (save_tenants r s) = tenant_registry_file s"
  by (simp add: save_tenants_def)

text \<open>A lifecycle write keeps identity, path and creation data; \<open>coherent\<close> says which
  timestamps a status carries.\<close>

definition coherent :: "tenant_record \<Rightarrow> bool" where
  "coherent t \<longleftrightarrow> tenant_status t \<noteq> Provisioning \<and> tenant_name t \<noteq> []
     \<and> source_of_truth t \<in> set [''local'', ''cloud'', ''hybrid'']
     \<and> (tenant_status t = Active \<longrightarrow> suspended_at t = None)
     \<and> (tenant_status t = Suspended \<longrightarrow> suspended_at t \<noteq> None)
     \<and> (purge_requested_at t \<noteq> None \<longleftrightarrow> tenant_status t \<in> {Purging, Purged})
     \<and> (tenant_receipt t \<noteq> None \<longleftrightarrow> tenant_status t = Purged)
     \<and> (purged_at t \<noteq> None \<longleftrightarrow> tenant_status t = Purged)"

definition lifecycle_write :: "tenant_record \<Rightarrow> tenant_record \<Rightarrow> bool" where
  "lifecycle_write t u \<longleftrightarrow> lifecycle_edge (tenant_status t) (tenant_status u)
     \<and> tenant_id u = tenant_id t \<and> tenant_path u = tenant_path t
     \<and> max_documents u = max_documents t \<and> storage_quota_bytes u = storage_quota_bytes t
     \<and> tenant_residency u = tenant_residency t
     \<and> (coherent t \<longrightarrow> coherent u)"

text \<open>What a call does to the registry: nothing, one new active record at the end, or one
  write along a lifecycle edge to the record the call names.\<close>

inductive registry_effect :: "call_io \<Rightarrow> tenant_record list \<Rightarrow> tenant_record list \<Rightarrow> bool" for io where
  keep: "registry_effect io r r"
| add: "length r < REGISTRY_TENANT_LIMIT \<Longrightarrow> tenant_path t \<notin> tenant_path ` set r \<Longrightarrow>
     tenant_id t = io_uuid io \<Longrightarrow> tenant_status t = Active \<Longrightarrow> coherent t \<Longrightarrow>
     registry_effect io r (r @ [t])"
| move: "find (\<lambda>t. tenant_id t = tid) r = Some t \<Longrightarrow> lifecycle_write t (f t) \<Longrightarrow>
     registry_effect io r (update_first (\<lambda>t. tenant_id t = tid) f r)"

lemma transition_cases:
  assumes "transition_tenant tid ok err f s = (s', res)"
  obtains (failed) e where "s' = s" "res = Inl e"
  | (written) t where "find (\<lambda>t. tenant_id t = tid) (tenants s) = Some t" "ok (tenant_status t)"
      "s' = save_tenants (update_first (\<lambda>t. tenant_id t = tid) f (tenants s)) s" "res = Inr (f t)"
proof (cases res)
  case (Inl e)
  with assms have "s' = s"
    by (auto simp: transition_tenant_def split: sum.splits if_splits)
  from failed [OF this Inl] show thesis .
next
  case (Inr u)
  note unf = assms [unfolded transition_tenant_def]
  from unf Inr obtain r t where r: "load_tenants s = Inr r" and t: "find_tenant tid r = Inr t"
    by (auto split: sum.splits)
  with unf Inr show thesis
    by (intro written [of t])
      (auto simp: load_tenants_Inr result_simps write_tenant_def split: if_splits)
qed

lemma transition_effect:
  assumes "transition_tenant tid ok err f s = (s', res)"
    and edge: "\<And>t. ok (tenant_status t) \<Longrightarrow> lifecycle_write t (f t)"
  shows "registry_effect io (tenants s) (tenants s')"
  using assms(1)
proof (cases rule: transition_cases)
  case (failed e)
  then show ?thesis by (simp add: registry_effect.keep)
next
  case (written t)
  then show ?thesis 
    by (simp add: registry_effect.move [where f = f, OF written(1) edge [OF written(2)]])
qed

lemma transition_frame:
  assumes "transition_tenant tid ok err f s = (s', res)"
  shows "tenant_disk s' = tenant_disk s" "tenant_registry_file s' = tenant_registry_file s"
  using assms by (auto elim: transition_cases)

lemma suspend_write: "st = Active \<Longrightarrow> tenant_status t = st \<Longrightarrow>
    lifecycle_write t (t\<lparr>tenant_status := Suspended, suspended_at := Some n\<rparr>)"
  by (auto simp: lifecycle_write_def coherent_def intro: lifecycle_edge.intros)

lemma activate_write: "tenant_status t = Suspended \<Longrightarrow>
    lifecycle_write t (t\<lparr>tenant_status := Active, suspended_at := None\<rparr>)"
  by (auto simp: lifecycle_write_def coherent_def intro: lifecycle_edge.intros)

lemma request_purge_write: "tenant_status t = Active \<or> tenant_status t = Suspended \<Longrightarrow>
    lifecycle_write t (t\<lparr>tenant_status := Purging, purge_requested_at := Some n\<rparr>)"
  by (auto simp: lifecycle_write_def coherent_def intro: lifecycle_edge.intros)

lemma confirm_purge_write: "tenant_status t = Purging \<Longrightarrow>
    lifecycle_write t (t\<lparr>tenant_status := Purged, purged_at := Some n, tenant_receipt := Some d\<rparr>)"
  by (auto simp: lifecycle_write_def coherent_def intro: lifecycle_edge.intros)

lemma new_tenant_record_simps [simp]:
  "tenant_id (new_tenant_record io q) = io_uuid io"
  "tenant_path (new_tenant_record io q) = req_store_path q"
  "tenant_status (new_tenant_record io q) = Active"
  by (simp_all add: new_tenant_record_def)

lemma new_tenant_coherent:
  "trim (req_name q) \<noteq> [] \<Longrightarrow> req_source_of_truth q \<in> set [''local'', ''cloud'', ''hybrid''] \<Longrightarrow>
    coherent (new_tenant_record io q)"
  by (simp add: coherent_def new_tenant_record_def)

text \<open>Provisioning either fails, leaving at most an empty directory, or registers the new record and
  stamps its data plane.\<close>

lemma provision_cases:
  assumes "provision io q s = (s', res)"
  obtains (failed) e where "tenants s' = tenants s" "tenant_registry_file s' = tenant_registry_file s"
      "\<And>p k. disk_meta_get (tenant_disk s') p k = disk_meta_get (tenant_disk s) p k" "res = Inl e"
  | (registered) d where "s' = save_tenants (tenants s @ [new_tenant_record io q]) (s\<lparr>tenant_disk := d\<rparr>)"
      "res = Inr (new_tenant_record io q)"
      "trim (req_name q) \<noteq> []" "req_source_of_truth q \<in> set [''local'', ''cloud'', ''hybrid'']"
      "\<not> path_starts_with (tenant_registry_file s) (req_store_path q)"
      "length (tenants s) < REGISTRY_TENANT_LIMIT"
      "req_store_path q \<notin> tenant_path ` set (tenants s)"
      "\<And>p. disk_meta_get d p DATA_PLANE_MARKER =
         disk_meta_get (disk_meta_set (req_store_path q) DATA_PLANE_MARKER (io_uuid io)
           (tenant_disk s)) p DATA_PLANE_MARKER"
proof (cases "res")
  case (Inl e)
  with assms have "s' = s \<or> s' = s\<lparr>tenant_disk := disk_open (req_store_path q) (tenant_disk s)\<rparr>"
    by (auto simp: provision_def Let_def split: sum.splits if_splits)
  then show thesis by (intro failed [OF _ _ _ Inl]) (auto simp: disk_simps)
next
  case (Inr t)
  note u = assms [unfolded provision_def Let_def]
  obtain r where r: "load_tenants s = Inr r"
    using u Inr by (auto split: sum.splits if_splits)
  have path: "req_store_path q \<notin> tenant_path ` set r"
    using u r Inr by (force simp: list_ex_iff split: if_splits)
  show thesis
    by (rule registered, insert u r Inr path)
      (auto simp: load_tenants_Inr disk_simps DATA_PLANE_MARKER_def split: if_splits)
qed

lemma provision_effect:
  assumes "provision io q s = (s', res)"
  shows "registry_effect io (tenants s) (tenants s')"
    and "tenant_registry_file s' = tenant_registry_file s"
  using assms
  by (auto elim!: provision_cases simp del: list.set
      intro: registry_effect.keep intro!: registry_effect.add new_tenant_coherent)

lemma open_effect:
  assumes "open_data_plane io tid s = (s', res)"
  shows "tenants s' = tenants s" and "tenant_registry_file s' = tenant_registry_file s"
  using assms by (auto simp: open_data_plane_def Let_def split: sum.splits if_splits)

lemma confirm_purge_effect:
  assumes "confirm_purge io tid c s = (s', res)"
  shows "registry_effect io (tenants s) (tenants s')"
    and "tenant_registry_file s' = tenant_registry_file s"
  using assms
  by (auto simp: confirm_purge_def write_tenant_def Let_def result_simps
      dest!: load_tenants_Inr intro!: registry_effect.intros confirm_purge_write
      split: sum.splits if_splits)

lemma tenant_exec_effect: "registry_effect io (tenants s) (tenants (tenant_exec io c s))"
proof (cases c)
  case (CProvision q)
  then show ?thesis using provision_effect(1) [of io q s] by (cases "provision io q s") auto
next
  case (COpen tid)
  then show ?thesis using open_effect(1) [of io tid s]
    by (cases "open_data_plane io tid s") (auto intro: registry_effect.keep)
next
  case (CSuspend tid)
  then show ?thesis
    using transition_effect(1) [OF prod.collapse [symmetric] suspend_write [OF refl]]
    by (simp add: suspend_def)
next
  case (CActivate tid)
  then show ?thesis
    using transition_effect(1) [OF prod.collapse [symmetric] activate_write]
    by (simp add: activate_def)
next
  case (CRequestPurge tid)
  then show ?thesis
    using transition_effect(1) [OF prod.collapse [symmetric] request_purge_write]
    by (simp add: request_purge_def)
next
  case (CConfirmPurge tid conf)
  then show ?thesis using confirm_purge_effect(1) [of io tid conf s]
    by (cases "confirm_purge io tid conf s") auto
qed

section \<open>The registry invariant\<close>

definition tenant_inv :: "tenant_record list \<Rightarrow> bool" where
  "tenant_inv r \<longleftrightarrow> length r \<le> REGISTRY_TENANT_LIMIT \<and> distinct (map tenant_id r)
     \<and> distinct (map tenant_path r) \<and> (\<forall>t\<in>set r. coherent t)"

lemma tenant_inv_update:
  assumes "tenant_inv r" "find (\<lambda>t. tenant_id t = tid) r = Some t" "lifecycle_write t (f t)"
  shows "tenant_inv (update_first (\<lambda>t. tenant_id t = tid) f r)"
proof -
  have t: "t \<in> set r" "tenant_id t = tid"
    using find_Some_set [OF assms(2)] by auto
  have only: "x = t" if "x \<in> set r" "tenant_id x = tid" for x
    using that t assms(1) by (auto simp: tenant_inv_def distinct_map inj_on_def)
  have keys: "map tenant_id (update_first (\<lambda>t. tenant_id t = tid) f r) = map tenant_id r"
    "map tenant_path (update_first (\<lambda>t. tenant_id t = tid) f r) = map tenant_path r"
    using only assms(3) by (auto intro!: map_update_first_id simp: lifecycle_write_def)
  have "coherent x" if "x \<in> set (update_first (\<lambda>t. tenant_id t = tid) f r)" for x
    using set_update_firstD [OF that] only assms(1,3) by (auto simp: tenant_inv_def lifecycle_write_def)
  then show ?thesis
    using assms(1) keys by (simp add: tenant_inv_def)
qed

lemma registry_effect_inv [inv_intros]:
  assumes "registry_effect io r r'" "tenant_inv r" "io_uuid io \<notin> tenant_id ` set r"
  shows "tenant_inv r'"
  using assms(1)
proof cases
  case (move tid t f)
  with assms(2) show ?thesis by (auto intro: tenant_inv_update)
qed (use assms in \<open>auto simp: tenant_inv_def\<close>)

text \<open>
  The states a control plane reaches from an empty registry, whatever is on the disk: every
  call may be made at any time, with any arguments and any outcome of the file-system calls;
  the one assumption is that the identifier \<open>Uuid::new_v4\<close> supplies is not in use.
\<close>

definition tenant_init :: "tenant_plane \<Rightarrow> bool" where
  "tenant_init s \<longleftrightarrow> tenant_registry s = Missing"

inductive tenant_step :: "tenant_plane \<Rightarrow> tenant_plane \<Rightarrow> bool" where
  tenant_call: "io_uuid io \<notin> tenant_id ` set (tenants s) \<Longrightarrow> tenant_step s (tenant_exec io c s)"

abbreviation tenant_reachable :: "tenant_plane \<Rightarrow> bool" where
  "tenant_reachable \<equiv> reachable tenant_init tenant_step"

text \<open>What every call respects: records stay, keep their identity, and move along the lifecycle.\<close>

definition kept_along :: "(tenant_status \<Rightarrow> tenant_status \<Rightarrow> bool) \<Rightarrow> tenant_record \<Rightarrow> tenant_plane \<Rightarrow> bool" where
  "kept_along edges t s \<longleftrightarrow> (\<exists>u\<in>set (tenants s).
      tenant_id u = tenant_id t \<and> tenant_path u = tenant_path t
      \<and> tenant_residency u = tenant_residency t \<and> edges (tenant_status t) (tenant_status u))
    \<and> (tenant_status t = Purged \<longrightarrow> t \<in> set (tenants s))"

definition tenants_grow :: "tenant_plane \<Rightarrow> tenant_plane \<Rightarrow> bool" where
  "tenants_grow s s' \<longleftrightarrow> (\<forall>t\<in>set (tenants s). kept_along lifecycle_edge\<^sup>*\<^sup>* t s')"

lemma lifecycle_write_keeps:
  "lifecycle_write t u \<Longrightarrow> tenant_id u = tenant_id t \<and> tenant_path u = tenant_path t
     \<and> tenant_residency u = tenant_residency t \<and> lifecycle_edge (tenant_status t) (tenant_status u)"
  by (simp add: lifecycle_write_def)

lemma update_first_in:
  "x \<in> set xs \<Longrightarrow> x \<in> set (update_first p f xs) \<or> find p xs = Some x \<and> f x \<in> set (update_first p f xs)"
  by (induction xs) auto

lemma tenant_exec_keeps:
  assumes "t \<in> set (tenants s)"
  shows "(\<exists>u\<in>set (tenants (tenant_exec io c s)).
      tenant_id u = tenant_id t \<and> tenant_path u = tenant_path t
      \<and> tenant_residency u = tenant_residency t
      \<and> (u = t \<or> lifecycle_edge (tenant_status t) (tenant_status u)))
    \<and> (tenant_status t = Purged \<longrightarrow> t \<in> set (tenants (tenant_exec io c s)))"
  using tenant_exec_effect [of io s c]
proof cases
  case (move tid t' f)
  from update_first_in [OF assms, of "\<lambda>t. tenant_id t = tid" f] move
  show ?thesis by (auto dest!: lifecycle_write_keeps)
qed (use assms in auto)

lemma tenant_exec_grows: "tenants_grow s (tenant_exec io c s)"
  unfolding tenants_grow_def kept_along_def
proof (intro ballI conjI)
  fix t assume t: "t \<in> set (tenants s)"
  from tenant_exec_keeps [OF t, of io c] obtain u where u: "u \<in> set (tenants (tenant_exec io c s))"
    "tenant_id u = tenant_id t" "tenant_path u = tenant_path t" "tenant_residency u = tenant_residency t"
    "u = t \<or> lifecycle_edge (tenant_status t) (tenant_status u)" by blast
  from u(5) have "lifecycle_edge\<^sup>*\<^sup>* (tenant_status t) (tenant_status u)" by blast
  with u(1-4) show "\<exists>u\<in>set (tenants (tenant_exec io c s)). tenant_id u = tenant_id t \<and> tenant_path u = tenant_path t
      \<and> tenant_residency u = tenant_residency t \<and> lifecycle_edge\<^sup>*\<^sup>* (tenant_status t) (tenant_status u)" by blast
  show "tenant_status t = Purged \<longrightarrow> t \<in> set (tenants (tenant_exec io c s))"
    using tenant_exec_keeps [OF t] by blast
qed

interpretation tr: stepwise tenant_init tenant_step "\<lambda>s. tenant_inv (tenants s)" tenants_grow
proof
  show "tenant_inv (tenants s)" if "tenant_init s" for s
    using that by (simp add: tenant_init_def tenants_def tenant_inv_def)
  show "tenant_inv (tenants s')" if "tenant_inv (tenants s)" "tenant_step s s'" for s s'
    using that(2,1) by cases (blast intro: inv_intros tenant_exec_effect)
  show "tenants_grow s s'" if "tenant_step s s'" for s s'
    using that by cases (simp add: tenant_exec_grows)
  show "tenants_grow s s" for s by (auto simp: tenants_grow_def kept_along_def)
  show "tenants_grow s u" if "tenants_grow s t" "tenants_grow t u" for s t u
    unfolding tenants_grow_def
  proof
    fix x assume x: "x \<in> set (tenants s)"
    with that(1) have k: "kept_along lifecycle_edge\<^sup>*\<^sup>* x t" by (simp add: tenants_grow_def)
    then obtain y where y: "y \<in> set (tenants t)" "tenant_id y = tenant_id x" "tenant_path y = tenant_path x"
      "tenant_residency y = tenant_residency x" "lifecycle_edge\<^sup>*\<^sup>* (tenant_status x) (tenant_status y)"
      by (auto simp: kept_along_def)
    have "kept_along lifecycle_edge\<^sup>*\<^sup>* y u" using that(2) y(1) by (simp add: tenants_grow_def)
    moreover have "x \<in> set (tenants u)" if "tenant_status x = Purged"
      using that k \<open>tenants_grow t u\<close> by (auto simp: kept_along_def tenants_grow_def)
    ultimately show "kept_along lifecycle_edge\<^sup>*\<^sup>* x u"
      using y(2-5) by (auto simp: kept_along_def intro: rtranclp_trans)
  qed
qed

section \<open>Concrete states for the witnesses\<close>

definition ex_io :: "string \<Rightarrow> call_io" where
  "ex_io u = \<lparr>io_now = ''t'', io_uuid = u, io_mkdir_ok = True, io_rmdir_ok = True,
     io_gone = (\<lambda>_. False), io_open = Opened,
     io_sha256_hex = (\<lambda>_. ''d''), io_decimal = (\<lambda>_. ''1'')\<rparr>"

definition ex_request :: "path \<Rightarrow> provision_request" where
  "ex_request p = \<lparr>req_name = ''acme'', req_residency = ''eu'', req_source_of_truth = ''cloud'',
     req_store_path = p, req_max_documents = 10, req_storage_quota_bytes = 10,
     req_retention_days = 9\<rparr>"

definition ex_plane :: tenant_plane where
  "ex_plane = \<lparr>tenant_registry_file = ''/cp'', tenant_registry = Missing, tenant_disk = []\<rparr>"

lemma ex_paths [simp]:
  "path_components ''/cp'' = [''/'', ''cp'']"
  "path_components ''/t/x'' = [''/'', ''t'', ''x'']"
  "path_components ''/t/x/y'' = [''/'', ''t'', ''x'', ''y'']"
  by (simp_all add: path_eval)

lemma ex_trim [simp]: "trim ''acme'' = ''acme''" "trim ''eu'' = ''eu''"
  by (simp_all add: text_eval)

lemmas tenant_eval = tenant_exec.simps provision_def new_tenant_record_def load_tenants_def
  save_tenants_def find_tenant_def write_tenant_def transition_tenant_def suspend_def
  activate_def request_purge_def confirm_purge_def open_data_plane_def purge_digest_def
  REGISTRY_TENANT_LIMIT_def DATA_PLANE_MARKER_def ok_or_def Let_def path_starts_with_def
  ex_io_def ex_request_def disk_meta_get_def disk_lookup_def disk_open_def disk_meta_set_def
  disk_remove_all_def disk_remove_def disk_exists_def store_open_def

definition ex_plane1 :: tenant_plane where
  "ex_plane1 = tenant_exec (ex_io ''a'') (CProvision (ex_request ''/t/x'')) ex_plane"

lemma ex_plane1_tenants: "tenants ex_plane1 = [new_tenant_record (ex_io ''a'') (ex_request ''/t/x'')]"
  by (simp add: ex_plane1_def ex_plane_def tenants_def tenant_eval)

definition ex_meta :: "string \<Rightarrow> meta" where
  "ex_meta u = [(''tenant.tenant_id'', u), (''tenant.max_documents'', ''1''),
     (''tenant.storage_quota_bytes'', ''1'')]"

lemma ex_plane1_eq:
  "ex_plane1 = \<lparr>tenant_registry_file = ''/cp'',
     tenant_registry = Json [new_tenant_record (ex_io ''a'') (ex_request ''/t/x'')],
     tenant_disk = [([''/'', ''t'', ''x''], ex_meta ''a'')]\<rparr>"
  by (simp add: ex_plane1_def ex_plane_def ex_meta_def tenant_eval)

lemma ex_plane1_reachable: "tenant_reachable ex_plane1"
proof -
  have "tenant_reachable ex_plane" by (rule reachable_start) (simp add: tenant_init_def ex_plane_def)
  then show ?thesis
    unfolding ex_plane1_def by (rule reachable_step) (rule tenant_call, simp add: ex_plane_def tenants_def)
qed

section \<open>Properties\<close>

text \<open>
  C1. In every reachable state of the control plane the registry holds at most 1000 records
  with distinct identifiers and distinct store paths, none is provisioning, and the recorded
  timestamps match the status: a suspension time exactly constrains suspended and active
  records, a purge intent is recorded exactly for purging and purged records, and a receipt
  digest exactly for purged ones.
\<close>

theorem tenant_registry_invariant:
  assumes "tenant_reachable s"
  shows "length (tenants s) \<le> 1000 \<and> distinct (map tenant_id (tenants s))
    \<and> distinct (map tenant_path (tenants s)) \<and> (\<forall>t\<in>set (tenants s). coherent t)"
  using tr.always_inv [OF assms] by (simp add: tenant_inv_def REGISTRY_TENANT_LIMIT_def)

theorem tenant_registry_invariant_witness:
  "length (tenants ex_plane1) \<le> 1000 \<and> distinct (map tenant_id (tenants ex_plane1))
    \<and> distinct (map tenant_path (tenants ex_plane1)) \<and> list_all coherent (tenants ex_plane1)"
  using tenant_registry_invariant [OF ex_plane1_reachable] by (simp add: list_all_iff)

text \<open>
  C2. Records are never dropped, and their identifier, store path and residency never change:
  whatever is called, in whatever state, every record either stays as it is or moves along one
  edge of the lifecycle (active and suspended into each other, either into purging, purging into
  purged). So along any sequence of calls from a reachable state every record keeps its identity
  and follows the lifecycle, and a purged record, the audit receipt included, is never changed
  again.
\<close>

theorem tenant_lifecycle:
  assumes "t \<in> set (tenants s)"
  shows "(\<exists>u\<in>set (tenants (tenant_exec io c s)).
      tenant_id u = tenant_id t \<and> tenant_path u = tenant_path t
      \<and> tenant_residency u = tenant_residency t
      \<and> (u = t \<or> lifecycle_edge (tenant_status t) (tenant_status u)))
    \<and> (tenant_status t = Purged \<longrightarrow> t \<in> set (tenants (tenant_exec io c s)))
    \<and> (tenant_reachable s \<and> tenant_step\<^sup>*\<^sup>* s s' \<longrightarrow> kept_along lifecycle_edge\<^sup>*\<^sup>* t s')"
proof -
  have "kept_along lifecycle_edge\<^sup>*\<^sup>* t s'" if "tenant_reachable s \<and> tenant_step\<^sup>*\<^sup>* s s'"
    using tr.always_grow that assms unfolding tenants_grow_def by blast
  with tenant_exec_keeps [OF assms, of io c] show ?thesis by blast
qed

theorem tenant_lifecycle_witness:
  "(\<exists>u\<in>set (tenants (tenant_exec (ex_io ''b'') (CRequestPurge ''a'') ex_plane1)). tenant_id u = ''a'')
   \<and> kept_along lifecycle_edge\<^sup>*\<^sup>* (new_tenant_record (ex_io ''a'') (ex_request ''/t/x''))
     (tenant_exec (ex_io ''b'') (CRequestPurge ''a'') ex_plane1)"
proof -
  have "tenant_step ex_plane1 (tenant_exec (ex_io ''b'') (CRequestPurge ''a'') ex_plane1)"
    by (rule tenant_call) (simp add: ex_plane1_tenants ex_io_def)
  then show ?thesis
    using ex_plane1_reachable tenant_lifecycle [of "new_tenant_record (ex_io ''a'') (ex_request ''/t/x'')" ex_plane1
        "ex_io ''b''" "CRequestPurge ''a''" "tenant_exec (ex_io ''b'') (CRequestPurge ''a'') ex_plane1"]
    by (auto simp: ex_plane1_tenants ex_io_def)
qed

text \<open>
  A data plane opens exactly when the registry is readable, its first record with the
  requested identifier is active, the store at that record's path can be opened and it carries the
  requested identifier as its marker; opening never writes the registry or any marker.
\<close>

theorem open_data_plane_spec:
  "(snd (open_data_plane io tid s) = Inr p \<longleftrightarrow>
      tenant_registry s \<noteq> Malformed \<and>
      (\<exists>t. find (\<lambda>t. tenant_id t = tid) (tenants s) = Some t \<and> tenant_status t = Active
        \<and> io_open io = Opened
        \<and> disk_meta_get (tenant_disk s) (tenant_path t) DATA_PLANE_MARKER = Some tid
        \<and> p = tenant_path t))
    \<and> tenants (fst (open_data_plane io tid s)) = tenants s
    \<and> disk_meta_get (tenant_disk (fst (open_data_plane io tid s))) q DATA_PLANE_MARKER
        = disk_meta_get (tenant_disk s) q DATA_PLANE_MARKER"
proof (cases "load_tenants s")
  case (Inl e)
  then have "tenant_registry s = Malformed"
    by (simp add: load_tenants_def split: cell.splits)
  with Inl show ?thesis by (simp add: open_data_plane_def)
next
  case (Inr r)
  then have "tenant_registry s \<noteq> Malformed" "tenants s = r"
    by (auto simp: load_tenants_def tenants_def split: cell.splits)
  with Inr show ?thesis
    by (cases "find (\<lambda>t. tenant_id t = tid) r")
      (auto simp: open_data_plane_def find_tenant_def ok_or_def Let_def disk_simps)
qed

lemma exec_disk_transition [simp]:
  "tenant_disk (fst (suspend io tid s)) = tenant_disk s"
  "tenant_disk (fst (activate tid s)) = tenant_disk s"
  "tenant_disk (fst (request_purge io tid s)) = tenant_disk s"
  using transition_frame(1) [OF prod.collapse [symmetric]]
  by (simp_all add: suspend_def activate_def request_purge_def)

lemma confirm_purge_cases:
  assumes "confirm_purge io tid c s = (s', res)"
  obtains (failed) e where "s' = s" "res = Inl e"
  | (destroying) t gone where "c = tid" "find (\<lambda>t. tenant_id t = tid) (tenants s) = Some t"
      "tenant_status t = Purging" "tenant_disk s' = disk_remove gone (tenant_path t) (tenant_disk s)"
proof (cases res)
  case (Inl e)
  note unf = assms [unfolded confirm_purge_def Let_def]
  show thesis
  proof (cases "s' = s")
    case True
    from failed [OF this Inl] show thesis .
  next
    case False
    with unf Inl obtain r t where "load_tenants s = Inr r" "find_tenant tid r = Inr t"
      by (auto split: sum.splits if_splits)
    with unf Inl False show thesis
      by (intro destroying [of t])
        (auto simp: load_tenants_Inr find_tenant_def ok_or_def split: if_splits option.splits)
  qed
next
  case (Inr u)
  note unf = assms [unfolded confirm_purge_def Let_def]
  from unf Inr obtain r t where "load_tenants s = Inr r" "find_tenant tid r = Inr t"
    by (auto split: sum.splits if_splits)
  with unf Inr show thesis
    by (intro destroying [of t])
      (auto simp: load_tenants_Inr find_tenant_def ok_or_def write_tenant_def disk_remove_all_def
        split: if_splits option.splits)
qed

text \<open>
  C3. Data is destroyed only by the second phase of a purge: if a call makes the identity
  marker of some directory disappear, the call is \<open>confirm_purge\<close> with the confirmation equal
  to the tenant identifier, that tenant is in purging, and the directory is the tenant's
  store path or lies below it. A removal that fails halfway is no exception.
\<close>

theorem data_destroyed_only_by_confirmed_purge:
  assumes before: "disk_meta_get (tenant_disk s) q DATA_PLANE_MARKER = Some v"
    and after: "disk_meta_get (tenant_disk (tenant_exec io c s)) q DATA_PLANE_MARKER = None"
  shows "\<exists>tid t. c = CConfirmPurge tid tid
    \<and> find (\<lambda>t. tenant_id t = tid) (tenants s) = Some t
    \<and> tenant_status t = Purging \<and> path_starts_with q (tenant_path t)"
proof (cases c)
  case (CProvision req)
  obtain s' res where eq: "provision io req s = (s', res)" by fastforce
  then show ?thesis
  proof (cases rule: provision_cases)
    case (failed e)
    with before after CProvision eq show ?thesis by simp
  next
    case (registered d)
    then have "disk_meta_get (tenant_disk (tenant_exec io c s)) q DATA_PLANE_MARKER =
        disk_meta_get (disk_meta_set (req_store_path req) DATA_PLANE_MARKER (io_uuid io)
          (tenant_disk s)) q DATA_PLANE_MARKER"
      using CProvision eq by simp
    with before after tp.marker_stamp tp.marker_stamp_other show ?thesis
      by (metis option.distinct(1))
  qed
next
  case (COpen tid)
  with before after show ?thesis
    using open_data_plane_spec [of io tid s undefined q] by auto
next
  case (CConfirmPurge tid conf)
  obtain s' res where eq: "confirm_purge io tid conf s = (s', res)" by fastforce
  then show ?thesis
  proof (cases rule: confirm_purge_cases)
    case (failed e)
    with before after CConfirmPurge eq show ?thesis by simp
  next
    case (destroying t gone)
    then have "path_starts_with q (tenant_path t)"
      using before after CConfirmPurge eq tp.marker_lost_by_destroy [OF before, of gone "tenant_path t"]
      by simp
    with destroying CConfirmPurge show ?thesis by blast
  qed
qed (use before after in auto)

definition ex_plane2 :: tenant_plane where
  "ex_plane2 = tenant_exec (ex_io ''c'') (CRequestPurge ''a'')
     (tenant_exec (ex_io ''b'') (CProvision (ex_request ''/t/x/y'')) ex_plane1)"

lemma ex_plane2_eq:
  "ex_plane2 = \<lparr>tenant_registry_file = ''/cp'',
     tenant_registry = Json
       [(new_tenant_record (ex_io ''a'') (ex_request ''/t/x''))
          \<lparr>tenant_status := Purging, purge_requested_at := Some ''t''\<rparr>,
        new_tenant_record (ex_io ''b'') (ex_request ''/t/x/y'')],
     tenant_disk = [([''/'', ''t'', ''x''], ex_meta ''a''), ([''/'', ''t'', ''x'', ''y''], ex_meta ''b'')]\<rparr>"
  by (simp add: ex_plane2_def ex_plane1_eq ex_meta_def tenant_eval)

theorem data_destroyed_only_by_confirmed_purge_witness:
  "\<exists>tid t. CConfirmPurge ''a'' ''a'' = CConfirmPurge tid tid
    \<and> find (\<lambda>t. tenant_id t = tid) (tenants ex_plane2) = Some t
    \<and> tenant_status t = Purging \<and> path_starts_with ''/t/x'' (tenant_path t)"
  by (rule data_destroyed_only_by_confirmed_purge [where v = "''a''" and io = "ex_io ''d''"])
    (simp_all add: ex_plane2_eq ex_meta_def tenant_eval)

text \<open>
  Tenants are not isolated from a purge of a tenant placed above them. \<open>provision\<close> refuses only a
  store path whose text is already registered, so a store path below another tenant's may be there;
  confirming the purge of the outer tenant then removes the inner tenant's store, whose record stays
  active while its data plane no longer opens.
\<close>

theorem nested_purge_destroys_active_tenant:
  assumes "find (\<lambda>t. tenant_id t = a) (tenants s) = Some t" "tenant_status t = Purging"
    and "find (\<lambda>t. tenant_id t = b) (tenants s) = Some u" "tenant_status u = Active" "a \<noteq> b"
    and "path_starts_with (tenant_path u) (tenant_path t)" "io_rmdir_ok io" "io_open io' = Opened"
  shows "\<exists>s' r. confirm_purge io a a s = (s', Inr r) \<and> u \<in> set (tenants s')
    \<and> disk_meta_get (tenant_disk s') (tenant_path u) DATA_PLANE_MARKER = None
    \<and> snd (open_data_plane io' b s') = Inl TenantMarkerMismatch"
proof -
  have "tenant_registry s = Json (tenants s)"
    using assms(1) by (simp add: tenants_def split: cell.splits)
  then have load: "load_tenants s = Inr (tenants s)" by (simp add: load_tenants_def)
  let ?f = "\<lambda>t :: tenant_record. t\<lparr>tenant_status := Purged, purged_at := Some (io_now io),
    tenant_receipt := Some (purge_digest io a (tenant_path t))\<rparr>"
  let ?d = "disk_remove_all (tenant_path t) (tenant_disk s)"
  let ?r = "update_first (\<lambda>t. tenant_id t = a) ?f (tenants s)"
  let ?s' = "save_tenants ?r (s\<lparr>tenant_disk := ?d\<rparr>)"
  have purge: "confirm_purge io a a s = (?s', Inr (?f t))"
    using assms(1,2,7) load by (simp add: confirm_purge_def find_tenant_def ok_or_def write_tenant_def Let_def)
  have found: "find (\<lambda>t. tenant_id t = b) ?r = Some u"
  proof -
    have "find (\<lambda>t. tenant_id t = b) (update_first (\<lambda>t. tenant_id t = a) ?f xs) = find (\<lambda>t. tenant_id t = b) xs"
      for xs :: "tenant_record list" using assms(5) by (induction xs) auto
    with assms(3) show ?thesis by simp
  qed
  then have "u \<in> set ?r" by (auto dest: find_Some_set)
  moreover have none: "disk_meta_get ?d (tenant_path u) DATA_PLANE_MARKER = None"
    using tp.marker_destroy [OF assms(6)] by (simp add: disk_remove_all_def)
  moreover have "snd (open_data_plane io' b ?s') = Inl TenantMarkerMismatch"
    using found none assms(4,8)
    by (simp add: open_data_plane_def load_tenants_def save_tenants_def find_tenant_def ok_or_def Let_def disk_simps)
  ultimately show ?thesis using purge by (intro exI [of _ ?s'] exI [of _ "?f t"]) simp
qed

theorem nested_purge_destroys_active_tenant_witness:
  "\<exists>s' r. confirm_purge (ex_io ''d'') ''a'' ''a'' ex_plane2 = (s', Inr r)
     \<and> snd (open_data_plane (ex_io ''x'') ''b'' s') = Inl TenantMarkerMismatch"
proof -
  have "find (\<lambda>t. tenant_id t = ''a'') (tenants ex_plane2) = Some ((new_tenant_record (ex_io ''a'') (ex_request ''/t/x''))
      \<lparr>tenant_status := Purging, purge_requested_at := Some ''t''\<rparr>)"
    and "find (\<lambda>t. tenant_id t = ''b'') (tenants ex_plane2) = Some (new_tenant_record (ex_io ''b'') (ex_request ''/t/x/y''))"
    by (simp_all add: ex_plane2_eq tenants_def tenant_eval)
  note at = nested_purge_destroys_active_tenant [OF this(1) _ this(2), of "ex_io ''d''" "ex_io ''x''"]
  show ?thesis using at by (auto simp: tenant_eval)
qed

end
