(* ===== verification/Team.thy ===== *)
theory Team
  imports Disk
begin

text \<open>
  Team workspaces, \<open>crates/core/src/team.rs\<close>: workspaces with members and roles, expiring
  invitations, removal, two-phase deletion, and the authorization decision every operation
  goes through. The registry and the invitations are two JSON cells of the control plane's
  metadata table; the workspaces' stores are on disk.
\<close>

section \<open>State\<close>

datatype member_role = Reader | Contributor | Admin | Owner

datatype workspace_status = WActive | WDeleting | WDeleted

datatype access_operation = Read | Write | Invite | RemoveMember | ManageRoles | DeleteWorkspace

text \<open>The derived order of \<open>MemberRole\<close>: that of the declaration.\<close>

fun role_rank :: "member_role \<Rightarrow> nat" where
  "role_rank Reader = 0"
| "role_rank Contributor = 1"
| "role_rank Admin = 2"
| "role_rank Owner = 3"

instantiation member_role :: linorder
begin

definition less_eq_member_role :: "member_role \<Rightarrow> member_role \<Rightarrow> bool" where
  "less_eq_member_role r q \<longleftrightarrow> role_rank r \<le> role_rank q"

definition less_member_role :: "member_role \<Rightarrow> member_role \<Rightarrow> bool" where
  "less_member_role r q \<longleftrightarrow> role_rank r < role_rank q"

instance
proof
  fix r q :: member_role
  assume "r \<le> q" "q \<le> r"
  then show "r = q"
    by (cases r; cases q) (simp_all add: less_eq_member_role_def)
qed (auto simp: less_eq_member_role_def less_member_role_def)

end

lemmas role_order = less_eq_member_role_def less_member_role_def

record member_record =
  member_id :: string
  member_role :: member_role
  joined_at :: string
  removed_at :: "string option"

record workspace_record =
  workspace_id :: string
  workspace_name :: string
  workspace_residency :: string
  workspace_status :: workspace_status
  workspace_path :: path
  workspace_created_at :: string
  members :: "member_record list"
  deleted_at :: "string option"
  workspace_receipt :: "string option"

record invitation =
  invitation_id :: string
  inv_workspace :: string
  invitee :: string
  inv_role :: member_role
  invited_by :: string
  invited_at :: string
  expires_at :: string
  inv_state :: string

record team_plane =
  team_registry_file :: path
  team_registry :: "workspace_record list cell"
  team_invitations :: "invitation list cell"
  team_disk :: disk

record create_request =
  create_name :: string
  create_residency :: string
  create_store_path :: path
  create_owner :: string

text \<open>What one call receives from outside: the clock in nanoseconds with chrono's rendering
  and parser of RFC 3339 texts and the instants it can represent, the fresh identifier, the outcome
  of the file-system calls (what a failing \<open>remove_dir_all\<close> has destroyed, how \<open>Store::open\<close> ends)
  and the SHA-256 digest in hexadecimal.\<close>

record team_io =
  tio_now :: int
  tio_fmt :: "int \<Rightarrow> string"
  tio_parse :: "string \<Rightarrow> int option"
  tio_representable :: "int \<Rightarrow> bool"
  tio_uuid :: string
  tio_mkdir_ok :: bool
  tio_rmdir_ok :: bool
  tio_gone :: "string list \<Rightarrow> bool"
  tio_open :: open_outcome
  tio_sha256_hex :: "string \<Rightarrow> string"

datatype team_error =
    WorkspaceNameEmpty
  | OwnerEmpty
  | WorkspaceContainsRegistry
  | TeamRegistryMalformed
  | WorkspaceLimitReached
  | WorkspacePathTaken
  | WorkspaceCreateFailed
  | WorkspaceOpenFailed
  | UnknownWorkspace string
  | Denied
  | OwnerByInvitation
  | AlreadyActive string
  | ExpiryPanics
  | InvitationsMalformed
  | AlreadyPending string
  | UnknownInvitation string
  | InvitationIs string
  | BadExpiry
  | InvitationExpired string
  | NotAcceptingMembers
  | OwnerOnlyByDeletion
  | WorkspaceMarkerMismatch
  | DeleteConfirmationMismatch
  | NoDeletionIntent string
  | WorkspaceDestroyFailed

definition REGISTRY_WORKSPACE_LIMIT :: nat where
  "REGISTRY_WORKSPACE_LIMIT = 500"

definition WORKSPACE_MARKER :: string where
  "WORKSPACE_MARKER = ''team.workspace_id''"

section \<open>Authorization\<close>

definition role_allows :: "member_role \<Rightarrow> access_operation \<Rightarrow> bool" where
  "role_allows role op = (case op of
       Read \<Rightarrow> True
     | Write \<Rightarrow> Contributor \<le> role
     | Invite \<Rightarrow> Admin \<le> role
     | RemoveMember \<Rightarrow> Admin \<le> role
     | ManageRoles \<Rightarrow> role = Owner
     | DeleteWorkspace \<Rightarrow> role = Owner)"

definition is_active_member :: "string \<Rightarrow> member_record \<Rightarrow> bool" where
  "is_active_member m r \<longleftrightarrow> member_id r = m \<and> removed_at r = None"

definition active_member :: "workspace_record \<Rightarrow> string \<Rightarrow> member_record option" where
  "active_member w m = find (is_active_member m) (members w)"

definition authorize_workspace ::
  "workspace_record \<Rightarrow> string \<Rightarrow> access_operation \<Rightarrow> (team_error, member_role) result" where
  "authorize_workspace w m op =
     (case active_member w m of None \<Rightarrow> Inl Denied | Some r \<Rightarrow>
        if workspace_status w \<noteq> WActive
        then (if op = DeleteWorkspace \<and> member_role r = Owner then Inr (member_role r) else Inl Denied)
        else if role_allows (member_role r) op then Inr (member_role r)
        else Inl Denied)"

definition load_team :: "team_plane \<Rightarrow> (team_error, workspace_record list) result" where
  "load_team s = (case team_registry s of
     Json r \<Rightarrow> Inr r | Malformed \<Rightarrow> Inl TeamRegistryMalformed | Missing \<Rightarrow> Inr [])"

definition load_invitations :: "team_plane \<Rightarrow> (team_error, invitation list) result" where
  "load_invitations s = (case team_invitations s of
     Json r \<Rightarrow> Inr r | Malformed \<Rightarrow> Inl InvitationsMalformed | Missing \<Rightarrow> Inr [])"

definition find_ws :: "string \<Rightarrow> workspace_record list \<Rightarrow> workspace_record option" where
  "find_ws wid = find (\<lambda>w. workspace_id w = wid)"

definition authorize ::
  "string \<Rightarrow> string \<Rightarrow> access_operation \<Rightarrow> team_plane \<Rightarrow> (team_error, unit) result" where
  "authorize wid m op s = bindE (load_team s) (\<lambda>r.
     case find_ws wid r of None \<Rightarrow> Inl Denied
     | Some w \<Rightarrow> bindE (authorize_workspace w m op) (\<lambda>_. Inr ()))"

definition access_explanation ::
  "string \<Rightarrow> string \<Rightarrow> team_plane \<Rightarrow> (team_error, member_role \<times> access_operation list \<times> string) result" where
  "access_explanation wid m s = bindE (load_team s) (\<lambda>r.
     case find_ws wid r of None \<Rightarrow> Inl Denied
     | Some w \<Rightarrow> bindE (authorize_workspace w m Read) (\<lambda>role.
         Inr (role, filter (role_allows role)
           [Read, Write, Invite, RemoveMember, ManageRoles, DeleteWorkspace], workspace_residency w)))"

section \<open>Operations\<close>

definition save_team :: "workspace_record list \<Rightarrow> team_plane \<Rightarrow> team_plane" where
  "save_team r s = s\<lparr>team_registry := Json r\<rparr>"

definition save_invitations :: "invitation list \<Rightarrow> team_plane \<Rightarrow> team_plane" where
  "save_invitations r s = s\<lparr>team_invitations := Json r\<rparr>"

definition write_ws ::
  "string \<Rightarrow> (workspace_record \<Rightarrow> workspace_record) \<Rightarrow> workspace_record list \<Rightarrow> team_plane \<Rightarrow> team_plane" where
  "write_ws wid f r s = save_team (update_first (\<lambda>w. workspace_id w = wid) f r) s"

definition new_workspace :: "team_io \<Rightarrow> create_request \<Rightarrow> workspace_record" where
  "new_workspace io q =
     \<lparr>workspace_id = tio_uuid io, workspace_name = trim (create_name q),
      workspace_residency = trim (create_residency q), workspace_status = WActive,
      workspace_path = create_store_path q, workspace_created_at = tio_fmt io (tio_now io),
      members = [\<lparr>member_id = create_owner q, member_role = Owner,
        joined_at = tio_fmt io (tio_now io), removed_at = None\<rparr>],
      deleted_at = None, workspace_receipt = None\<rparr>"

definition create_workspace ::
  "team_io \<Rightarrow> create_request \<Rightarrow> team_plane \<Rightarrow> team_plane \<times> (team_error, workspace_record) result" where
  "create_workspace io q s =
     (if trim (create_name q) = [] then (s, Inl WorkspaceNameEmpty)
      else if trim (create_owner q) = [] then (s, Inl OwnerEmpty)
      else if path_starts_with (team_registry_file s) (create_store_path q)
        then (s, Inl WorkspaceContainsRegistry)
      else case load_team s of Inl e \<Rightarrow> (s, Inl e) | Inr r \<Rightarrow>
        if REGISTRY_WORKSPACE_LIMIT \<le> length r then (s, Inl WorkspaceLimitReached)
        else if list_ex (\<lambda>w. workspace_path w = create_store_path q) r then (s, Inl WorkspacePathTaken)
        else if \<not> tio_mkdir_ok io then (s, Inl WorkspaceCreateFailed)
        else if tio_open io \<noteq> Opened
          then (s\<lparr>team_disk := disk_open (create_store_path q) (team_disk s)\<rparr>, Inl WorkspaceOpenFailed)
        else
          let p = create_store_path q;
              d = disk_meta_set p WORKSPACE_MARKER (tio_uuid io) (disk_open p (team_disk s));
              w = new_workspace io q
          in (save_team (r @ [w]) (s\<lparr>team_disk := d\<rparr>), Inr w))"

definition new_invitation ::
  "team_io \<Rightarrow> string \<Rightarrow> string \<Rightarrow> string \<Rightarrow> member_role \<Rightarrow> int \<Rightarrow> invitation" where
  "new_invitation io wid actor who role ttl =
     \<lparr>invitation_id = tio_uuid io, inv_workspace = wid, invitee = who, inv_role = role,
      invited_by = actor, invited_at = tio_fmt io (tio_now io),
      expires_at = tio_fmt io (tio_now io + ttl * 1000000000), inv_state = ''pending''\<rparr>"

definition is_pending_for :: "string \<Rightarrow> string \<Rightarrow> invitation \<Rightarrow> bool" where
  "is_pending_for wid who i \<longleftrightarrow> inv_workspace i = wid \<and> invitee i = who \<and> inv_state i = ''pending''"

text \<open>\<open>chrono::Duration::seconds\<close> panics outside its range of milliseconds in 64 bits, and so does the
  addition when its result is no representable instant; \<open>invite\<close> does both before it looks at the
  pending invitations.\<close>

definition MAX_DURATION_SECONDS :: int where
  "MAX_DURATION_SECONDS = (2 ^ 63 - 1) div 1000"

definition expiry_ok :: "team_io \<Rightarrow> int \<Rightarrow> bool" where
  "expiry_ok io ttl \<longleftrightarrow> - MAX_DURATION_SECONDS \<le> ttl \<and> ttl \<le> MAX_DURATION_SECONDS
     \<and> tio_representable io (tio_now io + ttl * 1000000000)"

definition invite ::
  "team_io \<Rightarrow> string \<Rightarrow> string \<Rightarrow> string \<Rightarrow> member_role \<Rightarrow> int \<Rightarrow> team_plane
    \<Rightarrow> team_plane \<times> (team_error, invitation) result" where
  "invite io wid actor who role ttl s =
     (if role = Owner then (s, Inl OwnerByInvitation)
      else case load_team s of Inl e \<Rightarrow> (s, Inl e) | Inr r \<Rightarrow>
      case find_ws wid r of None \<Rightarrow> (s, Inl (UnknownWorkspace wid)) | Some w \<Rightarrow>
      case authorize_workspace w actor Invite of Inl e \<Rightarrow> (s, Inl e) | Inr _ \<Rightarrow>
        if active_member w who \<noteq> None then (s, Inl (AlreadyActive who))
        else if \<not> expiry_ok io ttl then (s, Inl ExpiryPanics)
        else case load_invitations s of Inl e \<Rightarrow> (s, Inl e) | Inr pending \<Rightarrow>
          if list_ex (is_pending_for wid who) pending then (s, Inl (AlreadyPending who))
          else let i = new_invitation io wid actor who role ttl
               in (save_invitations (pending @ [i]) s, Inr i))"

definition new_member :: "team_io \<Rightarrow> string \<Rightarrow> member_role \<Rightarrow> member_record" where
  "new_member io who role = \<lparr>member_id = who, member_role = role,
     joined_at = tio_fmt io (tio_now io), removed_at = None\<rparr>"

text \<open>The invitation's new state is saved before the workspace is looked at.\<close>

definition accept_invitation ::
  "team_io \<Rightarrow> string \<Rightarrow> string \<Rightarrow> team_plane \<Rightarrow> team_plane \<times> (team_error, member_record) result" where
  "accept_invitation io iid acceptor s =
     (case load_invitations s of Inl e \<Rightarrow> (s, Inl e) | Inr is \<Rightarrow>
      case find (\<lambda>i. invitation_id i = iid) is of None \<Rightarrow> (s, Inl (UnknownInvitation iid)) | Some i \<Rightarrow>
        if inv_state i \<noteq> ''pending'' then (s, Inl (InvitationIs (inv_state i)))
        else if invitee i \<noteq> acceptor then (s, Inl Denied)
        else case tio_parse io (expires_at i) of None \<Rightarrow> (s, Inl BadExpiry) | Some t \<Rightarrow>
          let expired = (t \<le> tio_now io);
              is' = update_first (\<lambda>i. invitation_id i = iid)
                (\<lambda>i. i\<lparr>inv_state := (if expired then ''expired'' else ''accepted'')\<rparr>) is;
              s1 = save_invitations is' s
          in if expired then (s1, Inl (InvitationExpired (expires_at i)))
          else case load_team s1 of Inl e \<Rightarrow> (s1, Inl e) | Inr r \<Rightarrow>
          case find_ws (inv_workspace i) r of
            None \<Rightarrow> (s1, Inl (UnknownWorkspace (inv_workspace i)))
          | Some w \<Rightarrow>
            if workspace_status w \<noteq> WActive then (s1, Inl NotAcceptingMembers)
            else if active_member w acceptor \<noteq> None then (s1, Inl (AlreadyActive acceptor))
            else let m = new_member io acceptor (inv_role i) in
              (write_ws (inv_workspace i) (\<lambda>w. w\<lparr>members := members w @ [m]\<rparr>) r s1, Inr m))"

definition revoke_invitation ::
  "string \<Rightarrow> string \<Rightarrow> team_plane \<Rightarrow> team_plane \<times> (team_error, invitation) result" where
  "revoke_invitation iid actor s =
     (case load_invitations s of Inl e \<Rightarrow> (s, Inl e) | Inr is \<Rightarrow>
      case find (\<lambda>i. invitation_id i = iid) is of None \<Rightarrow> (s, Inl (UnknownInvitation iid)) | Some i \<Rightarrow>
      case load_team s of Inl e \<Rightarrow> (s, Inl e) | Inr r \<Rightarrow>
      case find_ws (inv_workspace i) r of
        None \<Rightarrow> (s, Inl (UnknownWorkspace (inv_workspace i)))
      | Some w \<Rightarrow>
      case authorize_workspace w actor Invite of Inl e \<Rightarrow> (s, Inl e) | Inr _ \<Rightarrow>
        if inv_state i \<noteq> ''pending'' then (s, Inl (InvitationIs (inv_state i)))
        else let f = (\<lambda>i. i\<lparr>inv_state := ''revoked''\<rparr>) in
          (save_invitations (update_first (\<lambda>i. invitation_id i = iid) f is) s, Inr (f i)))"

text \<open>The write of a removal time to the first active record of a member.\<close>

definition mark_removed :: "team_io \<Rightarrow> string \<Rightarrow> workspace_record \<Rightarrow> workspace_record" where
  "mark_removed io target w = w\<lparr>members := update_first (is_active_member target)
     (\<lambda>m. m\<lparr>removed_at := Some (tio_fmt io (tio_now io))\<rparr>) (members w)\<rparr>"

definition remove_member ::
  "team_io \<Rightarrow> string \<Rightarrow> string \<Rightarrow> string \<Rightarrow> team_plane \<Rightarrow> team_plane \<times> (team_error, member_record) result" where
  "remove_member io wid actor target s =
     (case load_team s of Inl e \<Rightarrow> (s, Inl e) | Inr r \<Rightarrow>
      case find_ws wid r of None \<Rightarrow> (s, Inl (UnknownWorkspace wid)) | Some w \<Rightarrow>
      case authorize_workspace w actor RemoveMember of Inl e \<Rightarrow> (s, Inl e) | Inr actor_role \<Rightarrow>
      case active_member w target of None \<Rightarrow> (s, Inl Denied) | Some m \<Rightarrow>
        if member_role m = Owner then (s, Inl OwnerOnlyByDeletion)
        else if actor_role \<noteq> Owner \<and> actor_role \<le> member_role m then (s, Inl Denied)
        else (write_ws wid (mark_removed io target) r s,
          Inr (m\<lparr>removed_at := Some (tio_fmt io (tio_now io))\<rparr>)))"

definition leave ::
  "team_io \<Rightarrow> string \<Rightarrow> string \<Rightarrow> team_plane \<Rightarrow> team_plane \<times> (team_error, member_record) result" where
  "leave io wid who s =
     (case load_team s of Inl e \<Rightarrow> (s, Inl e) | Inr r \<Rightarrow>
      case find_ws wid r of None \<Rightarrow> (s, Inl (UnknownWorkspace wid)) | Some w \<Rightarrow>
      case active_member w who of None \<Rightarrow> (s, Inl Denied) | Some m \<Rightarrow>
        if member_role m = Owner then (s, Inl OwnerOnlyByDeletion)
        else (write_ws wid (mark_removed io who) r s,
          Inr (m\<lparr>removed_at := Some (tio_fmt io (tio_now io))\<rparr>)))"

definition open_workspace ::
  "team_io \<Rightarrow> string \<Rightarrow> string \<Rightarrow> team_plane \<Rightarrow> team_plane \<times> (team_error, path) result" where
  "open_workspace io wid who s =
     (case load_team s of Inl e \<Rightarrow> (s, Inl e) | Inr r \<Rightarrow>
      case find_ws wid r of None \<Rightarrow> (s, Inl Denied) | Some w \<Rightarrow>
      case authorize_workspace w who Read of Inl e \<Rightarrow> (s, Inl e) | Inr _ \<Rightarrow>
        let d = store_open (tio_open io) (workspace_path w) (team_disk s); s' = s\<lparr>team_disk := d\<rparr> in
        if tio_open io \<noteq> Opened then (s', Inl WorkspaceOpenFailed)
        else if disk_meta_get d (workspace_path w) WORKSPACE_MARKER \<noteq> Some wid
        then (s', Inl WorkspaceMarkerMismatch)
        else (s', Inr (workspace_path w)))"

definition request_delete ::
  "string \<Rightarrow> string \<Rightarrow> team_plane \<Rightarrow> team_plane \<times> (team_error, workspace_record) result" where
  "request_delete wid actor s =
     (case load_team s of Inl e \<Rightarrow> (s, Inl e) | Inr r \<Rightarrow>
      case find_ws wid r of None \<Rightarrow> (s, Inl (UnknownWorkspace wid)) | Some w \<Rightarrow>
      case authorize_workspace w actor DeleteWorkspace of Inl e \<Rightarrow> (s, Inl e) | Inr _ \<Rightarrow>
        let f = (\<lambda>w. w\<lparr>workspace_status := WDeleting\<rparr>) in (write_ws wid f r s, Inr (f w)))"

definition delete_digest :: "team_io \<Rightarrow> string \<Rightarrow> path \<Rightarrow> string" where
  "delete_digest io wid p = ''sha256:'' @ tio_sha256_hex io
     (''cortana.team.workspace-delete.v1'' @ wid @ tio_fmt io (tio_now io) @ p)"

definition confirm_delete ::
  "team_io \<Rightarrow> string \<Rightarrow> string \<Rightarrow> string \<Rightarrow> team_plane \<Rightarrow> team_plane \<times> (team_error, workspace_record) result" where
  "confirm_delete io wid actor confirmation s =
     (if confirmation \<noteq> wid then (s, Inl DeleteConfirmationMismatch)
      else case load_team s of Inl e \<Rightarrow> (s, Inl e) | Inr r \<Rightarrow>
      case find_ws wid r of None \<Rightarrow> (s, Inl (UnknownWorkspace wid)) | Some w \<Rightarrow>
      case authorize_workspace w actor DeleteWorkspace of Inl e \<Rightarrow> (s, Inl e) | Inr _ \<Rightarrow>
        if workspace_status w \<noteq> WDeleting then (s, Inl (NoDeletionIntent wid))
        else if disk_exists (workspace_path w) (team_disk s) \<and> \<not> tio_rmdir_ok io
          then (s\<lparr>team_disk := disk_remove (tio_gone io) (workspace_path w) (team_disk s)\<rparr>, Inl WorkspaceDestroyFailed)
        else
          let d = disk_remove_all (workspace_path w) (team_disk s);
              f = (\<lambda>w. w\<lparr>workspace_status := WDeleted, deleted_at := Some (tio_fmt io (tio_now io)),
                     workspace_receipt := Some (delete_digest io wid (workspace_path w))\<rparr>)
          in (write_ws wid f r (s\<lparr>team_disk := d\<rparr>), Inr (f w)))"

definition team_status_report ::
  "team_plane \<Rightarrow> (team_error, nat \<times> (workspace_status \<times> nat) list) result" where
  "team_status_report s = bindE (load_team s) (\<lambda>r.
     Inr (length r, map (\<lambda>st. (st, length (filter (\<lambda>w. workspace_status w = st) r)))
       [WActive, WDeleting, WDeleted]))"

datatype team_call =
    TCreate create_request
  | TInvite string string string member_role int
  | TAccept string string
  | TRevoke string string
  | TRemove string string string
  | TLeave string string
  | TOpen string string
  | TRequestDelete string string
  | TConfirmDelete string string string

fun team_exec :: "team_io \<Rightarrow> team_call \<Rightarrow> team_plane \<Rightarrow> team_plane" where
  "team_exec io (TCreate q) s = fst (create_workspace io q s)"
| "team_exec io (TInvite wid actor who role ttl) s = fst (invite io wid actor who role ttl s)"
| "team_exec io (TAccept iid who) s = fst (accept_invitation io iid who s)"
| "team_exec io (TRevoke iid actor) s = fst (revoke_invitation iid actor s)"
| "team_exec io (TRemove wid actor target) s = fst (remove_member io wid actor target s)"
| "team_exec io (TLeave wid who) s = fst (leave io wid who s)"
| "team_exec io (TOpen wid who) s = fst (open_workspace io wid who s)"
| "team_exec io (TRequestDelete wid actor) s = fst (request_delete wid actor s)"
| "team_exec io (TConfirmDelete wid actor c) s = fst (confirm_delete io wid actor c s)"

definition workspaces :: "team_plane \<Rightarrow> workspace_record list" where
  "workspaces s = (case team_registry s of Json r \<Rightarrow> r | _ \<Rightarrow> [])"

definition invitations :: "team_plane \<Rightarrow> invitation list" where
  "invitations s = (case team_invitations s of Json r \<Rightarrow> r | _ \<Rightarrow> [])"

section \<open>The access matrix\<close>

text \<open>A role-computed policy: a role that outranks another may do whatever the other may, and
  the highest role may do everything.\<close>

locale ranked_policy =
  fixes permits :: "'r::linorder \<Rightarrow> 'op \<Rightarrow> bool"
    and top_role :: 'r
  assumes permits_mono: "r \<le> q \<Longrightarrow> permits r op \<Longrightarrow> permits q op"
    and permits_top: "permits top_role op"
begin

lemma denied_below: "r \<le> q \<Longrightarrow> \<not> permits q op \<Longrightarrow> \<not> permits r op"
  using permits_mono by blast

lemma permitted_ops_mono: "r \<le> q \<Longrightarrow> set (filter (permits r) ops) \<subseteq> set (filter (permits q) ops)"
  using permits_mono by auto

lemma top_permits_all: "filter (permits top_role) ops = ops"
  by (simp add: permits_top)

end

interpretation team_policy: ranked_policy role_allows Owner
proof unfold_locales
  fix r q :: member_role and op
  assume "r \<le> q" "role_allows r op"
  then show "role_allows q op"
    by (cases r; cases q; cases op) (simp_all add: role_allows_def role_order)
next
  show "role_allows Owner op" for op
    by (cases op) (simp_all add: role_allows_def role_order)
qed

interpretation wp: marked_planes
  "\<lambda>d p. disk_meta_get d p WORKSPACE_MARKER"
  "\<lambda>p v d. disk_meta_set p WORKSPACE_MARKER v d"
  disk_remove "\<lambda>_. True"
  by unfold_locales (auto simp: disk_simps)

section \<open>Invariants\<close>

definition is_active :: "member_record \<Rightarrow> bool" where
  "is_active m \<longleftrightarrow> removed_at m = None"

definition is_owner_record :: "member_record \<Rightarrow> bool" where
  "is_owner_record m \<longleftrightarrow> member_role m = Owner"

definition members_ok :: "member_record list \<Rightarrow> bool" where
  "members_ok ms \<longleftrightarrow> length (filter is_owner_record ms) = 1
     \<and> (\<forall>m\<in>set ms. is_owner_record m \<longrightarrow> is_active m)
     \<and> distinct (map member_id (filter is_active ms))"

definition workspace_ok :: "workspace_record \<Rightarrow> bool" where
  "workspace_ok w \<longleftrightarrow> members_ok (members w)
     \<and> (workspace_status w = WDeleted \<longrightarrow> workspace_receipt w \<noteq> None \<and> deleted_at w \<noteq> None)"

definition invitations_ok :: "invitation list \<Rightarrow> bool" where
  "invitations_ok is \<longleftrightarrow> (\<forall>i\<in>set is. inv_role i \<noteq> Owner)
     \<and> (\<forall>wid who. length (filter (is_pending_for wid who) is) \<le> 1)"

definition registry_ok :: "workspace_record list \<Rightarrow> bool" where
  "registry_ok r \<longleftrightarrow> distinct (map workspace_id r) \<and> length r \<le> REGISTRY_WORKSPACE_LIMIT
     \<and> (\<forall>w\<in>set r. workspace_ok w)"

definition team_inv :: "team_plane \<Rightarrow> bool" where
  "team_inv s \<longleftrightarrow> registry_ok (workspaces s) \<and> invitations_ok (invitations s)"

lemma active_member_Some:
  "active_member w m = Some r \<Longrightarrow> r \<in> set (members w) \<and> member_id r = m \<and> removed_at r = None"
  by (auto simp: active_member_def is_active_member_def dest: find_Some_set)

lemma active_member_None:
  "active_member w m = None \<longleftrightarrow> m \<notin> member_id ` set (filter is_active (members w))"
  by (auto simp: active_member_def find_None_iff_all is_active_member_def is_active_def)

lemma active_member_unique:
  assumes "members_ok (members w)" "r \<in> set (members w)" "removed_at r = None"
  shows "active_member w (member_id r) = Some r"
proof -
  have "find (is_active_member (member_id r)) ms = Some r"
    if "distinct (map member_id (filter is_active ms))" "r \<in> set ms" for ms
    using that assms(3)
    by (induction ms) (auto simp: is_active_member_def is_active_def image_iff split: if_splits)
  with assms show ?thesis by (simp add: active_member_def members_ok_def)
qed

lemma members_ok_append:
  "members_ok ms \<Longrightarrow> member_id m \<notin> member_id ` set (filter is_active ms) \<Longrightarrow>
    member_role m \<noteq> Owner \<Longrightarrow> members_ok (ms @ [m])"
  by (auto simp: members_ok_def is_owner_record_def)

text \<open>Removing a non-owner keeps the member list in order, and no active record of the
  removed member is left.\<close>

lemma is_active_member_iff: "is_active_member t m \<longleftrightarrow> member_id m = t \<and> is_active m"
  by (simp add: is_active_member_def is_active_def)

lemma is_active_removed [simp]: "\<not> is_active (m\<lparr>removed_at := Some n\<rparr>)"
  by (simp add: is_active_def)

lemma filter_update_first_removed:
  "filter is_active (update_first (is_active_member t) (\<lambda>m. m\<lparr>removed_at := Some n\<rparr>) ms)
     = (case find (is_active_member t) ms of None \<Rightarrow> filter is_active ms
        | Some m \<Rightarrow> remove1 m (filter is_active ms))"
proof (induction ms)
  case (Cons m ms)
  then show ?case
    by (cases "is_active_member t m")
      (auto simp: is_active_member_iff split: option.split dest!: find_Some_set)
qed simp

lemma members_ok_removed:
  assumes "members_ok ms" "find (is_active_member t) ms = Some m" "member_role m \<noteq> Owner"
  shows "members_ok (update_first (is_active_member t) (\<lambda>m. m\<lparr>removed_at := Some n\<rparr>) ms)"
proof -
  let ?f = "\<lambda>m :: member_record. m\<lparr>removed_at := Some n\<rparr>"
  have owners: "map is_owner_record (update_first (is_active_member t) ?f ms) = map is_owner_record ms"
    by (rule map_update_first_id) (simp add: is_owner_record_def)
  have len: "length (filter is_owner_record xs) = length (filter id (map is_owner_record xs))" for xs
    by (induction xs) auto
  have act: "is_active x" if "x \<in> set (update_first (is_active_member t) ?f ms)" "is_owner_record x" for x
  proof -
    have only: "y = m" if "y \<in> set ms" "is_active_member t y" for y
      using assms(1) that find_Some_set [OF assms(2)]
      by (auto simp: members_ok_def distinct_map inj_on_def is_active_member_def is_active_def)
    from set_update_firstD [OF that(1)] that(2) assms only show ?thesis
      by (auto simp: members_ok_def is_owner_record_def)
  qed
  have "distinct (map member_id (remove1 m (filter is_active ms)))"
    using assms(1) by (simp add: members_ok_def distinct_map_remove1)
  moreover have "length (filter is_owner_record (update_first (is_active_member t) ?f ms)) =
      length (filter is_owner_record ms)"
    by (simp only: len owners)
  ultimately show ?thesis
    using assms(1,2) act by (simp add: members_ok_def filter_update_first_removed)
qed

lemma removed_is_inactive:
  assumes "members_ok (members w)" "active_member w t = Some m"
  shows "active_member (mark_removed io t w) t = None"
proof -
  have m: "find (is_active_member t) (members w) = Some m"
    using assms(2) by (simp add: active_member_def)
  have "distinct (filter is_active (members w))"
    using assms(1) by (auto simp: members_ok_def distinct_map)
  then have "x = m" if "x \<in> set (filter is_active (members w))" "member_id x = t" for x
    using assms(1) that find_Some_set [OF m]
    by (auto simp: members_ok_def distinct_map inj_on_def is_active_member_def is_active_def)
  then show ?thesis
    using m \<open>distinct (filter is_active (members w))\<close>
    by (auto simp: active_member_None mark_removed_def filter_update_first_removed)
qed

lemma invitations_ok_append:
  assumes "invitations_ok is" "\<not> list_ex (is_pending_for wid who) is" "role \<noteq> Owner"
  shows "invitations_ok (is @ [new_invitation io wid actor who role ttl])"
proof -
  have none: "filter (is_pending_for wid who) is = []"
    using assms(2) by (auto simp: list_ex_iff filter_empty_conv)
  have "length (filter (is_pending_for a b) (is @ [new_invitation io wid actor who role ttl])) \<le> 1" for a b
    using assms(1) none
    by (cases "a = wid \<and> b = who") (auto simp: invitations_ok_def new_invitation_def is_pending_for_def)
  with assms show ?thesis
    by (auto simp: invitations_ok_def new_invitation_def)
qed

lemma length_filter_closed:
  "st \<noteq> ''pending'' \<Longrightarrow>
    length (filter (is_pending_for a b) (update_first p (\<lambda>i. i\<lparr>inv_state := st\<rparr>) is))
      \<le> length (filter (is_pending_for a b) is)"
  by (induction "is") (auto simp: is_pending_for_def)

lemma invitations_ok_closed:
  assumes "invitations_ok is" "st \<noteq> ''pending''"
  shows "invitations_ok (update_first p (\<lambda>i. i\<lparr>inv_state := st\<rparr>) is)"
  using assms length_filter_closed [OF assms(2), of _ _ p "is"]
  by (fastforce simp: invitations_ok_def dest!: set_update_firstD intro: le_trans)

section \<open>Every call keeps the invariant\<close>

lemma load_team_Inr [dest!]: "load_team s = Inr r \<Longrightarrow> workspaces s = r"
  by (auto simp: load_team_def workspaces_def split: cell.splits)

lemma load_invitations_Inr [dest!]: "load_invitations s = Inr is \<Longrightarrow> invitations s = is"
  by (auto simp: load_invitations_def invitations_def split: cell.splits)

lemma team_frames [simp]:
  "workspaces (save_team r s) = r"
  "invitations (save_team r s) = invitations s"
  "team_disk (save_team r s) = team_disk s"
  "workspaces (save_invitations is s) = workspaces s"
  "invitations (save_invitations is s) = is"
  "team_disk (save_invitations is s) = team_disk s"
  "load_team (save_invitations is s) = load_team s"
  "workspaces (s\<lparr>team_disk := d\<rparr>) = workspaces s"
  "invitations (s\<lparr>team_disk := d\<rparr>) = invitations s"
  by (simp_all add: workspaces_def invitations_def save_team_def save_invitations_def load_team_def)

lemma write_ws_frames [simp]:
  "workspaces (write_ws wid f r s) = update_first (\<lambda>w. workspace_id w = wid) f r"
  "invitations (write_ws wid f r s) = invitations s"
  "team_disk (write_ws wid f r s) = team_disk s"
  by (simp_all add: write_ws_def)

lemma find_ws_Some: "find_ws wid r = Some w \<Longrightarrow> w \<in> set r \<and> workspace_id w = wid"
  by (auto simp: find_ws_def dest: find_Some_set)

lemma find_ws_unique:
  "distinct (map workspace_id r) \<Longrightarrow> find_ws wid r = Some w \<Longrightarrow> x \<in> set r \<Longrightarrow>
    workspace_id x = wid \<Longrightarrow> x = w"
  using find_key_unique [of workspace_id r x] by (auto simp: find_ws_def)

lemma registry_ok_update [inv_intros]:
  assumes ok: "registry_ok r" and w: "find_ws wid r = Some w"
    and f: "workspace_ok w \<Longrightarrow> workspace_ok (f w)" "workspace_id (f w) = workspace_id w"
  shows "registry_ok (update_first (\<lambda>w. workspace_id w = wid) f r)"
proof -
  have only: "x = w" if "x \<in> set r" "workspace_id x = wid" for x
    using find_ws_unique [OF _ w that] ok by (simp add: registry_ok_def)
  have "map workspace_id (update_first (\<lambda>w. workspace_id w = wid) f r) = map workspace_id r"
    using only f(2) by (intro map_update_first_id) auto
  moreover have "workspace_ok x" if "x \<in> set (update_first (\<lambda>w. workspace_id w = wid) f r)" for x
    using set_update_firstD [OF that] only f(1) ok by (auto simp: registry_ok_def)
  ultimately show ?thesis
    using ok by (simp add: registry_ok_def)
qed

lemma new_workspace_ok [inv_intros]: "workspace_ok (new_workspace io q)"
  by (simp add: workspace_ok_def members_ok_def new_workspace_def is_owner_record_def is_active_def)

lemma add_member_ok [inv_intros]:
  "active_member w who = None \<Longrightarrow> role \<noteq> Owner \<Longrightarrow> workspace_ok w \<Longrightarrow>
    workspace_ok (w\<lparr>members := members w @ [new_member io who role]\<rparr>)"
  by (auto simp: workspace_ok_def active_member_None new_member_def intro!: members_ok_append)

lemma mark_removed_ok [inv_intros]:
  "active_member w t = Some m \<Longrightarrow> member_role m \<noteq> Owner \<Longrightarrow> workspace_ok w \<Longrightarrow>
    workspace_ok (mark_removed io t w)"
  by (auto simp: workspace_ok_def mark_removed_def active_member_def intro!: members_ok_removed)

lemma mark_removed_id [simp]: "workspace_id (mark_removed io t w) = workspace_id w"
  by (simp add: mark_removed_def)

lemma create_inv [inv_intros]:
  "team_inv s \<Longrightarrow> tio_uuid io \<notin> workspace_id ` set (workspaces s) \<Longrightarrow>
    team_inv (fst (create_workspace io q s))"
  by (auto simp: create_workspace_def team_inv_def registry_ok_def Let_def new_workspace_def
      intro: new_workspace_ok [unfolded new_workspace_def] split: sum.splits)

lemma invite_inv [inv_intros]:
  "team_inv s \<Longrightarrow> team_inv (fst (invite io wid actor who role ttl s))"
  by (auto simp: invite_def team_inv_def Let_def intro: invitations_ok_append
      split: sum.splits option.splits)

lemma accept_inv [inv_intros]:
  "team_inv s \<Longrightarrow> team_inv (fst (accept_invitation io iid who s))"
  by (auto simp: accept_invitation_def team_inv_def Let_def invitations_ok_def [of "invitations s"]
      intro!: inv_intros invitations_ok_closed dest: find_Some_set
      split: sum.splits option.splits)

lemma revoke_inv [inv_intros]:
  "team_inv s \<Longrightarrow> team_inv (fst (revoke_invitation iid actor s))"
  by (auto simp: revoke_invitation_def team_inv_def Let_def intro!: invitations_ok_closed
      split: sum.splits option.splits)

lemma remove_inv [inv_intros]:
  "team_inv s \<Longrightarrow> team_inv (fst (remove_member io wid actor target s))"
  by (auto simp: remove_member_def team_inv_def intro!: inv_intros split: sum.splits option.splits)

lemma leave_inv [inv_intros]: "team_inv s \<Longrightarrow> team_inv (fst (leave io wid who s))"
  by (auto simp: leave_def team_inv_def intro!: inv_intros split: sum.splits option.splits)

lemma open_inv [inv_intros]: "team_inv s \<Longrightarrow> team_inv (fst (open_workspace io wid who s))"
  by (auto simp: open_workspace_def team_inv_def Let_def split: sum.splits option.splits)

lemma request_delete_inv [inv_intros]: "team_inv s \<Longrightarrow> team_inv (fst (request_delete wid actor s))"
  by (auto simp: request_delete_def team_inv_def Let_def workspace_ok_def intro!: registry_ok_update
      split: sum.splits option.splits)

lemma confirm_delete_inv [inv_intros]:
  "team_inv s \<Longrightarrow> team_inv (fst (confirm_delete io wid actor c s))"
  by (auto simp: confirm_delete_def team_inv_def Let_def workspace_ok_def intro!: registry_ok_update
      split: sum.splits option.splits)

lemma team_exec_inv [inv_intros]:
  "team_inv s \<Longrightarrow> tio_uuid io \<notin> workspace_id ` set (workspaces s) \<Longrightarrow> team_inv (team_exec io c s)"
  by (cases c) (simp_all add: inv_intros)

text \<open>The states the team control plane reaches from an empty registry, any call at any time;
  fresh identifiers are not in use.\<close>

definition team_init :: "team_plane \<Rightarrow> bool" where
  "team_init s \<longleftrightarrow> team_registry s = Missing \<and> team_invitations s = Missing"

inductive team_move :: "team_plane \<Rightarrow> team_plane \<Rightarrow> bool" where
  team_call: "tio_uuid io \<notin> workspace_id ` set (workspaces s) \<Longrightarrow> team_move s (team_exec io c s)"

abbreviation team_reachable :: "team_plane \<Rightarrow> bool" where
  "team_reachable \<equiv> reachable team_init team_move"

interpretation tm: step_invariant team_init team_move team_inv
proof
  show "team_inv s" if "team_init s" for s
    using that by (simp add: team_init_def team_inv_def registry_ok_def invitations_ok_def workspaces_def invitations_def)
  show "team_inv s'" if "team_inv s" "team_move s s'" for s s'
    using that(2,1) by cases (simp add: team_exec_inv)
qed

lemma team_step: "team_reachable s \<Longrightarrow> tio_uuid io \<notin> workspace_id ` set (workspaces s) \<Longrightarrow>
    team_reachable (team_exec io c s)"
  by (erule reachable_step) (rule team_call)

section \<open>Concrete states for the witnesses\<close>

definition ex_tio :: "string \<Rightarrow> int \<Rightarrow> team_io" where
  "ex_tio u now = \<lparr>tio_now = now, tio_fmt = (\<lambda>_. ''t''), tio_parse = (\<lambda>_. Some 100),
     tio_representable = (\<lambda>_. True), tio_uuid = u, tio_mkdir_ok = True, tio_rmdir_ok = True,
     tio_gone = (\<lambda>_. False), tio_open = Opened, tio_sha256_hex = (\<lambda>_. ''d'')\<rparr>"

definition ex_create :: create_request where
  "ex_create = \<lparr>create_name = ''p'', create_residency = ''e'', create_store_path = ''/t'',
     create_owner = ''o''\<rparr>"

definition ex_team0 :: team_plane where
  "ex_team0 = \<lparr>team_registry_file = ''/cp'', team_registry = Missing,
     team_invitations = Missing, team_disk = []\<rparr>"

definition ex_team1 :: team_plane where
  "ex_team1 = team_exec (ex_tio ''w'' 0) (TCreate ex_create) ex_team0"

definition ex_team2 :: team_plane where
  "ex_team2 = team_exec (ex_tio ''i'' 0) (TInvite ''w'' ''o'' ''b'' Contributor 60) ex_team1"

definition ex_team3 :: team_plane where
  "ex_team3 = team_exec (ex_tio ''x'' 0) (TAccept ''i'' ''b'') ex_team2"

definition ex_member :: "string \<Rightarrow> member_role \<Rightarrow> member_record" where
  "ex_member m r = \<lparr>member_id = m, member_role = r, joined_at = ''t'', removed_at = None\<rparr>"

definition ex_ws :: "member_record list \<Rightarrow> workspace_status \<Rightarrow> workspace_record" where
  "ex_ws ms st = \<lparr>workspace_id = ''w'', workspace_name = ''p'', workspace_residency = ''e'',
     workspace_status = st, workspace_path = ''/t'', workspace_created_at = ''t'', members = ms,
     deleted_at = None, workspace_receipt = None\<rparr>"

definition ex_invitation :: "string \<Rightarrow> invitation" where
  "ex_invitation st = \<lparr>invitation_id = ''i'', inv_workspace = ''w'', invitee = ''b'',
     inv_role = Contributor, invited_by = ''o'', invited_at = ''t'', expires_at = ''t'', inv_state = st\<rparr>"

lemma ex_team_paths [simp]:
  "path_components ''/cp'' = [''/'', ''cp'']" "path_components ''/t'' = [''/'', ''t'']"
  by (simp_all add: path_eval)

lemma ex_team_trim [simp]: "trim ''p'' = ''p''" "trim ''e'' = ''e''" "trim ''o'' = ''o''"
  by (simp_all add: text_eval)

lemmas team_eval = team_exec.simps create_workspace_def new_workspace_def load_team_def
  save_team_def load_invitations_def save_invitations_def write_ws_def find_ws_def
  invite_def new_invitation_def accept_invitation_def new_member_def revoke_invitation_def
  remove_member_def leave_def open_workspace_def request_delete_def confirm_delete_def
  mark_removed_def delete_digest_def authorize_workspace_def role_allows_def role_order
  active_member_def is_active_member_def is_pending_for_def REGISTRY_WORKSPACE_LIMIT_def
  WORKSPACE_MARKER_def Let_def path_starts_with_def ex_tio_def ex_create_def ex_team0_def
  ex_member_def ex_ws_def ex_invitation_def
  disk_meta_get_def disk_lookup_def disk_open_def disk_meta_set_def disk_remove_all_def disk_exists_def
  disk_remove_def store_open_def expiry_ok_def MAX_DURATION_SECONDS_def

lemma ex_team1_eq: "ex_team1 = \<lparr>team_registry_file = ''/cp'',
    team_registry = Json [ex_ws [ex_member ''o'' Owner] WActive], team_invitations = Missing,
    team_disk = [([''/'', ''t''], [(''team.workspace_id'', ''w'')])]\<rparr>"
  by (simp add: ex_team1_def team_eval)

lemma ex_team2_eq: "ex_team2 = \<lparr>team_registry_file = ''/cp'',
    team_registry = Json [ex_ws [ex_member ''o'' Owner] WActive],
    team_invitations = Json [ex_invitation ''pending''],
    team_disk = [([''/'', ''t''], [(''team.workspace_id'', ''w'')])]\<rparr>"
  by (simp add: ex_team2_def ex_team1_eq team_eval)

lemma ex_team3_eq: "ex_team3 = \<lparr>team_registry_file = ''/cp'',
    team_registry = Json [ex_ws [ex_member ''o'' Owner, ex_member ''b'' Contributor] WActive],
    team_invitations = Json [ex_invitation ''accepted''],
    team_disk = [([''/'', ''t''], [(''team.workspace_id'', ''w'')])]\<rparr>"
  by (simp add: ex_team3_def ex_team2_eq team_eval)

lemma ex_team_reachable: "team_reachable ex_team1" "team_reachable ex_team2" "team_reachable ex_team3"
proof -
  show r1: "team_reachable ex_team1"
    unfolding ex_team1_def
    by (intro team_step reachable_start) (simp_all add: team_init_def ex_team0_def workspaces_def)
  show r2: "team_reachable ex_team2"
    unfolding ex_team2_def
    by (intro team_step r1) (simp add: ex_team1_eq workspaces_def ex_ws_def ex_tio_def)
  show "team_reachable ex_team3"
    unfolding ex_team3_def
    by (intro team_step r2) (simp add: ex_team2_eq workspaces_def ex_ws_def ex_tio_def)
qed

section \<open>Properties\<close>

text \<open>
  C4. In every reachable state each workspace has exactly one owner record and it is active,
  at most one active record per member identifier, and no invitation offers the owner role;
  at most one invitation per workspace and invitee is pending, and workspace identifiers are
  distinct.
\<close>

theorem team_membership_invariant:
  assumes "team_reachable s"
  shows "distinct (map workspace_id (workspaces s))
    \<and> (\<forall>w\<in>set (workspaces s). length (filter is_owner_record (members w)) = 1
        \<and> (\<forall>m\<in>set (members w). is_owner_record m \<longrightarrow> is_active m)
        \<and> distinct (map member_id (filter is_active (members w))))
    \<and> (\<forall>i\<in>set (invitations s). inv_role i \<noteq> Owner)
    \<and> length (filter (is_pending_for wid who) (invitations s)) \<le> 1"
  using tm.always_inv [OF assms]
  by (simp add: team_inv_def registry_ok_def workspace_ok_def members_ok_def invitations_ok_def)

theorem team_membership_invariant_witness:
  "length (filter (is_pending_for ''w'' ''b'') (invitations ex_team2)) \<le> 1
    \<and> distinct (map workspace_id (workspaces ex_team3))"
  using team_membership_invariant [OF ex_team_reachable(2), of "''w''" "''b''"]
    team_membership_invariant [OF ex_team_reachable(3)] by blast

lemma find_ws_update:
  assumes "\<And>w. workspace_id (f w) = workspace_id w"
  shows "find_ws a (update_first (\<lambda>w. workspace_id w = b) f r) =
    (if a = b then map_option f (find_ws b r) else find_ws a r)"
  using assms by (induction r) (auto simp: find_ws_def)

text \<open>
  Removal takes effect at once: after a successful \<open>remove_member\<close> in a reachable state,
  every operation the removed member asks for in that workspace is denied.
\<close>

theorem removal_is_immediate:
  assumes "team_reachable s" and "remove_member io wid actor target s = (s', Inr m)"
  shows "authorize wid target op s' = Inl Denied"
proof -
  obtain r w where r: "load_team s = Inr r" and w: "find_ws wid r = Some w"
    and m: "active_member w target \<noteq> None" and s': "s' = write_ws wid (mark_removed io target) r s"
    using assms(2)
    by (auto simp: remove_member_def split: sum.splits option.splits if_splits)
  have "w \<in> set (workspaces s)"
    using r w find_ws_Some by auto
  then have "members_ok (members w)"
    using tm.always_inv [OF assms(1)] by (auto simp: team_inv_def registry_ok_def workspace_ok_def)
  then have "active_member (mark_removed io target w) target = None"
    using m removed_is_inactive by fastforce
  moreover have "find_ws wid (workspaces s') = Some (mark_removed io target w)"
    using s' w by (simp add: find_ws_update)
  moreover have "team_registry s' = Json (workspaces s')"
    using s' by (simp add: write_ws_def save_team_def workspaces_def)
  ultimately show ?thesis
    by (simp add: authorize_def load_team_def authorize_workspace_def)
qed

theorem removal_is_immediate_witness:
  "authorize ''w'' ''b'' Read ex_team3 = Inr () \<and>
   authorize ''w'' ''b'' Read (fst (remove_member (ex_tio ''x'' 0) ''w'' ''o'' ''b'' ex_team3)) = Inl Denied"
proof -
  have "remove_member (ex_tio ''x'' 0) ''w'' ''o'' ''b'' ex_team3 =
      (fst (remove_member (ex_tio ''x'' 0) ''w'' ''o'' ''b'' ex_team3),
       Inr (ex_member ''b'' Contributor\<lparr>removed_at := Some ''t''\<rparr>))"
    by (simp add: ex_team3_eq team_eval)
  from removal_is_immediate [OF ex_team_reachable(3) this] show ?thesis
    by (simp add: ex_team3_eq authorize_def team_eval)
qed

definition active_in :: "team_plane \<Rightarrow> string \<Rightarrow> string \<Rightarrow> member_record option" where
  "active_in s wid who = Option.bind (find_ws wid (workspaces s)) (\<lambda>w. active_member w who)"

lemma active_in_update:
  assumes "\<And>w. workspace_id (f w) = workspace_id w"
    and "\<And>w. find_ws b (workspaces s) = Some w \<Longrightarrow> active_member w who = None \<Longrightarrow>
      active_member (f w) who = None"
    and "workspaces s' = update_first (\<lambda>w. workspace_id w = b) f (workspaces s)"
    and "active_in s a who = None"
  shows "active_in s' a who = None"
  using assms(2-4) by (auto simp: active_in_def find_ws_update [OF assms(1)] split: Option.bind_splits)

lemma mark_removed_no_growth:
  "active_member w who = None \<Longrightarrow> active_member (mark_removed io t w) who = None"
  using set_remove1_subset
  by (fastforce simp: active_member_None mark_removed_def filter_update_first_removed
      split: option.splits)

lemma accept_growth:
  assumes "active_in s wid who = None" "active_in (fst (accept_invitation io iid x s)) wid who = Some m"
  shows "x = who \<and> (\<exists>i t. i \<in> set (invitations s) \<and> invitation_id i = iid \<and> invitee i = who
    \<and> inv_workspace i = wid \<and> inv_state i = ''pending'' \<and> tio_parse io (expires_at i) = Some t
    \<and> tio_now io < t \<and> member_role m = inv_role i)"
proof -
  obtain "is" where is_eq: "load_invitations s = Inr is"
    using assms by (auto simp: accept_invitation_def split: sum.splits)
  obtain i where i: "find (\<lambda>i. invitation_id i = iid) is = Some i"
    using assms is_eq by (auto simp: accept_invitation_def split: option.splits)
  obtain t r w where t: "inv_state i = ''pending''" "invitee i = x" "tio_parse io (expires_at i) = Some t"
      "tio_now io < t" and r: "load_team s = Inr r" "find_ws (inv_workspace i) r = Some w"
      "active_member w x = None"
    and ws: "workspaces (fst (accept_invitation io iid x s)) = update_first
        (\<lambda>w. workspace_id w = inv_workspace i)
        (\<lambda>w. w\<lparr>members := members w @ [new_member io x (inv_role i)]\<rparr>) r"
    using assms is_eq i
    by (auto simp: accept_invitation_def Let_def active_in_def not_le
        split: sum.splits option.splits if_splits)
  have "workspaces s = r" using r by auto
  then have grow: "wid = inv_workspace i" "active_member w who = None"
    "active_member (w\<lparr>members := members w @ [new_member io x (inv_role i)]\<rparr>) who = Some m"
    using assms ws r(2)
    by (auto simp: active_in_def find_ws_update split: if_splits Option.bind_splits)
  have "who = x \<and> m = new_member io x (inv_role i)"
  proof -
    have "find p (xs @ [y]) = Some z \<Longrightarrow> find p xs = None \<Longrightarrow> p y \<and> z = y" for p xs y z
      by (induction xs) (auto split: if_splits)
    from this [OF _ grow(2) [unfolded active_member_def], of "new_member io x (inv_role i)" m] grow(3)
    have "is_active_member who (new_member io x (inv_role i)) \<and> m = new_member io x (inv_role i)"
      by (simp add: active_member_def)
    then show ?thesis by (auto simp: is_active_member_def new_member_def)
  qed
  moreover have "i \<in> set (invitations s)" "invitation_id i = iid"
    using find_Some_set [OF i] is_eq by auto
  ultimately show ?thesis
    using t grow(1) by (auto simp: new_member_def)
qed

lemma no_growth:
  assumes "active_in s wid who = None" and "\<And>q. c \<noteq> TCreate q" and "\<And>i x. c \<noteq> TAccept i x"
  shows "active_in (team_exec io c s) wid who = None"
proof -
  have same: "active_in s' wid who = None" if "workspaces s' = workspaces s" for s'
    using assms(1) that by (simp add: active_in_def)
  show ?thesis
  proof (cases c)
    case (TInvite a b d e f)
    then show ?thesis by (intro same) (auto simp: invite_def Let_def split: sum.splits option.splits)
  next
    case (TRevoke a b)
    then show ?thesis
      by (intro same) (auto simp: revoke_invitation_def Let_def split: sum.splits option.splits)
  next
    case (TOpen a b)
    then show ?thesis
      by (intro same) (auto simp: open_workspace_def Let_def split: sum.splits option.splits)
  next
    case (TRemove a b d)
    show ?thesis
    proof (cases "workspaces (team_exec io c s) = workspaces s")
      case False
      then have "workspaces (team_exec io c s) =
          update_first (\<lambda>w. workspace_id w = a) (mark_removed io d) (workspaces s)"
        using TRemove by (auto simp: remove_member_def split: sum.splits option.splits if_splits)
      then show ?thesis
        by (rule active_in_update [OF _ _ _ assms(1), rotated 2]) (simp_all add: mark_removed_no_growth)
    qed (rule same)
  next
    case (TLeave a b)
    show ?thesis
    proof (cases "workspaces (team_exec io c s) = workspaces s")
      case False
      then have "workspaces (team_exec io c s) =
          update_first (\<lambda>w. workspace_id w = a) (mark_removed io b) (workspaces s)"
        using TLeave by (auto simp: leave_def split: sum.splits option.splits if_splits)
      then show ?thesis
        by (rule active_in_update [OF _ _ _ assms(1), rotated 2]) (simp_all add: mark_removed_no_growth)
    qed (rule same)
  next
    case (TRequestDelete a b)
    show ?thesis
    proof (cases "workspaces (team_exec io c s) = workspaces s")
      case False
      then have "workspaces (team_exec io c s) = update_first (\<lambda>w. workspace_id w = a)
          (\<lambda>w. w\<lparr>workspace_status := WDeleting\<rparr>) (workspaces s)"
        using TRequestDelete by (auto simp: request_delete_def Let_def split: sum.splits option.splits)
      then show ?thesis
        by (rule active_in_update [OF _ _ _ assms(1), rotated 2]) (simp_all add: active_member_def)
    qed (rule same)
  next
    case (TConfirmDelete a b d)
    show ?thesis
    proof (cases "workspaces (team_exec io c s) = workspaces s")
      case False
      then have "workspaces (team_exec io c s) = update_first (\<lambda>w. workspace_id w = a)
          (\<lambda>w. w\<lparr>workspace_status := WDeleted, deleted_at := Some (tio_fmt io (tio_now io)),
             workspace_receipt := Some (delete_digest io a (workspace_path w))\<rparr>) (workspaces s)"
        using TConfirmDelete
        by (auto simp: confirm_delete_def Let_def split: sum.splits option.splits if_splits)
      then show ?thesis
        by (rule active_in_update [OF _ _ _ assms(1), rotated 2]) (simp_all add: active_member_def)
    qed (rule same)
  qed (use assms in auto)
qed

text \<open>
  C5. Nobody becomes a member without consent: if a call makes a person active in a workspace
  where they were not, it either created the workspace with them as owner, or it is that
  person's own acceptance of a pending, unexpired invitation addressed to them for that
  workspace, and the role they get is the invited one.
\<close>

theorem membership_needs_consent:
  assumes before: "active_in s wid who = None" and after: "active_in (team_exec io c s) wid who = Some m"
  shows "(\<exists>q. c = TCreate q \<and> wid = tio_uuid io \<and> who = create_owner q \<and> member_role m = Owner)
    \<or> (\<exists>iid i t. c = TAccept iid who \<and> i \<in> set (invitations s) \<and> invitation_id i = iid
        \<and> invitee i = who \<and> inv_workspace i = wid \<and> inv_state i = ''pending''
        \<and> tio_parse io (expires_at i) = Some t \<and> tio_now io < t \<and> member_role m = inv_role i)"
proof (cases c)
  case (TCreate q)
  have find_app: "find_ws a (r @ [x]) = (case find_ws a r of None \<Rightarrow>
      if workspace_id x = a then Some x else None | Some y \<Rightarrow> Some y)" for a r x
    by (induction r) (auto simp: find_ws_def)
  from TCreate before after show ?thesis
    by (auto simp: create_workspace_def active_in_def Let_def find_app new_workspace_def
        active_member_def is_active_member_def
        split: sum.splits if_splits option.splits Option.bind_splits)
next
  case (TAccept iid x)
  with before after accept_growth [of s wid who io iid x m] show ?thesis by auto
qed (use no_growth [OF before, of c io] after in auto)

theorem membership_needs_consent_witness:
  "\<exists>iid i t. TAccept ''i'' ''b'' = TAccept iid ''b'' \<and> i \<in> set (invitations ex_team2)
    \<and> inv_state i = ''pending'' \<and> tio_parse (ex_tio ''x'' 0) (expires_at i) = Some t"
proof -
  have "active_in ex_team2 ''w'' ''b'' = None"
    by (simp add: ex_team2_eq active_in_def workspaces_def team_eval)
  moreover have "active_in (team_exec (ex_tio ''x'' 0) (TAccept ''i'' ''b'') ex_team2) ''w'' ''b''
      = Some (ex_member ''b'' Contributor)"
    by (simp add: ex_team2_eq active_in_def workspaces_def team_eval)
  ultimately show ?thesis
    by (rule membership_needs_consent [THEN disjE]) blast+
qed

text \<open>
  Deletion is not final. Authorization lets an owner's deletion through in every status
  but active, so in a reachable state whose workspace is already deleted the owner may record
  the deletion intent again, which takes the record from deleted back to deleting, and confirm
  it again, which replaces the deletion time and the receipt digest kept as evidence.
\<close>

definition ex_del :: "int \<Rightarrow> string \<Rightarrow> team_io" where
  "ex_del now d = (ex_tio ''x'' now)\<lparr>tio_fmt := (\<lambda>t. if t = 0 then ''t'' else ''u''),
     tio_sha256_hex := (\<lambda>_. d)\<rparr>"

definition ex_team_deleted :: team_plane where
  "ex_team_deleted = team_exec (ex_del 0 ''d'') (TConfirmDelete ''w'' ''o'' ''w'')
     (team_exec (ex_del 0 ''d'') (TRequestDelete ''w'' ''o'') ex_team1)"

theorem deletion_receipt_is_overwritten:
  "let s1 = team_exec (ex_del 1 ''e'') (TRequestDelete ''w'' ''o'') ex_team_deleted;
       s2 = team_exec (ex_del 1 ''e'') (TConfirmDelete ''w'' ''o'' ''w'') s1
   in team_reachable ex_team_deleted
     \<and> map (\<lambda>w. (workspace_status w, deleted_at w, workspace_receipt w)) (workspaces ex_team_deleted)
         = [(WDeleted, Some ''t'', Some ''sha256:d'')]
     \<and> map workspace_status (workspaces s1) = [WDeleting]
     \<and> map (\<lambda>w. (workspace_status w, deleted_at w, workspace_receipt w)) (workspaces s2)
         = [(WDeleted, Some ''u'', Some ''sha256:e'')]"
proof -
  have "team_reachable (team_exec (ex_del 0 ''d'') (TRequestDelete ''w'' ''o'') ex_team1)"
    by (intro team_step ex_team_reachable)
      (simp add: ex_team1_eq workspaces_def ex_ws_def ex_del_def ex_tio_def)
  then have "team_reachable ex_team_deleted"
    unfolding ex_team_deleted_def
    by (rule team_step) (simp add: ex_team1_eq workspaces_def team_eval ex_del_def)
  then show ?thesis
    by (simp add: Let_def ex_team_deleted_def ex_team1_eq workspaces_def team_eval ex_del_def)
qed

end
