(* ===== verification/Values.thy ===== *)
theory Values
  imports Text Complex_Main
begin

text \<open>
  The value types of the language and of serde the components share: floating-point numbers
  with their special values, where a finite value is the rational it denotes, and JSON values.
\<close>

section \<open>Floating-point numbers\<close>

text \<open>The two zeros compare equal and no code here tells them apart, so both are \<open>Fin 0\<close>.
  Comparisons are false on NaN, as in the language.\<close>

datatype float_val = Fin rat | PosInf | NegInf | NaN

fun float_le :: "float_val \<Rightarrow> float_val \<Rightarrow> bool" where
  "float_le NaN _ = False"
| "float_le _ NaN = False"
| "float_le NegInf _ = True"
| "float_le _ PosInf = True"
| "float_le (Fin a) (Fin b) = (a \<le> b)"
| "float_le _ _ = False"

fun float_lt :: "float_val \<Rightarrow> float_val \<Rightarrow> bool" where
  "float_lt NaN _ = False"
| "float_lt _ NaN = False"
| "float_lt NegInf y = (y \<noteq> NegInf)"
| "float_lt PosInf _ = False"
| "float_lt (Fin a) (Fin b) = (a < b)"
| "float_lt (Fin a) PosInf = True"
| "float_lt (Fin a) NegInf = False"

definition is_finite :: "float_val \<Rightarrow> bool" where
  "is_finite x = (case x of Fin _ \<Rightarrow> True | _ \<Rightarrow> False)"

text \<open>The check \<open>x.is_finite() && (0.0..=1.0).contains(&x)\<close>.\<close>

definition in_unit :: "float_val \<Rightarrow> bool" where
  "in_unit x \<longleftrightarrow> is_finite x \<and> float_le (Fin 0) x \<and> float_le x (Fin 1)"

lemma in_unit_iff: "in_unit x \<longleftrightarrow> (\<exists>r. x = Fin r \<and> 0 \<le> r \<and> r \<le> 1)"
  by (cases x) (auto simp: in_unit_def is_finite_def)

section \<open>JSON values\<close>

text \<open>A number is the rational it denotes; an integer and a floating-point number of the same value
  are not told apart.\<close>

datatype json =
    JNull
  | JBool bool
  | JNumber rat
  | JString string
  | JArray "json list"
  | JObject "(string \<times> json) list"

text \<open>An object made of pairs with different keys: the maps of \<open>serde_json\<close> keep their keys sorted.\<close>

definition json_object :: "(string \<times> json) list \<Rightarrow> json" where
  "json_object m = JObject (sort_key fst m)"

definition is_object :: "json \<Rightarrow> bool" where
  "is_object v = (case v of JObject _ \<Rightarrow> True | _ \<Rightarrow> False)"

definition json_get :: "string \<Rightarrow> json \<Rightarrow> json option" where
  "json_get k v = (case v of JObject m \<Rightarrow> map_of m k | _ \<Rightarrow> None)"

definition as_str :: "json \<Rightarrow> string option" where
  "as_str v = (case v of JString s \<Rightarrow> Some s | _ \<Rightarrow> None)"

text \<open>\<open>value.get(key).and_then(Value::as_str)\<close> and the same for \<open>as_i64\<close>.\<close>

definition get_str :: "string \<Rightarrow> json \<Rightarrow> string option" where
  "get_str key v = Option.bind (json_get key v) as_str"

definition as_i64 :: "json \<Rightarrow> int option" where
  "as_i64 v = (case v of JNumber r \<Rightarrow> if r = of_int \<lfloor>r\<rfloor> \<and> - (2 ^ 63) \<le> \<lfloor>r\<rfloor> \<and> \<lfloor>r\<rfloor> < 2 ^ 63 then Some \<lfloor>r\<rfloor> else None | _ \<Rightarrow> None)"

definition get_i64 :: "string \<Rightarrow> json \<Rightarrow> int option" where
  "get_i64 key v = Option.bind (json_get key v) as_i64"

text \<open>The fields of a struct the derived \<open>Deserialize\<close> reads: from an object by name, from an array by
  position.\<close>

definition struct_fields :: "string list \<Rightarrow> json \<Rightarrow> (string \<times> json) list option" where
  "struct_fields names v = (case v of JObject m \<Rightarrow> Some m
     | JArray vs \<Rightarrow> if length vs = length names then Some (zip names vs) else None | _ \<Rightarrow> None)"

end
