(* ===== verification/Memory.thy ===== *)
theory Memory
  imports Values
begin

text \<open>
  Agent memories, \<open>crates/core/src/memory.rs\<close>: the kinds and the separated axes with their
  textual forms, the validation every memory passes before it is stored, access labels,
  expiry, the classification of authorization errors, and the construction of the full-text
  query. chrono's parser and renderer of RFC 3339 texts, the JSON printer and the Unicode
  table of letters and digits beyond ASCII are parameters.
\<close>

definition MAX_MEMORY_TITLE_BYTES :: nat where "MAX_MEMORY_TITLE_BYTES = 512"
definition MAX_MEMORY_CONTENT_BYTES :: nat where "MAX_MEMORY_CONTENT_BYTES = 64 * 1024"
definition MAX_MEMORY_PROJECT_BYTES :: nat where "MAX_MEMORY_PROJECT_BYTES = 256"
definition MAX_MEMORY_SOURCE_BYTES :: nat where "MAX_MEMORY_SOURCE_BYTES = 128"
definition MAX_MEMORY_SOURCE_ID_BYTES :: nat where "MAX_MEMORY_SOURCE_ID_BYTES = 512"
definition MAX_MEMORY_DEDUPE_KEY_BYTES :: nat where "MAX_MEMORY_DEDUPE_KEY_BYTES = 512"
definition MAX_MEMORY_PROVENANCE_BYTES :: nat where "MAX_MEMORY_PROVENANCE_BYTES = 16 * 1024"
definition MAX_MEMORY_VALID_UNTIL_BYTES :: nat where "MAX_MEMORY_VALID_UNTIL_BYTES = 64"
definition MAX_MEMORY_ACL_ENTRIES :: nat where "MAX_MEMORY_ACL_ENTRIES = 32"
definition MAX_MEMORY_ACL_BYTES :: nat where "MAX_MEMORY_ACL_BYTES = 256"

lemmas memory_limits = MAX_MEMORY_TITLE_BYTES_def MAX_MEMORY_CONTENT_BYTES_def
  MAX_MEMORY_PROJECT_BYTES_def MAX_MEMORY_SOURCE_BYTES_def MAX_MEMORY_SOURCE_ID_BYTES_def
  MAX_MEMORY_DEDUPE_KEY_BYTES_def MAX_MEMORY_PROVENANCE_BYTES_def
  MAX_MEMORY_VALID_UNTIL_BYTES_def MAX_MEMORY_ACL_ENTRIES_def MAX_MEMORY_ACL_BYTES_def

section \<open>Kinds and axes\<close>

datatype memory_kind = KEpisodic | KSemantic | KProcedural | KPreference | KWorking
datatype content_type = CEpisodic | CSemantic | CProcedural | CPreference
datatype retention_tier = TierWorking | TierDurable
datatype memory_scope = SSession | SPrincipal | SWorkspace | SOwnerGlobal

record memory_axes =
  axes_content :: content_type
  axes_tier :: retention_tier
  axes_scope :: memory_scope

datatype text_fault = TextEmpty | TextTooLong | TextControl

datatype memory_error =
    UnsupportedKind string
  | UnsupportedContentType string
  | UnsupportedTier string
  | UnsupportedScope string
  | TextFault string text_fault
  | ValidUntilNotRfc3339
  | ConfidenceOutOfRange
  | ImportanceOutOfRange
  | AclTooLong
  | AclReservedLabel
  | ProvenanceTooLong
  | QueryTooLong
  | QueryHasNoTerms

definition kind_parse :: "string \<Rightarrow> (memory_error, memory_kind) result" where
  "kind_parse value = (let v = to_ascii_lowercase (trim value) in
     if v = ''episodic'' then Inr KEpisodic
     else if v = ''semantic'' then Inr KSemantic
     else if v = ''procedural'' then Inr KProcedural
     else if v = ''preference'' then Inr KPreference
     else if v = ''working'' then Inr KWorking
     else Inl (UnsupportedKind v))"

fun kind_as_str :: "memory_kind \<Rightarrow> string" where
  "kind_as_str KEpisodic = ''episodic''"
| "kind_as_str KSemantic = ''semantic''"
| "kind_as_str KProcedural = ''procedural''"
| "kind_as_str KPreference = ''preference''"
| "kind_as_str KWorking = ''working''"

definition content_parse :: "string \<Rightarrow> (memory_error, content_type) result" where
  "content_parse value = (let v = to_ascii_lowercase (trim value) in
     if v = ''episodic'' then Inr CEpisodic
     else if v = ''semantic'' then Inr CSemantic
     else if v = ''procedural'' then Inr CProcedural
     else if v = ''preference'' then Inr CPreference
     else Inl (UnsupportedContentType v))"

fun content_as_str :: "content_type \<Rightarrow> string" where
  "content_as_str CEpisodic = ''episodic''"
| "content_as_str CSemantic = ''semantic''"
| "content_as_str CProcedural = ''procedural''"
| "content_as_str CPreference = ''preference''"

definition tier_parse :: "string \<Rightarrow> (memory_error, retention_tier) result" where
  "tier_parse value = (let v = to_ascii_lowercase (trim value) in
     if v = ''working'' then Inr TierWorking
     else if v = ''durable'' then Inr TierDurable
     else Inl (UnsupportedTier v))"

fun tier_as_str :: "retention_tier \<Rightarrow> string" where
  "tier_as_str TierWorking = ''working''"
| "tier_as_str TierDurable = ''durable''"

definition scope_parse :: "string \<Rightarrow> (memory_error, memory_scope) result" where
  "scope_parse value = (let v = to_ascii_lowercase (trim value) in
     if v = ''session'' then Inr SSession
     else if v = ''principal'' then Inr SPrincipal
     else if v = ''workspace'' \<or> v = ''project'' then Inr SWorkspace
     else if v = ''owner-global'' \<or> v = ''global'' then Inr SOwnerGlobal
     else Inl (UnsupportedScope v))"

fun scope_as_str :: "memory_scope \<Rightarrow> string" where
  "scope_as_str SSession = ''session''"
| "scope_as_str SPrincipal = ''principal''"
| "scope_as_str SWorkspace = ''workspace''"
| "scope_as_str SOwnerGlobal = ''owner-global''"

definition from_legacy_kind :: "string \<Rightarrow> (memory_error, memory_axes) result" where
  "from_legacy_kind kind = bindE (kind_parse kind) (\<lambda>legacy. Inr (case legacy of
       KWorking \<Rightarrow> \<lparr>axes_content = CSemantic, axes_tier = TierWorking, axes_scope = SWorkspace\<rparr>
     | KEpisodic \<Rightarrow> \<lparr>axes_content = CEpisodic, axes_tier = TierDurable, axes_scope = SWorkspace\<rparr>
     | KSemantic \<Rightarrow> \<lparr>axes_content = CSemantic, axes_tier = TierDurable, axes_scope = SWorkspace\<rparr>
     | KProcedural \<Rightarrow> \<lparr>axes_content = CProcedural, axes_tier = TierDurable, axes_scope = SWorkspace\<rparr>
     | KPreference \<Rightarrow> \<lparr>axes_content = CPreference, axes_tier = TierDurable, axes_scope = SWorkspace\<rparr>))"

definition unwrap_or :: "'a option \<Rightarrow> 'a \<Rightarrow> 'a" where
  "unwrap_or x d = (case x of None \<Rightarrow> d | Some a \<Rightarrow> a)"

definition with_overrides ::
    "string \<Rightarrow> string option \<Rightarrow> string option \<Rightarrow> string option \<Rightarrow> (memory_error, memory_axes) result" where
  "with_overrides legacy_kind content tier scope =
     bindE (from_legacy_kind legacy_kind) (\<lambda>legacy.
     bindE (transpose_map content_parse content) (\<lambda>c.
     bindE (transpose_map tier_parse tier) (\<lambda>t.
     bindE (transpose_map scope_parse scope) (\<lambda>s.
       Inr \<lparr>axes_content = unwrap_or c (axes_content legacy),
            axes_tier = unwrap_or t (axes_tier legacy),
            axes_scope = unwrap_or s (axes_scope legacy)\<rparr>))))"

definition legacy_kind :: "memory_axes \<Rightarrow> string" where
  "legacy_kind a = (if axes_tier a = TierWorking then ''working'' else content_as_str (axes_content a))"

section \<open>Memories\<close>

record memory_input =
  in_kind :: string
  in_project :: string
  in_title :: string
  in_content :: string
  in_source :: string
  in_source_id :: string
  in_dedupe_key :: "string option"
  in_confidence :: float_val
  in_importance :: float_val
  in_acl :: "string list"
  in_provenance :: json
  in_supersedes_id :: "string option"
  in_valid_until :: "string option"

record memory_record =
  rec_id :: string
  rec_kind :: string
  rec_content_type :: string
  rec_retention_tier :: string
  rec_scope :: string
  rec_project :: string
  rec_title :: string
  rec_content :: string
  rec_source :: string
  rec_source_id :: string
  rec_dedupe_key :: "string option"
  rec_confidence :: float_val
  rec_importance :: float_val
  rec_status :: string
  rec_acl :: "string list"
  rec_provenance :: json
  rec_observed_at :: string
  rec_valid_from :: string
  rec_valid_until :: "string option"
  rec_supersedes_id :: "string option"
  rec_created_at :: string
  rec_updated_at :: string

text \<open>The library calls the validation makes: chrono's RFC 3339 parser (the instant in
  nanoseconds), its renderer in UTC, and the JSON printer.\<close>

record text_env =
  env_parse :: "string \<Rightarrow> int option"
  env_render :: "int \<Rightarrow> string"
  env_json :: "json \<Rightarrow> string"

definition validate_text :: "string \<Rightarrow> string \<Rightarrow> nat \<Rightarrow> (memory_error, unit) result" where
  "validate_text name value max_bytes =
     bindE (ensure (trim value \<noteq> []) (TextFault name TextEmpty)) (\<lambda>_.
     bindE (ensure (length value \<le> max_bytes) (TextFault name TextTooLong)) (\<lambda>_.
     ensure (\<not> any_control value) (TextFault name TextControl)))"

definition normalize_valid_until :: "text_env \<Rightarrow> string \<Rightarrow> (memory_error, string) result" where
  "normalize_valid_until env value =
     bindE (validate_text ''valid_until'' value MAX_MEMORY_VALID_UNTIL_BYTES) (\<lambda>_.
     bindE (ok_or (env_parse env value) ValidUntilNotRfc3339) (\<lambda>t. Inr (env_render env t)))"

definition normalize_acl :: "string \<Rightarrow> string list \<Rightarrow> (memory_error, string list) result" where
  "normalize_acl project acl = (let values = if acl = [] then [project] else acl in
     bindE (ensure (length values \<le> MAX_MEMORY_ACL_ENTRIES) AclTooLong) (\<lambda>_.
     let sorted_values = sort_dedup values in
     bindE (for_each (\<lambda>value.
         bindE (validate_text ''memory ACL label'' value MAX_MEMORY_ACL_BYTES) (\<lambda>_.
         ensure (value \<noteq> ''*'') AclReservedLabel)) sorted_values) (\<lambda>_.
     Inr sorted_values)))"

definition validate_input ::
    "text_env \<Rightarrow> memory_input \<Rightarrow> (memory_error, memory_kind \<times> string list \<times> string \<times> string option) result" where
  "validate_input env inp =
     bindE (kind_parse (in_kind inp)) (\<lambda>kind.
     bindE (validate_text ''project'' (in_project inp) MAX_MEMORY_PROJECT_BYTES) (\<lambda>_.
     bindE (validate_text ''title'' (in_title inp) MAX_MEMORY_TITLE_BYTES) (\<lambda>_.
     bindE (validate_text ''content'' (in_content inp) MAX_MEMORY_CONTENT_BYTES) (\<lambda>_.
     bindE (validate_text ''source'' (in_source inp) MAX_MEMORY_SOURCE_BYTES) (\<lambda>_.
     bindE (if in_source_id inp \<noteq> []
            then validate_text ''source_id'' (in_source_id inp) MAX_MEMORY_SOURCE_ID_BYTES else Inr ()) (\<lambda>_.
     bindE (case in_dedupe_key inp of Some key \<Rightarrow> validate_text ''dedupe_key'' key MAX_MEMORY_DEDUPE_KEY_BYTES
            | None \<Rightarrow> Inr ()) (\<lambda>_.
     bindE (case in_supersedes_id inp of Some i \<Rightarrow> validate_text ''supersedes_id'' i 128 | None \<Rightarrow> Inr ()) (\<lambda>_.
     bindE (transpose_map (normalize_valid_until env) (in_valid_until inp)) (\<lambda>valid_until.
     bindE (ensure (in_unit (in_confidence inp)) ConfidenceOutOfRange) (\<lambda>_.
     bindE (ensure (in_unit (in_importance inp)) ImportanceOutOfRange) (\<lambda>_.
     bindE (normalize_acl (in_project inp) (in_acl inp)) (\<lambda>acl.
     let provenance = if in_provenance inp = JNull then JObject [] else in_provenance inp;
         provenance_json = env_json env provenance in
     bindE (ensure (length provenance_json \<le> MAX_MEMORY_PROVENANCE_BYTES) ProvenanceTooLong) (\<lambda>_.
     Inr (kind, acl, provenance_json, valid_until))))))))))))))"

text \<open>A text that does not parse is not active, neither as expiry nor as the present.\<close>

definition valid_until_is_active :: "text_env \<Rightarrow> string option \<Rightarrow> string \<Rightarrow> bool" where
  "valid_until_is_active env valid_until now = (case valid_until of
       None \<Rightarrow> True
     | Some v \<Rightarrow> (case env_parse env v of
         None \<Rightarrow> False
       | Some v \<Rightarrow> (case env_parse env now of
           None \<Rightarrow> False
         | Some now \<Rightarrow> now < v)))"

definition is_authorization_error :: "string \<Rightarrow> bool" where
  "is_authorization_error message \<longleftrightarrow>
     message = ''memory ACL denied'' \<or> message = ''candidate ACL denied''
     \<or> message = ''owner-global candidate scope requires owner authorization''
     \<or> str_contains message ''outside principal visibility''
     \<or> str_contains message ''ACL exceeds principal visibility''"

section \<open>Full-text queries\<close>

definition stopwords :: "string list" where
  "stopwords = [''a'', ''an'', ''and'', ''are'', ''as'', ''at'', ''be'', ''been'', ''but'', ''by'', ''can'',
     ''could'', ''did'', ''do'', ''does'', ''for'', ''from'', ''had'', ''has'', ''have'', ''how'', ''i'', ''if'',
     ''in'', ''into'', ''is'', ''it'', ''its'', ''may'', ''me'', ''my'', ''of'', ''on'', ''or'', ''our'',
     ''should'', ''that'', ''the'', ''their'', ''there'', ''this'', ''to'', ''was'', ''what'', ''when'',
     ''where'', ''who'', ''will'', ''with'', ''would'', ''you'', ''your'']"

definition is_stopword :: "string \<Rightarrow> bool" where
  "is_stopword term \<longleftrightarrow> list_ex (\<lambda>w. to_ascii_lowercase term = to_ascii_lowercase w) stopwords"

text \<open>\<open>char::is_alphanumeric\<close>; beyond ASCII it is the table \<open>uni\<close>.\<close>

definition is_alphanumeric :: "(nat \<Rightarrow> bool) \<Rightarrow> nat \<Rightarrow> bool" where
  "is_alphanumeric uni n \<longleftrightarrow> (if n < 128
     then 48 \<le> n \<and> n \<le> 57 \<or> 65 \<le> n \<and> n \<le> 90 \<or> 97 \<le> n \<and> n \<le> 122 else uni n)"

definition token_char :: "(nat \<Rightarrow> bool) \<Rightarrow> string \<Rightarrow> bool" where
  "token_char uni g \<longleftrightarrow> is_alphanumeric uni (code_point g) \<or> code_point g = 95"

definition term_tokens :: "(nat \<Rightarrow> bool) \<Rightarrow> string \<Rightarrow> (memory_error, string list) result" where
  "term_tokens uni query =
     bindE (ensure (length query \<le> MAX_MEMORY_CONTENT_BYTES) QueryTooLong) (\<lambda>_.
     let terms = take 16 (filter (\<lambda>t. t \<noteq> [] \<and> \<not> is_stopword t)
           (map (\<lambda>w. concat (filter (token_char uni) w)) (split_ws (utf8_chars query)))) in
     bindE (ensure (terms \<noteq> []) QueryHasNoTerms) (\<lambda>_. Inr terms))"

text \<open>The quotation mark, as a character code: a literal of it would end the term.\<close>

definition quote :: string where
  "quote = [char_of (34::nat)]"

definition query_terms :: "(nat \<Rightarrow> bool) \<Rightarrow> string \<Rightarrow> (memory_error, string list) result" where
  "query_terms uni query =
     bindE (term_tokens uni query) (\<lambda>ts. Inr (map (\<lambda>t. quote @ t @ quote @ ''*'') ts))"

definition fts_query :: "(nat \<Rightarrow> bool) \<Rightarrow> string \<Rightarrow> (memory_error, string) result" where
  "fts_query uni query = bindE (query_terms uni query) (\<lambda>ts. Inr (join '' AND '' ts))"

definition fts_query_or :: "(nat \<Rightarrow> bool) \<Rightarrow> string \<Rightarrow> (memory_error, string) result" where
  "fts_query_or uni query = bindE (query_terms uni query) (\<lambda>ts. Inr (join '' OR '' ts))"


section \<open>Lemmas\<close>

lemmas memory_eval = text_eval kind_parse_def content_parse_def tier_parse_def scope_parse_def Let_def

lemma kind_roundtrip: "kind_parse (kind_as_str k) = Inr k"
  by (cases k) (simp_all add: memory_eval)

lemma content_roundtrip: "content_parse (content_as_str c) = Inr c"
  by (cases c) (simp_all add: memory_eval)

lemma tier_roundtrip: "tier_parse (tier_as_str t) = Inr t"
  by (cases t) (simp_all add: memory_eval)

lemma scope_roundtrip: "scope_parse (scope_as_str s) = Inr s"
  by (cases s) (simp_all add: memory_eval)

lemmas parse_as_str = kind_roundtrip content_roundtrip tier_roundtrip scope_roundtrip

lemma kind_parse_Inr: "kind_parse v = Inr k \<longleftrightarrow> to_ascii_lowercase (trim v) = kind_as_str k"
  by (cases k) (auto simp: kind_parse_def Let_def)

lemma from_legacy_kind_legacy:
  "from_legacy_kind v = Inr a \<Longrightarrow> legacy_kind a = to_ascii_lowercase (trim v) \<and> axes_scope a = SWorkspace"
  unfolding from_legacy_kind_def bindE_Inr_iff kind_parse_Inr legacy_kind_def
  by (elim exE conjE, rename_tac k, case_tac k) auto

lemma validate_text_ok_iff [result_simps]:
  "validate_text name v n = Inr u \<longleftrightarrow> trim v \<noteq> [] \<and> length v \<le> n \<and> \<not> any_control v"
  by (auto simp: validate_text_def result_simps)

lemma normalize_acl_ok_iff:
  "normalize_acl project acl = Inr out \<longleftrightarrow>
     (let vs = if acl = [] then [project] else acl in
      out = sort_dedup vs \<and> length vs \<le> 32
      \<and> (\<forall>v\<in>set vs. trim v \<noteq> [] \<and> length v \<le> 256 \<and> \<not> any_control v \<and> v \<noteq> ''*''))"
  by (auto simp: normalize_acl_def Let_def result_simps memory_limits)

lemma sort_dedup_id: "sorted_wrt (<) xs \<Longrightarrow> sort_dedup xs = xs"
  using strict_sorted_iff [of xs] by (simp add: sort_dedup_def sorted_sort_id remdups_adj_distinct)

section \<open>Properties\<close>

text \<open>
  The textual forms lose nothing. Every kind, content type, tier and scope is parsed back
  from its text; a kind text is accepted exactly when, trimmed and lowered, it is the text of a
  kind, which is then the legacy kind of the axes derived from it; and the axes of any memory
  are recovered from the four texts the store keeps.
\<close>

theorem memory_axes_roundtrip:
  "kind_parse (kind_as_str k) = Inr k
   \<and> content_parse (content_as_str (axes_content a)) = Inr (axes_content a)
   \<and> tier_parse (tier_as_str (axes_tier a)) = Inr (axes_tier a)
   \<and> scope_parse (scope_as_str (axes_scope a)) = Inr (axes_scope a)
   \<and> (is_ok (from_legacy_kind v) \<longleftrightarrow> (\<exists>k. to_ascii_lowercase (trim v) = kind_as_str k))
   \<and> (\<exists>b. from_legacy_kind (legacy_kind a) = Inr b \<and> legacy_kind b = legacy_kind a)
   \<and> with_overrides (legacy_kind a) (Some (content_as_str (axes_content a)))
       (Some (tier_as_str (axes_tier a))) (Some (scope_as_str (axes_scope a))) = Inr a"
proof -
  have "legacy_kind a \<in> range kind_as_str"
    by (cases "axes_content a"; simp add: legacy_kind_def)
      (metis kind_as_str.simps rangeI)+
  then obtain q where q: "legacy_kind a = kind_as_str q" by auto
  then obtain b where b: "from_legacy_kind (legacy_kind a) = Inr b"
    by (auto simp: from_legacy_kind_def parse_as_str)
  have "legacy_kind b = to_ascii_lowercase (trim (kind_as_str q))"
    using from_legacy_kind_legacy [OF b] q by simp
  also have "\<dots> = kind_as_str q"
    using parse_as_str(1) [of q] by (simp add: kind_parse_Inr)
  finally have lb: "legacy_kind b = legacy_kind a" using q by simp
  have "is_ok (from_legacy_kind v) \<longleftrightarrow> (\<exists>k. to_ascii_lowercase (trim v) = kind_as_str k)"
    by (auto simp: is_ok_iff from_legacy_kind_def result_simps kind_parse_Inr)
  with b lb show ?thesis
    by (simp add: parse_as_str with_overrides_def unwrap_or_def)
qed

text \<open>
  Access labels have a canonical form. A normalised list is not empty, has at most 32
  labels in strictly increasing order, each a text of at most 256 bytes without control
  characters other than the reserved star; its labels are those given, or the project when
  none is given; it does not depend on the order or the repetitions of the labels given; and
  normalising it again, for whatever project, changes nothing.
\<close>

theorem normalize_acl_canonical:
  assumes "normalize_acl project acl = Inr out"
  shows "sorted_wrt (<) out \<and> out \<noteq> [] \<and> length out \<le> 32
    \<and> set out = (if acl = [] then {project} else set acl)
    \<and> list_all (\<lambda>v. trim v \<noteq> [] \<and> length v \<le> 256 \<and> \<not> any_control v \<and> v \<noteq> ''*'') out
    \<and> normalize_acl p out = Inr out
    \<and> (\<forall>acl'. set acl' = set acl \<and> length acl' \<le> 32 \<longrightarrow> normalize_acl project acl' = Inr out)"
proof -
  let ?vs = "if acl = [] then [project] else acl"
  from assms have out: "out = sort_dedup ?vs" and len: "length ?vs \<le> 32"
    and ok: "\<forall>v\<in>set ?vs. trim v \<noteq> [] \<and> length v \<le> 256 \<and> \<not> any_control v \<and> v \<noteq> ''*''"
    unfolding normalize_acl_ok_iff Let_def by blast+
  have ne: "out \<noteq> []" and set: "set out = set ?vs" and strict: "sorted_wrt (<) out"
    using out by (simp_all add: strict_sort_dedup)
  have le: "length out \<le> 32"
    unfolding out using length_sort_dedup_le [of ?vs] len by (rule le_trans)
  have "normalize_acl p out = Inr out"
    using ne le ok set strict by (simp only: normalize_acl_ok_iff Let_def) (simp add: sort_dedup_id)
  moreover have "normalize_acl project acl' = Inr out" if "set acl' = set acl" "length acl' \<le> 32" for acl'
  proof (cases "acl = []")
    case False
    have "acl' \<noteq> []" using that(1) False by auto
    moreover have "sort_dedup acl' = out"
      using out False sort_dedup_cong [OF that(1)] by simp
    ultimately show ?thesis using that ok False by (simp add: normalize_acl_ok_iff)
  qed (use that assms in simp)
  moreover have "set out = (if acl = [] then {project} else set acl)"
    unfolding set by simp
  moreover have "list_all (\<lambda>v. trim v \<noteq> [] \<and> length v \<le> 256 \<and> \<not> any_control v \<and> v \<noteq> ''*'') out"
    unfolding list_all_iff set by (rule ok)
  ultimately show ?thesis
    using ne strict le by blast
qed

theorem normalize_acl_canonical_witness:
  "normalize_acl ''p'' [''b'', ''a'', ''b''] = Inr [''a'', ''b'']
   \<and> normalize_acl ''q'' [''a'', ''b''] = Inr [''a'', ''b'']"
proof -
  have "normalize_acl ''p'' [''b'', ''a'', ''b''] = Inr [''a'', ''b'']"
    by (simp add: normalize_acl_def sort_dedup_def validate_text_def ensure_def memory_limits text_eval)
  with normalize_acl_canonical [of "''p''" "[''b'', ''a'', ''b'']" "[''a'', ''b'']" "''q''"]
  show ?thesis by blast
qed


definition text_ok :: "string \<Rightarrow> nat \<Rightarrow> bool" where
  "text_ok v n \<longleftrightarrow> trim v \<noteq> [] \<and> length v \<le> n \<and> \<not> any_control v"

text \<open>
  What may be stored. An input is accepted exactly when its kind parses, its project,
  title, content, source and, where present, source id, dedupe key and superseded id are texts
  within their limits, its expiry parses, confidence and importance are numbers between 0 and
  1 (so neither is NaN), its labels normalise and its provenance prints within the limit; the
  result is the kind, the normalised labels, the printed provenance, with an empty object for
  a null, and the expiry rendered in UTC.
\<close>

theorem validate_input_spec:
  "validate_input env inp = Inr (kind, acl, prov, vu) \<longleftrightarrow>
     kind_parse (in_kind inp) = Inr kind
   \<and> text_ok (in_project inp) 256 \<and> text_ok (in_title inp) 512 \<and> text_ok (in_content inp) 65536
   \<and> text_ok (in_source inp) 128
   \<and> (in_source_id inp = [] \<or> text_ok (in_source_id inp) 512)
   \<and> pred_option (\<lambda>key. text_ok key 512) (in_dedupe_key inp)
   \<and> pred_option (\<lambda>i. text_ok i 128) (in_supersedes_id inp)
   \<and> (case in_valid_until inp of None \<Rightarrow> vu = None
      | Some v \<Rightarrow> text_ok v 64 \<and> (\<exists>t. env_parse env v = Some t \<and> vu = Some (env_render env t)))
   \<and> (\<exists>c i. in_confidence inp = Fin c \<and> 0 \<le> c \<and> c \<le> 1 \<and> in_importance inp = Fin i \<and> 0 \<le> i \<and> i \<le> 1)
   \<and> normalize_acl (in_project inp) (in_acl inp) = Inr acl
   \<and> prov = env_json env (if in_provenance inp = JNull then JObject [] else in_provenance inp)
   \<and> length prov \<le> 16384"
proof -
  have vu: "transpose_map (normalize_valid_until env) (in_valid_until inp) = Inr vu \<longleftrightarrow>
      (case in_valid_until inp of None \<Rightarrow> vu = None
       | Some v \<Rightarrow> text_ok v 64 \<and> (\<exists>t. env_parse env v = Some t \<and> vu = Some (env_render env t)))"
    by (cases "in_valid_until inp")
      (auto simp: normalize_valid_until_def result_simps memory_limits text_ok_def)
  have opt: "(case x of Some v \<Rightarrow> validate_text name v n | None \<Rightarrow> Inr ()) = Inr u
      \<longleftrightarrow> pred_option (\<lambda>v. text_ok v n) x" for x name n u
    by (cases x) (simp_all add: result_simps text_ok_def)
  have sid: "(if b then validate_text name v n else Inr ()) = Inr u \<longleftrightarrow> \<not> b \<or> text_ok v n" for b name v n u
    by (simp add: result_simps text_ok_def)
  have "(\<exists>c i. x = Fin c \<and> 0 \<le> c \<and> c \<le> 1 \<and> y = Fin i \<and> 0 \<le> i \<and> i \<le> 1) \<longleftrightarrow> in_unit x \<and> in_unit y" for x y
    by (auto simp: in_unit_iff)
  then show ?thesis
    unfolding validate_input_def Let_def
    by (auto simp: bindE_Inr_iff ensure_Inr_iff opt sid vu memory_limits
        validate_text_ok_iff text_ok_def [symmetric])
qed

definition word_byte :: "nat \<Rightarrow> bool" where
  "word_byte n \<longleftrightarrow> 48 \<le> n \<and> n \<le> 57 \<or> 65 \<le> n \<and> n \<le> 90 \<or> 97 \<le> n \<and> n \<le> 122 \<or> n = 95"

lemma utf8_chars_tl: "g \<in> set (utf8_chars s) \<Longrightarrow> c \<in> set (tl g) \<Longrightarrow> is_cont c"
  by (induction s rule: utf8_chars.induct) (auto dest: set_takeWhileD)

lemma token_bytes:
  assumes "wf_utf8 s" "g \<in> set (utf8_chars s)" "token_char uni g" "c \<in> set g" "byte c < 128"
  shows "word_byte (byte c)"
proof -
  from assms(2) have "g \<noteq> []" by (rule utf8_chars_nonempty)
  then obtain x xs where g: "g = x # xs" by (cases g) auto
  from assms(1,2) have wf: "length g = 1 \<and> byte x < 128 \<or> 1 < length g \<and> length g \<le> 4 \<and> 192 \<le> byte x"
    by (auto simp: wf_utf8_def list_all_iff g)
  have "c \<notin> set xs"
    using utf8_chars_tl [OF assms(2), of c] assms(5) by (auto simp: g is_cont_def)
  with assms(4) g have "c = x" by simp
  with wf assms(5) g have "xs = []" by auto
  with assms(3,5) g \<open>c = x\<close> show ?thesis
    by (auto simp: token_char_def is_alphanumeric_def word_byte_def)
qed

lemma term_tokens_ok:
  assumes "wf_utf8 q" "term_tokens uni q = Inr ts" "t \<in> set ts"
  shows "t \<noteq> [] \<and> \<not> is_stopword t \<and> list_all (\<lambda>c. byte c < 128 \<longrightarrow> word_byte (byte c)) t"
proof -
  from assms(2,3) have "t \<in> set (filter (\<lambda>t. t \<noteq> [] \<and> \<not> is_stopword t)
      (map (\<lambda>w. concat (filter (token_char uni) w)) (split_ws (utf8_chars q))))"
    by (auto simp: term_tokens_def Let_def result_simps split: if_splits dest!: in_set_takeD)
  then obtain w where w: "w \<in> set (split_ws (utf8_chars q))" "t = concat (filter (token_char uni) w)"
    "t \<noteq> []" "\<not> is_stopword t" by auto
  have "word_byte (byte c)" if "c \<in> set t" "byte c < 128" for c
  proof -
    from that(1) w(2) obtain g where "g \<in> set w" "token_char uni g" "c \<in> set g" by auto
    with token_bytes [OF assms(1), of g uni c] split_ws_no_ws [OF w(1), of g] that(2) show ?thesis by auto
  qed
  with w show ?thesis by (simp add: list_all_iff)
qed

text \<open>
  C6. A query cannot inject full-text operators. From a well-formed string, the terms are
  between 1 and 16, none is empty or a stop word, and the only ASCII characters in them are
  letters, digits and the underscore, so none holds a quotation mark, a space or an operator;
  both queries are these terms, each in quotation marks and with the prefix star, joined by
  the one operator.
\<close>

theorem fts_query_no_injection:
  assumes "wf_utf8 q" "fts_query uni q = Inr out"
  shows "\<exists>ts. term_tokens uni q = Inr ts \<and> 1 \<le> length ts \<and> length ts \<le> 16
    \<and> list_all (\<lambda>t. t \<noteq> [] \<and> \<not> is_stopword t \<and> list_all (\<lambda>c. byte c < 128 \<longrightarrow> word_byte (byte c)) t) ts
    \<and> out = join '' AND '' (map (\<lambda>t. quote @ t @ quote @ ''*'') ts)
    \<and> fts_query_or uni q = Inr (join '' OR '' (map (\<lambda>t. quote @ t @ quote @ ''*'') ts))"
proof -
  from assms(2) obtain ts where ts: "term_tokens uni q = Inr ts"
    and out: "out = join '' AND '' (map (\<lambda>t. quote @ t @ quote @ ''*'') ts)"
    by (auto simp: fts_query_def query_terms_def result_simps)
  from ts have "ts \<noteq> []" "length ts \<le> 16"
    by (auto simp: term_tokens_def Let_def result_simps split: if_splits)
  moreover have "list_all (\<lambda>t. t \<noteq> [] \<and> \<not> is_stopword t
      \<and> list_all (\<lambda>c. byte c < 128 \<longrightarrow> word_byte (byte c)) t) ts"
    unfolding list_all_iff [of _ ts] using term_tokens_ok [OF assms(1) ts] by blast
  ultimately show ?thesis
    using ts out by (auto simp: fts_query_or_def query_terms_def Suc_le_eq)
qed

theorem fts_query_no_injection_witness:
  "fts_query (\<lambda>_. True) ''The b*g OR'' = Inr (quote @ ''bg'' @ quote @ ''*'')
   \<and> (\<exists>ts. term_tokens (\<lambda>_. True) ''The b*g OR'' = Inr ts \<and> length ts \<le> 16)"
proof -
  have q: "fts_query (\<lambda>_. True) ''The b*g OR'' = Inr (quote @ ''bg'' @ quote @ ''*'')"
    by (simp add: fts_query_def query_terms_def term_tokens_def ensure_def memory_limits
        split_ws.simps is_stopword_def stopwords_def token_char_def is_alphanumeric_def text_eval
        char_eval Let_def)
  have wf: "wf_utf8 ''The b*g OR''"
    by (simp add: wf_utf8_def text_eval)
  from q fts_query_no_injection [OF wf q] show ?thesis by blast
qed

end
