(* ===== verification/Observation.thy ===== *)
theory Observation
  imports Memory
begin

text \<open>
  Observation candidates, \<open>crates/core/src/observation.rs\<close>: what a harness may propose for
  review, and the validation a proposal passes before it is queued. The clock, chrono's parser
  and its renderer in milliseconds, and the JSON printer are parameters.
\<close>

definition MAX_CANDIDATE_TITLE_BYTES :: nat where "MAX_CANDIDATE_TITLE_BYTES = 256"
definition MAX_CANDIDATE_CONTENT_BYTES :: nat where "MAX_CANDIDATE_CONTENT_BYTES = 8 * 1024"
definition MAX_CANDIDATE_SOURCE_BYTES :: nat where "MAX_CANDIDATE_SOURCE_BYTES = 128"
definition MAX_CANDIDATE_SOURCE_ID_BYTES :: nat where "MAX_CANDIDATE_SOURCE_ID_BYTES = 512"
definition MAX_CANDIDATE_DEDUPE_KEY_BYTES :: nat where "MAX_CANDIDATE_DEDUPE_KEY_BYTES = 512"
definition MAX_CANDIDATE_PROVENANCE_BYTES :: nat where "MAX_CANDIDATE_PROVENANCE_BYTES = 4 * 1024"

text \<open>Durations are in nanoseconds.\<close>

definition days :: "int \<Rightarrow> int" where
  "days n = n * 86400000000000"

definition MAX_CANDIDATE_TTL :: int where "MAX_CANDIDATE_TTL = days 7"

lemmas candidate_limits = MAX_CANDIDATE_TITLE_BYTES_def MAX_CANDIDATE_CONTENT_BYTES_def
  MAX_CANDIDATE_SOURCE_BYTES_def MAX_CANDIDATE_SOURCE_ID_BYTES_def
  MAX_CANDIDATE_DEDUPE_KEY_BYTES_def MAX_CANDIDATE_PROVENANCE_BYTES_def

datatype observation_kind = HarnessScratchpad | ExecutionEvent | EvidenceBacked | UserAuthored
datatype sensitivity = Normal | Sensitive | Restricted

datatype observation_error =
    UnsupportedObservation string
  | UnsupportedSensitivity string
  | FromMemory memory_error
  | ProvenanceNotObject
  | CandidateProvenanceTooLong
  | ExpiresAtNotRfc3339
  | ExpiresInPast
  | ExpiresTooLate

definition observation_parse :: "string \<Rightarrow> (observation_error, observation_kind) result" where
  "observation_parse value = (let v = to_ascii_lowercase (trim value) in
     if v = ''harness-scratchpad'' \<or> v = ''scratchpad'' then Inr HarnessScratchpad
     else if v = ''execution-event'' \<or> v = ''execution'' then Inr ExecutionEvent
     else if v = ''evidence-backed'' \<or> v = ''evidence'' then Inr EvidenceBacked
     else if v = ''user-authored'' \<or> v = ''user'' then Inr UserAuthored
     else Inl (UnsupportedObservation v))"

fun observation_as_str :: "observation_kind \<Rightarrow> string" where
  "observation_as_str HarnessScratchpad = ''harness-scratchpad''"
| "observation_as_str ExecutionEvent = ''execution-event''"
| "observation_as_str EvidenceBacked = ''evidence-backed''"
| "observation_as_str UserAuthored = ''user-authored''"

definition sensitivity_parse :: "string \<Rightarrow> (observation_error, sensitivity) result" where
  "sensitivity_parse value = (let v = to_ascii_lowercase (trim value) in
     if v = ''normal'' \<or> v = ''standard'' then Inr Normal
     else if v = ''sensitive'' then Inr Sensitive
     else if v = ''restricted'' then Inr Restricted
     else Inl (UnsupportedSensitivity v))"

fun sensitivity_as_str :: "sensitivity \<Rightarrow> string" where
  "sensitivity_as_str Normal = ''normal''"
| "sensitivity_as_str Sensitive = ''sensitive''"
| "sensitivity_as_str Restricted = ''restricted''"

record candidate_input =
  ci_observation_kind :: string
  ci_content_type :: string
  ci_retention_tier :: string
  ci_scope :: string
  ci_project :: string
  ci_title :: string
  ci_content :: string
  ci_source :: string
  ci_source_id :: string
  ci_dedupe_key :: "string option"
  ci_confidence :: float_val
  ci_importance :: float_val
  ci_sensitivity :: string
  ci_acl :: "string list"
  ci_provenance :: json
  ci_expires_at :: string

record candidate =
  cand_id :: string
  cand_observation_kind :: string
  cand_content_type :: string
  cand_retention_tier :: string
  cand_scope :: string
  cand_created_by :: string
  cand_project :: string
  cand_title :: string
  cand_content :: string
  cand_source :: string
  cand_source_id :: string
  cand_dedupe_key :: "string option"
  cand_confidence :: float_val
  cand_importance :: float_val
  cand_sensitivity :: string
  cand_status :: string
  cand_acl :: "string list"
  cand_provenance :: json
  cand_expires_at :: string
  cand_rejection_reason :: "string option"
  cand_created_at :: string
  cand_updated_at :: string

record validated_candidate =
  vc_observation_kind :: observation_kind
  vc_content_type :: content_type
  vc_retention_tier :: retention_tier
  vc_scope :: memory_scope
  vc_sensitivity :: sensitivity
  vc_acl :: "string list"
  vc_provenance :: json
  vc_expires_at :: string

definition obs_validate_text :: "string \<Rightarrow> string \<Rightarrow> nat \<Rightarrow> (observation_error, unit) result" where
  "obs_validate_text name value max_bytes =
     bindE (ensure (trim value \<noteq> []) (FromMemory (TextFault name TextEmpty))) (\<lambda>_.
     bindE (ensure (length value \<le> max_bytes) (FromMemory (TextFault name TextTooLong))) (\<lambda>_.
     ensure (\<not> any_control value) (FromMemory (TextFault name TextControl))))"

text \<open>\<open>env_render\<close> renders with milliseconds here.\<close>

definition validate_candidate ::
    "text_env \<Rightarrow> int \<Rightarrow> candidate_input \<Rightarrow> (observation_error, validated_candidate) result" where
  "validate_candidate env now inp =
     bindE (observation_parse (ci_observation_kind inp)) (\<lambda>kind.
     bindE (map_err FromMemory (content_parse (ci_content_type inp))) (\<lambda>content.
     bindE (map_err FromMemory (tier_parse (ci_retention_tier inp))) (\<lambda>tier.
     bindE (map_err FromMemory (scope_parse (ci_scope inp))) (\<lambda>scope.
     bindE (sensitivity_parse (ci_sensitivity inp)) (\<lambda>sens.
     bindE (obs_validate_text ''project'' (ci_project inp) 256) (\<lambda>_.
     bindE (obs_validate_text ''title'' (ci_title inp) MAX_CANDIDATE_TITLE_BYTES) (\<lambda>_.
     bindE (obs_validate_text ''content'' (ci_content inp) MAX_CANDIDATE_CONTENT_BYTES) (\<lambda>_.
     bindE (obs_validate_text ''source'' (ci_source inp) MAX_CANDIDATE_SOURCE_BYTES) (\<lambda>_.
     bindE (obs_validate_text ''source_id'' (ci_source_id inp) MAX_CANDIDATE_SOURCE_ID_BYTES) (\<lambda>_.
     bindE (case ci_dedupe_key inp of
         Some key \<Rightarrow> obs_validate_text ''dedupe_key'' key MAX_CANDIDATE_DEDUPE_KEY_BYTES
       | None \<Rightarrow> Inr ()) (\<lambda>_.
     bindE (ensure (in_unit (ci_confidence inp)) (FromMemory ConfidenceOutOfRange)) (\<lambda>_.
     bindE (ensure (in_unit (ci_importance inp)) (FromMemory ImportanceOutOfRange)) (\<lambda>_.
     bindE (ensure (is_object (ci_provenance inp)) ProvenanceNotObject) (\<lambda>_.
     bindE (ensure (length (env_json env (ci_provenance inp)) \<le> MAX_CANDIDATE_PROVENANCE_BYTES)
       CandidateProvenanceTooLong) (\<lambda>_.
     bindE (map_err FromMemory (normalize_acl (ci_project inp) (ci_acl inp))) (\<lambda>acl.
     bindE (ok_or (env_parse env (ci_expires_at inp)) ExpiresAtNotRfc3339) (\<lambda>expires.
     bindE (ensure (now < expires) ExpiresInPast) (\<lambda>_.
     bindE (ensure (expires \<le> now + MAX_CANDIDATE_TTL) ExpiresTooLate) (\<lambda>_.
     Inr \<lparr>vc_observation_kind = kind, vc_content_type = content, vc_retention_tier = tier,
          vc_scope = scope, vc_sensitivity = sens, vc_acl = acl,
          vc_provenance = ci_provenance inp, vc_expires_at = env_render env expires\<rparr>)))))))))))))))))))"

lemma obs_validate_text_ok_iff [result_simps]:
  "obs_validate_text name v n = Inr u \<longleftrightarrow> text_ok v n"
  by (auto simp: obs_validate_text_def result_simps text_ok_def)

lemma observation_roundtrip: "observation_parse (observation_as_str k) = Inr k"
  by (cases k) (simp_all add: observation_parse_def text_eval Let_def)

lemma sensitivity_roundtrip: "sensitivity_parse (sensitivity_as_str k) = Inr k"
  by (cases k) (simp_all add: sensitivity_parse_def text_eval Let_def)

section \<open>Properties\<close>

text \<open>
  What may be proposed. A proposal is accepted exactly when its five classes parse, its
  texts are within the limits, its numbers are between 0 and 1, its provenance is an object
  that prints within 4096 bytes, its labels normalise, and its expiry is a time after the
  present and at most seven days ahead; the result holds the classes, the labels and the
  rendered expiry, and its classes print to texts that parse to them again.
\<close>

theorem validate_candidate_spec:
  "validate_candidate env now inp = Inr v \<longleftrightarrow>
     observation_parse (ci_observation_kind inp) = Inr (vc_observation_kind v)
   \<and> content_parse (ci_content_type inp) = Inr (vc_content_type v)
   \<and> tier_parse (ci_retention_tier inp) = Inr (vc_retention_tier v)
   \<and> scope_parse (ci_scope inp) = Inr (vc_scope v)
   \<and> sensitivity_parse (ci_sensitivity inp) = Inr (vc_sensitivity v)
   \<and> observation_parse (observation_as_str (vc_observation_kind v)) = Inr (vc_observation_kind v)
   \<and> sensitivity_parse (sensitivity_as_str (vc_sensitivity v)) = Inr (vc_sensitivity v)
   \<and> text_ok (ci_project inp) 256 \<and> text_ok (ci_title inp) 256 \<and> text_ok (ci_content inp) 8192
   \<and> text_ok (ci_source inp) 128 \<and> text_ok (ci_source_id inp) 512
   \<and> pred_option (\<lambda>key. text_ok key 512) (ci_dedupe_key inp)
   \<and> (\<exists>c i. ci_confidence inp = Fin c \<and> 0 \<le> c \<and> c \<le> 1 \<and> ci_importance inp = Fin i \<and> 0 \<le> i \<and> i \<le> 1)
   \<and> is_object (ci_provenance inp) \<and> length (env_json env (ci_provenance inp)) \<le> 4096
   \<and> vc_provenance v = ci_provenance inp
   \<and> normalize_acl (ci_project inp) (ci_acl inp) = Inr (vc_acl v)
   \<and> (\<exists>t. env_parse env (ci_expires_at inp) = Some t \<and> now < t \<and> t \<le> now + 7 * 86400 * 1000000000
        \<and> vc_expires_at v = env_render env t)"
proof -
  have opt: "(case x of Some k \<Rightarrow> obs_validate_text name k n | None \<Rightarrow> Inr ()) = Inr u
      \<longleftrightarrow> pred_option (\<lambda>k. text_ok k n) x" for x name n u
    by (cases x) (simp_all add: result_simps)
  have unit: "(\<exists>c i. x = Fin c \<and> 0 \<le> c \<and> c \<le> 1 \<and> y = Fin i \<and> 0 \<le> i \<and> i \<le> 1) \<longleftrightarrow> in_unit x \<and> in_unit y" for x y
    by (auto simp: in_unit_iff)
  have v: "v = \<lparr>vc_observation_kind = a, vc_content_type = b, vc_retention_tier = c, vc_scope = d,
      vc_sensitivity = e, vc_acl = f, vc_provenance = g, vc_expires_at = h\<rparr> \<longleftrightarrow>
      a = vc_observation_kind v \<and> b = vc_content_type v \<and> c = vc_retention_tier v \<and> d = vc_scope v
      \<and> e = vc_sensitivity v \<and> f = vc_acl v \<and> g = vc_provenance v \<and> h = vc_expires_at v" for a b c d e f g h
    by auto
  show ?thesis
    unfolding validate_candidate_def unit
    by (auto simp: bindE_Inr_iff ensure_Inr_iff ok_or_Inr_iff map_err_Inr_iff opt v
        obs_validate_text_ok_iff candidate_limits MAX_CANDIDATE_TTL_def days_def
        observation_roundtrip sensitivity_roundtrip)
qed

end
