(* ===== verification/Classification.thy ===== *)
theory Classification
  imports Observation "HOL-Library.Product_Lexorder"
begin

text \<open>
  Classification of candidates against the canonical memories, \<open>crates/core/src/classification.rs\<close>:
  text normalisation and similarity, the decision, and the containment of an optional model
  provider. The provider is a parameter, as are the clock (read once per call here), the
  RFC 3339 parser and the rounding of floating-point results; literals such as 0.72 are the
  rounded decimal.
\<close>

record class_env =
  cl_now :: int
  cl_parse :: "string \<Rightarrow> int option"
  cl_round32 :: "rat \<Rightarrow> rat"
  cl_round64 :: "rat \<Rightarrow> rat"

definition MAX_EXPLANATION_BYTES :: nat where "MAX_EXPLANATION_BYTES = 512"

definition SEMANTIC_DUPLICATE_THRESHOLD :: "class_env \<Rightarrow> rat" where
  "SEMANTIC_DUPLICATE_THRESHOLD env = cl_round64 env (72 / 100)"

definition REINFORCEMENT_THRESHOLD :: "class_env \<Rightarrow> rat" where
  "REINFORCEMENT_THRESHOLD env = cl_round64 env (45 / 100)"

datatype class_kind = New | ExactDuplicate | SemanticDuplicate | Reinforcement | Contradiction
  | Supersession | TemporaryWorking | Discard

datatype proposed_action = RetainForReview | MergeWithExisting | ReinforceExisting
  | ReplaceExistingAfterReview | KeepTemporary | DiscardAction

fun class_as_str :: "class_kind \<Rightarrow> string" where
  "class_as_str New = ''new''"
| "class_as_str ExactDuplicate = ''exact-duplicate''"
| "class_as_str SemanticDuplicate = ''semantic-duplicate''"
| "class_as_str Reinforcement = ''reinforcement''"
| "class_as_str Contradiction = ''contradiction''"
| "class_as_str Supersession = ''supersession''"
| "class_as_str TemporaryWorking = ''temporary-working''"
| "class_as_str Discard = ''discard''"

fun action_as_str :: "proposed_action \<Rightarrow> string" where
  "action_as_str RetainForReview = ''retain-for-review''"
| "action_as_str MergeWithExisting = ''merge-with-existing''"
| "action_as_str ReinforceExisting = ''reinforce-existing''"
| "action_as_str ReplaceExistingAfterReview = ''replace-existing-after-review''"
| "action_as_str KeepTemporary = ''keep-temporary''"
| "action_as_str DiscardAction = ''discard''"

record classification =
  cc_candidate_id :: string
  cc_classification :: string
  cc_supporting :: "string list"
  cc_explanation :: string
  cc_confidence :: float_val
  cc_action :: string
  cc_ambiguity :: "string option"
  cc_compared :: nat

section \<open>Text comparison\<close>

definition alnum_char :: "string \<Rightarrow> bool" where
  "alnum_char g \<longleftrightarrow> is_ascii_alnum (code_point g)"

definition trim_word :: "string list \<Rightarrow> string" where
  "trim_word gs = concat (rev (dropWhile (\<lambda>g. \<not> alnum_char g)
     (rev (dropWhile (\<lambda>g. \<not> alnum_char g) gs))))"

definition normalized_text :: "string \<Rightarrow> string \<Rightarrow> string" where
  "normalized_text title content = join '' ''
     (filter (\<lambda>w. w \<noteq> [])
       (map trim_word (split_ws (utf8_chars (to_ascii_lowercase (title @ '' '' @ content))))))"

definition token_similarity :: "class_env \<Rightarrow> string \<Rightarrow> string \<Rightarrow> rat" where
  "token_similarity env left right =
     (let l = remdups (words left); r = remdups (words right);
          shared = length (filter (\<lambda>w. w \<in> set r) l);
          total = length l + length r
      in if total = 0 then 0 else cl_round64 env (of_nat (2 * shared) / of_nat total))"

definition has_negation :: "string \<Rightarrow> bool" where
  "has_negation value \<longleftrightarrow> list_ex (\<lambda>w. w \<in> set [''no'', ''not'', ''never'', ''dont'',
     ''don'' @ [char_of (39::nat)] @ ''t'', ''cannot'', ''can'' @ [char_of (39::nat)] @ ''t'']) (words value)"

definition has_change_marker :: "string \<Rightarrow> bool" where
  "has_change_marker value \<longleftrightarrow> list_ex (\<lambda>w. w \<in> set [''changed'', ''change'', ''now'', ''instead'',
     ''replace'', ''replaced'', ''supersede'', ''supersedes'', ''updated'']) (words value)"

definition polarity_conflict :: "class_env \<Rightarrow> string \<Rightarrow> string \<Rightarrow> bool" where
  "polarity_conflict env left right \<longleftrightarrow> has_negation left \<noteq> has_negation right
     \<and> cl_round64 env (35 / 100) \<le> token_similarity env left right"

definition preference_value_conflict :: "class_env \<Rightarrow> candidate \<Rightarrow> memory_record \<Rightarrow> rat \<Rightarrow> bool" where
  "preference_value_conflict env c m similarity =
     (let ct = normalized_text (cand_title c) (cand_content c);
          mt = normalized_text (rec_title m) (rec_content m)
      in cand_content_type c = ''preference'' \<and> cl_round64 env (35 / 100) \<le> similarity
         \<and> (has_change_marker ct \<or> has_change_marker mt) \<and> ct \<noteq> mt)"

section \<open>Eligible memories\<close>

text \<open>A validity limit that does not parse does not make a memory stale.\<close>

definition memory_is_stale :: "class_env \<Rightarrow> memory_record \<Rightarrow> bool" where
  "memory_is_stale env m = (case rec_valid_until m of None \<Rightarrow> False
     | Some v \<Rightarrow> (case cl_parse env v of None \<Rightarrow> False | Some t \<Rightarrow> t \<le> cl_now env))"

definition memory_is_active :: "class_env \<Rightarrow> memory_record \<Rightarrow> bool" where
  "memory_is_active env m =
     (if rec_status m \<noteq> ''active'' \<or> memory_is_stale env m then False
      else (case cl_parse env (rec_valid_from m) of None \<Rightarrow> False | Some t \<Rightarrow> t \<le> cl_now env))"

definition eligible :: "class_env \<Rightarrow> candidate \<Rightarrow> memory_record \<Rightarrow> bool" where
  "eligible env c m \<longleftrightarrow> memory_is_active env m \<and> rec_project m = cand_project c
     \<and> rec_acl m = cand_acl c \<and> rec_content_type m = cand_content_type c
     \<and> rec_retention_tier m = cand_retention_tier c \<and> rec_scope m = cand_scope c"

section \<open>The decision\<close>

definition bounded_text :: "string \<Rightarrow> nat \<Rightarrow> string" where
  "bounded_text value max_bytes = (if length value \<le> max_bytes then value
     else slice value 0 (floor_boundary value max_bytes))"

definition report :: "candidate \<Rightarrow> class_kind \<Rightarrow> string list \<Rightarrow> string \<Rightarrow> rat \<Rightarrow> proposed_action
    \<Rightarrow> string option \<Rightarrow> nat \<Rightarrow> classification" where
  "report c kind supporting explanation confidence action ambiguity compared =
     \<lparr>cc_candidate_id = cand_id c, cc_classification = class_as_str kind, cc_supporting = supporting,
      cc_explanation = bounded_text explanation MAX_EXPLANATION_BYTES,
      cc_confidence = Fin (clamp confidence 0 1), cc_action = action_as_str action,
      cc_ambiguity = map_option (\<lambda>v. bounded_text v MAX_EXPLANATION_BYTES) ambiguity,
      cc_compared = compared\<rparr>"

record match =
  mt_memory :: memory_record
  mt_similarity :: rat
  mt_exact :: bool
  mt_contradiction :: bool
  mt_supersession :: bool

definition match_of :: "class_env \<Rightarrow> candidate \<Rightarrow> memory_record \<Rightarrow> match option" where
  "match_of env c m =
     (let ct = normalized_text (cand_title c) (cand_content c);
          mt = normalized_text (rec_title m) (rec_content m);
          exact = (ct = mt);
          similarity = token_similarity env ct mt;
          contradiction = (polarity_conflict env ct mt \<or> preference_value_conflict env c m similarity);
          supersession = (contradiction \<and> (has_change_marker ct \<or> has_change_marker mt))
      in if exact \<or> REINFORCEMENT_THRESHOLD env \<le> similarity \<or> contradiction
         then Some \<lparr>mt_memory = m, mt_similarity = similarity, mt_exact = exact,
                    mt_contradiction = contradiction, mt_supersession = supersession\<rparr>
         else None)"

definition matches :: "class_env \<Rightarrow> candidate \<Rightarrow> memory_record list \<Rightarrow> match list" where
  "matches env c memories =
     sort_key (\<lambda>x. (- mt_similarity x, rec_id (mt_memory x)))
       (List.map_filter (match_of env c) (filter (eligible env c) memories))"

definition below_floor :: "class_env \<Rightarrow> candidate \<Rightarrow> bool" where
  "below_floor env c \<longleftrightarrow>
     float_lt (cand_confidence c) (Fin (cl_round32 env (2 / 10))) \<or> length (trim (cand_content c)) < 3"

text \<open>\<open>(base + similarity * factor) as f32\<close>, computed in double precision.\<close>

definition blend :: "class_env \<Rightarrow> rat \<Rightarrow> rat \<Rightarrow> rat \<Rightarrow> rat" where
  "blend env base factor similarity = cl_round32 env (cl_round64 env
     (cl_round64 env base + cl_round64 env (similarity * cl_round64 env factor)))"

definition classify :: "class_env \<Rightarrow> candidate \<Rightarrow> memory_record list \<Rightarrow> classification" where
  "classify env c memories = (let n = length (filter (eligible env c) memories) in
     if cand_status c \<noteq> ''pending'' then
       report c Discard [] ''candidate is no longer pending and cannot be promoted'' 1 DiscardAction None n
     else if below_floor env c then
       report c Discard [] ''candidate confidence or content is below the bounded retention floor''
         (cl_round32 env (98 / 100)) DiscardAction None n
     else (case matches env c memories of
       [] \<Rightarrow>
         if cand_retention_tier c = ''working'' then
           report c TemporaryWorking []
             ''no visible canonical match; retain only within the candidate working window''
             (cl_round32 env (9 / 10)) KeepTemporary None n
         else
           report c New []
             ''no visible canonical memory matched within the same project, ACL, and memory axes''
             (cl_round32 env (9 / 10)) RetainForReview None n
     | best # _ \<Rightarrow>
         let supporting = [rec_id (mt_memory best)]; sim = mt_similarity best in
         if mt_exact best then
           report c ExactDuplicate supporting
             ''normalized title and content exactly match visible canonical memory''
             (cl_round32 env (99 / 100)) MergeWithExisting None n
         else if mt_supersession best then
           report c Supersession supporting
             ''candidate conflicts with a visible memory and contains a change marker; replacement requires review''
             (blend env (65 / 100) (3 / 10) sim) ReplaceExistingAfterReview
             (Some ''conflicting decisions are never auto-committed'') n
         else if mt_contradiction best then
           report c Contradiction supporting
             ''candidate conflicts with visible canonical memory; retain for explicit review''
             (blend env (55 / 100) (35 / 100) sim) RetainForReview
             (Some ''polarity or preference values conflict'') n
         else if SEMANTIC_DUPLICATE_THRESHOLD env \<le> sim then
           report c SemanticDuplicate supporting
             ''high deterministic token similarity indicates a paraphrase of visible canonical memory''
             (blend env (7 / 10) (25 / 100) sim) MergeWithExisting None n
         else if cand_retention_tier c = ''working'' then
           report c TemporaryWorking supporting
             ''working candidate is related to visible memory but remains temporary and review-only''
             (cl_round32 env (7 / 10)) KeepTemporary None n
         else
           report c Reinforcement supporting
             ''candidate provides related evidence without an exact or semantic duplicate''
             (blend env (55 / 100) (35 / 100) sim) ReinforceExisting None n))"

section \<open>The optional provider\<close>

type_synonym provider = "candidate \<Rightarrow> memory_record list \<Rightarrow> (string, classification) result"

definition class_names :: "string list" where
  "class_names = [''new'', ''exact-duplicate'', ''semantic-duplicate'', ''reinforcement'',
     ''contradiction'', ''supersession'', ''temporary-working'', ''discard'']"

definition action_names :: "string list" where
  "action_names = [''retain-for-review'', ''merge-with-existing'', ''reinforce-existing'',
     ''replace-existing-after-review'', ''keep-temporary'', ''discard'']"

definition provider_result_is_valid ::
    "class_env \<Rightarrow> candidate \<Rightarrow> memory_record list \<Rightarrow> classification \<Rightarrow> bool" where
  "provider_result_is_valid env c memories r =
     (let visible_ids = map rec_id (filter (eligible env c) memories) in
      cc_candidate_id r = cand_id c
      \<and> cc_classification r \<in> set class_names
      \<and> cc_action r \<in> set action_names
      \<and> in_unit (cc_confidence r)
      \<and> length (cc_explanation r) \<le> MAX_EXPLANATION_BYTES
      \<and> (case cc_ambiguity r of None \<Rightarrow> True | Some v \<Rightarrow> length v \<le> MAX_EXPLANATION_BYTES)
      \<and> length (cc_supporting r) \<le> min (length memories) 32
      \<and> list_all (\<lambda>i. i \<in> set visible_ids) (cc_supporting r))"

definition provider_fallback :: "classification \<Rightarrow> classification" where
  "provider_fallback d = d\<lparr>cc_action := action_as_str RetainForReview,
     cc_ambiguity := Some ''model-assisted comparison unavailable or invalid; deterministic review required''\<rparr>"

definition classify_with_optional_provider ::
    "class_env \<Rightarrow> provider option \<Rightarrow> candidate \<Rightarrow> memory_record list \<Rightarrow> classification" where
  "classify_with_optional_provider env prov c memories =
     (let deterministic = classify env c memories in
      case prov of None \<Rightarrow> deterministic
      | Some f \<Rightarrow> (case f c memories of
          Inr result \<Rightarrow> if provider_result_is_valid env c memories result then result
            else provider_fallback deterministic
        | Inl _ \<Rightarrow> provider_fallback deterministic))"


section \<open>Lemmas\<close>

lemma length_bounded_text: "length (bounded_text v n) \<le> n"
  using floor_boundary_le [of v n] by (simp add: bounded_text_def slice_def)

lemma report_simps [simp]:
  "cc_candidate_id (report c k s e x a u n) = cand_id c"
  "cc_classification (report c k s e x a u n) = class_as_str k"
  "cc_supporting (report c k s e x a u n) = s"
  "cc_action (report c k s e x a u n) = action_as_str a"
  "cc_compared (report c k s e x a u n) = n"
  by (simp_all add: report_def)

lemma class_as_str_names: "class_as_str k \<in> set class_names"
  by (cases k) (simp_all add: class_names_def)

lemma action_as_str_names: "action_as_str a \<in> set action_names"
  by (cases a) (simp_all add: action_names_def)

text \<open>What every report satisfies, whatever the numbers.\<close>

definition contained :: "class_env \<Rightarrow> candidate \<Rightarrow> memory_record list \<Rightarrow> classification \<Rightarrow> bool" where
  "contained env c memories r \<longleftrightarrow> cc_candidate_id r = cand_id c
     \<and> cc_classification r \<in> set class_names \<and> cc_action r \<in> set action_names
     \<and> (\<exists>q. cc_confidence r = Fin q \<and> 0 \<le> q \<and> q \<le> 1)
     \<and> length (cc_explanation r) \<le> 512
     \<and> pred_option (\<lambda>v. length v \<le> 512) (cc_ambiguity r)
     \<and> length (cc_supporting r) \<le> 32
     \<and> set (cc_supporting r) \<subseteq> rec_id ` {m \<in> set memories. eligible env c m}"

lemma report_contained:
  assumes "set s \<subseteq> rec_id ` {m \<in> set memories. eligible env c m}" "length s \<le> 1"
  shows "contained env c memories (report c k s e x a u n)"
proof -
  have "cc_confidence (report c k s e x a u n) = Fin (clamp x 0 1)"
    and "cc_explanation (report c k s e x a u n) = bounded_text e 512"
    and "cc_ambiguity (report c k s e x a u n) = map_option (\<lambda>v. bounded_text v 512) u"
    by (simp_all add: report_def MAX_EXPLANATION_BYTES_def)
  moreover have "pred_option (\<lambda>v. length v \<le> 512) (map_option (\<lambda>v. bounded_text v 512) u)"
    by (cases u) (simp_all add: length_bounded_text)
  moreover have "0 \<le> clamp x 0 1 \<and> clamp x 0 1 \<le> (1::rat)"
    by (rule clamp_bounds) simp
  ultimately show ?thesis
    using assms by (simp add: contained_def class_as_str_names action_as_str_names length_bounded_text)
qed

lemma set_map_filter: "set (List.map_filter f xs) = {y. \<exists>x\<in>set xs. f x = Some y}"
  by (induction xs) (auto simp: List.map_filter_simps split: option.splits)

lemma set_matches:
  "x \<in> set (matches env c memories) \<longleftrightarrow> (\<exists>m\<in>set memories. eligible env c m \<and> match_of env c m = Some x)"
  by (auto simp: matches_def set_map_filter)

lemma match_of_fields:
  assumes "match_of env c m = Some x"
  shows "mt_memory x = m"
    and "mt_similarity x = token_similarity env (normalized_text (cand_title c) (cand_content c))
           (normalized_text (rec_title m) (rec_content m))"
    and "mt_exact x \<longleftrightarrow> normalized_text (cand_title c) (cand_content c)
           = normalized_text (rec_title m) (rec_content m)"
    and "mt_supersession x \<Longrightarrow> mt_contradiction x"
  using assms by (auto simp: match_of_def Let_def split: if_splits)

lemma best_match:
  assumes "matches env c memories = best # rest"
  shows "mt_memory best \<in> set memories" "eligible env c (mt_memory best)"
    "match_of env c (mt_memory best) = Some best"
    "\<And>m x. m \<in> set memories \<Longrightarrow> eligible env c m \<Longrightarrow> match_of env c m = Some x
       \<Longrightarrow> mt_similarity x \<le> mt_similarity best"
proof -
  have "best \<in> set (matches env c memories)" using assms by simp
  then obtain m where m: "m \<in> set memories" "eligible env c m" "match_of env c m = Some best"
    by (auto simp: set_matches)
  moreover have "mt_memory best = m" using m(3) by (rule match_of_fields)
  ultimately show "mt_memory best \<in> set memories" "eligible env c (mt_memory best)"
    "match_of env c (mt_memory best) = Some best" by simp_all
  fix m' x
  assume "m' \<in> set memories" "eligible env c m'" "match_of env c m' = Some x"
  then have "x \<in> set (matches env c memories)" by (auto simp: set_matches)
  moreover have "sorted (map (\<lambda>x. (- mt_similarity x, rec_id (mt_memory x))) (matches env c memories))"
    by (simp add: matches_def)
  ultimately show "mt_similarity x \<le> mt_similarity best"
    using assms by (auto simp: less_eq_prod_def less_le)
qed

lemma classify_contained: "contained env c memories (classify env c memories)"
proof (cases "matches env c memories")
  case Nil
  then show ?thesis
    by (simp add: classify_def Let_def report_contained)
next
  case (Cons best rest)
  have "set [rec_id (mt_memory best)] \<subseteq> rec_id ` {m \<in> set memories. eligible env c m}"
    using best_match(1,2) [OF Cons] by simp
  then show ?thesis
    by (simp add: classify_def Let_def Cons report_contained)
qed

section \<open>Properties\<close>

text \<open>
  C7. A model provider is contained. Whatever the provider answers, the classification names
  this candidate, uses the fixed vocabulary of classes and actions, has a confidence between 0
  and 1 and texts of at most 512 bytes, and refers to at most 32 memories, all of them active
  memories of the candidate's project, labels and axes among those given. It is the provider's
  answer only when that answer is such; otherwise it is the deterministic one, and then, unless
  no provider was asked, its action is to retain for review.
\<close>

theorem provider_output_is_contained:
  "let r = classify_with_optional_provider env prov c memories in
     contained env c memories r
   \<and> ((\<exists>f. prov = Some f \<and> f c memories = Inr r) \<or> prov = None \<and> r = classify env c memories
      \<or> prov \<noteq> None \<and> cc_action r = ''retain-for-review''
        \<and> cc_classification r = cc_classification (classify env c memories)
        \<and> cc_supporting r = cc_supporting (classify env c memories))"
proof -
  let ?d = "classify env c memories"
  have d: "contained env c memories ?d" by (rule classify_contained)
  then have f: "contained env c memories (provider_fallback ?d)"
    by (simp add: contained_def provider_fallback_def action_names_def)
  have v: "contained env c memories r" if "provider_result_is_valid env c memories r" for r
    using that unfolding contained_def provider_result_is_valid_def Let_def in_unit_iff
    by (auto simp: MAX_EXPLANATION_BYTES_def list_all_iff split: option.splits)
  show ?thesis
  proof (cases prov)
    case None
    with d show ?thesis by (simp add: classify_with_optional_provider_def)
  next
    case (Some g)
    then consider r where "g c memories = Inr r" "provider_result_is_valid env c memories r"
        "classify_with_optional_provider env prov c memories = r"
      | "classify_with_optional_provider env prov c memories = provider_fallback ?d"
      by (cases "g c memories"; cases "provider_result_is_valid env c memories (projr (g c memories))")
        (auto simp: classify_with_optional_provider_def)
    then show ?thesis
    proof cases
      case 1
      with Some v show ?thesis by (simp add: Let_def)
    next
      case 2
      with Some f show ?thesis by (simp add: Let_def provider_fallback_def)
    qed
  qed
qed


definition match_class :: "class_env \<Rightarrow> candidate \<Rightarrow> match \<Rightarrow> class_kind" where
  "match_class env c x = (if mt_exact x then ExactDuplicate
     else if mt_supersession x then Supersession
     else if mt_contradiction x then Contradiction
     else if SEMANTIC_DUPLICATE_THRESHOLD env \<le> mt_similarity x then SemanticDuplicate
     else if cand_retention_tier c = ''working'' then TemporaryWorking else Reinforcement)"

lemma classify_best:
  assumes "cand_status c = ''pending''" "\<not> below_floor env c" "matches env c memories = best # rest"
  shows "cc_supporting (classify env c memories) = [rec_id (mt_memory best)]"
    and "cc_classification (classify env c memories) = class_as_str (match_class env c best)"
  using assms by (simp_all add: classify_def Let_def match_class_def)

text \<open>
  The decision is that of the closest match. For a pending candidate above the floor, when
  no eligible memory matches the class is new or temporary working with no support. Otherwise
  the one supporting memory is an eligible match of the greatest similarity, and the class is
  exact duplicate if its normalised text equals the candidate's, else supersession or
  contradiction if it conflicts, with or without a change marker, else semantic duplicate from
  the threshold up, else temporary working or reinforcement by the candidate's tier.
\<close>

theorem classify_follows_closest_match:
  assumes "cand_status c = ''pending''" "\<not> below_floor env c"
  shows "(let r = classify env c memories; found = {x. \<exists>m\<in>set memories. eligible env c m \<and> match_of env c m = Some x}
     in if found = {}
        then cc_supporting r = [] \<and> cc_classification r =
          (if cand_retention_tier c = ''working'' then ''temporary-working'' else ''new'')
        else \<exists>x\<in>found. cc_supporting r = [rec_id (mt_memory x)]
          \<and> Max (mt_similarity ` found) = mt_similarity x
          \<and> cc_classification r = class_as_str (match_class env c x))"
proof -
  let ?found = "{x. \<exists>m\<in>set memories. eligible env c m \<and> match_of env c m = Some x}"
  have found: "?found = set (matches env c memories)" by (auto simp: set_matches)
  show ?thesis
  proof (cases "matches env c memories")
    case Nil
    with assms show ?thesis unfolding found by (simp add: classify_def Let_def)
  next
    case (Cons best rest)
    have "Max (mt_similarity ` ?found) = mt_similarity best"
    proof (rule Max_eqI)
      show "finite (mt_similarity ` ?found)" unfolding found by simp
      show "mt_similarity best \<in> mt_similarity ` ?found" unfolding found Cons by simp
      fix y
      assume "y \<in> mt_similarity ` ?found"
      with best_match(4) [OF Cons] show "y \<le> mt_similarity best" by auto
    qed
    then show ?thesis
      using classify_best [OF assms Cons] unfolding found Cons Let_def by auto
  qed
qed

definition ex_class_env :: class_env where
  "ex_class_env = \<lparr>cl_now = 0, cl_parse = (\<lambda>_. Some 0), cl_round32 = (\<lambda>x. x), cl_round64 = (\<lambda>x. x)\<rparr>"

definition ex_candidate :: "string \<Rightarrow> string \<Rightarrow> candidate" where
  "ex_candidate title content = \<lparr>cand_id = ''c'', cand_observation_kind = ''user-authored'',
     cand_content_type = ''semantic'', cand_retention_tier = ''durable'', cand_scope = ''workspace'',
     cand_created_by = ''o'', cand_project = ''p'', cand_title = title, cand_content = content,
     cand_source = ''s'', cand_source_id = ''i'', cand_dedupe_key = None, cand_confidence = Fin 1,
     cand_importance = Fin 1, cand_sensitivity = ''normal'', cand_status = ''pending'',
     cand_acl = [''p''], cand_provenance = JObject [], cand_expires_at = ''e'',
     cand_rejection_reason = None, cand_created_at = ''t'', cand_updated_at = ''t''\<rparr>"

definition ex_memory :: "string \<Rightarrow> string \<Rightarrow> string \<Rightarrow> memory_record" where
  "ex_memory i title content = \<lparr>rec_id = i, rec_kind = ''semantic'', rec_content_type = ''semantic'',
     rec_retention_tier = ''durable'', rec_scope = ''workspace'', rec_project = ''p'', rec_title = title,
     rec_content = content, rec_source = ''s'', rec_source_id = ''i'', rec_dedupe_key = None,
     rec_confidence = Fin 1, rec_importance = Fin 1, rec_status = ''active'', rec_acl = [''p''],
     rec_provenance = JObject [], rec_observed_at = ''t'', rec_valid_from = ''t'',
     rec_valid_until = None, rec_supersedes_id = None, rec_created_at = ''t'', rec_updated_at = ''t''\<rparr>"

lemma ex_eligible: "eligible ex_class_env (ex_candidate t c) (ex_memory i t' c')"
  by (simp add: eligible_def memory_is_active_def memory_is_stale_def ex_class_env_def
      ex_candidate_def ex_memory_def)

lemma ex_not_below: "3 \<le> length (trim c) \<Longrightarrow> \<not> below_floor ex_class_env (ex_candidate t c)"
  by (simp add: below_floor_def ex_class_env_def ex_candidate_def)

theorem classify_follows_closest_match_witness:
  "cc_supporting (classify ex_class_env (ex_candidate ''t'' ''abc'') []) = []"
proof -
  have "cand_status (ex_candidate ''t'' ''abc'') = ''pending''" by (simp add: ex_candidate_def)
  moreover have "\<not> below_floor ex_class_env (ex_candidate ''t'' ''abc'')"
    by (rule ex_not_below) (simp add: text_eval)
  ultimately show ?thesis
    using classify_follows_closest_match [of "ex_candidate ''t'' ''abc''" ex_class_env "[]"] by (simp add: Let_def)
qed

text \<open>
  Text without Latin letters or digits carries no information. Normalisation strips every
  character that is not an ASCII letter or digit from the ends of a word, which leaves nothing
  of a word written in another script: such a candidate is an exact duplicate of any eligible
  memory in such a script, whatever the two say, and merging is proposed.
\<close>

definition latin_free :: "string \<Rightarrow> string \<Rightarrow> bool" where
  "latin_free title content \<longleftrightarrow> list_all (\<lambda>g. \<not> alnum_char g)
     (utf8_chars (to_ascii_lowercase (title @ '' '' @ content)))"

lemma latin_free_normalized:
  assumes "latin_free title content"
  shows "normalized_text title content = []"
proof -
  let ?gs = "utf8_chars (to_ascii_lowercase (title @ '' '' @ content))"
  have "trim_word w = []" if "w \<in> set (split_ws ?gs)" for w
  proof -
    have "dropWhile (\<lambda>g. \<not> alnum_char g) w = []"
      using split_ws_no_ws [OF that] assms by (auto simp: latin_free_def list_all_iff)
    then show ?thesis by (simp only: trim_word_def rev.simps dropWhile.simps concat.simps)
  qed
  then have "filter (\<lambda>w. w \<noteq> []) (map trim_word (split_ws ?gs)) = []"
    by (simp add: filter_empty_conv)
  then show ?thesis by (simp only: normalized_text_def join.simps)
qed

theorem other_scripts_are_exact_duplicates:
  assumes "cand_status c = ''pending''" "\<not> below_floor env c"
    and "latin_free (cand_title c) (cand_content c)" "latin_free (rec_title m) (rec_content m)"
    and "eligible env c m"
  shows "cc_classification (classify env c [m]) = ''exact-duplicate''
    \<and> cc_action (classify env c [m]) = ''merge-with-existing''
    \<and> cc_supporting (classify env c [m]) = [rec_id m]"
proof -
  obtain x where x: "match_of env c m = Some x" "mt_exact x" "mt_memory x = m"
    using latin_free_normalized [OF assms(3)] latin_free_normalized [OF assms(4)]
    by (simp add: match_of_def Let_def)
  then have "matches env c [m] = [x]"
    using assms(5) by (simp add: matches_def List.map_filter_simps)
  with x assms(1,2) show ?thesis by (simp add: classify_def Let_def)
qed

text \<open>Three characters of another script, and one.\<close>

definition ex_text :: string where
  "ex_text = map char_of [230::nat, 151, 165, 230, 156, 172, 232, 170, 158]"

definition ex_text' :: string where
  "ex_text' = map char_of [231::nat, 140, 171]"

theorem other_scripts_are_exact_duplicates_witness:
  "ex_text \<noteq> ex_text' \<and> cc_classification (classify ex_class_env (ex_candidate ex_text ex_text)
     [ex_memory ''m'' ex_text' ex_text']) = ''exact-duplicate''"
proof -
  have free: "latin_free ex_text ex_text" "latin_free ex_text' ex_text'"
    by (simp_all add: latin_free_def ex_text_def ex_text'_def alnum_char_def is_ascii_alnum_def
        text_eval char_eval)
  have "length (trim ex_text) = 9"
    by (simp add: ex_text_def text_eval char_eval)
  then have "\<not> below_floor ex_class_env (ex_candidate ex_text ex_text)"
    by (intro ex_not_below) simp
  moreover have "ex_text \<noteq> ex_text'"
    by (simp add: ex_text_def ex_text'_def)
  ultimately show ?thesis
    using other_scripts_are_exact_duplicates [of "ex_candidate ex_text ex_text" ex_class_env
        "ex_memory ''m'' ex_text' ex_text'"] free ex_eligible
    by (simp add: ex_candidate_def ex_memory_def)
qed

text \<open>
  A limit that does not parse makes the two modules disagree: classification still compares
  against the memory, while the memory module takes it as no longer active.
\<close>

lemma malformed_expiry_splits:
  assumes "rec_status m = ''active''" "rec_valid_until m = Some v" "cl_parse env v = None"
    "cl_parse env (rec_valid_from m) = Some t" "t \<le> cl_now env" "env_parse tenv = cl_parse env"
  shows "memory_is_active env m \<and> \<not> valid_until_is_active tenv (rec_valid_until m) now"
  using assms by (simp add: memory_is_active_def memory_is_stale_def valid_until_is_active_def)

end
