(* ===== verification/Consolidation.thy ===== *)
theory Consolidation
  imports Classification "HOL-Library.Multiset"
begin

text \<open>
  Consolidation, \<open>crates/core/src/consolidation.rs\<close>: the policy that decides which candidates
  become memories, and the bounded priority queue of candidates. The clock, chrono's parser and
  renderer, the rounding of single-precision results and the digest of a policy are parameters.
\<close>

definition CONSOLIDATION_POLICY_VERSION :: string where
  "CONSOLIDATION_POLICY_VERSION = ''cortana.memory.consolidation.v1''"
definition DEFAULT_MAX_QUEUE :: nat where "DEFAULT_MAX_QUEUE = 1000"
definition DEFAULT_MAX_RETRIES :: nat where "DEFAULT_MAX_RETRIES = 3"
definition DEFAULT_MAX_WORKING_DAYS :: int where "DEFAULT_MAX_WORKING_DAYS = 7"
definition DEFAULT_MAX_DURABLE_DAYS :: int where "DEFAULT_MAX_DURABLE_DAYS = 365"
definition DEFAULT_CANDIDATE_EXPIRY_DAYS :: int where "DEFAULT_CANDIDATE_EXPIRY_DAYS = 7"
definition DEFAULT_MEMORY_MAX_ACTIVE :: nat where "DEFAULT_MEMORY_MAX_ACTIVE = 100000"

lemmas consolidation_limits = DEFAULT_MAX_QUEUE_def DEFAULT_MAX_RETRIES_def
  DEFAULT_MAX_WORKING_DAYS_def DEFAULT_MAX_DURABLE_DAYS_def DEFAULT_CANDIDATE_EXPIRY_DAYS_def
  DEFAULT_MEMORY_MAX_ACTIVE_def

section \<open>Policy\<close>

record retention_ceilings =
  max_working_days :: int
  max_durable_days :: int
  max_active :: nat

record consolidation_preferences =
  allow_auto_retain :: bool
  allow_working_retention :: bool

record consolidation_policy =
  policy_version :: string
  policy_enabled :: bool
  release_authorized :: bool
  min_confidence :: float_val
  min_importance :: float_val
  max_queue :: nat
  max_retries :: nat
  retry_backoff_seconds :: nat
  candidate_expiry_days :: int
  preferences :: consolidation_preferences
  ceilings :: retention_ceilings

record cons_env =
  ce_now :: int
  ce_parse :: "string \<Rightarrow> int option"
  ce_render :: "int \<Rightarrow> string"
  ce_round32 :: "rat \<Rightarrow> float_val"
  ce_digest :: "consolidation_policy \<Rightarrow> string"

definition default_policy :: "cons_env \<Rightarrow> consolidation_policy" where
  "default_policy env = \<lparr>policy_version = CONSOLIDATION_POLICY_VERSION, policy_enabled = False,
     release_authorized = False, min_confidence = ce_round32 env (9 / 10),
     min_importance = ce_round32 env (65 / 100), max_queue = DEFAULT_MAX_QUEUE,
     max_retries = DEFAULT_MAX_RETRIES, retry_backoff_seconds = 30,
     candidate_expiry_days = DEFAULT_CANDIDATE_EXPIRY_DAYS,
     preferences = \<lparr>allow_auto_retain = True, allow_working_retention = True\<rparr>,
     ceilings = \<lparr>max_working_days = DEFAULT_MAX_WORKING_DAYS,
       max_durable_days = DEFAULT_MAX_DURABLE_DAYS, max_active = DEFAULT_MEMORY_MAX_ACTIVE\<rparr>\<rparr>"

datatype policy_error = UnsupportedVersion | ConfidenceThreshold | ImportanceThreshold
  | QueueBound | RetryBound | WorkingCeiling | DurableCeiling | ActiveCapacity | CandidateExpiry

definition validate_policy :: "consolidation_policy \<Rightarrow> (policy_error, unit) result" where
  "validate_policy p =
     bindE (ensure (policy_version p = CONSOLIDATION_POLICY_VERSION) UnsupportedVersion) (\<lambda>_.
     bindE (ensure (in_unit (min_confidence p)) ConfidenceThreshold) (\<lambda>_.
     bindE (ensure (in_unit (min_importance p)) ImportanceThreshold) (\<lambda>_.
     bindE (ensure (1 \<le> max_queue p \<and> max_queue p \<le> DEFAULT_MAX_QUEUE) QueueBound) (\<lambda>_.
     bindE (ensure (max_retries p \<le> 10) RetryBound) (\<lambda>_.
     bindE (ensure (0 < max_working_days (ceilings p)
       \<and> max_working_days (ceilings p) \<le> DEFAULT_MAX_WORKING_DAYS) WorkingCeiling) (\<lambda>_.
     bindE (ensure (0 < max_durable_days (ceilings p) \<and> max_durable_days (ceilings p) \<le> 3650) DurableCeiling) (\<lambda>_.
     bindE (ensure (0 < max_active (ceilings p) \<and> max_active (ceilings p) \<le> 1000000) ActiveCapacity) (\<lambda>_.
     ensure (1 \<le> candidate_expiry_days p \<and> candidate_expiry_days p \<le> DEFAULT_CANDIDATE_EXPIRY_DAYS)
       CandidateExpiry))))))))"

definition policy_identity :: "cons_env \<Rightarrow> consolidation_policy \<Rightarrow> (policy_error, string) result" where
  "policy_identity env p = bindE (validate_policy p) (\<lambda>_.
     Inr (policy_version p @ '':'' @ take 16 (ce_digest env p)))"

section \<open>The decision\<close>

datatype decision = AutoRetain | Approve | Review | Reject | WorkingRetention

fun decision_as_str :: "decision \<Rightarrow> string" where
  "decision_as_str AutoRetain = ''auto-retain''"
| "decision_as_str Approve = ''approve''"
| "decision_as_str Review = ''review''"
| "decision_as_str Reject = ''reject''"
| "decision_as_str WorkingRetention = ''working''"

record policy_context =
  explicit_approval :: bool
  explicit_supersession :: bool
  same_scope :: bool
  reviewer :: "string option"

record decision_report =
  dr_candidate_id :: string
  dr_policy_version :: string
  dr_decision :: decision
  dr_classification :: string
  dr_reason_code :: string
  dr_explanation :: string
  dr_queue_priority :: nat
  dr_expires_at :: "string option"

text \<open>\<open>importance.mul_add(4.0, confidence * 4.0).round() as u8\<close>, then clamped: one rounding for
  the product and one for the fused sum; \<open>round\<close> goes half away from zero, and the conversion
  saturates, with 0 for NaN.\<close>

fun float_times4 :: "(rat \<Rightarrow> float_val) \<Rightarrow> float_val \<Rightarrow> float_val" where
  "float_times4 rnd (Fin a) = rnd (4 * a)"
| "float_times4 rnd x = x"

fun float_fused :: "(rat \<Rightarrow> float_val) \<Rightarrow> float_val \<Rightarrow> float_val \<Rightarrow> float_val" where
  "float_fused rnd NaN _ = NaN"
| "float_fused rnd _ NaN = NaN"
| "float_fused rnd PosInf NegInf = NaN"
| "float_fused rnd NegInf PosInf = NaN"
| "float_fused rnd PosInf _ = PosInf"
| "float_fused rnd NegInf _ = NegInf"
| "float_fused rnd (Fin a) PosInf = PosInf"
| "float_fused rnd (Fin a) NegInf = NegInf"
| "float_fused rnd (Fin a) (Fin b) = rnd (4 * a + b)"

definition round_away :: "rat \<Rightarrow> int" where
  "round_away r = (if 0 \<le> r then \<lfloor>r + 1 / 2\<rfloor> else - \<lfloor>1 / 2 - r\<rfloor>)"

fun round_as_u8 :: "float_val \<Rightarrow> nat" where
  "round_as_u8 (Fin r) = nat (min 255 (max 0 (round_away r)))"
| "round_as_u8 PosInf = 255"
| "round_as_u8 NegInf = 0"
| "round_as_u8 NaN = 0"

definition initial_priority :: "cons_env \<Rightarrow> candidate \<Rightarrow> nat" where
  "initial_priority env c = clamp (round_as_u8 (float_fused (ce_round32 env) (cand_importance c)
     (float_times4 (ce_round32 env) (cand_confidence c)))) 1 8"

definition retainable :: "string \<Rightarrow> bool" where
  "retainable cls \<longleftrightarrow> cls \<in> set [''new'', ''reinforcement'', ''semantic-duplicate'', ''exact-duplicate'']"

definition decide :: "cons_env \<Rightarrow> candidate \<Rightarrow> classification \<Rightarrow> consolidation_policy \<Rightarrow> policy_context
    \<Rightarrow> decision \<times> string \<times> string \<times> nat" where
  "decide env c cls p ctx =
     (let now = ce_now env; expires = ce_parse env (cand_expires_at c);
          created = ce_parse env (cand_created_at c); prio = initial_priority env c;
          kind = cc_classification cls
      in
      if \<not> policy_enabled p then
        (Review, ''disabled'',
         ''consolidation is disabled; explicit memory writes and retrieval remain available'', prio)
      else if cand_status c \<noteq> ''pending'' then
        (Reject, ''candidate-not-pending'', ''only pending candidates can be consolidated'', prio)
      else if (case expires of None \<Rightarrow> False | Some t \<Rightarrow> t \<le> now) then
        (Reject, ''candidate-expired'', ''candidate expiry has elapsed'', prio)
      else if (case created of None \<Rightarrow> False | Some t \<Rightarrow> t + days (candidate_expiry_days p) \<le> now) then
        (Reject, ''candidate-review-window-expired'',
         ''candidate exceeded the configured review window'', prio)
      else if cand_sensitivity c \<noteq> sensitivity_as_str Normal then
        (Review, ''sensitive'',
         ''sensitive candidates require explicit user approval and cannot auto-commit'', 8)
      else if \<not> same_scope ctx then
        (Review, ''cross-scope'', ''cross-scope candidates require an owner-approved review'', 8)
      else if kind = ''supersession'' \<and> explicit_supersession ctx then
        (Approve, ''explicit-supersession'',
         ''an authorized reviewer explicitly approved replacement of the matched canonical memory'', 8)
      else if kind \<in> set [''contradiction'', ''supersession''] then
        (Review, ''conflict'', ''contradictory or superseding candidates never auto-commit'', 8)
      else if kind = class_as_str Discard then
        (Reject, ''classification-discard'',
         ''classification marked the candidate as unsafe or below the retention floor'', prio)
      else if float_lt (cand_confidence c) (min_confidence p) then
        (if explicit_approval ctx then Approve else Review, ''low-confidence'',
         ''confidence is below the automatic retention threshold'', prio)
      else if cand_retention_tier c = ''working'' \<and> \<not> allow_working_retention (preferences p) then
        (Review, ''preference-working-disabled'',
         ''user preferences require review before retaining working memory'', prio)
      else if cand_retention_tier c = ''working'' \<and> \<not> explicit_approval ctx \<and> \<not> release_authorized p then
        (Review, ''automatic-retention-release-gate'',
         ''automatic working retention remains disabled until approved private evidence and a reviewed runtime release gate exist'', prio)
      else if cand_retention_tier c = ''working'' then
        (WorkingRetention, ''working-retention'',
         ''working memory remains temporary and bounded even when approved'', prio)
      else if retainable kind \<and> float_le (min_importance p) (cand_importance c)
          \<and> allow_auto_retain (preferences p) \<and> \<not> explicit_approval ctx \<and> \<not> release_authorized p then
        (Review, ''automatic-retention-release-gate'',
         ''automatic retention remains disabled until approved private evidence and a reviewed runtime release gate exist'', prio)
      else if retainable kind \<and> float_le (min_importance p) (cand_importance c)
          \<and> allow_auto_retain (preferences p) \<and> release_authorized p then
        (AutoRetain, ''thresholds-met'',
         ''candidate is non-sensitive, in-scope, non-conflicting, and meets automatic retention thresholds'', prio)
      else if explicit_approval ctx then
        (Approve, ''explicit-approval'',
         ''an authorized reviewer explicitly approved canonical retention'', prio)
      else
        (Review, ''review-required'',
         ''candidate requires explicit review before canonical retention'', prio))"

definition evaluate :: "cons_env \<Rightarrow> candidate \<Rightarrow> classification \<Rightarrow> consolidation_policy \<Rightarrow> policy_context
    \<Rightarrow> (policy_error, decision_report) result" where
  "evaluate env c cls p ctx = bindE (validate_policy p) (\<lambda>_.
     case decide env c cls p ctx of (decision, reason_code, explanation, priority) \<Rightarrow>
     let expiry = (case decision of
           WorkingRetention \<Rightarrow> Some (ce_render env (ce_now env + days (max_working_days (ceilings p))))
         | AutoRetain \<Rightarrow> Some (ce_render env (ce_now env + days (max_durable_days (ceilings p))))
         | Approve \<Rightarrow> Some (ce_render env (ce_now env + days (max_durable_days (ceilings p))))
         | _ \<Rightarrow> map_option (ce_render env) (ce_parse env (cand_expires_at c)))
     in bindE (policy_identity env p) (\<lambda>identity.
     Inr \<lparr>dr_candidate_id = cand_id c, dr_policy_version = identity, dr_decision = decision,
          dr_classification = cc_classification cls, dr_reason_code = reason_code,
          dr_explanation = explanation, dr_queue_priority = priority, dr_expires_at = expiry\<rparr>))"

section \<open>The queue\<close>

datatype queue_status = Queued | Running | Retry | DeadLetter | Paused | Cancelled | Complete

record queue_item =
  qi_candidate :: string
  qi_policy :: string
  qi_priority :: nat
  qi_attempts :: nat
  qi_status :: queue_status

record consolidation_queue =
  q_max_items :: nat
  q_max_retries :: nat
  q_paused :: bool
  q_items :: "queue_item list"
  q_seen :: "string \<Rightarrow> queue_status option"

datatype queue_error = QueueIsPaused | QueueIsFull

definition queue_new :: "consolidation_policy \<Rightarrow> (policy_error, consolidation_queue) result" where
  "queue_new p = bindE (validate_policy p) (\<lambda>_.
     Inr \<lparr>q_max_items = max_queue p, q_max_retries = max_retries p, q_paused = False,
          q_items = [], q_seen = Map.empty\<rparr>)"

definition item_key :: "queue_item \<Rightarrow> string" where
  "item_key i = qi_policy i @ '':'' @ qi_candidate i"

text \<open>Higher priorities first, then the candidate's identifier; the sort is stable.\<close>

definition item_order :: "queue_item \<Rightarrow> int \<times> string" where
  "item_order i = (- int (qi_priority i), qi_candidate i)"

definition queue_len :: "consolidation_queue \<Rightarrow> nat" where
  "queue_len q = length (filter (\<lambda>i. qi_status i \<noteq> Cancelled) (q_items q))"

definition queue_is_empty :: "consolidation_queue \<Rightarrow> bool" where
  "queue_is_empty q = list_all (\<lambda>i. qi_status i \<in> {Cancelled, DeadLetter}) (q_items q)"

definition enqueue :: "string \<Rightarrow> string \<Rightarrow> nat \<Rightarrow> consolidation_queue
    \<Rightarrow> consolidation_queue \<times> (queue_error, unit) result" where
  "enqueue cid pv priority q =
     (if q_paused q then (q, Inl QueueIsPaused)
      else let key = pv @ '':'' @ cid in
      if (case q_seen q key of None \<Rightarrow> False
          | Some status \<Rightarrow> status \<in> {Queued, Running, DeadLetter, Cancelled, Complete})
      then (q, Inr ())
      else if \<not> queue_len q < q_max_items q then (q, Inl QueueIsFull)
      else let item = \<lparr>qi_candidate = cid, qi_policy = pv, qi_priority = clamp priority 1 8,
                       qi_attempts = 0, qi_status = Queued\<rparr>
           in (q\<lparr>q_seen := (q_seen q)(key \<mapsto> Queued),
                 q_items := sort_key item_order (q_items q @ [item])\<rparr>, Inr ()))"

text \<open>The loops of \<open>pause\<close> and \<open>resume\<close> rewrite matching items in place and note each in \<open>seen\<close>.\<close>

definition set_status :: "queue_status set \<Rightarrow> queue_status \<Rightarrow> consolidation_queue \<Rightarrow> consolidation_queue" where
  "set_status old new q = q\<lparr>
     q_items := map (\<lambda>i. if qi_status i \<in> old then i\<lparr>qi_status := new\<rparr> else i) (q_items q),
     q_seen := fold (\<lambda>i m. m(item_key i \<mapsto> new)) (filter (\<lambda>i. qi_status i \<in> old) (q_items q)) (q_seen q)\<rparr>"

definition pause :: "consolidation_queue \<Rightarrow> consolidation_queue" where
  "pause q = set_status {Queued, Retry} Paused (q\<lparr>q_paused := True\<rparr>)"

definition resume :: "consolidation_queue \<Rightarrow> consolidation_queue" where
  "resume q = (set_status {Paused} Queued q)\<lparr>q_paused := False\<rparr>"

definition cancellable :: "string \<Rightarrow> queue_item \<Rightarrow> bool" where
  "cancellable cid i \<longleftrightarrow> qi_candidate i = cid \<and> qi_status i \<in> {Queued, Retry, Paused}"

definition cancel :: "string \<Rightarrow> consolidation_queue \<Rightarrow> consolidation_queue \<times> bool" where
  "cancel cid q = (case find (cancellable cid) (q_items q) of
     None \<Rightarrow> (q, False)
   | Some i \<Rightarrow> (q\<lparr>q_items := update_first (cancellable cid) (\<lambda>i. i\<lparr>qi_status := Cancelled\<rparr>) (q_items q),
                   q_seen := (q_seen q)(qi_policy i @ '':'' @ cid \<mapsto> Cancelled)\<rparr>, True))"

definition saturating_succ :: "nat \<Rightarrow> nat" where
  "saturating_succ n = min (n + 1) (2 ^ 32 - 1)"

fun pop_items :: "queue_item list \<Rightarrow> queue_item list \<times> queue_item option" where
  "pop_items [] = ([], None)"
| "pop_items (i # rest) = (if qi_status i = Cancelled then pop_items rest
     else (rest, Some (i\<lparr>qi_status := Running, qi_attempts := saturating_succ (qi_attempts i)\<rparr>)))"

definition pop :: "consolidation_queue \<Rightarrow> consolidation_queue \<times> queue_item option" where
  "pop q = (if q_paused q then (q, None)
     else (case pop_items (q_items q) of (rest, res) \<Rightarrow> (q\<lparr>q_items := rest\<rparr>, res)))"

definition retry :: "queue_item \<Rightarrow> consolidation_queue \<Rightarrow> consolidation_queue" where
  "retry item q =
     (let item = item\<lparr>qi_status := if q_max_retries q < qi_attempts item then DeadLetter else Retry\<rparr>;
          q = q\<lparr>q_seen := (q_seen q)(item_key item \<mapsto> qi_status item)\<rparr>
      in if qi_status item = Retry
         then q\<lparr>q_items := sort_key item_order (q_items q @ [item])\<rparr> else q)"


section \<open>The queue as a transition system\<close>

text \<open>A queue with the items its workers hold: popped and neither retried nor completed.\<close>

type_synonym queue_state = "consolidation_queue \<times> queue_item list"

inductive queue_step :: "queue_state \<Rightarrow> queue_state \<Rightarrow> bool" where
  step_enqueue: "queue_step (q, held) (fst (enqueue cid pv priority q), held)"
| step_pause: "queue_step (q, held) (pause q, held)"
| step_resume: "queue_step (q, held) (resume q, held)"
| step_cancel: "queue_step (q, held) (fst (cancel cid q), held)"
| step_pop: "pop q = (q', Some i) \<Longrightarrow> queue_step (q, held) (q', i # held)"
| step_pop_none: "pop q = (q', None) \<Longrightarrow> queue_step (q, held) (q', held)"
| step_retry: "i \<in> set held \<Longrightarrow> queue_step (q, held) (retry i q, remove1 i held)"
| step_complete: "queue_step (q, held) (q, remove1 i held)"

inductive queue_init :: "consolidation_policy \<Rightarrow> queue_state \<Rightarrow> bool" for p where
  init_new: "queue_new p = Inr q \<Longrightarrow> queue_init p (q, [])"

abbreviation queue_reachable :: "consolidation_policy \<Rightarrow> queue_state \<Rightarrow> bool" where
  "queue_reachable p \<equiv> reachable (queue_init p) queue_step"

definition item_ok :: "nat \<Rightarrow> queue_item \<Rightarrow> bool" where
  "item_ok retries i \<longleftrightarrow> 1 \<le> qi_priority i \<and> qi_priority i \<le> 8 \<and> qi_attempts i \<le> retries
     \<and> qi_status i \<in> {Queued, Retry, Paused, Cancelled}"

definition held_ok :: "nat \<Rightarrow> queue_item \<Rightarrow> bool" where
  "held_ok retries i \<longleftrightarrow> 1 \<le> qi_priority i \<and> qi_priority i \<le> 8
     \<and> 1 \<le> qi_attempts i \<and> qi_attempts i \<le> retries + 1 \<and> qi_status i = Running"

definition queue_inv :: "consolidation_policy \<Rightarrow> queue_state \<Rightarrow> bool" where
  "queue_inv p s \<longleftrightarrow> (case s of (q, held) \<Rightarrow>
     q_max_items q = max_queue p \<and> q_max_retries q = max_retries p \<and> max_retries p \<le> 10
   \<and> sorted (map item_order (q_items q))
   \<and> (\<forall>i\<in>set (q_items q). item_ok (max_retries p) i)
   \<and> (\<forall>i\<in>set held. held_ok (max_retries p) i)
   \<and> (q_paused q \<longrightarrow> (\<forall>i\<in>set (q_items q). qi_status i \<noteq> Queued))
   \<and> (\<not> q_paused q \<longrightarrow> (\<forall>i\<in>set (q_items q). qi_status i \<noteq> Paused)))"

lemma validate_policy_bounds:
  "validate_policy p = Inr u \<Longrightarrow> 1 \<le> max_queue p \<and> max_queue p \<le> 1000 \<and> max_retries p \<le> 10
     \<and> 0 < max_working_days (ceilings p) \<and> max_working_days (ceilings p) \<le> 7
     \<and> 0 < max_durable_days (ceilings p) \<and> max_durable_days (ceilings p) \<le> 3650
     \<and> (\<exists>r. min_confidence p = Fin r \<and> 0 \<le> r \<and> r \<le> 1)"
  by (auto simp: validate_policy_def bindE_Inr_iff ensure_Inr_iff consolidation_limits in_unit_iff)

lemma queue_inv_new: "queue_new p = Inr q \<Longrightarrow> queue_inv p (q, [])"
  by (auto simp: queue_new_def queue_inv_def bindE_Inr_iff dest: validate_policy_bounds)

lemma item_order_status [simp]: "item_order (i\<lparr>qi_status := s\<rparr>) = item_order i"
  by (simp add: item_order_def)

lemma item_order_comp_status [simp]:
  "item_order \<circ> (\<lambda>i. if P i then i\<lparr>qi_status := s\<rparr> else i) = item_order"
  by (rule ext) simp

lemma map_item_order_cancel [simp]:
  "map item_order (update_first P (\<lambda>i. i\<lparr>qi_status := s\<rparr>) xs) = map item_order xs"
  by (rule map_update_first_id) simp

lemma pop_items_Some:
  "pop_items xs = (rest, Some i) \<Longrightarrow> \<exists>pre j. xs = pre @ j # rest \<and> (\<forall>x\<in>set pre. qi_status x = Cancelled)
     \<and> qi_status j \<noteq> Cancelled \<and> i = j\<lparr>qi_status := Running, qi_attempts := saturating_succ (qi_attempts j)\<rparr>"
proof (induction xs)
  case (Cons a xs)
  show ?case
  proof (cases "qi_status a = Cancelled")
    case True
    with Cons obtain pre j where "xs = pre @ j # rest \<and> (\<forall>x\<in>set pre. qi_status x = Cancelled)
       \<and> qi_status j \<noteq> Cancelled \<and> i = j\<lparr>qi_status := Running, qi_attempts := saturating_succ (qi_attempts j)\<rparr>"
      by auto
    with True show ?thesis by (intro exI [of _ "a # pre"]) auto
  next
    case False
    with Cons.prems show ?thesis by (intro exI [of _ "[]"]) auto
  qed
qed simp

lemma pop_items_None: "pop_items xs = (rest, None) \<Longrightarrow> rest = [] \<and> (\<forall>x\<in>set xs. qi_status x = Cancelled)"
  by (induction xs) (auto split: if_splits)

lemma queue_inv_step:
  assumes "queue_step s s'" "queue_inv p s"
  shows "queue_inv p s'"
  using assms
proof (cases rule: queue_step.cases)
  case (step_enqueue q held cid pv priority)
  have "1 \<le> clamp priority 1 8 \<and> clamp priority 1 8 \<le> (8::nat)" by (rule clamp_bounds) simp
  with assms(2) step_enqueue show ?thesis
    by (auto simp: queue_inv_def enqueue_def Let_def item_ok_def split: option.splits if_splits)
next
  case (step_pause q held)
  with assms(2) show ?thesis
    by (auto simp: queue_inv_def pause_def set_status_def item_ok_def)
next
  case (step_resume q held)
  with assms(2) show ?thesis
    by (auto simp: queue_inv_def resume_def set_status_def item_ok_def)
next
  case (step_cancel q held cid)
  with assms(2) show ?thesis
    by (auto simp: queue_inv_def cancel_def item_ok_def split: option.splits dest!: set_update_firstD)
next
  case (step_pop q q' i held)
  from step_pop(3) obtain rest where "\<not> q_paused q" "pop_items (q_items q) = (rest, Some i)"
    "q' = q\<lparr>q_items := rest\<rparr>"
    by (auto simp: pop_def split: if_splits prod.splits)
  with pop_items_Some [of "q_items q" rest i] assms(2) step_pop(1,2) show ?thesis
    by (auto simp: queue_inv_def item_ok_def held_ok_def sorted_append saturating_succ_def)
next
  case (step_pop_none q q' held)
  from step_pop_none(3) consider "q' = q" | "q' = q\<lparr>q_items := []\<rparr>"
    by (auto simp: pop_def split: if_splits prod.splits dest: pop_items_None)
  then show ?thesis
    using assms(2) step_pop_none(1,2) by cases (auto simp: queue_inv_def)
next
  case (step_retry i held q)
  with assms(2) have "held_ok (max_retries p) i" "q_max_retries q = max_retries p"
    by (auto simp: queue_inv_def)
  with assms(2) step_retry show ?thesis
    by (auto simp: queue_inv_def retry_def Let_def item_ok_def held_ok_def dest: notin_set_remove1)
next
  case (step_complete q held i)
  with assms(2) show ?thesis
    by (auto simp: queue_inv_def dest: notin_set_remove1)
qed

interpretation cq: step_invariant "queue_init p" queue_step "queue_inv p" for p
  by unfold_locales (auto elim: queue_init.cases intro: queue_inv_new queue_inv_step)


section \<open>Properties\<close>

text \<open>The decisions that write a memory.\<close>

definition commits :: "decision \<Rightarrow> bool" where
  "commits d \<longleftrightarrow> d = AutoRetain \<or> d = Approve \<or> d = WorkingRetention"

lemma decide_commits:
  assumes "decide env c cls p ctx = (d, rc, ex, pr)" "commits d"
  shows "policy_enabled p \<and> cand_status c = ''pending'' \<and> cand_sensitivity c = ''normal'' \<and> same_scope ctx
    \<and> pred_option (\<lambda>t. ce_now env < t) (ce_parse env (cand_expires_at c))
    \<and> pred_option (\<lambda>t. ce_now env < t + days (candidate_expiry_days p)) (ce_parse env (cand_created_at c))
    \<and> cc_classification cls \<noteq> ''discard'' \<and> cc_classification cls \<noteq> ''contradiction''
    \<and> (cc_classification cls = ''supersession'' \<longrightarrow> d = Approve \<and> explicit_supersession ctx)
    \<and> (release_authorized p \<or> explicit_approval ctx \<or> explicit_supersession ctx)"
  using assms unfolding decide_def Let_def commits_def
  by (simp split: if_split_asm option.splits) auto

lemma decide_auto:
  assumes "decide env c cls p ctx = (AutoRetain, rc, ex, pr)"
  shows "release_authorized p \<and> allow_auto_retain (preferences p) \<and> retainable (cc_classification cls)
    \<and> \<not> float_lt (cand_confidence c) (min_confidence p)
    \<and> float_le (min_importance p) (cand_importance c) \<and> cand_retention_tier c \<noteq> ''working''"
  using assms unfolding decide_def Let_def by (simp split: if_split_asm option.splits)

lemma decide_priority:
  assumes "decide env c cls p ctx = (d, rc, ex, pr)"
  shows "1 \<le> pr \<and> pr \<le> 8"
proof -
  have "1 \<le> initial_priority env c \<and> initial_priority env c \<le> 8"
    unfolding initial_priority_def by (rule clamp_bounds) simp
  moreover have "pr = initial_priority env c \<or> pr = 8"
    using assms unfolding decide_def Let_def by (simp split: if_split_asm option.splits)
  ultimately show ?thesis by auto
qed

text \<open>
  C8. Nothing is committed behind the user's back. A decision that writes a memory (retain
  automatically, approve, keep as working memory) is made only under an enabled policy, for a
  pending candidate of normal sensitivity, in scope, whose expiry and review window have not
  passed where they parse; never for a discarded or contradictory candidate, and for a
  superseding one only as an approval of the explicit supersession; and only with the release
  gate open or with an explicit approval or supersession. Automatic retention needs the gate,
  the preference, a class other than conflict and both thresholds. What is committed expires
  exactly when the configured ceiling says: after the working days as working memory, after the
  durable days otherwise; a ceiling is at least a day and at most 7 days, or ten years.
\<close>

theorem commit_needs_authority:
  assumes "evaluate env c cls p ctx = Inr r"
  shows "(commits (dr_decision r) \<longrightarrow>
      policy_enabled p \<and> cand_status c = ''pending'' \<and> cand_sensitivity c = ''normal'' \<and> same_scope ctx
      \<and> pred_option (\<lambda>t. ce_now env < t) (ce_parse env (cand_expires_at c))
      \<and> pred_option (\<lambda>t. ce_now env < t + days (candidate_expiry_days p)) (ce_parse env (cand_created_at c))
      \<and> cc_classification cls \<noteq> ''discard'' \<and> cc_classification cls \<noteq> ''contradiction''
      \<and> (cc_classification cls = ''supersession'' \<longrightarrow> dr_decision r = Approve \<and> explicit_supersession ctx)
      \<and> (release_authorized p \<or> explicit_approval ctx \<or> explicit_supersession ctx)
      \<and> dr_expires_at r = Some (ce_render env (ce_now env + days (if dr_decision r = WorkingRetention
            then max_working_days (ceilings p) else max_durable_days (ceilings p)))))
    \<and> 0 < max_working_days (ceilings p) \<and> max_working_days (ceilings p) \<le> 7
    \<and> 0 < max_durable_days (ceilings p) \<and> max_durable_days (ceilings p) \<le> 3650
    \<and> (dr_decision r = AutoRetain \<longrightarrow> release_authorized p \<and> allow_auto_retain (preferences p)
      \<and> retainable (cc_classification cls) \<and> \<not> float_lt (cand_confidence c) (min_confidence p)
      \<and> float_le (min_importance p) (cand_importance c) \<and> cand_retention_tier c \<noteq> ''working'')
    \<and> 1 \<le> dr_queue_priority r \<and> dr_queue_priority r \<le> 8
    \<and> dr_candidate_id r = cand_id c \<and> policy_identity env p = Inr (dr_policy_version r)"
proof -
  obtain d rc ex pr where d: "decide env c cls p ctx = (d, rc, ex, pr)" by (metis prod_cases4)
  from assms have v: "validate_policy p = Inr ()"
    by (simp add: evaluate_def bindE_Inr_iff)
  have ceilings: "0 < max_working_days (ceilings p)" "max_working_days (ceilings p) \<le> 7"
    "0 < max_durable_days (ceilings p)" "max_durable_days (ceilings p) \<le> 3650"
    using validate_policy_bounds [OF v] by blast+
  from assms d v have r: "dr_decision r = d" "dr_queue_priority r = pr" "dr_candidate_id r = cand_id c"
    "policy_identity env p = Inr (dr_policy_version r)"
    "dr_expires_at r = (case d of
           WorkingRetention \<Rightarrow> Some (ce_render env (ce_now env + days (max_working_days (ceilings p))))
         | AutoRetain \<Rightarrow> Some (ce_render env (ce_now env + days (max_durable_days (ceilings p))))
         | Approve \<Rightarrow> Some (ce_render env (ce_now env + days (max_durable_days (ceilings p))))
         | _ \<Rightarrow> map_option (ce_render env) (ce_parse env (cand_expires_at c)))"
    by (auto simp: evaluate_def bindE_Inr_iff)
  have "dr_expires_at r = Some (ce_render env (ce_now env + days (if d = WorkingRetention
      then max_working_days (ceilings p) else max_durable_days (ceilings p))))" if "commits d"
    using that r(5) by (auto simp: commits_def)
  then show ?thesis
    using decide_commits [OF d] decide_auto [of env c cls p ctx rc ex pr] decide_priority [OF d] d r ceilings by auto
qed

definition ex_cons_env :: cons_env where
  "ex_cons_env = \<lparr>ce_now = 0, ce_parse = (\<lambda>_. Some 1), ce_render = (\<lambda>_. ''t''), ce_round32 = Fin,
     ce_digest = (\<lambda>_. ''d'')\<rparr>"

definition ex_context :: policy_context where
  "ex_context = \<lparr>explicit_approval = False, explicit_supersession = False, same_scope = True, reviewer = None\<rparr>"

definition ex_policy :: consolidation_policy where
  "ex_policy = (default_policy ex_cons_env)\<lparr>policy_enabled := True, release_authorized := True\<rparr>"

definition ex_class :: "string \<Rightarrow> classification" where
  "ex_class k = \<lparr>cc_candidate_id = ''c'', cc_classification = k, cc_supporting = [], cc_explanation = [],
     cc_confidence = Fin 1, cc_action = ''retain-for-review'', cc_ambiguity = None, cc_compared = 0\<rparr>"

lemmas consolidation_eval = ex_cons_env_def ex_context_def ex_policy_def ex_class_def default_policy_def
  evaluate_def decide_def policy_identity_def validate_policy_def ensure_def consolidation_limits
  in_unit_def is_finite_def ex_candidate_def retainable_def initial_priority_def round_away_def clamp_def
  days_def CONSOLIDATION_POLICY_VERSION_def

theorem commit_needs_authority_witness:
  "\<exists>r. evaluate ex_cons_env (ex_candidate ''t'' ''abc'') (ex_class ''new'') ex_policy ex_context = Inr r
     \<and> dr_decision r = AutoRetain \<and> release_authorized ex_policy \<and> dr_queue_priority r \<le> 8"
proof -
  obtain r where r: "evaluate ex_cons_env (ex_candidate ''t'' ''abc'') (ex_class ''new'') ex_policy ex_context = Inr r"
    "dr_decision r = AutoRetain"
    by (simp add: consolidation_eval Let_def)
  with commit_needs_authority [OF r(1)] show ?thesis by auto
qed

text \<open>
  The queue's invariant. In every state its operations reach, with any workers, the items
  are in order of priority, then of identifier; priorities lie between 1 and 8, an item waiting
  has been tried at most as often as the policy allows retries and an item held by a worker at
  most once more; a paused queue has no item marked queued, a running one none marked paused.
\<close>

theorem queue_invariant:
  assumes "queue_reachable p (q, held)"
  shows "sorted (map item_order (q_items q))
    \<and> list_all (\<lambda>i. 1 \<le> qi_priority i \<and> qi_priority i \<le> 8 \<and> qi_attempts i \<le> max_retries p
        \<and> qi_status i \<in> {Queued, Retry, Paused, Cancelled}
        \<and> qi_status i \<noteq> (if q_paused q then Queued else Paused)) (q_items q)
    \<and> list_all (\<lambda>i. qi_status i = Running \<and> 1 \<le> qi_attempts i \<and> qi_attempts i \<le> max_retries p + 1) held
    \<and> q_max_items q = max_queue p \<and> q_max_retries q = max_retries p"
  using cq.always_inv [OF assms]
  by (cases "q_paused q") (auto simp: queue_inv_def item_ok_def held_ok_def list_all_iff)

definition ex_queue :: consolidation_queue where
  "ex_queue = \<lparr>q_max_items = 1000, q_max_retries = 3, q_paused = False, q_items = [], q_seen = Map.empty\<rparr>"

lemma ex_queue_new: "queue_new ex_policy = Inr ex_queue"
  by (simp add: queue_new_def ex_queue_def consolidation_eval)

lemma ex_queue_reachable: "queue_reachable ex_policy (ex_queue, [])"
  by (rule reachable_start) (rule init_new [OF ex_queue_new])

theorem queue_invariant_witness:
  "sorted (map item_order (q_items (fst (enqueue ''a'' ''p'' 9 ex_queue))))"
proof -
  have "queue_reachable ex_policy (fst (enqueue ''a'' ''p'' 9 ex_queue), [])"
    by (rule reachable_step [OF ex_queue_reachable step_enqueue])
  from queue_invariant [OF this] show ?thesis by blast
qed

lemma saturating_succ_small: "n \<le> 10 \<Longrightarrow> saturating_succ n = n + 1"
  by (simp add: saturating_succ_def)

lemma filter_none: "(\<And>x. x \<in> set xs \<Longrightarrow> \<not> P x) \<Longrightarrow> filter P xs = []"
  by (simp add: filter_empty_conv)

text \<open>
  What a worker gets. From a reachable queue that is not paused, pop returns nothing exactly
  when no item is live; otherwise it takes a live item of the highest priority, the least
  identifier among those, counts the attempt, marks it running, and leaves every other live item
  in the queue. A paused queue gives nothing and keeps everything. Giving the item back puts it
  into the queue again while its attempts allow, and as a dead letter drops it otherwise.
\<close>

theorem pop_serves_by_priority:
  assumes "queue_reachable p (q, held)"
  shows "let live = filter (\<lambda>i. qi_status i \<noteq> Cancelled) (q_items q) in
    (case pop q of
       (q', None) \<Rightarrow> (q_paused q \<and> q' = q) \<or> (\<not> q_paused q \<and> live = [] \<and> q_items q' = [])
     | (q', Some i) \<Rightarrow> \<not> q_paused q
         \<and> (\<exists>j rest. live = j # rest \<and> i = j\<lparr>qi_status := Running, qi_attempts := qi_attempts j + 1\<rparr>
            \<and> list_all (\<lambda>k. item_order j \<le> item_order k) rest
            \<and> filter (\<lambda>i. qi_status i \<noteq> Cancelled) (q_items q') = rest)
         \<and> (if max_retries p < qi_attempts i then q_items (retry i q') = q_items q'
            else mset (q_items (retry i q')) = mset (q_items q') + {#i\<lparr>qi_status := Retry\<rparr>#}))"
proof -
  have inv: "queue_inv p (q, held)" using assms by (rule cq.always_inv)
  show ?thesis
  proof (cases "q_paused q")
    case True
    then show ?thesis by (simp add: pop_def Let_def)
  next
    case False
    obtain rest res where pop: "pop_items (q_items q) = (rest, res)" by (cases "pop_items (q_items q)")
    show ?thesis
    proof (cases res)
      case None
      with pop have "rest = []" "\<And>x. x \<in> set (q_items q) \<Longrightarrow> qi_status x = Cancelled"
        using pop_items_None [of "q_items q" rest] by auto
      with False pop None show ?thesis by (simp add: pop_def Let_def filter_none)
    next
      case (Some i)
      with pop_items_Some [of "q_items q" rest i] pop obtain pre j where
        j: "q_items q = pre @ j # rest" "\<And>x. x \<in> set pre \<Longrightarrow> qi_status x = Cancelled"
          "qi_status j \<noteq> Cancelled" "i = j\<lparr>qi_status := Running, qi_attempts := saturating_succ (qi_attempts j)\<rparr>"
        by blast
      have "qi_attempts j \<le> max_retries p" "max_retries p \<le> 10" "q_max_retries q = max_retries p"
        "\<And>k. k \<in> set rest \<Longrightarrow> item_order j \<le> item_order k"
        using inv j(1) by (auto simp: queue_inv_def item_ok_def sorted_append)
      moreover from this have "saturating_succ (qi_attempts j) = qi_attempts j + 1"
        by (intro saturating_succ_small) simp
      ultimately show ?thesis
        using False pop Some j
        by (simp add: pop_def Let_def filter_none retry_def list_all_iff)
    qed
  qed
qed

theorem pop_serves_by_priority_witness:
  "snd (pop ex_queue) = None \<and> queue_reachable ex_policy (ex_queue, [])"
proof -
  have r: "queue_reachable ex_policy (ex_queue, [])" by (rule ex_queue_reachable)
  have "\<not> q_paused ex_queue" "q_items ex_queue = []" by (simp_all add: ex_queue_def)
  with pop_serves_by_priority [OF r] r show ?thesis by (auto simp: Let_def split: prod.splits option.splits)
qed

end
