(* ===== verification/Chunking.thy ===== *)
theory Chunking
  imports Disk Values
begin

text \<open>
  Chunk generation, \<open>crates/core/src/chunking.rs\<close>: the strategy a document's metadata selects,
  the splitting into sections, messages, records or symbols, and the loop that cuts bounded,
  overlapping ranges at character boundaries. SHA-256 and the start offsets of the symbols the
  code parser finds are parameters. The loop is a partial function: it does not return for
  every policy.
\<close>

section \<open>Data\<close>

definition CHUNKING_CONTRACT_VERSION :: string where
  "CHUNKING_CONTRACT_VERSION = ''cortana.chunking.v2''"
definition DEFAULT_TARGET_BYTES :: nat where "DEFAULT_TARGET_BYTES = 1600"
definition DEFAULT_OVERLAP_BYTES :: nat where "DEFAULT_OVERLAP_BYTES = 200"

datatype chunk_strategy = Generic | MarkdownSection | HtmlSection | MessageThread | CalendarEvent
  | StructuredRecord | CodeSymbol

fun strategy_as_str :: "chunk_strategy \<Rightarrow> string" where
  "strategy_as_str Generic = ''generic''"
| "strategy_as_str MarkdownSection = ''markdown_section''"
| "strategy_as_str HtmlSection = ''html_section''"
| "strategy_as_str MessageThread = ''message_thread''"
| "strategy_as_str CalendarEvent = ''calendar_event''"
| "strategy_as_str StructuredRecord = ''structured_record''"
| "strategy_as_str CodeSymbol = ''code_symbol''"

record chunking_policy =
  target_bytes :: nat
  overlap_bytes :: nat

definition default_chunking :: chunking_policy where
  "default_chunking = \<lparr>target_bytes = DEFAULT_TARGET_BYTES, overlap_bytes = DEFAULT_OVERLAP_BYTES\<rparr>"

record chunk_spec =
  ch_key :: string
  ch_content :: string
  ch_ordinal :: nat
  ch_strategy :: chunk_strategy
  ch_parent_key :: string
  ch_previous :: "string option"
  ch_next :: "string option"
  ch_start :: nat
  ch_end :: nat
  ch_version :: string

record chunking_stats =
  cs_strategy :: string
  cs_chunks :: nat
  cs_source_bytes :: nat
  cs_chunk_bytes :: nat
  cs_overlap_bytes :: nat

text \<open>The fields of \<open>model::Document\<close> the chunker reads.\<close>

record doc =
  doc_source :: string
  doc_source_id :: string
  doc_content :: string
  doc_metadata :: json

text \<open>\<open>ck_symbols\<close> is the code parser: the start offsets of the symbols of a complete parse, or
  nothing when the parse is not complete.\<close>

record chunk_env =
  ck_hash :: "string \<Rightarrow> string"
  ck_symbols :: "doc \<Rightarrow> nat list option"

section \<open>Strategy\<close>

text \<open>\<open>Path::extension\<close> of the last component, and \<open>code_intelligence::detect_language\<close> as far as
  the chunker looks at it: whether the extension belongs to a known language.\<close>

definition file_extension :: "string \<Rightarrow> string option" where
  "file_extension p = (case rev (path_components p) of [] \<Rightarrow> None
     | name # _ \<Rightarrow> if name = ''/'' \<or> name = ''.'' \<or> name = ''..'' then None
         else (case rfind_at name ''.'' of None \<Rightarrow> None | Some 0 \<Rightarrow> None
               | Some i \<Rightarrow> Some (drop (i + 1) name)))"

definition known_language :: "string \<Rightarrow> bool" where
  "known_language source_id \<longleftrightarrow>
     to_ascii_lowercase (case file_extension source_id of None \<Rightarrow> [] | Some e \<Rightarrow> e)
     \<in> set [''rs'', ''py'', ''ts'', ''tsx'', ''js'', ''jsx'', ''mjs'', ''cjs'', ''go'', ''java'', ''kt'', ''c'', ''cc'',
            ''cpp'', ''h'', ''hpp'', ''swift'', ''rb'']"

fun first_some :: "'a option list \<Rightarrow> 'a option" where
  "first_some [] = None"
| "first_some (Some a # xs) = Some a"
| "first_some (None # xs) = first_some xs"

definition has_key :: "json \<Rightarrow> string \<Rightarrow> bool" where
  "has_key v k \<longleftrightarrow> json_get k v \<noteq> None"

definition strategy_for :: "doc \<Rightarrow> chunk_strategy" where
  "strategy_for d = (let md = doc_metadata d;
       value = (\<lambda>key. Option.bind (json_get key md) as_str);
       kind = to_ascii_lowercase (case first_some (map value [''mime_type'', ''mimeType'', ''content_type'',
                ''format'', ''extension'']) of None \<Rightarrow> [] | Some k \<Rightarrow> k)
     in if has_key md ''code'' \<and> known_language (doc_source_id d) then CodeSymbol
        else if str_contains kind ''markdown'' \<or> str_contains kind ''google-apps.document''
          \<or> str_contains kind ''wordprocessingml'' \<or> str_contains kind ''opendocument.text''
          \<or> kind \<in> set [''md'', ''.md''] then MarkdownSection
        else if str_contains kind ''html'' \<or> kind \<in> set [''htm'', ''.htm'', ''html'', ''.html''] then HtmlSection
        else if list_ex (has_key md) [''thread_id'', ''message_id'', ''channel_id'', ''participants'']
          \<or> doc_source d \<in> set [''gmail'', ''slack'', ''discord''] then MessageThread
        else if list_ex (has_key md) [''event_id'', ''start'', ''start_time'', ''recurrence'']
          \<or> str_contains (doc_source d) ''calendar'' then CalendarEvent
        else if has_key md ''fields'' \<or> has_key md ''record_type'' then StructuredRecord
        else Generic)"

section \<open>Bounded ranges\<close>

definition char_boundary_at_or_before :: "string \<Rightarrow> nat \<Rightarrow> nat" where
  "char_boundary_at_or_before value offset = floor_boundary value (min offset (length value))"

function ceil_boundary :: "string \<Rightarrow> nat \<Rightarrow> nat" where
  "ceil_boundary value offset = (if offset < length value \<and> \<not> is_char_boundary value offset
     then ceil_boundary value (offset + 1) else offset)"
  by pat_completeness auto
termination
  by (relation "measure (\<lambda>(value, offset). length value - offset)") auto

declare ceil_boundary.simps [simp del]

definition next_char_boundary :: "string \<Rightarrow> nat \<Rightarrow> nat" where
  "next_char_boundary value offset = ceil_boundary value (min offset (length value))"

text \<open>Where the range that starts at \<open>start\<close> ends, and where the next one starts.\<close>

definition range_end :: "string \<Rightarrow> nat \<Rightarrow> nat \<Rightarrow> nat" where
  "range_end content target start =
     (let hard_end = char_boundary_at_or_before content (start + target);
          e = max hard_end (next_char_boundary content start)
      in if e < length content then
           (let window = slice content start e; floor = length window div 2;
                e' = (case rfind_at window [newline, newline] of
                        Some position \<Rightarrow> if floor \<le> position then start + position + 2 else e
                      | None \<Rightarrow> e)
            in char_boundary_at_or_before content e')
         else e)"

definition range_next :: "string \<Rightarrow> nat \<Rightarrow> nat \<Rightarrow> nat \<Rightarrow> nat" where
  "range_next content overlap start e =
     (let next = char_boundary_at_or_before content (e - overlap)
      in if next \<le> start then next_char_boundary content e else next)"

definition make_chunk :: "chunk_env \<Rightarrow> string \<Rightarrow> chunk_strategy \<Rightarrow> nat \<Rightarrow> nat \<Rightarrow> nat \<Rightarrow> chunk_spec" where
  "make_chunk env content strategy start e ordinal =
     (let text = trim (slice content start e);
          start_byte = start + (case find_at (slice content start e) text of None \<Rightarrow> 0 | Some i \<Rightarrow> i);
          end_byte = start_byte + length text
      in \<lparr>ch_key = ck_hash env (CHUNKING_CONTRACT_VERSION @ '':'' @ strategy_as_str strategy @ '':''
            @ decimal start_byte @ '':'' @ decimal end_byte @ '':'' @ text),
          ch_content = text, ch_ordinal = ordinal, ch_strategy = strategy,
          ch_parent_key = ck_hash env (CHUNKING_CONTRACT_VERSION @ '':parent:'' @ decimal start @ '':'' @ decimal e),
          ch_previous = None, ch_next = None, ch_start = start_byte, ch_end = end_byte,
          ch_version = CHUNKING_CONTRACT_VERSION\<rparr>)"

partial_function (option) ranges_loop ::
    "chunk_env \<Rightarrow> string \<Rightarrow> nat \<Rightarrow> nat \<Rightarrow> chunk_strategy \<Rightarrow> nat \<Rightarrow> chunk_spec list \<Rightarrow> chunk_spec list option" where
  "ranges_loop env content target overlap strategy start output =
     (if \<not> start < length content then Some output
      else let e = range_end content target start;
               output' = (if trim (slice content start e) \<noteq> []
                          then output @ [make_chunk env content strategy start e (length output)] else output)
           in if e = length content then Some output'
              else ranges_loop env content target overlap strategy (range_next content overlap start e) output')"

definition bounded_ranges ::
    "chunk_env \<Rightarrow> string \<Rightarrow> chunking_policy \<Rightarrow> chunk_strategy \<Rightarrow> chunk_spec list option" where
  "bounded_ranges env content policy strategy =
     (let target = max (target_bytes policy) 1; overlap = min (overlap_bytes policy) (target - 1)
      in ranges_loop env content target overlap strategy 0 [])"

section \<open>Sections\<close>

text \<open>The loop over the lines with their offsets: a line that opens a section closes the section
  before it, unless that would be empty.\<close>

fun section_loop :: "(string \<Rightarrow> bool) \<Rightarrow> nat \<Rightarrow> nat \<Rightarrow> string list \<Rightarrow> (nat \<times> nat) list \<times> nat" where
  "section_loop opens offset start [] = ([], start)"
| "section_loop opens offset start (l # ls) =
     (if opens l \<and> start < offset
      then (case section_loop opens (offset + length l) offset ls of (r, s) \<Rightarrow> ((start, offset) # r, s))
      else section_loop opens (offset + length l) start ls)"

definition split_sections :: "(string \<Rightarrow> bool) \<Rightarrow> string \<Rightarrow> (nat \<times> nat) list" where
  "split_sections opens content =
     (case section_loop opens 0 0 (split_inclusive content) of (r, start) \<Rightarrow>
       if start < length content then r @ [(start, length content)] else r)"

definition is_markdown_heading :: "string \<Rightarrow> bool" where
  "is_markdown_heading line \<longleftrightarrow> starts_with (trim_start line) ''#''"

definition is_html_heading :: "string \<Rightarrow> bool" where
  "is_html_heading line \<longleftrightarrow> (let lower = to_ascii_lowercase (trim_start line)
     in list_ex (\<lambda>level. starts_with lower (''<h'' @ decimal level)) [1, 2, 3, 4, 5, 6])"

definition is_message_marker :: "string \<Rightarrow> bool" where
  "is_message_marker line \<longleftrightarrow> (let marker = trim_start line
     in starts_with marker ''From:'' \<or> starts_with marker ''>'' \<or> starts_with marker ''['')"

definition is_field_line :: "string \<Rightarrow> bool" where
  "is_field_line line \<longleftrightarrow> str_contains line '':'' \<and> (case line of [] \<Rightarrow> False
     | c # _ \<Rightarrow> 65 \<le> byte c \<and> byte c \<le> 90 \<or> 97 \<le> byte c \<and> byte c \<le> 122)"

definition shift_chunk :: "nat \<Rightarrow> string \<Rightarrow> chunk_spec \<Rightarrow> chunk_spec" where
  "shift_chunk start parent c =
     c\<lparr>ch_start := ch_start c + start, ch_end := ch_end c + start, ch_parent_key := parent\<rparr>"

fun flat_map_opt :: "('a \<Rightarrow> 'b list option) \<Rightarrow> 'a list \<Rightarrow> 'b list option" where
  "flat_map_opt f [] = Some []"
| "flat_map_opt f (x # xs) = Option.bind (f x) (\<lambda>ys. Option.bind (flat_map_opt f xs) (\<lambda>zs. Some (ys @ zs)))"

text \<open>One part of the content, cut into ranges whose offsets are then those of the content.\<close>

definition part_chunks :: "chunk_env \<Rightarrow> string \<Rightarrow> chunking_policy \<Rightarrow> chunk_strategy
    \<Rightarrow> (nat \<Rightarrow> nat \<Rightarrow> string) \<Rightarrow> nat \<times> nat \<Rightarrow> chunk_spec list option" where
  "part_chunks env content policy strategy parent part = (case part of (start, e) \<Rightarrow>
     map_option (map (shift_chunk start (ck_hash env (parent start e))))
       (bounded_ranges env (slice content start e) policy strategy))"

definition section_chunks :: "chunk_env \<Rightarrow> string \<Rightarrow> chunk_strategy \<Rightarrow> chunking_policy
    \<Rightarrow> (string \<Rightarrow> bool) \<Rightarrow> chunk_spec list option" where
  "section_chunks env content strategy policy heading =
     (let sections = split_sections heading content
      in if sections = [] then bounded_ranges env content policy strategy
         else flat_map_opt (part_chunks env content policy strategy (\<lambda>start e.
           CHUNKING_CONTRACT_VERSION @ '':'' @ strategy_as_str strategy @ '':'' @ decimal start @ '':'' @ decimal e))
           sections)"

definition message_chunks :: "chunk_env \<Rightarrow> string \<Rightarrow> chunking_policy \<Rightarrow> chunk_spec list option" where
  "message_chunks env content policy =
     (let records = split_sections is_message_marker content
      in if length records \<le> 1 then bounded_ranges env content policy MessageThread
         else flat_map_opt (part_chunks env content policy MessageThread (\<lambda>start e.
           ''message:'' @ decimal start @ '':'' @ decimal e)) records)"

definition structured_chunks :: "chunk_env \<Rightarrow> string \<Rightarrow> chunk_strategy \<Rightarrow> chunking_policy
    \<Rightarrow> chunk_spec list option" where
  "structured_chunks env content strategy policy =
     (let fields = split_sections is_field_line content
      in if length fields \<le> 1 then bounded_ranges env content policy strategy
         else flat_map_opt (part_chunks env content policy strategy (\<lambda>start e.
           ''record:'' @ decimal start @ '':'' @ decimal e)) fields)"

definition generic_chunks :: "chunk_env \<Rightarrow> string \<Rightarrow> chunking_policy \<Rightarrow> chunk_spec list option" where
  "generic_chunks env content policy = bounded_ranges env content policy Generic"

text \<open>The parts between successive symbols; the first starts at 0.\<close>

definition symbol_parts :: "nat list \<Rightarrow> nat \<Rightarrow> (nat \<times> nat) list" where
  "symbol_parts symbols len =
     (let starts = sort_dedup symbols;
          starts = (if 0 < (case starts of [] \<Rightarrow> 0 | s # _ \<Rightarrow> s) then 0 # starts else starts)
      in zip starts (tl starts @ [len]))"

text \<open>A range of a string panics unless it lies in the string, in order, at character boundaries. The
  offsets come from the parser; after a panic there are no chunks.\<close>

definition slice_ok :: "string \<Rightarrow> nat \<Rightarrow> nat \<Rightarrow> bool" where
  "slice_ok content a b \<longleftrightarrow> a \<le> b \<and> is_char_boundary content a \<and> is_char_boundary content b"

definition code_chunks :: "chunk_env \<Rightarrow> doc \<Rightarrow> chunking_policy \<Rightarrow> chunk_spec list option" where
  "code_chunks env d policy = (case ck_symbols env d of
       None \<Rightarrow> generic_chunks env (doc_content d) policy
     | Some symbols \<Rightarrow> if symbols = [] then generic_chunks env (doc_content d) policy
         else flat_map_opt (\<lambda>part. if slice_ok (doc_content d) (fst part) (snd part)
             then part_chunks env (doc_content d) policy CodeSymbol (\<lambda>start e.
               ''code:'' @ doc_source_id d @ '':'' @ decimal start @ '':'' @ decimal e) part
             else None)
           (symbol_parts symbols (length (doc_content d))))"

definition link_chunks :: "chunk_spec list \<Rightarrow> chunk_spec list" where
  "link_chunks cs = map (\<lambda>i. (cs ! i)\<lparr>ch_ordinal := i,
       ch_previous := (if i = 0 then None else Some (ch_key (cs ! (i - 1)))),
       ch_next := (if i + 1 < length cs then Some (ch_key (cs ! (i + 1))) else None)\<rparr>) [0..<length cs]"

definition chunk_document_with_policy :: "chunk_env \<Rightarrow> doc \<Rightarrow> chunking_policy \<Rightarrow> chunk_spec list option" where
  "chunk_document_with_policy env d policy = (let strategy = strategy_for d in
     map_option link_chunks (case strategy of
         MarkdownSection \<Rightarrow> section_chunks env (doc_content d) strategy policy is_markdown_heading
       | HtmlSection \<Rightarrow> section_chunks env (doc_content d) strategy policy is_html_heading
       | MessageThread \<Rightarrow> message_chunks env (doc_content d) policy
       | CalendarEvent \<Rightarrow> structured_chunks env (doc_content d) strategy policy
       | StructuredRecord \<Rightarrow> structured_chunks env (doc_content d) strategy policy
       | CodeSymbol \<Rightarrow> code_chunks env d policy
       | Generic \<Rightarrow> generic_chunks env (doc_content d) policy))"

definition chunk_document :: "chunk_env \<Rightarrow> doc \<Rightarrow> chunk_spec list option" where
  "chunk_document env d = chunk_document_with_policy env d default_chunking"

definition chunk_stats :: "chunk_env \<Rightarrow> doc \<Rightarrow> chunking_stats option" where
  "chunk_stats env d = map_option (\<lambda>chunks.
     let chunk_bytes = sum_list (map (\<lambda>c. length (ch_content c)) chunks) in
     \<lparr>cs_strategy = (case chunks of [] \<Rightarrow> strategy_as_str (strategy_for d) | c # _ \<Rightarrow> strategy_as_str (ch_strategy c)),
      cs_chunks = length chunks, cs_source_bytes = length (doc_content d), cs_chunk_bytes = chunk_bytes,
      cs_overlap_bytes = chunk_bytes - length (doc_content d)\<rparr>) (chunk_document env d)"


section \<open>The loop returns\<close>

lemma ceil_boundary_id: "is_char_boundary v n \<Longrightarrow> ceil_boundary v n = n"
  by (simp add: ceil_boundary.simps)

lemma next_char_boundary_id: "is_char_boundary v n \<Longrightarrow> next_char_boundary v n = n"
  using is_char_boundary_le [of v n] by (simp add: next_char_boundary_def ceil_boundary_id min_absorb1)

lemma boundary_at_or_before [simp]: "is_char_boundary v (char_boundary_at_or_before v n)"
  by (simp add: char_boundary_at_or_before_def)

lemma boundary_at_or_before_le: "char_boundary_at_or_before v n \<le> n" "char_boundary_at_or_before v n \<le> length v"
  unfolding char_boundary_at_or_before_def
  using floor_boundary_le [of v "min n (length v)"] by simp_all

lemma boundary_at_or_before_greatest:
  "is_char_boundary v k \<Longrightarrow> k \<le> n \<Longrightarrow> k \<le> char_boundary_at_or_before v n"
  unfolding char_boundary_at_or_before_def
  by (rule floor_boundary_greatest) (simp_all add: is_char_boundary_le)

lemma newline_not_cont: "\<not> is_cont newline"
  by (simp add: is_cont_def byte_def newline_def)

lemma range_end_ok:
  assumes "narrow c" "start < length c" "is_char_boundary c start" "4 \<le> target"
  shows "start < range_end c target start \<and> range_end c target start \<le> start + target
    \<and> is_char_boundary c (range_end c target start)"
proof -
  let ?h = "char_boundary_at_or_before c (start + target)"
  obtain j where "start < j" "j \<le> start + 4" "is_char_boundary c j"
    using narrow_boundary [OF assms(1,2)] by blast
  then have "j \<le> ?h"
    using assms(4) by (intro boundary_at_or_before_greatest) auto
  then have h: "start < ?h" "max ?h (next_char_boundary c start) = ?h"
    using \<open>start < j\<close> by (simp_all add: next_char_boundary_id [OF assms(3)])
  note le = boundary_at_or_before_le [of c "start + target"]
  let ?w = "slice c start ?h"
  show ?thesis
  proof (cases "?h < length c")
    case False
    with h le show ?thesis by (simp add: range_end_def Let_def)
  next
    case True
    define e' where "e' = (case rfind_at ?w [newline, newline] of
      Some position \<Rightarrow> if length ?w div 2 \<le> position then start + position + 2 else ?h | None \<Rightarrow> ?h)"
    have re: "range_end c target start = char_boundary_at_or_before c e'"
      by (simp only: range_end_def e'_def Let_def h(2) True if_True)
    have "\<exists>k. start < k \<and> k \<le> e' \<and> is_char_boundary c k \<and> e' \<le> ?h"
    proof (cases "e' = ?h")
      case True
      with h show ?thesis by (intro exI [of _ ?h]) auto
    next
      case False
      then obtain p where p: "rfind_at ?w [newline, newline] = Some p" "e' = start + p + 2"
        by (auto simp: e'_def split: option.splits if_splits)
      from rfind_at_Some [OF p(1)] have len: "p + 2 \<le> length ?w"
        and two: "take 2 (drop p ?w) = [newline, newline]" by (simp_all add: numeral_2_eq_2)
      have "?w ! (p + 1) = take 2 (drop p ?w) ! 1" using len by simp
      also have "\<dots> = newline" unfolding two by simp
      finally have nl: "c ! (start + p + 1) = newline"
        using len le h(1) by (simp add: slice_def add.assoc)
      have "length ?w = ?h - start" using le by (simp add: length_slice)
      then have "start + p + 1 < length c" "e' \<le> ?h" using len le p(2) h by linarith+
      with nl p(2) show ?thesis
        by (intro exI [of _ "start + p + 1"]) (simp add: is_char_boundary_def newline_not_cont)
    qed
    then obtain k where "start < k" "k \<le> e'" "is_char_boundary c k" "e' \<le> ?h" by blast
    moreover from this have "k \<le> char_boundary_at_or_before c e'"
      by (intro boundary_at_or_before_greatest)
    ultimately show ?thesis
      using boundary_at_or_before_le(1) [of c e'] le(1) by (simp add: re)
  qed
qed

lemma range_next_ok:
  assumes "narrow c" "start < e" "e \<le> length c" "is_char_boundary c e"
  shows "start < range_next c overlap start e \<and> range_next c overlap start e \<le> e
    \<and> e < range_next c overlap start e + overlap + 4 \<and> is_char_boundary c (range_next c overlap start e)"
proof -
  let ?n = "char_boundary_at_or_before c (e - overlap)"
  have "?n \<le> e - overlap" by (rule boundary_at_or_before_le)
  moreover have "e - overlap < ?n + 4"
    unfolding char_boundary_at_or_before_def using assms(3) floor_boundary_gt [OF assms(1), of "e - overlap"]
    by (simp add: min_absorb1)
  ultimately show ?thesis
    using assms(2,4) by (auto simp: range_next_def Let_def next_char_boundary_id)
qed

text \<open>The windows the loop runs through: they start at \<open>start\<close> and end at the end of the content,
  each next one starting inside or right after the one before.\<close>

fun tiled :: "string \<Rightarrow> nat \<Rightarrow> nat \<Rightarrow> nat \<Rightarrow> (nat \<times> nat) list \<Rightarrow> bool" where
  "tiled c target overlap start [] = (start = length c)"
| "tiled c target overlap start ((a, b) # ws) = (a = start \<and> a < b \<and> b \<le> length c \<and> b \<le> a + target
     \<and> is_char_boundary c a \<and> is_char_boundary c b
     \<and> (if ws = [] then b = length c
        else a < fst (hd ws) \<and> fst (hd ws) \<le> b \<and> b < fst (hd ws) + overlap + 4
             \<and> tiled c target overlap (fst (hd ws)) ws))"

fun emit :: "chunk_env \<Rightarrow> string \<Rightarrow> chunk_strategy \<Rightarrow> nat \<Rightarrow> (nat \<times> nat) list \<Rightarrow> chunk_spec list" where
  "emit env c strategy n [] = []"
| "emit env c strategy n ((a, b) # ws) = (if trim (slice c a b) \<noteq> []
     then make_chunk env c strategy a b n # emit env c strategy (n + 1) ws else emit env c strategy n ws)"

lemma ranges_loop_returns:
  assumes "narrow c" "4 \<le> target"
  shows "is_char_boundary c start \<Longrightarrow> \<exists>ws. tiled c target overlap start ws
    \<and> ranges_loop env c target overlap strategy start out = Some (out @ emit env c strategy (length out) ws)"
proof (induction "length c - start" arbitrary: start out rule: less_induct)
  case less
  show ?case
  proof (cases "start < length c")
    case False
    with less.prems is_char_boundary_le [of c start] show ?thesis
      by (intro exI [of _ "[]"]) (simp add: ranges_loop.simps)
  next
    case True
    let ?e = "range_end c target start"
    let ?out = "if trim (slice c start ?e) \<noteq> [] then out @ [make_chunk env c strategy start ?e (length out)] else out"
    from range_end_ok [OF assms(1) True less.prems assms(2)] have e: "start < ?e" "?e \<le> start + target"
      "is_char_boundary c ?e" "?e \<le> length c" by (auto intro: is_char_boundary_le)
    show ?thesis
    proof (cases "?e = length c")
      case eq: True
      then have "ranges_loop env c target overlap strategy start out = Some ?out"
        using True by (subst ranges_loop.simps) (simp add: Let_def)
      with eq e less.prems show ?thesis
        by (intro exI [of _ "[(start, ?e)]"]) auto
    next
      case ne: False
      let ?n = "range_next c overlap start ?e"
      from range_next_ok [OF assms(1) e(1,4,3)] have n: "start < ?n" "?n \<le> ?e"
        "?e < ?n + overlap + 4" "is_char_boundary c ?n" by auto
      have lt: "length c - ?n < length c - start" using n(1) True by simp
      obtain ws where ws: "tiled c target overlap ?n ws"
        "ranges_loop env c target overlap strategy ?n ?out = Some (?out @ emit env c strategy (length ?out) ws)"
        using less.hyps [OF lt n(4)] by blast
      have "ws \<noteq> []" using ws(1) n(2) ne e(4) by auto
      then have "fst (hd ws) = ?n" using ws(1) by (cases ws) auto
      moreover have "ranges_loop env c target overlap strategy start out = Some (?out @ emit env c strategy (length ?out) ws)"
        using True ne ws(2) by (subst ranges_loop.simps) (simp add: Let_def)
      ultimately show ?thesis
        using ws(1) \<open>ws \<noteq> []\<close> e n less.prems by (intro exI [of _ "(start, ?e) # ws"]) auto
    qed
  qed
qed

text \<open>What each chunk holds: the text at its range.\<close>

definition chunk_ok :: "string \<Rightarrow> nat \<Rightarrow> chunk_spec \<Rightarrow> bool" where
  "chunk_ok c target k \<longleftrightarrow> ch_content k \<noteq> [] \<and> ch_content k = slice c (ch_start k) (ch_end k)
     \<and> ch_start k < ch_end k \<and> ch_end k \<le> length c \<and> length (ch_content k) \<le> target"

lemma make_chunk_ok:
  assumes "trim (slice c a b) \<noteq> []" "a < b" "b \<le> length c" "b \<le> a + target"
  shows "chunk_ok c target (make_chunk env c strategy a b n)"
proof -
  let ?s = "slice c a b" and ?t = "trim (slice c a b)"
  obtain i where i: "find_at ?s ?t = Some i" using trim_found by blast
  from find_at_Some [OF i] have len: "i + length ?t \<le> length ?s" and t: "slice ?s i (i + length ?t) = ?t"
    by (simp_all add: slice_def)
  have "slice c (a + i) (a + i + length ?t) = ?t"
    using slice_slice [OF len, of i] t by (simp add: add_ac)
  moreover have "length ?s = b - a" using assms(3) by (rule length_slice)
  moreover from this have "a + i + length ?t \<le> length c" "length ?t \<le> target"
    using len assms(2-4) by linarith+
  ultimately show ?thesis
    using i assms(1) by (simp add: chunk_ok_def make_chunk_def Let_def)
qed

lemma emit_ok: "tiled c target overlap start ws \<Longrightarrow> list_all (chunk_ok c target) (emit env c strategy n ws)"
  by (induction c target overlap start ws arbitrary: n rule: tiled.induct)
    (auto simp: make_chunk_ok split: if_splits)

lemma emit_content:
  "map ch_content (emit env c strategy n ws) = filter (\<lambda>t. t \<noteq> []) (map (\<lambda>(a, b). trim (slice c a b)) ws)"
  by (induction ws arbitrary: n) (auto simp: make_chunk_def Let_def)


lemma bounded_ranges_returns:
  assumes "narrow c" "4 \<le> target_bytes policy"
  shows "\<exists>ws. tiled c (target_bytes policy) (min (overlap_bytes policy) (target_bytes policy - 1)) 0 ws
    \<and> bounded_ranges env c policy strategy = Some (emit env c strategy 0 ws)"
proof -
  have "max (target_bytes policy) 1 = target_bytes policy" using assms(2) by simp
  with ranges_loop_returns [OF assms is_char_boundary_0, of "min (overlap_bytes policy) (target_bytes policy - 1)"
      env strategy "[]"]
  show ?thesis by (simp add: bounded_ranges_def Let_def)
qed

section \<open>Parts\<close>

text \<open>How a text is cut: the windows of one part, and the parts of the whole content.\<close>

definition window_texts :: "string \<Rightarrow> (nat \<times> nat) list \<Rightarrow> string list" where
  "window_texts c ws = filter (\<lambda>t. t \<noteq> []) (map (\<lambda>(a, b). trim (slice c a b)) ws)"

definition tiles :: "string \<Rightarrow> chunking_policy \<Rightarrow> string list \<Rightarrow> bool" where
  "tiles c policy texts \<longleftrightarrow> (\<exists>ws. texts = window_texts c ws
     \<and> tiled c (target_bytes policy) (min (overlap_bytes policy) (target_bytes policy - 1)) 0 ws)"

definition cut_up :: "string \<Rightarrow> chunking_policy \<Rightarrow> chunk_spec list \<Rightarrow> bool" where
  "cut_up c policy out \<longleftrightarrow> list_all (chunk_ok c (target_bytes policy)) out
     \<and> (\<exists>parts texts. concat (map (\<lambda>(a, b). slice c a b) parts) = c
          \<and> list_all2 (\<lambda>(a, b) ts. tiles (slice c a b) policy ts) parts texts
          \<and> map ch_content out = concat texts)"

lemma flat_map_opt_all:
  "(\<And>x. x \<in> set xs \<Longrightarrow> \<exists>ys. f x = Some ys \<and> list_all P ys \<and> R x (map ch_content ys)) \<Longrightarrow>
     \<exists>ys texts. flat_map_opt f xs = Some ys \<and> list_all P ys \<and> list_all2 R xs texts \<and> map ch_content ys = concat texts"
proof (induction xs)
  case Nil
  show ?case by (intro exI [of _ "[]"]) simp
next
  case (Cons x xs)
  obtain ys where ys: "f x = Some ys" "list_all P ys" "R x (map ch_content ys)" using Cons.prems [of x] by auto
  obtain zs texts where "flat_map_opt f xs = Some zs" "list_all P zs" "list_all2 R xs texts" "map ch_content zs = concat texts"
    using Cons by auto
  with ys show ?case by (intro exI [of _ "ys @ zs"] exI [of _ "map ch_content ys # texts"]) simp
qed

lemma flat_map_opt_None: "x \<in> set xs \<Longrightarrow> f x = None \<Longrightarrow> flat_map_opt f xs = None"
proof (induction xs)
  case (Cons y ys)
  then show ?case by (cases "f y") auto
qed simp

lemma shift_ok: "chunk_ok (slice c a b) target k \<Longrightarrow> chunk_ok c target (shift_chunk a parent k)"
proof -
  assume ok: "chunk_ok (slice c a b) target k"
  have "length (slice c a b) \<le> length c - a" by (simp add: slice_def)
  with ok have "ch_end k + a \<le> length c" by (auto simp: chunk_ok_def)
  with ok show ?thesis by (auto simp: chunk_ok_def shift_chunk_def slice_slice)
qed

lemma shift_content [simp]: "ch_content (shift_chunk a parent k) = ch_content k"
  by (simp add: shift_chunk_def)

lemma bounded_all:
  assumes "narrow c" "4 \<le> target_bytes policy"
  shows "\<exists>ys. bounded_ranges env c policy strategy = Some ys \<and> list_all (chunk_ok c (target_bytes policy)) ys
    \<and> tiles c policy (map ch_content ys)"
  using bounded_ranges_returns [OF assms, of env strategy] emit_ok emit_content
  unfolding tiles_def window_texts_def by blast

lemma part_chunks_all:
  assumes "narrow c" "4 \<le> target_bytes policy"
  shows "\<exists>ys. part_chunks env c policy strategy parent part = Some ys \<and> list_all (chunk_ok c (target_bytes policy)) ys
    \<and> (case part of (a, b) \<Rightarrow> tiles (slice c a b) policy (map ch_content ys))"
proof -
  obtain a b where part: "part = (a, b)" by fastforce
  obtain ys where "bounded_ranges env (slice c a b) policy strategy = Some ys"
    "list_all (chunk_ok (slice c a b) (target_bytes policy)) ys" "tiles (slice c a b) policy (map ch_content ys)"
    using bounded_all [OF narrow_slice [OF assms(1)] assms(2)] by blast
  then show ?thesis
    by (auto simp: part_chunks_def part list_all_iff comp_def intro: shift_ok)
qed

lemma whole_cut:
  assumes "narrow c" "4 \<le> target_bytes policy"
  shows "\<exists>ys. bounded_ranges env c policy strategy = Some ys \<and> cut_up c policy ys"
proof -
  obtain ys where "bounded_ranges env c policy strategy = Some ys" "list_all (chunk_ok c (target_bytes policy)) ys"
    "tiles c policy (map ch_content ys)" using bounded_all [OF assms] by blast
  then show ?thesis
    by (auto simp: cut_up_def intro!: exI [of _ "[(0, length c)]"] exI [of _ "[map ch_content ys]"])
qed

lemma parts_cut:
  assumes "narrow c" "4 \<le> target_bytes policy" "concat (map (\<lambda>(a, b). slice c a b) parts) = c"
    and "\<And>part. part \<in> set parts \<Longrightarrow> f part = part_chunks env c policy strategy parent part"
  shows "\<exists>ys. flat_map_opt f parts = Some ys \<and> cut_up c policy ys"
proof -
  have "\<exists>ys. f part = Some ys \<and> list_all (chunk_ok c (target_bytes policy)) ys
      \<and> (case part of (a, b) \<Rightarrow> tiles (slice c a b) policy (map ch_content ys))" if "part \<in> set parts" for part
    unfolding assms(4) [OF that] using assms(1,2) by (rule part_chunks_all)
  then have "\<exists>ys texts. flat_map_opt f parts = Some ys \<and> list_all (chunk_ok c (target_bytes policy)) ys
      \<and> list_all2 (\<lambda>(a, b) ts. tiles (slice c a b) policy ts) parts texts \<and> map ch_content ys = concat texts"
    by (intro flat_map_opt_all) (auto split: prod.splits)
  then obtain ys texts where ys: "flat_map_opt f parts = Some ys" "list_all (chunk_ok c (target_bytes policy)) ys"
    "list_all2 (\<lambda>(a, b) ts. tiles (slice c a b) policy ts) parts texts" "map ch_content ys = concat texts"
    by blast
  with assms(3) have "cut_up c policy ys"
    unfolding cut_up_def by (intro conjI exI [of _ parts] exI [of _ texts])
  with ys(1) show ?thesis by blast
qed

lemma section_loop_cover:
  "start \<le> offset \<Longrightarrow> offset + length (concat ls) \<le> length c \<Longrightarrow> section_loop opens offset start ls = (r, s) \<Longrightarrow>
   start \<le> s \<and> s \<le> length c \<and> concat (map (\<lambda>(a, b). slice c a b) r) = slice c start s"
proof (induction ls arbitrary: offset start r)
  case (Cons l ls)
  show ?case
  proof (cases "opens l \<and> start < offset")
    case True
    then obtain r' where r: "section_loop opens (offset + length l) offset ls = (r', s)" "r = (start, offset) # r'"
      using Cons.prems(3) by (auto split: prod.splits)
    have "offset \<le> s \<and> s \<le> length c \<and> concat (map (\<lambda>(a, b). slice c a b) r') = slice c offset s"
      using Cons.prems(2) by (intro Cons.IH [OF _ _ r(1)]) (auto simp: add.assoc)
    with r True show ?thesis by (auto simp: slice_append)
  next
    case False
    then show ?thesis
      using Cons.prems by (intro Cons.IH [where offset = "offset + length l"]) (auto simp: add.assoc)
  qed
qed (auto simp: slice_def)

lemma split_sections_cover: "concat (map (\<lambda>(a, b). slice c a b) (split_sections opens c)) = c"
proof -
  obtain r s where rs: "section_loop opens 0 0 (split_inclusive c) = (r, s)" by fastforce
  from section_loop_cover [OF _ _ this, of c]
  have "s \<le> length c" "concat (map (\<lambda>(a, b). slice c a b) r) = slice c 0 s" by simp_all
  then show ?thesis
    using slice_append [of 0 s "length c" c] by (auto simp: split_sections_def rs)
qed

lemma symbol_parts_cover:
  assumes "symbols \<noteq> []" "\<forall>s\<in>set symbols. s \<le> length c"
  shows "concat (map (\<lambda>(a, b). slice c a b) (symbol_parts symbols (length c))) = c"
proof -
  have chain: "sorted_wrt (<) (x # xs) \<Longrightarrow> \<forall>s\<in>set (x # xs). s \<le> length c \<Longrightarrow>
      concat (map (\<lambda>(a, b). slice c a b) (zip (x # xs) (xs @ [length c]))) = slice c x (length c)" for x xs
    by (induction xs arbitrary: x) (auto simp: slice_append)
  let ?d = "sort_dedup symbols"
  have d: "sorted_wrt (<) ?d" "\<forall>s\<in>set ?d. s \<le> length c" "?d \<noteq> []"
    using assms by (simp_all add: strict_sort_dedup)
  then obtain y ys where y: "?d = y # ys" by (cases ?d) auto
  show ?thesis
  proof (cases "0 < y")
    case True
    then have "sorted_wrt (<) (0 # y # ys)" using d(1) y by auto
    with d(2) chain [of 0 "y # ys"] True show ?thesis by (simp add: symbol_parts_def Let_def y)
  next
    case False
    with d chain [of 0 ys] show ?thesis by (auto simp: symbol_parts_def Let_def y)
  qed
qed

text \<open>The parts between symbols: each symbol starts one, and they end at symbols or at the end.\<close>

lemma symbol_parts_starts:
  assumes "s \<in> set symbols"
  shows "s \<in> fst ` set (symbol_parts symbols len)"
proof -
  have starts: "map fst (zip xs (tl xs @ [len])) = xs" if "xs \<noteq> []" for xs :: "nat list"
    using that by (simp add: Suc_leI)
  let ?d = "sort_dedup symbols"
  define xs where "xs = (if 0 < (case ?d of [] \<Rightarrow> 0 | s # _ \<Rightarrow> s) then 0 # ?d else ?d)"
  have "s \<in> set ?d" using assms by simp
  then have "s \<in> set xs" "xs \<noteq> []" by (auto simp: xs_def)
  then have "s \<in> set (map fst (zip xs (tl xs @ [len])))" by (simp only: starts [OF \<open>xs \<noteq> []\<close>])
  then show ?thesis by (simp add: symbol_parts_def Let_def xs_def)
qed

lemma symbol_parts_ok:
  assumes "\<forall>s\<in>set symbols. is_char_boundary c s" "part \<in> set (symbol_parts symbols (length c))"
  shows "slice_ok c (fst part) (snd part)"
proof -
  let ?d = "sort_dedup symbols"
  define xs where "xs = (if 0 < (case ?d of [] \<Rightarrow> 0 | s # _ \<Rightarrow> s) then 0 # ?d else ?d)"
  have d: "sorted_wrt (<) ?d" "\<forall>s\<in>set ?d. is_char_boundary c s"
    using assms(1) by (simp_all add: strict_sort_dedup)
  then have s: "sorted_wrt (<) xs" "\<forall>s\<in>set xs. is_char_boundary c s"
    by (cases ?d; auto simp: xs_def)+
  have chain: "sorted_wrt (<) xs \<Longrightarrow> \<forall>s\<in>set xs. is_char_boundary c s \<Longrightarrow> (a, b) \<in> set (zip xs (tl xs @ [length c])) \<Longrightarrow>
      slice_ok c a b" for xs a b
  proof (induction xs)
    case (Cons x xs)
    then show ?case by (cases xs) (auto simp: slice_ok_def is_char_boundary_le)
  qed simp
  obtain a b where part: "part = (a, b)" by fastforce
  have "(a, b) \<in> set (zip xs (tl xs @ [length c]))"
    using assms(2) by (simp add: part symbol_parts_def Let_def xs_def)
  with chain [OF s] show ?thesis by (simp add: part)
qed

lemma link_chunks_content [simp]: "map ch_content (link_chunks cs) = map ch_content cs"
  by (rule nth_equalityI) (simp_all add: link_chunks_def)

lemma link_chunks_cut: "cut_up c policy cs \<Longrightarrow> cut_up c policy (link_chunks cs)"
  unfolding cut_up_def link_chunks_content
  by (auto simp: list_all_length link_chunks_def chunk_ok_def)

section \<open>Properties\<close>

text \<open>
  C9. The chunking loop returns, and cuts the content well. For a string (whose characters take
  one to four bytes) and a target of at least four bytes the loop ends, and there is a list of
  windows that runs from the first to the last byte, each at character boundaries, not empty
  and no longer than the target, each next one starting inside or right after the one before
  and overlapping it by at most the overlap and three bytes of rounding; the chunks are the
  trimmed texts of these windows, in order, those left empty dropped, and each is the text of
  the content at its own range.
\<close>

theorem bounded_ranges_tile_the_content:
  assumes "wf_utf8 content" "4 \<le> target_bytes policy"
  shows "\<exists>ws out. bounded_ranges env content policy strategy = Some out
    \<and> tiled content (target_bytes policy) (min (overlap_bytes policy) (target_bytes policy - 1)) 0 ws
    \<and> map ch_content out = filter (\<lambda>t. t \<noteq> []) (map (\<lambda>(a, b). trim (slice content a b)) ws)
    \<and> list_all (chunk_ok content (target_bytes policy)) out"
  using bounded_ranges_returns [OF wf_utf8_narrow [OF assms(1)] assms(2), of env strategy] emit_ok emit_content
  by blast

lemma wf_utf8_abc: "wf_utf8 ''abc''"
  by (simp add: wf_utf8_def text_eval)

theorem bounded_ranges_tile_the_content_witness:
  "\<exists>ws. tiled ''abc'' 1600 200 0 ws"
proof -
  have "4 \<le> target_bytes default_chunking"
    by (simp add: default_chunking_def DEFAULT_TARGET_BYTES_def)
  from bounded_ranges_tile_the_content [OF wf_utf8_abc this] show ?thesis
    by (auto simp: default_chunking_def DEFAULT_TARGET_BYTES_def DEFAULT_OVERLAP_BYTES_def)
qed

lemma code_chunks_cut:
  assumes "narrow (doc_content d)" "4 \<le> target_bytes policy"
  shows "case code_chunks env d policy of
      None \<Rightarrow> \<exists>symbols. ck_symbols env d = Some symbols \<and> \<not> list_all (is_char_boundary (doc_content d)) symbols
    | Some out \<Rightarrow> cut_up (doc_content d) policy out"
proof (cases "case ck_symbols env d of None \<Rightarrow> True | Some symbols \<Rightarrow> symbols = []")
  case True
  then have "code_chunks env d policy = generic_chunks env (doc_content d) policy"
    by (simp add: code_chunks_def split: option.splits)
  then show ?thesis using whole_cut [OF assms, of env Generic] by (auto simp: generic_chunks_def)
next
  case False
  then obtain symbols where symbols: "ck_symbols env d = Some symbols" "symbols \<noteq> []"
    by (auto split: option.splits)
  let ?c = "doc_content d" and ?parts = "symbol_parts symbols (length (doc_content d))"
  let ?f = "\<lambda>part. if slice_ok ?c (fst part) (snd part)
     then part_chunks env ?c policy CodeSymbol (\<lambda>start e.
       ''code:'' @ doc_source_id d @ '':'' @ decimal start @ '':'' @ decimal e) part else None"
  have code: "code_chunks env d policy = flat_map_opt ?f ?parts"
    using symbols by (simp add: code_chunks_def)
  show ?thesis
  proof (cases "list_all (is_char_boundary ?c) symbols")
    case True
    then have all: "\<forall>s\<in>set symbols. is_char_boundary ?c s" by (simp add: list_all_iff)
    then have "concat (map (\<lambda>(a, b). slice ?c a b) ?parts) = ?c"
      by (intro symbol_parts_cover symbols) (auto intro: is_char_boundary_le)
    then have "\<exists>ys. flat_map_opt ?f ?parts = Some ys \<and> cut_up ?c policy ys"
      by (rule parts_cut [OF assms]) (simp only: symbol_parts_ok [OF all] if_True)
    with code show ?thesis by auto
  next
    case False
    then obtain s where "s \<in> set symbols" "\<not> is_char_boundary ?c s" by (auto simp: list_all_iff)
    moreover from symbol_parts_starts [OF this(1)] obtain b where "(s, b) \<in> set ?parts" by fastforce
    ultimately have "flat_map_opt ?f ?parts = None"
      by (intro flat_map_opt_None [of "(s, b)"]) (simp_all add: slice_ok_def)
    with code symbols(1) False show ?thesis by auto
  qed
qed

text \<open>
  C10. Every document is cut completely. Chunking a document whose content is a string, with a target
  of at least four bytes, fails only for code whose parser answers an offset that is no character
  boundary of the content (a panic). Otherwise there are parts that put together are the content,
  each part is run through by windows as in \<open>bounded_ranges_tile_the_content\<close>, and the texts of the
  chunks, in order, are the trimmed texts of all these windows, those left empty dropped: no text is
  lost between sections. Each chunk stands at its range in the document, chunk number i has ordinal i
  and links to the keys of its neighbours.
\<close>

theorem chunk_document_spec:
  assumes "wf_utf8 (doc_content d)" "4 \<le> target_bytes policy"
  shows "case chunk_document_with_policy env d policy of
      None \<Rightarrow> strategy_for d = CodeSymbol
        \<and> (\<exists>symbols. ck_symbols env d = Some symbols \<and> \<not> list_all (is_char_boundary (doc_content d)) symbols)
    | Some out \<Rightarrow> list_all (chunk_ok (doc_content d) (target_bytes policy)) out
        \<and> (\<exists>parts texts. concat (map (\<lambda>(a, b). slice (doc_content d) a b) parts) = doc_content d
             \<and> list_all2 (\<lambda>(a, b) ts. tiles (slice (doc_content d) a b) policy ts) parts texts
             \<and> map ch_content out = concat texts)
        \<and> (\<forall>i<length out. ch_ordinal (out ! i) = i
             \<and> ch_previous (out ! i) = (if i = 0 then None else Some (ch_key (out ! (i - 1))))
             \<and> ch_next (out ! i) = (if i + 1 < length out then Some (ch_key (out ! (i + 1))) else None))"
proof -
  let ?c = "doc_content d" and ?ok = "\<lambda>r. \<exists>cs. r = Some cs \<and> cut_up (doc_content d) policy cs"
  note n = wf_utf8_narrow [OF assms(1)]
  have b: "?ok (bounded_ranges env ?c policy strategy)" for strategy
    using whole_cut [OF n assms(2)] by blast
  have f: "?ok (flat_map_opt (part_chunks env ?c policy strategy parent) (split_sections opens ?c))" for strategy parent opens
    by (rule parts_cut [OF n assms(2) split_sections_cover refl])
  have link: "\<forall>i<length (link_chunks cs). ch_ordinal (link_chunks cs ! i) = i
        \<and> ch_previous (link_chunks cs ! i) = (if i = 0 then None else Some (ch_key (link_chunks cs ! (i - 1))))
        \<and> ch_next (link_chunks cs ! i) =
            (if i + 1 < length (link_chunks cs) then Some (ch_key (link_chunks cs ! (i + 1))) else None)" for cs
    by (auto simp: link_chunks_def)
  show ?thesis
  proof (cases "strategy_for d = CodeSymbol")
    case True
    then have "chunk_document_with_policy env d policy = map_option link_chunks (code_chunks env d policy)"
      by (simp add: chunk_document_with_policy_def)
    with True code_chunks_cut [OF n assms(2), of env] link_chunks_cut [of ?c policy] link show ?thesis
      by (cases "code_chunks env d policy") (simp_all add: cut_up_def)
  next
    case False
    have "?ok (section_chunks env ?c strategy policy h)" "?ok (message_chunks env ?c policy)"
      "?ok (structured_chunks env ?c strategy policy)" "?ok (generic_chunks env ?c policy)" for strategy h
      using b f by (simp_all add: section_chunks_def message_chunks_def structured_chunks_def generic_chunks_def Let_def)
    with False obtain cs where "chunk_document_with_policy env d policy = Some (link_chunks cs)" "cut_up ?c policy cs"
      unfolding chunk_document_with_policy_def Let_def
      by (cases "strategy_for d") (simp_all, (metis option.simps(9))+)
    then show ?thesis using link_chunks_cut link by (simp add: cut_up_def)
  qed
qed


definition ex_markdown :: "string \<Rightarrow> doc" where
  "ex_markdown content = \<lparr>doc_source = ''drive'', doc_source_id = ''d'', doc_content = content,
     doc_metadata = JObject [(''mime_type'', JString ''text/markdown'')]\<rparr>"

definition ex_chunk_env :: chunk_env where
  "ex_chunk_env = \<lparr>ck_hash = (\<lambda>s. s), ck_symbols = (\<lambda>_. None)\<rparr>"

theorem chunk_document_spec_witness:
  "case chunk_document_with_policy ex_chunk_env (ex_markdown ''abc'') default_chunking of
     None \<Rightarrow> False | Some out \<Rightarrow> list_all (chunk_ok ''abc'' 1600) out"
proof -
  have d: "doc_content (ex_markdown ''abc'') = ''abc''" by (simp add: ex_markdown_def)
  have t: "4 \<le> target_bytes default_chunking" "target_bytes default_chunking = 1600"
    by (simp_all add: default_chunking_def DEFAULT_TARGET_BYTES_def)
  from chunk_document_spec [of "ex_markdown ''abc''" default_chunking ex_chunk_env] show ?thesis
    unfolding d t(2) using wf_utf8_abc t(1) by (auto simp: ex_chunk_env_def split: option.splits)
qed

text \<open>
  Equal sections get equal keys. The key of a chunk is computed from offsets inside its
  section, before they are shifted to the document, so whatever the hash function, a document
  with the same section twice yields two chunks at different places with one key; the store
  uses the key, after the document's id, as primary key of the chunk.
\<close>

lemma bounded_ranges_short:
  assumes "c \<noteq> []" "length c \<le> target_bytes policy"
  shows "bounded_ranges env c policy strategy =
    Some (if trim c \<noteq> [] then [make_chunk env c strategy 0 (length c) 0] else [])"
proof -
  have "range_end c (max (target_bytes policy) 1) 0 = length c"
    using assms floor_boundary_id [of c "length c"]
    by (simp add: range_end_def Let_def char_boundary_at_or_before_def next_char_boundary_id min_absorb2 max_def)
  then show ?thesis
    using assms(1) by (simp add: bounded_ranges_def Let_def ranges_loop.simps)
qed

definition ex_section :: string where
  "ex_section = ''#a'' @ [newline]"

lemma ex_sections: "split_sections is_markdown_heading (ex_section @ ex_section) = [(0, 3), (3, 6)]"
  by (simp add: ex_section_def split_sections_def newline_def is_markdown_heading_def text_eval char_eval)

lemma ex_slices: "slice (ex_section @ ex_section) 0 3 = ex_section" "slice (ex_section @ ex_section) 3 6 = ex_section"
  by (simp_all add: slice_def ex_section_def)

lemma ex_section_trim: "trim ex_section = ''#a''"
  by (simp add: ex_section_def newline_def text_eval char_eval)

theorem repeated_sections_share_keys:
  "\<exists>k1 k2. chunk_document env (ex_markdown (ex_section @ ex_section)) = Some [k1, k2]
     \<and> ch_key k1 = ch_key k2 \<and> ch_start k1 = 0 \<and> ch_start k2 = 3
     \<and> ch_content k1 = ''#a'' \<and> ch_content k2 = ''#a''"
proof -
  let ?c = "ex_section @ ex_section"
  let ?k = "make_chunk env ex_section MarkdownSection 0 3 0"
  have strategy: "strategy_for (ex_markdown ?c) = MarkdownSection"
    by (simp add: strategy_for_def ex_markdown_def json_get_def has_key_def as_str_def Let_def text_eval char_eval)
  have len: "length ex_section = 3" "ex_section \<noteq> []" by (simp_all add: ex_section_def)
  then have b: "bounded_ranges env ex_section default_chunking MarkdownSection = Some [?k]"
    by (simp add: bounded_ranges_short ex_section_trim default_chunking_def DEFAULT_TARGET_BYTES_def)
  obtain p1 p2 where "section_chunks env ?c MarkdownSection default_chunking is_markdown_heading
      = Some [shift_chunk 0 p1 ?k, shift_chunk 3 p2 ?k]"
    by (simp add: section_chunks_def Let_def ex_sections part_chunks_def ex_slices b)
  moreover have "doc_content (ex_markdown ?c) = ?c" by (simp add: ex_markdown_def)
  ultimately have out: "chunk_document env (ex_markdown ?c) = Some (link_chunks [shift_chunk 0 p1 ?k, shift_chunk 3 p2 ?k])"
    by (simp add: chunk_document_def chunk_document_with_policy_def Let_def strategy)
  have "slice ex_section 0 3 = ex_section" by (simp add: slice_def ex_section_def)
  then have "ch_start ?k = 0" "ch_content ?k = ''#a''"
    by (simp_all add: make_chunk_def Let_def ex_section_trim) (simp add: ex_section_def)
  with out show ?thesis by (simp add: link_chunks_def shift_chunk_def)
qed

text \<open>
  The loop does not return for every policy. With a target smaller than a character of the
  content and no overlap the range that starts before it is empty and the next one starts at the
  same place: chunking a three-byte character with a target of one byte never returns.
\<close>

definition ex_wide :: string where
  "ex_wide = map char_of [230::nat, 151, 165]"

definition stuck_at :: "string \<Rightarrow> nat \<Rightarrow> nat \<Rightarrow> nat \<Rightarrow> bool" where
  "stuck_at c target overlap s \<longleftrightarrow> s < length c \<and> range_end c target s \<noteq> length c
     \<and> range_next c overlap s (range_end c target s) = s"

lemma returns_not_stuck:
  assumes "ranges_loop env c target overlap strategy s out = Some y"
  shows "\<not> stuck_at c target overlap s"
  using _ assms
proof (rule ranges_loop.raw_induct [where P = "\<lambda>env c target overlap strategy s out y. \<not> stuck_at c target overlap s"])
  fix f env c target overlap strategy s out y
  assume IH: "\<And>env c target overlap strategy s out y. f env c target overlap strategy s out = Some y
      \<Longrightarrow> \<not> stuck_at c target overlap s"
    and body: "(if \<not> s < length c then Some out
      else let e = range_end c target s;
               out' = (if trim (slice c s e) \<noteq> []
                       then out @ [make_chunk env c strategy s e (length out)] else out)
           in if e = length c then Some out'
              else f env c target overlap strategy (range_next c overlap s e) out') = Some y"
  show "\<not> stuck_at c target overlap s"
  proof
    assume stuck: "stuck_at c target overlap s"
    with body obtain out' where "f env c target overlap strategy s out' = Some y"
      by (auto simp: stuck_at_def Let_def)
    from IH [OF this] stuck show False by blast
  qed
qed

lemma stuck_loop: "stuck_at c target overlap s \<Longrightarrow> ranges_loop env c target overlap strategy s out = None"
  using returns_not_stuck [of env c target overlap strategy s out]
  by (cases "ranges_loop env c target overlap strategy s out") auto

theorem small_target_never_returns:
  "wf_utf8 ex_wide \<and> bounded_ranges env ex_wide \<lparr>target_bytes = 1, overlap_bytes = 0\<rparr> Generic = None
   \<and> chunk_document_with_policy env (ex_markdown ex_wide) \<lparr>target_bytes = 1, overlap_bytes = 0\<rparr> = None"
proof -
  have wf: "wf_utf8 ex_wide" by (simp add: wf_utf8_def ex_wide_def text_eval char_eval)
  have len: "length ex_wide = 3" by (simp add: ex_wide_def)
  have nb: "\<not> is_char_boundary ex_wide 1"
    by (simp add: is_char_boundary_def ex_wide_def text_eval char_eval)
  then have f: "char_boundary_at_or_before ex_wide 1 = 0"
    by (simp add: char_boundary_at_or_before_def len)
  have "range_end ex_wide 1 0 = 0"
    using nb by (simp add: range_end_def f Let_def next_char_boundary_id len slice_def
        char_boundary_at_or_before_def [of _ "Suc 0"] char_boundary_at_or_before_def)
  moreover have "range_next ex_wide 0 0 0 = 0"
    by (simp add: range_next_def Let_def char_boundary_at_or_before_def next_char_boundary_id)
  ultimately have none: "bounded_ranges env ex_wide \<lparr>target_bytes = 1, overlap_bytes = 0\<rparr> s = None" for s
    by (simp add: bounded_ranges_def stuck_at_def stuck_loop len)
  have "split_sections is_markdown_heading ex_wide = [(0, 3)]"
    by (simp add: split_sections_def ex_wide_def newline_def is_markdown_heading_def text_eval char_eval)
  moreover have "slice ex_wide 0 3 = ex_wide" by (simp add: slice_def len)
  moreover have "strategy_for (ex_markdown ex_wide) = MarkdownSection"
    by (simp add: strategy_for_def ex_markdown_def json_get_def has_key_def as_str_def Let_def text_eval char_eval)
  ultimately show ?thesis
    using wf none
    by (simp add: chunk_document_with_policy_def section_chunks_def part_chunks_def Let_def ex_markdown_def)
qed

end
