(* ===== verification/ContextBundle.thy ===== *)
theory ContextBundle
  imports Memory
begin

text \<open>
  Context bundles, \<open>crates/core/src/context.rs\<close> with the metadata of \<open>contracts.rs\<close>: the
  assembly of a bounded prompt context from a query, agent memories and evidence, its metrics,
  and the digest that identifies it. The clock, chrono's renderer, the printing of two decimals,
  the rounding of single-precision quotients and the digests of serialised values are parameters.
\<close>

section \<open>Data\<close>

definition CHARS_PER_TOKEN :: nat where "CHARS_PER_TOKEN = 4"
definition MIN_CONTEXT_TOKENS :: nat where "MIN_CONTEXT_TOKENS = 256"
definition MAX_CONTEXT_TOKENS :: nat where "MAX_CONTEXT_TOKENS = 64000"
definition CONTEXT_CONTRACT_VERSION :: string where "CONTEXT_CONTRACT_VERSION = ''cortana.context.v1''"
definition RETRIEVAL_CONTRACT_VERSION :: string where "RETRIEVAL_CONTRACT_VERSION = ''cortana.retrieval.v2''"

record evidence =
  ev_chunk_id :: string
  ev_source :: string
  ev_source_id :: string
  ev_title :: string
  ev_uri :: "string option"
  ev_content :: string
  ev_score :: float_val
  ev_semantic_rank :: "nat option"
  ev_lexical_rank :: "nat option"
  ev_updated_at :: int
  ev_metadata :: json

record memory_result =
  ms_memory :: memory_record
  ms_lexical_score :: float_val
  ms_relevance_score :: float_val

record degradation =
  dg_code :: string
  dg_detail :: "string option"

record context_metadata =
  cm_contract_version :: string
  cm_created_at :: string
  cm_token_budget :: nat
  cm_corpus_revision :: nat
  cm_memory_revision :: "nat option"
  cm_fingerprint :: "string option"
  cm_retrieval_version :: string
  cm_scope_digest :: string
  cm_degradation :: "degradation option"

record context_metrics =
  mx_retrieved :: nat
  mx_included :: nat
  mx_omitted :: nat
  mx_memories_retrieved :: nat
  mx_memories_included :: nat
  mx_memories_omitted :: nat
  mx_estimated_tokens :: nat
  mx_max_tokens :: nat
  mx_source_tokens :: nat
  mx_reduced_tokens :: nat
  mx_reduction_ratio :: rat

record context_bundle =
  cb_contract_version :: string
  cb_bundle_id :: string
  cb_canonical_digest :: string
  cb_created_at :: string
  cb_token_budget :: nat
  cb_query :: string
  cb_context :: string
  cb_evidence :: "evidence list"
  cb_memories :: "memory_result list"
  cb_metrics :: context_metrics
  cb_retrieval_mode :: string
  cb_degradation :: "degradation option"
  cb_retrieval_warning :: "string option"
  cb_corpus_revision :: nat
  cb_memory_revision :: "nat option"
  cb_fingerprint :: "string option"
  cb_retrieval_version :: string
  cb_scope_digest :: string

text \<open>What the digest covers: everything but the identity, the digest and the creation time.\<close>

record canonical_bundle =
  kb_contract_version :: string
  kb_token_budget :: nat
  kb_query :: string
  kb_context :: string
  kb_evidence :: "evidence list"
  kb_memories :: "memory_result list"
  kb_metrics :: context_metrics
  kb_retrieval_mode :: string
  kb_degradation :: "degradation option"
  kb_corpus_revision :: nat
  kb_memory_revision :: "nat option"
  kb_fingerprint :: "string option"
  kb_retrieval_version :: string
  kb_scope_digest :: string

record context_env =
  cx_now :: string
  cx_rfc3339 :: "int \<Rightarrow> string"
  cx_two_decimals :: "float_val \<Rightarrow> string"
  cx_round32 :: "rat \<Rightarrow> rat"
  cx_json_digest :: "json \<Rightarrow> string"
  cx_bundle_digest :: "canonical_bundle \<Rightarrow> string"

record metadata_input =
  mi_token_budget :: nat
  mi_corpus_revision :: nat
  mi_memory_revision :: "nat option"
  mi_fingerprint :: "string option"
  mi_project :: "string option"
  mi_source :: "string option"
  mi_acl :: "string list"
  mi_warning :: "string option"

section \<open>Scope, metadata and digest\<close>

definition json_option :: "string option \<Rightarrow> json" where
  "json_option x = (case x of None \<Rightarrow> JNull | Some s \<Rightarrow> JString s)"

definition privacy_scope_digest :: "context_env \<Rightarrow> string option \<Rightarrow> string option \<Rightarrow> string list \<Rightarrow> string" where
  "privacy_scope_digest env project source acl = cx_json_digest env (JObject
     [(''acl'', JArray (map JString (sort_dedup acl))), (''project'', json_option project),
      (''source'', json_option source)])"

definition default_metadata :: "context_env \<Rightarrow> context_metadata" where
  "default_metadata env = \<lparr>cm_contract_version = CONTEXT_CONTRACT_VERSION,
     cm_created_at = ''1970-01-01T00:00:00.000Z'', cm_token_budget = 0, cm_corpus_revision = 0,
     cm_memory_revision = None, cm_fingerprint = None, cm_retrieval_version = RETRIEVAL_CONTRACT_VERSION,
     cm_scope_digest = privacy_scope_digest env None None [], cm_degradation = None\<rparr>"

definition degraded :: "string option \<Rightarrow> degradation option" where
  "degraded warning = map_option (\<lambda>d. \<lparr>dg_code = ''retrieval_degraded'', dg_detail = Some d\<rparr>) warning"

definition metadata_of :: "context_env \<Rightarrow> metadata_input \<Rightarrow> context_metadata" where
  "metadata_of env inp = \<lparr>cm_contract_version = CONTEXT_CONTRACT_VERSION, cm_created_at = cx_now env,
     cm_token_budget = clamp (mi_token_budget inp) MIN_CONTEXT_TOKENS MAX_CONTEXT_TOKENS,
     cm_corpus_revision = mi_corpus_revision inp, cm_memory_revision = mi_memory_revision inp,
     cm_fingerprint = mi_fingerprint inp, cm_retrieval_version = RETRIEVAL_CONTRACT_VERSION,
     cm_scope_digest = privacy_scope_digest env (mi_project inp) (mi_source inp) (mi_acl inp),
     cm_degradation = degraded (mi_warning inp)\<rparr>"

definition bundle_digest :: "context_env \<Rightarrow> context_bundle \<Rightarrow> string" where
  "bundle_digest env b = cx_bundle_digest env \<lparr>kb_contract_version = cb_contract_version b,
     kb_token_budget = cb_token_budget b, kb_query = cb_query b, kb_context = cb_context b,
     kb_evidence = cb_evidence b, kb_memories = cb_memories b, kb_metrics = cb_metrics b,
     kb_retrieval_mode = cb_retrieval_mode b, kb_degradation = cb_degradation b,
     kb_corpus_revision = cb_corpus_revision b, kb_memory_revision = cb_memory_revision b,
     kb_fingerprint = cb_fingerprint b, kb_retrieval_version = cb_retrieval_version b,
     kb_scope_digest = cb_scope_digest b\<rparr>"

definition with_metadata :: "context_env \<Rightarrow> context_metadata \<Rightarrow> context_bundle \<Rightarrow> context_bundle" where
  "with_metadata env md b =
     (let b1 = b\<lparr>cb_contract_version := cm_contract_version md, cb_created_at := cm_created_at md,
            cb_token_budget := cm_token_budget md, cb_corpus_revision := cm_corpus_revision md,
            cb_memory_revision := cm_memory_revision md, cb_fingerprint := cm_fingerprint md,
            cb_retrieval_version := cm_retrieval_version md, cb_scope_digest := cm_scope_digest md,
            cb_degradation := cm_degradation md\<rparr>;
          b2 = b1\<lparr>cb_canonical_digest := bundle_digest env b1\<rparr>
      in b2\<lparr>cb_bundle_id := ''ctx_'' @ cb_canonical_digest b2\<rparr>)"

section \<open>Texts\<close>

fun offsets :: "nat \<Rightarrow> string list \<Rightarrow> nat list" where
  "offsets n [] = []"
| "offsets n (g # gs) = n # offsets (n + length g) gs"

text \<open>\<open>"\n[\<dots>truncated]"\<close>; the ellipsis has three bytes.\<close>

definition truncated_marker :: string where
  "truncated_marker = newline # ''['' @ map char_of [226::nat, 128, 166] @ ''truncated]''"

definition truncate :: "string \<Rightarrow> nat \<Rightarrow> string" where
  "truncate value max_bytes = (if length value \<le> max_bytes then value
     else if max_bytes \<le> length truncated_marker then []
     else (let target = max_bytes - length truncated_marker;
               before = takeWhile (\<lambda>i. i \<le> target) (offsets 0 (utf8_chars value));
               keep = (if before = [] then 0 else last before)
           in slice value 0 keep @ truncated_marker))"

definition estimate_tokens :: "string \<Rightarrow> nat" where
  "estimate_tokens value = max ((length value + CHARS_PER_TOKEN - 1) div CHARS_PER_TOKEN) 1"

definition estimate_source_tokens :: "string \<Rightarrow> evidence list \<Rightarrow> memory_result list \<Rightarrow> nat" where
  "estimate_source_tokens query evs mems =
     sum_list (map (\<lambda>e. estimate_tokens (ev_content e)) evs)
     + sum_list (map (\<lambda>m. estimate_tokens (rec_content (ms_memory m))) mems) + estimate_tokens query"

text \<open>\<open>" \<cdot> "\<close>.\<close>

definition dot :: string where
  "dot = '' '' @ map char_of [194::nat, 183] @ '' ''"

definition evidence_prefix :: "context_env \<Rightarrow> nat \<Rightarrow> evidence \<Rightarrow> string" where
  "evidence_prefix env index e =
     (let location = (case ev_uri e of None \<Rightarrow> [] | Some uri \<Rightarrow> '' ('' @ uri @ '')'')
      in ''### ['' @ decimal index @ ''] '' @ ev_title e @ location @ [newline] @ ''Source: '' @ ev_source e
         @ dot @ ''Updated: '' @ cx_rfc3339 env (ev_updated_at e) @ [newline, newline])"

definition memory_prefix :: "context_env \<Rightarrow> nat \<Rightarrow> memory_result \<Rightarrow> string" where
  "memory_prefix env index item =
     (let m = ms_memory item;
          expiry = (case rec_valid_until m of None \<Rightarrow> [] | Some v \<Rightarrow> dot @ ''Expires: '' @ v)
      in ''### [memory '' @ decimal index @ ''] '' @ rec_title m @ '' ('' @ rec_kind m @ '')'' @ [newline]
         @ ''Project: '' @ rec_project m @ dot @ ''Source: '' @ rec_source m @ dot @ ''Observed: '' @ rec_observed_at m
         @ dot @ ''Confidence: '' @ cx_two_decimals env (rec_confidence m) @ dot @ ''Importance: ''
         @ cx_two_decimals env (rec_importance m) @ expiry @ [newline, newline])"

section \<open>Assembly\<close>

definition query_prefix :: string where
  "query_prefix = ''# Cortana evidence context'' @ [newline, newline] @ ''Query: ''"

definition instructions :: "bool \<Rightarrow> string" where
  "instructions has_memories = [newline, newline] @ (if has_memories
     then ''Use source evidence for factual claims and cite it with [n]. Treat agent memory as scoped operational context, not an external citation.''
     else ''Use only the evidence below for factual claims. Cite sources with [n].'')"

definition memory_heading :: string where
  "memory_heading = [newline, newline] @ ''## Agent memory'' @ [newline, newline]"

fun add_memories :: "context_env \<Rightarrow> nat \<Rightarrow> nat \<Rightarrow> nat \<Rightarrow> memory_result list
    \<Rightarrow> string \<times> memory_result list \<Rightarrow> string \<times> memory_result list" where
  "add_memories env max_chars memory_budget memory_start [] s = s"
| "add_memories env max_chars memory_budget memory_start (m # ms) (context, included) =
     (let prefix = memory_prefix env (length included + 1) m;
          reserved = length context + length prefix + 4;
          memory_used = length context - memory_start
      in if max_chars \<le> reserved \<or> memory_budget \<le> memory_used then (context, included)
         else (let available = min (max_chars - reserved) (memory_budget - memory_used);
                   content = truncate (rec_content (ms_memory m)) available
               in if content = [] then (context, included)
                  else add_memories env max_chars memory_budget memory_start ms
                         (context @ prefix @ content, included @ [m])))"

fun add_evidence :: "context_env \<Rightarrow> nat \<Rightarrow> evidence list \<Rightarrow> string \<times> evidence list \<Rightarrow> string \<times> evidence list" where
  "add_evidence env max_chars [] s = s"
| "add_evidence env max_chars (e # es) (context, included) =
     (let prefix = evidence_prefix env (length included + 1) e;
          reserved = length context + length prefix + 4
      in if max_chars \<le> reserved then (context, included)
         else (let content = truncate (ev_content e) (max_chars - reserved)
               in if content = [] then (context, included)
                  else add_evidence env max_chars es (context @ [newline, newline] @ prefix @ content,
                         included @ [e\<lparr>ev_content := content\<rparr>])))"

definition context_header :: "string \<Rightarrow> nat \<Rightarrow> bool \<Rightarrow> string" where
  "context_header query max_chars has_memories =
     (let query_budget = max_chars - (length query_prefix + length (instructions has_memories))
      in query_prefix @ truncate query query_budget @ instructions has_memories)"

definition assemble :: "context_env \<Rightarrow> string \<Rightarrow> evidence list \<Rightarrow> memory_result list \<Rightarrow> nat
    \<Rightarrow> string \<times> evidence list \<times> memory_result list" where
  "assemble env query evs mems max_chars =
     (let context = context_header query max_chars (mems \<noteq> []);
          (context1, included_memories) =
            (if mems = [] then (context, [])
             else add_memories env max_chars (max_chars div 3) (length context) mems (context @ memory_heading, []));
          (context2, included) = add_evidence env max_chars evs (context1, [])
      in (context2, included, included_memories))"

definition build_with_retrieval_and_memory :: "context_env \<Rightarrow> string \<Rightarrow> evidence list \<Rightarrow> memory_result list
    \<Rightarrow> nat \<Rightarrow> string \<Rightarrow> string option \<Rightarrow> context_bundle" where
  "build_with_retrieval_and_memory env query evs mems max_tokens0 mode warning =
     (let max_tokens = clamp max_tokens0 MIN_CONTEXT_TOKENS MAX_CONTEXT_TOKENS;
          source_tokens = estimate_source_tokens query evs mems;
          (context, included, included_memories) = assemble env query evs mems (max_tokens * CHARS_PER_TOKEN);
          estimated_tokens = estimate_tokens context;
          reduced_tokens = source_tokens - estimated_tokens;
          ratio = (if source_tokens = 0 then 0 else clamp (cx_round32 env
            (cx_round32 env (of_nat reduced_tokens) / cx_round32 env (of_nat source_tokens))) 0 1)
      in with_metadata env ((default_metadata env)\<lparr>cm_token_budget := max_tokens, cm_created_at := cx_now env,
             cm_degradation := degraded warning\<rparr>)
           \<lparr>cb_contract_version = [], cb_bundle_id = [], cb_canonical_digest = [], cb_created_at = [],
            cb_token_budget = max_tokens, cb_query = query, cb_context = context, cb_evidence = included,
            cb_memories = included_memories,
            cb_metrics = \<lparr>mx_retrieved = length evs, mx_included = length included,
              mx_omitted = length evs - length included, mx_memories_retrieved = length mems,
              mx_memories_included = length included_memories,
              mx_memories_omitted = length mems - length included_memories,
              mx_estimated_tokens = estimated_tokens, mx_max_tokens = max_tokens,
              mx_source_tokens = source_tokens, mx_reduced_tokens = reduced_tokens, mx_reduction_ratio = ratio\<rparr>,
            cb_retrieval_mode = mode, cb_degradation = None, cb_retrieval_warning = warning,
            cb_corpus_revision = 0, cb_memory_revision = None, cb_fingerprint = None,
            cb_retrieval_version = [], cb_scope_digest = []\<rparr>)"

definition build_with_retrieval :: "context_env \<Rightarrow> string \<Rightarrow> evidence list \<Rightarrow> nat \<Rightarrow> string \<Rightarrow> string option
    \<Rightarrow> context_bundle" where
  "build_with_retrieval env query evs max_tokens mode warning =
     build_with_retrieval_and_memory env query evs [] max_tokens mode warning"

definition build_context :: "context_env \<Rightarrow> string \<Rightarrow> evidence list \<Rightarrow> nat \<Rightarrow> context_bundle" where
  "build_context env query evs max_tokens = build_with_retrieval env query evs max_tokens ''hybrid'' None"


section \<open>Lengths\<close>

lemma truncate_le: "length (truncate v n) \<le> n"
proof (cases "length v \<le> n \<or> n \<le> length truncated_marker")
  case False
  let ?t = "n - length truncated_marker"
  let ?b = "takeWhile (\<lambda>i. i \<le> ?t) (offsets 0 (utf8_chars v))"
  define k where "k = (if ?b = [] then 0 else last ?b)"
  have "k \<le> ?t"
  proof (cases "?b = []")
    case False
    then have "last ?b \<in> set ?b" by simp
    then show ?thesis by (auto simp: k_def dest!: set_takeWhileD)
  qed (simp add: k_def)
  then have "length (slice v 0 k) \<le> ?t"
    using length_slice_le [of v 0 k] by simp
  moreover have "truncate v n = slice v 0 k @ truncated_marker"
    using False by (simp add: truncate_def k_def Let_def)
  ultimately show ?thesis using False by (simp only: length_append) linarith
qed (auto simp: truncate_def)

lemma add_memories_ok:
  "add_memories env n budget start ms (ctx, inc) = (ctx', inc') \<Longrightarrow>
     length ctx' \<le> max (length ctx) n \<and> (\<exists>k. inc' = inc @ take k ms)"
proof (induction ms arbitrary: ctx inc)
  case (Cons m ms)
  let ?p = "memory_prefix env (length inc + 1) m"
  let ?r = "length ctx + length ?p + 4"
  let ?c = "truncate (rec_content (ms_memory m)) (min (n - ?r) (budget - (length ctx - start)))"
  show ?case
  proof (cases "n \<le> ?r \<or> budget \<le> length ctx - start \<or> ?c = []")
    case True
    with Cons.prems show ?thesis by (auto simp: Let_def split: if_splits intro: exI [of _ 0])
  next
    case False
    then have "add_memories env n budget start ms (ctx @ ?p @ ?c, inc @ [m]) = (ctx', inc')"
      using Cons.prems by (simp add: Let_def)
    from Cons.IH [OF this] obtain k where k: "length ctx' \<le> max (length (ctx @ ?p @ ?c)) n"
      "inc' = (inc @ [m]) @ take k ms" by blast
    have "length ?c \<le> n - ?r" using truncate_le [of "rec_content (ms_memory m)"] by (meson le_trans min.cobounded1)
    then have "length ctx + (length ?p + length ?c) \<le> n" using False by linarith
    then have "length (ctx @ ?p @ ?c) \<le> n" by simp
    with k show ?thesis by (auto intro: exI [of _ "Suc k"])
  qed
qed (auto intro: exI [of _ 0])

text \<open>An item of evidence with its content shortened.\<close>

definition shortened :: "evidence \<Rightarrow> evidence \<Rightarrow> bool" where
  "shortened e f \<longleftrightarrow> (\<exists>n. f = e\<lparr>ev_content := truncate (ev_content e) n\<rparr>) \<and> ev_content f \<noteq> []"

lemma add_evidence_ok:
  "add_evidence env n es (ctx, inc) = (ctx', inc') \<Longrightarrow>
     length ctx' \<le> max (length ctx) n \<and> (\<exists>k fs. inc' = inc @ fs \<and> list_all2 shortened (take k es) fs)"
proof (induction es arbitrary: ctx inc)
  case (Cons e es)
  let ?p = "evidence_prefix env (length inc + 1) e"
  let ?r = "length ctx + length ?p + 4"
  let ?c = "truncate (ev_content e) (n - ?r)"
  show ?case
  proof (cases "n \<le> ?r \<or> ?c = []")
    case True
    with Cons.prems show ?thesis by (auto simp: Let_def split: if_splits intro: exI [of _ 0])
  next
    case False
    then have "add_evidence env n es (ctx @ [newline, newline] @ ?p @ ?c, inc @ [e\<lparr>ev_content := ?c\<rparr>]) = (ctx', inc')"
      using Cons.prems by (simp add: Let_def)
    from Cons.IH [OF this] obtain k fs where k: "length ctx' \<le> max (length (ctx @ [newline, newline] @ ?p @ ?c)) n"
      "inc' = (inc @ [e\<lparr>ev_content := ?c\<rparr>]) @ fs" "list_all2 shortened (take k es) fs" by blast
    have "length ?c \<le> n - ?r" by (rule truncate_le)
    then have "length ctx + (2 + (length ?p + length ?c)) \<le> n" using False by linarith
    then have "length (ctx @ [newline, newline] @ ?p @ ?c) \<le> n" by simp
    moreover have "shortened e (e\<lparr>ev_content := ?c\<rparr>)" using False by (auto simp: shortened_def)
    ultimately show ?thesis
      using k by (auto intro!: exI [of _ "Suc k"] exI [of _ "e\<lparr>ev_content := ?c\<rparr> # fs"])
  qed
qed (auto intro: exI [of _ 0])

lemma header_lengths: "length query_prefix = 35" "length (instructions b) \<le> 150" "length memory_heading = 19"
  by (simp_all add: query_prefix_def instructions_def memory_heading_def)

lemma context_header_le: "186 \<le> n \<Longrightarrow> length (context_header q n b) \<le> n"
  using truncate_le [of q "n - (length query_prefix + length (instructions b))"] header_lengths(1) header_lengths(2) [of b]
  by (simp add: context_header_def Let_def)

lemma assemble_ok:
  assumes "186 \<le> n" "assemble env q evs mems n = (ctx, inc, incm)"
  shows "length ctx \<le> n + (if mems = [] then 0 else 19) \<and> (\<exists>k. incm = take k mems)
    \<and> (\<exists>k. list_all2 shortened (take k evs) inc)"
proof -
  let ?h = "context_header q n (mems \<noteq> [])"
  obtain ctx1 where m: "(if mems = [] then (?h, [])
      else add_memories env n (n div 3) (length ?h) mems (?h @ memory_heading, [])) = (ctx1, incm)"
    and e: "add_evidence env n evs (ctx1, []) = (ctx, inc)"
    using assms(2) by (auto simp: assemble_def Let_def split: prod.splits)
  have h: "length ?h \<le> n" using assms(1) by (rule context_header_le)
  have 1: "length ctx1 \<le> n + (if mems = [] then 0 else 19) \<and> (\<exists>k. incm = take k mems)"
  proof (cases "mems = []")
    case True
    with m h show ?thesis by auto
  next
    case False
    with m have "add_memories env n (n div 3) (length ?h) mems (?h @ memory_heading, []) = (ctx1, incm)" by simp
    from add_memories_ok [OF this] h False header_lengths(3) show ?thesis by auto
  qed
  from add_evidence_ok [OF e] 1 show ?thesis by auto
qed

lemma build_fields:
  fixes mode :: string and warning :: "string option"
  assumes "assemble env query evs mems (clamp tokens MIN_CONTEXT_TOKENS MAX_CONTEXT_TOKENS * CHARS_PER_TOKEN)
      = (ctx, inc, incm)"
  defines "b \<equiv> build_with_retrieval_and_memory env query evs mems tokens mode warning"
  shows "cb_token_budget b = clamp tokens MIN_CONTEXT_TOKENS MAX_CONTEXT_TOKENS" "cb_context b = ctx"
    "cb_evidence b = inc" "cb_memories b = incm"
    "mx_max_tokens (cb_metrics b) = clamp tokens MIN_CONTEXT_TOKENS MAX_CONTEXT_TOKENS"
    "mx_estimated_tokens (cb_metrics b) = estimate_tokens ctx"
    "mx_included (cb_metrics b) = length inc" "mx_omitted (cb_metrics b) = length evs - length inc"
    "mx_memories_included (cb_metrics b) = length incm"
    "mx_memories_omitted (cb_metrics b) = length mems - length incm"
    "\<exists>r. mx_reduction_ratio (cb_metrics b) = clamp r 0 1"
proof -
  have zero: "(0::rat) = clamp 0 0 1" by (simp add: clamp_def)
  show "\<exists>r. mx_reduction_ratio (cb_metrics b) = clamp r 0 1"
    unfolding b_def build_with_retrieval_and_memory_def Let_def assms(1)
    by (simp add: with_metadata_def Let_def) (metis zero)
qed (simp_all add: b_def build_with_retrieval_and_memory_def Let_def assms(1) with_metadata_def)

lemma budget_bounds:
  "256 \<le> clamp tokens MIN_CONTEXT_TOKENS MAX_CONTEXT_TOKENS" "clamp tokens MIN_CONTEXT_TOKENS MAX_CONTEXT_TOKENS \<le> 64000"
  using clamp_bounds [of MIN_CONTEXT_TOKENS MAX_CONTEXT_TOKENS tokens]
  by (simp_all add: MIN_CONTEXT_TOKENS_def MAX_CONTEXT_TOKENS_def)

lemma assembled_length:
  assumes "assemble env query evs mems (clamp tokens MIN_CONTEXT_TOKENS MAX_CONTEXT_TOKENS * CHARS_PER_TOKEN) = (ctx, inc, incm)"
  shows "length ctx \<le> 4 * clamp tokens MIN_CONTEXT_TOKENS MAX_CONTEXT_TOKENS + (if mems = [] then 0 else 19)"
    "estimate_tokens ctx \<le> clamp tokens MIN_CONTEXT_TOKENS MAX_CONTEXT_TOKENS + (if mems = [] then 0 else 5)"
proof -
  let ?t = "clamp tokens MIN_CONTEXT_TOKENS MAX_CONTEXT_TOKENS"
  have "186 \<le> ?t * CHARS_PER_TOKEN" using budget_bounds(1) [of tokens] by (simp add: CHARS_PER_TOKEN_def)
  from assemble_ok [OF this assms]
  show ctx: "length ctx \<le> 4 * ?t + (if mems = [] then 0 else 19)"
    by (simp add: CHARS_PER_TOKEN_def mult.commute)
  show "estimate_tokens ctx \<le> ?t + (if mems = [] then 0 else 5)"
    using ctx budget_bounds(1) [of tokens] by (cases "mems = []") (simp_all add: estimate_tokens_def CHARS_PER_TOKEN_def)
qed

lemma built_estimate:
  "mems = [] \<longrightarrow> mx_estimated_tokens (cb_metrics (build_with_retrieval_and_memory env query evs mems tokens mode warning))
     \<le> clamp tokens MIN_CONTEXT_TOKENS MAX_CONTEXT_TOKENS"
proof -
  obtain ctx inc incm where a: "assemble env query evs mems
      (clamp tokens MIN_CONTEXT_TOKENS MAX_CONTEXT_TOKENS * CHARS_PER_TOKEN) = (ctx, inc, incm)"
    by (cases "assemble env query evs mems (clamp tokens MIN_CONTEXT_TOKENS MAX_CONTEXT_TOKENS * CHARS_PER_TOKEN)")
  show ?thesis unfolding build_fields(6) [OF a] using assembled_length(2) [OF a] by (cases "mems = []") simp_all
qed

section \<open>Properties\<close>

text \<open>
  C14. A context fits its budget. The budget lies between 256 and 64000 tokens; the context has at
  most four bytes per token of it, and 19 more when there are memories; without memories the
  estimate of its tokens is within the budget. The memories included are the first of those
  given, the evidence included the first of that given with contents at most shortened and
  never empty, the metrics count what was left out, and the reduction ratio is between 0 and 1.
\<close>

theorem context_within_budget:
  "let b = build_with_retrieval_and_memory env query evs mems tokens mode warning; mx = cb_metrics b in
     256 \<le> cb_token_budget b \<and> cb_token_budget b \<le> 64000 \<and> mx_max_tokens mx = cb_token_budget b
   \<and> length (cb_context b) \<le> 4 * cb_token_budget b + (if mems = [] then 0 else 19)
   \<and> mx_estimated_tokens mx \<le> cb_token_budget b + (if mems = [] then 0 else 5)
   \<and> (\<exists>k. cb_memories b = take k mems) \<and> (\<exists>k. list_all2 shortened (take k evs) (cb_evidence b))
   \<and> mx_included mx + mx_omitted mx = length evs \<and> mx_memories_included mx + mx_memories_omitted mx = length mems
   \<and> 0 \<le> mx_reduction_ratio mx \<and> mx_reduction_ratio mx \<le> 1"
proof -
  define t where "t = clamp tokens MIN_CONTEXT_TOKENS MAX_CONTEXT_TOKENS"
  have t: "256 \<le> t" "t \<le> 64000" unfolding t_def by (rule budget_bounds)+
  obtain ctx inc incm where a: "assemble env query evs mems (t * CHARS_PER_TOKEN) = (ctx, inc, incm)"
    by (cases "assemble env query evs mems (t * CHARS_PER_TOKEN)")
  have "186 \<le> t * CHARS_PER_TOKEN" using t by (simp add: CHARS_PER_TOKEN_def)
  from assemble_ok [OF this a] obtain k l where ok: "incm = take k mems" "list_all2 shortened (take l evs) inc"
    by auto
  have "length inc \<le> length evs" using list_all2_lengthD [OF ok(2)] by simp
  moreover have "length incm \<le> length mems" using ok(1) by simp
  moreover have "0 \<le> clamp r 0 1 \<and> clamp r 0 1 \<le> 1" for r :: rat by (rule clamp_bounds) simp
  ultimately show ?thesis
    unfolding Let_def build_fields(1-10) [OF a [unfolded t_def]] t_def [symmetric]
    using t ok assembled_length [OF a [unfolded t_def]] build_fields(11) [OF a [unfolded t_def], of mode warning]
    by (auto simp: t_def)
qed

text \<open>
  With memories the budget is overrun. The heading of the memory section is added without
  looking at the budget, so a long query, any memory and the smallest budget give a context of
  1043 bytes for a limit of 1024, estimated at 261 tokens for a budget of 256, in which there is
  no memory and no evidence.
\<close>

definition ex_query :: string where
  "ex_query = replicate 1024 (CHR ''a'')"

lemma utf8_chars_plain: "list_all (\<lambda>c. \<not> is_cont c) s \<Longrightarrow> utf8_chars s = map (\<lambda>c. [c]) s"
proof (induction s)
  case (Cons c s)
  then have "takeWhile is_cont s = []" "dropWhile is_cont s = s" by (cases s; simp)+
  with Cons show ?case by simp
qed simp

lemma offsets_plain: "offsets n (map (\<lambda>c. [c]) s) = [n..<n + length s]"
proof (induction s arbitrary: n)
  case (Cons c s)
  then show ?case using upt_conv_Cons [of n "n + length (c # s)"] by simp
qed simp

lemma takeWhile_upt: "t < n \<Longrightarrow> takeWhile (\<lambda>i. i \<le> t) [0..<n] = [0..<Suc t]"
proof -
  assume "t < n"
  then have "[0..<n] = [0..<Suc t] @ [Suc t..<n]"
    by (metis Suc_leI le0 upt_add_eq_append le_add_diff_inverse)
  moreover have "takeWhile (\<lambda>i. i \<le> t) [Suc t..<n] = []"
    by (cases "Suc t < n") (simp_all add: upt_conv_Cons)
  ultimately show ?thesis by (simp only: takeWhile_append) simp
qed

lemma truncated_marker_length: "length truncated_marker = 15"
  by (simp add: truncated_marker_def)

lemma truncate_plain:
  assumes "list_all (\<lambda>c. \<not> is_cont c) s" "length truncated_marker < n" "n < length s"
  shows "length (truncate s n) = n"
proof -
  let ?t = "n - length truncated_marker"
  have "takeWhile (\<lambda>i. i \<le> ?t) (offsets 0 (utf8_chars s)) = [0..<Suc ?t]"
    using assms by (simp add: utf8_chars_plain offsets_plain takeWhile_upt)
  then have "truncate s n = slice s 0 ?t @ truncated_marker"
    using assms by (simp add: truncate_def Let_def)
  then show ?thesis using assms by (simp add: length_slice)
qed

theorem memory_heading_overruns_budget:
  "let b = build_with_retrieval_and_memory env ex_query evs (m # ms) 256 mode warning in
     length (cb_context b) = 1043 \<and> mx_max_tokens (cb_metrics b) = 256
   \<and> mx_estimated_tokens (cb_metrics b) = 261 \<and> cb_memories b = [] \<and> cb_evidence b = []"
proof -
  let ?h = "context_header ex_query 1024 True"
  have i: "length (instructions True) \<le> 150" by (rule header_lengths)
  have "length (truncate ex_query (1024 - (length query_prefix + length (instructions True))))
      = 1024 - (length query_prefix + length (instructions True))"
    using i header_lengths(1)
    by (intro truncate_plain) (simp_all add: ex_query_def truncated_marker_def list_all_length is_cont_def byte_def)
  then have h: "length ?h = 1024"
    using i header_lengths(1) by (simp add: context_header_def Let_def)
  have "add_memories env 1024 341 1024 (m # ms) (?h @ memory_heading, []) = (?h @ memory_heading, [])"
    using h header_lengths(3) by (simp add: Let_def)
  moreover have "add_evidence env 1024 evs (?h @ memory_heading, []) = (?h @ memory_heading, [])"
    using h header_lengths(3) by (cases evs) (simp_all add: Let_def)
  ultimately have a: "assemble env ex_query evs (m # ms) 1024 = (?h @ memory_heading, [], [])"
    using h by (simp add: assemble_def Let_def del: add_memories.simps)
  have c: "clamp 256 MIN_CONTEXT_TOKENS MAX_CONTEXT_TOKENS * CHARS_PER_TOKEN = 1024"
    "clamp 256 MIN_CONTEXT_TOKENS MAX_CONTEXT_TOKENS = 256"
    by (simp_all add: clamp_def MIN_CONTEXT_TOKENS_def MAX_CONTEXT_TOKENS_def CHARS_PER_TOKEN_def)
  have "assemble env ex_query evs (m # ms) (clamp 256 MIN_CONTEXT_TOKENS MAX_CONTEXT_TOKENS * CHARS_PER_TOKEN)
      = (?h @ memory_heading, [], [])" unfolding c(1) by (rule a)
  note f = build_fields [OF this]
  show ?thesis
    unfolding Let_def f(2-6) c using h header_lengths(3) by (simp add: estimate_tokens_def CHARS_PER_TOKEN_def)
qed

text \<open>
  A bundle can be replayed. Its identity and digest depend on the inputs, not on the clock:
  built from the same inputs at two times they are equal, and only the creation time differs;
  and the identity is the digest of the bundle itself.
\<close>

theorem bundle_identity_ignores_time:
  "let b = build_with_retrieval_and_memory env query evs mems tokens mode warning;
       b' = build_with_retrieval_and_memory (env\<lparr>cx_now := t\<rparr>) query evs mems tokens mode warning
   in b' = b\<lparr>cb_created_at := t\<rparr> \<and> cb_bundle_id b' = cb_bundle_id b
     \<and> cb_canonical_digest b = bundle_digest env b \<and> cb_bundle_id b = ''ctx_'' @ bundle_digest env b"
proof -
  have p: "memory_prefix (env\<lparr>cx_now := t\<rparr>) = memory_prefix env" "evidence_prefix (env\<lparr>cx_now := t\<rparr>) = evidence_prefix env"
    by (intro ext; simp add: memory_prefix_def evidence_prefix_def)+
  have m: "add_memories (env\<lparr>cx_now := t\<rparr>) n l st ms x = add_memories env n l st ms x" for n l st ms x
  proof (induction ms arbitrary: x)
    case (Cons a ms)
    then show ?case by (cases x) (simp add: p Let_def)
  qed simp
  have e: "add_evidence (env\<lparr>cx_now := t\<rparr>) n es y = add_evidence env n es y" for n es y
  proof (induction es arbitrary: y)
    case (Cons a es)
    then show ?case by (cases y) (simp add: p Let_def)
  qed simp
  have a: "assemble (env\<lparr>cx_now := t\<rparr>) query evs mems n = assemble env query evs mems n" for n
    by (simp only: assemble_def m e)
  show ?thesis
    unfolding build_with_retrieval_and_memory_def a Let_def
    by (simp add: with_metadata_def bundle_digest_def default_metadata_def privacy_scope_digest_def Let_def
        split: prod.split)
qed

end
