(* ===== verification/Integration.thy ===== *)
theory Integration
  imports Values "HOL-Library.Word"
begin

text \<open>
  Integration identity contracts, \<open>crates/core/src/integration.rs\<close>: the mapping of a consumer's
  workspace to a project with its approval lifecycle, and the principals that act under a mapping.
  The clock, chrono's parser and renderer and the digest of a JSON value are parameters.
\<close>

section \<open>Data\<close>

definition INTEGRATION_CONTRACT_VERSION :: string where
  "INTEGRATION_CONTRACT_VERSION = ''cortana.integration.v1''"

datatype mapping_status = PendingApproval | MActive | MRevoked | Orphaned | MDeleted

record workspace_mapping =
  mp_contract_version :: string
  mp_id :: string
  mp_consumer :: string
  mp_external :: string
  mp_project :: string
  mp_capability :: string
  mp_acl :: "string list"
  mp_status :: mapping_status
  mp_revision :: "64 word"
  mp_created_at :: string
  mp_updated_at :: string
  mp_approved_by :: "string option"
  mp_revoked_by :: "string option"

datatype principal_role = QueryOnly | QueryAndMemory | StatusOnly | IntegrationAdmin

datatype principal_status = PActive | PRevoked | PDisabled

record integration_principal =
  ip_contract_version :: string
  ip_id :: string
  ip_role :: principal_role
  ip_mapping :: string
  ip_credential :: string
  ip_scopes :: "string list"
  ip_acl :: "string list"
  ip_status :: principal_status
  ip_revision :: "64 word"
  ip_created_at :: string
  ip_expires_at :: "string option"
  ip_revoked_by :: "string option"

record integration_env =
  ig_now :: string
  ig_json_digest :: "json \<Rightarrow> string"
  ig_parse :: "string \<Rightarrow> int option"
  ig_render :: "int \<Rightarrow> string"

datatype integration_error =
    IdEmpty string
  | IdTooLong string
  | IdNotOpaque string
  | IdUnsupported string
  | ReservedWildcard
  | AclMissesProject
  | OnlyPendingApproved
  | MappingInactive
  | OnlyOrphanedReconnects
  | PrincipalAclEmpty
  | TimestampNotRfc3339
  | PrincipalInactive

section \<open>Opaque identifiers, labels, times\<close>

text \<open>A character is ASCII exactly when its one byte is, so the test on characters is one on bytes.\<close>

definition opaque_byte :: "char \<Rightarrow> bool" where
  "opaque_byte c \<longleftrightarrow> is_ascii_alnum (byte c) \<or> c \<in> set ''-_.:''"

definition backslash :: char where "backslash = char_of (92::nat)"

definition validate_opaque_id :: "string \<Rightarrow> string \<Rightarrow> (integration_error, unit) result" where
  "validate_opaque_id name value0 = (let value = trim value0 in
     bindE (ensure (value \<noteq> []) (IdEmpty name)) (\<lambda>_.
     bindE (ensure (length value \<le> 256) (IdTooLong name)) (\<lambda>_.
     bindE (ensure (CHR ''/'' \<notin> set value \<and> backslash \<notin> set value \<and> \<not> str_contains value ''://''
         \<and> \<not> starts_with (to_ascii_lowercase value) ''bearer '') (IdNotOpaque name)) (\<lambda>_.
     ensure (list_all opaque_byte value) (IdUnsupported name)))))"

definition ig_normalize_acl :: "string list \<Rightarrow> (integration_error, string list) result" where
  "ig_normalize_acl acl =
     bindE (for_each (\<lambda>label. bindE (validate_opaque_id ''acl label'' label)
         (\<lambda>_. ensure (label \<noteq> ''*'') ReservedWildcard)) acl) (\<lambda>_.
     Inr (sort_dedup acl))"

definition parse_time :: "integration_env \<Rightarrow> string \<Rightarrow> (integration_error, int) result" where
  "parse_time env value = ok_or (ig_parse env value) TimestampNotRfc3339"

text \<open>\<open>u64::saturating_add(1)\<close>.\<close>

definition saturating_inc :: "64 word \<Rightarrow> 64 word" where
  "saturating_inc r = (if r = - 1 then r else r + 1)"

section \<open>Mappings\<close>

definition mapping_id_of :: "integration_env \<Rightarrow> string \<Rightarrow> string \<Rightarrow> string \<Rightarrow> string" where
  "mapping_id_of env consumer external project = ''map_'' @ take 24 (ig_json_digest env (JObject
     [(''consumer_id'', JString consumer), (''cortana_project_id'', JString project),
      (''external_workspace_id'', JString external)]))"

definition new_mapping :: "integration_env \<Rightarrow> string \<Rightarrow> string \<Rightarrow> string \<Rightarrow> string \<Rightarrow> string list
    \<Rightarrow> (integration_error, workspace_mapping) result" where
  "new_mapping env consumer external project capability acl0 =
     bindE (validate_opaque_id ''consumer_id'' consumer) (\<lambda>_.
     bindE (validate_opaque_id ''external_workspace_id'' external) (\<lambda>_.
     bindE (validate_opaque_id ''cortana_project_id'' project) (\<lambda>_.
     bindE (validate_opaque_id ''capability_ref'' capability) (\<lambda>_.
     bindE (ig_normalize_acl acl0) (\<lambda>acl.
     bindE (ensure (list_ex (\<lambda>label. label = project) acl) AclMissesProject) (\<lambda>_.
     Inr \<lparr>mp_contract_version = INTEGRATION_CONTRACT_VERSION, mp_id = mapping_id_of env consumer external project,
          mp_consumer = consumer, mp_external = external, mp_project = project, mp_capability = capability,
          mp_acl = acl, mp_status = PendingApproval, mp_revision = 1, mp_created_at = ig_now env,
          mp_updated_at = ig_now env, mp_approved_by = None, mp_revoked_by = None\<rparr>))))))"

definition advance_revision :: "integration_env \<Rightarrow> workspace_mapping \<Rightarrow> workspace_mapping" where
  "advance_revision env m = m\<lparr>mp_revision := saturating_inc (mp_revision m), mp_updated_at := ig_now env\<rparr>"

definition approve :: "integration_env \<Rightarrow> string \<Rightarrow> workspace_mapping \<Rightarrow> (integration_error, workspace_mapping) result" where
  "approve env who m =
     bindE (ensure (mp_status m = PendingApproval) OnlyPendingApproved) (\<lambda>_.
     bindE (validate_opaque_id ''approving_principal'' who) (\<lambda>_.
     Inr (advance_revision env (m\<lparr>mp_status := MActive, mp_approved_by := Some who\<rparr>))))"

definition revoke_mapping :: "integration_env \<Rightarrow> string \<Rightarrow> workspace_mapping \<Rightarrow> (integration_error, workspace_mapping) result" where
  "revoke_mapping env who m =
     bindE (ensure (mp_status m \<in> {PendingApproval, MActive}) MappingInactive) (\<lambda>_.
     bindE (validate_opaque_id ''revoking_principal'' who) (\<lambda>_.
     Inr (advance_revision env (m\<lparr>mp_status := MRevoked, mp_revoked_by := Some who\<rparr>))))"

definition reconnect :: "integration_env \<Rightarrow> string \<Rightarrow> workspace_mapping \<Rightarrow> (integration_error, workspace_mapping) result" where
  "reconnect env capability m =
     bindE (ensure (mp_status m = Orphaned) OnlyOrphanedReconnects) (\<lambda>_.
     bindE (validate_opaque_id ''capability_ref'' capability) (\<lambda>_.
     Inr (advance_revision env (m\<lparr>mp_capability := capability, mp_status := PendingApproval, mp_approved_by := None\<rparr>))))"

section \<open>Principals\<close>

fun role_scopes :: "principal_role \<Rightarrow> string list" where
  "role_scopes QueryOnly = [''query'', ''status'']"
| "role_scopes QueryAndMemory = [''query'', ''status'', ''memory'']"
| "role_scopes StatusOnly = [''status'']"
| "role_scopes IntegrationAdmin = [''query'', ''status'', ''memory'', ''admin'']"

definition new_principal :: "integration_env \<Rightarrow> string \<Rightarrow> principal_role \<Rightarrow> string \<Rightarrow> string list \<Rightarrow> string option
    \<Rightarrow> (integration_error, integration_principal) result" where
  "new_principal env pid role mapping acl0 expires =
     bindE (validate_opaque_id ''principal_id'' pid) (\<lambda>_.
     bindE (validate_opaque_id ''mapping_ref'' mapping) (\<lambda>_.
     bindE (ig_normalize_acl acl0) (\<lambda>acl.
     bindE (ensure (acl \<noteq> []) PrincipalAclEmpty) (\<lambda>_.
     bindE (transpose_map (parse_time env) expires) (\<lambda>expiry.
     Inr \<lparr>ip_contract_version = INTEGRATION_CONTRACT_VERSION, ip_id = pid, ip_role = role, ip_mapping = mapping,
          ip_credential = ''credential_ref_'' @ pid, ip_scopes = role_scopes role, ip_acl = acl,
          ip_status = PActive, ip_revision = 1, ip_created_at = ig_now env,
          ip_expires_at = map_option (ig_render env) expiry, ip_revoked_by = None\<rparr>)))))"

definition can_read_memory :: "integration_principal \<Rightarrow> bool" where
  "can_read_memory p \<longleftrightarrow> list_ex (\<lambda>scope. scope = ''memory'') (ip_scopes p)"

definition can_write_memory :: "integration_principal \<Rightarrow> bool" where
  "can_write_memory p \<longleftrightarrow> ip_status p = PActive \<and> can_read_memory p"

definition is_expired_at :: "integration_env \<Rightarrow> string \<Rightarrow> integration_principal \<Rightarrow> (integration_error, bool) result" where
  "is_expired_at env time p =
     bindE (parse_time env time) (\<lambda>t.
     bindE (transpose_map (parse_time env) (ip_expires_at p)) (\<lambda>expiry.
     Inr (case expiry of None \<Rightarrow> False | Some e \<Rightarrow> e \<le> t)))"

definition is_active_at :: "integration_env \<Rightarrow> string \<Rightarrow> integration_principal \<Rightarrow> (integration_error, bool) result" where
  "is_active_at env time p = (if ip_status p \<noteq> PActive then Inr False
     else bindE (is_expired_at env time p) (\<lambda>expired. Inr (\<not> expired)))"

definition revoke_principal :: "string \<Rightarrow> integration_principal \<Rightarrow> (integration_error, integration_principal) result" where
  "revoke_principal who p =
     bindE (ensure (ip_status p = PActive) PrincipalInactive) (\<lambda>_.
     bindE (validate_opaque_id ''revoking_principal'' who) (\<lambda>_.
     Inr (p\<lparr>ip_status := PRevoked, ip_revoked_by := Some who, ip_revision := saturating_inc (ip_revision p)\<rparr>)))"

section \<open>Lemmas\<close>

lemma saturating_inc_le: "r \<le> saturating_inc r" "r \<noteq> - 1 \<Longrightarrow> r < saturating_inc r"
proof -
  have *: "r < r + 1" if "r \<noteq> - 1" for r :: "64 word"
    using that by (simp add: inc_less_eq_self_iff_eq not_le [symmetric])
  show "r \<noteq> - 1 \<Longrightarrow> r < saturating_inc r" using * by (simp add: saturating_inc_def)
  show "r \<le> saturating_inc r" using * [of r] by (auto simp: saturating_inc_def less_imp_le)
qed

definition opaque :: "string \<Rightarrow> bool" where
  "opaque value \<longleftrightarrow> is_ok (validate_opaque_id [] value)"

lemma validate_opaque_id_ok [result_simps]: "validate_opaque_id name value = Inr u \<longleftrightarrow> opaque value"
  by (simp add: validate_opaque_id_def opaque_def Let_def ensure_def)

lemma ig_normalize_acl_ok [result_simps]:
  "ig_normalize_acl acl0 = Inr acl \<longleftrightarrow> list_all (\<lambda>l. opaque l \<and> l \<noteq> ''*'') acl0 \<and> acl = sort_dedup acl0"
  by (auto simp: ig_normalize_acl_def result_simps list_all_iff)

text \<open>What holds of a mapping at every time, and what an operation never changes.\<close>

definition mapping_inv :: "workspace_mapping \<Rightarrow> bool" where
  "mapping_inv m \<longleftrightarrow> mp_contract_version m = INTEGRATION_CONTRACT_VERSION
     \<and> sorted_wrt (<) (mp_acl m) \<and> list_all (\<lambda>l. opaque l \<and> l \<noteq> ''*'') (mp_acl m) \<and> mp_project m \<in> set (mp_acl m)
     \<and> opaque (mp_capability m)
     \<and> (case mp_status m of PendingApproval \<Rightarrow> mp_approved_by m = None
        | MActive \<Rightarrow> pred_option opaque (mp_approved_by m) \<and> mp_approved_by m \<noteq> None
        | MRevoked \<Rightarrow> pred_option opaque (mp_revoked_by m) \<and> mp_revoked_by m \<noteq> None
        | _ \<Rightarrow> True)"

inductive mapping_edge :: "mapping_status \<Rightarrow> mapping_status \<Rightarrow> bool" where
  "mapping_edge PendingApproval MActive"
| "mapping_edge PendingApproval MRevoked"
| "mapping_edge MActive MRevoked"
| "mapping_edge Orphaned PendingApproval"

inductive mapping_step :: "workspace_mapping \<Rightarrow> workspace_mapping \<Rightarrow> bool" where
  step_approve: "approve env who m = Inr m' \<Longrightarrow> mapping_step m m'"
| step_revoke: "revoke_mapping env who m = Inr m' \<Longrightarrow> mapping_step m m'"
| step_reconnect: "reconnect env capability m = Inr m' \<Longrightarrow> mapping_step m m'"

definition same_mapping :: "workspace_mapping \<Rightarrow> workspace_mapping \<Rightarrow> bool" where
  "same_mapping m m' \<longleftrightarrow> mp_id m' = mp_id m \<and> mp_consumer m' = mp_consumer m \<and> mp_external m' = mp_external m
     \<and> mp_project m' = mp_project m \<and> mp_acl m' = mp_acl m \<and> mp_created_at m' = mp_created_at m"

definition mapping_grows :: "workspace_mapping \<Rightarrow> workspace_mapping \<Rightarrow> bool" where
  "mapping_grows m m' \<longleftrightarrow> same_mapping m m' \<and> mp_revision m \<le> mp_revision m'
     \<and> mapping_edge\<^sup>*\<^sup>* (mp_status m) (mp_status m') \<and> (mp_status m \<in> {MRevoked, MDeleted} \<longrightarrow> m' = m)"

inductive_cases mapping_edgeE: "mapping_edge s t"

lemmas mapping_ops = approve_def revoke_mapping_def reconnect_def advance_revision_def

lemma mapping_step_cases:
  assumes "mapping_step m m'"
  shows "same_mapping m m' \<and> mp_revision m' = saturating_inc (mp_revision m)
    \<and> mapping_edge (mp_status m) (mp_status m') \<and> (mapping_inv m \<longrightarrow> mapping_inv m')"
  using assms
proof cases
  case (step_approve env who)
  then show ?thesis
    by (auto simp: mapping_ops result_simps same_mapping_def mapping_inv_def intro: mapping_edge.intros split: if_splits)
next
  case (step_revoke env who)
  then show ?thesis
    by (auto simp: mapping_ops result_simps same_mapping_def mapping_inv_def intro: mapping_edge.intros split: if_splits)
next
  case (step_reconnect env capability)
  then show ?thesis
    by (auto simp: mapping_ops result_simps same_mapping_def mapping_inv_def intro: mapping_edge.intros split: if_splits)
qed

lemma new_mapping_ok:
  assumes "new_mapping env consumer external project capability acl = Inr m"
  shows "mapping_inv m" "mp_status m = PendingApproval" "mp_revision m = 1"
    "mp_id m = mapping_id_of env consumer external project"
  using assms
  by (auto simp: new_mapping_def result_simps mapping_inv_def list_all_iff list_ex_iff strict_sort_dedup split: if_splits)

interpretation im: stepwise "\<lambda>m. \<exists>env c x p k acl. new_mapping env c x p k acl = Inr m"
  mapping_step mapping_inv mapping_grows
proof
  show "mapping_inv m" if "\<exists>env c x p k acl. new_mapping env c x p k acl = Inr m" for m
    using that new_mapping_ok(1) by blast
  show "mapping_inv m'" if "mapping_inv m" "mapping_step m m'" for m m'
    using that mapping_step_cases by blast
  show "mapping_grows m m'" if "mapping_step m m'" for m m'
    using mapping_step_cases [OF that] saturating_inc_le(1) [of "mp_revision m"]
    by (auto simp: mapping_grows_def elim: mapping_edge.cases)
  show "mapping_grows m m" for m
    by (simp add: mapping_grows_def same_mapping_def)
  show "mapping_grows m u" if "mapping_grows m t" "mapping_grows t u" for m t u
    using that unfolding mapping_grows_def same_mapping_def by (auto intro: order_trans rtranclp_trans)
qed

section \<open>Properties\<close>

text \<open>
  The lifecycle of a mapping. A new mapping is pending, of revision 1, and its labels are
  strictly sorted opaque identifiers that include its project and never the star; along any calls,
  in any order, its identity, its project and its labels never change, its revision never falls
  and rises with each call until it saturates, its status moves only from pending to active or
  revoked, from active to revoked and from orphaned back to pending, an active mapping names who
  approved it and a revoked one who revoked it, and a revoked mapping refuses every call.
\<close>

theorem mapping_lifecycle:
  assumes "new_mapping env consumer external project capability acl = Inr m0" "mapping_inv m" "mapping_step\<^sup>*\<^sup>* m m'"
  shows "mapping_inv m0 \<and> mp_status m0 = PendingApproval \<and> mp_revision m0 = 1
    \<and> mapping_inv m' \<and> same_mapping m m' \<and> mp_revision m \<le> mp_revision m'
    \<and> mapping_edge\<^sup>*\<^sup>* (mp_status m) (mp_status m')
    \<and> (mapping_step m' m'' \<longrightarrow> mp_revision m' = - 1 \<or> mp_revision m' < mp_revision m'')
    \<and> (mp_status m \<in> {MRevoked, MDeleted} \<longrightarrow> m' = m \<and> \<not> mapping_step m m'')"
proof -
  have grow: "mapping_grows m m'" using assms(3,2) by (rule im.steps_grow)
  have "mapping_inv m'" using assms(3,2) by (rule im.steps_inv)
  moreover have "mp_revision m' = - 1 \<or> mp_revision m' < mp_revision m''" if "mapping_step m' m''"
    using mapping_step_cases [OF that] saturating_inc_le(2) by auto
  moreover have "\<not> mapping_step m m''" if "mp_status m \<in> {MRevoked, MDeleted}"
    using mapping_step_cases [of m m''] that by (auto elim: mapping_edge.cases)
  ultimately show ?thesis
    using grow new_mapping_ok [OF assms(1)] by (simp add: mapping_grows_def)
qed

definition ex_ig_env :: integration_env where
  "ex_ig_env = \<lparr>ig_now = ''t'', ig_json_digest = (\<lambda>_. replicate 64 (CHR ''0'')), ig_parse = (\<lambda>_. Some 0),
     ig_render = (\<lambda>_. ''t'')\<rparr>"

definition ex_mapping :: workspace_mapping where
  "ex_mapping = \<lparr>mp_contract_version = INTEGRATION_CONTRACT_VERSION,
     mp_id = ''map_'' @ replicate 24 (CHR ''0''), mp_consumer = ''c'', mp_external = ''x'',
     mp_project = ''p'', mp_capability = ''k'', mp_acl = [''p''], mp_status = PendingApproval, mp_revision = 1,
     mp_created_at = ''t'', mp_updated_at = ''t'', mp_approved_by = None, mp_revoked_by = None\<rparr>"

lemma opaque_letters: "opaque ''c''" "opaque ''x''" "opaque ''p''" "opaque ''k''" "opaque ''o''"
  by (simp_all add: opaque_def validate_opaque_id_def Let_def ensure_def text_eval opaque_byte_def
      is_ascii_alnum_def backslash_def char_eval)

lemma ex_mapping_new: "new_mapping ex_ig_env ''c'' ''x'' ''p'' ''k'' [''p''] = Inr ex_mapping"
proof -
  have v: "validate_opaque_id n s = Inr ()" if "opaque s" for n s using that by (simp add: result_simps)
  show ?thesis
    by (simp add: new_mapping_def v opaque_letters ig_normalize_acl_def sort_dedup_def ensure_def
        mapping_id_of_def ex_ig_env_def ex_mapping_def)
qed

theorem mapping_lifecycle_witness:
  "\<exists>m. approve ex_ig_env ''o'' ex_mapping = Inr m \<and> mapping_inv m \<and> mp_revision ex_mapping \<le> mp_revision m"
proof -
  have "validate_opaque_id ''approving_principal'' ''o'' = Inr ()"
    using opaque_letters by (simp add: result_simps)
  then obtain m where m: "approve ex_ig_env ''o'' ex_mapping = Inr m"
    by (simp add: approve_def ex_mapping_def ensure_def)
  then have st: "mapping_step\<^sup>*\<^sup>* ex_mapping m" by (blast intro: step_approve)
  note mapping_lifecycle [OF ex_mapping_new new_mapping_ok(1) [OF ex_mapping_new] st]
  then have "mapping_inv m" "mp_revision ex_mapping \<le> mp_revision m" by blast+
  with m show ?thesis by blast
qed

end
