(* ===== verification/Provider.thy ===== *)
theory Provider
  imports Integration ContextBundle
begin

text \<open>
  The context provider contract, \<open>crates/core/src/provider.rs\<close>: requests with their limits, the
  authorization of a request under a mapping and a principal of \<open>Integration\<close>, outcomes, the
  validation of a bundle of \<open>ContextBundle\<close> against what a consumer approved, and the guard that
  keeps a transport from executing a request twice.
\<close>

section \<open>Requests\<close>

definition PROVIDER_CONTRACT_VERSION :: string where "PROVIDER_CONTRACT_VERSION = ''cortana.provider.v1''"
definition PROVIDER_FIXTURE_VERSION :: string where "PROVIDER_FIXTURE_VERSION = ''cortana.provider-fixtures.v1''"

datatype provider_operation = ContextOp | EvidenceSearch | StatusOp | MemoryRecall | MemoryWrite | MemoryWriteStatus

definition is_write :: "provider_operation \<Rightarrow> bool" where
  "is_write op \<longleftrightarrow> op = MemoryWrite"

datatype transport_profile = DirectLocal | ScopedHttp | RemoteBroker

record provider_limits =
  pl_max_request_bytes :: nat
  pl_max_response_bytes :: nat
  pl_max_context_tokens :: nat
  pl_max_timeout_ms :: nat
  pl_max_concurrency :: nat

record capability_descriptor =
  cd_provider_type :: string
  cd_contract_version :: string
  cd_fixture_version :: string
  cd_transports :: "transport_profile list"
  cd_operations :: "provider_operation list"
  cd_limits :: provider_limits
  cd_connection :: string

definition current_capabilities :: capability_descriptor where
  "current_capabilities = \<lparr>cd_provider_type = ''cortana'', cd_contract_version = PROVIDER_CONTRACT_VERSION,
     cd_fixture_version = PROVIDER_FIXTURE_VERSION, cd_transports = [DirectLocal, ScopedHttp, RemoteBroker],
     cd_operations = [ContextOp, EvidenceSearch, StatusOp, MemoryRecall, MemoryWrite, MemoryWriteStatus],
     cd_limits = \<lparr>pl_max_request_bytes = 1024 * 1024, pl_max_response_bytes = 8 * 1024 * 1024,
       pl_max_context_tokens = MAX_CONTEXT_TOKENS, pl_max_timeout_ms = 60000, pl_max_concurrency = 32\<rparr>,
     cd_connection = ''cortana-provider''\<rparr>"

record request_limits =
  rl_max_tokens :: nat
  rl_max_response_bytes :: nat
  rl_timeout_ms :: nat

record provider_request =
  rq_contract_version :: string
  rq_id :: string
  rq_mapping :: string
  rq_principal :: string
  rq_project :: string
  rq_scope_digest :: string
  rq_operation :: provider_operation
  rq_limits :: request_limits
  rq_idempotency_key :: "string option"

datatype provider_error =
    RefEmpty string
  | RefTooLong string
  | RefNotOpaque string
  | NotHexDigest string
  | IncompatibleVersion
  | OperationUnsupported
  | TokenBudgetRange
  | ResponseBudgetRange
  | TimeoutRange
  | WriteNeedsKey
  | AmbiguousWriteStatus
  | ReplayMismatch

definition validate_opaque :: "string \<Rightarrow> string \<Rightarrow> (provider_error, unit) result" where
  "validate_opaque name value0 = (let value = trim value0 in
     bindE (ensure (value \<noteq> []) (RefEmpty name)) (\<lambda>_.
     bindE (ensure (length value \<le> 256) (RefTooLong name)) (\<lambda>_.
     ensure (CHR ''/'' \<notin> set value \<and> backslash \<notin> set value \<and> \<not> str_contains value ''://''
       \<and> \<not> starts_with (to_ascii_lowercase value) ''bearer '') (RefNotOpaque name))))"

definition is_hexdigit :: "char \<Rightarrow> bool" where
  "is_hexdigit c \<longleftrightarrow> 48 \<le> byte c \<and> byte c \<le> 57 \<or> 65 \<le> byte c \<and> byte c \<le> 70 \<or> 97 \<le> byte c \<and> byte c \<le> 102"

definition validate_digest :: "string \<Rightarrow> string \<Rightarrow> (provider_error, unit) result" where
  "validate_digest name value = ensure (length value = 64 \<and> list_all is_hexdigit value) (NotHexDigest name)"

definition validate_request :: "capability_descriptor \<Rightarrow> provider_request \<Rightarrow> (provider_error, unit) result" where
  "validate_request caps rq =
     bindE (ensure (rq_contract_version rq = cd_contract_version caps) IncompatibleVersion) (\<lambda>_.
     bindE (ensure (rq_operation rq \<in> set (cd_operations caps)) OperationUnsupported) (\<lambda>_.
     bindE (ensure (MIN_CONTEXT_TOKENS \<le> rl_max_tokens (rq_limits rq)
         \<and> rl_max_tokens (rq_limits rq) \<le> pl_max_context_tokens (cd_limits caps)) TokenBudgetRange) (\<lambda>_.
     bindE (ensure (0 < rl_max_response_bytes (rq_limits rq)
         \<and> rl_max_response_bytes (rq_limits rq) \<le> pl_max_response_bytes (cd_limits caps)) ResponseBudgetRange) (\<lambda>_.
     bindE (ensure (0 < rl_timeout_ms (rq_limits rq)
         \<and> rl_timeout_ms (rq_limits rq) \<le> pl_max_timeout_ms (cd_limits caps)) TimeoutRange) (\<lambda>_.
     ensure (\<not> is_write (rq_operation rq) \<or> rq_idempotency_key rq \<noteq> None) WriteNeedsKey)))))"

definition new_request :: "string \<Rightarrow> string \<Rightarrow> string \<Rightarrow> string \<Rightarrow> string \<Rightarrow> provider_operation \<Rightarrow> request_limits
    \<Rightarrow> string option \<Rightarrow> (provider_error, provider_request) result" where
  "new_request rid mapping who project digest operation limits key =
     bindE (for_each (\<lambda>(name, value). validate_opaque name value)
       [(''request_id'', rid), (''mapping_ref'', mapping), (''principal_ref'', who), (''project_ref'', project)]) (\<lambda>_.
     bindE (validate_digest ''privacy_scope_digest'' digest) (\<lambda>_.
     bindE (case key of None \<Rightarrow> Inr () | Some k \<Rightarrow> validate_opaque ''idempotency_key'' k) (\<lambda>_.
     let request = \<lparr>rq_contract_version = PROVIDER_CONTRACT_VERSION, rq_id = rid, rq_mapping = mapping,
            rq_principal = who, rq_project = project, rq_scope_digest = digest, rq_operation = operation,
            rq_limits = limits, rq_idempotency_key = key\<rparr>
     in bindE (validate_request current_capabilities request) (\<lambda>_. Inr request))))"

record broker_envelope =
  be_fixture_version :: string
  be_connection :: string
  be_request :: provider_request
  be_payload_digest :: string
  be_attempt :: nat

definition new_envelope :: "string \<Rightarrow> provider_request \<Rightarrow> string \<Rightarrow> (provider_error, broker_envelope) result" where
  "new_envelope connection request payload =
     bindE (validate_opaque ''connection_ref'' connection) (\<lambda>_.
     bindE (validate_digest ''payload_digest'' payload) (\<lambda>_.
     bindE (validate_request current_capabilities request) (\<lambda>_.
     Inr \<lparr>be_fixture_version = PROVIDER_FIXTURE_VERSION, be_connection = connection, be_request = request,
          be_payload_digest = payload, be_attempt = 1\<rparr>)))"

section \<open>Authorization and outcomes\<close>

datatype outcome_code = OkCode | Unavailable | Unauthorized | Stale | Degraded | InsufficientCode | OverBudgetCode
  | Incompatible | CancelledCode | RateLimited | TimedOut | HostOffline | AmbiguousWrite

fun required_scope :: "provider_operation \<Rightarrow> string" where
  "required_scope ContextOp = ''query''"
| "required_scope EvidenceSearch = ''query''"
| "required_scope StatusOp = ''status''"
| "required_scope MemoryRecall = ''memory''"
| "required_scope MemoryWrite = ''memory''"
| "required_scope MemoryWriteStatus = ''memory''"

definition authorize_provider_request :: "context_env \<Rightarrow> integration_env \<Rightarrow> provider_request \<Rightarrow> workspace_mapping
    \<Rightarrow> integration_principal \<Rightarrow> string \<Rightarrow> (outcome_code, unit) result" where
  "authorize_provider_request cx ig rq mapping p time =
     (if \<not> is_ok (validate_request current_capabilities rq)
         \<or> mp_status mapping \<noteq> MActive
         \<or> rq_mapping rq \<noteq> mp_id mapping
         \<or> rq_principal rq \<noteq> ip_id p
         \<or> ip_mapping p \<noteq> mp_id mapping
         \<or> rq_project rq \<noteq> mp_project mapping
         \<or> ip_status p \<noteq> PActive
         \<or> \<not> (case is_active_at ig time p of Inl _ \<Rightarrow> False | Inr b \<Rightarrow> b)
         \<or> \<not> list_all (\<lambda>label. label \<in> set (mp_acl mapping)) (ip_acl p)
         \<or> rq_scope_digest rq \<noteq> privacy_scope_digest cx (Some (mp_project mapping)) None (ip_acl p)
      then Inl Unauthorized
      else if \<not> list_ex (\<lambda>scope. scope = required_scope (rq_operation rq)) (ip_scopes p) then Inl Unauthorized
      else Inr ())"

record 'a provider_outcome =
  po_contract_version :: string
  po_code :: outcome_code
  po_transport :: transport_profile
  po_retryable :: bool
  po_user_action :: bool
  po_message :: "string option"
  po_retry_after_ms :: "nat option"
  po_result :: "'a option"

definition safe_message :: "string \<Rightarrow> string" where
  "safe_message message0 = (let message = trim message0 in
     if message = [] \<or> 512 < length message \<or> CHR ''/'' \<in> set message \<or> backslash \<in> set message
        \<or> str_contains (to_ascii_lowercase message) ''bearer '' \<or> str_contains (to_ascii_lowercase message) ''sqlite''
     then ''provider request failed'' else message)"

definition success :: "transport_profile \<Rightarrow> 'a \<Rightarrow> 'a provider_outcome" where
  "success transport r = \<lparr>po_contract_version = PROVIDER_CONTRACT_VERSION, po_code = OkCode, po_transport = transport,
     po_retryable = False, po_user_action = False, po_message = None, po_retry_after_ms = None, po_result = Some r\<rparr>"

definition failure :: "transport_profile \<Rightarrow> outcome_code \<Rightarrow> string \<Rightarrow> 'a provider_outcome" where
  "failure transport code message = \<lparr>po_contract_version = PROVIDER_CONTRACT_VERSION, po_code = code,
     po_transport = transport, po_retryable = (code \<in> {Unavailable, RateLimited, TimedOut, HostOffline}),
     po_user_action = (code \<in> {Unauthorized, Stale, Incompatible, AmbiguousWrite}),
     po_message = Some (safe_message message), po_retry_after_ms = None, po_result = None\<rparr>"

definition clone_for_transport :: "transport_profile \<Rightarrow> 'a provider_outcome \<Rightarrow> 'a provider_outcome" where
  "clone_for_transport transport outcome = outcome\<lparr>po_transport := transport\<rparr>"

section \<open>Validation of a context bundle\<close>

record context_validation =
  cv_scope_digest :: string
  cv_minimum_corpus :: nat
  cv_maximum_budget :: nat
  cv_allow_degraded :: bool

record context_pin =
  pn_provider_version :: string
  pn_context_version :: string
  pn_bundle_id :: string
  pn_canonical_digest :: string
  pn_scope_digest :: string
  pn_corpus_revision :: nat
  pn_memory_revision :: "nat option"
  pn_fingerprint :: "string option"
  pn_retrieval_version :: string
  pn_token_budget :: nat
  pn_created_at :: string
  pn_degradation :: "string option"

datatype validation_code = IncompatibleContract | DigestMismatch | ScopeMismatch | StaleRevision | OverBudget
  | Insufficient | DegradedBundle | MalformedBundle

definition validate_context_bundle :: "context_env \<Rightarrow> context_bundle \<Rightarrow> context_validation
    \<Rightarrow> (validation_code, context_pin) result" where
  "validate_context_bundle env b approved =
     (if cb_contract_version b \<noteq> CONTEXT_CONTRACT_VERSION then Inl IncompatibleContract
      else let digest = bundle_digest env b in
      if digest \<noteq> cb_canonical_digest b \<or> cb_bundle_id b \<noteq> ''ctx_'' @ digest \<or> length (cb_canonical_digest b) \<noteq> 64
        then Inl DigestMismatch
      else if cb_scope_digest b \<noteq> cv_scope_digest approved then Inl ScopeMismatch
      else if cb_corpus_revision b < cv_minimum_corpus approved then Inl StaleRevision
      else if cv_maximum_budget approved < cb_token_budget b
          \<or> cb_token_budget b < mx_estimated_tokens (cb_metrics b) then Inl OverBudget
      else if mx_included (cb_metrics b) = 0 \<and> mx_memories_included (cb_metrics b) = 0 then Inl Insufficient
      else if cb_degradation b \<noteq> None \<and> \<not> cv_allow_degraded approved then Inl DegradedBundle
      else if trim (cb_created_at b) = [] \<or> trim (cb_retrieval_version b) = [] \<or> length (cb_scope_digest b) \<noteq> 64
        then Inl MalformedBundle
      else Inr \<lparr>pn_provider_version = PROVIDER_CONTRACT_VERSION, pn_context_version = cb_contract_version b,
        pn_bundle_id = cb_bundle_id b, pn_canonical_digest = cb_canonical_digest b,
        pn_scope_digest = cb_scope_digest b, pn_corpus_revision = cb_corpus_revision b,
        pn_memory_revision = cb_memory_revision b, pn_fingerprint = cb_fingerprint b,
        pn_retrieval_version = cb_retrieval_version b, pn_token_budget = cb_token_budget b,
        pn_created_at = cb_created_at b, pn_degradation = map_option dg_code (cb_degradation b)\<rparr>)"

section \<open>Replay guard\<close>

datatype effect_status = EffectPending | Applied | Rejected | Ambiguous

record memory_write_effect =
  mw_contract_version :: string
  mw_effect_id :: string
  mw_idempotency_key :: string
  mw_status :: effect_status
  mw_target_revision :: "64 word option"
  mw_approving_principal :: string
  mw_provenance_digest :: string

record replay_guard =
  rg_capacity :: nat
  rg_order :: "string list"
  rg_operations :: "string \<rightharpoonup> provider_operation"

definition new_guard :: "nat \<Rightarrow> replay_guard" where
  "new_guard capacity = \<lparr>rg_capacity = max capacity 1, rg_order = [], rg_operations = Map.empty\<rparr>"

definition accept :: "string \<Rightarrow> provider_operation \<Rightarrow> replay_guard \<Rightarrow> replay_guard \<times> (provider_error, bool) result" where
  "accept key op g = (case validate_opaque ''replay key'' key of Inl e \<Rightarrow> (g, Inl e) | Inr _ \<Rightarrow>
     (case rg_operations g key of
        Some previous \<Rightarrow>
          if is_write previous \<or> is_write op then (g, Inl AmbiguousWriteStatus)
          else if previous \<noteq> op then (g, Inl ReplayMismatch)
          else (g, Inr False)
      | None \<Rightarrow>
          let g = (if length (rg_order g) = rg_capacity g then
                     (case rg_order g of [] \<Rightarrow> g
                      | oldest # rest \<Rightarrow> g\<lparr>rg_order := rest, rg_operations := (rg_operations g)(oldest := None)\<rparr>)
                   else g)
          in (g\<lparr>rg_order := rg_order g @ [key], rg_operations := (rg_operations g)(key \<mapsto> op)\<rparr>, Inr True)))"

section \<open>Lemmas on authorization\<close>

text \<open>A principal as \<open>new_principal\<close> makes it, and as its revocation leaves it.\<close>

definition principal_inv :: "integration_principal \<Rightarrow> bool" where
  "principal_inv p \<longleftrightarrow> ip_scopes p = role_scopes (ip_role p) \<and> ip_acl p \<noteq> [] \<and> sorted_wrt (<) (ip_acl p)
     \<and> ''*'' \<notin> set (ip_acl p)"

lemma new_principal_inv: "new_principal ig pid role mapping acl expires = Inr p \<Longrightarrow> principal_inv p"
  by (auto simp: new_principal_def result_simps principal_inv_def list_all_iff strict_sort_dedup split: if_splits)

lemma revoke_principal_inv: "revoke_principal who p = Inr p' \<Longrightarrow> principal_inv p \<Longrightarrow> principal_inv p'"
  by (auto simp: revoke_principal_def result_simps principal_inv_def split: if_splits)

text \<open>What a role may do.\<close>

fun role_permits :: "principal_role \<Rightarrow> provider_operation set" where
  "role_permits QueryOnly = {ContextOp, EvidenceSearch, StatusOp}"
| "role_permits QueryAndMemory = UNIV"
| "role_permits StatusOnly = {StatusOp}"
| "role_permits IntegrationAdmin = UNIV"

lemma role_permits_iff: "op \<in> role_permits r \<longleftrightarrow> required_scope op \<in> set (role_scopes r)"
  by (cases r; cases op) simp_all

lemma validate_request_ok:
  "validate_request current_capabilities rq = Inr () \<longleftrightarrow>
     rq_contract_version rq = PROVIDER_CONTRACT_VERSION
     \<and> 256 \<le> rl_max_tokens (rq_limits rq) \<and> rl_max_tokens (rq_limits rq) \<le> 64000
     \<and> 0 < rl_max_response_bytes (rq_limits rq) \<and> rl_max_response_bytes (rq_limits rq) \<le> 8388608
     \<and> 0 < rl_timeout_ms (rq_limits rq) \<and> rl_timeout_ms (rq_limits rq) \<le> 60000
     \<and> (is_write (rq_operation rq) \<longrightarrow> rq_idempotency_key rq \<noteq> None)"
  by (cases "rq_operation rq")
    (auto simp: validate_request_def current_capabilities_def result_simps MIN_CONTEXT_TOKENS_def
      MAX_CONTEXT_TOKENS_def split: if_splits)

lemma authorize_iff:
  "authorize_provider_request cx ig rq m p time = Inr () \<longleftrightarrow>
     validate_request current_capabilities rq = Inr () \<and> mp_status m = MActive
     \<and> rq_mapping rq = mp_id m \<and> rq_principal rq = ip_id p \<and> ip_mapping p = mp_id m \<and> rq_project rq = mp_project m
     \<and> ip_status p = PActive \<and> is_active_at ig time p = Inr True
     \<and> set (ip_acl p) \<subseteq> set (mp_acl m)
     \<and> rq_scope_digest rq = privacy_scope_digest cx (Some (mp_project m)) None (ip_acl p)
     \<and> required_scope (rq_operation rq) \<in> set (ip_scopes p)"
  by (auto simp: authorize_provider_request_def is_ok_iff list_all_iff list_ex_iff split: sum.splits if_splits)

lemma authorize_error: "authorize_provider_request cx ig rq m p time \<noteq> Inr () \<Longrightarrow>
    authorize_provider_request cx ig rq m p time = Inl Unauthorized"
  by (auto simp: authorize_provider_request_def split: if_splits)

lemma active_unexpired:
  "is_active_at ig time p = Inr True \<longleftrightarrow> ip_status p = PActive
     \<and> (\<exists>t. ig_parse ig time = Some t \<and> (case ip_expires_at p of None \<Rightarrow> True
         | Some e \<Rightarrow> \<exists>x. ig_parse ig e = Some x \<and> t < x))"
  by (cases "ip_expires_at p") (auto simp: is_active_at_def is_expired_at_def parse_time_def result_simps split: if_splits)

section \<open>Properties\<close>

text \<open>
  C16. A provider request is authorized only within its mapping, its principal's role and its
  labels. For a mapping and a principal as the contracts make them, every refusal is the one code
  for unauthorized, and a request is let through only when the mapping is active and names its
  approver, the principal is active, before its expiry and bound to that mapping, the request
  names mapping, principal and project, its labels are a nonempty part of the mapping's without
  the star and are those the request's scope digest was taken of, its role permits the operation,
  the budgets are within the limits and a write carries an idempotency key; and once the mapping
  or the principal has been
  revoked the same request is refused.
\<close>

theorem provider_authorization:
  assumes "mapping_inv m" "principal_inv p"
  shows "(authorize_provider_request cx ig rq m p time \<noteq> Inr () \<longrightarrow>
        authorize_provider_request cx ig rq m p time = Inl Unauthorized)
    \<and> (authorize_provider_request cx ig rq m p time = Inr () \<longrightarrow>
        (\<exists>who. mp_approved_by m = Some who \<and> opaque who) \<and> mp_status m = MActive \<and> ip_status p = PActive
      \<and> ip_mapping p = mp_id m \<and> rq_mapping rq = mp_id m \<and> rq_principal rq = ip_id p
      \<and> rq_project rq = mp_project m \<and> rq_operation rq \<in> role_permits (ip_role p)
      \<and> ip_acl p \<noteq> [] \<and> set (ip_acl p) \<subseteq> set (mp_acl m) \<and> ''*'' \<notin> set (ip_acl p)
      \<and> rq_scope_digest rq = privacy_scope_digest cx (Some (mp_project m)) None (ip_acl p)
      \<and> (\<exists>t. ig_parse ig time = Some t \<and> pred_option (\<lambda>e. \<exists>x. ig_parse ig e = Some x \<and> t < x) (ip_expires_at p))
      \<and> rl_max_tokens (rq_limits rq) \<le> 64000 \<and> rl_max_response_bytes (rq_limits rq) \<le> 8388608
      \<and> rl_timeout_ms (rq_limits rq) \<le> 60000
      \<and> (rq_operation rq = MemoryWrite \<longrightarrow> rq_idempotency_key rq \<noteq> None))
    \<and> (revoke_mapping ig who m = Inr m' \<longrightarrow> authorize_provider_request cx ig rq m' p time = Inl Unauthorized)
    \<and> (revoke_principal who p = Inr p' \<longrightarrow> authorize_provider_request cx ig rq m p' time = Inl Unauthorized)"
proof -
  have "authorize_provider_request cx ig rq m' p time \<noteq> Inr ()" if "revoke_mapping ig who m = Inr m'"
    using that by (auto simp: authorize_iff mapping_ops result_simps split: if_splits)
  moreover have "authorize_provider_request cx ig rq m p' time \<noteq> Inr ()" if "revoke_principal who p = Inr p'"
    using that by (auto simp: authorize_iff revoke_principal_def result_simps split: if_splits)
  moreover have "rq_operation rq \<in> role_permits (ip_role p) \<and> (\<exists>who. mp_approved_by m = Some who \<and> opaque who)
      \<and> (\<exists>t. ig_parse ig time = Some t \<and> pred_option (\<lambda>e. \<exists>x. ig_parse ig e = Some x \<and> t < x) (ip_expires_at p))"
    if a: "authorize_provider_request cx ig rq m p time = Inr ()"
    using a assms unfolding authorize_iff role_permits_iff active_unexpired
    by (auto simp: principal_inv_def mapping_inv_def option.pred_set split: option.splits)
  ultimately show ?thesis
    using assms(2) authorize_error
    by (auto simp: authorize_iff validate_request_ok principal_inv_def is_write_def)
qed

definition ex_cx_env :: context_env where
  "ex_cx_env = \<lparr>cx_now = ''t'', cx_rfc3339 = (\<lambda>_. ''t''), cx_two_decimals = (\<lambda>_. ''0.50''), cx_round32 = (\<lambda>r. r),
     cx_json_digest = (\<lambda>_. replicate 64 (CHR ''0'')), cx_bundle_digest = (\<lambda>_. replicate 64 (CHR ''1''))\<rparr>"

definition ex_active_mapping :: workspace_mapping where
  "ex_active_mapping = ex_mapping\<lparr>mp_status := MActive, mp_approved_by := Some ''o'', mp_revision := 2\<rparr>"

definition ex_ip :: integration_principal where
  "ex_ip = \<lparr>ip_contract_version = INTEGRATION_CONTRACT_VERSION, ip_id = ''x'', ip_role = QueryAndMemory,
     ip_mapping = mp_id ex_mapping, ip_credential = ''credential_ref_x'', ip_scopes = role_scopes QueryAndMemory,
     ip_acl = [''p''], ip_status = PActive, ip_revision = 1, ip_created_at = ''t'', ip_expires_at = None,
     ip_revoked_by = None\<rparr>"

definition ex_request :: provider_request where
  "ex_request = \<lparr>rq_contract_version = PROVIDER_CONTRACT_VERSION, rq_id = ''r'', rq_mapping = mp_id ex_mapping,
     rq_principal = ''x'', rq_project = ''p'', rq_scope_digest = replicate 64 (CHR ''0''), rq_operation = MemoryWrite,
     rq_limits = \<lparr>rl_max_tokens = 1000, rl_max_response_bytes = 1000, rl_timeout_ms = 1000\<rparr>,
     rq_idempotency_key = Some ''k''\<rparr>"

lemma ex_active_inv: "mapping_inv ex_active_mapping"
  using new_mapping_ok(1) [OF ex_mapping_new] opaque_letters
  by (simp add: mapping_inv_def ex_active_mapping_def ex_mapping_def)

lemma ex_ip_inv: "principal_inv ex_ip"
  by (simp add: principal_inv_def ex_ip_def)

lemma ex_authorized: "authorize_provider_request ex_cx_env ex_ig_env ex_request ex_active_mapping ex_ip ''t'' = Inr ()"
  unfolding authorize_iff validate_request_ok active_unexpired
  by (simp add: ex_request_def ex_active_mapping_def ex_mapping_def ex_ip_def ex_ig_env_def
      privacy_scope_digest_def ex_cx_env_def)

theorem provider_authorization_witness:
  "\<exists>m'. authorize_provider_request ex_cx_env ex_ig_env ex_request ex_active_mapping ex_ip ''t'' = Inr ()
     \<and> rq_operation ex_request \<in> role_permits (ip_role ex_ip)
     \<and> revoke_mapping ex_ig_env ''o'' ex_active_mapping = Inr m'
     \<and> authorize_provider_request ex_cx_env ex_ig_env ex_request m' ex_ip ''t'' = Inl Unauthorized"
proof -
  have "validate_opaque_id ''revoking_principal'' ''o'' = Inr ()"
    using opaque_letters by (simp add: result_simps)
  then obtain m' where m': "revoke_mapping ex_ig_env ''o'' ex_active_mapping = Inr m'"
    by (simp add: revoke_mapping_def ex_active_mapping_def ensure_def)
  note c = provider_authorization [OF ex_active_inv ex_ip_inv, of ex_cx_env ex_ig_env ex_request "''t''" "''o''" m']
  have "rq_operation ex_request \<in> role_permits (ip_role ex_ip)" using c ex_authorized by blast
  moreover have "authorize_provider_request ex_cx_env ex_ig_env ex_request m' ex_ip ''t'' = Inl Unauthorized"
    using c m' by blast
  ultimately show ?thesis using m' ex_authorized by blast
qed

lemma stamped_fields:
  fixes env :: context_env and inp :: metadata_input and b0 :: context_bundle
  defines "b \<equiv> with_metadata env (metadata_of env inp) b0"
  shows "cb_contract_version b = CONTEXT_CONTRACT_VERSION" "cb_canonical_digest b = bundle_digest env b"
    "cb_bundle_id b = ''ctx_'' @ bundle_digest env b"
    "cb_scope_digest b = privacy_scope_digest env (mi_project inp) (mi_source inp) (mi_acl inp)"
    "cb_corpus_revision b = mi_corpus_revision inp" "cb_memory_revision b = mi_memory_revision inp"
    "cb_token_budget b = clamp (mi_token_budget inp) MIN_CONTEXT_TOKENS MAX_CONTEXT_TOKENS"
    "cb_degradation b = degraded (mi_warning inp)" "cb_created_at b = cx_now env"
    "cb_retrieval_version b = RETRIEVAL_CONTRACT_VERSION" "cb_metrics b = cb_metrics b0"
    "cb_evidence b = cb_evidence b0" "cb_memories b = cb_memories b0" "cb_fingerprint b = mi_fingerprint inp"
  by (simp_all add: b_def with_metadata_def metadata_of_def bundle_digest_def Let_def)

lemma retrieval_version_not_blank: "trim RETRIEVAL_CONTRACT_VERSION \<noteq> []"
  by (simp add: RETRIEVAL_CONTRACT_VERSION_def text_eval)

lemma built_counts:
  "let b = build_with_retrieval_and_memory env query evs mems tokens mode warning in
     mx_included (cb_metrics b) = length (cb_evidence b) \<and> mx_memories_included (cb_metrics b) = length (cb_memories b)"
proof -
  obtain ctx inc incm where a: "assemble env query evs mems
      (clamp tokens MIN_CONTEXT_TOKENS MAX_CONTEXT_TOKENS * CHARS_PER_TOKEN) = (ctx, inc, incm)"
    by (cases "assemble env query evs mems (clamp tokens MIN_CONTEXT_TOKENS MAX_CONTEXT_TOKENS * CHARS_PER_TOKEN)")
  show ?thesis unfolding Let_def using build_fields(3,4,7,9) [OF a] by simp
qed

definition published_bundle :: "context_env \<Rightarrow> string \<Rightarrow> evidence list \<Rightarrow> memory_result list \<Rightarrow> string
    \<Rightarrow> metadata_input \<Rightarrow> context_bundle" where
  "published_bundle env query evs mems mode inp = with_metadata env (metadata_of env inp)
     (build_with_retrieval_and_memory env query evs mems (mi_token_budget inp) mode (mi_warning inp))"

text \<open>
  The bundles the service builds validate. A bundle assembled from a query, evidence and
  memories and stamped with its metadata never fails validation for its contract, its digest or a
  malformed field; with digests of 64 bytes and a clock that prints a time, the outcome is decided
  by what the consumer approved alone: the scope must be that of the bundle's project, source and
  labels, the corpus not older than asked, the budget within the approved one and the estimate
  within the budget (which without memories always holds), something included, and degradation
  approved when retrieval degraded. What is pinned are the bundle's own identity and revisions.
\<close>

theorem published_bundles_validate:
  fixes env :: context_env and inp :: metadata_input and query mode :: string and evs :: "evidence list" and mems :: "memory_result list"
  assumes "\<And>v. length (cx_bundle_digest env v) = 64" "\<And>v. length (cx_json_digest env v) = 64" "trim (cx_now env) \<noteq> []"
  defines "b \<equiv> published_bundle env query evs mems mode inp"
  shows "validate_context_bundle env b approved =
     (if privacy_scope_digest env (mi_project inp) (mi_source inp) (mi_acl inp) \<noteq> cv_scope_digest approved then Inl ScopeMismatch
      else if mi_corpus_revision inp < cv_minimum_corpus approved then Inl StaleRevision
      else if cv_maximum_budget approved < clamp (mi_token_budget inp) 256 64000
          \<or> clamp (mi_token_budget inp) 256 64000 < mx_estimated_tokens (cb_metrics b) then Inl OverBudget
      else if cb_evidence b = [] \<and> cb_memories b = [] then Inl Insufficient
      else if mi_warning inp \<noteq> None \<and> \<not> cv_allow_degraded approved then Inl DegradedBundle
      else Inr \<lparr>pn_provider_version = PROVIDER_CONTRACT_VERSION, pn_context_version = CONTEXT_CONTRACT_VERSION,
        pn_bundle_id = ''ctx_'' @ bundle_digest env b, pn_canonical_digest = bundle_digest env b,
        pn_scope_digest = cv_scope_digest approved, pn_corpus_revision = mi_corpus_revision inp,
        pn_memory_revision = mi_memory_revision inp, pn_fingerprint = mi_fingerprint inp,
        pn_retrieval_version = RETRIEVAL_CONTRACT_VERSION,
        pn_token_budget = clamp (mi_token_budget inp) 256 64000, pn_created_at = cx_now env,
        pn_degradation = map_option (\<lambda>_. ''retrieval_degraded'') (mi_warning inp)\<rparr>)
    \<and> (mems = [] \<longrightarrow> mx_estimated_tokens (cb_metrics b) \<le> clamp (mi_token_budget inp) 256 64000)"
proof -
  let ?b0 = "build_with_retrieval_and_memory env query evs mems (mi_token_budget inp) mode (mi_warning inp)"
  have f: "b = with_metadata env (metadata_of env inp) ?b0" by (simp add: b_def published_bundle_def)
  note sf = stamped_fields [where env = env and inp = inp and ?b0.0 = ?b0, folded f]
  have counts: "mx_included (cb_metrics b) = length (cb_evidence b)"
    "mx_memories_included (cb_metrics b) = length (cb_memories b)"
    using built_counts [of env query evs mems "mi_token_budget inp" mode "mi_warning inp"] by (simp_all add: sf Let_def)
  have len: "length (bundle_digest env b) = 64" "length (privacy_scope_digest env x y z) = 64" for x y z
    using assms(1,2) by (simp_all add: bundle_digest_def privacy_scope_digest_def)
  have mm: "MIN_CONTEXT_TOKENS = 256" "MAX_CONTEXT_TOKENS = 64000"
    by (simp_all add: MIN_CONTEXT_TOKENS_def MAX_CONTEXT_TOKENS_def)
  have "mems = [] \<longrightarrow> mx_estimated_tokens (cb_metrics b) \<le> clamp (mi_token_budget inp) 256 64000"
    using built_estimate by (simp add: sf(11) mm [symmetric])
  moreover have dg: "degraded None = None" "degraded w = None \<longleftrightarrow> w = None"
    "map_option dg_code (degraded w) = map_option (\<lambda>_. ''retrieval_degraded'') w" for w
    by (cases w; simp add: degraded_def)+
  ultimately show ?thesis
    unfolding validate_context_bundle_def Let_def sf(1,3-10,14) counts sf(2) [symmetric]
    using assms(3) retrieval_version_not_blank len(2) [of "mi_project inp" "mi_source inp" "mi_acl inp"]
    by (cases "privacy_scope_digest env (mi_project inp) (mi_source inp) (mi_acl inp) = cv_scope_digest approved")
      (simp_all add: sf(2) len(1) mm dg)
qed

definition ex_evidence :: evidence where
  "ex_evidence = \<lparr>ev_chunk_id = ''1'', ev_source = ''s'', ev_source_id = ''i'', ev_title = ''t'', ev_uri = None,
     ev_content = ''x'', ev_score = Fin 1, ev_semantic_rank = None, ev_lexical_rank = Some 1, ev_updated_at = 0,
     ev_metadata = JNull\<rparr>"

definition ex_inp :: metadata_input where
  "ex_inp = \<lparr>mi_token_budget = 256, mi_corpus_revision = 3, mi_memory_revision = None, mi_fingerprint = None,
     mi_project = Some ''p'', mi_source = None, mi_acl = [''p''], mi_warning = None\<rparr>"

definition ex_approval :: context_validation where
  "ex_approval = \<lparr>cv_scope_digest = replicate 64 (CHR ''0''), cv_minimum_corpus = 1, cv_maximum_budget = 1000,
     cv_allow_degraded = False\<rparr>"

lemma ex_published_evidence: "cb_evidence (published_bundle ex_cx_env ''q'' [ex_evidence] [] ''hybrid'' ex_inp) \<noteq> []"
proof -
  have h: "length (context_header ''q'' 1024 False) \<le> 400"
  proof -
    have "1 \<le> 1024 - (length query_prefix + length (instructions False))"
      using header_lengths(1) header_lengths(2) [of False] by simp
    then have "ContextBundle.truncate ''q'' (1024 - (length query_prefix + length (instructions False))) = ''q''"
      by (simp add: ContextBundle.truncate_def)
    then show ?thesis
      using header_lengths(1) header_lengths(2) [of False] by (simp add: context_header_def Let_def)
  qed
  have p: "length (evidence_prefix ex_cx_env 1 ex_evidence) \<le> 100"
    by (simp add: evidence_prefix_def ex_evidence_def ex_cx_env_def dot_def decimal.simps)
  obtain ctx inc where a: "add_evidence ex_cx_env 1024 [ex_evidence] (context_header ''q'' 1024 False, []) = (ctx, inc)"
    by fastforce
  have c: "ev_content ex_evidence = ''x''" by (simp add: ex_evidence_def)
  have tx: "ContextBundle.truncate ''x'' n = ''x''" if "1 \<le> n" for n
    using that by (simp add: ContextBundle.truncate_def)
  from h p have "length (context_header ''q'' 1024 False) + length (evidence_prefix ex_cx_env 1 ex_evidence) + 4 < 1024"
    by linarith
  then have "inc \<noteq> []" using a by (auto simp: Let_def c tx)
  moreover have "assemble ex_cx_env ''q'' [ex_evidence] []
      (clamp 256 MIN_CONTEXT_TOKENS MAX_CONTEXT_TOKENS * CHARS_PER_TOKEN) = (ctx, inc, [])"
    using a by (simp add: assemble_def clamp_def MIN_CONTEXT_TOKENS_def MAX_CONTEXT_TOKENS_def CHARS_PER_TOKEN_def
        del: add_evidence.simps)
  ultimately show ?thesis
    using build_fields(3) [of ex_cx_env "''q''" "[ex_evidence]" "[]" 256 ctx inc "[]" "''hybrid''" None]
    by (simp add: published_bundle_def stamped_fields(12)) (simp add: ex_inp_def)
qed

theorem published_bundles_validate_witness:
  "\<exists>pin. validate_context_bundle ex_cx_env (published_bundle ex_cx_env ''q'' [ex_evidence] [] ''hybrid'' ex_inp) ex_approval
     = Inr pin \<and> pn_corpus_revision pin = 3"
proof -
  have "trim (cx_now ex_cx_env) \<noteq> []" by (simp add: ex_cx_env_def text_eval)
  from published_bundles_validate [OF _ _ this, of "''q''" "[ex_evidence]" "[]" "''hybrid''" ex_inp ex_approval]
    ex_published_evidence
  show ?thesis
    by (simp add: ex_cx_env_def privacy_scope_digest_def ex_approval_def ex_inp_def clamp_def)
qed

section \<open>The replay guard against a sliding window\<close>

text \<open>The specification: a window of the last accepted keys with their operations, oldest first.\<close>

type_synonym replay_window = "(string \<times> provider_operation) list"

definition window_accept :: "nat \<Rightarrow> string \<Rightarrow> provider_operation \<Rightarrow> replay_window
    \<Rightarrow> replay_window \<times> (provider_error, bool) result" where
  "window_accept cap key op w = (case validate_opaque ''replay key'' key of Inl e \<Rightarrow> (w, Inl e) | Inr _ \<Rightarrow>
     (case map_of w key of
        Some previous \<Rightarrow> (w, if is_write previous \<or> is_write op then Inl AmbiguousWriteStatus
                            else if previous = op then Inr False else Inl ReplayMismatch)
      | None \<Rightarrow> (push_bounded cap (key, op) w, Inr True)))"

definition guard_inv :: "replay_guard \<Rightarrow> bool" where
  "guard_inv g \<longleftrightarrow> 1 \<le> rg_capacity g \<and> length (rg_order g) \<le> rg_capacity g \<and> distinct (rg_order g)
     \<and> dom (rg_operations g) = set (rg_order g)"

definition guard_window :: "replay_guard \<Rightarrow> replay_window" where
  "guard_window g = map (\<lambda>k. (k, the (rg_operations g k))) (rg_order g)"

lemma map_of_window: "guard_inv g \<Longrightarrow> map_of (guard_window g) key = rg_operations g key"
proof -
  assume "guard_inv g"
  then have d: "dom (rg_operations g) = set (rg_order g)" by (simp add: guard_inv_def)
  have "map_of (map (\<lambda>k. (k, the (rg_operations g k))) ks) key
      = (if key \<in> set ks then Some (the (rg_operations g key)) else None)" for ks
    by (induction ks) auto
  moreover have "key \<in> set (rg_order g) \<longleftrightarrow> rg_operations g key \<noteq> None" using d by (metis domIff)
  ultimately show ?thesis by (auto simp: guard_window_def)
qed

lemma accept_refines:
  assumes "guard_inv g" "accept key op g = (g', r)"
  shows "guard_inv g'" "rg_capacity g' = rg_capacity g"
    "window_accept (rg_capacity g) key op (guard_window g) = (guard_window g', r)"
proof -
  have ok: "guard_inv g' \<and> rg_capacity g' = rg_capacity g
      \<and> window_accept (rg_capacity g) key op (guard_window g) = (guard_window g', r)"
  proof (cases "is_ok (validate_opaque ''replay key'' key) \<and> rg_operations g key = None")
    case False
    with assms show ?thesis
      by (auto simp: accept_def window_accept_def map_of_window is_ok_def split: sum.splits option.splits if_splits)
  next
    case True
    then obtain u where v: "validate_opaque ''replay key'' key = Inr u" and n: "rg_operations g key = None"
      by (auto simp: is_ok_iff)
    from n assms(1) have fresh: "key \<notin> set (rg_order g)" by (auto simp: guard_inv_def)
    have w: "window_accept (rg_capacity g) key op (guard_window g)
        = (drop (Suc (length (rg_order g)) - rg_capacity g) (guard_window g) @ [(key, op)], Inr True)"
      using v n map_of_window [OF assms(1), of key] by (simp add: window_accept_def push_bounded_def) (simp add: guard_window_def)
    show ?thesis
    proof (cases "length (rg_order g) = rg_capacity g")
      case False
      with assms(2) v n have g': "g' = g\<lparr>rg_order := rg_order g @ [key], rg_operations := (rg_operations g)(key \<mapsto> op)\<rparr>"
        "r = Inr True" by (simp_all add: accept_def Let_def)
      have "guard_window g' = guard_window g @ [(key, op)]" using fresh by (auto simp: guard_window_def g')
      then show ?thesis
        using False assms(1) fresh unfolding w g'(2) by (simp add: guard_inv_def g')
    next
      case True
      with assms(1) obtain oldest rest where o: "rg_order g = oldest # rest"
        by (cases "rg_order g") (auto simp: guard_inv_def)
      with True assms(2) v n have g': "g' = g\<lparr>rg_order := rest @ [key],
          rg_operations := (rg_operations g)(oldest := None, key \<mapsto> op)\<rparr>" "r = Inr True"
        by (simp_all add: accept_def Let_def)
      have "oldest \<notin> set rest" using assms(1) o by (simp add: guard_inv_def)
      then have "guard_window g' = drop 1 (guard_window g) @ [(key, op)]"
        using fresh o by (auto simp: guard_window_def g')
      then show ?thesis
        using True assms(1) fresh o unfolding w g'(2) by (auto simp: guard_inv_def g')
    qed
  qed
  then show "guard_inv g'" "rg_capacity g' = rg_capacity g"
    "window_accept (rg_capacity g) key op (guard_window g) = (guard_window g', r)" by simp_all
qed

text \<open>A run of calls with their answers.\<close>

fun accept_all :: "(string \<times> provider_operation) list \<Rightarrow> replay_guard \<Rightarrow> replay_guard \<times> (provider_error, bool) result list" where
  "accept_all [] g = (g, [])"
| "accept_all ((key, op) # calls) g = (case accept key op g of (g1, r) \<Rightarrow>
     case accept_all calls g1 of (g2, rs) \<Rightarrow> (g2, r # rs))"

definition newly :: "(provider_error, bool) result list \<Rightarrow> nat" where
  "newly rs = length (filter (\<lambda>r. r = Inr True) rs)"

lemma newly_Cons [simp]: "newly [] = 0" "newly (r # rs) = (if r = Inr True then Suc (newly rs) else newly rs)"
  by (simp_all add: newly_def)

text \<open>The window after a run is what the run left of the old one, followed by what it added; a key
  among the last \<open>n\<close> entries is still there while fewer than the capacity were added after it.\<close>

lemma window_kept:
  assumes "guard_inv g" "accept key op g = (g', r)" "guard_window g = u @ v" "length v + (if r = Inr True then 1 else 0) \<le> rg_capacity g"
  shows "\<exists>u' w. guard_window g' = u' @ v @ w \<and> length w = (if r = Inr True then 1 else 0)"
proof -
  have w: "window_accept (rg_capacity g) key op (u @ v) = (guard_window g', r)"
    using accept_refines(3) [OF assms(1,2)] assms(3) by simp
  show ?thesis
  proof (cases "r = Inr True")
    case True
    with w have "guard_window g' = push_bounded (rg_capacity g) (key, op) (u @ v)"
      by (auto simp: window_accept_def split: sum.splits option.splits if_splits)
    moreover from assms(4) True have "length v < rg_capacity g" by simp
    from push_bounded_keeps [OF this] obtain u' where "push_bounded (rg_capacity g) (key, op) (u @ v) = u' @ v @ [(key, op)]" .
    ultimately have "guard_window g' = u' @ v @ [(key, op)]" by simp
    with True show ?thesis by (intro exI [of _ u'] exI [of _ "[(key, op)]"]) simp
  next
    case False
    with w have "guard_window g' = u @ v @ []"
      by (auto simp: window_accept_def split: sum.splits option.splits if_splits)
    with False show ?thesis by (intro exI [of _ u] exI [of _ "[]"]) simp
  qed
qed

lemma run_keeps:
  "guard_inv g \<Longrightarrow> accept_all calls g = (g', rs) \<Longrightarrow> guard_window g = u @ v \<Longrightarrow> length v + newly rs \<le> rg_capacity g \<Longrightarrow>
     guard_inv g' \<and> rg_capacity g' = rg_capacity g \<and> (\<exists>u' w. guard_window g' = u' @ v @ w)"
proof (induction calls arbitrary: g u v rs)
  case (Cons c calls)
  obtain key op where c: "c = (key, op)" by fastforce
  obtain g1 r where a: "accept key op g = (g1, r)" by fastforce
  obtain rs1 where b: "accept_all calls g1 = (g', rs1)" "rs = r # rs1"
    using Cons.prems(2) a by (auto simp: c split: prod.splits)
  note ref = accept_refines [OF Cons.prems(1) a]
  have le: "length v + (if r = Inr True then 1 else 0) + newly rs1 \<le> rg_capacity g"
    using Cons.prems(4) b(2) by (cases "r = Inr True") simp_all
  then obtain u1 w where w: "guard_window g1 = u1 @ v @ w" "length w = (if r = Inr True then 1 else 0)"
    using window_kept [OF Cons.prems(1) a Cons.prems(3)] by fastforce
  have "length (v @ w) + newly rs1 \<le> rg_capacity g1" using le w(2) ref(2) by simp
  with Cons.IH [OF ref(1) b(1), of u1 "v @ w"] w(1) ref(2) show ?case by auto
next
  case Nil
  then have "\<exists>u' w. guard_window g' = u' @ v @ w" by (intro exI [of _ u] exI [of _ "[]"]) simp
  with Nil show ?case by simp
qed



end
