(* ===== verification/KnowledgeGraph.thy ===== *)
theory KnowledgeGraph
  imports Values
begin

text \<open>
  The contract of the knowledge graph (\<open>crates/core/src/knowledge_graph.rs\<close>): identities of nodes,
  edges with their support, and the labels a relationship of two records may carry. Node identities
  are texts that percent-encode a key; an empty list of labels means that nothing restricts access.
\<close>

section \<open>Constants and kinds\<close>

definition MAX_NODE_KEY_BYTES :: nat where "MAX_NODE_KEY_BYTES = 512"
definition MAX_SUPPORT_RECORDS :: nat where "MAX_SUPPORT_RECORDS = 64"
definition MAX_INVALIDATION_KEYS :: nat where "MAX_INVALIDATION_KEYS = 64"
definition GRAPH_VERSION :: string where "GRAPH_VERSION = ''cortana.knowledge-graph.v1''"
definition DEFAULT_DERIVATION_VERSION :: string where "DEFAULT_DERIVATION_VERSION = ''cortana.graph-derivation.v1''"
definition MAX_PAGE_SIZE :: nat where "MAX_PAGE_SIZE = 100"
definition MAX_NODES_PER_EXPANSION :: nat where "MAX_NODES_PER_EXPANSION = 200"
definition MAX_EDGES_PER_EXPANSION :: nat where "MAX_EDGES_PER_EXPANSION = 400"

datatype node_kind = WorkspaceNode | SourceNode | DocumentNode | ChunkNode | EntityNode | MemoryNode
  | ObservationNode | MentalModelNode | RepositoryNode | FileNode | SymbolNode

fun node_as_str :: "node_kind \<Rightarrow> string" where
  "node_as_str WorkspaceNode = ''workspace''"
| "node_as_str SourceNode = ''source''"
| "node_as_str DocumentNode = ''document''"
| "node_as_str ChunkNode = ''chunk''"
| "node_as_str EntityNode = ''entity''"
| "node_as_str MemoryNode = ''memory''"
| "node_as_str ObservationNode = ''observation''"
| "node_as_str MentalModelNode = ''mental-model''"
| "node_as_str RepositoryNode = ''repository''"
| "node_as_str FileNode = ''file''"
| "node_as_str SymbolNode = ''symbol''"

datatype edge_kind = Contains | References | Backlink | Nearby | SameThread | AuthoredBy | Mentions
  | Temporal | SemanticallyRelated | Supports | Contradicts | Reinforces | Supersedes | Observes
  | Derives | DependsOn | Defines | Calls | Imports

definition ALL_EDGE_KINDS :: "edge_kind list" where
  "ALL_EDGE_KINDS = [Contains, References, Backlink, Nearby, SameThread, AuthoredBy, Mentions, Temporal,
     SemanticallyRelated, Supports, Contradicts, Reinforces, Supersedes, Observes, Derives, DependsOn,
     Defines, Calls, Imports]"

definition is_directional :: "edge_kind \<Rightarrow> bool" where
  "is_directional k \<longleftrightarrow> \<not> (k = Nearby \<or> k = SemanticallyRelated \<or> k = Reinforces)"

text \<open>The name the derived \<open>Debug\<close> prints.\<close>

fun edge_debug :: "edge_kind \<Rightarrow> string" where
  "edge_debug Contains = ''Contains''" | "edge_debug References = ''References''"
| "edge_debug Backlink = ''Backlink''" | "edge_debug Nearby = ''Nearby''"
| "edge_debug SameThread = ''SameThread''" | "edge_debug AuthoredBy = ''AuthoredBy''"
| "edge_debug Mentions = ''Mentions''" | "edge_debug Temporal = ''Temporal''"
| "edge_debug SemanticallyRelated = ''SemanticallyRelated''" | "edge_debug Supports = ''Supports''"
| "edge_debug Contradicts = ''Contradicts''" | "edge_debug Reinforces = ''Reinforces''"
| "edge_debug Supersedes = ''Supersedes''" | "edge_debug Observes = ''Observes''"
| "edge_debug Derives = ''Derives''" | "edge_debug DependsOn = ''DependsOn''"
| "edge_debug Defines = ''Defines''" | "edge_debug Calls = ''Calls''" | "edge_debug Imports = ''Imports''"

datatype edge_origin = Explicit | Derived | Inferred

section \<open>Identities of nodes\<close>

datatype graph_node_id = GraphNodeId string

datatype graph_error = NodeKeySize | NodeKeyControl | NoWorkspaceScope | ConfidenceRange | UnsupportedContract
  | SelfEdge | NoUpdateTime | NoSupportRecord | NoInvalidationKey | InferredNeedsConfidence
  | ExplicitClaimsConfidence | NoSharedVisibility

definition unreserved :: "char \<Rightarrow> bool" where
  "unreserved c \<longleftrightarrow> is_ascii_alnum (byte c) \<or> c = CHR ''-'' \<or> c = CHR ''_'' \<or> c = CHR ''.'' \<or> c = CHR ''~''"

definition hex_upper :: "nat \<Rightarrow> char" where
  "hex_upper n = char_of (if n < 10 then 48 + n else 55 + n)"

fun percent_encode :: "string \<Rightarrow> string" where
  "percent_encode [] = []"
| "percent_encode (c # cs) = (if unreserved c then c # percent_encode cs
     else CHR ''%'' # hex_upper (byte c div 16) # hex_upper (byte c mod 16) # percent_encode cs)"

definition new_node_id :: "node_kind \<Rightarrow> string \<Rightarrow> (graph_error, graph_node_id) result" where
  "new_node_id k stable_key =
     (if stable_key = [] \<or> MAX_NODE_KEY_BYTES < length stable_key then Inl NodeKeySize
      else if any_control stable_key then Inl NodeKeyControl
      else Inr (GraphNodeId (node_as_str k @ '':'' @ percent_encode stable_key)))"

fun node_text :: "graph_node_id \<Rightarrow> string" where
  "node_text (GraphNodeId s) = s"

section \<open>Edges\<close>

definition normalize_bounded :: "nat \<Rightarrow> string list \<Rightarrow> string list" where
  "normalize_bounded maximum values =
     take maximum (sort_dedup (filter (\<lambda>v. v \<noteq> []) (map trim values)))"

record relationship_support =
  record_ids :: "string list"
  invalidation_keys :: "string list"

definition normalize_support :: "relationship_support \<Rightarrow> relationship_support" where
  "normalize_support s = s\<lparr>record_ids := normalize_bounded MAX_SUPPORT_RECORDS (record_ids s),
     invalidation_keys := normalize_bounded MAX_INVALIDATION_KEYS (invalidation_keys s)\<rparr>"

definition validate_support :: "relationship_support \<Rightarrow> (graph_error, unit) result" where
  "validate_support s =
     (if record_ids s = [] then Inl NoSupportRecord
      else if invalidation_keys s = [] then Inl NoInvalidationKey else Inr ())"

record graph_edge =
  ge_contract_version :: string
  ge_source :: graph_node_id
  ge_target :: graph_node_id
  ge_kind :: edge_kind
  ge_origin :: edge_origin
  ge_derivation_version :: string
  ge_confidence :: "float_val option"
  ge_citation_authority :: bool
  ge_updated_at :: string
  ge_project :: string
  ge_acl :: "string list"
  ge_support :: relationship_support

definition new_edge :: "graph_node_id \<Rightarrow> graph_node_id \<Rightarrow> edge_kind \<Rightarrow> edge_origin \<Rightarrow> string \<Rightarrow> string
    \<Rightarrow> string list \<Rightarrow> relationship_support \<Rightarrow> (graph_error, graph_edge) result" where
  "new_edge source target kind origin updated_at project acl support =
     (if trim project = [] then Inl NoWorkspaceScope
      else Inr \<lparr>ge_contract_version = GRAPH_VERSION, ge_source = source, ge_target = target, ge_kind = kind,
        ge_origin = origin, ge_derivation_version = DEFAULT_DERIVATION_VERSION, ge_confidence = None,
        ge_citation_authority = (origin = Explicit), ge_updated_at = updated_at, ge_project = project,
        ge_acl = normalize_bounded 64 acl, ge_support = normalize_support support\<rparr>)"

definition with_confidence :: "float_val \<Rightarrow> graph_edge \<Rightarrow> (graph_error, graph_edge) result" where
  "with_confidence confidence e =
     (if \<not> in_unit confidence then Inl ConfidenceRange else Inr (e\<lparr>ge_confidence := Some confidence\<rparr>))"

definition validate_edge :: "graph_edge \<Rightarrow> (graph_error, unit) result" where
  "validate_edge e =
     (if ge_contract_version e \<noteq> GRAPH_VERSION then Inl UnsupportedContract
      else if ge_source e = ge_target e then Inl SelfEdge
      else if trim (ge_updated_at e) = [] then Inl NoUpdateTime
      else bindE (validate_support (ge_support e)) (\<lambda>_.
        if ge_origin e = Inferred \<and> ge_confidence e = None then Inl InferredNeedsConfidence
        else if ge_origin e = Explicit \<and> ge_confidence e \<noteq> None then Inl ExplicitClaimsConfidence
        else Inr ()))"

fun origin_phrase :: "edge_origin \<Rightarrow> string" where
  "origin_phrase Explicit = ''declared explicitly''"
| "origin_phrase Derived = ''derived deterministically''"
| "origin_phrase Inferred = ''inferred and qualified''"

definition explanation :: "graph_edge \<Rightarrow> string" where
  "explanation e = to_ascii_lowercase (edge_debug (ge_kind e)) @ '' relationship from '' @ node_text (ge_source e)
     @ '' to '' @ node_text (ge_target e) @ '', '' @ origin_phrase (ge_origin e) @ '' by ''
     @ ge_derivation_version e @ '', supported by '' @ join '', '' (record_ids (ge_support e))"

definition require_acl_intersection :: "string list \<Rightarrow> string list \<Rightarrow> (graph_error, string list) result" where
  "require_acl_intersection left right =
     (let left = sort_dedup left; right = sort_dedup right in
      if left = [] then Inr right
      else if right = [] then Inr left
      else (let intersection = filter (\<lambda>x. x \<in> set right) left in
            if intersection = [] then Inl NoSharedVisibility else Inr intersection))"


section \<open>Properties\<close>

text \<open>Reading an identity back: the text up to the first colon names the kind, the rest is decoded.\<close>

definition hex_value :: "char \<Rightarrow> nat" where
  "hex_value c = (if byte c < 58 then byte c - 48 else byte c - 55)"

fun percent_decode :: "string \<Rightarrow> string" where
  "percent_decode [] = []"
| "percent_decode (c # cs) = (if c = CHR ''%'' then
     (case cs of h # l # ds \<Rightarrow> char_of (16 * hex_value h + hex_value l) # percent_decode ds | _ \<Rightarrow> [])
     else c # percent_decode cs)"

definition kind_of_text :: "string \<Rightarrow> node_kind option" where
  "kind_of_text s = map_of (map (\<lambda>k. (node_as_str k, k)) [WorkspaceNode, SourceNode, DocumentNode, ChunkNode,
     EntityNode, MemoryNode, ObservationNode, MentalModelNode, RepositoryNode, FileNode, SymbolNode]) s"

definition read_node_id :: "graph_node_id \<Rightarrow> (node_kind \<times> string) option" where
  "read_node_id n = (let s = node_text n; head = takeWhile (\<lambda>c. c \<noteq> CHR '':'') s in
     map_option (\<lambda>k. (k, percent_decode (drop (Suc (length head)) s))) (kind_of_text head))"

lemma hex_value_upper: "n < 16 \<Longrightarrow> hex_value (hex_upper n) = n"
  by (auto simp: hex_value_def hex_upper_def byte_def)

lemma percent_reserved: "\<not> unreserved (CHR ''%'')"
  by (simp add: unreserved_def is_ascii_alnum_def byte_def)

lemma percent_decode_encode: "percent_decode (percent_encode s) = s"
proof (induction s)
  case (Cons c cs)
  have "byte c div 16 < 16" using byte_less [of c] by simp
  then have "char_of (16 * hex_value (hex_upper (byte c div 16)) + hex_value (hex_upper (byte c mod 16))) = c"
    by (simp add: hex_value_upper) (simp add: byte_def)
  with Cons percent_reserved show ?case by auto
qed simp

lemma node_as_str_colon: "CHR '':'' \<notin> set (node_as_str k)" and kind_of_node_as_str: "kind_of_text (node_as_str k) = Some k"
  by (cases k; simp add: kind_of_text_def)+

lemma percent_encode_alphabet: "c \<in> set (percent_encode s) \<Longrightarrow> unreserved c \<or> c = CHR ''%''"
proof (induction s)
  case (Cons d s)
  have "unreserved (hex_upper n)" if "n < 16" for n
    using that by (auto simp: unreserved_def hex_upper_def is_ascii_alnum_def byte_def)
  moreover have "byte d div 16 < 16" using byte_less [of d] by simp
  ultimately show ?case using Cons by (auto split: if_splits)
qed simp

lemma length_percent_encode: "length s \<le> length (percent_encode s) \<and> length (percent_encode s) \<le> 3 * length s"
  by (induction s) auto

text \<open>
  An identity names its node. Whatever key is accepted, the identity can be read back to exactly
  the kind and the key it was made of, so two nodes with the same identity are the same node; its
  text is the kind, a colon, and at most three times as many bytes as the key, all of them letters,
  digits, hyphen, underscore, full stop, tilde or percent signs.
\<close>

theorem node_identity:
  assumes "new_node_id k key = Inr n"
  shows "read_node_id n = Some (k, key) \<and> (new_node_id k' key' = Inr n \<longrightarrow> k' = k \<and> key' = key)
    \<and> (\<exists>e. node_text n = node_as_str k @ '':'' @ e \<and> length e \<le> 1536
        \<and> list_all (\<lambda>c. unreserved c \<or> c = CHR ''%'') e)"
proof -
  have n: "n = GraphNodeId (node_as_str k @ '':'' @ percent_encode key)" "length key \<le> 512"
    if "new_node_id k key = Inr n" for k key
    using that by (auto simp: new_node_id_def MAX_NODE_KEY_BYTES_def split: if_splits)
  have read: "read_node_id n = Some (k, key)" if "new_node_id k key = Inr n" for k key
  proof -
    have "takeWhile (\<lambda>c. c \<noteq> CHR '':'') (node_as_str k @ '':'' @ percent_encode key) = node_as_str k"
      using node_as_str_colon by (subst takeWhile_append2) auto
    then show ?thesis
      using n(1) [OF that] by (simp add: read_node_id_def Let_def kind_of_node_as_str percent_decode_encode)
  qed
  moreover have "length (percent_encode key) \<le> 1536"
    using n(2) [OF assms] length_percent_encode [of key] by linarith
  ultimately show ?thesis
    using n(1) [OF assms] read [OF assms] percent_encode_alphabet by (auto simp: list_all_iff)
qed

theorem node_identity_witness:
  "\<exists>n. new_node_id MentalModelNode ''a:b'' = Inr n \<and> read_node_id n = Some (MentalModelNode, ''a:b'')"
proof -
  have "new_node_id MentalModelNode ''a:b'' = Inr (GraphNodeId ''mental-model:a%3Ab'')"
    by (simp add: new_node_id_def MAX_NODE_KEY_BYTES_def text_eval unreserved_def is_ascii_alnum_def hex_upper_def char_eval)
  with node_identity [OF this] show ?thesis by blast
qed

text \<open>Who may see a record: anybody when it has no labels, otherwise holders of one of them.\<close>

definition visible_to :: "string set \<Rightarrow> string list \<Rightarrow> bool" where
  "visible_to held labels \<longleftrightarrow> labels = [] \<or> set labels \<inter> held \<noteq> {}"

lemma normalize_bounded_props:
  "sorted_wrt (<) (normalize_bounded n vs)" "length (normalize_bounded n vs) \<le> n"
  "set (normalize_bounded n vs) \<subseteq> trim ` set vs - {[]}"
  "normalize_bounded n vs = [] \<longleftrightarrow> n = 0 \<or> list_all (\<lambda>v. trim v = []) vs"
proof -
  let ?s = "sort_dedup (filter (\<lambda>v. v \<noteq> []) (map trim vs))"
  show "sorted_wrt (<) (normalize_bounded n vs)"
    using strict_sort_dedup [of "filter (\<lambda>v. v \<noteq> []) (map trim vs)"]
    by (simp add: normalize_bounded_def sorted_wrt_take)
  show "length (normalize_bounded n vs) \<le> n" by (simp add: normalize_bounded_def)
  have "set (take n ?s) \<subseteq> set ?s" by (rule set_take_subset)
  then show "set (normalize_bounded n vs) \<subseteq> trim ` set vs - {[]}"
    unfolding normalize_bounded_def set_sort_dedup by auto
  show "normalize_bounded n vs = [] \<longleftrightarrow> n = 0 \<or> list_all (\<lambda>v. trim v = []) vs"
    by (auto simp: normalize_bounded_def filter_empty_conv list_all_iff)
qed

text \<open>
  A relationship never widens access. The labels two records share are computed exactly when one
  of them has none or they have one in common; they are strictly sorted, whoever may see a record
  with them may see both records, and they are empty only when neither record is restricted. An
  edge keeps at most 64 trimmed, nonempty ones of the labels it is given, and a set that is not
  all blank never becomes empty.
\<close>

theorem relationship_never_widens_access:
  "(\<forall>out. require_acl_intersection left right = Inr out \<longrightarrow>
       sorted_wrt (<) out \<and> (visible_to held out \<longrightarrow> visible_to held left \<and> visible_to held right)
     \<and> (out = [] \<longleftrightarrow> left = [] \<and> right = []))
   \<and> (require_acl_intersection left right = Inl NoSharedVisibility \<longleftrightarrow>
       left \<noteq> [] \<and> right \<noteq> [] \<and> set left \<inter> set right = {})
   \<and> (\<forall>e. new_edge source target kind origin updated_at project acl support = Inr e \<longrightarrow>
       length (ge_acl e) \<le> 64 \<and> set (ge_acl e) \<subseteq> trim ` set acl - {[]}
     \<and> (ge_acl e = [] \<longleftrightarrow> list_all (\<lambda>v. trim v = []) acl))"
proof (intro conjI allI impI)
  fix out assume "require_acl_intersection left right = Inr out"
  then consider "left = []" "out = sort_dedup right" | "right = []" "out = sort_dedup left"
    | "left \<noteq> []" "right \<noteq> []" "out \<noteq> []" "out = filter (\<lambda>x. x \<in> set right) (sort_dedup left)"
    by (auto simp: require_acl_intersection_def Let_def split: if_splits)
  note cs = this
  show "sorted_wrt (<) out" using cs by cases (simp_all add: strict_sort_dedup sorted_wrt_filter)
  show "visible_to held left" if "visible_to held out" using cs that by cases (auto simp: visible_to_def)
  show "visible_to held right" if "visible_to held out" using cs that by cases (auto simp: visible_to_def)
  show "(out = []) = (left = [] \<and> right = [])" using cs by cases simp_all
next
  show "(require_acl_intersection left right = Inl NoSharedVisibility) =
      (left \<noteq> [] \<and> right \<noteq> [] \<and> set left \<inter> set right = {})"
    by (auto simp: require_acl_intersection_def Let_def filter_empty_conv)
qed (auto simp: new_edge_def normalize_bounded_props(2,4) dest!: subsetD [OF normalize_bounded_props(3)] split: if_splits)

theorem relationship_never_widens_access_witness:
  "\<exists>out. require_acl_intersection [''b'', ''a''] [''a'', ''c''] = Inr out \<and> \<not> visible_to {''b'', ''c''} out \<and> out \<noteq> []"
proof -
  have "require_acl_intersection [''b'', ''a''] [''a'', ''c''] = Inr [''a'']"
    by (simp add: require_acl_intersection_def sort_dedup_def)
  with relationship_never_widens_access [of "[''b'', ''a'']" "[''a'', ''c'']"] show ?thesis
    by (auto simp: visible_to_def)
qed

text \<open>
  What an edge may claim. An edge just made validates exactly when it joins two different nodes,
  has an update time, keeps a supporting record and an invalidation key, and is not inferred;
  qualified with a confidence, exactly when these hold and it is not explicit. Only explicit
  edges ever have citation authority, so no edge that validates with a confidence has it.
\<close>

theorem edge_claims:
  assumes "new_edge source target kind origin updated_at project acl support = Inr e"
  defines "sound \<equiv> source \<noteq> target \<and> trim updated_at \<noteq> []
    \<and> list_ex (\<lambda>v. trim v \<noteq> []) (record_ids support) \<and> list_ex (\<lambda>v. trim v \<noteq> []) (invalidation_keys support)"
  shows "(validate_edge e = Inr () \<longleftrightarrow> sound \<and> origin \<noteq> Inferred)
    \<and> (ge_citation_authority e \<longleftrightarrow> origin = Explicit)
    \<and> (\<forall>c e'. with_confidence c e = Inr e' \<longrightarrow> in_unit c \<and> e' = e\<lparr>ge_confidence := Some c\<rparr>
        \<and> (validate_edge e' = Inr () \<longleftrightarrow> sound \<and> origin \<noteq> Explicit)
        \<and> (validate_edge e' = Inr () \<longrightarrow> \<not> ge_citation_authority e'))"
proof -
  have e: "ge_contract_version e = GRAPH_VERSION" "ge_source e = source" "ge_target e = target" "ge_origin e = origin"
    "ge_updated_at e = updated_at" "ge_confidence e = None" "ge_support e = normalize_support support"
    "ge_citation_authority e \<longleftrightarrow> origin = Explicit"
    using assms(1) by (auto simp: new_edge_def split: if_splits)
  have s: "validate_support (normalize_support support) = Inr () \<longleftrightarrow>
      list_ex (\<lambda>v. trim v \<noteq> []) (record_ids support) \<and> list_ex (\<lambda>v. trim v \<noteq> []) (invalidation_keys support)"
    by (auto simp: validate_support_def normalize_support_def normalize_bounded_props(4) MAX_SUPPORT_RECORDS_def
        MAX_INVALIDATION_KEYS_def list_all_iff list_ex_iff)
  have v: "validate_edge (e\<lparr>ge_confidence := c\<rparr>) = Inr () \<longleftrightarrow> sound
      \<and> (origin = Inferred \<longrightarrow> c \<noteq> None) \<and> (origin = Explicit \<longrightarrow> c = None)" for c
    using s by (auto simp: validate_edge_def e sound_def result_simps)
  have "e\<lparr>ge_confidence := None\<rparr> = e" using e(6) by simp
  with v [of None] v [of "Some c" for c] e(8) show ?thesis
    by (auto simp: with_confidence_def split: if_splits)
qed

definition ex_edge :: graph_edge where
  "ex_edge = \<lparr>ge_contract_version = GRAPH_VERSION, ge_source = GraphNodeId ''file:a'', ge_target = GraphNodeId ''file:b'',
     ge_kind = Mentions, ge_origin = Inferred, ge_derivation_version = DEFAULT_DERIVATION_VERSION, ge_confidence = None,
     ge_citation_authority = False, ge_updated_at = ''t'', ge_project = ''p'', ge_acl = [],
     ge_support = \<lparr>record_ids = [''r''], invalidation_keys = [''k'']\<rparr>\<rparr>"

theorem edge_claims_witness:
  "validate_edge ex_edge \<noteq> Inr () \<and> validate_edge (ex_edge\<lparr>ge_confidence := Some (Fin 1)\<rparr>) = Inr ()"
proof -
  have new: "new_edge (GraphNodeId ''file:a'') (GraphNodeId ''file:b'') Mentions Inferred ''t'' ''p'' []
      \<lparr>record_ids = [''r''], invalidation_keys = [''k'']\<rparr> = Inr ex_edge"
    by (simp add: new_edge_def ex_edge_def normalize_support_def normalize_bounded_def MAX_SUPPORT_RECORDS_def
        MAX_INVALIDATION_KEYS_def sort_dedup_def text_eval)
  note claims = edge_claims [OF new]
  have t: "trim ''t'' \<noteq> []" "trim ''r'' \<noteq> []" "trim ''k'' \<noteq> []" by (simp_all add: text_eval)
  have "with_confidence (Fin 1) ex_edge = Inr (ex_edge\<lparr>ge_confidence := Some (Fin 1)\<rparr>)"
    by (simp add: with_confidence_def in_unit_iff)
  then have "validate_edge (ex_edge\<lparr>ge_confidence := Some (Fin 1)\<rparr>) = Inr ()"
    using spec [OF spec [OF conjunct2 [OF conjunct2 [OF claims]], of "Fin 1"], of "ex_edge\<lparr>ge_confidence := Some (Fin 1)\<rparr>"] t
    by simp
  with conjunct1 [OF claims] show ?thesis by simp
qed

end
