(* ===== verification/Crypto.thy ===== *)
theory Crypto
  imports Values "HOL-Library.Word" "HOL-Library.Countable"
begin

text \<open>
  Key derivation and sealing (the first half of \<open>crates/core/src/device_identity.rs\<close>). The primitives
  of the external crates are parameters, gathered in \<open>crypto\<close>: base64, HKDF-SHA256 as the composition
  of extraction and expansion to 32 bytes, ChaCha20-Poly1305 with associated data, SHA-256, the
  signature scheme Ed25519 and the agreement X25519. Byte vectors are strings of bytes. What the
  properties rely on of the primitives is \<open>lawful\<close>, the behaviour their documentation promises.
\<close>

section \<open>Primitives\<close>

record crypto =
  cy_encode :: "string \<Rightarrow> string"
  cy_decode :: "string \<Rightarrow> string option"
  cy_hkdf :: "string \<Rightarrow> string \<Rightarrow> string \<Rightarrow> string"
  cy_encrypt :: "string \<Rightarrow> string \<Rightarrow> string \<Rightarrow> string \<Rightarrow> string option"
  cy_decrypt :: "string \<Rightarrow> string \<Rightarrow> string \<Rightarrow> string \<Rightarrow> string option"
  cy_sha256 :: "string \<Rightarrow> string"
  cy_sign_public :: "string \<Rightarrow> string"
  cy_sign :: "string \<Rightarrow> string \<Rightarrow> string"
  cy_verifying :: "string \<Rightarrow> bool"
  cy_signature :: "string \<Rightarrow> bool"
  cy_verify :: "string \<Rightarrow> string \<Rightarrow> string \<Rightarrow> bool"
  cy_agree_public :: "string \<Rightarrow> string"
  cy_agree :: "string \<Rightarrow> string \<Rightarrow> string"
  cy_json :: "json \<Rightarrow> string"
  cy_parse :: "string \<Rightarrow> json option"
  cy_exact :: "rat \<Rightarrow> bool"

text \<open>
  \<open>cy_hkdf salt secret info\<close>, \<open>cy_encrypt key nonce data message\<close>, \<open>cy_agree secret public\<close>,
  \<open>cy_sign seed message\<close>, \<open>cy_verify public message signature\<close>; \<open>cy_verifying\<close> and \<open>cy_signature\<close> say whether
  bytes are a verifying key and a signature, \<open>cy_json\<close> and \<open>cy_parse\<close> are \<open>serde_json\<close>. A JSON value is
  canonical when the keys of its objects are sorted, as the maps of \<open>serde_json\<close> keep them, and its
  numbers are among those, \<open>cy_exact\<close>, that are read back as they were written, at least the signed and
  the unsigned 64-bit integers.
\<close>

fun canonical :: "crypto \<Rightarrow> json \<Rightarrow> bool" where
  "canonical cy (JNumber r) = cy_exact cy r"
| "canonical cy (JArray vs) = list_all (canonical cy) vs"
| "canonical cy (JObject m) = (sorted_wrt (<) (map fst m) \<and> list_all (\<lambda>kv. canonical cy (snd kv)) m)"
| "canonical cy v = True"

definition lawful :: "crypto \<Rightarrow> bool" where
  "lawful cy \<longleftrightarrow> (\<forall>x. cy_decode cy (cy_encode cy x) = Some x)
     \<and> (\<forall>s k i. length (cy_hkdf cy s k i) = 32)
     \<and> (\<forall>k n a m. length k = 32 \<and> length n = 12 \<longrightarrow> (\<exists>c. cy_encrypt cy k n a m = Some c \<and> cy_decrypt cy k n a c = Some m))
     \<and> (\<forall>s. length s = 32 \<longrightarrow> length (cy_sign_public cy s) = 32 \<and> cy_verifying cy (cy_sign_public cy s)
          \<and> length (cy_agree_public cy s) = 32)
     \<and> (\<forall>s m. length s = 32 \<longrightarrow> cy_signature cy (cy_sign cy s m) \<and> cy_verify cy (cy_sign_public cy s) m (cy_sign cy s m))
     \<and> (\<forall>s t. length s = 32 \<and> length t = 32 \<longrightarrow> cy_agree cy s (cy_agree_public cy t) = cy_agree cy t (cy_agree_public cy s))
     \<and> (\<forall>x. trim (cy_encode cy x) = cy_encode cy x)
     \<and> (\<forall>v. canonical cy v \<longrightarrow> cy_parse cy (cy_json cy v) = Some v)
     \<and> (\<forall>z. - (2 ^ 63) \<le> z \<and> z < 2 ^ 64 \<longrightarrow> cy_exact cy (of_int z))"

lemma lawfulD:
  assumes "lawful cy"
  shows "cy_decode cy (cy_encode cy x) = Some x" "length (cy_hkdf cy s k i) = 32"
    "length k = 32 \<Longrightarrow> length n = 12 \<Longrightarrow> \<exists>c. cy_encrypt cy k n a m = Some c \<and> cy_decrypt cy k n a c = Some m"
    "length s = 32 \<Longrightarrow> length (cy_sign_public cy s) = 32" "length s = 32 \<Longrightarrow> cy_verifying cy (cy_sign_public cy s)"
    "length s = 32 \<Longrightarrow> length (cy_agree_public cy s) = 32" "length s = 32 \<Longrightarrow> cy_signature cy (cy_sign cy s m)"
    "length s = 32 \<Longrightarrow> cy_verify cy (cy_sign_public cy s) m (cy_sign cy s m)"
    "length s = 32 \<Longrightarrow> length t = 32 \<Longrightarrow> cy_agree cy s (cy_agree_public cy t) = cy_agree cy t (cy_agree_public cy s)"
    "canonical cy v \<Longrightarrow> cy_parse cy (cy_json cy v) = Some v" "trim (cy_encode cy x) = cy_encode cy x"
    "- (2 ^ 63) \<le> z \<Longrightarrow> z < 2 ^ 63 \<Longrightarrow> cy_exact cy (of_int z)"
    "- (2 ^ 63) \<le> z \<Longrightarrow> z < 2 ^ 64 \<Longrightarrow> cy_exact cy (of_int z)"
  using assms by (simp_all add: lawful_def)

text \<open>Random bytes and identifiers: the draws of one call, numbered, and the time.\<close>

record identity_io =
  io_bytes :: "nat \<Rightarrow> nat \<Rightarrow> string"
  io_uuid :: "nat \<Rightarrow> string"
  io_now :: string

definition io_ok :: "identity_io \<Rightarrow> bool" where
  "io_ok io \<longleftrightarrow> (\<forall>i n. length (io_bytes io i n) = n)"

section \<open>Constants\<close>

definition CONTRACT_VERSION :: string where "CONTRACT_VERSION = ''cortana.identity.device.v1''"
definition KEY_HIERARCHY_VERSION :: string where "KEY_HIERARCHY_VERSION = ''kh1''"
definition ROOT_SECRET_BYTES :: nat where "ROOT_SECRET_BYTES = 32"
definition RECOVERY_SALT_BYTES :: nat where "RECOVERY_SALT_BYTES = 16"
definition DEVICE_SECRET_BYTES :: nat where "DEVICE_SECRET_BYTES = 64"
definition DEVICE_LIMIT :: nat where "DEVICE_LIMIT = 16"
definition RETIRED_KEY_HISTORY_LIMIT :: nat where "RETIRED_KEY_HISTORY_LIMIT = 8"
definition PURPOSE_ROOT_SIGNING :: string where "PURPOSE_ROOT_SIGNING = ''root-signing''"
definition AT_REST_SEAL_INFO :: string where "AT_REST_SEAL_INFO = ''at-rest-seal''"

section \<open>Sealing\<close>

datatype identity_error =
    NotBase64 string
  | Panicked
  | SealingFailed
  | OpenFailed
  | RecoveryKeyLength nat
  | DeviceMaterialLength
  | NoRootMaterial
  | WrongRecoveryKey
  | DeviceRevoked string
  | DeviceWiped string
  | AlreadyInitialized
  | DeviceNameEmpty
  | InvalidRegistry
  | UnsupportedContract string
  | UnsupportedHierarchy string
  | DeviceLimitReached
  | KeyVersionExhausted
  | AlreadyWiped string
  | SameRecoveryKey
  | UnknownDevice string
  | NoRetainedSecret string
  | SignatureEncoding
  | ExportContract string
  | ExportHierarchy string
  | WrongCredentialKey
  | MissingCredentialDevice
  | NoSelfDevice
  | TargetIsSelf
  | TargetNotActive string
  | BundleNotJson
  | MissingHeader
  | BundleFormat
  | BundleTarget
  | BundleAccount
  | MissingSender
  | SenderNotActive string
  | MissingSigningKey
  | SigningKeyMismatch
  | SigningKeyInvalid
  | SignatureFailed
  | BundleOpenFailed
  | LocalDeviceMissing string
  | CredentialMissing

record sealed_blob =
  sb_nonce :: string
  sb_ciphertext :: string

definition encode_blob :: "crypto \<Rightarrow> string \<Rightarrow> string \<Rightarrow> sealed_blob" where
  "encode_blob cy nonce ciphertext = \<lparr>sb_nonce = cy_encode cy nonce, sb_ciphertext = cy_encode cy ciphertext\<rparr>"

definition seal :: "crypto \<Rightarrow> string \<Rightarrow> string \<Rightarrow> string \<Rightarrow> (identity_error, sealed_blob) result" where
  "seal cy nonce key plaintext = bindE (ok_or (cy_encrypt cy key nonce [] plaintext) SealingFailed)
     (\<lambda>ciphertext. Inr (encode_blob cy nonce ciphertext))"

definition unseal :: "crypto \<Rightarrow> string \<Rightarrow> sealed_blob \<Rightarrow> (identity_error, string) result" where
  "unseal cy key blob =
     bindE (ok_or (cy_decode cy (sb_nonce blob)) (NotBase64 ''sealed identity nonce'')) (\<lambda>nonce.
     bindE (ok_or (cy_decode cy (sb_ciphertext blob)) (NotBase64 ''sealed identity ciphertext'')) (\<lambda>ciphertext.
     bindE (ensure (length nonce = 12) Panicked) (\<lambda>_.
     ok_or (cy_decrypt cy key nonce [] ciphertext) OpenFailed)))"

definition derive_key :: "crypto \<Rightarrow> string \<Rightarrow> string \<Rightarrow> string \<Rightarrow> string" where
  "derive_key cy ikm salt purpose =
     cy_hkdf cy salt ikm (CONTRACT_VERSION @ ''/'' @ KEY_HIERARCHY_VERSION @ ''/'' @ purpose)"

definition storage_seal_key :: "crypto \<Rightarrow> string \<Rightarrow> string \<Rightarrow> (identity_error, string) result" where
  "storage_seal_key cy recovery_key salt =
     bindE (ok_or (cy_decode cy (trim recovery_key)) (NotBase64 ''recovery key'')) (\<lambda>bytes.
     bindE (ensure (length bytes = ROOT_SECRET_BYTES) (RecoveryKeyLength (length bytes))) (\<lambda>_.
     Inr (derive_key cy bytes salt AT_REST_SEAL_INFO)))"

text \<open>\<open>u32::to_be_bytes\<close>.\<close>

definition be_bytes :: "32 word \<Rightarrow> string" where
  "be_bytes w = map (\<lambda>i. char_of (unat w div 256 ^ i mod 256)) [3, 2, 1, 0]"

definition purpose_key :: "crypto \<Rightarrow> string \<Rightarrow> 32 word \<Rightarrow> string \<Rightarrow> string" where
  "purpose_key cy root_secret generation purpose = derive_key cy root_secret (be_bytes generation) purpose"

definition hex_lower :: "nat \<Rightarrow> char" where
  "hex_lower n = char_of (if n < 10 then 48 + n else 87 + n)"

definition fingerprint :: "crypto \<Rightarrow> string \<Rightarrow> string" where
  "fingerprint cy signing_public = ''sha256:'' @
     concat (map (\<lambda>b. [hex_lower (byte b div 16), hex_lower (byte b mod 16)]) (take 8 (cy_sha256 cy signing_public)))"

section \<open>Secrets of a device\<close>

record device_secrets =
  ds_signing :: string
  ds_agreement :: string

definition generate_device_secrets :: "identity_io \<Rightarrow> nat \<Rightarrow> device_secrets" where
  "generate_device_secrets io i = \<lparr>ds_signing = io_bytes io i 32, ds_agreement = io_bytes io (i + 1) 32\<rparr>"

definition seal_device_secrets :: "crypto \<Rightarrow> string \<Rightarrow> string \<Rightarrow> device_secrets \<Rightarrow> (identity_error, sealed_blob) result" where
  "seal_device_secrets cy nonce key s = seal cy nonce key (ds_signing s @ ds_agreement s)"

definition unseal_device_secrets :: "crypto \<Rightarrow> string \<Rightarrow> sealed_blob \<Rightarrow> (identity_error, device_secrets) result" where
  "unseal_device_secrets cy key blob = bindE (unseal cy key blob) (\<lambda>material.
     bindE (ensure (length material = DEVICE_SECRET_BYTES) DeviceMaterialLength) (\<lambda>_.
     Inr \<lparr>ds_signing = take 32 material, ds_agreement = drop 32 material\<rparr>))"

section \<open>Lemmas\<close>

lemma seal_unseal:
  assumes "lawful cy" "length key = 32" "length nonce = 12"
  shows "\<exists>blob. seal cy nonce key m = Inr blob \<and> unseal cy key blob = Inr m"
proof -
  obtain c where "cy_encrypt cy key nonce [] m = Some c" "cy_decrypt cy key nonce [] c = Some m"
    using lawfulD(3) [OF assms] by blast
  then show ?thesis
    using assms by (simp add: seal_def unseal_def encode_blob_def ok_or_def ensure_def lawfulD(1))
qed

lemma length_storage_seal_key: "lawful cy \<Longrightarrow> storage_seal_key cy rk salt = Inr key \<Longrightarrow> length key = 32"
  by (auto simp: storage_seal_key_def derive_key_def result_simps lawfulD(2) split: if_splits)

definition secrets_ok :: "device_secrets \<Rightarrow> bool" where
  "secrets_ok s \<longleftrightarrow> length (ds_signing s) = 32 \<and> length (ds_agreement s) = 32"

lemma generated_ok: "io_ok io \<Longrightarrow> secrets_ok (generate_device_secrets io i)"
  by (simp add: io_ok_def secrets_ok_def generate_device_secrets_def)

lemma seal_unseal_device:
  assumes "lawful cy" "length key = 32" "length nonce = 12" "secrets_ok s"
  shows "\<exists>blob. seal_device_secrets cy nonce key s = Inr blob \<and> unseal_device_secrets cy key blob = Inr s"
proof -
  obtain blob where "seal cy nonce key (ds_signing s @ ds_agreement s) = Inr blob"
    "unseal cy key blob = Inr (ds_signing s @ ds_agreement s)"
    using seal_unseal [OF assms(1-3)] by blast
  then show ?thesis
    using assms(4) by (simp add: seal_device_secrets_def unseal_device_secrets_def secrets_ok_def DEVICE_SECRET_BYTES_def ensure_def)
qed

lemma unsealed_ok: "unseal_device_secrets cy key blob = Inr s \<Longrightarrow> secrets_ok s"
  by (auto simp: unseal_device_secrets_def result_simps secrets_ok_def DEVICE_SECRET_BYTES_def split: if_splits)

section \<open>A lawful instance\<close>

text \<open>For examples: letters for half bytes, ciphertexts that are the messages, signatures that are the
  keys, and an enumeration of the JSON values.\<close>

instance json :: countable by countable_datatype

fun ex_encode :: "string \<Rightarrow> string" where
  "ex_encode [] = []"
| "ex_encode (c # cs) = char_of (97 + byte c div 16) # char_of (97 + byte c mod 16) # ex_encode cs"

fun ex_decode :: "string \<Rightarrow> string option" where
  "ex_decode [] = Some []"
| "ex_decode [c] = None"
| "ex_decode (h # l # cs) = map_option ((#) (char_of (16 * (byte h - 97) + (byte l - 97)))) (ex_decode cs)"

definition ex_crypto :: crypto where
  "ex_crypto = \<lparr>cy_encode = ex_encode, cy_decode = ex_decode, cy_hkdf = \<lambda>s k i. replicate 32 (CHR ''k''),
     cy_encrypt = \<lambda>k n a m. Some m, cy_decrypt = \<lambda>k n a c. Some c, cy_sha256 = \<lambda>m. replicate 32 (CHR ''h''),
     cy_sign_public = \<lambda>s. s, cy_sign = \<lambda>s m. s, cy_verifying = \<lambda>p. True, cy_signature = \<lambda>s. True,
     cy_verify = \<lambda>p m s. s = p, cy_agree_public = \<lambda>s. s, cy_agree = \<lambda>s t. if s \<le> t then s @ t else t @ s,
     cy_json = \<lambda>v. replicate (to_nat v) (CHR ''j''), cy_parse = \<lambda>s. Some (from_nat (length s)), cy_exact = \<lambda>r. True\<rparr>"

lemma ex_encode_plain: "list_all (\<lambda>c. 32 < byte c \<and> byte c < 127) (ex_encode s)"
proof (induction s)
  case (Cons c s)
  have "byte c div 16 < 16" using byte_less [of c] by simp
  with Cons show ?case by (auto simp: byte_def)
qed simp

lemma ex_decode_encode: "ex_decode (ex_encode s) = Some s"
proof (induction s)
  case (Cons c s)
  have "byte c div 16 < 16" using byte_less [of c] by simp
  then have "byte (char_of (97 + byte c div 16)) = 97 + byte c div 16"
    "byte (char_of (97 + byte c mod 16)) = 97 + byte c mod 16" by (auto simp: byte_def)
  with Cons show ?case by (simp add: byte_def)
qed simp

lemma ex_crypto_lawful: "lawful ex_crypto"
  by (auto simp: lawful_def ex_crypto_def ex_decode_encode trim_plain [OF ex_encode_plain])

definition ex_io :: identity_io where
  "ex_io = \<lparr>io_bytes = \<lambda>i n. replicate n (char_of i), io_uuid = \<lambda>i. [char_of (97 + i)], io_now = ''now''\<rparr>"

lemma ex_io_ok: "io_ok ex_io"
  by (simp add: io_ok_def ex_io_def)

end
