(* ===== verification/AuditLog.thy ===== *)
theory AuditLog
  imports Prelude
begin

text \<open>
  The audit trail (\<open>Store::record_audit\<close> in \<open>crates/core/src/store.rs\<close>): a bounded log of who did what.
  The table \<open>audit_events\<close> is the list of its rows in the order of their keys.
\<close>

record audit_event =
  au_timestamp :: string
  au_principal :: string
  au_action :: string
  au_project :: "string option"
  au_source :: "string option"
  au_outcome :: string
  au_result_count :: "nat option"
  au_latency_ms :: nat

text \<open>\<open>i64::try_from(n).unwrap_or(i64::MAX)\<close>.\<close>

definition to_i64 :: "nat \<Rightarrow> nat" where
  "to_i64 n = (if n < 2 ^ 63 then n else 2 ^ 63 - 1)"

text \<open>The row is inserted, then every row but the newest \<open>max_events\<close> is deleted. A store that cannot
  be written at the moment keeps no event; such a store is left out here.\<close>

definition record_audit :: "string \<Rightarrow> string \<Rightarrow> string \<Rightarrow> string option \<Rightarrow> string option \<Rightarrow> string \<Rightarrow> nat option \<Rightarrow> nat
    \<Rightarrow> nat \<Rightarrow> audit_event list \<Rightarrow> audit_event list \<times> bool" where
  "record_audit now who action project source outcome result_count latency_ms max_events trail =
     (if max_events = 0 then (trail, False)
      else (let rows = trail @ [\<lparr>au_timestamp = now, au_principal = who, au_action = action, au_project = project,
                  au_source = source, au_outcome = outcome, au_result_count = map_option to_i64 result_count,
                  au_latency_ms = to_i64 latency_ms\<rparr>]
            in (rev (take (to_i64 max_events) (rev rows)), True)))"

lemma record_audit_window:
  assumes "0 < max_events"
  shows "record_audit now who action project source outcome result_count latency_ms max_events trail =
    (push_bounded (to_i64 max_events) \<lparr>au_timestamp = now, au_principal = who, au_action = action,
       au_project = project, au_source = source, au_outcome = outcome, au_result_count = map_option to_i64 result_count,
       au_latency_ms = to_i64 latency_ms\<rparr> trail, True)"
proof -
  have "1 \<le> to_i64 max_events" using assms by (simp add: to_i64_def)
  then have "rev (take (to_i64 max_events) (rev (trail @ [e]))) = push_bounded (to_i64 max_events) e trail" for e
    by (cases "to_i64 max_events") (simp_all add: push_bounded_def take_rev)
  then show ?thesis using assms by (simp add: record_audit_def)
qed

end
