(* ===== verification/SyncEngine.thy ===== *)
theory SyncEngine
  imports Values "HOL-Library.Product_Lexorder"
begin

text \<open>
  The synchronisation engine, \<open>crates/core/src/sync_engine.rs\<close>: the journal of revisions with
  tombstones, the import of a peer's bundle in one transaction with its conflict rule,
  watermarks, compaction and the conflict queue, over the tables \<open>crates/core/src/store.rs\<close>
  declares. SQLite's part is written out where the engine relies on it (the unique key of the
  journal, the columns that must not be null, automatic keys, roll back); whether the row of a
  document or memory satisfies its table's constraints is a parameter, as are the clock, SHA-256
  and the JSON printer.
\<close>

section \<open>Tables\<close>

definition DOCUMENT_COLUMNS :: "string list" where
  "DOCUMENT_COLUMNS = [''id'', ''source'', ''source_id'', ''title'', ''uri'', ''content_hash'', ''updated_at'',
     ''project'', ''acl_json'', ''metadata_json'', ''content'']"

definition MEMORY_COLUMNS :: "string list" where
  "MEMORY_COLUMNS = [''id'', ''kind'', ''content_type'', ''retention_tier'', ''scope'', ''project'', ''title'',
     ''content'', ''source'', ''source_id'', ''dedupe_key'', ''confidence'', ''importance'', ''status'',
     ''acl_json'', ''provenance_json'', ''observed_at'', ''valid_from'', ''valid_until'', ''supersedes_id'',
     ''created_at'', ''updated_at'']"

record journal_row =
  jr_id :: nat
  jr_kind :: string
  jr_object :: string
  jr_revision :: int
  jr_origin :: string
  jr_fingerprint :: string
  jr_tombstone :: bool
  jr_changed_at :: string

record watermark =
  wm_imported :: int
  wm_acked :: int
  wm_updated_at :: string

record conflict =
  cf_id :: nat
  cf_kind :: string
  cf_object :: string
  cf_local_revision :: int
  cf_remote_revision :: int
  cf_local_origin :: string
  cf_remote_origin :: string
  cf_resolution :: string
  cf_payload :: json
  cf_created_at :: string
  cf_resolved_at :: "string option"

text \<open>A row is the list of its column values; the documents with chunks and the full-text rows of
  memories are the derived state the engine invalidates.\<close>

type_synonym objects = "string \<Rightarrow> string \<Rightarrow> json list option"

record sync_store =
  sy_self :: "string option"
  sy_objects :: objects
  sy_chunked :: "string set"
  sy_memory_fts :: "string \<Rightarrow> (string \<times> string) option"
  sy_journal :: "journal_row list"
  sy_next_journal :: nat
  sy_watermarks :: "(string \<times> watermark) list"
  sy_conflicts :: "conflict list"
  sy_next_conflict :: nat

record sync_entry =
  se_journal_id :: int
  se_kind :: string
  se_object :: string
  se_revision :: int
  se_origin :: string
  se_fingerprint :: string
  se_tombstone :: bool
  se_changed_at :: string
  se_payload :: "json option"

record apply_report =
  ar_applied :: nat
  ar_acknowledged :: nat
  ar_tombstones :: nat
  ar_remote :: nat
  ar_local :: nat
  ar_entries :: nat
  ar_up_to :: int

record sync_env =
  sx_now :: string
  sx_sha256_hex :: "string \<Rightarrow> string"
  sx_print :: "json \<Rightarrow> string"
  sx_row_ok :: "string \<Rightarrow> json list \<Rightarrow> objects \<Rightarrow> bool"
  sx_compact_ok :: bool
  sx_text :: "rat \<Rightarrow> string"
  sx_real :: "string \<Rightarrow> rat option"

datatype sync_error =
    UnsupportedKindOf string
  | ConstraintFailed
  | MissingPayload string string
  | UnknownConflict
  | CompactionFailed

section \<open>Rows and fingerprints\<close>

definition fingerprint_value :: "sync_env \<Rightarrow> json list \<Rightarrow> string" where
  "fingerprint_value env parts = ''sha256:'' @ sx_sha256_hex env
     (''cortana.sync.fingerprint.v1'' @ concat (map (\<lambda>p. char_of (31::nat) # sx_print env p) parts))"

definition columns_for_kind :: "string \<Rightarrow> (sync_error, string list) result" where
  "columns_for_kind kind = (if kind = ''document'' then Inr DOCUMENT_COLUMNS
     else if kind = ''memory'' then Inr MEMORY_COLUMNS else Inl (UnsupportedKindOf kind))"

definition row_fingerprint :: "sync_env \<Rightarrow> string \<Rightarrow> string \<Rightarrow> sync_store \<Rightarrow> (sync_error, string option) result" where
  "row_fingerprint env kind oid st = bindE (columns_for_kind kind) (\<lambda>_.
     Inr (map_option (fingerprint_value env) (sy_objects st kind oid)))"

definition column_value :: "sync_env \<Rightarrow> json \<Rightarrow> json" where
  "column_value env v = (case v of
       JNull \<Rightarrow> JNull
     | JBool b \<Rightarrow> JNumber (if b then 1 else 0)
     | JNumber n \<Rightarrow> JNumber n
     | JString s \<Rightarrow> JString s
     | _ \<Rightarrow> JString (sx_print env v))"

text \<open>What the table keeps of a bound value: every column has text affinity, which turns numbers into
  text, except the two real columns of memories, where a text that reads as a number becomes it. The
  renderings are SQLite's, \<open>sx_text\<close> and \<open>sx_real\<close>.\<close>

definition stored_value :: "sync_env \<Rightarrow> string \<Rightarrow> json \<Rightarrow> json" where
  "stored_value env column v =
     (if column \<in> {''confidence'', ''importance''}
      then (case v of JString s \<Rightarrow> (case sx_real env s of None \<Rightarrow> JString s | Some n \<Rightarrow> JNumber n) | _ \<Rightarrow> v)
      else (case v of JNumber n \<Rightarrow> JString (sx_text env n) | _ \<Rightarrow> v))"

definition row_of_payload :: "sync_env \<Rightarrow> string list \<Rightarrow> json \<Rightarrow> json list" where
  "row_of_payload env columns payload =
     map (\<lambda>c. stored_value env c (column_value env (case json_get c payload of None \<Rightarrow> JNull | Some v \<Rightarrow> v))) columns"

text \<open>The identifier of a stored row. A primary key of type text may be null in SQLite: such a row
  conflicts with none and no lookup by identifier finds it.\<close>

definition row_key :: "json list \<Rightarrow> string option" where
  "row_key row = (case row of JString s # _ \<Rightarrow> Some s | _ \<Rightarrow> None)"

definition put_row :: "string \<Rightarrow> json list \<Rightarrow> objects \<Rightarrow> objects" where
  "put_row kind row objects = (case row_key row of None \<Rightarrow> objects
     | Some key \<Rightarrow> objects(kind := (objects kind)(key \<mapsto> row)))"

definition text_field :: "string \<Rightarrow> json \<Rightarrow> string" where
  "text_field name payload = (case Option.bind (json_get name payload) as_str of None \<Rightarrow> [] | Some s \<Rightarrow> s)"

definition apply_payload :: "sync_env \<Rightarrow> string \<Rightarrow> json \<Rightarrow> sync_store \<Rightarrow> (sync_error, sync_store) result" where
  "apply_payload env kind payload st = bindE (columns_for_kind kind) (\<lambda>columns.
     let row = row_of_payload env columns payload;
         oid = text_field ''id'' payload in
     bindE (ensure (sx_row_ok env kind row (sy_objects st)) ConstraintFailed) (\<lambda>_.
     let st1 = st\<lparr>sy_objects := put_row kind row (sy_objects st)\<rparr> in
     Inr (if kind = ''document'' then st1\<lparr>sy_chunked := sy_chunked st1 - {oid}\<rparr>
          else if kind = ''memory'' then st1\<lparr>sy_memory_fts :=
            (sy_memory_fts st1)(oid \<mapsto> (text_field ''title'' payload, text_field ''content'' payload))\<rparr>
          else st1)))"

section \<open>The journal\<close>

text \<open>\<open>ORDER BY revision DESC LIMIT 1\<close>.\<close>

fun latest_row :: "journal_row list \<Rightarrow> journal_row option" where
  "latest_row [] = None"
| "latest_row (r # rs) = (case latest_row rs of None \<Rightarrow> Some r
     | Some s \<Rightarrow> if jr_revision s < jr_revision r then Some r else Some s)"

definition of_object :: "string \<Rightarrow> string \<Rightarrow> journal_row \<Rightarrow> bool" where
  "of_object kind oid r \<longleftrightarrow> jr_kind r = kind \<and> jr_object r = oid"

definition latest :: "string \<Rightarrow> string \<Rightarrow> sync_store \<Rightarrow> journal_row option" where
  "latest kind oid st = latest_row (filter (of_object kind oid) (sy_journal st))"

definition insert_journal :: "string \<Rightarrow> string \<Rightarrow> int \<Rightarrow> string \<Rightarrow> string \<Rightarrow> bool \<Rightarrow> string \<Rightarrow> sync_store
    \<Rightarrow> (sync_error, sync_store) result" where
  "insert_journal kind oid revision origin fp tombstone changed_at st =
     (if list_ex (\<lambda>r. of_object kind oid r \<and> jr_revision r = revision) (sy_journal st)
      then Inl ConstraintFailed
      else Inr (st\<lparr>sy_journal := sy_journal st @ [\<lparr>jr_id = sy_next_journal st, jr_kind = kind, jr_object = oid,
             jr_revision = revision, jr_origin = origin, jr_fingerprint = fp, jr_tombstone = tombstone,
             jr_changed_at = changed_at\<rparr>],
           sy_next_journal := sy_next_journal st + 1\<rparr>))"

definition journal_object :: "sync_env \<Rightarrow> string \<Rightarrow> string \<Rightarrow> sync_store \<Rightarrow> (sync_error, sync_store \<times> bool) result" where
  "journal_object env kind oid st = (case sy_self st of
       None \<Rightarrow> Inr (st, False)
     | Some origin \<Rightarrow> bindE (row_fingerprint env kind oid st) (\<lambda>fp.
         let tombstone = (fp = None); fp' = (case fp of None \<Rightarrow> ''deleted'' | Some f \<Rightarrow> f) in
         case latest kind oid st of
           Some r \<Rightarrow> if jr_fingerprint r = fp' \<and> jr_tombstone r = tombstone then Inr (st, False)
             else bindE (insert_journal kind oid (jr_revision r + 1) origin fp' tombstone (sx_now env) st)
               (\<lambda>st'. Inr (st', True))
         | None \<Rightarrow> bindE (insert_journal kind oid 1 origin fp' tombstone (sx_now env) st)
               (\<lambda>st'. Inr (st', True))))"

section \<open>Export\<close>

definition watermark_of :: "string \<Rightarrow> sync_store \<Rightarrow> watermark option" where
  "watermark_of peer st = map_of (sy_watermarks st) peer"

definition export_payload :: "sync_store \<Rightarrow> sync_entry \<Rightarrow> (sync_error, sync_entry) result" where
  "export_payload st e = (if se_tombstone e then Inr e
     else bindE (columns_for_kind (se_kind e)) (\<lambda>columns.
       Inr (case sy_objects st (se_kind e) (se_object e) of None \<Rightarrow> e
            | Some row \<Rightarrow> e\<lparr>se_payload := Some (json_object (zip columns row))\<rparr>)))"

fun map_result :: "('a \<Rightarrow> ('e, 'b) result) \<Rightarrow> 'a list \<Rightarrow> ('e, 'b list) result" where
  "map_result f [] = Inr []"
| "map_result f (x # xs) = bindE (f x) (\<lambda>y. bindE (map_result f xs) (\<lambda>ys. Inr (y # ys)))"

definition entry_of :: "journal_row \<Rightarrow> sync_entry" where
  "entry_of r = \<lparr>se_journal_id = int (jr_id r), se_kind = jr_kind r, se_object = jr_object r,
     se_revision = jr_revision r, se_origin = jr_origin r, se_fingerprint = jr_fingerprint r,
     se_tombstone = jr_tombstone r, se_changed_at = jr_changed_at r, se_payload = None\<rparr>"

definition export_entries :: "string \<Rightarrow> nat \<Rightarrow> sync_store \<Rightarrow> (sync_error, sync_entry list \<times> int) result" where
  "export_entries peer limit st =
     (let wm = (case watermark_of peer st of None \<Rightarrow> 0 | Some w \<Rightarrow> wm_acked w);
          entries = map entry_of (take limit (sort_key jr_id (filter (\<lambda>r. wm < int (jr_id r)) (sy_journal st))));
          up_to = (if entries = [] then wm else se_journal_id (last entries))
      in bindE (map_result (export_payload st) entries) (\<lambda>es. Inr (es, up_to)))"

section \<open>Import\<close>

definition require_payload :: "sync_entry \<Rightarrow> (sync_error, json) result" where
  "require_payload e = ok_or (se_payload e) (MissingPayload (se_kind e) (se_object e))"

definition apply_incoming :: "sync_env \<Rightarrow> sync_entry \<Rightarrow> int \<Rightarrow> sync_store \<Rightarrow> (sync_error, sync_store) result" where
  "apply_incoming env e local_revision st =
     (if se_tombstone e then
        (let oid = se_object e;
             st1 = st\<lparr>sy_chunked := sy_chunked st - {oid}, sy_memory_fts := (sy_memory_fts st)(oid := None),
               sy_objects := (sy_objects st)(''document'' := (sy_objects st ''document'')(oid := None),
                                             ''memory'' := (sy_objects st ''memory'')(oid := None))\<rparr>
         in insert_journal (se_kind e) oid (local_revision + 1) (se_origin e) ''deleted'' True (se_changed_at e) st1)
      else bindE (require_payload e) (\<lambda>payload.
        bindE (apply_payload env (se_kind e) payload st) (\<lambda>st1.
        insert_journal (se_kind e) (se_object e) (local_revision + 1) (se_origin e) (se_fingerprint e) False
          (se_changed_at e) st1)))"

text \<open>\<open>payload_json\<close> is declared \<open>NOT NULL\<close>.\<close>

definition record_conflict :: "sync_env \<Rightarrow> sync_entry \<Rightarrow> int \<Rightarrow> string \<Rightarrow> string \<Rightarrow> sync_store
    \<Rightarrow> (sync_error, sync_store) result" where
  "record_conflict env e local_revision local_origin resolution st = (case se_payload e of
       None \<Rightarrow> Inl ConstraintFailed
     | Some payload \<Rightarrow> Inr (st\<lparr>sy_conflicts := sy_conflicts st @ [\<lparr>cf_id = sy_next_conflict st,
           cf_kind = se_kind e, cf_object = se_object e, cf_local_revision = local_revision,
           cf_remote_revision = se_revision e, cf_local_origin = local_origin, cf_remote_origin = se_origin e,
           cf_resolution = resolution, cf_payload = payload, cf_created_at = sx_now env, cf_resolved_at = None\<rparr>],
         sy_next_conflict := sy_next_conflict st + 1\<rparr>))"

text \<open>\<open>(&entry.changed_at, &entry.origin_device) > (&local_changed_at, &local_origin)\<close>.\<close>

definition incoming_wins :: "sync_entry \<Rightarrow> journal_row \<Rightarrow> bool" where
  "incoming_wins e l \<longleftrightarrow> jr_changed_at l < se_changed_at e
     \<or> (jr_changed_at l = se_changed_at e \<and> jr_origin l < se_origin e)"

definition import_entry :: "sync_env \<Rightarrow> sync_entry \<Rightarrow> sync_store \<times> apply_report
    \<Rightarrow> (sync_error, sync_store \<times> apply_report) result" where
  "import_entry env e s = (case s of (st, report) \<Rightarrow>
     case latest (se_kind e) (se_object e) st of
       None \<Rightarrow>
         if se_tombstone e then Inr (st, report\<lparr>ar_acknowledged := ar_acknowledged report + 1\<rparr>)
         else bindE (require_payload e) (\<lambda>payload.
           bindE (apply_payload env (se_kind e) payload st) (\<lambda>st1.
           bindE (insert_journal (se_kind e) (se_object e) 1 (se_origin e) (se_fingerprint e) False
             (se_changed_at e) st1) (\<lambda>st2.
           Inr (st2, report\<lparr>ar_applied := ar_applied report + 1\<rparr>))))
     | Some l \<Rightarrow>
         if jr_fingerprint l = se_fingerprint e then
           Inr (st, report\<lparr>ar_acknowledged := ar_acknowledged report + 1\<rparr>)
         else if Some (jr_origin l) = sy_self st \<and> \<not> jr_tombstone l then
           (let wins = incoming_wins e l in
            bindE (record_conflict env e (jr_revision l) (jr_origin l)
              (if wins then ''remote-wins-by-recency'' else ''local-wins-by-recency-remote-preserved'') st) (\<lambda>st1.
            if wins then bindE (apply_incoming env e (jr_revision l) st1) (\<lambda>st2.
              Inr (st2, report\<lparr>ar_remote := ar_remote report + 1, ar_applied := ar_applied report + 1\<rparr>))
            else Inr (st1, report\<lparr>ar_local := ar_local report + 1\<rparr>)))
         else bindE (apply_incoming env e (jr_revision l) st) (\<lambda>st1.
           Inr (st1, if se_tombstone e then report\<lparr>ar_tombstones := ar_tombstones report + 1\<rparr>
                     else report\<lparr>ar_applied := ar_applied report + 1\<rparr>)))"

fun import_loop :: "sync_env \<Rightarrow> sync_entry list \<Rightarrow> sync_store \<times> apply_report
    \<Rightarrow> (sync_error, sync_store \<times> apply_report) result" where
  "import_loop env [] s = Inr s"
| "import_loop env (e # es) s = bindE (import_entry env e s) (import_loop env es)"

definition set_watermark :: "string \<Rightarrow> (watermark option \<Rightarrow> watermark) \<Rightarrow> sync_store \<Rightarrow> sync_store" where
  "set_watermark peer f st = st\<lparr>sy_watermarks :=
     (peer, f (watermark_of peer st)) # filter (\<lambda>(p, _). p \<noteq> peer) (sy_watermarks st)\<rparr>"

text \<open>Rows every peer has acknowledged go, except the newest row of each object; without any
  watermark the bound is 0.\<close>

definition min_acked :: "sync_store \<Rightarrow> int" where
  "min_acked st = (case map (wm_acked \<circ> snd) (sy_watermarks st) of [] \<Rightarrow> 0 | a # as \<Rightarrow> fold min as a)"

definition newest_id :: "string \<Rightarrow> string \<Rightarrow> journal_row list \<Rightarrow> nat" where
  "newest_id kind oid rows = fold max (map jr_id (filter (of_object kind oid) rows)) 0"

definition compact :: "sync_store \<Rightarrow> sync_store" where
  "compact st = st\<lparr>sy_journal := filter (\<lambda>r. \<not> (int (jr_id r) \<le> min_acked st
     \<and> jr_id r \<noteq> newest_id (jr_kind r) (jr_object r) (sy_journal st))) (sy_journal st)\<rparr>"

text \<open>\<open>sync_compact\<close> answers with the number of rows it deleted; \<open>sx_compact_ok\<close> says whether the
  database carries the deletion out.\<close>

definition sync_compact :: "sync_env \<Rightarrow> sync_store \<Rightarrow> sync_store \<times> (sync_error, nat) result" where
  "sync_compact env st = (if sx_compact_ok env
     then (compact st, Inr (length (sy_journal st) - length (sy_journal (compact st))))
     else (st, Inl CompactionFailed))"

text \<open>The compaction runs after the transaction of the import has been committed, so when it fails the
  call reports an error although the import is in the store.\<close>

definition import_entries :: "sync_env \<Rightarrow> string \<Rightarrow> sync_entry list \<Rightarrow> int \<Rightarrow> sync_store
    \<Rightarrow> sync_store \<times> (sync_error, apply_report) result" where
  "import_entries env peer entries up_to st =
     (let report = \<lparr>ar_applied = 0, ar_acknowledged = 0, ar_tombstones = 0, ar_remote = 0, ar_local = 0,
                    ar_entries = length entries, ar_up_to = up_to\<rparr>
      in case import_loop env entries (st, report) of
           Inl err \<Rightarrow> (st, Inl err)
         | Inr (st1, report1) \<Rightarrow>
             (case sync_compact env (set_watermark peer (\<lambda>w. case w of
                  None \<Rightarrow> \<lparr>wm_imported = up_to, wm_acked = 0, wm_updated_at = sx_now env\<rparr>
                | Some w \<Rightarrow> w\<lparr>wm_imported := up_to, wm_updated_at := sx_now env\<rparr>) st1) of
                (st2, Inl err) \<Rightarrow> (st2, Inl err)
              | (st2, Inr _) \<Rightarrow> (st2, Inr report1)))"

section \<open>Acknowledgement, status and the conflict queue\<close>

definition imported_watermark :: "string \<Rightarrow> sync_store \<Rightarrow> int" where
  "imported_watermark peer st = (case watermark_of peer st of None \<Rightarrow> 0 | Some w \<Rightarrow> wm_imported w)"

definition acknowledge_peer :: "sync_env \<Rightarrow> string \<Rightarrow> int \<Rightarrow> sync_store \<Rightarrow> sync_store" where
  "acknowledge_peer env peer ack st = set_watermark peer (\<lambda>w. case w of
       None \<Rightarrow> \<lparr>wm_imported = 0, wm_acked = ack, wm_updated_at = sx_now env\<rparr>
     | Some w \<Rightarrow> w\<lparr>wm_acked := max (wm_acked w) ack, wm_updated_at := sx_now env\<rparr>) st"

record sync_status_report =
  ss_self :: "string option"
  ss_journal_entries :: nat
  ss_open_conflicts :: nat
  ss_peers :: "(string \<times> watermark) list"

definition sync_status :: "sync_store \<Rightarrow> sync_status_report" where
  "sync_status st = \<lparr>ss_self = sy_self st, ss_journal_entries = length (sy_journal st),
     ss_open_conflicts = length (filter (\<lambda>c. cf_resolved_at c = None) (sy_conflicts st)),
     ss_peers = sy_watermarks st\<rparr>"

definition list_conflicts :: "nat \<Rightarrow> sync_store \<Rightarrow> conflict list" where
  "list_conflicts limit st = take limit (rev (sort_key cf_id (sy_conflicts st)))"

definition resolve_conflict :: "sync_env \<Rightarrow> nat \<Rightarrow> bool \<Rightarrow> sync_store \<Rightarrow> sync_store \<times> (sync_error, unit) result" where
  "resolve_conflict env cid accept_remote st =
     (case find (\<lambda>c. cf_id c = cid \<and> cf_resolved_at c = None) (sy_conflicts st) of
        None \<Rightarrow> (st, Inl UnknownConflict)
      | Some c \<Rightarrow>
         (case (if accept_remote
                then bindE (apply_payload env (cf_kind c) (cf_payload c) st) (\<lambda>st1.
                  bindE (journal_object env (cf_kind c) (cf_object c) st1) (\<lambda>(st2, _). Inr st2))
                else Inr st) of
            Inl err \<Rightarrow> (st, Inl err)
          | Inr st2 \<Rightarrow> (st2\<lparr>sy_conflicts := update_first (\<lambda>c. cf_id c = cid)
                (\<lambda>c. c\<lparr>cf_resolved_at := Some (sx_now env)\<rparr>) (sy_conflicts st2)\<rparr>, Inr ())))"


section \<open>The journal's invariant\<close>

definition journal_inv :: "sync_store \<Rightarrow> bool" where
  "journal_inv st \<longleftrightarrow> sorted_wrt (<) (map jr_id (sy_journal st))
     \<and> (\<forall>r\<in>set (sy_journal st). jr_id r < sy_next_journal st)
     \<and> (\<forall>k oid. sorted_wrt (<) (map jr_revision (filter (of_object k oid) (sy_journal st))))"

text \<open>No object is forgotten, and its newest row is only replaced by one of a higher revision.\<close>

definition journal_grows :: "sync_store \<Rightarrow> sync_store \<Rightarrow> bool" where
  "journal_grows st st' \<longleftrightarrow> (\<forall>k oid r. latest k oid st = Some r \<longrightarrow>
     (\<exists>r'. latest k oid st' = Some r' \<and> (r' = r \<or> jr_revision r < jr_revision r')))"

lemma latest_row_last:
  "sorted_wrt (<) (map jr_revision rs) \<Longrightarrow> latest_row rs = (if rs = [] then None else Some (last rs))"
proof (induction rs)
  case (Cons r rs)
  show ?case
  proof (cases "rs = []")
    case False
    then have "jr_revision r < jr_revision (last rs)"
      using Cons.prems last_in_set [OF False] by simp
    then have "\<not> jr_revision (last rs) < jr_revision r" by simp
    with Cons False show ?thesis by simp
  qed simp
qed simp

lemma latest_last:
  "journal_inv st \<Longrightarrow> latest k oid st = (let rs = filter (of_object k oid) (sy_journal st)
     in if rs = [] then None else Some (last rs))"
  by (simp add: latest_def journal_inv_def latest_row_last Let_def)

lemma latest_row_in: "latest_row rs = Some r \<Longrightarrow> r \<in> set rs"
  by (induction rs) (auto split: option.splits if_splits)

lemma latest_of_object: "latest k oid st = Some r \<Longrightarrow> of_object k oid r \<and> r \<in> set (sy_journal st)"
  unfolding latest_def by (drule latest_row_in) simp

lemma journal_grows_refl: "journal_grows st st"
  by (auto simp: journal_grows_def)

lemma journal_grows_trans: "journal_grows a b \<Longrightarrow> journal_grows b c \<Longrightarrow> journal_grows a c"
proof -
  assume ab: "journal_grows a b" and bc: "journal_grows b c"
  show ?thesis unfolding journal_grows_def
  proof (intro allI impI)
    fix k oid r
    assume "latest k oid a = Some r"
    with ab obtain s where s: "latest k oid b = Some s" "s = r \<or> jr_revision r < jr_revision s"
      unfolding journal_grows_def by meson
    with bc obtain t where "latest k oid c = Some t" "t = s \<or> jr_revision s < jr_revision t"
      unfolding journal_grows_def by meson
    with s(2) show "\<exists>r'. latest k oid c = Some r' \<and> (r' = r \<or> jr_revision r < jr_revision r')" by auto
  qed
qed

lemma same_journal:
  assumes "sy_journal st' = sy_journal st" "sy_next_journal st' = sy_next_journal st"
  shows "journal_inv st' = journal_inv st" "latest k oid st' = latest k oid st" "journal_grows st st'"
  using assms by (auto simp: journal_inv_def latest_def journal_grows_def)

text \<open>The revision the engine writes: one more than the newest, or 1.\<close>

definition next_revision :: "string \<Rightarrow> string \<Rightarrow> sync_store \<Rightarrow> int" where
  "next_revision k oid st = (case latest k oid st of None \<Rightarrow> 1 | Some r \<Rightarrow> jr_revision r + 1)"

lemma insert_journal_ok:
  assumes "journal_inv st" "revision = next_revision kind oid st"
  shows "\<exists>st'. insert_journal kind oid revision origin fp ts ch st = Inr st' \<and> journal_inv st'
    \<and> journal_grows st st' \<and> sy_objects st' = sy_objects st \<and> sy_conflicts st' = sy_conflicts st
    \<and> sy_self st' = sy_self st
    \<and> latest kind oid st' = Some \<lparr>jr_id = sy_next_journal st, jr_kind = kind, jr_object = oid,
        jr_revision = revision, jr_origin = origin, jr_fingerprint = fp, jr_tombstone = ts, jr_changed_at = ch\<rparr>"
proof -
  let ?rs = "filter (of_object kind oid) (sy_journal st)"
  let ?r = "\<lparr>jr_id = sy_next_journal st, jr_kind = kind, jr_object = oid, jr_revision = revision,
    jr_origin = origin, jr_fingerprint = fp, jr_tombstone = ts, jr_changed_at = ch\<rparr>"
  let ?st = "st\<lparr>sy_journal := sy_journal st @ [?r], sy_next_journal := sy_next_journal st + 1\<rparr>"
  have sorted: "sorted_wrt (<) (map jr_revision ?rs)" using assms(1) by (simp add: journal_inv_def)
  have lt: "jr_revision r < revision" if "r \<in> set ?rs" for r
  proof -
    from that have ne: "?rs \<noteq> []" by (auto simp: filter_empty_conv)
    then have "revision = jr_revision (last ?rs) + 1"
      using assms latest_last [OF assms(1), of kind oid] by (simp add: next_revision_def Let_def)
    moreover have "jr_revision r \<le> jr_revision (last ?rs)"
      using sorted that by (rule sorted_key_le_last)
    ultimately show ?thesis by simp
  qed
  then have none: "\<not> list_ex (\<lambda>r. of_object kind oid r \<and> jr_revision r = revision) (sy_journal st)"
    by (fastforce simp: list_ex_iff)
  have inv: "journal_inv ?st"
    using assms(1) lt by (auto simp: journal_inv_def sorted_wrt_append of_object_def less_Suc_eq)
  have other: "of_object k o' ?r \<longleftrightarrow> k = kind \<and> o' = oid" for k o'
    by (auto simp: of_object_def)
  have latest: "latest k o' ?st = (if k = kind \<and> o' = oid then Some ?r else latest k o' st)" for k o'
    using latest_last [OF inv, of k o'] latest_last [OF assms(1), of k o'] other
    by (auto simp: Let_def)
  have "journal_grows st ?st"
    unfolding journal_grows_def
  proof (intro allI impI)
    fix k o' r
    assume r: "latest k o' st = Some r"
    show "\<exists>r'. latest k o' ?st = Some r' \<and> (r' = r \<or> jr_revision r < jr_revision r')"
      using r latest_of_object [OF r] lt [of r] unfolding latest by auto
  qed
  with inv none latest show ?thesis by (simp add: insert_journal_def)
qed


section \<open>What each operation does to the journal\<close>

text \<open>A step of the engine that succeeds keeps the invariant and lets the journal grow.\<close>

definition keeps_journal :: "sync_store \<Rightarrow> sync_store \<Rightarrow> bool" where
  "keeps_journal st st' \<longleftrightarrow> (journal_inv st \<longrightarrow> journal_inv st' \<and> journal_grows st st')
     \<and> sy_self st' = sy_self st"

lemma keeps_journal_refl: "keeps_journal st st"
  by (simp add: keeps_journal_def journal_grows_refl)

lemma keeps_journal_trans: "keeps_journal a b \<Longrightarrow> keeps_journal b c \<Longrightarrow> keeps_journal a c"
  using journal_grows_trans by (auto simp: keeps_journal_def)

lemma keeps_journal_frame:
  "sy_journal st' = sy_journal st \<Longrightarrow> sy_next_journal st' = sy_next_journal st \<Longrightarrow> sy_self st' = sy_self st
   \<Longrightarrow> keeps_journal st st'"
  unfolding keeps_journal_def using same_journal [of st' st] by blast

lemma apply_payload_cases:
  assumes "apply_payload env kind payload st = Inr st'"
  obtains columns row where "columns_for_kind kind = Inr columns" "row = row_of_payload env columns payload"
    "sx_row_ok env kind row (sy_objects st)"
    "sy_objects st' = put_row kind row (sy_objects st)"
    "sy_journal st' = sy_journal st" "sy_next_journal st' = sy_next_journal st" "sy_self st' = sy_self st"
    "sy_conflicts st' = sy_conflicts st" "sy_next_conflict st' = sy_next_conflict st"
proof (cases "columns_for_kind kind")
  case (Inl e)
  with assms show thesis by (simp add: apply_payload_def)
next
  case (Inr columns)
  let ?row = "row_of_payload env columns payload"
  show thesis
  proof (cases "sx_row_ok env kind ?row (sy_objects st)")
    case False
    with Inr assms show thesis by (simp add: apply_payload_def Let_def ensure_def)
  next
    case True
    with Inr assms show thesis
      by (intro that [OF Inr refl]) (auto simp: apply_payload_def Let_def ensure_def)
  qed
qed

lemma apply_payload_frame:
  assumes "apply_payload env kind payload st = Inr st'"
  shows "sy_journal st' = sy_journal st \<and> sy_next_journal st' = sy_next_journal st \<and> sy_self st' = sy_self st"
  using assms by (rule apply_payload_cases) simp

lemma insert_journal_keeps:
  assumes "insert_journal kind oid revision origin fp ts ch st = Inr st'" "revision = next_revision kind oid st"
  shows "keeps_journal st st'"
proof -
  have self: "sy_self st' = sy_self st"
    using assms(1) by (auto simp: insert_journal_def split: if_splits)
  show ?thesis unfolding keeps_journal_def
  proof (intro conjI impI self)
    assume "journal_inv st"
    from insert_journal_ok [OF this assms(2), of origin fp ts ch] assms(1)
    show "journal_inv st'" "journal_grows st st'" by auto
  qed
qed

lemma next_revision_frame:
  "sy_journal st' = sy_journal st \<Longrightarrow> next_revision k oid st' = next_revision k oid st"
  by (simp add: next_revision_def latest_def)

lemma insert_after_frame:
  assumes "sy_journal st1 = sy_journal st \<and> sy_next_journal st1 = sy_next_journal st \<and> sy_self st1 = sy_self st"
    and "insert_journal kind oid n origin fp ts ch st1 = Inr st'" "n = next_revision kind oid st"
  shows "keeps_journal st st'"
proof -
  have "n = next_revision kind oid st1" using assms(1,3) next_revision_frame [of st1 st] by simp
  with assms(2) have "keeps_journal st1 st'" by (rule insert_journal_keeps)
  then show ?thesis using keeps_journal_trans keeps_journal_frame assms(1) by blast
qed

lemma apply_incoming_keeps:
  assumes "apply_incoming env e n st = Inr st'" "n + 1 = next_revision (se_kind e) (se_object e) st"
  shows "keeps_journal st st'"
proof (cases "se_tombstone e")
  case True
  let ?oid = "se_object e"
  let ?st1 = "st\<lparr>sy_chunked := sy_chunked st - {?oid}, sy_memory_fts := (sy_memory_fts st)(?oid := None),
     sy_objects := (sy_objects st)(''document'' := (sy_objects st ''document'')(?oid := None),
                                   ''memory'' := (sy_objects st ''memory'')(?oid := None))\<rparr>"
  from True assms(1) have
    "insert_journal (se_kind e) ?oid (n + 1) (se_origin e) ''deleted'' True (se_changed_at e) ?st1 = Inr st'"
    by (simp add: apply_incoming_def Let_def)
  then show ?thesis by (intro insert_after_frame [of ?st1 st, OF _ _ assms(2)]) auto
next
  case False
  with assms(1) obtain p st1 where "apply_payload env (se_kind e) p st = Inr st1"
    "insert_journal (se_kind e) (se_object e) (n + 1) (se_origin e) (se_fingerprint e) False (se_changed_at e) st1 = Inr st'"
    by (auto simp: apply_incoming_def bindE_Inr_iff)
  then show ?thesis
    using insert_after_frame [OF apply_payload_frame _ assms(2)] by blast
qed

lemma record_conflict_frame:
  assumes "record_conflict env e n origin res st = Inr st'"
  shows "sy_journal st' = sy_journal st \<and> sy_next_journal st' = sy_next_journal st \<and> sy_self st' = sy_self st
    \<and> sy_objects st' = sy_objects st"
  using assms by (auto simp: record_conflict_def split: option.splits)

lemma import_entry_keeps:
  assumes "import_entry env e (st, rp) = Inr (st', rp')"
  shows "keeps_journal st st'"
proof (cases "latest (se_kind e) (se_object e) st")
  case None
  then have nx: "next_revision (se_kind e) (se_object e) st = 1" by (simp add: next_revision_def)
  show ?thesis
  proof (cases "se_tombstone e")
    case True
    with None assms show ?thesis by (simp add: import_entry_def keeps_journal_refl)
  next
    case False
    with None assms obtain p st1 where "apply_payload env (se_kind e) p st = Inr st1"
      "insert_journal (se_kind e) (se_object e) 1 (se_origin e) (se_fingerprint e) False (se_changed_at e) st1 = Inr st'"
      by (auto simp: import_entry_def bindE_Inr_iff)
    then show ?thesis
      using insert_after_frame [OF apply_payload_frame _ nx [symmetric]] by blast
  qed
next
  case (Some l)
  then have nx: "jr_revision l + 1 = next_revision (se_kind e) (se_object e) st" by (simp add: next_revision_def)
  from Some assms consider "st' = st" | "apply_incoming env e (jr_revision l) st = Inr st'"
    | res st1 where "record_conflict env e (jr_revision l) (jr_origin l) res st = Inr st1"
        "st' = st1 \<or> apply_incoming env e (jr_revision l) st1 = Inr st'"
    by (auto simp: import_entry_def Let_def bindE_Inr_iff split: if_splits)
  then show ?thesis
  proof cases
    case 3
    note f = record_conflict_frame [OF 3(1)]
    then have k: "keeps_journal st st1" by (simp add: keeps_journal_frame)
    with 3(2) show ?thesis
      using keeps_journal_trans [OF k apply_incoming_keeps] nx next_revision_frame [of st1 st] f by auto
  qed (use nx apply_incoming_keeps keeps_journal_refl in auto)
qed

lemma import_loop_keeps: "import_loop env es (st, rp) = Inr (st', rp') \<Longrightarrow> keeps_journal st st'"
proof (induction es arbitrary: st rp)
  case (Cons e es)
  then obtain s where s: "import_entry env e (st, rp) = Inr s" "import_loop env es s = Inr (st', rp')"
    by (auto simp: bindE_Inr_iff)
  obtain st1 rp1 where "s = (st1, rp1)" by fastforce
  with s Cons.IH import_entry_keeps keeps_journal_trans show ?case by blast
qed (simp add: keeps_journal_refl)

lemma fold_max_last:
  "sorted_wrt (<) (xs :: nat list) \<Longrightarrow> xs \<noteq> [] \<Longrightarrow> fold max xs 0 = last xs"
proof -
  assume *: "sorted_wrt (<) xs" "xs \<noteq> []"
  then have "Max (set xs) = last xs"
    using sorted_key_le_last [of id xs] by (intro Max_eqI) auto
  moreover have "fold max xs 0 = Max (set (0 # xs))" using Max.set_eq_fold [of "0::nat" xs] by simp
  ultimately show ?thesis using *(2) by simp
qed

lemma compact_latest:
  assumes "journal_inv st"
  shows "journal_inv (compact st) \<and> latest k oid (compact st) = latest k oid st"
proof -
  let ?keep = "\<lambda>r. \<not> (int (jr_id r) \<le> min_acked st \<and> jr_id r \<noteq> newest_id (jr_kind r) (jr_object r) (sy_journal st))"
  have j: "sy_journal (compact st) = filter ?keep (sy_journal st)" by (simp add: compact_def)
  have sub: "sorted_wrt (<) (map f xs) \<Longrightarrow> sorted_wrt (<) (map f (filter P xs))"
    for f :: "journal_row \<Rightarrow> 'b::linorder" and P xs
    by (simp add: sorted_wrt_map sorted_wrt_filter)
  have swap: "filter P (filter Q xs) = filter Q (filter P xs)" for P Q and xs :: "journal_row list"
    by (simp add: conj_commute)
  have inv: "journal_inv (compact st)"
    unfolding journal_inv_def j
  proof (intro conjI allI)
    fix k oid
    show "sorted_wrt (<) (map jr_revision (filter (of_object k oid) (filter ?keep (sy_journal st))))"
      unfolding swap [of "of_object k oid" ?keep] using assms by (auto intro: sub simp del: filter_filter simp: journal_inv_def)
    show "sorted_wrt (<) (map jr_id (filter ?keep (sy_journal st)))"
      using assms by (auto intro: sub simp del: filter_filter simp: journal_inv_def)
  qed (use assms in \<open>simp add: journal_inv_def compact_def\<close>)
  let ?rs = "filter (of_object k oid) (sy_journal st)"
  have ids: "sorted_wrt (<) (map jr_id ?rs)"
    using assms by (auto intro: sub simp del: filter_filter simp: journal_inv_def)
  have last: "?keep (last ?rs)" if ne: "?rs \<noteq> []"
  proof -
    have "of_object k oid (last ?rs)" using last_in_set [OF ne] by auto
    moreover have "fold max (map jr_id ?rs) 0 = jr_id (last ?rs)"
      using fold_max_last [OF ids] ne by (simp add: last_map)
    ultimately show ?thesis by (auto simp: newest_id_def of_object_def)
  qed
  have lf: "P (last xs) \<Longrightarrow> xs \<noteq> [] \<Longrightarrow> filter P xs \<noteq> [] \<and> last (filter P xs) = last xs"
    for P and xs :: "journal_row list"
    by (induction xs rule: rev_induct) auto
  have "latest k oid (compact st) = latest k oid st"
    unfolding latest_last [OF inv] latest_last [OF assms] j Let_def swap [of "of_object k oid" ?keep]
    using last lf [of ?keep ?rs] by (cases "?rs = []") auto
  with inv show ?thesis ..
qed

lemma compact_keeps: "keeps_journal st (compact st)"
  unfolding keeps_journal_def journal_grows_def using compact_latest [of st] by (simp add: compact_def)

lemma set_watermark_keeps: "keeps_journal st (set_watermark peer f st)"
  by (rule keeps_journal_frame) (simp_all add: set_watermark_def)

lemma import_entries_keeps: "keeps_journal st (fst (import_entries env peer es up_to st))"
proof (cases "import_loop env es (st, \<lparr>ar_applied = 0, ar_acknowledged = 0, ar_tombstones = 0, ar_remote = 0,
    ar_local = 0, ar_entries = length es, ar_up_to = up_to\<rparr>)")
  case (Inl e)
  then show ?thesis by (simp add: import_entries_def keeps_journal_refl)
next
  case (Inr s)
  obtain st1 rp where s: "s = (st1, rp)" by fastforce
  with Inr have "keeps_journal st st1" by (auto intro: import_loop_keeps)
  with Inr s show ?thesis
    using keeps_journal_trans [OF _ set_watermark_keeps]
      keeps_journal_trans [OF keeps_journal_trans [OF _ set_watermark_keeps] compact_keeps]
    by (simp add: import_entries_def sync_compact_def)
qed

lemma journal_object_cases:
  assumes "journal_object env kind oid st = Inr (st', b)"
  shows "st' = st \<or> (\<exists>origin fp ts. insert_journal kind oid (next_revision kind oid st) origin fp ts (sx_now env) st = Inr st')"
proof (cases "sy_self st")
  case None
  with assms show ?thesis by (simp add: journal_object_def)
next
  case (Some origin)
  then obtain fp where "row_fingerprint env kind oid st = Inr fp"
    using assms by (auto simp: journal_object_def bindE_Inr_iff)
  with Some assms show ?thesis
    by (cases "latest kind oid st")
      (auto simp: journal_object_def Let_def bindE_Inr_iff next_revision_def split: if_splits)
qed

lemma journal_object_keeps: "journal_object env kind oid st = Inr (st', b) \<Longrightarrow> keeps_journal st st'"
  using journal_object_cases insert_journal_keeps keeps_journal_refl by blast

lemma resolve_conflict_keeps: "keeps_journal st (fst (resolve_conflict env cid accept_remote st))"
proof (cases "find (\<lambda>c. cf_id c = cid \<and> cf_resolved_at c = None) (sy_conflicts st)")
  case None
  then show ?thesis by (simp add: resolve_conflict_def keeps_journal_refl)
next
  case (Some c)
  let ?r = "if accept_remote
     then bindE (apply_payload env (cf_kind c) (cf_payload c) st) (\<lambda>st1.
            bindE (journal_object env (cf_kind c) (cf_object c) st1) (\<lambda>(st2, _). Inr st2)) else Inr st"
  show ?thesis
  proof (cases ?r)
    case (Inl e)
    with Some show ?thesis by (simp add: resolve_conflict_def keeps_journal_refl)
  next
    case (Inr st2)
    have "keeps_journal st st2"
    proof (cases accept_remote)
      case True
      with Inr obtain st1 b where a: "apply_payload env (cf_kind c) (cf_payload c) st = Inr st1"
        "journal_object env (cf_kind c) (cf_object c) st1 = Inr (st2, b)"
        by (auto simp: bindE_Inr_iff)
      then show ?thesis
        using keeps_journal_trans [OF keeps_journal_frame journal_object_keeps [OF a(2)]] apply_payload_frame [OF a(1)]
        by blast
    qed (use Inr keeps_journal_refl in auto)
    then have "keeps_journal st (st2\<lparr>sy_conflicts := x\<rparr>)" for x
      by (rule keeps_journal_trans) (simp add: keeps_journal_frame)
    with Some Inr show ?thesis by (simp add: resolve_conflict_def)
  qed
qed


section \<open>Steps of a store\<close>

text \<open>A store begins without a journal; it adopts a device identity, changes an object and
  journals it in one transaction, or runs an operation of the engine.\<close>

definition sync_init :: "sync_store \<Rightarrow> bool" where
  "sync_init st \<longleftrightarrow> sy_journal st = [] \<and> sy_next_journal st = 1 \<and> sy_watermarks st = [] \<and> sy_conflicts st = []"

inductive sync_step :: "sync_store \<Rightarrow> sync_store \<Rightarrow> bool" where
  sync_adopt: "sync_step st (st\<lparr>sy_self := Some device\<rparr>)"
| sync_write: "journal_object env kind oid (st\<lparr>sy_objects := objs, sy_chunked := chunked, sy_memory_fts := fts\<rparr>)
      = Inr (st', b) \<Longrightarrow> sync_step st st'"
| sync_import: "sync_step st (fst (import_entries env peer es up_to st))"
| sync_ack: "sync_step st (acknowledge_peer env peer ack st)"
| sync_resolve: "sync_step st (fst (resolve_conflict env cid accept_remote st))"

lemma sync_step_journal:
  assumes "sync_step st st'"
  shows "(journal_inv st \<longrightarrow> journal_inv st' \<and> journal_grows st st')"
  using assms
proof cases
  case (sync_adopt device)
  then show ?thesis using same_journal [of st' st] by simp
next
  case (sync_write env kind oid fts chunked objs b)
  have "keeps_journal (st\<lparr>sy_objects := objs, sy_chunked := chunked, sy_memory_fts := fts\<rparr>) st'"
    using sync_write by (rule journal_object_keeps)
  then have "keeps_journal st st'"
    by (rule keeps_journal_trans [rotated]) (simp add: keeps_journal_frame)
  then show ?thesis by (simp add: keeps_journal_def)
next
  case (sync_ack env peer ack)
  then show ?thesis using set_watermark_keeps by (simp add: acknowledge_peer_def keeps_journal_def)
qed (use import_entries_keeps resolve_conflict_keeps in \<open>auto simp: keeps_journal_def\<close>)

interpretation sj: stepwise sync_init sync_step journal_inv journal_grows
proof
  show "journal_inv st" if "sync_init st" for st
    using that by (simp add: sync_init_def journal_inv_def)
qed (use sync_step_journal journal_grows_refl journal_grows_trans in blast)+

definition ex_sync_env :: sync_env where
  "ex_sync_env = \<lparr>sx_now = ''t'', sx_sha256_hex = (\<lambda>s. s), sx_print = (\<lambda>_. ''j''), sx_row_ok = (\<lambda>_ _ _. True),
     sx_compact_ok = True, sx_text = (\<lambda>_. ''0''), sx_real = (\<lambda>_. None)\<rparr>"

definition ex_sync :: "string \<Rightarrow> sync_store" where
  "ex_sync device = \<lparr>sy_self = Some device, sy_objects = (\<lambda>_ _. None), sy_chunked = {}, sy_memory_fts = (\<lambda>_. None),
     sy_journal = [], sy_next_journal = 1, sy_watermarks = [], sy_conflicts = [], sy_next_conflict = 1\<rparr>"

abbreviation sync_reachable :: "sync_store \<Rightarrow> bool" where
  "sync_reachable \<equiv> reachable sync_init sync_step"

lemma ex_sync_init: "sync_reachable (ex_sync d)"
  by (rule reachable_start) (simp add: sync_init_def ex_sync_def)

section \<open>Properties\<close>

text \<open>
  C11. The journal is an authority on revisions. In every reachable store the journal ids
  increase, the revisions of each object increase with them, and journalling a change of a
  document or a memory never violates the unique key; and along any further steps, imports,
  conflicts and compactions included, the newest row of an object is never lost and is only
  replaced by one of a higher revision.
\<close>

theorem journal_is_authoritative:
  assumes "sync_reachable st" "sync_step\<^sup>*\<^sup>* st later" "kind \<in> {''document'', ''memory''}"
  shows "sorted_wrt (<) (map jr_id (sy_journal st))
    \<and> sorted_wrt (<) (map jr_revision (filter (of_object kind oid) (sy_journal st)))
    \<and> (\<exists>st' b. journal_object env kind oid st = Inr (st', b))
    \<and> pred_option (\<lambda>r. \<exists>r'. latest kind oid later = Some r' \<and> (r' = r \<or> jr_revision r < jr_revision r'))
        (latest kind oid st)"
proof -
  have inv: "journal_inv st" using assms(1) by (rule sj.always_inv)
  have grow: "journal_grows st later" using assms(1,2) by (rule sj.always_grow)
  have ins: "\<exists>st'. insert_journal kind oid (next_revision kind oid st) origin fp ts (sx_now env) st = Inr st'"
    for origin fp ts
    using insert_journal_ok [OF inv refl] by blast
  have "columns_for_kind kind = Inr (if kind = ''document'' then DOCUMENT_COLUMNS else MEMORY_COLUMNS)"
    using assms(3) by (auto simp: columns_for_kind_def)
  then obtain fp where "row_fingerprint env kind oid st = Inr fp" by (simp add: row_fingerprint_def)
  then have "\<exists>st' b. journal_object env kind oid st = Inr (st', b)"
  proof (cases "sy_self st")
    case (Some origin)
    with \<open>row_fingerprint env kind oid st = Inr fp\<close>
      ins [of origin "case fp of None \<Rightarrow> ''deleted'' | Some f \<Rightarrow> f" "fp = None"]
    show ?thesis
      by (cases "latest kind oid st") (auto simp: journal_object_def Let_def next_revision_def bindE_Inr_iff)
  qed (auto simp: journal_object_def)
  moreover have "pred_option (\<lambda>r. \<exists>r'. latest kind oid later = Some r' \<and> (r' = r \<or> jr_revision r < jr_revision r'))
        (latest kind oid st)"
    using grow unfolding journal_grows_def by (cases "latest kind oid st") simp_all
  ultimately show ?thesis using inv by (simp add: journal_inv_def)
qed

theorem journal_is_authoritative_witness:
  "\<exists>st' b. journal_object ex_sync_env ''memory'' ''m'' (ex_sync ''a'') = Inr (st', b)"
  using journal_is_authoritative [OF ex_sync_init rtranclp.rtrancl_refl, of "''memory''"]
  by blast

lemma import_entry_accounts:
  assumes "import_entry env e (st, rp) = Inr (st', rp')"
  shows "ar_applied rp' + ar_acknowledged rp' + ar_tombstones rp' + ar_local rp'
      = ar_applied rp + ar_acknowledged rp + ar_tombstones rp + ar_local rp + 1
    \<and> sy_watermarks st' = sy_watermarks st"
proof -
  have w: "sy_watermarks b = sy_watermarks a" if "apply_payload env k p a = Inr b" for k p a b
    using that by (auto simp: apply_payload_def Let_def bindE_Inr_iff ensure_Inr_iff)
  have i: "sy_watermarks b = sy_watermarks a" if "insert_journal k i n d f t h a = Inr b" for k i n d f t h a b
    using that by (auto simp: insert_journal_def split: if_splits)
  have a: "sy_watermarks b = sy_watermarks a" if "apply_incoming env e n a = Inr b" for n a b
    using that w i by (fastforce simp: apply_incoming_def Let_def bindE_Inr_iff split: if_splits)
  have c: "sy_watermarks b = sy_watermarks a" if "record_conflict env e n d r a = Inr b" for n d r a b
    using that by (auto simp: record_conflict_def split: option.splits)
  show ?thesis
    using assms w i a c
    by (cases "latest (se_kind e) (se_object e) st")
      (fastforce simp: import_entry_def Let_def bindE_Inr_iff split: if_splits)+
qed


lemma import_loop_accounts:
  "import_loop env es (st, rp) = Inr (st', rp') \<Longrightarrow>
     ar_applied rp' + ar_acknowledged rp' + ar_tombstones rp' + ar_local rp'
      = ar_applied rp + ar_acknowledged rp + ar_tombstones rp + ar_local rp + length es
    \<and> sy_watermarks st' = sy_watermarks st"
proof (induction es arbitrary: st rp)
  case (Cons e es)
  then obtain st1 rp1 where "import_entry env e (st, rp) = Inr (st1, rp1)"
    "import_loop env es (st1, rp1) = Inr (st', rp')"
    by (auto simp: bindE_Inr_iff)
  with Cons.IH [OF this(2)] import_entry_accounts show ?case by fastforce
qed simp

lemma watermark_of_set: "watermark_of p (set_watermark peer f st) =
    (if p = peer then Some (f (watermark_of peer st)) else watermark_of p st)"
proof -
  have "map_of (filter (\<lambda>(q, _). q \<noteq> peer) ws) p = (if p = peer then None else map_of ws p)"
    for ws :: "(string \<times> watermark) list"
    by (induction ws) auto
  then show ?thesis by (simp add: watermark_of_def set_watermark_def)
qed

lemma watermark_of_compact [simp]: "watermark_of p (compact st) = watermark_of p st"
  by (simp add: watermark_of_def compact_def)

lemma min_acked_le: "(p, w) \<in> set (sy_watermarks st) \<Longrightarrow> min_acked st \<le> wm_acked w"
proof -
  have "fold min xs a \<le> x" if "x \<in> set (a # xs)" for a x and xs :: "int list"
    using Min_le [OF finite_set that] Min.set_eq_fold [of a xs] by simp
  then have "x \<in> set (map (wm_acked \<circ> snd) (sy_watermarks st)) \<Longrightarrow> min_acked st \<le> x" for x
    unfolding min_acked_def by (cases "map (wm_acked \<circ> snd) (sy_watermarks st)") auto
  moreover assume "(p, w) \<in> set (sy_watermarks st)"
  then have "wm_acked w \<in> set (map (wm_acked \<circ> snd) (sy_watermarks st))" by force
  ultimately show ?thesis by blast
qed

lemma compact_drops:
  assumes "journal_inv st" "r \<in> set (sy_journal st)" "r \<notin> set (sy_journal (compact st))"
  shows "watermark_of p st = Some w \<Longrightarrow> int (jr_id r) \<le> wm_acked w"
    and "\<exists>r'. latest (jr_kind r) (jr_object r) (compact st) = Some r' \<and> jr_revision r < jr_revision r'"
proof -
  let ?rs = "filter (of_object (jr_kind r) (jr_object r)) (sy_journal st)"
  from assms(2,3) have d: "int (jr_id r) \<le> min_acked st" "jr_id r \<noteq> newest_id (jr_kind r) (jr_object r) (sy_journal st)"
    by (auto simp: compact_def)
  show "int (jr_id r) \<le> wm_acked w" if "watermark_of p st = Some w"
    using d(1) min_acked_le [of p w st] that by (auto simp: watermark_of_def dest: map_of_SomeD)
  have r: "r \<in> set ?rs" using assms(2) by (simp add: of_object_def)
  then have ne: "?rs \<noteq> []" by (auto simp: filter_empty_conv)
  have ids: "sorted_wrt (<) (map jr_id ?rs)"
    using assms(1) by (simp add: journal_inv_def sorted_wrt_map sorted_wrt_filter)
  have "newest_id (jr_kind r) (jr_object r) (sy_journal st) = jr_id (last ?rs)"
    using fold_max_last [OF ids] ne by (simp add: newest_id_def last_map)
  with d(2) have "r \<noteq> last ?rs" by auto
  moreover have "sorted_wrt (<) (map jr_revision ?rs)" using assms(1) by (simp add: journal_inv_def)
  ultimately have "jr_revision r < jr_revision (last ?rs)"
    using sorted_key_lt_last [OF _ r] by blast
  then show "\<exists>r'. latest (jr_kind r) (jr_object r) (compact st) = Some r' \<and> jr_revision r < jr_revision r'"
    using compact_latest [OF assms(1)] latest_last [OF assms(1), of "jr_kind r" "jr_object r"] ne by (simp add: Let_def)
qed

text \<open>What is in the store after an import whose entries all went through, and what the call answers:
  both depend on the compaction.\<close>

definition import_answer :: "sync_env \<Rightarrow> apply_report \<Rightarrow> (sync_error, apply_report) result" where
  "import_answer env rp = (if sx_compact_ok env then Inr rp else Inl CompactionFailed)"

lemma import_answer_simps [simp]:
  "sx_compact_ok env \<Longrightarrow> import_answer env rp = Inr rp"
  "\<not> sx_compact_ok env \<Longrightarrow> import_answer env rp = Inl CompactionFailed"
  by (simp_all add: import_answer_def)

lemma import_entries_result:
  assumes "import_loop env entries (st, \<lparr>ar_applied = 0, ar_acknowledged = 0, ar_tombstones = 0, ar_remote = 0,
      ar_local = 0, ar_entries = length entries, ar_up_to = up_to\<rparr>) = Inr (st1, rp)"
  obtains f where "import_entries env peer entries up_to st =
      (if sx_compact_ok env then compact (set_watermark peer f st1) else set_watermark peer f st1, import_answer env rp)"
    "\<And>w. wm_imported (f w) = up_to" "\<And>w. wm_acked (f w) = (case w of None \<Rightarrow> 0 | Some w \<Rightarrow> wm_acked w)"
proof -
  let ?f = "\<lambda>w. case w of None \<Rightarrow> \<lparr>wm_imported = up_to, wm_acked = 0, wm_updated_at = sx_now env\<rparr>
    | Some w \<Rightarrow> w\<lparr>wm_imported := up_to, wm_updated_at := sx_now env\<rparr>"
  have "import_entries env peer entries up_to st = (if sx_compact_ok env then compact (set_watermark peer ?f st1)
      else set_watermark peer ?f st1, import_answer env rp)"
    using assms by (cases "sx_compact_ok env") (simp_all add: import_entries_def sync_compact_def)
  then show thesis by (rule that) (simp_all split: option.split)
qed

lemma dropped_rows:
  assumes "journal_inv st1" "sy_watermarks st1 = sy_watermarks st"
    and f: "\<And>w. wm_acked (f w) = (case w of None \<Rightarrow> 0 | Some w \<Rightarrow> wm_acked w)"
    and r: "r \<in> set (sy_journal st1)" "r \<notin> set (sy_journal (compact (set_watermark peer f st1)))"
  shows "(\<forall>p w. watermark_of p st = Some w \<longrightarrow> int (jr_id r) \<le> wm_acked w)
    \<and> (\<exists>r'. latest (jr_kind r) (jr_object r) (compact (set_watermark peer f st1)) = Some r' \<and> jr_revision r < jr_revision r')"
proof (intro conjI allI impI)
  let ?st2 = "set_watermark peer f st1"
  have inv: "journal_inv ?st2"
    using assms(1) set_watermark_keeps [of st1 peer f] by (simp add: keeps_journal_def)
  have r2: "r \<in> set (sy_journal ?st2)" using r(1) by (simp add: set_watermark_def)
  show "\<exists>r'. latest (jr_kind r) (jr_object r) (compact ?st2) = Some r' \<and> jr_revision r < jr_revision r'"
    using compact_drops(2) [OF inv r2 r(2)] .
  fix p w
  assume "watermark_of p st = Some w"
  then have "\<exists>w'. watermark_of p ?st2 = Some w' \<and> wm_acked w' = wm_acked w"
    using assms(2) f by (cases "p = peer") (simp_all add: watermark_of_set watermark_of_def [of _ st1] watermark_of_def [of _ st])
  then show "int (jr_id r) \<le> wm_acked w"
    using compact_drops(1) [OF inv r2 r(2), of p] by auto
qed

text \<open>
  C12. An import is all or nothing, and only its last step can spoil the answer. The error answers
  are exactly these: an entry was refused, and then the store is as it was; or the compaction after
  the commit failed, and then the whole import is in the store although the call reports an error.
  Whenever the import is in the store, each entry is accounted for once: applied, acknowledged,
  applied as a deletion, or kept as a conflict the local side won; the bundle's position is recorded
  for the peer, every acknowledgement is as it was, and a journal row is gone only when compaction
  ran, every peer has acknowledged it and a newer row of the object stays.
\<close>

theorem import_is_all_or_nothing:
  assumes "sync_reachable st"
  shows "let result = import_entries env peer entries up_to st in
    case import_loop env entries (st, \<lparr>ar_applied = 0, ar_acknowledged = 0, ar_tombstones = 0, ar_remote = 0,
        ar_local = 0, ar_entries = length entries, ar_up_to = up_to\<rparr>) of
      Inl err \<Rightarrow> result = (st, Inl err)
    | Inr (st1, rp) \<Rightarrow> snd result = (if sx_compact_ok env then Inr rp else Inl CompactionFailed)
        \<and> ar_applied rp + ar_acknowledged rp + ar_tombstones rp + ar_local rp = length entries
        \<and> sy_objects (fst result) = sy_objects st1 \<and> sy_conflicts (fst result) = sy_conflicts st1
        \<and> imported_watermark peer (fst result) = up_to
        \<and> (\<forall>p. (case watermark_of p (fst result) of None \<Rightarrow> 0 | Some w \<Rightarrow> wm_acked w)
              = (case watermark_of p st of None \<Rightarrow> 0 | Some w \<Rightarrow> wm_acked w))
        \<and> set (sy_journal (fst result)) \<subseteq> set (sy_journal st1)
        \<and> (\<forall>r\<in>set (sy_journal st1) - set (sy_journal (fst result)). sx_compact_ok env
             \<and> (\<forall>p w. watermark_of p st = Some w \<longrightarrow> int (jr_id r) \<le> wm_acked w)
             \<and> (\<exists>r'. latest (jr_kind r) (jr_object r) (fst result) = Some r' \<and> jr_revision r < jr_revision r'))"
proof (cases "import_loop env entries (st, \<lparr>ar_applied = 0, ar_acknowledged = 0, ar_tombstones = 0, ar_remote = 0,
    ar_local = 0, ar_entries = length entries, ar_up_to = up_to\<rparr>)")
  case (Inl e)
  then show ?thesis by (simp add: import_entries_def)
next
  case (Inr s)
  obtain st1 rp where s: "s = (st1, rp)" by fastforce
  note run = Inr [unfolded s]
  obtain f where f: "import_entries env peer entries up_to st =
      (if sx_compact_ok env then compact (set_watermark peer f st1) else set_watermark peer f st1, import_answer env rp)"
    "\<And>w. wm_imported (f w) = up_to" "\<And>w. wm_acked (f w) = (case w of None \<Rightarrow> 0 | Some w \<Rightarrow> wm_acked w)"
    using import_entries_result [OF run] by metis
  have acc: "ar_applied rp + ar_acknowledged rp + ar_tombstones rp + ar_local rp = length entries"
    and wm: "sy_watermarks st1 = sy_watermarks st"
    using import_loop_accounts [OF run] by simp_all
  have "journal_inv st" using assms(1) by (rule sj.always_inv)
  then have inv: "journal_inv st1" using import_loop_keeps [OF run] by (simp add: keeps_journal_def)
  have same_wm: "watermark_of q st1 = watermark_of q st" for q using wm by (simp add: watermark_of_def)
  let ?st2 = "set_watermark peer f st1"
  have frame: "sy_objects (compact ?st2) = sy_objects st1" "sy_conflicts (compact ?st2) = sy_conflicts st1"
    "set (sy_journal (compact ?st2)) \<subseteq> set (sy_journal st1)" "sy_objects ?st2 = sy_objects st1"
    "sy_conflicts ?st2 = sy_conflicts st1" "sy_journal ?st2 = sy_journal st1"
    by (auto simp: compact_def set_watermark_def)
  show ?thesis
    unfolding Inr s f(1) Let_def
    using acc dropped_rows [OF inv wm f(3), of _ peer] f(2,3) frame
    by (cases "sx_compact_ok env") (auto simp: watermark_of_set imported_watermark_def same_wm split: option.split)
qed

theorem import_is_all_or_nothing_witness:
  "imported_watermark ''b'' (fst (import_entries (ex_sync_env\<lparr>sx_compact_ok := False\<rparr>) ''b'' [] 7 (ex_sync ''a''))) = 7
   \<and> snd (import_entries (ex_sync_env\<lparr>sx_compact_ok := False\<rparr>) ''b'' [] 7 (ex_sync ''a'')) = Inl CompactionFailed"
  using import_is_all_or_nothing [OF ex_sync_init [of "''a''"], where env = "ex_sync_env\<lparr>sx_compact_ok := False\<rparr>"
      and peer = "''b''" and entries = "[]" and up_to = 7]
  by (simp add: Let_def)


lemma columns_id: "columns_for_kind k = Inr cols \<Longrightarrow> \<exists>cs. cols = ''id'' # cs"
  by (auto simp: columns_for_kind_def DOCUMENT_COLUMNS_def MEMORY_COLUMNS_def split: if_splits)

lemma row_key_payload:
  assumes "columns_for_kind k = Inr cols" "json_get ''id'' p = Some (JString oid)"
  shows "row_key (row_of_payload env cols p) = Some oid"
  using columns_id [OF assms(1)] assms(2)
  by (auto simp: row_key_def row_of_payload_def column_value_def stored_value_def)

lemma apply_payload_ok:
  assumes "columns_for_kind k = Inr cols" "json_get ''id'' p = Some (JString oid)"
    "sx_row_ok env k (row_of_payload env cols p) (sy_objects st)"
  shows "\<exists>st'. apply_payload env k p st = Inr st' \<and> sy_objects st' k oid = Some (row_of_payload env cols p)
    \<and> sy_journal st' = sy_journal st \<and> sy_next_journal st' = sy_next_journal st
    \<and> sy_conflicts st' = sy_conflicts st"
proof -
  have "\<exists>st'. apply_payload env k p st = Inr st'"
    using assms by (simp add: apply_payload_def Let_def ensure_def)
  then obtain st' where st': "apply_payload env k p st = Inr st'" by blast
  then show ?thesis
    by (rule apply_payload_cases) (use st' assms(1) row_key_payload [OF assms(1,2), of env] in \<open>auto simp: put_row_def\<close>)
qed

lemma import_concurrent:
  assumes "journal_inv st" "latest (se_kind e) (se_object e) st = Some l"
    "jr_fingerprint l \<noteq> se_fingerprint e" "Some (jr_origin l) = sy_self st" "\<not> jr_tombstone l"
    "\<not> se_tombstone e" "se_payload e = Some p" "columns_for_kind (se_kind e) = Inr cols"
    "json_get ''id'' p = Some (JString (se_object e))"
    "sx_row_ok env (se_kind e) (row_of_payload env cols p) (sy_objects st)"
  shows "\<exists>st' rp' c. import_entries env peer [e] up_to st = (st', import_answer env rp')
    \<and> sy_objects st' (se_kind e) (se_object e) = (if incoming_wins e l then Some (row_of_payload env cols p)
        else sy_objects st (se_kind e) (se_object e))
    \<and> sy_conflicts st' = sy_conflicts st @ [c] \<and> cf_payload c = p"
proof -
  let ?k = "se_kind e" and ?o = "se_object e"
  obtain st1 c where st1: "record_conflict env e (jr_revision l) (jr_origin l)
      (if incoming_wins e l then ''remote-wins-by-recency'' else ''local-wins-by-recency-remote-preserved'') st = Inr st1"
    "sy_conflicts st1 = sy_conflicts st @ [c]" "cf_payload c = p" "sy_objects st1 = sy_objects st"
    "sy_journal st1 = sy_journal st" "sy_next_journal st1 = sy_next_journal st"
    using assms(7) by (simp add: record_conflict_def)
  have "sx_row_ok env ?k (row_of_payload env cols p) (sy_objects st1)" using assms(10) st1(4) by simp
  from apply_payload_ok [OF assms(8,9) this] obtain st2 where st2: "apply_payload env ?k p st1 = Inr st2"
    "sy_objects st2 ?k ?o = Some (row_of_payload env cols p)" "sy_journal st2 = sy_journal st1"
    "sy_next_journal st2 = sy_next_journal st1" "sy_conflicts st2 = sy_conflicts st1" by blast
  have inv2: "journal_inv st2" using assms(1) st1(5,6) st2(3,4) same_journal(1) [of st2 st] by simp
  have nx: "jr_revision l + 1 = next_revision ?k ?o st2"
    using assms(2) st1(5) st2(3) by (simp add: next_revision_def latest_def)
  obtain st3 where st3: "insert_journal ?k ?o (jr_revision l + 1) (se_origin e) (se_fingerprint e) False
      (se_changed_at e) st2 = Inr st3" "sy_objects st3 = sy_objects st2" "sy_conflicts st3 = sy_conflicts st2"
    using insert_journal_ok [OF inv2 nx, of "se_origin e" "se_fingerprint e" False "se_changed_at e"] by blast
  have "apply_incoming env e (jr_revision l) st1 = Inr st3"
    using st2(1) st3(1) assms(6,7) by (simp add: apply_incoming_def require_payload_def ok_or_def)
  then have "\<exists>rp'. import_entry env e (st, rp) = Inr (if incoming_wins e l then st3 else st1, rp')" for rp
    using assms(2-5) st1(1) by (simp add: import_entry_def Let_def)
  then obtain rp' where "import_entry env e (st, \<lparr>ar_applied = 0, ar_acknowledged = 0, ar_tombstones = 0,
      ar_remote = 0, ar_local = 0, ar_entries = 1, ar_up_to = up_to\<rparr>) = Inr (if incoming_wins e l then st3 else st1, rp')"
    by blast
  then show ?thesis
    using st1(2-4) st2(2,5) st3(2,3)
    by (simp add: import_entries_def sync_compact_def compact_def set_watermark_def import_answer_def)
qed

lemma incoming_wins_flip:
  assumes "jr_origin la \<noteq> jr_origin lb" "se_changed_at ea = jr_changed_at la" "se_origin ea = jr_origin la"
    "se_changed_at eb = jr_changed_at lb" "se_origin eb = jr_origin lb"
  shows "incoming_wins ea lb \<longleftrightarrow> \<not> incoming_wins eb la"
  unfolding incoming_wins_def assms(2-5)
  using assms(1) by (cases "jr_changed_at la" "jr_changed_at lb" rule: linorder_cases;
      cases "jr_origin la" "jr_origin lb" rule: linorder_cases) auto

text \<open>
  C13. Concurrent edits converge. When two devices have each edited the same object and import
  the other's edit, the rule by change time and device picks the same edit on both, so both
  stores end with the same row: that of the later change, the larger device on a tie. Only a
  failing compaction, which comes after the import, makes either call answer with an error.
\<close>

theorem concurrent_edits_converge:
  assumes "sync_reachable A" "sync_reachable B"
    and "latest k oid A = Some la" "Some (jr_origin la) = sy_self A" "\<not> jr_tombstone la"
    and "latest k oid B = Some lb" "Some (jr_origin lb) = sy_self B" "\<not> jr_tombstone lb"
    and "jr_origin la \<noteq> jr_origin lb" "jr_fingerprint la \<noteq> jr_fingerprint lb"
    and "columns_for_kind k = Inr cols"
    and "json_get ''id'' pa = Some (JString oid)" "sy_objects A k oid = Some (row_of_payload env cols pa)"
    and "json_get ''id'' pb = Some (JString oid)" "sy_objects B k oid = Some (row_of_payload env cols pb)"
    and "sx_row_ok env k (row_of_payload env cols pb) (sy_objects A)"
    and "sx_row_ok env k (row_of_payload env cols pa) (sy_objects B)"
  shows "\<exists>A' ra B' rb. import_entries env peer_b [(entry_of lb)\<lparr>se_payload := Some pb\<rparr>] up_b A = (A', import_answer env ra)
    \<and> import_entries env peer_a [(entry_of la)\<lparr>se_payload := Some pa\<rparr>] up_a B = (B', import_answer env rb)
    \<and> sy_objects A' k oid = sy_objects B' k oid
    \<and> sy_objects A' k oid = Some (row_of_payload env cols
        (if (jr_changed_at lb, jr_origin lb) < (jr_changed_at la, jr_origin la) then pa else pb))"
proof -
  let ?ea = "(entry_of la)\<lparr>se_payload := Some pa\<rparr>" and ?eb = "(entry_of lb)\<lparr>se_payload := Some pb\<rparr>"
  have inv: "journal_inv A" "journal_inv B" using assms(1,2) by (auto intro: sj.always_inv)
  have of: "jr_kind la = k" "jr_object la = oid" "jr_kind lb = k" "jr_object lb = oid"
    using latest_of_object [OF assms(3)] latest_of_object [OF assms(6)] by (simp_all add: of_object_def)
  have "\<exists>st' rp' c. import_entries env peer_b [?eb] up_b A = (st', import_answer env rp')
      \<and> sy_objects st' (se_kind ?eb) (se_object ?eb) = (if incoming_wins ?eb la then Some (row_of_payload env cols pb)
        else sy_objects A (se_kind ?eb) (se_object ?eb))
      \<and> sy_conflicts st' = sy_conflicts A @ [c] \<and> cf_payload c = pb"
    by (rule import_concurrent) (use assms of inv in \<open>simp_all add: entry_of_def\<close>)
  then obtain A' ra where A': "import_entries env peer_b [?eb] up_b A = (A', import_answer env ra)"
    "sy_objects A' k oid = (if incoming_wins ?eb la then Some (row_of_payload env cols pb) else sy_objects A k oid)"
    using of by (auto simp: entry_of_def)
  have "\<exists>st' rp' c. import_entries env peer_a [?ea] up_a B = (st', import_answer env rp')
      \<and> sy_objects st' (se_kind ?ea) (se_object ?ea) = (if incoming_wins ?ea lb then Some (row_of_payload env cols pa)
        else sy_objects B (se_kind ?ea) (se_object ?ea))
      \<and> sy_conflicts st' = sy_conflicts B @ [c] \<and> cf_payload c = pa"
    by (rule import_concurrent) (use assms of inv in \<open>simp_all add: entry_of_def\<close>)
  then obtain B' rb where B': "import_entries env peer_a [?ea] up_a B = (B', import_answer env rb)"
    "sy_objects B' k oid = (if incoming_wins ?ea lb then Some (row_of_payload env cols pa) else sy_objects B k oid)"
    using of by (auto simp: entry_of_def)
  have flip: "incoming_wins ?ea lb \<longleftrightarrow> \<not> incoming_wins ?eb la"
    by (rule incoming_wins_flip) (use assms(9) in \<open>simp_all add: entry_of_def\<close>)
  have "incoming_wins ?ea lb \<longleftrightarrow> (jr_changed_at lb, jr_origin lb) < (jr_changed_at la, jr_origin la)"
    by (auto simp: incoming_wins_def entry_of_def less_prod_def less_le)
  with A' B' flip assms(13,15) show ?thesis by auto
qed


definition ex_edit_env :: "string \<Rightarrow> sync_env" where
  "ex_edit_env now = \<lparr>sx_now = now, sx_sha256_hex = (\<lambda>s. s),
     sx_print = (\<lambda>v. case v of JString s \<Rightarrow> s | _ \<Rightarrow> []), sx_row_ok = (\<lambda>_ _ _. True),
     sx_compact_ok = True, sx_text = (\<lambda>_. ''0''), sx_real = (\<lambda>_. None)\<rparr>"

definition ex_payload :: "string \<Rightarrow> json" where
  "ex_payload title = JObject [(''id'', JString ''m''), (''title'', JString title)]"

definition ex_row :: "string \<Rightarrow> json list" where
  "ex_row title = row_of_payload (ex_edit_env []) MEMORY_COLUMNS (ex_payload title)"

definition ex_journal :: "string \<Rightarrow> string \<Rightarrow> string \<Rightarrow> journal_row" where
  "ex_journal device now title = \<lparr>jr_id = 1, jr_kind = ''memory'', jr_object = ''m'', jr_revision = 1,
     jr_origin = device, jr_fingerprint = fingerprint_value (ex_edit_env []) (ex_row title),
     jr_tombstone = False, jr_changed_at = now\<rparr>"

definition ex_edited :: "string \<Rightarrow> string \<Rightarrow> string \<Rightarrow> sync_store" where
  "ex_edited device now title = (ex_sync device)\<lparr>
     sy_objects := (\<lambda>k. if k = ''memory'' then [''m'' \<mapsto> ex_row title] else Map.empty),
     sy_journal := [ex_journal device now title], sy_next_journal := 2\<rparr>"

lemma ex_row_env: "row_of_payload (ex_edit_env now) MEMORY_COLUMNS (ex_payload title) = ex_row title"
proof -
  have "column_value (ex_edit_env now) = column_value (ex_edit_env [])"
    by (rule ext, rename_tac v, case_tac v) (simp_all add: column_value_def ex_edit_env_def)
  moreover have "stored_value (ex_edit_env now) = stored_value (ex_edit_env [])"
    by (intro ext) (simp add: stored_value_def ex_edit_env_def split: json.split)
  ultimately show ?thesis by (simp add: ex_row_def row_of_payload_def)
qed

lemma ex_fingerprint_env: "fingerprint_value (ex_edit_env now) = fingerprint_value (ex_edit_env [])"
  by (rule ext) (simp add: fingerprint_value_def ex_edit_env_def)

lemma ex_edited_reachable: "sync_reachable (ex_edited device now title)"
proof -
  let ?st = "(ex_sync device)\<lparr>sy_objects := (\<lambda>k. if k = ''memory'' then [''m'' \<mapsto> ex_row title] else Map.empty),
    sy_chunked := {}, sy_memory_fts := (\<lambda>_. None)\<rparr>"
  have "journal_object (ex_edit_env now) ''memory'' ''m'' ?st = Inr (ex_edited device now title, True)"
    by (simp add: journal_object_def ex_sync_def row_fingerprint_def columns_for_kind_def latest_def Let_def
        insert_journal_def ex_edited_def ex_journal_def ex_fingerprint_env [of now]) (simp add: ex_edit_env_def)
  then have "sync_step (ex_sync device) (ex_edited device now title)" by (rule sync_write)
  with ex_sync_init show ?thesis by (rule reachable_step)
qed

lemma ex_edited_latest: "latest ''memory'' ''m'' (ex_edited device now title) = Some (ex_journal device now title)"
  by (simp add: latest_def ex_edited_def of_object_def ex_journal_def)

lemma ex_edited_object: "sy_objects (ex_edited device now title) ''memory'' ''m'' = Some (ex_row title)"
  by (simp add: ex_edited_def)

lemma ex_fingerprints: "fingerprint_value (ex_edit_env []) (ex_row ''x'') \<noteq> fingerprint_value (ex_edit_env []) (ex_row ''y'')"
  by (simp add: fingerprint_value_def ex_row_def ex_payload_def row_of_payload_def MEMORY_COLUMNS_def
      ex_edit_env_def column_value_def stored_value_def json_get_def)

theorem concurrent_edits_converge_witness:
  "\<exists>A' B' ra rb. import_entries (ex_edit_env []) ''b''
      [(entry_of (ex_journal ''b'' ''2'' ''y''))\<lparr>se_payload := Some (ex_payload ''y'')\<rparr>] 1 (ex_edited ''a'' ''1'' ''x'') = (A', Inr ra)
    \<and> import_entries (ex_edit_env []) ''a''
      [(entry_of (ex_journal ''a'' ''1'' ''x''))\<lparr>se_payload := Some (ex_payload ''x'')\<rparr>] 1 (ex_edited ''b'' ''2'' ''y'') = (B', Inr rb)
    \<and> sy_objects A' ''memory'' ''m'' = sy_objects B' ''memory'' ''m''"
proof -
  have id: "json_get ''id'' (ex_payload t) = Some (JString ''m'')" for t
    by (simp add: ex_payload_def json_get_def)
  have o: "sy_objects (ex_edited d n t) ''memory'' ''m''
      = Some (row_of_payload (ex_edit_env []) MEMORY_COLUMNS (ex_payload t))" for d n t
    by (simp add: ex_edited_object ex_row_env)
  have ok: "sx_row_ok (ex_edit_env []) k row objs" for k row objs by (simp add: ex_edit_env_def)
  have self: "Some (jr_origin (ex_journal d n t)) = sy_self (ex_edited d n t)"
    "\<not> jr_tombstone (ex_journal d n t)" for d n t
    by (simp_all add: ex_journal_def ex_edited_def ex_sync_def)
  have fp: "jr_fingerprint (ex_journal ''a'' ''1'' ''x'') \<noteq> jr_fingerprint (ex_journal ''b'' ''2'' ''y'')"
    using ex_fingerprints by (simp add: ex_journal_def)
  have dev: "jr_origin (ex_journal ''a'' ''1'' ''x'') \<noteq> jr_origin (ex_journal ''b'' ''2'' ''y'')"
    by (simp add: ex_journal_def)
  have cols: "columns_for_kind ''memory'' = Inr MEMORY_COLUMNS" by (simp add: columns_for_kind_def)
  show ?thesis
    using concurrent_edits_converge [OF ex_edited_reachable ex_edited_reachable
        ex_edited_latest self ex_edited_latest self dev fp cols id o id o ok ok, of "''b''" 1 "''a''" 1]
    by (simp add: import_answer_def ex_edit_env_def) blast
qed


lemma map_result_all:
  "map_result f xs = Inr ys \<Longrightarrow> list_all2 (\<lambda>x y. f x = Inr y) xs ys"
  by (induction xs arbitrary: ys) (auto simp: bindE_Inr_iff)

lemma list_all2_right: "list_all2 P xs ys \<Longrightarrow> y \<in> set ys \<Longrightarrow> \<exists>x\<in>set xs. P x y"
  by (induction rule: list_all2_induct) auto

lemma sorted_take_prefix:
  fixes f :: "'a \<Rightarrow> nat"
  assumes "sorted_wrt (<) (map f xs)" "x \<in> set xs" "take n xs \<noteq> []" "f x \<le> f (last (take n xs))"
  shows "x \<in> set (take n xs)"
proof (rule ccontr)
  assume "x \<notin> set (take n xs)"
  then have "x \<in> set (drop n xs)" using assms(2) by (metis Un_iff append_take_drop_id set_append)
  moreover have "sorted_wrt (<) (map f (take n xs @ drop n xs))" using assms(1) by simp
  ultimately have "f (last (take n xs)) < f x"
    using last_in_set [OF assms(3)] unfolding map_append sorted_wrt_append by auto
  with assms(4) show False by simp
qed

definition carries_current :: "sync_store \<Rightarrow> sync_entry \<Rightarrow> bool" where
  "carries_current st e \<longleftrightarrow> (\<exists>r\<in>set (sy_journal st). e\<lparr>se_payload := None\<rparr> = entry_of r)
     \<and> (if se_tombstone e then se_payload e = None
        else \<exists>columns. columns_for_kind (se_kind e) = Inr columns
          \<and> se_payload e = map_option (\<lambda>row. json_object (zip columns row)) (sy_objects st (se_kind e) (se_object e)))"

lemma export_payload_entry:
  assumes "export_payload st (entry_of r) = Inr e" "r \<in> set (sy_journal st)"
  shows "se_journal_id e = int (jr_id r)" and "carries_current st e"
proof -
  have e: "e\<lparr>se_payload := None\<rparr> = entry_of r"
    using assms(1) by (auto simp: export_payload_def entry_of_def bindE_Inr_iff split: if_splits option.splits)
  then have "se_journal_id (e\<lparr>se_payload := None\<rparr>) = se_journal_id (entry_of r)" by (rule arg_cong)
  then show "se_journal_id e = int (jr_id r)" by (simp add: entry_of_def)
  have "if se_tombstone e then se_payload e = None
        else \<exists>columns. columns_for_kind (se_kind e) = Inr columns
          \<and> se_payload e = map_option (\<lambda>row. json_object (zip columns row)) (sy_objects st (se_kind e) (se_object e))"
    using assms(1) by (cases "jr_tombstone r"; cases "sy_objects st (jr_kind r) (jr_object r)")
      (auto simp: export_payload_def entry_of_def bindE_Inr_iff)
  with e assms(2) show "carries_current st e" by (auto simp: carries_current_def)
qed

lemma export_rows:
  assumes "journal_inv st" "export_entries peer limit st = Inr (es, up_to)"
    and wm: "wm = (case watermark_of peer st of None \<Rightarrow> 0 | Some w \<Rightarrow> wm_acked w)"
    and rows: "rows = filter (\<lambda>r. wm < int (jr_id r)) (sy_journal st)"
  shows "sorted_wrt (<) (map jr_id rows)"
    and "list_all2 (\<lambda>r e. export_payload st (entry_of r) = Inr e) (take limit rows) es"
    and "up_to = (if take limit rows = [] then wm else int (jr_id (last (take limit rows))))"
proof -
  show sorted: "sorted_wrt (<) (map jr_id rows)"
    using assms(1) by (simp add: rows journal_inv_def sorted_wrt_map sorted_wrt_filter)
  then have "sort_key jr_id rows = rows"
    by (intro sort_key_id_if_sorted) (simp add: strict_sorted_iff)
  with assms(2) have res: "map_result (export_payload st) (map entry_of (take limit rows)) = Inr es"
    "up_to = (if take limit rows = [] then wm else int (jr_id (last (take limit rows))))"
    by (auto simp: export_entries_def rows wm Let_def bindE_Inr_iff last_map entry_of_def)
  show "list_all2 (\<lambda>r e. export_payload st (entry_of r) = Inr e) (take limit rows) es"
    using map_result_all [OF res(1)] by (simp add: list_all2_map1)
  show "up_to = (if take limit rows = [] then wm else int (jr_id (last (take limit rows))))"
    by (rule res(2))
qed

text \<open>
  Export leaves no gap. From a reachable store, an export for a peer lists journal rows in
  the order of their ids, at most as many as asked, all after what the peer has acknowledged and
  up to the position it names, and every row in between is among them; a live object comes with
  its current row as payload. Acknowledging moves a peer the store already knows only forward; the
  first acknowledgement of a peer is stored as it is, below zero included.
\<close>

theorem export_leaves_no_gap:
  assumes "sync_reachable st" "export_entries peer limit st = Inr (es, up_to)"
  shows "let acked = (\<lambda>s. case watermark_of peer s of None \<Rightarrow> 0 | Some w \<Rightarrow> wm_acked w) in
     sorted_wrt (<) (map se_journal_id es) \<and> length es \<le> limit
   \<and> list_all (\<lambda>e. acked st < se_journal_id e \<and> se_journal_id e \<le> up_to \<and> carries_current st e) es
   \<and> (\<forall>r\<in>set (sy_journal st). acked st < int (jr_id r) \<and> int (jr_id r) \<le> up_to
        \<longrightarrow> int (jr_id r) \<in> set (map se_journal_id es))
   \<and> acked (acknowledge_peer env peer ack st) = (if watermark_of peer st = None then ack else max (acked st) ack)"
proof -
  define wm where "wm = (case watermark_of peer st of None \<Rightarrow> 0 | Some w \<Rightarrow> wm_acked w)"
  define rows where "rows = filter (\<lambda>r. wm < int (jr_id r)) (sy_journal st)"
  have "journal_inv st" using assms(1) by (rule sj.always_inv)
  note sorted = export_rows(1) [OF this assms(2) wm_def rows_def]
    and all = export_rows(2) [OF this assms(2) wm_def rows_def]
    and up = export_rows(3) [OF this assms(2) wm_def rows_def]
  have mem: "r \<in> set (sy_journal st) \<and> wm < int (jr_id r)" if "r \<in> set (take limit rows)" for r
    using in_set_takeD [OF that] by (simp add: rows_def)
  have ids: "map se_journal_id es = map (int \<circ> jr_id) (take limit rows)"
    using all mem by (induction rule: list_all2_induct) (auto dest: export_payload_entry(1))
  have taken_sorted: "sorted_wrt (<) (map jr_id (take limit rows))"
    using sorted by (simp add: take_map [symmetric] sorted_wrt_take)
  have each: "wm < se_journal_id e \<and> se_journal_id e \<le> up_to \<and> carries_current st e" if e: "e \<in> set es" for e
  proof -
    obtain r where r: "r \<in> set (take limit rows)" "export_payload st (entry_of r) = Inr e"
      using list_all2_right [OF all e] by blast
    have "jr_id r \<le> jr_id (last (take limit rows))" using taken_sorted r(1) by (rule sorted_key_le_last)
    with r(1) have "int (jr_id r) \<le> up_to" unfolding up by (auto simp del: take_eq_Nil)
    with export_payload_entry [OF r(2)] mem [OF r(1)] show ?thesis by simp
  qed
  have gap: "int (jr_id r) \<in> set (map se_journal_id es)"
    if "r \<in> set (sy_journal st)" "wm < int (jr_id r)" "int (jr_id r) \<le> up_to" for r
  proof -
    from that up have "take limit rows \<noteq> []" "jr_id r \<le> jr_id (last (take limit rows))" by (auto split: if_splits)
    with that sorted have "r \<in> set (take limit rows)" by (intro sorted_take_prefix) (auto simp: rows_def)
    then show ?thesis unfolding ids by auto
  qed
  have "sorted_wrt (<) (map se_journal_id es)"
    unfolding ids using taken_sorted by (simp add: sorted_wrt_map)
  moreover have "(case watermark_of peer (acknowledge_peer env peer ack st) of None \<Rightarrow> 0 | Some w \<Rightarrow> wm_acked w)
      = (if watermark_of peer st = None then ack else max wm ack)"
    by (auto simp: acknowledge_peer_def watermark_of_set wm_def split: option.split)
  ultimately show ?thesis
    using list_all2_lengthD [OF all] each gap unfolding wm_def [symmetric] Let_def list_all_iff by auto
qed

theorem export_leaves_no_gap_witness:
  "\<exists>es up_to. export_entries ''b'' 5 (ex_edited ''a'' ''1'' ''x'') = Inr (es, up_to) \<and> length es \<le> 5"
proof -
  obtain es up_to where e: "export_entries ''b'' 5 (ex_edited ''a'' ''1'' ''x'') = Inr (es, up_to)"
    by (simp add: export_entries_def watermark_of_def ex_edited_def ex_sync_def ex_journal_def Let_def
        export_payload_def entry_of_def columns_for_kind_def)
  with export_leaves_no_gap [OF ex_edited_reachable e] show ?thesis by (auto simp: Let_def)
qed

text \<open>
  A remote deletion of an edited object blocks the peer. A deletion carries no payload, and a
  conflict needs one: when an import reaches an entry that deletes an object whose newest row is this
  device's own edit, the whole import fails, whatever the rest of the bundle holds; nothing of the
  bundle is applied and no conflict is queued, so the retry fails too.
\<close>

lemma import_loop_append:
  "import_loop env (pre @ es) s = bindE (import_loop env pre s) (import_loop env es)"
proof (induction pre arbitrary: s)
  case (Cons x pre)
  then show ?case by (cases "import_entry env x s") simp_all
qed simp

theorem remote_deletion_blocks_import:
  assumes "import_loop env pre (st, \<lparr>ar_applied = 0, ar_acknowledged = 0, ar_tombstones = 0, ar_remote = 0, ar_local = 0,
        ar_entries = length (pre @ e # rest), ar_up_to = up_to\<rparr>) = Inr (st1, rp)"
    and "latest (se_kind e) (se_object e) st1 = Some l" "Some (jr_origin l) = sy_self st1" "\<not> jr_tombstone l"
    and "se_tombstone e" "se_payload e = None" "jr_fingerprint l \<noteq> se_fingerprint e"
  shows "import_entries env peer (pre @ e # rest) up_to st = (st, Inl ConstraintFailed)"
proof -
  have "import_entry env e (st1, rp) = Inl ConstraintFailed"
    using assms(2-7) by (simp add: import_entry_def Let_def record_conflict_def)
  with assms(1) show ?thesis by (simp add: import_entries_def import_loop_append)
qed

theorem remote_deletion_blocks_import_witness:
  "import_entries ex_sync_env ''b'' ([] @ [\<lparr>se_journal_id = 9, se_kind = ''memory'', se_object = ''m'', se_revision = 2,
      se_origin = ''b'', se_fingerprint = ''deleted'', se_tombstone = True, se_changed_at = ''9'', se_payload = None\<rparr>])
      9 (ex_edited ''a'' ''1'' ''x'') = (ex_edited ''a'' ''1'' ''x'', Inl ConstraintFailed)"
proof (rule remote_deletion_blocks_import)
  show "latest (se_kind \<lparr>se_journal_id = 9, se_kind = ''memory'', se_object = ''m'', se_revision = 2,
      se_origin = ''b'', se_fingerprint = ''deleted'', se_tombstone = True, se_changed_at = ''9'', se_payload = None\<rparr>)
      (se_object \<lparr>se_journal_id = 9, se_kind = ''memory'', se_object = ''m'', se_revision = 2,
      se_origin = ''b'', se_fingerprint = ''deleted'', se_tombstone = True, se_changed_at = ''9'', se_payload = None\<rparr>)
      (ex_edited ''a'' ''1'' ''x'') = Some (ex_journal ''a'' ''1'' ''x'')"
    by (simp add: ex_edited_latest)
qed (simp_all add: ex_journal_def ex_edited_def ex_sync_def fingerprint_value_def)

text \<open>
  The losing side is not always preserved. When the remote edit wins a conflict, the one
  conflict recorded holds the winner's payload again, and the local row is overwritten, so the
  local edit is nowhere in the store; and when the newest local row is this device's own
  deletion, any live entry for the object, however old, brings the object back without a
  conflict.
\<close>

theorem losing_side_is_lost:
  assumes "sync_reachable st" "latest (se_kind e) (se_object e) st = Some l"
    and "Some (jr_origin l) = sy_self st" "jr_fingerprint l \<noteq> se_fingerprint e"
    and "\<not> se_tombstone e" "se_payload e = Some p" "columns_for_kind (se_kind e) = Inr cols"
    and "json_get ''id'' p = Some (JString (se_object e))"
    and "sx_row_ok env (se_kind e) (row_of_payload env cols p) (sy_objects st)"
    and "jr_tombstone l \<or> incoming_wins e l"
  shows "\<exists>st' rp c. import_entries env peer [e] up_to st = (st', import_answer env rp)
    \<and> sy_objects st' (se_kind e) (se_object e) = Some (row_of_payload env cols p)
    \<and> (if jr_tombstone l then sy_conflicts st' = sy_conflicts st
       else sy_conflicts st' = sy_conflicts st @ [c] \<and> cf_payload c = p)"
proof -
  have inv: "journal_inv st" using assms(1) by (rule sj.always_inv)
  show ?thesis
  proof (cases "jr_tombstone l")
    case False
    with import_concurrent [OF inv assms(2,4,3) False assms(5-9), of peer up_to] assms(10) show ?thesis by auto
  next
    case True
    from apply_payload_ok [OF assms(7-9)] obtain st2 where st2: "apply_payload env (se_kind e) p st = Inr st2"
      "sy_objects st2 (se_kind e) (se_object e) = Some (row_of_payload env cols p)" "sy_journal st2 = sy_journal st"
      "sy_next_journal st2 = sy_next_journal st" "sy_conflicts st2 = sy_conflicts st" by blast
    have inv2: "journal_inv st2" using inv st2(3,4) same_journal(1) [of st2 st] by simp
    have nx: "jr_revision l + 1 = next_revision (se_kind e) (se_object e) st2"
      using assms(2) st2(3) by (simp add: next_revision_def latest_def)
    obtain st3 where st3: "insert_journal (se_kind e) (se_object e) (jr_revision l + 1) (se_origin e)
        (se_fingerprint e) False (se_changed_at e) st2 = Inr st3"
      "sy_objects st3 = sy_objects st2" "sy_conflicts st3 = sy_conflicts st2"
      using insert_journal_ok [OF inv2 nx, of "se_origin e" "se_fingerprint e" False "se_changed_at e"] by blast
    have "apply_incoming env e (jr_revision l) st = Inr st3"
      using st2(1) st3(1) assms(5,6) by (simp add: apply_incoming_def require_payload_def ok_or_def)
    then have "\<exists>rp'. import_entry env e (st, rp) = Inr (st3, rp')" for rp
      using assms(2,4,5) True by (simp add: import_entry_def)
    then obtain rp' where "import_entry env e (st, \<lparr>ar_applied = 0, ar_acknowledged = 0, ar_tombstones = 0,
        ar_remote = 0, ar_local = 0, ar_entries = 1, ar_up_to = up_to\<rparr>) = Inr (st3, rp')"
      by blast
    then show ?thesis
      using st2(2,5) st3(2,3) True
      by (simp add: import_entries_def sync_compact_def compact_def set_watermark_def import_answer_def)
  qed
qed

theorem losing_side_is_lost_witness:
  "\<exists>st' rp c. import_entries (ex_edit_env []) ''b''
      [(entry_of (ex_journal ''b'' ''2'' ''y''))\<lparr>se_payload := Some (ex_payload ''y'')\<rparr>] 1 (ex_edited ''a'' ''1'' ''x'')
      = (st', Inr rp) \<and> sy_conflicts st' = [c] \<and> cf_payload c = ex_payload ''y''"
proof -
  let ?e = "(entry_of (ex_journal ''b'' ''2'' ''y''))\<lparr>se_payload := Some (ex_payload ''y'')\<rparr>"
  let ?l = "ex_journal ''a'' ''1'' ''x''" and ?st = "ex_edited ''a'' ''1'' ''x''"
  have l: "latest (se_kind ?e) (se_object ?e) ?st = Some ?l"
    using ex_edited_latest [of "''a''" "''1''" "''x''"] by (simp add: entry_of_def ex_journal_def)
  have w: "jr_tombstone ?l \<or> incoming_wins ?e ?l"
    by (simp add: incoming_wins_def entry_of_def ex_journal_def)
  have f: "jr_fingerprint ?l \<noteq> se_fingerprint ?e"
    using ex_fingerprints by (simp add: entry_of_def ex_journal_def)
  have "\<exists>st' rp c. import_entries (ex_edit_env []) ''b'' [?e] 1 ?st = (st', import_answer (ex_edit_env []) rp)
      \<and> sy_objects st' (se_kind ?e) (se_object ?e) = Some (row_of_payload (ex_edit_env []) MEMORY_COLUMNS (ex_payload ''y''))
      \<and> (if jr_tombstone ?l then sy_conflicts st' = sy_conflicts ?st
         else sy_conflicts st' = sy_conflicts ?st @ [c] \<and> cf_payload c = ex_payload ''y'')"
    by (rule losing_side_is_lost [OF ex_edited_reachable l _ f _ _ _ _ _ w])
      (simp_all add: entry_of_def ex_journal_def ex_edited_def ex_sync_def columns_for_kind_def json_get_def
        ex_payload_def ex_edit_env_def)
  moreover have "\<not> jr_tombstone ?l" "sy_conflicts ?st = []" "sx_compact_ok (ex_edit_env [])"
    by (simp_all add: ex_journal_def ex_edited_def ex_sync_def ex_edit_env_def)
  ultimately show ?thesis by auto
qed

end
