(* ===== verification/DeviceIdentity.thy ===== *)
theory DeviceIdentity
  imports Crypto AuditLog SyncEngine
begin

text \<open>
  The registry of an account's devices (\<open>crates/core/src/device_identity.rs\<close>): enrolment, key rotation,
  revocation, wiping, recovery, adoption on a second machine, and the sealed bundles two devices
  exchange. A store holds the registry in a cell of its metadata table, the audit trail and the
  synchronised tables, whose \<open>sy_self\<close> is the cell with the identifier of the local device. A
  function that takes the registry by mutable reference returns it with the store, also when it
  fails. Every draw of randomness succeeds.
\<close>

section \<open>Registry\<close>

datatype device_status = DevActive | DevRevoked string | DevWiped string

record retired_key =
  rk_fingerprint :: string
  rk_signing_public :: string
  rk_retired_at :: string
  rk_key_version :: "32 word"

record device_summary =
  dv_id :: string
  dv_name :: string
  dv_fingerprint :: string
  dv_signing_public :: string
  dv_agreement_public :: string
  dv_key_version :: "32 word"
  dv_status :: device_status
  dv_created_at :: string
  dv_rotated_at :: "string option"
  dv_last_seen :: "string option"

record device_entry =
  de_summary :: device_summary
  de_sealed :: "sealed_blob option"
  de_retired :: "retired_key list"

record registry =
  rg_contract_version :: string
  rg_hierarchy_version :: string
  rg_account_id :: string
  rg_created_at :: string
  rg_root_generation :: "32 word"
  rg_salt :: string
  rg_root_signing_public :: string
  rg_sealed_root :: "sealed_blob option"
  rg_devices :: "device_entry list"

record device_export =
  dx_contract_version :: string
  dx_hierarchy_version :: string
  dx_account_id :: string
  dx_root_generation :: "32 word"
  dx_root_signing_public :: string
  dx_salt :: string
  dx_device_id :: string
  dx_devices :: "device_summary list"
  dx_credential :: sealed_blob

record identity_store =
  id_registry :: "registry cell"
  id_audit :: "audit_event list"
  id_sync :: sync_store

definition audit :: "identity_io \<Rightarrow> string \<Rightarrow> string \<Rightarrow> nat \<Rightarrow> identity_store \<Rightarrow> identity_store" where
  "audit io action outcome audit_max store = store\<lparr>id_audit :=
     fst (record_audit (io_now io) ''owner'' action None None outcome None 0 audit_max (id_audit store))\<rparr>"

definition load_registry :: "identity_store \<Rightarrow> (identity_error, registry option) result" where
  "load_registry store = (case id_registry store of Missing \<Rightarrow> Inr None | Malformed \<Rightarrow> Inl InvalidRegistry
     | Json r \<Rightarrow> Inr (Some r))"

definition save_registry :: "registry \<Rightarrow> identity_store \<Rightarrow> (identity_error, identity_store) result" where
  "save_registry r store =
     (if rg_contract_version r \<noteq> CONTRACT_VERSION then Inl (UnsupportedContract (rg_contract_version r))
      else if rg_hierarchy_version r \<noteq> KEY_HIERARCHY_VERSION then Inl (UnsupportedHierarchy (rg_hierarchy_version r))
      else Inr (store\<lparr>id_registry := Json r\<rparr>))"

text \<open>The end of every operation: save, note the action in the audit trail, answer.\<close>

definition commit :: "identity_io \<Rightarrow> string \<Rightarrow> nat \<Rightarrow> 'a \<Rightarrow> identity_store \<Rightarrow> registry
    \<Rightarrow> (identity_store \<times> registry) \<times> (identity_error, 'a) result" where
  "commit io action audit_max answer store r = (case save_registry r store of
       Inl e \<Rightarrow> ((store, r), Inl e)
     | Inr store1 \<Rightarrow> ((audit io action ''ok'' audit_max store1, r), Inr answer))"

definition verify_recovery_possession :: "crypto \<Rightarrow> string \<Rightarrow> registry \<Rightarrow> (identity_error, unit) result" where
  "verify_recovery_possession cy seal_key r = (case rg_sealed_root r of
       None \<Rightarrow> Inl NoRootMaterial
     | Some blob \<Rightarrow> bindE (map_err (\<lambda>_. WrongRecoveryKey) (unseal cy seal_key blob)) (\<lambda>_. Inr ()))"

definition require_active :: "device_entry \<Rightarrow> (identity_error, unit) result" where
  "require_active e = (case dv_status (de_summary e) of DevActive \<Rightarrow> Inr ()
     | DevRevoked _ \<Rightarrow> Inl (DeviceRevoked (dv_id (de_summary e)))
     | DevWiped _ \<Rightarrow> Inl (DeviceWiped (dv_id (de_summary e))))"

definition find_device :: "string \<Rightarrow> registry \<Rightarrow> (identity_error, device_entry) result" where
  "find_device did r = ok_or (find (\<lambda>e. dv_id (de_summary e) = did) (rg_devices r)) (UnknownDevice did)"

definition update_device :: "string \<Rightarrow> (device_entry \<Rightarrow> device_entry) \<Rightarrow> registry \<Rightarrow> registry" where
  "update_device did f r = r\<lparr>rg_devices := update_first (\<lambda>e. dv_id (de_summary e) = did) f (rg_devices r)\<rparr>"

text \<open>The public half of fresh secrets, in a new summary.\<close>

definition new_summary :: "crypto \<Rightarrow> identity_io \<Rightarrow> nat \<Rightarrow> string \<Rightarrow> device_secrets \<Rightarrow> device_summary" where
  "new_summary cy io i name s = \<lparr>dv_id = io_uuid io i, dv_name = trim name,
     dv_fingerprint = fingerprint cy (cy_sign_public cy (ds_signing s)),
     dv_signing_public = cy_encode cy (cy_sign_public cy (ds_signing s)),
     dv_agreement_public = cy_encode cy (cy_agree_public cy (ds_agreement s)),
     dv_key_version = 1, dv_status = DevActive, dv_created_at = io_now io, dv_rotated_at = None, dv_last_seen = None\<rparr>"

section \<open>Operations on the registry\<close>

record initialized =
  in_registry :: registry
  in_recovery_key :: string
  in_local_device :: device_summary

definition initialize :: "crypto \<Rightarrow> identity_io \<Rightarrow> string \<Rightarrow> nat \<Rightarrow> identity_store
    \<Rightarrow> identity_store \<times> (identity_error, initialized) result" where
  "initialize cy io device_name audit_max store =
     (let made = bindE (load_registry store) (\<lambda>existing.
        bindE (ensure (existing = None) AlreadyInitialized) (\<lambda>_.
        bindE (ensure (trim device_name \<noteq> []) DeviceNameEmpty) (\<lambda>_.
        let recovery_key = cy_encode cy (io_bytes io 0 ROOT_SECRET_BYTES);
            root_secret = io_bytes io 1 ROOT_SECRET_BYTES;
            salt = io_bytes io 2 RECOVERY_SALT_BYTES in
        bindE (storage_seal_key cy recovery_key salt) (\<lambda>seal_key.
        let root_signing = purpose_key cy root_secret 0 PURPOSE_ROOT_SIGNING in
        bindE (seal cy (io_bytes io 3 12) seal_key root_secret) (\<lambda>sealed_root.
        let secrets = generate_device_secrets io 4 in
        bindE (seal_device_secrets cy (io_bytes io 6 12) seal_key secrets) (\<lambda>sealed_secrets.
        let summary = new_summary cy io 0 device_name secrets;
            r = \<lparr>rg_contract_version = CONTRACT_VERSION, rg_hierarchy_version = KEY_HIERARCHY_VERSION,
                 rg_account_id = io_uuid io 1, rg_created_at = io_now io, rg_root_generation = 0,
                 rg_salt = cy_encode cy salt, rg_root_signing_public = cy_encode cy (cy_sign_public cy root_signing),
                 rg_sealed_root = Some sealed_root,
                 rg_devices = [\<lparr>de_summary = summary, de_sealed = Some sealed_secrets, de_retired = []\<rparr>]\<rparr>
        in Inr (r, recovery_key, summary)))))))
      in case made of Inl e \<Rightarrow> (store, Inl e) | Inr (r, recovery_key, summary) \<Rightarrow>
        (case save_registry r store of Inl e \<Rightarrow> (store, Inl e) | Inr store1 \<Rightarrow>
          (audit io ''identity.initialize'' ''ok'' audit_max
             (store1\<lparr>id_sync := (id_sync store1)\<lparr>sy_self := Some (dv_id summary)\<rparr>\<rparr>),
           Inr \<lparr>in_registry = r, in_recovery_key = recovery_key, in_local_device = summary\<rparr>)))"

definition trust_view :: "registry \<Rightarrow> device_summary list" where
  "trust_view r = map de_summary (rg_devices r)"

text \<open>The sealing key of a registry, from its salt.\<close>

definition registry_seal_key :: "crypto \<Rightarrow> string \<Rightarrow> registry \<Rightarrow> (identity_error, string) result" where
  "registry_seal_key cy recovery_key r =
     bindE (ok_or (cy_decode cy (rg_salt r)) (NotBase64 ''salt'')) (\<lambda>salt. storage_seal_key cy recovery_key salt)"

definition enroll :: "crypto \<Rightarrow> identity_io \<Rightarrow> string \<Rightarrow> string \<Rightarrow> nat \<Rightarrow> identity_store \<times> registry
    \<Rightarrow> (identity_store \<times> registry) \<times> (identity_error, device_summary) result" where
  "enroll cy io recovery_key device_name audit_max s = (case s of (store, r) \<Rightarrow>
     (let made =
        bindE (ensure (length (rg_devices r) < DEVICE_LIMIT) DeviceLimitReached) (\<lambda>_.
        bindE (ensure (trim device_name \<noteq> []) DeviceNameEmpty) (\<lambda>_.
        bindE (registry_seal_key cy recovery_key r) (\<lambda>seal_key.
        bindE (verify_recovery_possession cy seal_key r) (\<lambda>_.
        let secrets = generate_device_secrets io 0 in
        bindE (seal_device_secrets cy (io_bytes io 2 12) seal_key secrets) (\<lambda>sealed_secrets.
        Inr (new_summary cy io 0 device_name secrets, sealed_secrets))))))
      in case made of Inl e \<Rightarrow> (s, Inl e) | Inr (summary, sealed_secrets) \<Rightarrow>
        commit io ''identity.enroll'' audit_max summary store
          (r\<lparr>rg_devices := rg_devices r @ [\<lparr>de_summary = summary, de_sealed = Some sealed_secrets, de_retired = []\<rparr>]\<rparr>)))"

text \<open>The bounded history of retired keys.\<close>

definition retire_key :: "retired_key \<Rightarrow> retired_key list \<Rightarrow> retired_key list" where
  "retire_key k ks = (let ks = ks @ [k] in if RETIRED_KEY_HISTORY_LIMIT < length ks then tl ks else ks)"

definition rotated_entry :: "crypto \<Rightarrow> identity_io \<Rightarrow> device_secrets \<Rightarrow> sealed_blob \<Rightarrow> device_entry \<Rightarrow> device_entry" where
  "rotated_entry cy io secrets sealed e = (let summary = de_summary e in
     \<lparr>de_summary = summary\<lparr>dv_fingerprint := fingerprint cy (cy_sign_public cy (ds_signing secrets)),
        dv_signing_public := cy_encode cy (cy_sign_public cy (ds_signing secrets)),
        dv_agreement_public := cy_encode cy (cy_agree_public cy (ds_agreement secrets)),
        dv_key_version := dv_key_version summary + 1, dv_rotated_at := Some (io_now io)\<rparr>,
      de_sealed = Some sealed,
      de_retired = retire_key \<lparr>rk_fingerprint = dv_fingerprint summary, rk_signing_public = dv_signing_public summary,
        rk_retired_at = io_now io, rk_key_version = dv_key_version summary\<rparr> (de_retired e)\<rparr>)"

definition rotate_device :: "crypto \<Rightarrow> identity_io \<Rightarrow> string \<Rightarrow> string \<Rightarrow> nat \<Rightarrow> identity_store \<times> registry
    \<Rightarrow> (identity_store \<times> registry) \<times> (identity_error, device_summary) result" where
  "rotate_device cy io recovery_key did audit_max s = (case s of (store, r) \<Rightarrow>
     (let made =
        bindE (registry_seal_key cy recovery_key r) (\<lambda>seal_key.
        bindE (verify_recovery_possession cy seal_key r) (\<lambda>_.
        bindE (find_device did r) (\<lambda>e.
        bindE (require_active e) (\<lambda>_.
        let secrets = generate_device_secrets io 0 in
        bindE (seal_device_secrets cy (io_bytes io 2 12) seal_key secrets) (\<lambda>sealed_secrets.
        bindE (ensure (dv_key_version (de_summary e) \<noteq> - 1) KeyVersionExhausted) (\<lambda>_.
        Inr (rotated_entry cy io secrets sealed_secrets e)))))))
      in case made of Inl e \<Rightarrow> (s, Inl e) | Inr entry \<Rightarrow>
        commit io ''identity.rotate_device'' audit_max (de_summary entry) store (update_device did (\<lambda>_. entry) r)))"

definition revoke_device :: "identity_io \<Rightarrow> string \<Rightarrow> nat \<Rightarrow> identity_store \<times> registry
    \<Rightarrow> (identity_store \<times> registry) \<times> (identity_error, device_summary) result" where
  "revoke_device io did audit_max s = (case s of (store, r) \<Rightarrow>
     (case bindE (find_device did r) (\<lambda>e. bindE (require_active e) (\<lambda>_. Inr e)) of Inl err \<Rightarrow> (s, Inl err) | Inr e \<Rightarrow>
       (let summary = (de_summary e)\<lparr>dv_status := DevRevoked (io_now io)\<rparr>
        in commit io ''identity.revoke_device'' audit_max summary store
             (update_device did (\<lambda>e. e\<lparr>de_summary := summary\<rparr>) r))))"

definition is_wiped :: "device_status \<Rightarrow> bool" where
  "is_wiped s = (case s of DevWiped _ \<Rightarrow> True | _ \<Rightarrow> False)"

definition wipe_device :: "identity_io \<Rightarrow> string \<Rightarrow> nat \<Rightarrow> identity_store \<times> registry
    \<Rightarrow> (identity_store \<times> registry) \<times> (identity_error, device_summary) result" where
  "wipe_device io did audit_max s = (case s of (store, r) \<Rightarrow>
     (case bindE (find_device did r) (\<lambda>e. bindE (ensure (\<not> is_wiped (dv_status (de_summary e))) (AlreadyWiped did)) (\<lambda>_. Inr e)) of
       Inl err \<Rightarrow> (s, Inl err) | Inr e \<Rightarrow>
       (let summary = (de_summary e)\<lparr>dv_status := DevWiped (io_now io)\<rparr>
        in commit io ''identity.wipe_device'' audit_max summary store
             (update_device did (\<lambda>e. e\<lparr>de_summary := summary, de_sealed := None\<rparr>) r))))"

text \<open>Resealing every retained secret; a wiped device has none and gives an empty blob. The draws of
  nonces go on from \<open>i\<close>.\<close>

fun reseal :: "crypto \<Rightarrow> identity_io \<Rightarrow> string \<Rightarrow> string \<Rightarrow> nat \<Rightarrow> device_entry list \<Rightarrow> (identity_error, sealed_blob list) result" where
  "reseal cy io current new i [] = Inr []"
| "reseal cy io current new i (e # es) = (case de_sealed e of
       Some blob \<Rightarrow>
         bindE (unseal cy current blob) (\<lambda>material.
         bindE (seal cy (io_bytes io i 12) new material) (\<lambda>b.
         bindE (reseal cy io current new (i + 1) es) (\<lambda>bs. Inr (b # bs))))
     | None \<Rightarrow> bindE (reseal cy io current new i es) (\<lambda>bs. Inr (\<lparr>sb_nonce = [], sb_ciphertext = []\<rparr> # bs)))"

definition put_resealed :: "device_entry list \<Rightarrow> sealed_blob list \<Rightarrow> device_entry list" where
  "put_resealed es bs = map (\<lambda>(e, b). if de_sealed e \<noteq> None then e\<lparr>de_sealed := Some b\<rparr> else e) (zip es bs)"

definition recover :: "crypto \<Rightarrow> identity_io \<Rightarrow> string \<Rightarrow> string \<Rightarrow> nat \<Rightarrow> identity_store \<times> registry
    \<Rightarrow> (identity_store \<times> registry) \<times> (identity_error, unit) result" where
  "recover cy io current_key new_key audit_max s = (case s of (store, r) \<Rightarrow>
     (let made =
        bindE (ensure (trim new_key \<noteq> trim current_key) SameRecoveryKey) (\<lambda>_.
        bindE (ok_or (cy_decode cy (rg_salt r)) (NotBase64 ''salt'')) (\<lambda>salt.
        bindE (storage_seal_key cy current_key salt) (\<lambda>current.
        bindE (storage_seal_key cy new_key salt) (\<lambda>new.
        bindE (case rg_sealed_root r of
             None \<Rightarrow> Inr None
           | Some blob \<Rightarrow> bindE (unseal cy current blob) (\<lambda>root.
               bindE (seal cy (io_bytes io 0 12) new root) (\<lambda>b. Inr (Some b)))) (\<lambda>sealed_root.
        bindE (reseal cy io current new 1 (rg_devices r)) (\<lambda>resealed.
        Inr (r\<lparr>rg_sealed_root := sealed_root, rg_devices := put_resealed (rg_devices r) resealed\<rparr>)))))))
      in case made of Inl e \<Rightarrow> (s, Inl e) | Inr r' \<Rightarrow> commit io ''identity.recover'' audit_max () store r'))"

text \<open>The generation is a \<open>u32\<close>; adding one to the greatest wraps in a release build.\<close>

definition rotate_root :: "crypto \<Rightarrow> identity_io \<Rightarrow> string \<Rightarrow> nat \<Rightarrow> identity_store \<times> registry
    \<Rightarrow> (identity_store \<times> registry) \<times> (identity_error, unit) result" where
  "rotate_root cy io recovery_key audit_max s = (case s of (store, r) \<Rightarrow>
     (let made =
        bindE (registry_seal_key cy recovery_key r) (\<lambda>seal_key.
        bindE (verify_recovery_possession cy seal_key r) (\<lambda>_.
        bindE (ensure (rg_sealed_root r \<noteq> None) NoRootMaterial) (\<lambda>_.
        let root_secret = io_bytes io 0 ROOT_SECRET_BYTES;
            root_signing = purpose_key cy root_secret (rg_root_generation r + 1) PURPOSE_ROOT_SIGNING in
        bindE (seal cy (io_bytes io 1 12) seal_key root_secret) (\<lambda>sealed_root.
        Inr (r\<lparr>rg_root_generation := rg_root_generation r + 1,
               rg_root_signing_public := cy_encode cy (cy_sign_public cy root_signing),
               rg_sealed_root := Some sealed_root\<rparr>)))))
      in case made of Inl e \<Rightarrow> (s, Inl e) | Inr r' \<Rightarrow> commit io ''identity.rotate_root'' audit_max () store r'))"

definition verify_device_signature :: "crypto \<Rightarrow> registry \<Rightarrow> string \<Rightarrow> string \<Rightarrow> string \<Rightarrow> string \<Rightarrow> (identity_error, bool) result" where
  "verify_device_signature cy r recovery_key did message sig =
     bindE (registry_seal_key cy recovery_key r) (\<lambda>seal_key.
     bindE (find_device did r) (\<lambda>e.
     bindE (ok_or (de_sealed e) (NoRetainedSecret did)) (\<lambda>blob.
     bindE (unseal_device_secrets cy seal_key blob) (\<lambda>secrets.
     bindE (ensure (cy_signature cy sig) SignatureEncoding) (\<lambda>_.
     Inr (cy_verify cy (cy_sign_public cy (ds_signing secrets)) message sig))))))"

section \<open>Pairing\<close>

definition export_device :: "registry \<Rightarrow> string \<Rightarrow> (identity_error, device_export) result" where
  "export_device r did =
     bindE (find_device did r) (\<lambda>e.
     bindE (ok_or (de_sealed e) (NoRetainedSecret did)) (\<lambda>credential.
     Inr \<lparr>dx_contract_version = rg_contract_version r, dx_hierarchy_version = rg_hierarchy_version r,
          dx_account_id = rg_account_id r, dx_root_generation = rg_root_generation r,
          dx_root_signing_public = rg_root_signing_public r, dx_salt = rg_salt r, dx_device_id = did,
          dx_devices = trust_view r, dx_credential = credential\<rparr>))"

definition adopt :: "crypto \<Rightarrow> identity_io \<Rightarrow> device_export \<Rightarrow> string \<Rightarrow> nat \<Rightarrow> identity_store
    \<Rightarrow> identity_store \<times> (identity_error, device_summary) result" where
  "adopt cy io x recovery_key audit_max store =
     (let made =
        bindE (load_registry store) (\<lambda>existing.
        bindE (ensure (existing = None) AlreadyInitialized) (\<lambda>_.
        bindE (ensure (dx_contract_version x = CONTRACT_VERSION) (ExportContract (dx_contract_version x))) (\<lambda>_.
        bindE (ensure (dx_hierarchy_version x = KEY_HIERARCHY_VERSION) (ExportHierarchy (dx_hierarchy_version x))) (\<lambda>_.
        bindE (ok_or (cy_decode cy (dx_salt x)) (NotBase64 ''device export salt'')) (\<lambda>account_salt.
        bindE (storage_seal_key cy recovery_key account_salt) (\<lambda>account_key.
        bindE (map_err (\<lambda>_. WrongCredentialKey) (unseal_device_secrets cy account_key (dx_credential x))) (\<lambda>secrets.
        let salt = io_bytes io 0 RECOVERY_SALT_BYTES in
        bindE (storage_seal_key cy recovery_key salt) (\<lambda>local_key.
        bindE (seal_device_secrets cy (io_bytes io 1 12) local_key secrets) (\<lambda>sealed_secrets.
        let devices = map (\<lambda>v. \<lparr>de_summary = v, de_sealed = None, de_retired = []\<rparr>) (dx_devices x) in
        bindE (ok_or (find (\<lambda>e. dv_id (de_summary e) = dx_device_id x) devices) MissingCredentialDevice) (\<lambda>e.
        Inr (\<lparr>rg_contract_version = dx_contract_version x, rg_hierarchy_version = dx_hierarchy_version x,
              rg_account_id = dx_account_id x, rg_created_at = io_now io, rg_root_generation = dx_root_generation x,
              rg_salt = cy_encode cy salt, rg_root_signing_public = dx_root_signing_public x, rg_sealed_root = None,
              rg_devices = update_first (\<lambda>e. dv_id (de_summary e) = dx_device_id x)
                (\<lambda>e. e\<lparr>de_sealed := Some sealed_secrets\<rparr>) devices\<rparr>,
             de_summary e)))))))))))
      in case made of Inl e \<Rightarrow> (store, Inl e) | Inr (r, summary) \<Rightarrow>
        (case save_registry r store of Inl e \<Rightarrow> (store, Inl e) | Inr store1 \<Rightarrow>
          (audit io ''identity.adopt'' ''ok'' audit_max
             (store1\<lparr>id_sync := (id_sync store1)\<lparr>sy_self := Some (dv_id summary)\<rparr>\<rparr>), Inr summary)))"

section \<open>Invariant and lifecycle\<close>

definition device_id :: "device_entry \<Rightarrow> string" where
  "device_id e = dv_id (de_summary e)"

definition entry_ok :: "device_entry \<Rightarrow> bool" where
  "entry_ok e \<longleftrightarrow> (is_wiped (dv_status (de_summary e)) \<longrightarrow> de_sealed e = None) \<and> length (de_retired e) \<le> RETIRED_KEY_HISTORY_LIMIT
     \<and> dv_key_version (de_summary e) \<noteq> 0"

definition has_secrets :: "device_entry \<Rightarrow> bool" where
  "has_secrets e \<longleftrightarrow> is_wiped (dv_status (de_summary e)) \<or> de_sealed e \<noteq> None"

definition registry_ok :: "registry \<Rightarrow> bool" where
  "registry_ok r \<longleftrightarrow> rg_contract_version r = CONTRACT_VERSION \<and> rg_hierarchy_version r = KEY_HIERARCHY_VERSION
     \<and> length (rg_devices r) \<le> DEVICE_LIMIT \<and> distinct (map device_id (rg_devices r)) \<and> list_all entry_ok (rg_devices r)
     \<and> (rg_sealed_root r \<noteq> None \<longrightarrow> list_all has_secrets (rg_devices r))"

text \<open>What no operation undoes: a device keeps its place, identifier and name; it leaves the active state
  for good, a wiped one keeps its status and never has secrets again, and versions do not decrease.\<close>

inductive status_edge :: "device_status \<Rightarrow> device_status \<Rightarrow> bool" where
  "status_edge s s"
| "status_edge DevActive s"
| "status_edge (DevRevoked t) (DevWiped t')"

definition entry_grows :: "device_entry \<Rightarrow> device_entry \<Rightarrow> bool" where
  "entry_grows e e' \<longleftrightarrow> device_id e' = device_id e \<and> dv_name (de_summary e') = dv_name (de_summary e)
     \<and> status_edge (dv_status (de_summary e)) (dv_status (de_summary e'))
     \<and> dv_key_version (de_summary e) \<le> dv_key_version (de_summary e') \<and> (de_sealed e = None \<longrightarrow> de_sealed e' = None)
     \<and> (dv_status (de_summary e) \<noteq> DevActive \<longrightarrow> (de_summary e')\<lparr>dv_status := dv_status (de_summary e)\<rparr> = de_summary e)"

definition registry_grows :: "registry \<Rightarrow> registry \<Rightarrow> bool" where
  "registry_grows r r' \<longleftrightarrow> rg_account_id r' = rg_account_id r \<and> rg_salt r' = rg_salt r
     \<and> (\<exists>es ds. rg_devices r' = es @ ds \<and> list_all2 entry_grows (rg_devices r) es)"

inductive_cases status_edgeE: "status_edge s t"

lemma status_edge_trans: "status_edge s t \<Longrightarrow> status_edge t u \<Longrightarrow> status_edge s u"
  by (auto elim!: status_edgeE intro: status_edge.intros)

lemma same_status: "v\<lparr>dv_status := dv_status v\<rparr> = (v :: device_summary)"
  by (cases v) simp

lemma entry_grows_refl [simp]: "entry_grows e e"
  unfolding entry_grows_def by (intro conjI impI refl order_refl status_edge.intros(1) same_status)

lemma entry_grows_trans:
  assumes "entry_grows e f" "entry_grows f g"
  shows "entry_grows e g"
proof -
  have n: "dv_status (de_summary f) \<noteq> DevActive" if "dv_status (de_summary e) \<noteq> DevActive"
    using assms(1) that by (auto simp: entry_grows_def elim: status_edgeE)
  have u: "(de_summary g)\<lparr>dv_status := s\<rparr> = (de_summary f)\<lparr>dv_status := s\<rparr>"
    if "(de_summary g)\<lparr>dv_status := dv_status (de_summary f)\<rparr> = de_summary f" for s
    using arg_cong [OF that, of "dv_status_update (\<lambda>_. s)"] by simp
  have "(de_summary g)\<lparr>dv_status := dv_status (de_summary e)\<rparr> = de_summary e" if "dv_status (de_summary e) \<noteq> DevActive"
  proof -
    from assms(1) that have f: "(de_summary f)\<lparr>dv_status := dv_status (de_summary e)\<rparr> = de_summary e"
      unfolding entry_grows_def by blast
    from assms(2) n [OF that] have "(de_summary g)\<lparr>dv_status := dv_status (de_summary f)\<rparr> = de_summary f"
      unfolding entry_grows_def by blast
    from u [OF this] f show ?thesis by (rule trans)
  qed
  moreover have "status_edge (dv_status (de_summary e)) (dv_status (de_summary g))"
    using assms status_edge_trans unfolding entry_grows_def by blast
  moreover have "dv_key_version (de_summary e) \<le> dv_key_version (de_summary g)"
    using assms unfolding entry_grows_def by (meson order_trans)
  moreover have "de_sealed e = None \<longrightarrow> de_sealed g = None" "device_id g = device_id e"
    "dv_name (de_summary g) = dv_name (de_summary e)"
    using assms unfolding entry_grows_def by (blast, metis, metis)
  ultimately show ?thesis unfolding entry_grows_def by blast
qed

lemma grows_devices: "list_all2 entry_grows es es" "list_all2 entry_grows es fs \<Longrightarrow> list_all2 entry_grows fs gs \<Longrightarrow> list_all2 entry_grows es gs"
  by (rule list_all2_refl, simp) (rule list_all2_trans [OF entry_grows_trans])

lemma registry_grows_refl [simp]: "registry_grows r r"
  unfolding registry_grows_def
  by (intro conjI refl exI [of _ "rg_devices r"] exI [of _ "[]"]) (simp_all add: grows_devices(1))

lemma registry_grows_trans: "registry_grows r s \<Longrightarrow> registry_grows s t \<Longrightarrow> registry_grows r t"
proof (unfold registry_grows_def, elim conjE exE, intro conjI)
  fix es ds es' ds'
  assume s: "rg_devices s = es @ ds" "list_all2 entry_grows (rg_devices r) es"
    and t: "rg_devices t = es' @ ds'" "list_all2 entry_grows (rg_devices s) es'"
  then obtain e1 e2 where "es' = e1 @ e2" "list_all2 entry_grows es e1" by (auto simp: list_all2_append1)
  with s t grows_devices(2) show "\<exists>es ds. rg_devices t = es @ ds \<and> list_all2 entry_grows (rg_devices r) es"
    by (metis append_assoc)
qed simp_all

lemma grows_update_first:
  "(\<And>e. e \<in> set es \<Longrightarrow> p e \<Longrightarrow> entry_grows e (f e)) \<Longrightarrow> list_all2 entry_grows es (update_first p f es)"
  by (induction es) (auto intro: grows_devices(1))

section \<open>Running operations\<close>

text \<open>The commands load the registry, run one operation with a recovery key and leave the store it
  returns.\<close>

datatype identity_op = OpEnroll string | OpRotate string | OpRevoke string | OpWipe string | OpRecover string | OpRotateRoot

fun run_op :: "crypto \<Rightarrow> identity_io \<Rightarrow> string \<Rightarrow> nat \<Rightarrow> identity_op \<Rightarrow> identity_store \<times> registry
    \<Rightarrow> (identity_store \<times> registry) \<times> (identity_error, device_summary option) result" where
  "run_op cy io key n (OpEnroll name) s = map_prod (\<lambda>x. x) (map_sum (\<lambda>x. x) Some) (enroll cy io key name n s)"
| "run_op cy io key n (OpRotate d) s = map_prod (\<lambda>x. x) (map_sum (\<lambda>x. x) Some) (rotate_device cy io key d n s)"
| "run_op cy io key n (OpRevoke d) s = map_prod (\<lambda>x. x) (map_sum (\<lambda>x. x) Some) (revoke_device io d n s)"
| "run_op cy io key n (OpWipe d) s = map_prod (\<lambda>x. x) (map_sum (\<lambda>x. x) Some) (wipe_device io d n s)"
| "run_op cy io key n (OpRecover new) s = map_prod (\<lambda>x. x) (map_sum (\<lambda>x. x) (\<lambda>_. None)) (recover cy io key new n s)"
| "run_op cy io key n OpRotateRoot s = map_prod (\<lambda>x. x) (map_sum (\<lambda>x. x) (\<lambda>_. None)) (rotate_root cy io key n s)"

lemma commit_ok:
  "registry_ok r \<Longrightarrow> commit io action n answer st r = ((audit io action ''ok'' n (st\<lparr>id_registry := Json r\<rparr>), r), Inr answer)"
  by (simp add: commit_def save_registry_def registry_ok_def)

lemma audit_fields [simp]: "id_registry (audit io action outcome n st) = id_registry st" "id_sync (audit io action outcome n st) = id_sync st"
  by (simp_all add: audit_def)

lemma length_retire_key: "length ks \<le> RETIRED_KEY_HISTORY_LIMIT \<Longrightarrow> length (retire_key k ks) \<le> RETIRED_KEY_HISTORY_LIMIT"
  by (auto simp: retire_key_def Let_def)

lemma update_device_ok:
  assumes "registry_ok r" "\<And>e. e \<in> set (rg_devices r) \<Longrightarrow> device_id e = d \<Longrightarrow> entry_ok (f e) \<and> entry_grows e (f e)
    \<and> (has_secrets e \<longrightarrow> has_secrets (f e))"
  shows "registry_ok (update_device d f r) \<and> registry_grows r (update_device d f r)"
proof -
  let ?ds = "update_first (\<lambda>e. dv_id (de_summary e) = d) f (rg_devices r)"
  have ids: "map device_id ?ds = map device_id (rg_devices r)"
    using assms(2) by (intro map_update_first_id) (simp add: device_id_def entry_grows_def)
  have "entry_ok e" "rg_sealed_root r \<noteq> None \<longrightarrow> has_secrets e" if "e \<in> set ?ds" for e
    using set_update_firstD [OF that] assms by (auto simp: registry_ok_def list_all_iff device_id_def)
  moreover have "list_all2 entry_grows (rg_devices r) ?ds"
    using assms(2) by (intro grows_update_first) (simp add: device_id_def)
  then have "registry_grows r (update_device d f r)"
    unfolding registry_grows_def by (intro conjI exI [of _ ?ds] exI [of _ "[]"]) (simp_all add: update_device_def)
  ultimately show ?thesis
    using assms(1) ids by (auto simp: registry_ok_def update_device_def list_all_iff)
qed

lemma word_plus_one:
  assumes "v \<noteq> (- 1 :: 32 word)"
  shows "v + 1 \<noteq> 0" "v \<le> v + 1"
proof -
  show "v + 1 \<noteq> 0" using assms by (metis add_eq_0_iff2)
  then have "unat (v + 1) = Suc (unat v)" using unatSuc [of v] by (simp add: add.commute)
  then show "v \<le> v + 1" by (simp add: word_le_nat_alt)
qed

lemma rotated_entry_ok:
  assumes "entry_ok e" "dv_status (de_summary e) = DevActive" "dv_key_version (de_summary e) \<noteq> - 1" "de_sealed e \<noteq> None"
  shows "entry_ok (rotated_entry cy io secrets sealed e) \<and> entry_grows e (rotated_entry cy io secrets sealed e)
    \<and> has_secrets (rotated_entry cy io secrets sealed e)"
  using assms word_plus_one [OF assms(3)] length_retire_key
  by (simp add: rotated_entry_def entry_ok_def entry_grows_def device_id_def Let_def is_wiped_def has_secrets_def status_edge.intros)

text \<open>An operation that fails leaves store and registry as they were; one that succeeds saves the registry
  it returns, which is as good as before and has grown.\<close>

lemma put_resealed_ok:
  assumes "length bs = length es"
  shows "list_all2 (\<lambda>e e'. de_summary e' = de_summary e \<and> de_retired e' = de_retired e \<and> (de_sealed e' = None \<longleftrightarrow> de_sealed e = None))
    es (put_resealed es bs)"
  using assms by (induction es bs rule: list_induct2') (auto simp: put_resealed_def)

lemma length_reseal: "reseal cy io current new i es = Inr bs \<Longrightarrow> length bs = length es"
  by (induction es arbitrary: i bs) (auto simp: result_simps split: option.splits)

lemma find_deviceD: "find_device d r = Inr e \<Longrightarrow> e \<in> set (rg_devices r) \<and> device_id e = d"
  by (auto simp: find_device_def result_simps device_id_def dest: find_Some_set)

lemma unique_device: "registry_ok r \<Longrightarrow> e \<in> set (rg_devices r) \<Longrightarrow> f \<in> set (rg_devices r) \<Longrightarrow> device_id e = device_id f \<Longrightarrow> e = f"
  by (auto simp: registry_ok_def distinct_map dest: inj_onD)

lemma put_resealed_good:
  assumes "registry_ok r" "length bs = length (rg_devices r)" "sroot = None \<longleftrightarrow> rg_sealed_root r = None"
  defines "r' \<equiv> r\<lparr>rg_sealed_root := sroot, rg_devices := put_resealed (rg_devices r) bs\<rparr>"
  shows "registry_ok r' \<and> registry_grows r r'"
proof -
  note l = put_resealed_ok [OF assms(2)]
  have "map device_id (put_resealed (rg_devices r) bs) = map device_id (rg_devices r)"
    using l by (auto simp: list_all2_conv_all_nth device_id_def intro: nth_equalityI)
  moreover have "list_all2 entry_grows (rg_devices r) (put_resealed (rg_devices r) bs)"
    using l by (rule list_all2_mono) (auto simp: entry_grows_def device_id_def same_status status_edge.intros(1))
  then have "registry_grows r r'" unfolding registry_grows_def
    by (intro conjI exI [of _ "put_resealed (rg_devices r) bs"] exI [of _ "[]"]) (simp_all add: r'_def)
  moreover have "list_all entry_ok (put_resealed (rg_devices r) bs)"
    "rg_sealed_root r \<noteq> None \<longrightarrow> list_all has_secrets (put_resealed (rg_devices r) bs)"
    using assms(1) l by (auto simp: registry_ok_def list_all_length list_all2_conv_all_nth entry_ok_def has_secrets_def)
  ultimately show ?thesis
    using assms(1,3) list_all2_lengthD [OF l] by (simp add: registry_ok_def r'_def)
qed

lemma enroll_good:
  fixes b :: sealed_blob
  assumes "registry_ok r" "length (rg_devices r) < DEVICE_LIMIT" "dv_id v \<notin> device_id ` set (rg_devices r)"
    "dv_key_version v = 1" "dv_status v = DevActive"
  defines "r' \<equiv> r\<lparr>rg_devices := rg_devices r @ [\<lparr>de_summary = v, de_sealed = Some b, de_retired = []\<rparr>]\<rparr>"
  shows "registry_ok r' \<and> registry_grows r r'"
proof -
  have "registry_grows r r'" unfolding registry_grows_def
    by (intro conjI exI [of _ "rg_devices r"] exI [of _ "[\<lparr>de_summary = v, de_sealed = Some b, de_retired = []\<rparr>]"])
      (simp_all add: r'_def grows_devices(1))
  moreover have "registry_ok r'"
    using assms(1-5) by (auto simp: registry_ok_def r'_def device_id_def entry_ok_def has_secrets_def is_wiped_def)
  ultimately show ?thesis by blast
qed

text \<open>What an operation does: nothing but report, or replace the registry by one that is as good and has
  grown, and note it.\<close>

definition op_outcome :: "identity_store \<times> registry \<Rightarrow> (identity_store \<times> registry) \<times> (identity_error, 'a) result \<Rightarrow> bool" where
  "op_outcome s out = (case out of ((st', r'), Inl _) \<Rightarrow> (st', r') = s
     | ((st', r'), Inr _) \<Rightarrow> id_registry st' = Json r' \<and> id_sync st' = id_sync (fst s)
         \<and> registry_ok r' \<and> registry_grows (snd s) r')"

lemma op_outcome_commit:
  "registry_ok r' \<and> registry_grows r r' \<Longrightarrow> op_outcome (st, r) (commit io action n answer st r')"
  by (simp add: commit_ok op_outcome_def)

lemma op_outcome_Inl [simp]: "op_outcome s (s, Inl e)"
  by (cases s) (simp add: op_outcome_def)

lemma enroll_outcome:
  assumes "registry_ok r" "io_uuid io 0 \<notin> device_id ` set (rg_devices r)"
  shows "op_outcome (st, r) (enroll cy io key name n (st, r))"
proof -
  have "op_outcome (st, r) (commit io ''identity.enroll'' n v st
      (r\<lparr>rg_devices := rg_devices r @ [\<lparr>de_summary = v, de_sealed = Some b, de_retired = []\<rparr>]\<rparr>))"
    if "v = new_summary cy io 0 name secrets" "length (rg_devices r) < DEVICE_LIMIT" for v b secrets
    using assms that by (intro op_outcome_commit enroll_good) (simp_all add: new_summary_def)
  then show ?thesis
    by (auto simp: enroll_def Let_def result_simps ensure_def split: sum.splits prod.splits if_splits)
qed

lemma rotate_outcome:
  assumes "registry_ok r"
  shows "op_outcome (st, r) (rotate_device cy io key d n (st, r))"
proof -
  have "op_outcome (st, r) (commit io ''identity.rotate_device'' n (de_summary f) st (update_device d (\<lambda>_. f) r))"
    if e: "find_device d r = Inr e" "require_active e = Inr ()" "dv_key_version (de_summary e) \<noteq> - 1"
      and v: "verify_recovery_possession cy sk r = Inr ()" and f: "f = rotated_entry cy io secrets b e" for e f b secrets sk
  proof (intro op_outcome_commit update_device_ok [OF assms])
    note d = find_deviceD [OF e(1)]
    fix e' assume "e' \<in> set (rg_devices r)" "device_id e' = d"
    then have same: "e' = e" using unique_device [OF assms] d by auto
    have act: "dv_status (de_summary e) = DevActive"
      using e(2) by (simp add: require_active_def split: device_status.splits)
    have "rg_sealed_root r \<noteq> None" using v by (auto simp: verify_recovery_possession_def split: option.splits)
    then have "de_sealed e \<noteq> None" "entry_ok e"
      using assms d act by (auto simp: registry_ok_def list_all_iff has_secrets_def is_wiped_def)
    then show "entry_ok f \<and> entry_grows e' f \<and> (has_secrets e' \<longrightarrow> has_secrets f)"
      using rotated_entry_ok [OF _ act e(3)] same f by simp
  qed
  then show ?thesis
    by (auto simp: rotate_device_def Let_def result_simps split: sum.splits if_splits)
qed

lemma status_outcome:
  assumes "registry_ok r"
  shows "op_outcome (st, r) (revoke_device io d n (st, r))" "op_outcome (st, r) (wipe_device io d n (st, r))"
proof -
  have "op_outcome (st, r) (commit io ''identity.revoke_device'' n v st (update_device d (\<lambda>e. e\<lparr>de_summary := v\<rparr>) r))"
    if e: "find_device d r = Inr e" "require_active e = Inr ()" and v: "v = (de_summary e)\<lparr>dv_status := DevRevoked t\<rparr>" for e v t
  proof (intro op_outcome_commit update_device_ok [OF assms])
    fix e' assume "e' \<in> set (rg_devices r)" "device_id e' = d"
    then have "e' = e" "entry_ok e" using unique_device [OF assms] find_deviceD [OF e(1)] assms
      by (auto simp: registry_ok_def list_all_iff)
    moreover have "dv_status (de_summary e) = DevActive"
      using e(2) by (simp add: require_active_def split: device_status.splits)
    ultimately show "entry_ok (e'\<lparr>de_summary := v\<rparr>) \<and> entry_grows e' (e'\<lparr>de_summary := v\<rparr>)
        \<and> (has_secrets e' \<longrightarrow> has_secrets (e'\<lparr>de_summary := v\<rparr>))"
      by (simp add: v entry_ok_def entry_grows_def has_secrets_def is_wiped_def device_id_def status_edge.intros)
  qed
  then show "op_outcome (st, r) (revoke_device io d n (st, r))"
    by (auto simp: revoke_device_def Let_def result_simps split: sum.splits)
  have "op_outcome (st, r) (commit io ''identity.wipe_device'' n v st (update_device d (\<lambda>e. e\<lparr>de_summary := v, de_sealed := None\<rparr>) r))"
    if e: "find_device d r = Inr e" "\<not> is_wiped (dv_status (de_summary e))" and v: "v = (de_summary e)\<lparr>dv_status := DevWiped t\<rparr>" for e v t
  proof (intro op_outcome_commit update_device_ok [OF assms])
    fix e' assume "e' \<in> set (rg_devices r)" "device_id e' = d"
    then have "e' = e" "entry_ok e" using unique_device [OF assms] find_deviceD [OF e(1)] assms
      by (auto simp: registry_ok_def list_all_iff)
    moreover have "status_edge (dv_status (de_summary e)) (DevWiped t)"
      using e(2) by (cases "dv_status (de_summary e)") (simp_all add: is_wiped_def status_edge.intros)
    moreover have "(de_summary e)\<lparr>dv_status := dv_status (de_summary e)\<rparr> = de_summary e" by (rule same_status)
    ultimately show "entry_ok (e'\<lparr>de_summary := v, de_sealed := None\<rparr>) \<and> entry_grows e' (e'\<lparr>de_summary := v, de_sealed := None\<rparr>)
        \<and> (has_secrets e' \<longrightarrow> has_secrets (e'\<lparr>de_summary := v, de_sealed := None\<rparr>))"
      by (simp add: v entry_ok_def entry_grows_def has_secrets_def is_wiped_def device_id_def)
  qed
  then show "op_outcome (st, r) (wipe_device io d n (st, r))"
    by (auto simp: wipe_device_def Let_def result_simps split: sum.splits if_splits)
qed

lemma recover_outcome:
  assumes "registry_ok r"
  shows "op_outcome (st, r) (recover cy io key new n (st, r))"
proof -
  have "op_outcome (st, r) (commit io ''identity.recover'' n () st
      (r\<lparr>rg_sealed_root := sroot, rg_devices := put_resealed (rg_devices r) bs\<rparr>))"
    if "reseal cy io current new 1 (rg_devices r) = Inr bs"
      and "(case rg_sealed_root r of None \<Rightarrow> Inr None | Some blob \<Rightarrow> bindE (unseal cy current blob) (\<lambda>root.
          bindE (seal cy (io_bytes io 0 12) new root) (\<lambda>b. Inr (Some b)))) = Inr sroot" for sroot bs current new
    using that assms length_reseal [OF that(1)]
    by (intro op_outcome_commit put_resealed_good) (auto simp: result_simps split: option.splits)
  then show ?thesis
    by (auto simp: recover_def Let_def result_simps split: sum.splits if_splits)
qed

lemma rotate_root_outcome:
  assumes "registry_ok r"
  shows "op_outcome (st, r) (rotate_root cy io key n (st, r))"
proof -
  have "op_outcome (st, r) (commit io ''identity.rotate_root'' n () st
      (r\<lparr>rg_root_generation := g, rg_root_signing_public := p, rg_sealed_root := Some b\<rparr>))" if "rg_sealed_root r \<noteq> None" for g p b
  proof (intro op_outcome_commit conjI)
    show "registry_ok (r\<lparr>rg_root_generation := g, rg_root_signing_public := p, rg_sealed_root := Some b\<rparr>)"
      using assms that by (simp add: registry_ok_def)
    show "registry_grows r (r\<lparr>rg_root_generation := g, rg_root_signing_public := p, rg_sealed_root := Some b\<rparr>)"
      unfolding registry_grows_def by (intro conjI exI [of _ "rg_devices r"] exI [of _ "[]"]) (simp_all add: grows_devices(1))
  qed
  then show ?thesis
    by (auto simp: rotate_root_def Let_def result_simps split: sum.splits if_splits)
qed

lemma run_op_outcome:
  assumes "registry_ok r" "io_uuid io 0 \<notin> device_id ` set (rg_devices r)"
  shows "op_outcome (st, r) (run_op cy io key n op (st, r))"
proof -
  have m: "op_outcome s (map_prod (\<lambda>x. x) (map_sum (\<lambda>x. x) f) out) \<longleftrightarrow> op_outcome s out"
    for s and f :: "'x \<Rightarrow> 'y" and out :: "(identity_store \<times> registry) \<times> (identity_error, 'x) result"
    by (cases out; cases "snd out") (auto simp: op_outcome_def)
  show ?thesis
    using enroll_outcome [OF assms] rotate_outcome [OF assms(1)] status_outcome [OF assms(1)]
      recover_outcome [OF assms(1)] rotate_root_outcome [OF assms(1)]
    by (cases op) (simp_all add: m)
qed

section \<open>Reachable stores\<close>

definition identity_inv :: "identity_store \<Rightarrow> bool" where
  "identity_inv st \<longleftrightarrow> (case id_registry st of Missing \<Rightarrow> True | Malformed \<Rightarrow> False | Json r \<Rightarrow> registry_ok r)"

text \<open>What a store's registry becomes: it appears once and then grows.\<close>

definition identity_grows :: "identity_store \<Rightarrow> identity_store \<Rightarrow> bool" where
  "identity_grows st st' \<longleftrightarrow> (case id_registry st of Missing \<Rightarrow> True | Malformed \<Rightarrow> id_registry st' = Malformed
     | Json r \<Rightarrow> (\<exists>r'. id_registry st' = Json r' \<and> registry_grows r r'))"

text \<open>Steps: the two ways a registry comes into being, on a store without one, and the operations, each
  with a fresh identifier for the device it may enrol. An export comes from another store.\<close>

inductive identity_step :: "crypto \<Rightarrow> identity_store \<Rightarrow> identity_store \<Rightarrow> bool" for cy where
  "initialize cy io name n st = (st', res) \<Longrightarrow> identity_step cy st st'"
| "registry_ok other \<Longrightarrow> export_device other d = Inr x \<Longrightarrow> adopt cy io x key n st = (st', res) \<Longrightarrow> identity_step cy st st'"
| "id_registry st = Json r \<Longrightarrow> io_uuid io 0 \<notin> device_id ` set (rg_devices r) \<Longrightarrow>
     run_op cy io key n op (st, r) = ((st', r'), res) \<Longrightarrow> identity_step cy st st'"

definition identity_init :: "identity_store \<Rightarrow> bool" where
  "identity_init st \<longleftrightarrow> id_registry st = Missing"

lemma initialize_step:
  "initialize cy io name n st = (st', res) \<Longrightarrow> st' = st \<or> (\<exists>r. id_registry st = Missing \<and> id_registry st' = Json r \<and> registry_ok r)"
  by (auto simp: initialize_def Let_def result_simps ensure_def load_registry_def save_registry_def registry_ok_def
      entry_ok_def has_secrets_def is_wiped_def new_summary_def DEVICE_LIMIT_def
      split: sum.splits prod.splits if_splits cell.splits)

lemma adopted_registry_ok:
  assumes "registry_ok other" "export_device other d = Inr x"
    "rg_contract_version r = CONTRACT_VERSION" "rg_hierarchy_version r = KEY_HIERARCHY_VERSION" "rg_sealed_root r = None"
    "rg_devices r = update_first (\<lambda>e. dv_id (de_summary e) = dx_device_id x) (\<lambda>e. e\<lparr>de_sealed := Some b\<rparr>)
       (map (\<lambda>v. \<lparr>de_summary = v, de_sealed = None, de_retired = []\<rparr>) (dx_devices x))"
  shows "registry_ok r"
proof -
  obtain e where e: "find_device d other = Inr e" "de_sealed e \<noteq> None" "dx_device_id x = d" "dx_devices x = trust_view other"
    using assms(2) by (auto simp: export_device_def result_simps)
  note d = find_deviceD [OF e(1)]
  let ?raw = "map (\<lambda>v. \<lparr>de_summary = v, de_sealed = None, de_retired = []\<rparr>) (dx_devices x)"
  have ids: "map device_id (rg_devices r) = map device_id (rg_devices other)"
    unfolding assms(6) by (subst map_update_first_id) (auto simp: device_id_def e(4) trust_view_def)
  have "entry_ok f" if f: "f \<in> set (rg_devices r)" for f
  proof -
    obtain g where g: "g \<in> set (rg_devices other)" "de_summary f = de_summary g" "de_retired f = []"
      and s: "de_sealed f = None \<or> device_id g = d"
      using set_update_firstD [OF f [unfolded assms(6)]] by (auto simp: e(3,4) trust_view_def device_id_def)
    have "entry_ok g" using assms(1) g(1) by (simp add: registry_ok_def list_all_iff)
    moreover have "\<not> is_wiped (dv_status (de_summary g))" if "de_sealed f \<noteq> None"
      using s that unique_device [OF assms(1) g(1), of e] d e(2) \<open>entry_ok g\<close> by (auto simp: entry_ok_def)
    ultimately show ?thesis using g by (auto simp: entry_ok_def simp del: not_None_eq)
  qed
  moreover have "length (rg_devices r) = length (rg_devices other)" using arg_cong [OF ids, of length] by simp
  ultimately show ?thesis using assms(1,3-5) ids by (auto simp: registry_ok_def list_all_iff)
qed

lemma adopt_step:
  assumes "registry_ok other" "export_device other d = Inr x" "adopt cy io x key n st = (st', res)"
  shows "st' = st \<or> (\<exists>r. id_registry st = Missing \<and> id_registry st' = Json r \<and> registry_ok r)"
  using assms(3) adopted_registry_ok [OF assms(1,2)]
  by (auto simp: adopt_def Let_def result_simps ensure_def load_registry_def save_registry_def
      split: sum.splits prod.splits if_splits cell.splits)

lemma identity_step_inv_grows:
  assumes "identity_inv st" "identity_step cy st st'"
  shows "identity_inv st' \<and> identity_grows st st'"
proof -
  have same: "identity_inv st \<and> identity_grows st st"
    using assms(1) by (auto simp: identity_inv_def identity_grows_def split: cell.splits)
  have new: "identity_inv st' \<and> identity_grows st st'"
    if "st' = st \<or> (\<exists>r. id_registry st = Missing \<and> id_registry st' = Json r \<and> registry_ok r)"
    using that same by (auto simp: identity_inv_def identity_grows_def)
  from assms(2) show ?thesis
  proof cases
    case (1 io name n res)
    then show ?thesis using new initialize_step by blast
  next
    case (2 other d x io key n res)
    then show ?thesis using new adopt_step by blast
  next
    case (3 r io key n op r' res)
    then have "registry_ok r" using assms(1) by (simp add: identity_inv_def)
    from run_op_outcome [OF this 3(2), of st cy key n op] 3 show ?thesis
      using same by (cases res) (auto simp: op_outcome_def identity_inv_def identity_grows_def)
  qed
qed

lemma identity_grows_refl [simp]: "identity_grows st st"
  by (auto simp: identity_grows_def split: cell.splits)

lemma identity_grows_trans: "identity_grows st su \<Longrightarrow> identity_grows su sv \<Longrightarrow> identity_grows st sv"
  by (auto simp: identity_grows_def intro: registry_grows_trans split: cell.splits)

interpretation di: stepwise identity_init "identity_step cy" identity_inv identity_grows for cy
proof unfold_locales
  show "identity_inv st" if "identity_init st" for st
    using that by (simp add: identity_init_def identity_inv_def)
qed (use identity_step_inv_grows identity_grows_trans in auto)

text \<open>
  C20. The registry of devices. In every reachable store the registry carries the supported versions,
  has at most 16 devices with distinct identifiers, keeps at most eight retired keys of each, and
  a wiped device has no secrets; where the account root is held, every other device has them. Along
  any later steps an account keeps its identifier and its salt and each device its place, identifier
  and name: it never becomes active again, a wiped device stays wiped without secrets, and the
  version of its keys never decreases.
\<close>

theorem device_registry_invariant:
  assumes "reachable identity_init (identity_step cy) st" "id_registry st = Json r" "(identity_step cy)\<^sup>*\<^sup>* st st'"
  shows "registry_ok r \<and> (\<exists>r'. id_registry st' = Json r' \<and> registry_ok r' \<and> rg_account_id r' = rg_account_id r
    \<and> (\<forall>i < length (rg_devices r). entry_grows (rg_devices r ! i) (rg_devices r' ! i)
        \<and> (dv_status (de_summary (rg_devices r ! i)) \<noteq> DevActive \<longrightarrow> dv_status (de_summary (rg_devices r' ! i)) \<noteq> DevActive)
        \<and> (is_wiped (dv_status (de_summary (rg_devices r ! i))) \<longrightarrow> de_sealed (rg_devices r' ! i) = None)))"
proof -
  from di.always_inv [OF assms(1)] assms(2) have ok: "registry_ok r" by (simp add: identity_inv_def)
  from di.always_grow [OF assms(1,3)] assms(2) obtain r' where r': "id_registry st' = Json r'" "registry_grows r r'"
    by (auto simp: identity_grows_def)
  from di.always_inv [OF reachable_steps [OF assms(1,3)]] r'(1) have ok': "registry_ok r'" by (simp add: identity_inv_def)
  from r'(2) obtain es ds where d: "rg_devices r' = es @ ds" "list_all2 entry_grows (rg_devices r) es"
    and acc: "rg_account_id r' = rg_account_id r" by (auto simp: registry_grows_def)
  have edge: "status_edge s t \<Longrightarrow> s \<noteq> DevActive \<Longrightarrow> t \<noteq> DevActive" for s t by (auto elim: status_edgeE)
  have "entry_grows (rg_devices r ! i) (rg_devices r' ! i)" "entry_ok (rg_devices r ! i)" if "i < length (rg_devices r)" for i
    using d ok that by (simp_all add: list_all2_conv_all_nth nth_append registry_ok_def list_all_length)
  then have "entry_grows (rg_devices r ! i) (rg_devices r' ! i)
      \<and> (dv_status (de_summary (rg_devices r ! i)) \<noteq> DevActive \<longrightarrow> dv_status (de_summary (rg_devices r' ! i)) \<noteq> DevActive)
      \<and> (is_wiped (dv_status (de_summary (rg_devices r ! i))) \<longrightarrow> de_sealed (rg_devices r' ! i) = None)"
    if "i < length (rg_devices r)" for i
    using that edge unfolding entry_grows_def entry_ok_def by blast
  then show ?thesis using ok ok' r'(1) acc by blast
qed

section \<open>The vault of secrets\<close>

text \<open>
  What the sealed registry stands for: under a sealing key, a map from devices to their secrets. An
  operation changes this map as its name says, and the map survives a change of the recovery key.
\<close>

type_synonym vault = "string \<Rightarrow> device_secrets option"

definition entry_secret :: "crypto \<Rightarrow> string \<Rightarrow> device_entry \<Rightarrow> device_secrets option" where
  "entry_secret cy seal_key e = Option.bind (de_sealed e) (\<lambda>b. case unseal_device_secrets cy seal_key b of Inl _ \<Rightarrow> None | Inr s \<Rightarrow> Some s)"

definition vault_of :: "crypto \<Rightarrow> string \<Rightarrow> registry \<Rightarrow> vault" where
  "vault_of cy seal_key r d = Option.bind (find (\<lambda>e. dv_id (de_summary e) = d) (rg_devices r)) (entry_secret cy seal_key)"

fun vault_step :: "identity_io \<Rightarrow> identity_op \<Rightarrow> vault \<Rightarrow> vault" where
  "vault_step io (OpEnroll name) v = v(io_uuid io 0 \<mapsto> generate_device_secrets io 0)"
| "vault_step io (OpRotate d) v = v(d \<mapsto> generate_device_secrets io 0)"
| "vault_step io (OpWipe d) v = v(d := None)"
| "vault_step io (OpRevoke d) v = v"
| "vault_step io (OpRecover new) v = v"
| "vault_step io OpRotateRoot v = v"

text \<open>The recovery key the account has after an operation.\<close>

fun key_after :: "identity_op \<Rightarrow> string \<Rightarrow> string" where
  "key_after (OpRecover new) key = new"
| "key_after op key = key"

lemma vault_update_device:
  assumes "find_device d r = Inr e" "\<And>e. device_id e = d \<Longrightarrow> device_id (f e) = d"
  shows "vault_of cy sk (update_device d f r) = (vault_of cy sk r)(d := entry_secret cy sk (f e))"
proof
  fix d'
  have "find (\<lambda>e. dv_id (de_summary e) = d) (rg_devices r) = Some e"
    using assms(1) by (simp add: find_device_def result_simps)
  then show "vault_of cy sk (update_device d f r) d' = ((vault_of cy sk r)(d := entry_secret cy sk (f e))) d'"
    using assms(2) find_update_first_same [of "\<lambda>e. dv_id (de_summary e) = d" "rg_devices r" e f]
      find_update_first_other [of "\<lambda>e. dv_id (de_summary e) = d" "\<lambda>e. dv_id (de_summary e) = d'" f "rg_devices r"]
    by (cases "d' = d") (auto simp: vault_of_def update_device_def device_id_def)
qed

lemma vault_same: "find_device d r = Inr e \<Longrightarrow> entry_secret cy sk e = x \<Longrightarrow> (vault_of cy sk r)(d := x) = vault_of cy sk r"
  by (auto simp: vault_of_def find_device_def result_simps)

lemma vault_enroll:
  assumes "dv_id v \<notin> device_id ` set (rg_devices r)" "unseal_device_secrets cy sk b = Inr s"
  shows "vault_of cy sk (r\<lparr>rg_devices := rg_devices r @ [\<lparr>de_summary = v, de_sealed = Some b, de_retired = []\<rparr>]\<rparr>)
    = (vault_of cy sk r)(dv_id v \<mapsto> s)"
proof
  fix d
  have app: "find p (xs @ ys) = (case find p xs of None \<Rightarrow> find p ys | Some x \<Rightarrow> Some x)" for p and xs ys :: "device_entry list"
    by (induction xs) auto
  have none: "find (\<lambda>e. dv_id (de_summary e) = dv_id v) (rg_devices r) = None"
    using assms(1) unfolding find_None_iff device_id_def by (metis imageI)
  show "vault_of cy sk (r\<lparr>rg_devices := rg_devices r @ [\<lparr>de_summary = v, de_sealed = Some b, de_retired = []\<rparr>]\<rparr>) d
      = ((vault_of cy sk r)(dv_id v \<mapsto> s)) d"
    using none assms(2) by (auto simp: vault_of_def app entry_secret_def split: option.splits)
qed

lemma reseal_secrets:
  assumes "lawful cy" "io_ok io" "length new = 32"
  shows "reseal cy io current new i es = Inr bs \<Longrightarrow>
    list_all2 (\<lambda>e e'. de_summary e' = de_summary e \<and> entry_secret cy new e' = entry_secret cy current e) es (put_resealed es bs)"
proof (induction es arbitrary: i bs)
  case (Cons e es)
  show ?case
  proof (cases "de_sealed e")
    case None
    with Cons show ?thesis by (auto simp: result_simps put_resealed_def entry_secret_def)
  next
    case (Some blob)
    with Cons.prems obtain m b bs' where
      m: "unseal cy current blob = Inr m" "seal cy (io_bytes io i 12) new m = Inr b"
        "reseal cy io current new (i + 1) es = Inr bs'" "bs = b # bs'" by (auto simp: result_simps)
    have "unseal cy new b = Inr m"
      using seal_unseal [OF assms(1,3), of "io_bytes io i 12" m] assms(2) m(2) by (simp add: io_ok_def)
    then show ?thesis
      using Some m Cons.IH [OF m(3)] by (simp add: put_resealed_def entry_secret_def unseal_device_secrets_def)
  qed
qed (simp add: put_resealed_def)

lemma vault_cong:
  assumes "list_all2 (\<lambda>e e'. de_summary e' = de_summary e \<and> entry_secret cy new e' = entry_secret cy current e) (rg_devices r) es"
    "rg_devices r' = es"
  shows "vault_of cy new r' = vault_of cy current r"
proof
  fix d
  show "vault_of cy new r' d = vault_of cy current r d"
    using assms(1) unfolding vault_of_def assms(2) by (induction rule: list_all2_induct) auto
qed

text \<open>Every sealed credential opens, to the secrets whose public halves the device publishes.\<close>

definition publics_of :: "crypto \<Rightarrow> device_secrets \<Rightarrow> device_summary \<Rightarrow> bool" where
  "publics_of cy s v \<longleftrightarrow> dv_fingerprint v = fingerprint cy (cy_sign_public cy (ds_signing s))
     \<and> dv_signing_public v = cy_encode cy (cy_sign_public cy (ds_signing s))
     \<and> dv_agreement_public v = cy_encode cy (cy_agree_public cy (ds_agreement s))"

definition entry_open :: "crypto \<Rightarrow> string \<Rightarrow> device_entry \<Rightarrow> bool" where
  "entry_open cy sk e \<longleftrightarrow> de_sealed e = None \<or> (\<exists>s. entry_secret cy sk e = Some s \<and> publics_of cy s (de_summary e))"

definition vault_open :: "crypto \<Rightarrow> string \<Rightarrow> registry \<Rightarrow> bool" where
  "vault_open cy sk r \<longleftrightarrow> list_all (entry_open cy sk) (rg_devices r)"

lemma seal_opens:
  assumes "lawful cy" "io_ok io" "length sk = 32" "secrets_ok s" "seal_device_secrets cy (io_bytes io i 12) sk s = Inr b"
  shows "unseal_device_secrets cy sk b = Inr s"
  using seal_unseal_device [OF assms(1,3) _ assms(4), of "io_bytes io i 12"] assms(2,5) by (auto simp: io_ok_def)

lemma vault_open_update:
  assumes "vault_open cy sk r" "\<And>e. entry_open cy sk (f e) \<or> (entry_open cy sk e \<longrightarrow> entry_open cy sk (f e))"
  shows "vault_open cy sk (update_device d f r)"
  using assms unfolding vault_open_def update_device_def list_all_iff by (auto dest!: set_update_firstD)

lemma commit_Inr: "commit io action n answer st r = ((st', r'), Inr out) \<Longrightarrow> r' = r \<and> id_registry st' = Json r \<and> out = answer"
  by (auto simp: commit_def save_registry_def split: sum.splits if_splits)

lemma enroll_vault:
  assumes "lawful cy" "io_ok io" "io_uuid io 0 \<notin> device_id ` set (rg_devices r)" "registry_seal_key cy K r = Inr sk"
    and "enroll cy io K name n (st, r) = ((st', r'), Inr v)"
  shows "vault_of cy sk r' = vault_step io (OpEnroll name) (vault_of cy sk r) \<and> (vault_open cy sk r \<longrightarrow> vault_open cy sk r')"
proof -
  let ?s = "generate_device_secrets io 0"
  obtain b where b: "seal_device_secrets cy (io_bytes io 2 12) sk ?s = Inr b" and v: "v = new_summary cy io 0 name ?s"
    and r': "r' = r\<lparr>rg_devices := rg_devices r @ [\<lparr>de_summary = v, de_sealed = Some b, de_retired = []\<rparr>]\<rparr>"
    using assms(4,5) by (auto simp: enroll_def Let_def result_simps split: sum.splits if_splits dest!: commit_Inr)
  have len: "length sk = 32" using assms(1,4) by (auto simp: registry_seal_key_def result_simps dest: length_storage_seal_key)
  have u: "unseal_device_secrets cy sk b = Inr ?s"
    using seal_opens [OF assms(1,2) len generated_ok [OF assms(2)] b] .
  have id: "dv_id v = io_uuid io 0" by (simp add: v new_summary_def)
  then have "vault_of cy sk r' = vault_step io (OpEnroll name) (vault_of cy sk r)"
    using vault_enroll [OF _ u, of v r] assms(3) by (simp add: r')
  moreover have "publics_of cy ?s v" by (simp add: publics_of_def v new_summary_def)
  ultimately show ?thesis using u by (auto simp: vault_open_def r' entry_open_def entry_secret_def)
qed

lemma rotate_vault:
  assumes "lawful cy" "io_ok io" "registry_seal_key cy K r = Inr sk" "rotate_device cy io K d n (st, r) = ((st', r'), Inr v)"
  shows "vault_of cy sk r' = vault_step io (OpRotate d) (vault_of cy sk r) \<and> (vault_open cy sk r \<longrightarrow> vault_open cy sk r')"
proof -
  let ?s = "generate_device_secrets io 0"
  obtain e b where e: "find_device d r = Inr e" and b: "seal_device_secrets cy (io_bytes io 2 12) sk ?s = Inr b"
    and r': "r' = update_device d (\<lambda>_. rotated_entry cy io ?s b e) r"
    using assms(3,4) by (auto simp: rotate_device_def Let_def result_simps split: sum.splits if_splits dest!: commit_Inr)
  have len: "length sk = 32" using assms(1,3) by (auto simp: registry_seal_key_def result_simps dest: length_storage_seal_key)
  have u: "entry_secret cy sk (rotated_entry cy io ?s b e) = Some ?s"
    using seal_opens [OF assms(1,2) len generated_ok [OF assms(2)] b] by (simp add: entry_secret_def rotated_entry_def Let_def)
  have "device_id (rotated_entry cy io ?s b e) = d"
    using find_deviceD [OF e] by (simp add: device_id_def rotated_entry_def Let_def)
  then have "vault_of cy sk r' = vault_step io (OpRotate d) (vault_of cy sk r)"
    using vault_update_device [OF e, of "\<lambda>_. rotated_entry cy io ?s b e" cy sk] u by (simp add: r')
  moreover have "entry_open cy sk (rotated_entry cy io ?s b e)"
    using u by (simp add: entry_open_def publics_of_def) (simp add: rotated_entry_def Let_def)
  ultimately show ?thesis
    using vault_open_update [of cy sk r "\<lambda>_. rotated_entry cy io ?s b e" d] by (simp add: r')
qed

lemma status_vault:
  assumes "revoke_device io d n (st, r) = ((st', r'), Inr v)"
  shows "vault_of cy sk r' = vault_of cy sk r \<and> (vault_open cy sk r \<longrightarrow> vault_open cy sk r')"
proof -
  obtain e where e: "find_device d r = Inr e"
    and r': "r' = update_device d (\<lambda>f. f\<lparr>de_summary := (de_summary e)\<lparr>dv_status := DevRevoked (io_now io)\<rparr>\<rparr>) r"
    using assms by (auto simp: revoke_device_def Let_def result_simps split: sum.splits dest!: commit_Inr)
  let ?f = "\<lambda>f. f\<lparr>de_summary := (de_summary e)\<lparr>dv_status := DevRevoked (io_now io)\<rparr>\<rparr>"
  have "vault_of cy sk r' = (vault_of cy sk r)(d := entry_secret cy sk (?f e))"
    unfolding r' using find_deviceD [OF e] by (intro vault_update_device [OF e]) (simp add: device_id_def)
  also have "\<dots> = vault_of cy sk r" by (rule vault_same [OF e]) (simp add: entry_secret_def)
  finally have v: "vault_of cy sk r' = vault_of cy sk r" .
  have upd: "find p xs = Some e \<Longrightarrow> update_first p ?f xs = update_first p (\<lambda>_. ?f e) xs" for p and xs :: "device_entry list"
    by (induction xs) (auto split: if_splits)
  have "entry_open cy sk (?f e)" if "entry_open cy sk e"
    using that by (simp add: entry_open_def entry_secret_def publics_of_def)
  then have "vault_open cy sk r \<longrightarrow> vault_open cy sk (update_device d (\<lambda>_. ?f e) r)"
    using find_deviceD [OF e] vault_open_update [of cy sk r "\<lambda>_. ?f e" d] by (auto simp: vault_open_def list_all_iff)
  moreover have "update_device d (\<lambda>_. ?f e) r = r'"
    using e upd by (simp add: r' update_device_def find_device_def result_simps)
  ultimately show ?thesis using v by simp
qed

lemma wipe_vault:
  assumes "wipe_device io d n (st, r) = ((st', r'), Inr v)"
  shows "vault_of cy sk r' = (vault_of cy sk r)(d := None) \<and> (vault_open cy sk r \<longrightarrow> vault_open cy sk r')"
proof -
  obtain e where e: "find_device d r = Inr e"
    and r': "r' = update_device d (\<lambda>f. f\<lparr>de_summary := (de_summary e)\<lparr>dv_status := DevWiped (io_now io)\<rparr>, de_sealed := None\<rparr>) r"
    using assms by (auto simp: wipe_device_def Let_def result_simps split: sum.splits if_splits dest!: commit_Inr)
  let ?f = "\<lambda>f. f\<lparr>de_summary := (de_summary e)\<lparr>dv_status := DevWiped (io_now io)\<rparr>, de_sealed := None\<rparr>"
  have "vault_of cy sk r' = (vault_of cy sk r)(d := entry_secret cy sk (?f e))"
    unfolding r' using find_deviceD [OF e] by (intro vault_update_device [OF e]) (simp add: device_id_def)
  moreover have "entry_secret cy sk (?f e) = None" by (simp add: entry_secret_def)
  moreover have "entry_open cy sk (?f f)" for f by (simp add: entry_open_def)
  ultimately show ?thesis using vault_open_update [of cy sk r ?f d] by (simp add: r')
qed

lemma recover_vault:
  assumes "lawful cy" "io_ok io" "registry_seal_key cy K r = Inr sk" "recover cy io K new n (st, r) = ((st', r'), Inr u)"
  shows "\<exists>sk'. registry_seal_key cy new r' = Inr sk' \<and> vault_of cy sk' r' = vault_of cy sk r
    \<and> (vault_open cy sk r \<longrightarrow> vault_open cy sk' r')"
proof -
  obtain salt sk' sroot bs where salt: "cy_decode cy (rg_salt r) = Some salt" and sk': "storage_seal_key cy new salt = Inr sk'"
    and bs: "reseal cy io sk sk' 1 (rg_devices r) = Inr bs"
    and r': "r' = r\<lparr>rg_sealed_root := sroot, rg_devices := put_resealed (rg_devices r) bs\<rparr>"
    using assms(3,4) by (auto simp: recover_def registry_seal_key_def Let_def result_simps split: sum.splits if_splits dest!: commit_Inr)
  note l = reseal_secrets [OF assms(1,2) length_storage_seal_key [OF assms(1) sk'] bs]
  have "vault_of cy sk' r' = vault_of cy sk r" by (rule vault_cong [OF l]) (simp add: r')
  moreover have "vault_open cy sk' r'" if "vault_open cy sk r"
  proof -
    have "entry_open cy sk' (put_resealed (rg_devices r) bs ! i)" if i: "i < length (rg_devices r)" for i
    proof -
      have "entry_open cy sk (rg_devices r ! i)" using \<open>vault_open cy sk r\<close> i by (simp add: vault_open_def list_all_length)
      moreover have "de_summary (put_resealed (rg_devices r) bs ! i) = de_summary (rg_devices r ! i)"
        "entry_secret cy sk' (put_resealed (rg_devices r) bs ! i) = entry_secret cy sk (rg_devices r ! i)"
        using l i by (auto simp: list_all2_conv_all_nth)
      moreover have "de_sealed (put_resealed (rg_devices r) bs ! i) = None \<longleftrightarrow> de_sealed (rg_devices r ! i) = None"
        using put_resealed_ok [OF length_reseal [OF bs]] i by (auto simp: list_all2_conv_all_nth)
      ultimately show ?thesis unfolding entry_open_def by metis
    qed
    then show ?thesis using list_all2_lengthD [OF l] by (simp add: vault_open_def r' list_all_length)
  qed
  moreover have "registry_seal_key cy new r' = Inr sk'"
    using salt sk' by (simp add: registry_seal_key_def r' ok_or_def)
  ultimately show ?thesis by blast
qed

lemma rotate_root_vault:
  assumes "rotate_root cy io K n (st, r) = ((st', r'), Inr u)"
  shows "vault_of cy sk r' = vault_of cy sk r \<and> (vault_open cy sk r \<longrightarrow> vault_open cy sk r')"
proof -
  obtain g p b where "r' = r\<lparr>rg_root_generation := g, rg_root_signing_public := p, rg_sealed_root := Some b\<rparr>"
    using assms by (auto simp: rotate_root_def Let_def result_simps split: sum.splits if_splits dest!: commit_Inr)
  then show ?thesis by (simp add: vault_of_def fun_eq_iff vault_open_def)
qed

text \<open>A fresh account: one active device, whose secrets open under the key that is shown once.\<close>

lemma initialize_fresh:
  assumes "lawful cy" "io_ok io" "id_registry st = Missing" "trim name \<noteq> []"
  shows "\<exists>st' i sk. initialize cy io name n st = (st', Inr i) \<and> id_registry st' = Json (in_registry i) \<and> registry_ok (in_registry i)
    \<and> sy_self (id_sync st') = Some (io_uuid io 0) \<and> map device_id (rg_devices (in_registry i)) = [io_uuid io 0]
    \<and> dv_status (de_summary (hd (rg_devices (in_registry i)))) = DevActive
    \<and> registry_seal_key cy (in_recovery_key i) (in_registry i) = Inr sk
    \<and> verify_recovery_possession cy sk (in_registry i) = Inr () \<and> vault_open cy sk (in_registry i)
    \<and> vault_of cy sk (in_registry i) = [io_uuid io 0 \<mapsto> generate_device_secrets io 4]"
proof -
  let ?salt = "io_bytes io 2 RECOVERY_SALT_BYTES" and ?key = "cy_encode cy (io_bytes io 0 ROOT_SECRET_BYTES)"
  let ?s = "generate_device_secrets io 4" and ?root = "io_bytes io 1 ROOT_SECRET_BYTES"
  have len: "length (io_bytes io i m) = m" for i m using assms(2) by (simp add: io_ok_def)
  obtain sk where sk: "storage_seal_key cy ?key ?salt = Inr sk"
    using assms(1) len by (simp add: storage_seal_key_def lawfulD ok_or_def ensure_def)
  note l32 = length_storage_seal_key [OF assms(1) sk]
  obtain rb where rb: "seal cy (io_bytes io 3 12) sk ?root = Inr rb" "unseal cy sk rb = Inr ?root"
    using seal_unseal [OF assms(1) l32 len] by blast
  obtain b where b: "seal_device_secrets cy (io_bytes io 6 12) sk ?s = Inr b" "unseal_device_secrets cy sk b = Inr ?s"
    using seal_unseal_device [OF assms(1) l32 len generated_ok [OF assms(2)]] by blast
  have key: "cy_decode cy (cy_encode cy ?salt) = Some ?salt" using assms(1) by (simp add: lawfulD)
  show ?thesis
    using assms(3,4) sk rb b key
    by (auto simp: initialize_def Let_def result_simps ensure_def load_registry_def save_registry_def registry_ok_def
        registry_seal_key_def verify_recovery_possession_def vault_open_def entry_open_def entry_secret_def vault_of_def
        device_id_def new_summary_def publics_of_def entry_ok_def has_secrets_def is_wiped_def DEVICE_LIMIT_def ok_or_def fun_eq_iff)
qed

text \<open>
  C21. The registry implements a vault. Under the right recovery key an operation that succeeds changes
  the map from devices to secrets as its name says: enrolling and rotating put freshly drawn
  secrets, wiping removes them, and revoking, rotating the root and changing the recovery key
  leave every secret as it is, the last one under the new key. If every credential opened to the
  secrets whose public halves its device publishes, it still does. An operation that fails changes
  neither the store nor the registry.
\<close>

theorem device_vault_refinement:
  assumes "lawful cy" "io_ok io" "registry_ok r" "io_uuid io 0 \<notin> device_id ` set (rg_devices r)"
    and "registry_seal_key cy K r = Inr sk" "run_op cy io K n op (st, r) = ((st', r'), out)"
  shows "case out of Inl _ \<Rightarrow> st' = st \<and> r' = r
    | Inr _ \<Rightarrow> id_registry st' = Json r' \<and> (\<exists>sk'. registry_seal_key cy (key_after op K) r' = Inr sk'
        \<and> vault_of cy sk' r' = vault_step io op (vault_of cy sk r) \<and> (vault_open cy sk r \<longrightarrow> vault_open cy sk' r'))"
proof -
  have good: "op_outcome (st, r) ((st', r'), out)"
    using run_op_outcome [OF assms(3,4), of st cy K n op] assms(6) by simp
  have "\<exists>sk'. registry_seal_key cy (key_after op K) r' = Inr sk' \<and> vault_of cy sk' r' = vault_step io op (vault_of cy sk r)
      \<and> (vault_open cy sk r \<longrightarrow> vault_open cy sk' r')" if "out = Inr v" for v
  proof -
    have "rg_salt r' = rg_salt r" using good that by (auto simp: op_outcome_def registry_grows_def)
    then have key: "registry_seal_key cy K r' = Inr sk" using assms(5) by (simp add: registry_seal_key_def)
    show ?thesis
    proof (cases op)
      case (OpRecover new)
      then show ?thesis using recover_vault [OF assms(1,2,5)] assms(6) that
        by (cases "recover cy io K new n (st, r)"; cases "snd (recover cy io K new n (st, r))") auto
    next
      case (OpEnroll name)
      then show ?thesis using enroll_vault [OF assms(1,2,4,5)] assms(6) that key
        by (cases "enroll cy io K name n (st, r)"; cases "snd (enroll cy io K name n (st, r))") auto
    next
      case (OpRotate d)
      then show ?thesis using rotate_vault [OF assms(1,2,5)] assms(6) that key
        by (cases "rotate_device cy io K d n (st, r)"; cases "snd (rotate_device cy io K d n (st, r))") auto
    next
      case (OpRevoke d)
      then show ?thesis using status_vault assms(6) that key
        by (cases "revoke_device io d n (st, r)"; cases "snd (revoke_device io d n (st, r))") auto
    next
      case (OpWipe d)
      then show ?thesis using wipe_vault assms(6) that key
        by (cases "wipe_device io d n (st, r)"; cases "snd (wipe_device io d n (st, r))") auto
    next
      case OpRotateRoot
      then show ?thesis using rotate_root_vault assms(6) that key
        by (cases "rotate_root cy io K n (st, r)"; cases "snd (rotate_root cy io K n (st, r))") auto
    qed
  qed
  with good show ?thesis by (auto simp: op_outcome_def split: sum.splits)
qed

definition ex_sync_store :: sync_store where
  "ex_sync_store = \<lparr>sy_self = None, sy_objects = \<lambda>_ _. None, sy_chunked = {}, sy_memory_fts = Map.empty, sy_journal = [],
     sy_next_journal = 1, sy_watermarks = [], sy_conflicts = [], sy_next_conflict = 1\<rparr>"

definition ex_identity_store :: identity_store where
  "ex_identity_store = \<lparr>id_registry = Missing, id_audit = [], id_sync = ex_sync_store\<rparr>"

text \<open>A second draw of randomness, with other identifiers.\<close>

definition ex_io2 :: identity_io where
  "ex_io2 = ex_io\<lparr>io_uuid := \<lambda>i. [char_of (98 + i)]\<rparr>"

lemma ex_io2_ok: "io_ok ex_io2"
  using ex_io_ok by (simp add: io_ok_def ex_io2_def)

lemma ex_account:
  obtains st i sk where "initialize ex_crypto ex_io ''laptop'' 10 ex_identity_store = (st, Inr i)" "id_registry st = Json (in_registry i)"
    "registry_ok (in_registry i)" "sy_self (id_sync st) = Some ''a''" "map device_id (rg_devices (in_registry i)) = [''a'']"
    "dv_status (de_summary (hd (rg_devices (in_registry i)))) = DevActive"
    "registry_seal_key ex_crypto (in_recovery_key i) (in_registry i) = Inr sk"
    "verify_recovery_possession ex_crypto sk (in_registry i) = Inr ()" "vault_open ex_crypto sk (in_registry i)"
    "vault_of ex_crypto sk (in_registry i) = [''a'' \<mapsto> generate_device_secrets ex_io 4]"
proof -
  have "trim ''laptop'' = ''laptop''" by (rule trim_plain) (simp add: byte_def)
  then have "trim ''laptop'' \<noteq> []" by simp
  from initialize_fresh [OF ex_crypto_lawful ex_io_ok _ this, of ex_identity_store 10] that show thesis
    by (force simp: ex_identity_store_def ex_io_def char_eval)
qed

theorem device_vault_refinement_witness:
  "\<exists>st i st' r' out sk. initialize ex_crypto ex_io ''laptop'' 10 ex_identity_store = (st, Inr i)
     \<and> run_op ex_crypto ex_io2 (in_recovery_key i) 10 (OpWipe ''a'') (st, in_registry i) = ((st', r'), Inr out)
     \<and> vault_of ex_crypto sk r' = Map.empty"
proof -
  obtain st i sk where a: "initialize ex_crypto ex_io ''laptop'' 10 ex_identity_store = (st, Inr i)" "registry_ok (in_registry i)"
    "map device_id (rg_devices (in_registry i)) = [''a'']" "dv_status (de_summary (hd (rg_devices (in_registry i)))) = DevActive"
    "registry_seal_key ex_crypto (in_recovery_key i) (in_registry i) = Inr sk"
    "vault_of ex_crypto sk (in_registry i) = [''a'' \<mapsto> generate_device_secrets ex_io 4]" by (rule ex_account)
  have fresh: "io_uuid ex_io2 0 \<notin> device_id ` set (rg_devices (in_registry i))"
    using a(3) by (auto simp: ex_io2_def char_eval)
  obtain st' r' out where w: "run_op ex_crypto ex_io2 (in_recovery_key i) 10 (OpWipe ''a'') (st, in_registry i) = ((st', r'), out)"
    by (metis prod.collapse)
  have "\<exists>v. out = Inr v"
  proof (cases "rg_devices (in_registry i)")
    case (Cons e es)
    then have "find_device ''a'' (in_registry i) = Inr e" "\<not> is_wiped (dv_status (de_summary e))"
      using a(3,4) by (auto simp: find_device_def device_id_def ok_or_def is_wiped_def)
    moreover have "rg_contract_version (in_registry i) = CONTRACT_VERSION" "rg_hierarchy_version (in_registry i) = KEY_HIERARCHY_VERSION"
      using a(2) by (simp_all add: registry_ok_def)
    ultimately show ?thesis using w
      by (auto simp: wipe_device_def Let_def ensure_def commit_def save_registry_def update_device_def)
  qed (use a(3) in simp)
  then obtain v where v: "out = Inr v" ..
  from device_vault_refinement [OF ex_crypto_lawful ex_io2_ok a(2) fresh a(5) w] v a(6) have
    "\<exists>sk'. vault_of ex_crypto sk' r' = Map.empty" by auto
  with a(1) w v show ?thesis by blast
qed

theorem device_registry_invariant_witness:
  "\<exists>(st :: identity_store) (r :: registry). id_registry st = Json r \<and> length (rg_devices r) = 1 \<and> registry_ok r"
proof -
  obtain st i where a: "initialize ex_crypto ex_io ''laptop'' 10 ex_identity_store = (st, Inr i)" "id_registry st = Json (in_registry i)"
    "map device_id (rg_devices (in_registry i)) = [''a'']" by (rule ex_account)
  have "reachable identity_init (identity_step ex_crypto) ex_identity_store"
    by (rule reachable_start) (simp add: identity_init_def ex_identity_store_def)
  then have "reachable identity_init (identity_step ex_crypto) st"
    by (rule reachable_step) (rule identity_step.intros(1) [OF a(1)])
  from device_registry_invariant [OF this a(2), of st] have "registry_ok (in_registry i)" by simp
  moreover have "length (rg_devices (in_registry i)) = 1" using arg_cong [OF a(3), of length] by simp
  ultimately show ?thesis using a(2) by (intro exI [of _ st] exI [of _ "in_registry i"]) simp
qed

end
