(* ===== verification/SyncBundle.thy ===== *)
theory SyncBundle
  imports DeviceIdentity
begin

text \<open>
  The sealed bundles two devices of an account exchange (\<open>seal_sync_bundle\<close> and \<open>open_sync_bundle\<close> in
  \<open>crates/core/src/device_identity.rs\<close>) and the synchronisation commands that put them together with the
  journal (\<open>manage_sync\<close> in \<open>src/main.rs\<close>).
\<close>

section \<open>Bundles\<close>

definition BUNDLE_FORMAT :: string where "BUNDLE_FORMAT = ''cortana.sync.bundle.v1''"

definition unseal_self_secrets :: "crypto \<Rightarrow> string \<Rightarrow> registry \<Rightarrow> string \<Rightarrow> (identity_error, device_secrets) result" where
  "unseal_self_secrets cy seal_key r self =
     bindE (ok_or (find (\<lambda>e. dv_id (de_summary e) = self) (rg_devices r)) (LocalDeviceMissing self)) (\<lambda>e.
     bindE (ok_or (de_sealed e) CredentialMissing) (\<lambda>blob.
     unseal_device_secrets cy seal_key blob))"

text \<open>The key two devices agree on for one nonce.\<close>

definition agreed_key :: "crypto \<Rightarrow> string \<Rightarrow> string \<Rightarrow> string \<Rightarrow> string \<Rightarrow> string" where
  "agreed_key cy secret peer_public nonce info = cy_hkdf cy nonce (cy_agree cy secret peer_public) info"

text \<open>A key of another device, which the code copies into an array of 32 bytes.\<close>

definition peer_key :: "crypto \<Rightarrow> string \<Rightarrow> string \<Rightarrow> (identity_error, string) result" where
  "peer_key cy what encoded =
     bindE (ok_or (cy_decode cy encoded) (NotBase64 what)) (\<lambda>key.
     bindE (ensure (length key = 32) Panicked) (\<lambda>_. Inr key))"

definition bundle_header :: "crypto \<Rightarrow> registry \<Rightarrow> string \<Rightarrow> string \<Rightarrow> string \<Rightarrow> string \<Rightarrow> int \<Rightarrow> json" where
  "bundle_header cy r self target signing_public payload ack = JObject
     [(''account_id'', JString (rg_account_id r)),
      (''ack_for_peer'', JNumber (of_int ack)),
      (''format'', JString BUNDLE_FORMAT),
      (''payload_sha256'', JString (fingerprint cy payload)),
      (''sender_device'', JString self),
      (''sender_signing_public'', JString (cy_encode cy signing_public)),
      (''target_device'', JString target)]"

definition signed_digest :: "crypto \<Rightarrow> string \<Rightarrow> string \<Rightarrow> string \<Rightarrow> string" where
  "signed_digest cy header_bytes nonce ciphertext = cy_sha256 cy (header_bytes @ nonce @ ciphertext)"

definition seal_sync_bundle :: "crypto \<Rightarrow> identity_io \<Rightarrow> string \<Rightarrow> string \<Rightarrow> string \<Rightarrow> registry \<Rightarrow> identity_store
    \<Rightarrow> (identity_error, string) result" where
  "seal_sync_bundle cy io recovery_key target payload r store =
     bindE (ok_or (sy_self (id_sync store)) NoSelfDevice) (\<lambda>self.
     bindE (ensure (self \<noteq> target) TargetIsSelf) (\<lambda>_.
     bindE (find_device target r) (\<lambda>t.
     bindE (ensure (dv_status (de_summary t) = DevActive) (TargetNotActive target)) (\<lambda>_.
     bindE (peer_key cy ''target agreement key'' (dv_agreement_public (de_summary t))) (\<lambda>target_key.
     bindE (registry_seal_key cy recovery_key r) (\<lambda>seal_key.
     bindE (unseal_self_secrets cy seal_key r self) (\<lambda>secrets.
     let nonce = io_bytes io 0 12;
         bundle_key = agreed_key cy (ds_agreement secrets) target_key nonce ''cortana.sync.bundle.v1/key'';
         header = bundle_header cy r self target (cy_sign_public cy (ds_signing secrets)) payload
           (imported_watermark target (id_sync store));
         header_bytes = cy_json cy header in
     bindE (ok_or (cy_encrypt cy bundle_key nonce header_bytes payload) SealingFailed) (\<lambda>ciphertext.
     let sig = cy_sign cy (ds_signing secrets) (signed_digest cy header_bytes nonce ciphertext) in
     Inr (cy_json cy (JObject
       [(''ciphertext'', JString (cy_encode cy ciphertext)), (''header'', header),
        (''nonce'', JString (cy_encode cy nonce)), (''signature'', JString (cy_encode cy sig))]))))))))))"

text \<open>A base64 field of a bundle; a missing one is read as the empty text.\<close>

definition decode_field :: "crypto \<Rightarrow> string \<Rightarrow> json \<Rightarrow> (identity_error, string) result" where
  "decode_field cy key v =
     ok_or (cy_decode cy (case get_str key v of None \<Rightarrow> [] | Some t \<Rightarrow> t)) (NotBase64 key)"

definition verify_signed :: "crypto \<Rightarrow> string \<Rightarrow> string \<Rightarrow> string \<Rightarrow> (identity_error, unit) result" where
  "verify_signed cy encoded_key message sig =
     bindE (ok_or (cy_decode cy encoded_key) (NotBase64 ''sender signing key'')) (\<lambda>key.
     bindE (ensure (length key = 32 \<and> cy_verifying cy key) SigningKeyInvalid) (\<lambda>_.
     bindE (ensure (cy_signature cy sig) SignatureEncoding) (\<lambda>_.
     ensure (cy_verify cy key message sig) SignatureFailed)))"

definition open_sync_bundle :: "crypto \<Rightarrow> string \<Rightarrow> string \<Rightarrow> registry \<Rightarrow> identity_store
    \<Rightarrow> (identity_error, json \<times> string) result" where
  "open_sync_bundle cy recovery_key bundle r store =
     bindE (ok_or (sy_self (id_sync store)) NoSelfDevice) (\<lambda>self.
     bindE (ok_or (cy_parse cy bundle) BundleNotJson) (\<lambda>v.
     bindE (ok_or (json_get ''header'' v) MissingHeader) (\<lambda>header.
     bindE (ensure (get_str ''format'' header = Some BUNDLE_FORMAT) BundleFormat) (\<lambda>_.
     bindE (ensure (get_str ''target_device'' header = Some self) BundleTarget) (\<lambda>_.
     bindE (ensure (get_str ''account_id'' header = Some (rg_account_id r)) BundleAccount) (\<lambda>_.
     bindE (ok_or (get_str ''sender_device'' header) MissingSender) (\<lambda>sender.
     bindE (find_device sender r) (\<lambda>e.
     bindE (ensure (dv_status (de_summary e) = DevActive) (SenderNotActive sender)) (\<lambda>_.
     bindE (ok_or (get_str ''sender_signing_public'' header) MissingSigningKey) (\<lambda>signing.
     bindE (ensure (signing = dv_signing_public (de_summary e)) SigningKeyMismatch) (\<lambda>_.
     bindE (decode_field cy ''nonce'' v) (\<lambda>nonce.
     bindE (decode_field cy ''ciphertext'' v) (\<lambda>ciphertext.
     bindE (decode_field cy ''signature'' v) (\<lambda>sig.
     let header_bytes = cy_json cy header in
     bindE (verify_signed cy signing (signed_digest cy header_bytes nonce ciphertext) sig) (\<lambda>_.
     bindE (peer_key cy ''sender agreement key'' (dv_agreement_public (de_summary e))) (\<lambda>sender_key.
     bindE (registry_seal_key cy recovery_key r) (\<lambda>seal_key.
     bindE (unseal_self_secrets cy seal_key r self) (\<lambda>secrets.
     let bundle_key = agreed_key cy (ds_agreement secrets) sender_key nonce ''cortana.sync.bundle.v1/key'' in
     bindE (ensure (length nonce = 12) Panicked) (\<lambda>_.
     bindE (ok_or (cy_decrypt cy bundle_key nonce header_bytes ciphertext) BundleOpenFailed) (\<lambda>payload.
     Inr (header, payload)))))))))))))))))))))"

section \<open>Round trip\<close>

lemma json_get_Cons: "json_get k (JObject ((k', v) # m)) = (if k' = k then Some v else json_get k (JObject m))"
  "json_get k (JObject []) = None"
  by (simp_all add: json_get_def)

lemmas json_read = json_get_Cons get_str_def as_str_def

lemma header_fields:
  "get_str ''format'' (bundle_header cy r self target p payload ack) = Some BUNDLE_FORMAT"
  "get_str ''target_device'' (bundle_header cy r self target p payload ack) = Some target"
  "get_str ''account_id'' (bundle_header cy r self target p payload ack) = Some (rg_account_id r)"
  "get_str ''sender_device'' (bundle_header cy r self target p payload ack) = Some self"
  "get_str ''sender_signing_public'' (bundle_header cy r self target p payload ack) = Some (cy_encode cy p)"
  "json_get ''ack_for_peer'' (bundle_header cy r self target p payload ack) = Some (JNumber (of_int ack))"
  by (simp_all add: bundle_header_def json_read)

lemma header_canonical:
  assumes "lawful cy" "- (2 ^ 63) \<le> ack" "ack < 2 ^ 63"
  shows "canonical cy (bundle_header cy r self target p payload ack)"
  using assms lawfulD(12) [OF assms] by (simp add: bundle_header_def less_char_def)

lemma bundle_json:
  fixes c n g :: string
  assumes "lawful cy" "canonical cy header"
  defines "v \<equiv> JObject [(''ciphertext'', JString c), (''header'', header), (''nonce'', JString n), (''signature'', JString g)]"
  shows "cy_parse cy (cy_json cy v) = Some v" "json_get ''header'' v = Some header"
    "get_str ''nonce'' v = Some n" "get_str ''ciphertext'' v = Some c" "get_str ''signature'' v = Some g"
proof -
  have "canonical cy v" using assms(2) by (simp add: v_def less_char_def)
  then show "cy_parse cy (cy_json cy v) = Some v" using lawfulD(10) [OF assms(1)] by blast
qed (simp_all add: v_def json_read)

text \<open>What each side knows of the other.\<close>

definition knows :: "crypto \<Rightarrow> registry \<Rightarrow> string \<Rightarrow> device_secrets \<Rightarrow> bool" where
  "knows cy r d s \<longleftrightarrow> (\<exists>e. find_device d r = Inr e \<and> dv_status (de_summary e) = DevActive \<and> publics_of cy s (de_summary e))"

definition holds_key :: "crypto \<Rightarrow> string \<Rightarrow> registry \<Rightarrow> identity_store \<Rightarrow> string \<Rightarrow> device_secrets \<Rightarrow> bool" where
  "holds_key cy K r st d s \<longleftrightarrow> sy_self (id_sync st) = Some d
     \<and> (\<exists>sk. registry_seal_key cy K r = Inr sk \<and> unseal_self_secrets cy sk r d = Inr s)"

lemma holds_key_ok: "holds_key cy K r st d s \<Longrightarrow> secrets_ok s"
  by (auto simp: holds_key_def unseal_self_secrets_def result_simps dest: unsealed_ok)

lemma peer_key_ok: "lawful cy \<Longrightarrow> length s = 32 \<Longrightarrow> peer_key cy what (cy_encode cy (cy_agree_public cy s)) = Inr (cy_agree_public cy s)"
  by (simp add: peer_key_def ok_or_def ensure_def lawfulD)

lemma agreed_key_same:
  assumes "lawful cy" "secrets_ok s" "secrets_ok t"
  shows "agreed_key cy (ds_agreement s) (cy_agree_public cy (ds_agreement t)) n info
      = agreed_key cy (ds_agreement t) (cy_agree_public cy (ds_agreement s)) n info"
    "length (agreed_key cy (ds_agreement s) p n info) = 32"
  using assms lawfulD(9) [OF assms(1)] by (simp_all add: agreed_key_def secrets_ok_def lawfulD(2))

lemma verify_signed_ok:
  assumes "lawful cy" "length s = 32"
  shows "verify_signed cy (cy_encode cy (cy_sign_public cy s)) m (cy_sign cy s m) = Inr ()"
  using lawfulD [OF assms(1)] assms(2) by (simp add: verify_signed_def ok_or_def ensure_def)

lemma bundle_roundtrip:
  assumes law: "lawful cy" "io_ok io" and "a \<noteq> b" "rg_account_id rB = rg_account_id rA"
    and A: "holds_key cy KA rA stA a sa" "knows cy rA b sb" and B: "holds_key cy KB rB stB b sb" "knows cy rB a sa"
    and ack: "ack = imported_watermark b (id_sync stA)" "- (2 ^ 63) \<le> ack" "ack < 2 ^ 63"
  shows "\<exists>bundle. seal_sync_bundle cy io KA b payload rA stA = Inr bundle
    \<and> open_sync_bundle cy KB bundle rB stB
        = Inr (bundle_header cy rA a b (cy_sign_public cy (ds_signing sa)) payload ack, payload)"
proof -
  let ?h = "bundle_header cy rA a b (cy_sign_public cy (ds_signing sa)) payload ack"
  let ?n = "io_bytes io 0 12"
  let ?key = "agreed_key cy (ds_agreement sa) (cy_agree_public cy (ds_agreement sb)) ?n ''cortana.sync.bundle.v1/key''"
  have ok: "secrets_ok sa" "secrets_ok sb" using A(1) B(1) holds_key_ok by auto
  then have len: "length (ds_signing sa) = 32" "length (ds_agreement sa) = 32" "length (ds_agreement sb) = 32" "length ?n = 12"
    using law(2) by (simp_all add: secrets_ok_def io_ok_def)
  have key: "agreed_key cy (ds_agreement sb) (cy_agree_public cy (ds_agreement sa)) ?n ''cortana.sync.bundle.v1/key'' = ?key"
    using agreed_key_same(1) [OF law(1) ok(2,1)] .
  obtain c where c: "cy_encrypt cy ?key ?n (cy_json cy ?h) payload = Some c" "cy_decrypt cy ?key ?n (cy_json cy ?h) c = Some payload"
    using lawfulD(3) [OF law(1) agreed_key_same(2) [OF law(1) ok] len(4)] by blast
  let ?sig = "cy_sign cy (ds_signing sa) (signed_digest cy (cy_json cy ?h) ?n c)"
  let ?v = "JObject [(''ciphertext'', JString (cy_encode cy c)), (''header'', ?h), (''nonce'', JString (cy_encode cy ?n)),
     (''signature'', JString (cy_encode cy ?sig))]"
  have "seal_sync_bundle cy io KA b payload rA stA = Inr (cy_json cy ?v)"
    using A assms(3) c(1) peer_key_ok [OF law(1) len(3)]
    by (auto simp: seal_sync_bundle_def holds_key_def knows_def publics_of_def ok_or_def ensure_def Let_def ack(1))
  moreover have "open_sync_bundle cy KB (cy_json cy ?v) rB stB = Inr (?h, payload)"
  proof -
    note js = bundle_json [OF law(1) header_canonical [OF law(1) ack(2,3)]]
    from B obtain sk e where B': "sy_self (id_sync stB) = Some b" "registry_seal_key cy KB rB = Inr sk"
      "unseal_self_secrets cy sk rB b = Inr sb" "find_device a rB = Inr e" "dv_status (de_summary e) = DevActive"
      "dv_signing_public (de_summary e) = cy_encode cy (cy_sign_public cy (ds_signing sa))"
      "dv_agreement_public (de_summary e) = cy_encode cy (cy_agree_public cy (ds_agreement sa))"
      by (auto simp: holds_key_def knows_def publics_of_def)
    show ?thesis
      using B' c(2) key len(4) peer_key_ok [OF law(1) len(2)] verify_signed_ok [OF law(1) len(1)] assms(4)
      by (simp add: open_sync_bundle_def js header_fields ok_or_def ensure_def Let_def decode_field_def lawfulD(1) [OF law(1)])
  qed
  ultimately show ?thesis by blast
qed

section \<open>Pairing\<close>

lemma find_map_entry: "find (\<lambda>e. dv_id (de_summary e) = d) (map (\<lambda>v. \<lparr>de_summary = v, de_sealed = None, de_retired = []\<rparr>) (map de_summary es))
    = map_option (\<lambda>e. \<lparr>de_summary = de_summary e, de_sealed = None, de_retired = []\<rparr>) (find (\<lambda>e. dv_id (de_summary e) = d) es)"
  by (induction es) auto

lemma adopt_paired:
  assumes law: "lawful cy" "io_ok io" and r: "registry_ok r" "registry_seal_key cy K r = Inr sk" "vault_of cy sk r b = Some sb"
    and x: "export_device r b = Inr x" and fresh: "id_registry stB = Missing"
  obtains stB' rB v where "adopt cy io x K n stB = (stB', Inr v)" "id_registry stB' = Json rB" "holds_key cy K rB stB' b sb"
    "rg_account_id rB = rg_account_id r" "rg_sealed_root rB = None"
    "\<And>d e. find_device d r = Inr e \<Longrightarrow> \<exists>e'. find_device d rB = Inr e' \<and> de_summary e' = de_summary e \<and> (d \<noteq> b \<longrightarrow> de_sealed e' = None)"
proof -
  let ?is = "\<lambda>d e. dv_id (de_summary e) = d" and ?salt = "io_bytes io 0 RECOVERY_SALT_BYTES"
  obtain e cred where e: "find (?is b) (rg_devices r) = Some e" "de_sealed e = Some cred" "dx_device_id x = b" "dx_devices x = map de_summary (rg_devices r)"
    "dx_credential x = cred" "dx_salt x = rg_salt r" "dx_contract_version x = rg_contract_version r"
    "dx_hierarchy_version x = rg_hierarchy_version r" "dx_account_id x = rg_account_id r"
    using x by (auto simp: export_device_def result_simps find_device_def trust_view_def)
  have open_cred: "unseal_device_secrets cy sk cred = Inr sb"
    using r(3) e(1,2) by (auto simp: vault_of_def entry_secret_def split: sum.splits)
  obtain salt0 where salt0: "cy_decode cy (rg_salt r) = Some salt0" "storage_seal_key cy K salt0 = Inr sk"
    using r(2) by (auto simp: registry_seal_key_def result_simps)
  then obtain lk where lk: "storage_seal_key cy K ?salt = Inr lk"
    by (auto simp: storage_seal_key_def result_simps ok_or_def ensure_def split: if_splits)
  obtain sealed where sealed: "seal_device_secrets cy (io_bytes io 1 12) lk sb = Inr sealed" "unseal_device_secrets cy lk sealed = Inr sb"
    using seal_unseal_device [OF law(1) length_storage_seal_key [OF law(1) lk] _ unsealed_ok [OF open_cred], of "io_bytes io 1 12"] law(2)
    by (auto simp: io_ok_def)
  let ?raw = "map (\<lambda>v. \<lparr>de_summary = v, de_sealed = None, de_retired = []\<rparr>) (map de_summary (rg_devices r))"
  let ?f = "\<lambda>e. e\<lparr>de_sealed := Some sealed\<rparr>"
  let ?rB = "\<lparr>rg_contract_version = dx_contract_version x, rg_hierarchy_version = dx_hierarchy_version x,
     rg_account_id = dx_account_id x, rg_created_at = io_now io, rg_root_generation = dx_root_generation x,
     rg_salt = cy_encode cy ?salt, rg_root_signing_public = dx_root_signing_public x, rg_sealed_root = None,
     rg_devices = update_first (?is b) ?f ?raw\<rparr>"
  have found: "find (?is b) ?raw = Some \<lparr>de_summary = de_summary e, de_sealed = None, de_retired = []\<rparr>"
    using e(1) by (simp only: find_map_entry) simp
  have id: "dv_id (de_summary e) = b" using find_Some_set [OF e(1)] by simp
  let ?st = "audit io ''identity.adopt'' ''ok'' n (stB\<lparr>id_registry := Json ?rB, id_sync := (id_sync stB)\<lparr>sy_self := Some b\<rparr>\<rparr>)"
  have ad: "adopt cy io x K n stB = (?st, Inr (de_summary e))"
    using found lk sealed(1) open_cred salt0 fresh r(1) id
    by (simp add: adopt_def load_registry_def ensure_def e(3-9) ok_or_def Let_def save_registry_def registry_ok_def)
  have "find (?is b) (rg_devices ?rB) = Some (?f \<lparr>de_summary = de_summary e, de_sealed = None, de_retired = []\<rparr>)"
    using find_update_first_same [OF found, of ?f] by simp
  then have "unseal_self_secrets cy lk ?rB b = Inr sb"
    using sealed(2) by (simp add: unseal_self_secrets_def ok_or_def)
  then have hk: "holds_key cy K ?rB ?st b sb"
    using lk by (simp add: holds_key_def registry_seal_key_def lawfulD(1) [OF law(1)] ok_or_def)
  have fd: "\<exists>e'. find_device d ?rB = Inr e' \<and> de_summary e' = de_summary g \<and> (d \<noteq> b \<longrightarrow> de_sealed e' = None)"
    if "find_device d r = Inr g" for d g
  proof -
    have g: "find (?is d) ?raw = Some \<lparr>de_summary = de_summary g, de_sealed = None, de_retired = []\<rparr>"
      using that by (simp only: find_map_entry) (simp add: find_device_def result_simps)
    show ?thesis
    proof (cases "d = b")
      case True
      with found g find_update_first_same [OF found, of ?f] show ?thesis by (simp add: find_device_def ok_or_def)
    next
      case False
      with g find_update_first_other [of "?is b" "?is d" ?f ?raw] show ?thesis by (auto simp: find_device_def ok_or_def)
    qed
  qed
  show thesis by (rule that [of ?st "de_summary e" ?rB, OF ad _ hk _ _ fd]) (simp_all add: e(9))
qed

lemma entry_secretD: "entry_secret cy sk e = Some s \<Longrightarrow> \<exists>b. de_sealed e = Some b \<and> unseal_device_secrets cy sk b = Inr s"
  by (cases "de_sealed e"; cases "unseal_device_secrets cy sk (the (de_sealed e))") (auto simp: entry_secret_def)

lemma adopt_sync: "adopt cy io x K n stB = (stB', Inr v) \<Longrightarrow> \<exists>d. id_sync stB' = (id_sync stB)\<lparr>sy_self := d\<rparr>"
  by (auto simp: adopt_def Let_def save_registry_def split: sum.splits prod.splits if_splits)

lemma adopt_only:
  assumes "adopt cy io x K n stB = (stB', Inr v)" "id_registry stB' = Json rB" "export_device r b = Inr x" "e \<in> set (rg_devices rB)" "device_id e \<noteq> b"
  shows "de_sealed e = None"
proof -
  have "dx_device_id x = b" using assms(3) by (auto simp: export_device_def result_simps)
  moreover obtain sealed where "rg_devices rB = update_first (\<lambda>e. dv_id (de_summary e) = dx_device_id x) (\<lambda>e. e\<lparr>de_sealed := Some sealed\<rparr>)
      (map (\<lambda>v. \<lparr>de_summary = v, de_sealed = None, de_retired = []\<rparr>) (dx_devices x))"
    using assms(1,2) by (auto simp: adopt_def Let_def save_registry_def result_simps split: sum.splits prod.splits if_splits)
  ultimately show ?thesis using assms(4,5) by (auto simp: device_id_def dest!: set_update_firstD)
qed

text \<open>Adoption gives the second device its key, and each device knows the other.\<close>

lemma adopted_device:
  fixes st stB :: identity_store
  assumes law: "lawful cy" "io_ok io" and r: "registry_ok r" "registry_seal_key cy K r = Inr sk" "vault_open cy sk r"
    and a: "sy_self (id_sync st) = Some a" "find_device a r = Inr ea" "dv_status (de_summary ea) = DevActive" "vault_of cy sk r a = Some sa"
    and b: "find_device b r = Inr eb" "dv_status (de_summary eb) = DevActive" "id_registry stB = Missing"
    and x: "export_device r b = Inr x"
  obtains stB' rB v sb where "adopt cy io x K n stB = (stB', Inr v)" "id_registry stB' = Json rB" "rg_account_id rB = rg_account_id r"
    "rg_sealed_root rB = None" "id_sync stB' = (id_sync stB)\<lparr>sy_self := Some b\<rparr>"
    "holds_key cy K r st a sa" "knows cy r b sb" "holds_key cy K rB stB' b sb" "knows cy rB a sa"
proof -
  have mine: "entry_secret cy sk e = Some s \<and> publics_of cy s (de_summary e)" if "find_device d r = Inr e" "vault_of cy sk r d = Some s" for d e s
  proof -
    have "entry_secret cy sk e = Some s" using that by (simp add: vault_of_def find_device_def result_simps)
    moreover have "entry_open cy sk e" using r(3) find_deviceD [OF that(1)] by (simp add: vault_open_def list_all_iff)
    ultimately show ?thesis by (auto simp: entry_open_def entry_secret_def)
  qed
  have "de_sealed eb \<noteq> None" using x b(1) by (auto simp: export_device_def result_simps)
  then obtain sb where sb: "vault_of cy sk r b = Some sb"
    using r(3) b(1) find_deviceD [OF b(1)]
    by (auto simp: vault_open_def list_all_iff entry_open_def vault_of_def find_device_def result_simps)
  obtain stB' rB v where
    B: "adopt cy io x K n stB = (stB', Inr v)" "id_registry stB' = Json rB" "holds_key cy K rB stB' b sb"
      "rg_account_id rB = rg_account_id r" "rg_sealed_root rB = None"
    and view: "\<And>d e. find_device d r = Inr e \<Longrightarrow> \<exists>e'. find_device d rB = Inr e' \<and> de_summary e' = de_summary e \<and> (d \<noteq> b \<longrightarrow> de_sealed e' = None)"
    by (rule adopt_paired [OF law(1,2) r(1,2) sb x b(3), of n]) (rule that)
  have sync: "id_sync stB' = (id_sync stB)\<lparr>sy_self := Some b\<rparr>" 
  proof -
    obtain d where d: "id_sync stB' = (id_sync stB)\<lparr>sy_self := d\<rparr>" using adopt_sync [OF B(1)] by blast
    moreover have "sy_self (id_sync stB') = Some b" using B(3) by (simp add: holds_key_def)
    ultimately have "d = Some b" by simp
    with d show ?thesis by simp
  qed
  have A: "holds_key cy K r st a sa"
    using a(1,2) mine [OF a(2,4)] r(2) by (auto simp: holds_key_def unseal_self_secrets_def find_device_def result_simps dest!: entry_secretD)
  have kA: "knows cy r b sb" "knows cy rB a sa"
    using b(1,2) a(2,3) mine [OF b(1) sb] mine [OF a(2,4)] view [OF a(2)] by (auto simp: knows_def)
  show thesis by (rule that [OF B(1,2,4,5) sync A kA(1) B(3) kA(2)])
qed

text \<open>
  C22. Two paired devices can talk. Take an account whose credentials open, its local device a and
  another device b, both active. If the owner exports b and adopts it on a store without an
  identity, with the same recovery key, adoption succeeds and gives b its credential and nobody
  else's, and never the account root; then a bundle a seals for b opens at b, and one b seals for
  a opens at a, to the payload that was sealed, with the sender and its acknowledgement.
\<close>

theorem paired_devices_exchange:
  assumes law: "lawful cy" "io_ok io" "io_ok io'" and r: "registry_ok r" "registry_seal_key cy K r = Inr sk" "vault_open cy sk r"
    and a: "sy_self (id_sync st) = Some a" "find_device a r = Inr ea" "dv_status (de_summary ea) = DevActive" "vault_of cy sk r a = Some sa"
    and b: "find_device b r = Inr eb" "dv_status (de_summary eb) = DevActive" "a \<noteq> b" "id_registry stB = Missing"
    and x: "export_device r b = Inr x"
    and acks: "- (2 ^ 63) \<le> imported_watermark b (id_sync st)" "imported_watermark b (id_sync st) < 2 ^ 63"
      "- (2 ^ 63) \<le> imported_watermark a (id_sync stB)" "imported_watermark a (id_sync stB) < 2 ^ 63"
  shows "\<exists>stB' rB v bundle reply h h'. adopt cy io x K n stB = (stB', Inr v) \<and> id_registry stB' = Json rB
    \<and> rg_sealed_root rB = None \<and> (\<forall>e \<in> set (rg_devices rB). device_id e \<noteq> b \<longrightarrow> de_sealed e = None)
    \<and> seal_sync_bundle cy io' K b payload r st = Inr bundle \<and> open_sync_bundle cy K bundle rB stB' = Inr (h, payload)
    \<and> get_str ''sender_device'' h = Some a \<and> json_get ''ack_for_peer'' h = Some (JNumber (of_int (imported_watermark b (id_sync st))))
    \<and> seal_sync_bundle cy io' K a answer rB stB' = Inr reply \<and> open_sync_bundle cy K reply r st = Inr (h', answer)
    \<and> get_str ''sender_device'' h' = Some b"
proof -
  obtain stB' rB v sb where B: "adopt cy io x K n stB = (stB', Inr v)" "id_registry stB' = Json rB" "rg_account_id rB = rg_account_id r"
      "rg_sealed_root rB = None" and sync: "id_sync stB' = (id_sync stB)\<lparr>sy_self := Some b\<rparr>"
    and A: "holds_key cy K r st a sa" "knows cy r b sb" "holds_key cy K rB stB' b sb" "knows cy rB a sa"
    by (rule adopted_device [OF law(1,2) r a b(1,2,4) x, of n]) (rule that)
  from bundle_roundtrip [OF law(1,3) b(3) B(3) A refl acks(1,2), of payload] obtain msg where
    out: "seal_sync_bundle cy io' K b payload r st = Inr msg" "open_sync_bundle cy K msg rB stB'
      = Inr (bundle_header cy r a b (cy_sign_public cy (ds_signing sa)) payload (imported_watermark b (id_sync st)), payload)" by blast
  have "imported_watermark a (id_sync stB') = imported_watermark a (id_sync stB)"
    by (simp add: sync imported_watermark_def watermark_of_def)
  with bundle_roundtrip [OF law(1,3) b(3) [symmetric] B(3) [symmetric] A(3,4,1,2) refl, of answer] acks(3,4) obtain reply where
    ret: "seal_sync_bundle cy io' K a answer rB stB' = Inr reply" "open_sync_bundle cy K reply r st
      = Inr (bundle_header cy rB b a (cy_sign_public cy (ds_signing sb)) answer (imported_watermark a (id_sync stB)), answer)" by auto
  have "\<forall>e \<in> set (rg_devices rB). device_id e \<noteq> b \<longrightarrow> de_sealed e = None" using adopt_only [OF B(1,2) x] by blast
  with B(1,2,4) out ret show ?thesis
    by - (rule exI [where x = stB'], rule exI [where x = rB], rule exI [where x = v], rule exI [where x = msg],
        rule exI [where x = reply], intro exI conjI; (assumption | rule header_fields))
qed

lemma initialize_sync: "initialize cy io name n st = (st', Inr i) \<Longrightarrow> \<exists>d. id_sync st' = (id_sync st)\<lparr>sy_self := d\<rparr>"
  by (auto simp: initialize_def Let_def save_registry_def split: sum.splits prod.splits if_splits)

text \<open>An account with a second device.\<close>

lemma ex_two_devices:
  obtains st :: identity_store and r K sk sa ea eb x where "registry_ok r" "registry_seal_key ex_crypto K r = Inr sk" "vault_open ex_crypto sk r"
    "sy_self (id_sync st) = Some ''a''" "find_device ''a'' r = Inr ea" "dv_status (de_summary ea) = DevActive"
    "vault_of ex_crypto sk r ''a'' = Some sa" "find_device ''b'' r = Inr eb" "dv_status (de_summary eb) = DevActive"
    "export_device r ''b'' = Inr x" "id_sync st = ex_sync_store\<lparr>sy_self := Some ''a''\<rparr>"
proof -
  obtain st i sk where a: "initialize ex_crypto ex_io ''laptop'' 10 ex_identity_store = (st, Inr i)"
    "registry_ok (in_registry i)" "sy_self (id_sync st) = Some ''a''" "map device_id (rg_devices (in_registry i)) = [''a'']"
    "dv_status (de_summary (hd (rg_devices (in_registry i)))) = DevActive"
    "registry_seal_key ex_crypto (in_recovery_key i) (in_registry i) = Inr sk"
    "verify_recovery_possession ex_crypto sk (in_registry i) = Inr ()" "vault_open ex_crypto sk (in_registry i)"
    "vault_of ex_crypto sk (in_registry i) = [''a'' \<mapsto> generate_device_secrets ex_io 4]" by (rule ex_account)
  let ?r = "in_registry i" and ?K = "in_recovery_key i" and ?s = "generate_device_secrets ex_io2 0"
  obtain ea where ea: "rg_devices ?r = [ea]" "device_id ea = ''a''" using a(4) by auto
  have b: "io_uuid ex_io2 0 = ''b''" by (simp add: ex_io2_def char_eval)
  then have fresh: "io_uuid ex_io2 0 \<notin> device_id ` set (rg_devices ?r)" using ea by simp
  have len: "length sk = 32" using a(6) ex_crypto_lawful by (auto simp: registry_seal_key_def result_simps dest: length_storage_seal_key)
  obtain c where c: "seal_device_secrets ex_crypto (io_bytes ex_io2 2 12) sk ?s = Inr c"
    using seal_unseal_device [OF ex_crypto_lawful len _ generated_ok [OF ex_io2_ok, of 0], of "io_bytes ex_io2 2 12"] ex_io2_ok by (auto simp: io_ok_def)
  let ?v = "new_summary ex_crypto ex_io2 0 ''phone'' ?s"
  let ?r2 = "?r\<lparr>rg_devices := rg_devices ?r @ [\<lparr>de_summary = ?v, de_sealed = Some c, de_retired = []\<rparr>]\<rparr>"
  have "trim ''phone'' = ''phone''" by (rule trim_plain) (simp add: byte_def)
  then obtain st2 where en: "enroll ex_crypto ex_io2 ?K ''phone'' 10 (st, ?r) = ((st2, ?r2), Inr ?v)"
    using a(2,6,7) c ea(1)
    by (simp add: enroll_def ensure_def Let_def DEVICE_LIMIT_def commit_def save_registry_def registry_ok_def)
  have out: "registry_ok ?r2" "id_sync st2 = id_sync st"
    using enroll_outcome [OF a(2) fresh, of st ex_crypto ?K "''phone''" 10] en by (simp_all add: op_outcome_def)
  have v: "vault_of ex_crypto sk ?r2 = (vault_of ex_crypto sk ?r)(''b'' \<mapsto> ?s)" "vault_open ex_crypto sk ?r2"
    using enroll_vault [OF ex_crypto_lawful ex_io2_ok fresh a(6) en] a(8) b by simp_all
  obtain d where "id_sync st = (id_sync ex_identity_store)\<lparr>sy_self := d\<rparr>" using initialize_sync [OF a(1)] by blast
  with a(3) have im: "id_sync st = ex_sync_store\<lparr>sy_self := Some ''a''\<rparr>" by (simp add: ex_identity_store_def)
  have find: "find_device ''a'' ?r2 = Inr ea" "find_device ''b'' ?r2 = Inr \<lparr>de_summary = ?v, de_sealed = Some c, de_retired = []\<rparr>"
    using ea b by (simp_all add: find_device_def ok_or_def device_id_def new_summary_def)
  then obtain x where x: "export_device ?r2 ''b'' = Inr x" by (auto simp: export_device_def ok_or_def)
  have key: "registry_seal_key ex_crypto ?K ?r2 = Inr sk" using a(6) by (simp add: registry_seal_key_def)
  have act: "dv_status (de_summary ea) = DevActive" "dv_status ?v = DevActive"
    using a(5) ea(1) by (simp_all add: new_summary_def)
  show thesis
    by (rule that [OF out(1) key v(2) a(3) find(1) act(1) _ find(2) _ x im]) (use v(1) a(9) act(2) in simp_all)
qed

theorem paired_devices_exchange_witness:
  "\<exists>r (st :: identity_store) stB rB x v K message h. adopt ex_crypto ex_io x K 10 ex_identity_store = (stB, Inr v) \<and> id_registry stB = Json rB
     \<and> seal_sync_bundle ex_crypto ex_io K ''b'' ''hello'' r st = Inr message
     \<and> open_sync_bundle ex_crypto K message rB stB = Inr (h, ''hello'') \<and> get_str ''sender_device'' h = Some ''a''"
proof -
  obtain st :: identity_store and r K sk sa ea eb x where *: "registry_ok r" "registry_seal_key ex_crypto K r = Inr sk" "vault_open ex_crypto sk r"
    "sy_self (id_sync st) = Some ''a''" "find_device ''a'' r = Inr ea" "dv_status (de_summary ea) = DevActive"
    "vault_of ex_crypto sk r ''a'' = Some sa" "find_device ''b'' r = Inr eb" "dv_status (de_summary eb) = DevActive"
    "export_device r ''b'' = Inr x" "id_sync st = ex_sync_store\<lparr>sy_self := Some ''a''\<rparr>" by (rule ex_two_devices) (rule that)
  have new: "id_registry ex_identity_store = Missing" "imported_watermark d (id_sync ex_identity_store) = 0"
    "imported_watermark d (id_sync st) = 0" for d
    by (simp_all add: *(11) ex_identity_store_def ex_sync_store_def imported_watermark_def watermark_of_def)
  show ?thesis
    using paired_devices_exchange [OF ex_crypto_lawful ex_io_ok ex_io_ok *(1-9) _ new(1) *(10), of 10 "''hello''" "''yes''"] new(2,3)
    by simp blast
qed

end
