(* ===== verification/Auth.thy ===== *)
theory Auth
  imports Text "HOL-Library.Word"
begin

unbundle bit_operations_syntax

text \<open>
  Authentication, \<open>crates/core/src/auth.rs\<close> with the part of \<open>crates/server/src/api.rs\<close> that turns
  a request into a principal: the policy built from the configuration, bearer tokens compared by
  digest, expiry, scopes and access labels. SHA-256, the RFC 3339 parser and the lookup of an
  environment variable are parameters; hash sets are sets.
\<close>

section \<open>Principals and policies\<close>

definition QUERY_SCOPE :: string where "QUERY_SCOPE = ''query''"
definition STATUS_SCOPE :: string where "STATUS_SCOPE = ''status''"
definition ADMIN_SCOPE :: string where "ADMIN_SCOPE = ''admin''"
definition MEMORY_SCOPE :: string where "MEMORY_SCOPE = ''memory''"

lemmas scope_defs = QUERY_SCOPE_def STATUS_SCOPE_def ADMIN_SCOPE_def MEMORY_SCOPE_def

record principal =
  pr_name :: string
  pr_scopes :: "string set"
  pr_acl :: "string set"

definition local_principal :: "string \<Rightarrow> principal" where
  "local_principal name = \<lparr>pr_name = name,
     pr_scopes = {QUERY_SCOPE, STATUS_SCOPE, ADMIN_SCOPE, MEMORY_SCOPE}, pr_acl = {''*''}\<rparr>"

definition has_scope :: "string \<Rightarrow> principal \<Rightarrow> bool" where
  "has_scope scope p \<longleftrightarrow> scope \<in> pr_scopes p"

definition is_owner :: "principal \<Rightarrow> bool" where
  "is_owner p \<longleftrightarrow> has_scope ADMIN_SCOPE p"

definition acl_labels :: "principal \<Rightarrow> string list" where
  "acl_labels p = sorted_list_of_set (pr_acl p)"

definition visible_acl :: "principal \<Rightarrow> string list" where
  "visible_acl p = (if is_owner p then [''*''] else acl_labels p)"

type_synonym digest = "8 word list"

record credential =
  cr_digest :: digest
  cr_principal :: principal
  cr_expires :: "int option"

record token_config =
  tk_principal :: string
  tk_env :: string
  tk_scopes :: "string list"
  tk_acl :: "string list"

record auth_config =
  ac_tokens :: "token_config list"
  ac_disabled :: "string list"
  ac_expiry :: "(string \<times> string) list"

record auth_env =
  ae_sha256 :: "string \<Rightarrow> digest"
  ae_parse :: "string \<Rightarrow> int option"
  ae_value :: "string \<Rightarrow> string option"

datatype auth_error =
    DisabledNotUnique
  | PrincipalEmpty
  | DuplicatePrincipal string
  | InvalidScope string
  | ReservedAcl string
  | ExpiryNotRfc3339 string
  | AuthenticationTimeNotRfc3339
  | TokenNotSet string
  | TokenEmpty
  | UnknownDisabled
  | UnknownExpiry
  | TokensNotUnique

section \<open>Building the policy\<close>

definition check_token :: "token_config \<Rightarrow> string set \<Rightarrow> (auth_error, unit) result" where
  "check_token tok principals =
     bindE (ensure (trim (tk_principal tok) \<noteq> []) PrincipalEmpty) (\<lambda>_.
     bindE (ensure (tk_principal tok \<notin> principals) (DuplicatePrincipal (tk_principal tok))) (\<lambda>_.
     bindE (ensure (set (tk_scopes tok) \<noteq> {}
         \<and> set (tk_scopes tok) \<subseteq> {QUERY_SCOPE, STATUS_SCOPE, ADMIN_SCOPE, MEMORY_SCOPE})
       (InvalidScope (tk_principal tok))) (\<lambda>_.
     ensure (''*'' \<notin> set (tk_acl tok)) (ReservedAcl (tk_principal tok)))))"

definition token_expiry :: "auth_env \<Rightarrow> auth_config \<Rightarrow> token_config \<Rightarrow> (auth_error, int option) result" where
  "token_expiry env cfg tok = transpose_map
     (\<lambda>v. ok_or (ae_parse env v) (ExpiryNotRfc3339 (tk_principal tok))) (map_of (ac_expiry cfg) (tk_principal tok))"

definition make_credential :: "auth_env \<Rightarrow> auth_config \<Rightarrow> token_config \<Rightarrow> (auth_error, credential) result" where
  "make_credential env cfg tok =
     bindE (token_expiry env cfg tok) (\<lambda>expires.
     bindE (ok_or (ae_value env (tk_env tok)) (TokenNotSet (tk_env tok))) (\<lambda>value.
     bindE (ensure (value \<noteq> []) TokenEmpty) (\<lambda>_.
     Inr \<lparr>cr_digest = ae_sha256 env value,
          cr_principal = \<lparr>pr_name = tk_principal tok, pr_scopes = set (tk_scopes tok), pr_acl = set (tk_acl tok)\<rparr>,
          cr_expires = expires\<rparr>)))"

fun load_tokens :: "auth_env \<Rightarrow> auth_config \<Rightarrow> token_config list \<Rightarrow> string set
    \<Rightarrow> (auth_error, credential list \<times> string set) result" where
  "load_tokens env cfg [] principals = Inr ([], principals)"
| "load_tokens env cfg (tok # toks) principals =
     bindE (check_token tok principals) (\<lambda>_.
     let principals = insert (tk_principal tok) principals in
     if tk_principal tok \<in> set (ac_disabled cfg) then load_tokens env cfg toks principals
     else bindE (make_credential env cfg tok) (\<lambda>c.
       bindE (load_tokens env cfg toks principals) (\<lambda>(cs, ps). Inr (c # cs, ps))))"

definition from_config :: "auth_env \<Rightarrow> auth_config \<Rightarrow> (auth_error, credential list) result" where
  "from_config env cfg =
     bindE (ensure (distinct (ac_disabled cfg)) DisabledNotUnique) (\<lambda>_.
     bindE (load_tokens env cfg (ac_tokens cfg) {}) (\<lambda>(credentials, principals).
     bindE (ensure (set (ac_disabled cfg) \<subseteq> principals) UnknownDisabled) (\<lambda>_.
     bindE (ensure (fst ` set (ac_expiry cfg) \<subseteq> principals) UnknownExpiry) (\<lambda>_.
     bindE (ensure (distinct (map cr_digest credentials)) TokensNotUnique) (\<lambda>_.
     Inr credentials)))))"

section \<open>Authentication\<close>

definition requires_token :: "credential list \<Rightarrow> bool" where
  "requires_token policy \<longleftrightarrow> policy \<noteq> []"

definition constant_time_eq :: "digest \<Rightarrow> digest \<Rightarrow> bool" where
  "constant_time_eq left right \<longleftrightarrow>
     fold (\<lambda>(l, r) difference. difference OR (l XOR r)) (zip left right) 0 = 0"

definition authenticate_at_time :: "auth_env \<Rightarrow> credential list \<Rightarrow> string \<Rightarrow> int \<Rightarrow> principal option" where
  "authenticate_at_time env policy token at =
     (let provided = ae_sha256 env token in
      map_option cr_principal (find (\<lambda>c. constant_time_eq provided (cr_digest c)
        \<and> (case cr_expires c of None \<Rightarrow> True | Some expiry \<Rightarrow> at < expiry)) policy))"

definition authenticate_at :: "auth_env \<Rightarrow> credential list \<Rightarrow> string \<Rightarrow> string
    \<Rightarrow> (auth_error, principal option) result" where
  "authenticate_at env policy token at =
     bindE (ok_or (ae_parse env at) AuthenticationTimeNotRfc3339) (\<lambda>t. Inr (authenticate_at_time env policy token t))"

definition acl_allows :: "string list \<Rightarrow> string list \<Rightarrow> bool" where
  "acl_allows document_acl principal_acl \<longleftrightarrow> document_acl = []
     \<or> list_ex (\<lambda>label. label = ''*'') principal_acl
     \<or> list_ex (\<lambda>required. list_ex (\<lambda>label. label = required) principal_acl) document_acl"

text \<open>The principal of an HTTP request, from its authorization header.\<close>

definition strip_prefix :: "string \<Rightarrow> string \<Rightarrow> string option" where
  "strip_prefix p s = (if starts_with s p then Some (drop (length p) s) else None)"

definition http_principal :: "auth_env \<Rightarrow> credential list \<Rightarrow> string option \<Rightarrow> int \<Rightarrow> principal option" where
  "http_principal env policy header now =
     (if requires_token policy
      then Option.bind (Option.bind header (strip_prefix ''Bearer '')) (\<lambda>token. authenticate_at_time env policy token now)
      else Some (local_principal ''local-http''))"

section \<open>Lemmas\<close>

lemma word_or_zero_iff: "(a :: 8 word) OR b = 0 \<longleftrightarrow> a = 0 \<and> b = 0"
  by (auto simp: bit_eq_iff bit_or_iff)

lemma word_xor_zero_iff: "(a :: 8 word) XOR b = 0 \<longleftrightarrow> a = b"
  by (auto simp: bit_eq_iff bit_xor_iff)

lemma fold_difference:
  "fold (\<lambda>(l, r) d. d OR (l XOR r)) zs (d :: 8 word) = 0 \<longleftrightarrow> d = 0 \<and> (\<forall>(l, r)\<in>set zs. l = r)"
  by (induction zs arbitrary: d) (auto simp: word_or_zero_iff word_xor_zero_iff)

lemma constant_time_eq_iff:
  assumes "length left = length right"
  shows "constant_time_eq left right \<longleftrightarrow> left = right"
  unfolding constant_time_eq_def fold_difference
  using assms by (induction left right rule: list_induct2) auto

definition enabled_tokens :: "auth_config \<Rightarrow> token_config list" where
  "enabled_tokens cfg = filter (\<lambda>t. tk_principal t \<notin> set (ac_disabled cfg)) (ac_tokens cfg)"

lemma load_tokens_ok:
  "load_tokens env cfg toks ps = Inr (cs, ps') \<Longrightarrow>
     list_all2 (\<lambda>t c. make_credential env cfg t = Inr c)
       (filter (\<lambda>t. tk_principal t \<notin> set (ac_disabled cfg)) toks) cs
   \<and> (\<forall>t\<in>set toks. set (tk_scopes t) \<noteq> {} \<and> ''*'' \<notin> set (tk_acl t)
        \<and> set (tk_scopes t) \<subseteq> {QUERY_SCOPE, STATUS_SCOPE, ADMIN_SCOPE, MEMORY_SCOPE})
   \<and> distinct (map tk_principal toks)"
proof -
  have "load_tokens env cfg toks ps = Inr (cs, ps') \<Longrightarrow>
     list_all2 (\<lambda>t c. make_credential env cfg t = Inr c)
       (filter (\<lambda>t. tk_principal t \<notin> set (ac_disabled cfg)) toks) cs
   \<and> (\<forall>t\<in>set toks. set (tk_scopes t) \<noteq> {} \<and> ''*'' \<notin> set (tk_acl t)
        \<and> set (tk_scopes t) \<subseteq> {QUERY_SCOPE, STATUS_SCOPE, ADMIN_SCOPE, MEMORY_SCOPE})
   \<and> distinct (map tk_principal toks) \<and> tk_principal ` set toks \<inter> ps = {}"
  proof (induction toks arbitrary: ps cs)
    case (Cons t toks)
    from Cons.prems have t: "set (tk_scopes t) \<noteq> {}" "''*'' \<notin> set (tk_acl t)" "tk_principal t \<notin> ps"
      "set (tk_scopes t) \<subseteq> {QUERY_SCOPE, STATUS_SCOPE, ADMIN_SCOPE, MEMORY_SCOPE}"
      by (auto simp: check_token_def result_simps split: if_splits)
    show ?case
    proof (cases "tk_principal t \<in> set (ac_disabled cfg)")
      case True
      with Cons.prems have "load_tokens env cfg toks (insert (tk_principal t) ps) = Inr (cs, ps')"
        by (auto simp: bindE_Inr_iff Let_def)
      from Cons.IH [OF this] True t show ?thesis by auto
    next
      case False
      with Cons.prems obtain c cs' where "make_credential env cfg t = Inr c" "cs = c # cs'"
        "load_tokens env cfg toks (insert (tk_principal t) ps) = Inr (cs', ps')"
        by (auto simp: bindE_Inr_iff Let_def)
      with Cons.IH [OF this(3)] False t show ?thesis by auto
    qed
  qed simp
  then show "load_tokens env cfg toks ps = Inr (cs, ps') \<Longrightarrow> ?thesis" by blast
qed


lemma from_config_cases:
  assumes "from_config env cfg = Inr policy"
  shows "list_all2 (\<lambda>t c. make_credential env cfg t = Inr c) (enabled_tokens cfg) policy"
    and "distinct (map cr_digest policy)"
    and "t \<in> set (ac_tokens cfg) \<Longrightarrow> set (tk_scopes t) \<noteq> {} \<and> ''*'' \<notin> set (tk_acl t)
        \<and> set (tk_scopes t) \<subseteq> {QUERY_SCOPE, STATUS_SCOPE, ADMIN_SCOPE, MEMORY_SCOPE}"
proof -
  from assms obtain ps where l: "load_tokens env cfg (ac_tokens cfg) {} = Inr (policy, ps)"
    and d: "distinct (map cr_digest policy)"
    by (auto simp: from_config_def bindE_Inr_iff ensure_Inr_iff)
  show "list_all2 (\<lambda>t c. make_credential env cfg t = Inr c) (enabled_tokens cfg) policy"
    "distinct (map cr_digest policy)"
    "t \<in> set (ac_tokens cfg) \<Longrightarrow> set (tk_scopes t) \<noteq> {} \<and> ''*'' \<notin> set (tk_acl t)
        \<and> set (tk_scopes t) \<subseteq> {QUERY_SCOPE, STATUS_SCOPE, ADMIN_SCOPE, MEMORY_SCOPE}"
    using load_tokens_ok [OF l] d by (auto simp: enabled_tokens_def)
qed

lemma list_all2_members:
  "list_all2 P xs ys \<Longrightarrow> y \<in> set ys \<Longrightarrow> \<exists>x\<in>set xs. P x y"
  "list_all2 P xs ys \<Longrightarrow> x \<in> set xs \<Longrightarrow> \<exists>y\<in>set ys. P x y"
  by (induction rule: list_all2_induct) auto

lemma find_unique:
  assumes "distinct (map k xs)" "\<And>x. P x \<Longrightarrow> k x = d"
  shows "find P xs = Some x \<longleftrightarrow> x \<in> set xs \<and> P x"
proof
  assume x: "x \<in> set xs \<and> P x"
  then obtain y where y: "find P xs = Some y" by (cases "find P xs") (auto simp: find_None_iff)
  then have "y \<in> set xs \<and> P y" by (rule find_Some_set)
  with x assms(2) have "k y = k x" "y \<in> set xs" by auto
  with x assms(1) have "y = x" by (simp add: distinct_map inj_on_def)
  with y show "find P xs = Some x" by simp
qed (rule find_Some_set)

section \<open>Properties\<close>

definition entry_authenticates :: "auth_env \<Rightarrow> auth_config \<Rightarrow> string \<Rightarrow> int \<Rightarrow> token_config \<Rightarrow> bool" where
  "entry_authenticates env cfg token at t \<longleftrightarrow> t \<in> set (enabled_tokens cfg)
     \<and> (\<exists>v. ae_value env (tk_env t) = Some v \<and> v \<noteq> [] \<and> ae_sha256 env v = ae_sha256 env token)
     \<and> pred_option (\<lambda>e. \<exists>x. ae_parse env e = Some x \<and> at < x) (map_of (ac_expiry cfg) (tk_principal t))"

lemma make_credential_cases:
  assumes "make_credential env cfg t = Inr c"
  shows "(\<exists>v. ae_value env (tk_env t) = Some v \<and> v \<noteq> [] \<and> cr_digest c = ae_sha256 env v)
    \<and> cr_principal c = \<lparr>pr_name = tk_principal t, pr_scopes = set (tk_scopes t), pr_acl = set (tk_acl t)\<rparr>
    \<and> ((case cr_expires c of None \<Rightarrow> True | Some expiry \<Rightarrow> at < expiry)
        \<longleftrightarrow> pred_option (\<lambda>e. \<exists>x. ae_parse env e = Some x \<and> at < x) (map_of (ac_expiry cfg) (tk_principal t)))"
  using assms by (cases "map_of (ac_expiry cfg) (tk_principal t)")
    (auto simp: make_credential_def token_expiry_def bindE_Inr_iff ensure_Inr_iff ok_or_Inr_iff)

lemma digest_eq:
  assumes "\<And>s. length (ae_sha256 env s) = 32"
  shows "constant_time_eq (ae_sha256 env s) (ae_sha256 env t) \<longleftrightarrow> ae_sha256 env t = ae_sha256 env s"
  using assms by (auto simp: constant_time_eq_iff)

lemma authenticate_iff:
  assumes "from_config env cfg = Inr policy" "\<And>s. length (ae_sha256 env s) = 32"
  shows "authenticate_at_time env policy token at = Some p \<longleftrightarrow>
    (\<exists>c\<in>set policy. constant_time_eq (ae_sha256 env token) (cr_digest c)
       \<and> (case cr_expires c of None \<Rightarrow> True | Some expiry \<Rightarrow> at < expiry) \<and> p = cr_principal c)"
proof -
  note cfg = from_config_cases [OF assms(1)]
  let ?ok = "\<lambda>c. constant_time_eq (ae_sha256 env token) (cr_digest c)
        \<and> (case cr_expires c of None \<Rightarrow> True | Some expiry \<Rightarrow> at < expiry)"
  let ?ok' = "\<lambda>c. c \<in> set policy \<and> ?ok c"
  have dig: "\<exists>v. cr_digest c = ae_sha256 env v" if c: "c \<in> set policy" for c
    using list_all2_members(1) [OF cfg(1) c] make_credential_cases by blast
  have "find ?ok policy = find ?ok' policy" by (rule find_ext) simp
  moreover have "find ?ok' policy = Some c \<longleftrightarrow> c \<in> set policy \<and> ?ok' c" for c
    by (rule find_unique [OF cfg(2), where d = "ae_sha256 env token"]) (use dig digest_eq [OF assms(2)] in force)
  ultimately have "find ?ok policy = Some c \<longleftrightarrow> c \<in> set policy \<and> ?ok c" for c by simp
  then show ?thesis
    unfolding authenticate_at_time_def Let_def map_option_eq_Some by auto
qed

text \<open>
  C15. A token authenticates its principal and no other. Under a policy built from a
  configuration, a bearer token authenticates a principal exactly when it has the digest of the
  value configured for an enabled token entry that has not expired at the time; the principal
  then carries that entry's name, scopes and labels. Its scopes are a nonempty choice of the four
  scopes, its labels never hold the star that stands for every label, and the byte-wise
  comparison of digests decides their equality.
\<close>

theorem authentication_is_sound:
  assumes "from_config env cfg = Inr policy" "\<And>s. length (ae_sha256 env s) = 32"
  shows "authenticate_at_time env policy token at = Some p \<longleftrightarrow>
     (\<exists>t. entry_authenticates env cfg token at t
        \<and> p = \<lparr>pr_name = tk_principal t, pr_scopes = set (tk_scopes t), pr_acl = set (tk_acl t)\<rparr>
        \<and> pr_scopes p \<noteq> {} \<and> pr_scopes p \<subseteq> {''query'', ''status'', ''admin'', ''memory''} \<and> ''*'' \<notin> pr_acl p)"
    (is "?left \<longleftrightarrow> (\<exists>t. ?entry t)")
proof -
  note cfg = from_config_cases [OF assms(1)]
  have match: "constant_time_eq (ae_sha256 env token) (cr_digest c)
        \<and> (case cr_expires c of None \<Rightarrow> True | Some expiry \<Rightarrow> at < expiry) \<longleftrightarrow> entry_authenticates env cfg token at t"
    if "make_credential env cfg t = Inr c" "t \<in> set (enabled_tokens cfg)" for t c
    using make_credential_cases [OF that(1), of at] that(2) digest_eq [OF assms(2)] by (auto simp: entry_authenticates_def)
  have scopes: "set (tk_scopes t) \<noteq> {} \<and> ''*'' \<notin> set (tk_acl t) \<and> set (tk_scopes t) \<subseteq> {''query'', ''status'', ''admin'', ''memory''}"
    if "entry_authenticates env cfg token at t" for t
    using cfg(3) [of t] that by (auto simp: entry_authenticates_def enabled_tokens_def scope_defs)
  have "\<exists>t. ?entry t" if ?left
  proof -
    from that obtain c where c: "c \<in> set policy" "constant_time_eq (ae_sha256 env token) (cr_digest c)"
      "case cr_expires c of None \<Rightarrow> True | Some expiry \<Rightarrow> at < expiry" "p = cr_principal c"
      unfolding authenticate_iff [OF assms] by blast
    obtain t where t: "t \<in> set (enabled_tokens cfg)" "make_credential env cfg t = Inr c"
      using list_all2_members(1) [OF cfg(1) c(1)] by blast
    have "entry_authenticates env cfg token at t" using match [OF t(2,1)] c(2,3) by blast
    then show ?thesis using make_credential_cases [OF t(2)] c(4) scopes by auto
  qed
  moreover have ?left if "?entry t" for t
  proof -
    from that have en: "t \<in> set (enabled_tokens cfg)" by (simp add: entry_authenticates_def)
    obtain c where c: "c \<in> set policy" "make_credential env cfg t = Inr c"
      using list_all2_members(2) [OF cfg(1) en] by blast
    then show ?thesis
      unfolding authenticate_iff [OF assms] using match [OF c(2) en] make_credential_cases [OF c(2)] that by auto
  qed
  ultimately show ?thesis by blast
qed

definition ex_auth_env :: auth_env where
  "ex_auth_env = \<lparr>ae_sha256 = (\<lambda>s. replicate 32 (of_nat (length s))), ae_parse = (\<lambda>_. Some 5),
     ae_value = (\<lambda>_. Some ''secret'')\<rparr>"

definition ex_auth :: "string list \<Rightarrow> auth_config" where
  "ex_auth disabled = \<lparr>ac_tokens = [\<lparr>tk_principal = ''reader'', tk_env = ''T'', tk_scopes = [''query''], tk_acl = [''p'']\<rparr>],
     ac_disabled = disabled, ac_expiry = []\<rparr>"

lemma ex_auth_policy: "\<exists>c. from_config ex_auth_env (ex_auth []) = Inr [c]"
  by (simp add: from_config_def ex_auth_def ex_auth_env_def check_token_def ensure_def Let_def make_credential_def
      token_expiry_def ok_or_def scope_defs text_eval)

theorem authentication_is_sound_witness:
  "\<exists>policy p. from_config ex_auth_env (ex_auth []) = Inr policy
     \<and> authenticate_at_time ex_auth_env policy ''secret'' 0 = Some p \<and> pr_name p = ''reader''"
proof -
  obtain policy where c: "from_config ex_auth_env (ex_auth []) = Inr policy" using ex_auth_policy by blast
  have l: "length (ae_sha256 ex_auth_env s) = 32" for s by (simp add: ex_auth_env_def)
  let ?p = "\<lparr>pr_name = ''reader'', pr_scopes = {''query''}, pr_acl = {''p''}\<rparr>"
  have "authenticate_at_time ex_auth_env policy ''secret'' 0 = Some ?p"
    unfolding authentication_is_sound [OF c l]
    by (simp add: entry_authenticates_def enabled_tokens_def ex_auth_def ex_auth_env_def)
  with c show ?thesis by (intro exI [of _ policy] exI [of _ ?p]) simp
qed

text \<open>
  Disabling every principal opens the door. A policy without credentials demands no token,
  and disabled principals leave no credential: when every configured principal is disabled, each
  request, with whatever header or none, is made by the local principal, which is an owner and
  sees every label.
\<close>

theorem disabling_all_principals_opens_access:
  assumes "from_config env cfg = Inr policy" "set (map tk_principal (ac_tokens cfg)) \<subseteq> set (ac_disabled cfg)"
  shows "http_principal env policy header now = Some (local_principal ''local-http'')
    \<and> is_owner (local_principal ''local-http'') \<and> visible_acl (local_principal ''local-http'') = [''*'']"
proof -
  have "enabled_tokens cfg = []" using assms(2) by (auto simp: enabled_tokens_def filter_empty_conv)
  with from_config_cases(1) [OF assms(1)] have "policy = []" by simp
  then show ?thesis
    by (simp add: http_principal_def requires_token_def local_principal_def is_owner_def has_scope_def visible_acl_def)
qed

theorem disabling_all_principals_opens_access_witness:
  "\<exists>before after. from_config ex_auth_env (ex_auth []) = Inr before
     \<and> http_principal ex_auth_env before None 0 = None
     \<and> from_config ex_auth_env (ex_auth [''reader'']) = Inr after
     \<and> http_principal ex_auth_env after None 0 = Some (local_principal ''local-http'')"
proof -
  obtain c where before: "from_config ex_auth_env (ex_auth []) = Inr [c]" using ex_auth_policy by blast
  have after: "from_config ex_auth_env (ex_auth [''reader'']) = Inr []"
    by (simp add: from_config_def ex_auth_def ex_auth_env_def check_token_def ensure_def Let_def scope_defs text_eval)
  have "set (map tk_principal (ac_tokens (ex_auth [''reader'']))) \<subseteq> set (ac_disabled (ex_auth [''reader'']))"
    by (simp add: ex_auth_def)
  from disabling_all_principals_opens_access [OF after this, of None 0]
  have "http_principal ex_auth_env [] None 0 = Some (local_principal ''local-http'')" by blast
  moreover have "http_principal ex_auth_env [c] None 0 = None"
    by (simp add: http_principal_def requires_token_def)
  ultimately show ?thesis using before after by blast
qed

end
