(* ===== verification/Relay.thy ===== *)
theory Relay
  imports Auth
begin

text \<open>
  The synchronisation relay (\<open>crates/server/src/relay.rs\<close>): mailboxes of sealed bundles, one per
  recipient, with a bound on their number, a retention time and an optional bearer token. The
  table \<open>relay_bundles\<close> is the list of its rows in the order of their keys; the key of a new row is
  the next of the sequence that AUTOINCREMENT keeps. Two texts of a time are parameters: the RFC 3339
  text the program writes and the text of SQLite's \<open>datetime\<close> it compares with.
\<close>

section \<open>State and requests\<close>

definition RELAY_CONTRACT :: string where "RELAY_CONTRACT = ''cortana.relay.v1''"
definition MAILBOX_BUNDLE_LIMIT :: nat where "MAILBOX_BUNDLE_LIMIT = 64"
definition BUNDLE_BYTE_LIMIT :: nat where "BUNDLE_BYTE_LIMIT = 8 * 1024 * 1024"
definition RETENTION_DAYS :: int where "RETENTION_DAYS = 14"

definition nanos_per_day :: int where "nanos_per_day = 86400 * 1000000000"

record relay_env =
  re_rfc3339 :: "int \<Rightarrow> string"
  re_datetime :: "int \<Rightarrow> string"

record relay_row =
  rr_id :: int
  rr_recipient :: string
  rr_bytes :: int
  rr_ciphertext :: string
  rr_created_at :: string

record relay_state =
  rl_rows :: "relay_row list"
  rl_next :: int
  rl_token :: "string option"

datatype relay_status = StUnauthorized | StBadRequest | StPayloadTooLarge | StNotFound

text \<open>\<open>header\<close> is the text of the authorization header, if there is one and it is printable.\<close>

definition byte_words :: "string \<Rightarrow> 8 word list" where
  "byte_words s = map (\<lambda>c. word_of_nat (byte c)) s"

definition relay_constant_time_eq :: "string \<Rightarrow> string \<Rightarrow> bool" where
  "relay_constant_time_eq left right =
     (if length left \<noteq> length right then False
      else fold (\<lambda>(a, b) diff. diff OR (a XOR b)) (zip (byte_words left) (byte_words right)) 0 = 0)"

definition relay_authorize :: "relay_state \<Rightarrow> string option \<Rightarrow> (relay_status, unit) result" where
  "relay_authorize st header = (case rl_token st of
       None \<Rightarrow> Inr ()
     | Some expected \<Rightarrow>
         (case Option.bind header (strip_prefix ''Bearer '') of
            Some token \<Rightarrow> if relay_constant_time_eq token expected then Inr () else Inl StUnauthorized
          | None \<Rightarrow> Inl StUnauthorized))"

section \<open>Operations\<close>

definition sweep_expired :: "relay_env \<Rightarrow> int \<Rightarrow> relay_state \<Rightarrow> relay_state" where
  "sweep_expired env now st = st\<lparr>rl_rows :=
     filter (\<lambda>r. \<not> rr_created_at r < re_datetime env (now - RETENTION_DAYS * nanos_per_day)) (rl_rows st)\<rparr>"

definition enforce_mailbox_bound :: "string \<Rightarrow> relay_state \<Rightarrow> relay_state \<times> nat" where
  "enforce_mailbox_bound recipient st =
     (let mine = filter (\<lambda>r. rr_recipient r = recipient) (rl_rows st); count = length mine in
      if count < MAILBOX_BUNDLE_LIMIT then (st, 0)
      else (let excess = count - MAILBOX_BUNDLE_LIMIT + 1;
                doomed = rr_id ` set (take excess (sort_key rr_id mine));
                kept = filter (\<lambda>r. rr_id r \<notin> doomed) (rl_rows st)
            in (st\<lparr>rl_rows := kept\<rparr>, length (rl_rows st) - length kept)))"

record upload_receipt =
  up_id :: int
  up_recipient :: string
  up_bytes :: nat
  up_sender :: "string option"

definition upload_bundle :: "relay_env \<Rightarrow> int \<Rightarrow> string option \<Rightarrow> string \<Rightarrow> string option \<Rightarrow> string
    \<Rightarrow> relay_state \<Rightarrow> relay_state \<times> (relay_status, upload_receipt) result" where
  "upload_bundle env now header recipient sender body st =
     (case relay_authorize st header of Inl e \<Rightarrow> (st, Inl e) | Inr _ \<Rightarrow>
      if trim recipient = [] \<or> 128 < length recipient then (st, Inl StBadRequest)
      else if body = [] \<or> BUNDLE_BYTE_LIMIT < length body then (st, Inl StPayloadTooLarge)
      else (let st1 = sweep_expired env now st;
                st2 = fst (enforce_mailbox_bound recipient st1);
                bid = rl_next st2;
                row = \<lparr>rr_id = bid, rr_recipient = recipient, rr_bytes = int (length body),
                  rr_ciphertext = body, rr_created_at = re_rfc3339 env now\<rparr>
            in (st2\<lparr>rl_rows := rl_rows st2 @ [row], rl_next := bid + 1\<rparr>,
                Inr \<lparr>up_id = bid, up_recipient = recipient, up_bytes = length body, up_sender = sender\<rparr>)))"

definition list_bundles :: "relay_env \<Rightarrow> int \<Rightarrow> string option \<Rightarrow> string \<Rightarrow> relay_state
    \<Rightarrow> relay_state \<times> (relay_status, (int \<times> int \<times> string) list) result" where
  "list_bundles env now header recipient st =
     (case relay_authorize st header of Inl e \<Rightarrow> (st, Inl e) | Inr _ \<Rightarrow>
      (let st = sweep_expired env now st in
       (st, Inr (map (\<lambda>r. (rr_id r, rr_bytes r, rr_created_at r))
          (sort_key rr_id (filter (\<lambda>r. rr_recipient r = recipient) (rl_rows st)))))))"

definition fetch_bundle :: "string option \<Rightarrow> string \<Rightarrow> int \<Rightarrow> relay_state \<Rightarrow> (relay_status, string) result" where
  "fetch_bundle header recipient bid st =
     bindE (relay_authorize st header) (\<lambda>_.
       case find (\<lambda>r. rr_recipient r = recipient \<and> rr_id r = bid) (rl_rows st) of
         Some r \<Rightarrow> Inr (rr_ciphertext r)
       | None \<Rightarrow> Inl StNotFound)"

definition delete_bundle :: "string option \<Rightarrow> string \<Rightarrow> int \<Rightarrow> relay_state
    \<Rightarrow> relay_state \<times> (relay_status, int) result" where
  "delete_bundle header recipient bid st =
     (case relay_authorize st header of Inl e \<Rightarrow> (st, Inl e) | Inr _ \<Rightarrow>
      (let kept = filter (\<lambda>r. \<not> (rr_recipient r = recipient \<and> rr_id r = bid)) (rl_rows st);
           removed = length (rl_rows st) - length kept
       in if removed = 0 then (st\<lparr>rl_rows := kept\<rparr>, Inl StNotFound)
          else (st\<lparr>rl_rows := kept\<rparr>, Inr bid)))"

definition open_relay :: "string option \<Rightarrow> relay_state" where
  "open_relay token = \<lparr>rl_rows = [], rl_next = 1, rl_token = token\<rparr>"

text \<open>The requests the router dispatches, with the state they leave.\<close>

datatype relay_request =
    Upload string "string option" string
  | ListMail string
  | Fetch string int
  | Delete string int

fun serve :: "relay_env \<Rightarrow> int \<Rightarrow> string option \<Rightarrow> relay_request \<Rightarrow> relay_state \<Rightarrow> relay_state" where
  "serve env now header (Upload c sender body) st = fst (upload_bundle env now header c sender body st)"
| "serve env now header (ListMail c) st = fst (list_bundles env now header c st)"
| "serve env now header (Fetch c i) st = st"
| "serve env now header (Delete c i) st = fst (delete_bundle header c i st)"

section \<open>Invariant\<close>

definition mailbox :: "relay_state \<Rightarrow> string \<Rightarrow> relay_row list" where
  "mailbox st c = filter (\<lambda>r. rr_recipient r = c) (rl_rows st)"

definition row_ok :: "int \<Rightarrow> relay_row \<Rightarrow> bool" where
  "row_ok n r \<longleftrightarrow> 1 \<le> rr_id r \<and> rr_id r < n \<and> rr_bytes r = int (length (rr_ciphertext r)) \<and> rr_ciphertext r \<noteq> []
     \<and> length (rr_ciphertext r) \<le> BUNDLE_BYTE_LIMIT \<and> trim (rr_recipient r) \<noteq> [] \<and> length (rr_recipient r) \<le> 128"

definition relay_inv :: "relay_state \<Rightarrow> bool" where
  "relay_inv st \<longleftrightarrow> 1 \<le> rl_next st \<and> sorted_wrt (<) (map rr_id (rl_rows st)) \<and> list_all (row_ok (rl_next st)) (rl_rows st)
     \<and> (\<forall>c. length (mailbox st c) \<le> MAILBOX_BUNDLE_LIMIT)"

definition relay_grows :: "relay_state \<Rightarrow> relay_state \<Rightarrow> bool" where
  "relay_grows st st' \<longleftrightarrow> rl_next st \<le> rl_next st' \<and> rl_token st' = rl_token st
     \<and> (\<forall>r\<in>set (rl_rows st'). r \<in> set (rl_rows st) \<or> rl_next st \<le> rr_id r)"

inductive relay_step :: "relay_state \<Rightarrow> relay_state \<Rightarrow> bool" where
  "relay_step st (serve env now header request st)"

definition relay_init :: "relay_state \<Rightarrow> bool" where
  "relay_init st \<longleftrightarrow> (\<exists>token. st = open_relay token)"

lemma sort_key_increasing: "sorted_wrt (<) (map rr_id rs) \<Longrightarrow> sort_key rr_id rs = rs"
  by (simp add: sort_key_id_if_sorted strict_sorted_iff)

lemma increasing_filter: "sorted_wrt (<) (map rr_id rs) \<Longrightarrow> sorted_wrt (<) (map rr_id (filter p rs))"
  by (simp add: sorted_wrt_map sorted_wrt_filter)

lemma increasing_distinct: "sorted_wrt (<) (map rr_id rs) \<Longrightarrow> distinct (map rr_id rs)"
  by (simp add: strict_sorted_iff)

text \<open>Removing rows keeps the invariant.\<close>

lemma relay_inv_filter:
  assumes "relay_inv st"
  shows "relay_inv (st\<lparr>rl_rows := filter p (rl_rows st)\<rparr>)"
proof -
  have "length (filter (\<lambda>r. rr_recipient r = c) (filter p (rl_rows st))) \<le> MAILBOX_BUNDLE_LIMIT" for c
    using assms length_filter_le [of p "mailbox st c"]
    by (auto simp: relay_inv_def mailbox_def conj_commute intro: le_trans)
  with assms show ?thesis
    by (auto simp: relay_inv_def mailbox_def increasing_filter list_all_iff)
qed

text \<open>The bound leaves of a mailbox its newest rows, and touches no other.\<close>

lemma enforce_rows:
  fixes c :: string
  assumes "relay_inv st"
  defines "st' \<equiv> fst (enforce_mailbox_bound c st)"
  shows "\<exists>p. st' = st\<lparr>rl_rows := filter p (rl_rows st)\<rparr>"
    and "mailbox st' d = (if d = c then drop (Suc (length (mailbox st c)) - MAILBOX_BUNDLE_LIMIT) (mailbox st c) else mailbox st d)"
proof -
  let ?mine = "mailbox st c"
  let ?n = "Suc (length ?mine) - MAILBOX_BUNDLE_LIMIT"
  let ?doomed = "rr_id ` set (take ?n ?mine)"
  have inc: "sorted_wrt (<) (map rr_id (rl_rows st))" using assms(1) by (simp add: relay_inv_def)
  then have sorted: "sort_key rr_id ?mine = ?mine" "distinct (map rr_id ?mine)"
    using increasing_filter sort_key_increasing increasing_distinct by (auto simp: mailbox_def)
  have eq: "st' = st\<lparr>rl_rows := filter (\<lambda>r. rr_id r \<notin> ?doomed) (rl_rows st)\<rparr>"
  proof (cases "length ?mine < MAILBOX_BUNDLE_LIMIT")
    case True
    then show ?thesis by (simp add: st'_def enforce_mailbox_bound_def Let_def mailbox_def)
  next
    case False
    then have "Suc (length ?mine) - MAILBOX_BUNDLE_LIMIT = length ?mine - MAILBOX_BUNDLE_LIMIT + 1" by simp
    with False show ?thesis
      using sorted(1) by (simp add: st'_def enforce_mailbox_bound_def Let_def mailbox_def)
  qed
  then show "\<exists>p. st' = st\<lparr>rl_rows := filter p (rl_rows st)\<rparr>" by blast
  have one: "rr_id r = rr_id q \<Longrightarrow> r = q" if "r \<in> set (rl_rows st)" "q \<in> set (rl_rows st)" for r q
    using increasing_distinct [OF inc] that by (metis distinct_map inj_onD)
  have mb: "mailbox st' d = filter (\<lambda>r. rr_id r \<notin> ?doomed) (mailbox st d)"
    by (simp add: eq mailbox_def conj_commute)
  show "mailbox st' d = (if d = c then drop ?n ?mine else mailbox st d)"
  proof (cases "d = c")
    case True
    then show ?thesis using mb filter_not_taken [OF sorted(2)] by simp
  next
    case False
    have "rr_id r \<notin> ?doomed" if "r \<in> set (mailbox st d)" for r
    proof
      assume "rr_id r \<in> ?doomed"
      then obtain q where "q \<in> set ?mine" "rr_id r = rr_id q" by (auto dest: in_set_takeD)
      with one [of r q] that False show False by (auto simp: mailbox_def)
    qed
    then show ?thesis using mb False by (auto simp: filter_id_conv)
  qed
qed

lemma sweep_rows: "mailbox (sweep_expired env now st) d
    = filter (\<lambda>r. \<not> rr_created_at r < re_datetime env (now - RETENTION_DAYS * nanos_per_day)) (mailbox st d)"
  by (simp add: mailbox_def sweep_expired_def conj_commute)

lemma sweep_fields [simp]: "rl_next (sweep_expired env now st) = rl_next st" "rl_token (sweep_expired env now st) = rl_token st"
  by (simp_all add: sweep_expired_def)

lemma enforce_fields [simp]: "rl_next (fst (enforce_mailbox_bound c st)) = rl_next st"
  "rl_token (fst (enforce_mailbox_bound c st)) = rl_token st"
  "set (rl_rows (fst (enforce_mailbox_bound c st))) \<subseteq> set (rl_rows st)"
  by (auto simp: enforce_mailbox_bound_def Let_def)

section \<open>Mailboxes\<close>

text \<open>
  What the relay promises, over mailboxes: an accepted upload appends a row to the mailbox of its
  recipient, which keeps its newest 64 rows, uploads and listings drop the expired rows of every
  mailbox, and a deletion removes one row.
\<close>

definition acceptable :: "string \<Rightarrow> string \<Rightarrow> bool" where
  "acceptable c body \<longleftrightarrow> trim c \<noteq> [] \<and> length c \<le> 128 \<and> body \<noteq> [] \<and> length body \<le> BUNDLE_BYTE_LIMIT"

definition fresh :: "relay_env \<Rightarrow> int \<Rightarrow> relay_row \<Rightarrow> bool" where
  "fresh env now r \<longleftrightarrow> \<not> rr_created_at r < re_datetime env (now - RETENTION_DAYS * nanos_per_day)"

definition new_row :: "relay_env \<Rightarrow> int \<Rightarrow> int \<Rightarrow> string \<Rightarrow> string \<Rightarrow> relay_row" where
  "new_row env now n c body = \<lparr>rr_id = n, rr_recipient = c, rr_bytes = int (length body), rr_ciphertext = body,
     rr_created_at = re_rfc3339 env now\<rparr>"

fun mail_step :: "relay_env \<Rightarrow> int \<Rightarrow> int \<Rightarrow> relay_request \<Rightarrow> (string \<Rightarrow> relay_row list) \<Rightarrow> string \<Rightarrow> relay_row list" where
  "mail_step env now n (Upload c sender body) m = (if acceptable c body
     then (\<lambda>d. filter (fresh env now) (m d))(c := push_bounded MAILBOX_BUNDLE_LIMIT (new_row env now n c body)
       (filter (fresh env now) (m c))) else m)"
| "mail_step env now n (ListMail c) m = (\<lambda>d. filter (fresh env now) (m d))"
| "mail_step env now n (Fetch c i) m = m"
| "mail_step env now n (Delete c i) m = m(c := filter (\<lambda>r. rr_id r \<noteq> i) (m c))"

text \<open>The state an accepted upload leaves.\<close>

lemma upload_accepted:
  assumes "relay_authorize st header = Inr ()" "acceptable c body"
  shows "upload_bundle env now header c sender body st =
    (let st2 = fst (enforce_mailbox_bound c (sweep_expired env now st)) in
      (st2\<lparr>rl_rows := rl_rows st2 @ [new_row env now (rl_next st) c body], rl_next := rl_next st + 1\<rparr>,
       Inr \<lparr>up_id = rl_next st, up_recipient = c, up_bytes = length body, up_sender = sender\<rparr>))"
  using assms by (simp add: upload_bundle_def acceptable_def new_row_def Let_def)

lemma upload_refused:
  assumes "relay_authorize st header = Inr ()" "\<not> acceptable c body"
  shows "fst (upload_bundle env now header c sender body st) = st"
  using assms by (auto simp: upload_bundle_def acceptable_def)

lemma serve_mailbox:
  assumes "relay_inv st" "relay_authorize st header = Inr ()"
  shows "mailbox (serve env now header request st) = mail_step env now (rl_next st) request (mailbox st)"
proof
  fix d
  show "mailbox (serve env now header request st) d = mail_step env now (rl_next st) request (mailbox st) d"
  proof (cases request)
    case (Upload c sender body)
    show ?thesis
    proof (cases "acceptable c body")
      case True
      let ?st1 = "sweep_expired env now st"
      have inv: "relay_inv ?st1" using relay_inv_filter [OF assms(1)] by (simp add: sweep_expired_def)
      have sw: "mailbox ?st1 e = filter (fresh env now) (mailbox st e)" for e
        by (simp add: sweep_rows fresh_def [abs_def])
      have "mailbox (serve env now header request st) d = mailbox (fst (enforce_mailbox_bound c ?st1)) d
          @ (if d = c then [new_row env now (rl_next st) c body] else [])"
        using upload_accepted [OF assms(2) True] by (simp add: Upload Let_def mailbox_def new_row_def)
      then show ?thesis
        using enforce_rows(2) [OF inv, of c d] True by (simp add: Upload sw push_bounded_def)
    next
      case False
      then show ?thesis using upload_refused [OF assms(2)] by (simp add: Upload)
    qed
  next
    case (ListMail c)
    then show ?thesis using assms(2) by (simp add: list_bundles_def Let_def sweep_rows fresh_def [abs_def])
  next
    case (Delete c i)
    then show ?thesis using assms(2)
      by (auto simp: delete_bundle_def Let_def mailbox_def intro: filter_cong)
  qed simp
qed

lemma unauthorized_serve: "relay_authorize st header \<noteq> Inr () \<Longrightarrow> serve env now header request st = st"
  by (cases request; cases "relay_authorize st header") (auto simp: upload_bundle_def list_bundles_def delete_bundle_def)

text \<open>Apart from an accepted upload a request only filters the rows.\<close>

lemma serve_filters:
  assumes "\<And>c sender body. request = Upload c sender body \<Longrightarrow> \<not> (acceptable c body \<and> relay_authorize st header = Inr ())"
  shows "\<exists>p. serve env now header request st = st\<lparr>rl_rows := filter p (rl_rows st)\<rparr>"
proof -
  have keep: "\<exists>p. st = st\<lparr>rl_rows := filter p (rl_rows st)\<rparr>" by (intro exI [of _ "\<lambda>_. True"]) simp
  show ?thesis
  proof (cases "relay_authorize st header = Inr ()")
    case False
    then show ?thesis using keep unauthorized_serve by simp
  next
    case True
    show ?thesis
    proof (cases request)
      case (Upload c sender body)
      then show ?thesis using assms True keep upload_refused by simp
    next
      case (ListMail c)
      with True show ?thesis by (auto simp: list_bundles_def Let_def sweep_expired_def)
    next
      case (Delete c i)
      with True show ?thesis by (auto simp: delete_bundle_def Let_def)
    qed (use keep in simp)
  qed
qed

text \<open>An accepted upload keeps the invariant, and everything only grows.\<close>

lemma upload_inv_grows:
  fixes env :: relay_env and now :: int and sender :: "string option"
  assumes "relay_inv st" "acceptable c body" "relay_authorize st header = Inr ()"
  defines "st' \<equiv> fst (upload_bundle env now header c sender body st)"
  shows "relay_inv st' \<and> relay_grows st st'"
proof -
  let ?st1 = "sweep_expired env now st"
  let ?st2 = "fst (enforce_mailbox_bound c ?st1)"
  have st': "st' = ?st2\<lparr>rl_rows := rl_rows ?st2 @ [new_row env now (rl_next st) c body], rl_next := rl_next st + 1\<rparr>"
    using upload_accepted [OF assms(3,2)] by (simp add: st'_def Let_def)
  have i1: "relay_inv ?st1" using relay_inv_filter [OF assms(1)] by (simp add: sweep_expired_def)
  then have i2: "relay_inv ?st2" using enforce_rows(1) relay_inv_filter by metis
  have sub: "set (rl_rows ?st2) \<subseteq> set (rl_rows st)"
    using enforce_fields(3) [of c ?st1] by (auto simp: sweep_expired_def)
  have ok: "row_ok (rl_next st + 1) (new_row env now (rl_next st) c body)"
    using assms(1,2) by (simp add: row_ok_def new_row_def acceptable_def relay_inv_def)
  have "mailbox st' d = mail_step env now (rl_next st) (Upload c sender body) (mailbox st) d" for d
    using serve_mailbox [OF assms(1,3), of env now "Upload c sender body"] by (simp add: st'_def)
  moreover have "length (filter q (mailbox st d)) \<le> MAILBOX_BUNDLE_LIMIT" for q d
    using assms(1) by (auto simp: relay_inv_def intro: le_trans [OF length_filter_le])
  ultimately have "length (mailbox st' d) \<le> MAILBOX_BUNDLE_LIMIT" for d
    using assms(2) by (simp add: MAILBOX_BUNDLE_LIMIT_def length_push_bounded)
  moreover have "sorted_wrt (<) (map rr_id (rl_rows st'))" "list_all (row_ok (rl_next st')) (rl_rows st')"
    using i2 ok by (auto simp: st' relay_inv_def sorted_wrt_append list_all_iff new_row_def row_ok_def)
  moreover have "1 \<le> rl_next st'" using assms(1) by (simp add: st' relay_inv_def)
  moreover have "relay_grows st st'" using sub by (auto simp: relay_grows_def st' new_row_def)
  ultimately show ?thesis by (simp add: relay_inv_def)
qed

lemma relay_step_inv_grows: "relay_inv st \<Longrightarrow> relay_step st st' \<Longrightarrow> relay_inv st' \<and> relay_grows st st'"
proof (elim relay_step.cases)
  fix env now header request st0
  assume *: "relay_inv st" "st = st0" "st' = serve env now header request st0"
  show "relay_inv st' \<and> relay_grows st st'"
  proof (cases "\<exists>c sender body. request = Upload c sender body \<and> acceptable c body \<and> relay_authorize st header = Inr ()")
    case True
    with * upload_inv_grows show ?thesis by auto
  next
    case False
    then obtain p where "st' = st\<lparr>rl_rows := filter p (rl_rows st)\<rparr>"
      using serve_filters [of request st header env now] * by auto
    with *(1) relay_inv_filter show ?thesis by (auto simp: relay_grows_def)
  qed
qed

interpretation rl: stepwise relay_init relay_step relay_inv relay_grows
proof unfold_locales
  show "relay_inv st" if "relay_init st" for st
    using that by (auto simp: relay_init_def relay_inv_def open_relay_def mailbox_def)
qed (auto dest: relay_step_inv_grows, auto simp: relay_grows_def)

lemma serve_reachable: "reachable relay_init relay_step st \<Longrightarrow> reachable relay_init relay_step (serve env now header request st)"
  by (rule reachable_step) (auto intro: relay_step.intros)

section \<open>Properties\<close>

lemma strip_prefix_iff: "strip_prefix p h = Some t \<longleftrightarrow> h = p @ t"
  by (auto simp: strip_prefix_def starts_with_iff)

text \<open>Only the right token opens the relay.\<close>

lemma relay_authorize_iff:
  "relay_authorize st header = Inr () \<longleftrightarrow>
     (case rl_token st of None \<Rightarrow> True | Some t \<Rightarrow> header = Some (''Bearer '' @ t))"
proof -
  have words: "byte_words a = byte_words b \<longleftrightarrow> a = b" for a b
  proof -
    have "inj (\<lambda>c. word_of_nat (byte c) :: 8 word)"
    proof (rule injI)
      fix c d assume "(word_of_nat (byte c) :: 8 word) = word_of_nat (byte d)"
      moreover have "unat (word_of_nat (byte e) :: 8 word) = byte e" for e
        by (simp add: unat_of_nat take_bit_nat_eq_self byte_def)
      ultimately have "byte c = byte d" by metis
      then show "c = d" by (simp add: byte_def)
    qed
    then show ?thesis by (simp add: byte_words_def inj_map_eq_map)
  qed
  have same: "relay_constant_time_eq a b \<longleftrightarrow> a = b" for a b
  proof (cases "length a = length b")
    case True
    then have "relay_constant_time_eq a b \<longleftrightarrow> constant_time_eq (byte_words a) (byte_words b)"
      by (simp add: relay_constant_time_eq_def constant_time_eq_def)
    then show ?thesis using True words by (simp add: constant_time_eq_iff byte_words_def)
  qed (auto simp: relay_constant_time_eq_def)
  have "Option.bind header (strip_prefix ''Bearer '') = Some t \<longleftrightarrow> header = Some (''Bearer '' @ t)" for t
    by (cases header) (simp_all add: strip_prefix_iff)
  then show ?thesis
    by (cases "Option.bind header (strip_prefix ''Bearer '')") (auto simp: relay_authorize_def same split: option.splits)
qed

lemma find_conj: "find (\<lambda>r. p r \<and> q r) xs = find q (filter p xs)"
  by (induction xs) auto

lemma sort_mailbox: "relay_inv st \<Longrightarrow> sort_key rr_id (mailbox st c) = mailbox st c"
  by (auto simp: relay_inv_def mailbox_def intro: sort_key_increasing increasing_filter)

text \<open>
  C18. The relay is a family of mailboxes. In every reachable state a request with the right token, or
  any request when there is none, changes the mailboxes as they promise and reads from them: a
  listing gives the rows that are left, oldest first, a fetch the bundle with that key, an upload
  the key of its new row. A request without the token is refused and changes nothing.
\<close>

theorem relay_refines_mailboxes:
  assumes "reachable relay_init relay_step st"
  shows "if (case rl_token st of None \<Rightarrow> True | Some t \<Rightarrow> header = Some (''Bearer '' @ t))
    then mailbox (serve env now header request st) = mail_step env now (rl_next st) request (mailbox st)
      \<and> snd (list_bundles env now header c st) = Inr (map (\<lambda>r. (rr_id r, rr_bytes r, rr_created_at r))
          (mail_step env now (rl_next st) (ListMail c) (mailbox st) c))
      \<and> fetch_bundle header c i st = (case find (\<lambda>r. rr_id r = i) (mailbox st c) of
          Some r \<Rightarrow> Inr (rr_ciphertext r) | None \<Rightarrow> Inl StNotFound)
      \<and> (snd (upload_bundle env now header c sender body st) = Inr \<lparr>up_id = rl_next st, up_recipient = c,
          up_bytes = length body, up_sender = sender\<rparr> \<longleftrightarrow> acceptable c body)
      \<and> (snd (delete_bundle header c i st) = Inr i \<longleftrightarrow> i \<in> rr_id ` set (mailbox st c))
    else serve env now header request st = st
      \<and> snd (upload_bundle env now header c sender body st) = Inl StUnauthorized
      \<and> snd (list_bundles env now header c st) = Inl StUnauthorized
      \<and> fetch_bundle header c i st = Inl StUnauthorized
      \<and> snd (delete_bundle header c i st) = Inl StUnauthorized"
proof -
  have inv: "relay_inv st" using assms by (rule rl.always_inv)
  show ?thesis
  proof (cases "relay_authorize st header = Inr ()")
    case True
    have i1: "relay_inv (sweep_expired env now st)" using relay_inv_filter [OF inv] by (simp add: sweep_expired_def)
    have "mailbox (sweep_expired env now st) c = filter (fresh env now) (mailbox st c)"
      by (simp add: sweep_rows fresh_def [abs_def])
    with sort_mailbox [OF i1, of c] have "snd (list_bundles env now header c st)
        = Inr (map (\<lambda>r. (rr_id r, rr_bytes r, rr_created_at r)) (filter (fresh env now) (mailbox st c)))"
      using True by (simp add: list_bundles_def Let_def mailbox_def [symmetric])
    moreover have "snd (upload_bundle env now header c sender body st) = Inr \<lparr>up_id = rl_next st, up_recipient = c,
        up_bytes = length body, up_sender = sender\<rparr> \<longleftrightarrow> acceptable c body"
      using True upload_accepted [OF True] by (cases "acceptable c body") (auto simp: Let_def upload_bundle_def acceptable_def)
    moreover have "fetch_bundle header c i st = (case find (\<lambda>r. rr_id r = i) (mailbox st c) of
        Some r \<Rightarrow> Inr (rr_ciphertext r) | None \<Rightarrow> Inl StNotFound)"
      using True by (simp add: fetch_bundle_def find_conj mailbox_def)
    moreover have "snd (delete_bundle header c i st) = Inr i \<longleftrightarrow> i \<in> rr_id ` set (mailbox st c)"
    proof -
      let ?p = "\<lambda>r. rr_recipient r = c \<and> rr_id r = i"
      have "length (rl_rows st) - length (filter (\<lambda>r. \<not> ?p r) (rl_rows st)) = length (filter ?p (rl_rows st))"
        using sum_length_filter_compl [of ?p "rl_rows st"] by linarith
      moreover have "filter ?p (rl_rows st) = [] \<longleftrightarrow> i \<notin> rr_id ` set (mailbox st c)"
        by (auto simp: mailbox_def filter_empty_conv)
      ultimately show ?thesis using True by (simp add: delete_bundle_def Let_def del: de_Morgan_conj diff_is_0_eq diff_is_0_eq')
    qed
    ultimately show ?thesis using True serve_mailbox [OF inv True] by (simp add: relay_authorize_iff)
  next
    case False
    then have e: "relay_authorize st header = Inl StUnauthorized"
      by (auto simp: relay_authorize_def split: option.splits if_splits)
    have no: "\<not> (case rl_token st of None \<Rightarrow> True | Some t \<Rightarrow> header = Some (''Bearer '' @ t))"
      using False unfolding relay_authorize_iff .
    show ?thesis unfolding if_not_P [OF no]
      using e unauthorized_serve [OF False] by (simp add: upload_bundle_def list_bundles_def fetch_bundle_def delete_bundle_def)
  qed
qed

theorem relay_refines_mailboxes_witness:
  "fetch_bundle (Some ''Bearer s'') ''tablet'' 1 (open_relay (Some ''s'')) = Inl StNotFound
   \<and> fetch_bundle (Some ''Bearer t'') ''tablet'' 1 (open_relay (Some ''s'')) = Inl StUnauthorized"
proof -
  have start: "reachable relay_init relay_step (open_relay (Some ''s''))"
    by (rule reachable_start) (auto simp: relay_init_def)
  have "rl_token (open_relay (Some ''s'')) = Some ''s''" "mailbox (open_relay (Some ''s'')) c = []" for c
    by (simp_all add: open_relay_def mailbox_def)
  then show ?thesis
    using relay_refines_mailboxes [OF start, where header = "Some ''Bearer s''" and c = "''tablet''" and i = 1]
      relay_refines_mailboxes [OF start, where header = "Some ''Bearer t''" and c = "''tablet''" and i = 1] by simp
qed

text \<open>A sequence of requests, each with its time and header.\<close>

fun serve_all :: "relay_env \<Rightarrow> (int \<times> string option \<times> relay_request) list \<Rightarrow> relay_state \<Rightarrow> relay_state" where
  "serve_all env [] st = st"
| "serve_all env ((now, header, request) # requests) st = serve_all env requests (serve env now header request st)"

definition is_upload_to :: "string \<Rightarrow> int \<times> string option \<times> relay_request \<Rightarrow> bool" where
  "is_upload_to c q = (case snd (snd q) of Upload d _ _ \<Rightarrow> d = c | _ \<Rightarrow> False)"

lemma serve_keeps:
  assumes "relay_inv st" "mailbox st c = u @ r # v" "fresh env now r" "request \<noteq> Delete c (rr_id r)"
    "length v + (if is_upload_to c (now, header, request) then 1 else 0) < MAILBOX_BUNDLE_LIMIT"
  shows "\<exists>u' v'. mailbox (serve env now header request st) c = u' @ r # v'
    \<and> length v' \<le> length v + (if is_upload_to c (now, header, request) then 1 else 0)"
proof (cases "relay_authorize st header = Inr ()")
  case False
  with assms(2) show ?thesis
    using unauthorized_serve [OF False] by (intro exI [of _ u] exI [of _ v]) simp
next
  case True
  have kept: "filter (fresh env now) (mailbox st c) = filter (fresh env now) u @ r # filter (fresh env now) v"
    using assms(2,3) by simp
  note step = serve_mailbox [OF assms(1) True, of env now request]
  have fin: ?thesis if "mailbox (serve env now header request st) c = u0 @ r # filter p v" for u0 p
    unfolding that by (intro exI [of _ u0] exI [of _ "filter p v"]) (simp add: le_trans [OF length_filter_le])
  show ?thesis
  proof (cases request)
    case (Upload d sender body)
    show ?thesis
    proof (cases "acceptable d body \<and> d = c")
      case True
      then have "length v + 1 < MAILBOX_BUNDLE_LIMIT" using assms(5) Upload by (simp add: is_upload_to_def)
      then have "length (r # filter (fresh env now) v) < MAILBOX_BUNDLE_LIMIT"
        using length_filter_le [of "fresh env now" v] unfolding length_Cons by linarith
      from push_bounded_keeps [OF this, of "new_row env now (rl_next st) c body" "filter (fresh env now) u"]
      obtain u' where w: "push_bounded MAILBOX_BUNDLE_LIMIT (new_row env now (rl_next st) c body)
          (filter (fresh env now) u @ r # filter (fresh env now) v)
          = u' @ (r # filter (fresh env now) v) @ [new_row env now (rl_next st) c body]" .
      have "mailbox (serve env now header request st) c
          = push_bounded MAILBOX_BUNDLE_LIMIT (new_row env now (rl_next st) c body) (filter (fresh env now) (mailbox st c))"
        using step conjunct1 [OF True] conjunct2 [OF True] by (simp add: Upload del: serve.simps)
      then have "mailbox (serve env now header request st) c
          = u' @ r # (filter (fresh env now) v @ [new_row env now (rl_next st) c body])"
        unfolding kept w by simp
      then show ?thesis using True Upload
        by (intro exI [of _ u'] exI [of _ "filter (fresh env now) v @ [new_row env now (rl_next st) c body]"])
          (simp add: is_upload_to_def del: serve.simps)
    next
      case False
      then have "mailbox (serve env now header request st) c
          = (if acceptable d body then filter (fresh env now) u else u)
            @ r # filter (\<lambda>q. acceptable d body \<longrightarrow> fresh env now q) v"
        using step kept assms(2) by (cases "acceptable d body") (simp_all add: Upload del: serve.simps)
      then show ?thesis by (rule fin)
    qed
  next
    case (ListMail d)
    then have "mailbox (serve env now header request st) c = filter (fresh env now) u @ r # filter (fresh env now) v"
      using step kept by simp
    then show ?thesis by (rule fin)
  next
    case (Fetch d i)
    then have "mailbox (serve env now header request st) c = u @ r # filter (\<lambda>_. True) v" using assms(2) by simp
    then show ?thesis by (rule fin)
  next
    case (Delete d i)
    show ?thesis
    proof (cases "d = c")
      case True
      with step assms(2,4) Delete have "mailbox (serve env now header request st) c
          = filter (\<lambda>q. rr_id q \<noteq> i) u @ r # filter (\<lambda>q. rr_id q \<noteq> i) v" by (simp del: serve.simps)
      then show ?thesis by (rule fin)
    next
      case False
      with step assms(2) Delete have "mailbox (serve env now header request st) c = u @ r # filter (\<lambda>_. True) v"
        by (simp del: serve.simps)
      then show ?thesis by (rule fin)
    qed
  qed
qed

lemma serve_all_keeps:
  assumes "relay_inv st" "mailbox st c = u @ r # v" "length v + length (filter (is_upload_to c) requests) < MAILBOX_BUNDLE_LIMIT"
    "\<And>now header request. (now, header, request) \<in> set requests \<Longrightarrow> fresh env now r \<and> request \<noteq> Delete c (rr_id r)"
  shows "relay_inv (serve_all env requests st) \<and> r \<in> set (mailbox (serve_all env requests st) c)"
  using assms
proof (induction requests arbitrary: st u v)
  case (Cons q requests)
  obtain now header request where q: "q = (now, header, request)" by (cases q)
  have step: "relay_step st (serve env now header request st)" by (rule relay_step.intros)
  then have inv: "relay_inv (serve env now header request st)" using relay_step_inv_grows Cons.prems(1) by blast
  have q_ok: "fresh env now r" "request \<noteq> Delete c (rr_id r)" using Cons.prems(4) [of now header request] by (simp_all add: q)
  have "length v + (if is_upload_to c (now, header, request) then 1 else 0) < MAILBOX_BUNDLE_LIMIT"
    using Cons.prems(3) by (auto simp: q split: if_splits)
  from serve_keeps [OF Cons.prems(1,2) q_ok this] obtain u' v' where
    m: "mailbox (serve env now header request st) c = u' @ r # v'"
    and le: "length v' \<le> length v + (if is_upload_to c (now, header, request) then 1 else 0)" by blast
  have "length v' + length (filter (is_upload_to c) requests) < MAILBOX_BUNDLE_LIMIT"
    using le Cons.prems(3) by (auto simp: q split: if_splits)
  moreover have "fresh env now1 r \<and> request1 \<noteq> Delete c (rr_id r)" if "(now1, h1, request1) \<in> set requests" for now1 h1 request1
    using Cons.prems(4) [of now1 h1 request1] that by simp
  ultimately show ?case using Cons.IH [OF inv m] by (simp add: q)
qed simp

text \<open>
  Texts that begin alike: the order of two texts is that of their first bytes, and after equal
  ones a capital T follows a blank.
\<close>

lemma append_less_iff: "length a = length b \<Longrightarrow> a @ x < b @ y \<longleftrightarrow> a < b \<or> a = b \<and> x < (y :: string)"
  by (induction a b rule: list_induct2) auto

lemma fresh_iff:
  assumes "\<And>t. re_rfc3339 env t = date t @ ''T'' @ time t" "\<And>t. re_datetime env t = date t @ '' '' @ time' t"
    "\<And>t. length (date t) = 10" "rr_created_at r = re_rfc3339 env t0"
  shows "fresh env now r \<longleftrightarrow> date (now - RETENTION_DAYS * nanos_per_day) \<le> date t0"
proof -
  have "\<not> CHR ''T'' < CHR '' ''" "CHR ''T'' \<noteq> CHR '' ''" by (simp_all add: less_char_def)
  then have "\<not> ''T'' @ x < '' '' @ y" for x y :: string by simp
  then have "re_rfc3339 env t0 < re_datetime env t \<longleftrightarrow> date t0 < date t" for t
    unfolding assms(1,2) using append_less_iff [of "date t0" "date t"] assms(3) by simp
  then show ?thesis by (simp add: fresh_def assms(4) not_less)
qed

text \<open>
  C19. A delivered bundle waits for its recipient. For the two texts of a time as the RFC and SQLite
  write them (a date of ten characters, which never goes back, followed by a T or by a blank):
  when a reachable relay has answered an upload with a key, then after any requests within
  14 days, of which fewer than 64 are uploads to the same recipient and none deletes that key,
  a fetch by that recipient and key gives exactly the bundle that was uploaded.
\<close>

theorem uploaded_bundle_is_kept:
  assumes "reachable relay_init relay_step st"
    and "upload_bundle env t0 header c sender body st = (st0, Inr receipt)"
    and "\<And>t. re_rfc3339 env t = date t @ ''T'' @ time t" "\<And>t. re_datetime env t = date t @ '' '' @ time' t"
    and "\<And>t. length (date t) = 10" "\<And>t t'. t \<le> t' \<Longrightarrow> date t \<le> date t'"
    and "list_all (\<lambda>(now, h, request). now \<le> t0 + 14 * nanos_per_day \<and> request \<noteq> Delete c (up_id receipt)) requests"
    and "length (filter (is_upload_to c) requests) < 64"
    and "relay_authorize (serve_all env requests st0) header' = Inr ()"
  shows "fetch_bundle header' c (up_id receipt) (serve_all env requests st0) = Inr body"
proof -
  have inv: "relay_inv st" using assms(1) by (rule rl.always_inv)
  have auth: "relay_authorize st header = Inr ()" and acc: "acceptable c body"
    using assms(2) by (auto simp: upload_bundle_def acceptable_def split: sum.splits if_splits)
  let ?r = "new_row env t0 (rl_next st) c body"
  have id: "up_id receipt = rr_id ?r" using assms(2) upload_accepted [OF auth acc] by (auto simp: Let_def new_row_def)
  have st0: "st0 = serve env t0 header (Upload c sender body) st" using assms(2) by simp
  then have "mailbox st0 c = push_bounded MAILBOX_BUNDLE_LIMIT ?r (filter (fresh env t0) (mailbox st c))"
    using serve_mailbox [OF inv auth, of env t0 "Upload c sender body"] acc by (simp del: serve.simps)
  then obtain u where m: "mailbox st0 c = u @ ?r # []" by (auto simp: push_bounded_def)
  have "relay_inv st0" unfolding st0 using relay_step_inv_grows [OF inv relay_step.intros] by blast
  moreover have "fresh env now ?r \<and> request \<noteq> Delete c (rr_id ?r)" if "(now, h, request) \<in> set requests" for now h request
  proof -
    have *: "now - RETENTION_DAYS * nanos_per_day \<le> t0" "request \<noteq> Delete c (up_id receipt)"
      using assms(7) that by (auto simp: list_all_iff RETENTION_DAYS_def)
    have "rr_created_at ?r = re_rfc3339 env t0" by (simp add: new_row_def)
    from fresh_iff [OF assms(3-5) this] *(1) assms(6) *(2) id show ?thesis by simp
  qed
  ultimately have "relay_inv (serve_all env requests st0)" "?r \<in> set (mailbox (serve_all env requests st0) c)"
    using serve_all_keeps [OF _ m] assms(8) by (auto simp: MAILBOX_BUNDLE_LIMIT_def)
  moreover from this have "distinct (map rr_id (mailbox (serve_all env requests st0) c))"
    by (auto simp: relay_inv_def mailbox_def intro: increasing_distinct increasing_filter)
  ultimately have "find (\<lambda>r. rr_id r = up_id receipt) (mailbox (serve_all env requests st0) c) = Some ?r"
    using find_key_unique id by metis
  then show ?thesis using assms(9) by (simp add: fetch_bundle_def find_conj mailbox_def new_row_def)
qed

text \<open>Times whose dates are told apart by their day.\<close>

definition ex_date :: "int \<Rightarrow> string" where
  "ex_date t = replicate 9 (CHR ''0'') @ (if t < nanos_per_day then ''0'' else ''1'')"

definition ex_relay_env :: relay_env where
  "ex_relay_env = \<lparr>re_rfc3339 = \<lambda>t. ex_date t @ ''T00:00:00Z'', re_datetime = \<lambda>t. ex_date t @ '' 00:00:00''\<rparr>"

theorem uploaded_bundle_is_kept_witness:
  "\<exists>st0 st1. upload_bundle ex_relay_env 0 None ''tablet'' None ''sealed'' (open_relay None)
       = (st0, Inr \<lparr>up_id = 1, up_recipient = ''tablet'', up_bytes = 6, up_sender = None\<rparr>)
     \<and> st1 = serve_all ex_relay_env [(5, None, Upload ''tablet'' None ''other''), (6, None, ListMail ''tablet'')] st0
     \<and> fetch_bundle None ''tablet'' 1 st1 = Inr ''sealed''"
proof -
  have acc: "acceptable ''tablet'' ''sealed''" by (simp add: acceptable_def BUNDLE_BYTE_LIMIT_def text_eval)
  have auth: "relay_authorize (open_relay None) None = Inr ()" by (simp add: relay_authorize_def open_relay_def)
  let ?requests = "[(5, None, Upload ''tablet'' None ''other''), (6, None, ListMail ''tablet'')]"
  obtain st0 where up: "upload_bundle ex_relay_env 0 None ''tablet'' None ''sealed'' (open_relay None)
      = (st0, Inr \<lparr>up_id = 1, up_recipient = ''tablet'', up_bytes = 6, up_sender = None\<rparr>)"
    using upload_accepted [OF auth acc] by (simp add: Let_def open_relay_def)
  have start: "reachable relay_init relay_step (open_relay None)"
    by (rule reachable_start) (auto simp: relay_init_def)
  have "rl_token (serve_all ex_relay_env ?requests st0) = None"
  proof -
    have "relay_inv (open_relay None)" using start by (rule rl.always_inv)
    moreover have "st0 = serve ex_relay_env 0 None (Upload ''tablet'' None ''sealed'') (open_relay None)" using up by simp
    ultimately have "relay_inv st0" "rl_token st0 = None"
      using relay_step_inv_grows [OF _ relay_step.intros] by (auto simp: relay_grows_def open_relay_def simp del: serve.simps)
    then have "relay_inv (serve env now h q st0)" "rl_token (serve env now h q st0) = None" for env now h q
      using relay_step_inv_grows [OF _ relay_step.intros] by (auto simp: relay_grows_def)
    then show ?thesis
      using relay_step_inv_grows [OF _ relay_step.intros] by (auto simp: relay_grows_def simp del: serve.simps)
  qed
  then have "relay_authorize (serve_all ex_relay_env ?requests st0) None = Inr ()" by (simp add: relay_authorize_def)
  moreover have "ex_date t \<le> ex_date t'" if "t \<le> t'" for t t' using that by (auto simp: ex_date_def eval_nat_numeral less_eq_char_def)
  moreover have "length (ex_date t) = 10" for t by (simp add: ex_date_def)
  moreover have "length (filter (is_upload_to ''tablet'') ?requests) < 64" by (simp add: is_upload_to_def)
  ultimately have "fetch_bundle None ''tablet'' 1 (serve_all ex_relay_env ?requests st0) = Inr ''sealed''"
    using uploaded_bundle_is_kept [OF start up, where date = ex_date and requests = ?requests and header' = None
        and time = "\<lambda>_. ''00:00:00Z''" and time' = "\<lambda>_. ''00:00:00''"]
    by (simp add: ex_relay_env_def nanos_per_day_def del: serve_all.simps)
  with up show ?thesis by blast
qed

end
