(* ===== verification/SyncCommands.thy ===== *)
theory SyncCommands
  imports SyncBundle Relay
begin

text \<open>
  The synchronisation commands (\<open>manage_sync\<close> in \<open>src/main.rs\<close>): exporting the journal to a sealed
  bundle, importing one, and doing both through the mailboxes of a relay. They put together the
  identity, the journal and the relay. Reading and writing the bundle's file is left out, and the HTTP
  client of the relay is the relay's own operation.
\<close>

section \<open>Entries on the wire\<close>

definition in_i64 :: "int \<Rightarrow> bool" where
  "in_i64 z \<longleftrightarrow> - (2 ^ 63) \<le> z \<and> z < 2 ^ 63"

definition jint :: "int \<Rightarrow> json" where
  "jint z = JNumber (of_int z)"

text \<open>The derived serialisation of \<open>SyncEntry\<close>: an absent payload is skipped.\<close>

definition entry_json :: "sync_entry \<Rightarrow> json" where
  "entry_json e = JObject ([(''changed_at'', JString (se_changed_at e)), (''fingerprint'', JString (se_fingerprint e)),
     (''journal_id'', jint (se_journal_id e)), (''object_id'', JString (se_object e)),
     (''object_kind'', JString (se_kind e)), (''origin_device'', JString (se_origin e))]
     @ (case se_payload e of None \<Rightarrow> [] | Some p \<Rightarrow> [(''payload'', p)])
     @ [(''revision'', jint (se_revision e)), (''tombstone'', JBool (se_tombstone e))])"

definition as_bool :: "json \<Rightarrow> bool option" where
  "as_bool v = (case v of JBool b \<Rightarrow> Some b | _ \<Rightarrow> None)"

definition field :: "(json \<Rightarrow> 'a option) \<Rightarrow> string \<Rightarrow> (string \<times> json) list \<Rightarrow> 'a option" where
  "field read name m = Option.bind (map_of m name) read"

definition entry_of_json :: "json \<Rightarrow> sync_entry option" where
  "entry_of_json v = Option.bind (struct_fields [''journal_id'', ''object_kind'', ''object_id'', ''revision'', ''origin_device'',
       ''fingerprint'', ''tombstone'', ''changed_at'', ''payload''] v) (\<lambda>m.
     Option.bind (field as_i64 ''journal_id'' m) (\<lambda>journal_id.
     Option.bind (field as_str ''object_kind'' m) (\<lambda>kind.
     Option.bind (field as_str ''object_id'' m) (\<lambda>oid.
     Option.bind (field as_i64 ''revision'' m) (\<lambda>revision.
     Option.bind (field as_str ''origin_device'' m) (\<lambda>origin.
     Option.bind (field as_str ''fingerprint'' m) (\<lambda>fp.
     Option.bind (field as_bool ''tombstone'' m) (\<lambda>tombstone.
     Option.bind (field as_str ''changed_at'' m) (\<lambda>changed_at.
     Some \<lparr>se_journal_id = journal_id, se_kind = kind, se_object = oid, se_revision = revision, se_origin = origin,
       se_fingerprint = fp, se_tombstone = tombstone, se_changed_at = changed_at,
       se_payload = (case map_of m ''payload'' of Some JNull \<Rightarrow> None | p \<Rightarrow> p)\<rparr>)))))))))"

fun entries_of_json :: "json list \<Rightarrow> sync_entry list option" where
  "entries_of_json [] = Some []"
| "entries_of_json (v # vs) = Option.bind (entry_of_json v) (\<lambda>e. map_option ((#) e) (entries_of_json vs))"

section \<open>Commands\<close>

datatype command_error = IdentityError identity_error | SyncError sync_error | RelayError relay_status
  | NotInitialized | NoSender | PayloadNotJson | NoEntries | EntriesInvalid | NoWatermark

definition the_registry :: "identity_store \<Rightarrow> (command_error, registry) result" where
  "the_registry store = bindE (map_err IdentityError (load_registry store)) (\<lambda>r. ok_or r NotInitialized)"

text \<open>\<open>Export\<close> names the sender in the payload too, \<open>Push\<close> does not.\<close>

definition export_payload_json :: "sync_entry list \<Rightarrow> int \<Rightarrow> string option option \<Rightarrow> json" where
  "export_payload_json entries up_to sender = JObject ([(''entries'', JArray (map entry_json entries))]
     @ (case sender of None \<Rightarrow> [] | Some d \<Rightarrow> [(''sender_device'', case d of None \<Rightarrow> JNull | Some d \<Rightarrow> JString d)])
     @ [(''up_to_journal_id'', jint up_to)])"

definition make_bundle :: "crypto \<Rightarrow> identity_io \<Rightarrow> string \<Rightarrow> string \<Rightarrow> nat \<Rightarrow> bool \<Rightarrow> identity_store \<Rightarrow> (command_error, string) result" where
  "make_bundle cy io recovery peer limit name_sender store =
     bindE (the_registry store) (\<lambda>r.
     bindE (map_err SyncError (export_entries peer limit (id_sync store))) (\<lambda>(entries, up_to).
     let payload = export_payload_json entries up_to (if name_sender then Some (sy_self (id_sync store)) else None) in
     map_err IdentityError (seal_sync_bundle cy io recovery peer (cy_json cy payload) r store)))"

definition sync_export :: "crypto \<Rightarrow> identity_io \<Rightarrow> string \<Rightarrow> string \<Rightarrow> nat \<Rightarrow> identity_store \<Rightarrow> (command_error, string) result" where
  "sync_export cy io recovery peer limit store = make_bundle cy io recovery peer limit True store"

text \<open>What \<open>Import\<close> and \<open>Pull\<close> do with a bundle.\<close>

definition read_bundle :: "crypto \<Rightarrow> string \<Rightarrow> string \<Rightarrow> registry \<Rightarrow> identity_store
    \<Rightarrow> (command_error, string \<times> sync_entry list \<times> int \<times> int option) result" where
  "read_bundle cy recovery message r store =
     bindE (map_err IdentityError (open_sync_bundle cy recovery message r store)) (\<lambda>(header, payload_bytes).
     bindE (ok_or (get_str ''sender_device'' header) NoSender) (\<lambda>sender.
     bindE (ok_or (cy_parse cy payload_bytes) PayloadNotJson) (\<lambda>payload.
     bindE (ok_or (json_get ''entries'' payload) NoEntries) (\<lambda>entries_value.
     bindE (ok_or (case entries_value of JArray vs \<Rightarrow> entries_of_json vs | _ \<Rightarrow> None) EntriesInvalid) (\<lambda>entries.
     bindE (ok_or (get_i64 ''up_to_journal_id'' payload) NoWatermark) (\<lambda>up_to.
     Inr (sender, entries, up_to, get_i64 ''ack_for_peer'' header)))))))"

definition apply_bundle :: "crypto \<Rightarrow> sync_env \<Rightarrow> string \<Rightarrow> string \<Rightarrow> registry \<Rightarrow> identity_store
    \<Rightarrow> identity_store \<times> (command_error, apply_report) result" where
  "apply_bundle cy env recovery message r store =
     (case read_bundle cy recovery message r store of Inl e \<Rightarrow> (store, Inl e) | Inr (sender, entries, up_to, ack) \<Rightarrow>
       (case import_entries env sender entries up_to (id_sync store) of
          (st, Inl e) \<Rightarrow> (store\<lparr>id_sync := st\<rparr>, Inl (SyncError e))
        | (st, Inr report) \<Rightarrow>
            (store\<lparr>id_sync := (case ack of None \<Rightarrow> st | Some ack \<Rightarrow> acknowledge_peer env sender ack st)\<rparr>, Inr report)))"

definition sync_import :: "crypto \<Rightarrow> sync_env \<Rightarrow> string \<Rightarrow> string \<Rightarrow> identity_store
    \<Rightarrow> identity_store \<times> (command_error, apply_report) result" where
  "sync_import cy env recovery message store =
     (case the_registry store of Inl e \<Rightarrow> (store, Inl e) | Inr r \<Rightarrow> apply_bundle cy env recovery message r store)"

text \<open>The token of the client becomes a bearer header.\<close>

definition bearer :: "string option \<Rightarrow> string option" where
  "bearer token = map_option (\<lambda>t. ''Bearer '' @ t) token"

definition sync_push :: "crypto \<Rightarrow> identity_io \<Rightarrow> relay_env \<Rightarrow> int \<Rightarrow> string \<Rightarrow> string option \<Rightarrow> string \<Rightarrow> nat \<Rightarrow> identity_store
    \<Rightarrow> relay_state \<Rightarrow> relay_state \<times> (command_error, int) result" where
  "sync_push cy io renv now recovery token peer limit store relay =
     (case make_bundle cy io recovery peer limit False store of Inl e \<Rightarrow> (relay, Inl e) | Inr message \<Rightarrow>
       (case upload_bundle renv now (bearer token) peer None message relay of
          (relay1, Inl e) \<Rightarrow> (relay1, Inl (RelayError e))
        | (relay1, Inr receipt) \<Rightarrow> (relay1, Inr (up_id receipt))))"

fun pull_loop :: "crypto \<Rightarrow> sync_env \<Rightarrow> string \<Rightarrow> string option \<Rightarrow> string \<Rightarrow> registry \<Rightarrow> int list \<Rightarrow> identity_store \<times> relay_state
    \<Rightarrow> (identity_store \<times> relay_state) \<times> (command_error, unit) result" where
  "pull_loop cy env recovery token self r [] s = (s, Inr ())"
| "pull_loop cy env recovery token self r (bid # ids) (store, relay) =
     (case fetch_bundle (bearer token) self bid relay of Inl e \<Rightarrow> ((store, relay), Inl (RelayError e)) | Inr message \<Rightarrow>
       (case apply_bundle cy env recovery message r store of
          (store1, Inl e) \<Rightarrow> ((store1, relay), Inl e)
        | (store1, Inr _) \<Rightarrow>
            (case delete_bundle (bearer token) self bid relay of
               (relay1, Inl e) \<Rightarrow> ((store1, relay1), Inl (RelayError e))
             | (relay1, Inr _) \<Rightarrow> pull_loop cy env recovery token self r ids (store1, relay1))))"

definition sync_pull :: "crypto \<Rightarrow> sync_env \<Rightarrow> relay_env \<Rightarrow> int \<Rightarrow> string \<Rightarrow> string option \<Rightarrow> identity_store \<times> relay_state
    \<Rightarrow> (identity_store \<times> relay_state) \<times> (command_error, nat) result" where
  "sync_pull cy env renv now recovery token s = (case s of (store, relay) \<Rightarrow>
     (case the_registry store of Inl e \<Rightarrow> (s, Inl e) | Inr r \<Rightarrow>
     (case sy_self (id_sync store) of None \<Rightarrow> (s, Inl NotInitialized) | Some self \<Rightarrow>
     (case list_bundles renv now (bearer token) self relay of
        (relay1, Inl e) \<Rightarrow> ((store, relay1), Inl (RelayError e))
      | (relay1, Inr rows) \<Rightarrow>
          (case pull_loop cy env recovery token self r (map fst rows) (store, relay1) of
             (s2, Inl e) \<Rightarrow> (s2, Inl e)
           | (s2, Inr _) \<Rightarrow> (s2, Inr (length rows)))))))"

section \<open>The wire loses nothing\<close>

definition wire_ok :: "crypto \<Rightarrow> sync_entry \<Rightarrow> bool" where
  "wire_ok cy e \<longleftrightarrow> in_i64 (se_journal_id e) \<and> in_i64 (se_revision e) \<and> se_payload e \<noteq> Some JNull
     \<and> pred_option (canonical cy) (se_payload e)"

lemma as_i64_jint: "in_i64 z \<Longrightarrow> as_i64 (jint z) = Some z"
  by (simp add: as_i64_def jint_def in_i64_def)

lemma canonical_jint: "lawful cy \<Longrightarrow> in_i64 z \<Longrightarrow> canonical cy (jint z)"
  using lawfulD(12) [of cy z] by (simp add: jint_def in_i64_def)

lemma entry_roundtrip:
  assumes "wire_ok cy e"
  shows "entry_of_json (entry_json e) = Some e"
  using assms
  by (cases "se_payload e"; cases "the (se_payload e)")
    (simp_all add: wire_ok_def entry_of_json_def entry_json_def struct_fields_def field_def as_i64_jint as_str_def as_bool_def)

lemma entries_roundtrip: "list_all (wire_ok cy) es \<Longrightarrow> entries_of_json (map entry_json es) = Some es"
  by (induction es) (simp_all add: entry_roundtrip [of cy])

lemma entry_canonical:
  assumes "lawful cy" "wire_ok cy e"
  shows "canonical cy (entry_json e)"
  using assms canonical_jint [OF assms(1)]
  by (cases "se_payload e") (simp_all add: wire_ok_def entry_json_def less_char_def)

lemma payload_read:
  fixes sender :: "string option option"
  assumes "lawful cy" "list_all (wire_ok cy) es" "in_i64 up_to"
  defines "v \<equiv> export_payload_json es up_to sender"
  shows "cy_parse cy (cy_json cy v) = Some v" "json_get ''entries'' v = Some (JArray (map entry_json es))"
    "get_i64 ''up_to_journal_id'' v = Some up_to"
proof -
  have "list_all (canonical cy) (map entry_json es)"
    using assms(2) entry_canonical [OF assms(1)] by (auto simp: list_all_iff)
  then have "canonical cy v"
    using canonical_jint [OF assms(1,3)]
    by (cases sender; cases "the sender") (simp_all add: v_def export_payload_json_def less_char_def)
  then show "cy_parse cy (cy_json cy v) = Some v" using lawfulD(10) [OF assms(1)] by blast
qed (cases sender; simp add: v_def export_payload_json_def json_get_def get_i64_def as_i64_jint [OF assms(3)])+

text \<open>
  Synchronising two devices is importing what the journal exports. When two devices hold their own
  keys and know each other as active members of one account, and the sender's journal exports
  entries for the receiver, whose numbers are 64-bit integers and whose payloads are read back as
  they were written, then the bundle the sender makes, for a file or for a relay, is accepted by
  the receiver, whose store changes exactly as importing these entries from the sender changes
  it and, if that succeeds, acknowledging to the sender the position it reports; nothing but the
  synchronised tables changes.
\<close>

theorem synchronisation_is_import:
  assumes law: "lawful cy" "io_ok io" and "a \<noteq> b" "rg_account_id rB = rg_account_id rA"
    and A: "id_registry stA = Json rA" "holds_key cy KA rA stA a sa" "knows cy rA b sb"
    and B: "id_registry stB = Json rB" "holds_key cy KB rB stB b sb" "knows cy rB a sa"
    and es: "export_entries b limit (id_sync stA) = Inr (es, up_to)" "list_all (wire_ok cy) es" "in_i64 up_to"
    and ack: "in_i64 (imported_watermark b (id_sync stA))"
  shows "\<exists>message. make_bundle cy io KA b limit name_sender stA = Inr message
    \<and> sync_import cy env KB message stB = (case import_entries env a es up_to (id_sync stB) of
        (st, Inl e) \<Rightarrow> (stB\<lparr>id_sync := st\<rparr>, Inl (SyncError e))
      | (st, Inr report) \<Rightarrow> (stB\<lparr>id_sync := acknowledge_peer env a (imported_watermark b (id_sync stA)) st\<rparr>, Inr report))"
proof -
  let ?sender = "if name_sender then Some (sy_self (id_sync stA)) else None"
  let ?payload = "cy_json cy (export_payload_json es up_to ?sender)" and ?ack = "imported_watermark b (id_sync stA)"
  let ?h = "bundle_header cy rA a b (cy_sign_public cy (ds_signing sa)) ?payload ?ack"
  obtain message where m: "seal_sync_bundle cy io KA b ?payload rA stA = Inr message" "open_sync_bundle cy KB message rB stB = Inr (?h, ?payload)"
    using bundle_roundtrip [OF law assms(3,4) A(2,3) B(2,3) refl, of ?payload] ack by (auto simp: in_i64_def)
  have reg: "the_registry stA = Inr rA" "the_registry stB = Inr rB"
    using A(1) B(1) by (simp_all add: the_registry_def load_registry_def ok_or_def)
  have "get_i64 ''ack_for_peer'' ?h = Some ?ack"
    using header_fields(6) [of cy rA a b] as_i64_jint [OF ack] by (simp add: get_i64_def jint_def)
  then have "read_bundle cy KB message rB stB = Inr (a, es, up_to, Some ?ack)"
    using m(2) payload_read [OF law(1) es(2,3), of ?sender]
    by (simp add: read_bundle_def header_fields ok_or_def entries_roundtrip [OF es(2)])
  then have "sync_import cy env KB message stB = (case import_entries env a es up_to (id_sync stB) of
        (st, Inl e) \<Rightarrow> (stB\<lparr>id_sync := st\<rparr>, Inl (SyncError e))
      | (st, Inr report) \<Rightarrow> (stB\<lparr>id_sync := acknowledge_peer env a ?ack st\<rparr>, Inr report))"
    by (simp add: sync_import_def reg apply_bundle_def)
  moreover have "make_bundle cy io KA b limit name_sender stA = Inr message"
    using m(1) by (simp add: make_bundle_def reg es(1) Let_def)
  ultimately show ?thesis by blast
qed

definition ex_tombstone :: journal_row where
  "ex_tombstone = \<lparr>jr_id = 1, jr_kind = ''document'', jr_object = ''o'', jr_revision = 1, jr_origin = ''a'',
     jr_fingerprint = ''deleted'', jr_tombstone = True, jr_changed_at = ''t''\<rparr>"

theorem synchronisation_is_import_witness:
  "\<exists>(stA :: identity_store) stB stB' K message report. make_bundle ex_crypto ex_io K ''b'' 10 True stA = Inr message
     \<and> sync_import ex_crypto ex_sync_env K message stB = (stB', Inr report) \<and> ar_acknowledged report = 1 \<and> ar_up_to report = 1"
proof -
  obtain st :: identity_store and r K sk sa ea eb x where *: "registry_ok r" "registry_seal_key ex_crypto K r = Inr sk" "vault_open ex_crypto sk r"
    "sy_self (id_sync st) = Some ''a''" "find_device ''a'' r = Inr ea" "dv_status (de_summary ea) = DevActive"
    "vault_of ex_crypto sk r ''a'' = Some sa" "find_device ''b'' r = Inr eb" "dv_status (de_summary eb) = DevActive"
    "export_device r ''b'' = Inr x" "id_sync st = ex_sync_store\<lparr>sy_self := Some ''a''\<rparr>" by (rule ex_two_devices) (rule that)
  let ?sync = "ex_sync_store\<lparr>sy_self := Some ''a'', sy_journal := [ex_tombstone], sy_next_journal := 2\<rparr>"
  let ?stA = "st\<lparr>id_registry := Json r, id_sync := ?sync\<rparr>"
  have self: "sy_self (id_sync ?stA) = Some ''a''" and new: "id_registry ex_identity_store = Missing"
    by (simp_all add: ex_identity_store_def)
  obtain stB rB v sb where B: "id_registry stB = Json rB" "rg_account_id rB = rg_account_id r"
    "id_sync stB = (id_sync ex_identity_store)\<lparr>sy_self := Some ''b''\<rparr>"
    "holds_key ex_crypto K r ?stA ''a'' sa" "knows ex_crypto r ''b'' sb" "holds_key ex_crypto K rB stB ''b'' sb" "knows ex_crypto rB ''a'' sa"
    by (rule adopted_device [OF ex_crypto_lawful ex_io_ok *(1-3) self *(5-9) new *(10), of 10]) (rule that)
  have es: "export_entries ''b'' 10 (id_sync ?stA) = Inr ([entry_of ex_tombstone], 1)"
    by (simp add: export_entries_def watermark_of_def ex_sync_store_def export_payload_def entry_of_def ex_tombstone_def)
  have wire: "list_all (wire_ok ex_crypto) [entry_of ex_tombstone]" "in_i64 1" "in_i64 (imported_watermark ''b'' (id_sync ?stA))"
    by (simp_all add: wire_ok_def in_i64_def entry_of_def ex_tombstone_def imported_watermark_def watermark_of_def ex_sync_store_def)
  obtain st1 report where imp: "import_entries ex_sync_env ''a'' [entry_of ex_tombstone] 1 (id_sync stB) = (st1, Inr report)"
    "ar_acknowledged report = 1" "ar_up_to report = 1"
    by (simp add: B(3) ex_sync_env_def import_entries_def sync_compact_def import_entry_def entry_of_def ex_tombstone_def latest_def ex_identity_store_def ex_sync_store_def)
  have "''a'' \<noteq> ''b''" "id_registry ?stA = Json r" by simp_all
  from synchronisation_is_import [OF ex_crypto_lawful ex_io_ok this(1) B(2) this(2) B(4,5,1,6,7) es wire, of True ex_sync_env]
  obtain message where "make_bundle ex_crypto ex_io K ''b'' 10 True ?stA = Inr message"
    "\<exists>stB'. sync_import ex_crypto ex_sync_env K message stB = (stB', Inr report)"
    unfolding imp(1) by auto
  then show ?thesis using imp(2,3) by blast
qed

text \<open>One bundle that does not open holds up all others: a pull stops at it with an error, before
  deleting it, and leaves the store as it was, so every later pull stops at it again.\<close>

lemma pull_blocked:
  assumes "the_registry store = Inr r" "sy_self (id_sync store) = Some self"
    and "list_bundles renv now (bearer token) self relay = (relay1, Inr ((bid, n, t) # rows))"
    and "fetch_bundle (bearer token) self bid relay1 = Inr message" "read_bundle cy recovery message r store = Inl e"
  shows "sync_pull cy env renv now recovery token (store, relay) = ((store, relay1), Inl e)"
  using assms by (simp add: sync_pull_def apply_bundle_def)

end
