(* ===== verification/Fleet.thy ===== *)
theory Fleet
  imports SyncCommands
begin

text \<open>
  Task grants and result envelopes of the connector fleet (\<open>crates/core/src/fleet.rs\<close>, and the commands
  \<open>manage_fleet\<close> in \<open>src/main.rs\<close>). The owner device signs a grant for one worker device; the worker
  returns its observations sealed for the owner. The cryptography is that of \<open>Crypto\<close>, and the devices
  are those of \<open>DeviceIdentity\<close>. Reading and printing a grant's JSON text is left out.
\<close>

section \<open>Grants\<close>

definition FLEET_CONTRACT :: string where "FLEET_CONTRACT = ''cortana.fleet.v1''"

record grant_claims =
  gc_token_id :: string
  gc_job_id :: string
  gc_capability :: string
  gc_workspace :: string
  gc_source_scope :: "string list"
  gc_credential :: "string option"
  gc_max_documents :: "32 word"
  gc_max_bytes :: "64 word"
  gc_issued_at :: string
  gc_expires_at :: string
  gc_audience :: string

record task_grant =
  tg_format :: string
  tg_claims :: json
  tg_issuer :: string
  tg_signature :: string

record grant_request =
  gq_audience :: string
  gq_job_id :: string
  gq_capability :: string
  gq_workspace :: string
  gq_source_scope :: "string list"
  gq_credential :: "string option"
  gq_ttl_seconds :: int
  gq_max_documents :: "32 word"
  gq_max_bytes :: "64 word"

text \<open>Time in nanoseconds, as \<open>chrono\<close> writes and reads it, and the times it can hold.\<close>

record fleet_clock =
  fc_now :: int
  fc_rfc3339 :: "int \<Rightarrow> string"
  fc_parse :: "string \<Rightarrow> int option"
  fc_in_range :: "int \<Rightarrow> bool"

datatype fleet_error =
    FleetIdentity identity_error
  | GrantToSelf
  | DeviceNotActive string
  | GrantFormat
  | IssuerKeyLength
  | ClaimsInvalid
  | GrantAudience string
  | ExpiryInvalid
  | GrantExpired string
  | NotAudience
  | EnvelopeNotJson
  | EnvelopeHeaderMissing
  | EnvelopeFormat
  | EnvelopeOwner
  | EnvelopeToken
  | EnvelopeExecutor
  | EnvelopeKeyMissing
  | EnvelopeKeyMismatch
  | EnvelopeOpenFailed

section \<open>Claims as JSON\<close>

text \<open>\<open>json!(TaskGrantClaims {..})\<close>: an absent credential reference is skipped.\<close>

definition claims_json :: "grant_claims \<Rightarrow> json" where
  "claims_json c = JObject ([(''audience'', JString (gc_audience c)), (''capability'', JString (gc_capability c))]
     @ (case gc_credential c of None \<Rightarrow> [] | Some r \<Rightarrow> [(''credential_reference'', JString r)])
     @ [(''expires_at'', JString (gc_expires_at c)), (''issued_at'', JString (gc_issued_at c)),
        (''job_id'', JString (gc_job_id c)), (''max_bytes'', jint (uint (gc_max_bytes c))),
        (''max_documents'', jint (uint (gc_max_documents c))),
        (''source_scope'', JArray (map JString (gc_source_scope c))), (''token_id'', JString (gc_token_id c)),
        (''workspace'', JString (gc_workspace c))])"

text \<open>An unsigned integer of \<open>w\<close> bits.\<close>

definition as_unsigned :: "json \<Rightarrow> 'w::len word option" where
  "as_unsigned v = (case v of JNumber r \<Rightarrow>
       if r = of_int \<lfloor>r\<rfloor> \<and> 0 \<le> \<lfloor>r\<rfloor> \<and> \<lfloor>r\<rfloor> < 2 ^ LENGTH('w) then Some (word_of_int \<lfloor>r\<rfloor>) else None | _ \<Rightarrow> None)"

fun as_strings :: "json list \<Rightarrow> string list option" where
  "as_strings [] = Some []"
| "as_strings (v # vs) = Option.bind (as_str v) (\<lambda>s. map_option ((#) s) (as_strings vs))"

definition as_string_list :: "json \<Rightarrow> string list option" where
  "as_string_list v = (case v of JArray vs \<Rightarrow> as_strings vs | _ \<Rightarrow> None)"

text \<open>An optional text: missing or null, or a text.\<close>

definition optional_str :: "json option \<Rightarrow> string option option" where
  "optional_str v = (case v of None \<Rightarrow> Some None | Some JNull \<Rightarrow> Some None | Some (JString s) \<Rightarrow> Some (Some s) | _ \<Rightarrow> None)"

definition claims_of_json :: "json \<Rightarrow> grant_claims option" where
  "claims_of_json v = Option.bind (struct_fields [''token_id'', ''job_id'', ''capability'', ''workspace'', ''source_scope'',
       ''credential_reference'', ''max_documents'', ''max_bytes'', ''issued_at'', ''expires_at'', ''audience''] v) (\<lambda>m.
     Option.bind (field as_str ''token_id'' m) (\<lambda>token_id.
     Option.bind (field as_str ''job_id'' m) (\<lambda>job_id.
     Option.bind (field as_str ''capability'' m) (\<lambda>capability.
     Option.bind (field as_str ''workspace'' m) (\<lambda>workspace.
     Option.bind (field as_string_list ''source_scope'' m) (\<lambda>source_scope.
     Option.bind (optional_str (map_of m ''credential_reference'')) (\<lambda>credential.
     Option.bind (field as_unsigned ''max_documents'' m) (\<lambda>max_documents.
     Option.bind (field as_unsigned ''max_bytes'' m) (\<lambda>max_bytes.
     Option.bind (field as_str ''issued_at'' m) (\<lambda>issued_at.
     Option.bind (field as_str ''expires_at'' m) (\<lambda>expires_at.
     Option.bind (field as_str ''audience'' m) (\<lambda>audience.
     Some \<lparr>gc_token_id = token_id, gc_job_id = job_id, gc_capability = capability, gc_workspace = workspace,
       gc_source_scope = source_scope, gc_credential = credential, gc_max_documents = max_documents, gc_max_bytes = max_bytes,
       gc_issued_at = issued_at, gc_expires_at = expires_at, gc_audience = audience\<rparr>))))))))))))"

section \<open>Issuing and verifying\<close>

definition sign_bytes :: "crypto \<Rightarrow> string \<Rightarrow> string \<Rightarrow> string" where
  "sign_bytes cy signing message = cy_encode cy (cy_sign cy signing message)"

definition verify_signature :: "crypto \<Rightarrow> string \<Rightarrow> string \<Rightarrow> string \<Rightarrow> (identity_error, unit) result" where
  "verify_signature cy verifying message signature_b64 =
     bindE (ok_or (cy_decode cy signature_b64) (NotBase64 ''signature'')) (\<lambda>bytes.
     bindE (ensure (cy_signature cy bytes) SignatureEncoding) (\<lambda>_.
     ensure (cy_verify cy verifying message bytes) SignatureFailed))"

definition fleet_device :: "string \<Rightarrow> registry \<Rightarrow> (fleet_error, device_entry) result" where
  "fleet_device d r = map_err FleetIdentity (find_device d r)"

definition fleet_require_active :: "registry \<Rightarrow> string \<Rightarrow> (fleet_error, unit) result" where
  "fleet_require_active r d = bindE (fleet_device d r) (\<lambda>e.
     ensure (dv_status (de_summary e) = DevActive) (DeviceNotActive d))"

definition self_device :: "identity_store \<Rightarrow> (fleet_error, string) result" where
  "self_device store = ok_or (sy_self (id_sync store)) (FleetIdentity NoSelfDevice)"

text \<open>The key of a verifying device: 32 bytes that are a key.\<close>

definition verifying_key :: "crypto \<Rightarrow> string \<Rightarrow> string \<Rightarrow> (fleet_error, string) result" where
  "verifying_key cy what encoded =
     bindE (ok_or (cy_decode cy encoded) (FleetIdentity (NotBase64 what))) (\<lambda>key.
     bindE (ensure (length key = 32) IssuerKeyLength) (\<lambda>_.
     bindE (ensure (cy_verifying cy key) (FleetIdentity SigningKeyInvalid)) (\<lambda>_. Inr key)))"

text \<open>\<open>chrono\<close> panics when the expiry is out of its range.\<close>

definition issue_task_grant :: "crypto \<Rightarrow> identity_io \<Rightarrow> fleet_clock \<Rightarrow> string \<Rightarrow> grant_request \<Rightarrow> registry \<Rightarrow> identity_store
    \<Rightarrow> (fleet_error, task_grant) result" where
  "issue_task_grant cy io clock recovery_key q r store =
     bindE (self_device store) (\<lambda>issuer.
     bindE (ensure (issuer \<noteq> gq_audience q) GrantToSelf) (\<lambda>_.
     bindE (fleet_require_active r (gq_audience q)) (\<lambda>_.
     bindE (map_err FleetIdentity (registry_seal_key cy recovery_key r)) (\<lambda>seal_key.
     bindE (map_err FleetIdentity (unseal_self_secrets cy seal_key r issuer)) (\<lambda>secrets.
     let now = fc_now clock; expires = now + gq_ttl_seconds q * 1000000000 in
     bindE (ensure (fc_in_range clock expires) (FleetIdentity Panicked)) (\<lambda>_.
     let claims = claims_json \<lparr>gc_token_id = io_uuid io 0, gc_job_id = gq_job_id q, gc_capability = gq_capability q,
           gc_workspace = gq_workspace q, gc_source_scope = gq_source_scope q, gc_credential = gq_credential q,
           gc_max_documents = gq_max_documents q, gc_max_bytes = gq_max_bytes q, gc_issued_at = fc_rfc3339 clock now,
           gc_expires_at = fc_rfc3339 clock expires, gc_audience = gq_audience q\<rparr>
     in Inr \<lparr>tg_format = FLEET_CONTRACT, tg_claims = claims, tg_issuer = issuer,
          tg_signature = sign_bytes cy (ds_signing secrets) (cy_json cy claims)\<rparr>))))))"

definition verify_task_grant :: "crypto \<Rightarrow> fleet_clock \<Rightarrow> int \<Rightarrow> task_grant \<Rightarrow> registry \<Rightarrow> identity_store
    \<Rightarrow> (fleet_error, grant_claims) result" where
  "verify_task_grant cy clock now token r store =
     bindE (ensure (tg_format token = FLEET_CONTRACT) GrantFormat) (\<lambda>_.
     bindE (self_device store) (\<lambda>audience.
     bindE (fleet_device (tg_issuer token) r) (\<lambda>issuer.
     bindE (fleet_require_active r (tg_issuer token)) (\<lambda>_.
     bindE (verifying_key cy ''issuer signing key'' (dv_signing_public (de_summary issuer))) (\<lambda>verifying.
     bindE (map_err FleetIdentity (verify_signature cy verifying (cy_json cy (tg_claims token)) (tg_signature token))) (\<lambda>_.
     bindE (ok_or (claims_of_json (tg_claims token)) ClaimsInvalid) (\<lambda>claims.
     bindE (ensure (gc_audience claims = audience) (GrantAudience (gc_audience claims))) (\<lambda>_.
     bindE (ok_or (fc_parse clock (gc_expires_at claims)) ExpiryInvalid) (\<lambda>expires.
     bindE (ensure (now < expires) (GrantExpired (gc_expires_at claims))) (\<lambda>_.
     Inr claims))))))))))"

section \<open>Results\<close>

definition envelope_header :: "crypto \<Rightarrow> string \<Rightarrow> string \<Rightarrow> string \<Rightarrow> string \<Rightarrow> string \<Rightarrow> json" where
  "envelope_header cy token_id executor owner signing_public payload = JObject
     [(''executor_device'', JString executor), (''format'', JString FLEET_CONTRACT), (''owner_device'', JString owner),
      (''payload_sha256'', JString (fingerprint cy payload)), (''sender_signing_public'', JString (cy_encode cy signing_public)),
      (''token_id'', JString token_id)]"

text \<open>A result is signed as a bundle is, over header, nonce and ciphertext; the worker checks only that
  it is the audience.\<close>

definition seal_result :: "crypto \<Rightarrow> identity_io \<Rightarrow> string \<Rightarrow> task_grant \<Rightarrow> string \<Rightarrow> registry \<Rightarrow> identity_store
    \<Rightarrow> (fleet_error, string) result" where
  "seal_result cy io recovery_key token payload r store =
     bindE (self_device store) (\<lambda>executor.
     bindE (ok_or (claims_of_json (tg_claims token)) ClaimsInvalid) (\<lambda>claims.
     bindE (ensure (gc_audience claims = executor) NotAudience) (\<lambda>_.
     bindE (fleet_device (tg_issuer token) r) (\<lambda>owner.
     bindE (map_err FleetIdentity (peer_key cy ''owner agreement key'' (dv_agreement_public (de_summary owner)))) (\<lambda>owner_key.
     bindE (map_err FleetIdentity (registry_seal_key cy recovery_key r)) (\<lambda>seal_key.
     bindE (map_err FleetIdentity (unseal_self_secrets cy seal_key r executor)) (\<lambda>secrets.
     let nonce = io_bytes io 0 12;
         envelope_key = agreed_key cy (ds_agreement secrets) owner_key nonce ''cortana.fleet.v1/result'';
         header = envelope_header cy (gc_token_id claims) executor (tg_issuer token) (cy_sign_public cy (ds_signing secrets)) payload;
         header_bytes = cy_json cy header in
     bindE (ok_or (cy_encrypt cy envelope_key nonce header_bytes payload) (FleetIdentity SealingFailed)) (\<lambda>ciphertext.
     Inr (cy_json cy (JObject
       [(''ciphertext'', JString (cy_encode cy ciphertext)), (''header'', header), (''nonce'', JString (cy_encode cy nonce)),
        (''signature'', JString (sign_bytes cy (ds_signing secrets) (signed_digest cy header_bytes nonce ciphertext)))]))))))))))"

definition open_result :: "crypto \<Rightarrow> string \<Rightarrow> string \<Rightarrow> string \<Rightarrow> registry \<Rightarrow> identity_store \<Rightarrow> (fleet_error, string) result" where
  "open_result cy recovery_key envelope expected_token_id r store =
     bindE (self_device store) (\<lambda>owner.
     bindE (ok_or (cy_parse cy envelope) EnvelopeNotJson) (\<lambda>v.
     bindE (ok_or (json_get ''header'' v) EnvelopeHeaderMissing) (\<lambda>header.
     bindE (ensure (get_str ''format'' header = Some FLEET_CONTRACT) EnvelopeFormat) (\<lambda>_.
     bindE (ensure (get_str ''owner_device'' header = Some owner) EnvelopeOwner) (\<lambda>_.
     bindE (ensure (get_str ''token_id'' header = Some expected_token_id) EnvelopeToken) (\<lambda>_.
     bindE (ok_or (get_str ''executor_device'' header) EnvelopeExecutor) (\<lambda>executor.
     bindE (fleet_device executor r) (\<lambda>entry.
     bindE (fleet_require_active r executor) (\<lambda>_.
     bindE (ok_or (get_str ''sender_signing_public'' header) EnvelopeKeyMissing) (\<lambda>signing.
     bindE (ensure (signing = dv_signing_public (de_summary entry)) EnvelopeKeyMismatch) (\<lambda>_.
     bindE (map_err FleetIdentity (decode_field cy ''nonce'' v)) (\<lambda>nonce.
     bindE (map_err FleetIdentity (decode_field cy ''ciphertext'' v)) (\<lambda>ciphertext.
     bindE (map_err FleetIdentity (decode_field cy ''signature'' v)) (\<lambda>sig.
     let header_bytes = cy_json cy header in
     bindE (verifying_key cy ''executor signing key'' signing) (\<lambda>verifying.
     bindE (map_err FleetIdentity (verify_signature cy verifying (signed_digest cy header_bytes nonce ciphertext) (cy_encode cy sig))) (\<lambda>_.
     bindE (map_err FleetIdentity (peer_key cy ''executor agreement key'' (dv_agreement_public (de_summary entry)))) (\<lambda>executor_key.
     bindE (map_err FleetIdentity (registry_seal_key cy recovery_key r)) (\<lambda>seal_key.
     bindE (map_err FleetIdentity (unseal_self_secrets cy seal_key r owner)) (\<lambda>secrets.
     let envelope_key = agreed_key cy (ds_agreement secrets) executor_key nonce ''cortana.fleet.v1/result'' in
     bindE (ensure (length nonce = 12) (FleetIdentity Panicked)) (\<lambda>_.
     ok_or (cy_decrypt cy envelope_key nonce header_bytes ciphertext) EnvelopeOpenFailed))))))))))))))))))))"

section \<open>Commands\<close>

datatype fleet_command_error = FleetCommand command_error | FleetFailed fleet_error

definition fleet_issue :: "crypto \<Rightarrow> identity_io \<Rightarrow> fleet_clock \<Rightarrow> string \<Rightarrow> grant_request \<Rightarrow> identity_store
    \<Rightarrow> (fleet_command_error, task_grant) result" where
  "fleet_issue cy io clock recovery q store =
     bindE (map_err FleetCommand (the_registry store)) (\<lambda>r.
     map_err FleetFailed (issue_task_grant cy io clock recovery q r store))"

definition fleet_verify :: "crypto \<Rightarrow> fleet_clock \<Rightarrow> task_grant \<Rightarrow> identity_store \<Rightarrow> (fleet_command_error, grant_claims) result" where
  "fleet_verify cy clock token store =
     bindE (map_err FleetCommand (the_registry store)) (\<lambda>r.
     map_err FleetFailed (verify_task_grant cy clock (fc_now clock) token r store))"


section \<open>Round trips\<close>

lemma as_unsigned_int: "0 \<le> z \<Longrightarrow> z < 2 ^ LENGTH('w) \<Longrightarrow> as_unsigned (jint z) = Some (word_of_int z :: 'w::len word)"
  by (simp add: as_unsigned_def jint_def)

lemma as_unsigned_jint [simp]: "as_unsigned (jint (uint w)) = Some w"
  using as_unsigned_int [OF unsigned_greater_eq unsigned_less, of w] by simp

lemma as_strings_map [simp]: "as_strings (map JString xs) = Some xs"
  by (induction xs) (simp_all add: as_str_def)

lemma claims_roundtrip: "claims_of_json (claims_json c) = Some c"
  by (cases "gc_credential c")
    (simp_all add: claims_of_json_def claims_json_def struct_fields_def field_def as_str_def as_string_list_def optional_str_def)

lemma exact_uint:
  assumes "lawful cy" "LENGTH('w) \<le> 64"
  shows "canonical cy (jint (uint (w :: 'w::len word)))"
proof -
  have "uint w < 2 ^ LENGTH('w)" by (rule unsigned_less)
  also have "\<dots> \<le> (2 :: int) ^ 64" using assms(2) by (rule power_increasing) simp
  finally have "cy_exact cy (of_int (uint w))" using lawfulD(13) [OF assms(1)] unsigned_greater_eq [of w] by (meson order_trans neg_le_0_iff_le zero_le_power zero_le_numeral)
  then show ?thesis by (simp only: jint_def canonical.simps)
qed

lemma claims_canonical: "lawful cy \<Longrightarrow> canonical cy (claims_json c)"
  using exact_uint [of cy "gc_max_bytes c"] exact_uint [of cy "gc_max_documents c"]
  by (cases "gc_credential c") (simp_all add: claims_json_def less_char_def list_all_iff)

lemma signature_verifies: "lawful cy \<Longrightarrow> length s = 32 \<Longrightarrow> verify_signature cy (cy_sign_public cy s) m (sign_bytes cy s m) = Inr ()"
  by (simp add: verify_signature_def sign_bytes_def ok_or_def ensure_def lawfulD)

lemma verifying_key_ok: "lawful cy \<Longrightarrow> length s = 32 \<Longrightarrow> verifying_key cy what (cy_encode cy (cy_sign_public cy s)) = Inr (cy_sign_public cy s)"
  by (simp add: verifying_key_def ok_or_def ensure_def lawfulD)

lemma known_device:
  assumes "knows cy r d s"
  obtains e where "fleet_device d r = Inr e" "fleet_require_active r d = Inr ()"
    "dv_signing_public (de_summary e) = cy_encode cy (cy_sign_public cy (ds_signing s))"
    "dv_agreement_public (de_summary e) = cy_encode cy (cy_agree_public cy (ds_agreement s))"
  using assms by (auto simp: knows_def publics_of_def fleet_device_def fleet_require_active_def ensure_def)

lemma own_key:
  assumes "holds_key cy K r st d s"
  obtains sk where "self_device st = Inr d" "registry_seal_key cy K r = Inr sk" "unseal_self_secrets cy sk r d = Inr s" "secrets_ok s"
  using assms holds_key_ok [OF assms] by (auto simp: holds_key_def self_device_def ok_or_def)


lemma revoked_device:
  assumes "revoke_device io d n (st, r) = ((st', r'), Inr v)"
  shows "\<exists>e. fleet_device d r' = Inr e \<and> fleet_require_active r' d = Inl (DeviceNotActive d)"
proof -
  obtain e where e: "find (\<lambda>e. dv_id (de_summary e) = d) (rg_devices r) = Some e"
    and r': "r' = update_device d (\<lambda>x. x\<lparr>de_summary := (de_summary e)\<lparr>dv_status := DevRevoked (io_now io)\<rparr>\<rparr>) r"
    using assms by (auto simp: revoke_device_def commit_def Let_def find_device_def result_simps split: sum.splits)
  then have "dv_id (de_summary e) = d" using find_Some_set [OF e] by simp
  with find_update_first_same [OF e, of "\<lambda>x. x\<lparr>de_summary := (de_summary e)\<lparr>dv_status := DevRevoked (io_now io)\<rparr>\<rparr>"] r'
  show ?thesis by (simp add: fleet_require_active_def fleet_device_def find_device_def update_device_def ok_or_def ensure_def)
qed

section \<open>Properties\<close>


definition ex_clock :: fleet_clock where
  "ex_clock = \<lparr>fc_now = 5, fc_rfc3339 = \<lambda>t. replicate (nat t) (CHR ''t''), fc_parse = \<lambda>s. Some (int (length s)), fc_in_range = \<lambda>t. True\<rparr>"

definition ex_request :: grant_request where
  "ex_request = \<lparr>gq_audience = ''b'', gq_job_id = ''job'', gq_capability = ''fetch'', gq_workspace = ''w'', gq_source_scope = [''mail''],
     gq_credential = None, gq_ttl_seconds = 60, gq_max_documents = 10, gq_max_bytes = 1000\<rparr>"

text \<open>Two devices of one account, each knowing the other.\<close>

lemma ex_pair:
  obtains stA stB :: identity_store and rA rB K sa sb where "holds_key ex_crypto K rA stA ''a'' sa" "knows ex_crypto rA ''b'' sb"
    "holds_key ex_crypto K rB stB ''b'' sb" "knows ex_crypto rB ''a'' sa"
proof -
  obtain st :: identity_store and r K sk sa ea eb x where *: "registry_ok r" "registry_seal_key ex_crypto K r = Inr sk" "vault_open ex_crypto sk r"
    "sy_self (id_sync st) = Some ''a''" "find_device ''a'' r = Inr ea" "dv_status (de_summary ea) = DevActive"
    "vault_of ex_crypto sk r ''a'' = Some sa" "find_device ''b'' r = Inr eb" "dv_status (de_summary eb) = DevActive"
    "export_device r ''b'' = Inr x" "id_sync st = ex_sync_store\<lparr>sy_self := Some ''a''\<rparr>" by (rule ex_two_devices) (rule that)
  have new: "id_registry ex_identity_store = Missing" by (simp add: ex_identity_store_def)
  show thesis
    by (rule adopted_device [OF ex_crypto_lawful ex_io_ok *(1-9) new *(10), of 10]) (rule that; assumption)
qed


text \<open>
  The result of a task reaches its owner, under its own grant only. For a grant of a to b, whatever
  the signature, the envelope b seals opens at a, with the identifier of the grant, to the payload;
  with any other identifier it is refused, so is it at every other device, and at a once a's
  registry has b revoked.
\<close>

theorem results_reach_their_owner:
  assumes law: "lawful cy" "io_ok io"
    and B: "holds_key cy KB rB stB b sb" "knows cy rB a sa" and A: "holds_key cy KA rA stA a sa" "knows cy rA b sb"
    and token: "tg_issuer token = a" "claims_of_json (tg_claims token) = Some claims" "gc_audience claims = b"
  shows "\<exists>envelope. seal_result cy io KB token payload rB stB = Inr envelope
    \<and> open_result cy KA envelope (gc_token_id claims) rA stA = Inr payload
    \<and> (\<forall>tid. tid \<noteq> gc_token_id claims \<longrightarrow> open_result cy KA envelope tid rA stA = Inl EnvelopeToken)
    \<and> (\<forall>K r st c tid. self_device st = Inr c \<and> c \<noteq> a \<longrightarrow> open_result cy K envelope tid r st = Inl EnvelopeOwner)
    \<and> (\<forall>K io n st st' r' v. revoke_device io b n (st, rA) = ((st', r'), Inr v) \<longrightarrow>
         open_result cy K envelope (gc_token_id claims) r' stA = Inl (DeviceNotActive b))"
proof -
  let ?h = "envelope_header cy (gc_token_id claims) b a (cy_sign_public cy (ds_signing sb)) payload" and ?n = "io_bytes io 0 12"
  let ?info = "''cortana.fleet.v1/result''"
  let ?key = "agreed_key cy (ds_agreement sb) (cy_agree_public cy (ds_agreement sa)) ?n ?info"
  obtain skB where ownB: "self_device stB = Inr b" "registry_seal_key cy KB rB = Inr skB" "unseal_self_secrets cy skB rB b = Inr sb" "secrets_ok sb"
    by (rule own_key [OF B(1)])
  obtain skA where ownA: "self_device stA = Inr a" "registry_seal_key cy KA rA = Inr skA" "unseal_self_secrets cy skA rA a = Inr sa" "secrets_ok sa"
    by (rule own_key [OF A(1)])
  have len: "length (ds_signing sb) = 32" "length (ds_agreement sa) = 32" "length (ds_agreement sb) = 32" "length ?n = 12"
    using ownA(4) ownB(4) law(2) by (simp_all add: secrets_ok_def io_ok_def)
  obtain c where c: "cy_encrypt cy ?key ?n (cy_json cy ?h) payload = Some c" "cy_decrypt cy ?key ?n (cy_json cy ?h) c = Some payload"
    using lawfulD(3) [OF law(1) agreed_key_same(2) [OF law(1) ownB(4) ownA(4)] len(4)] by blast
  have key: "agreed_key cy (ds_agreement sa) (cy_agree_public cy (ds_agreement sb)) ?n ?info = ?key"
    using agreed_key_same(1) [OF law(1) ownA(4) ownB(4)] .
  let ?d = "signed_digest cy (cy_json cy ?h) ?n c"
  let ?v = "JObject [(''ciphertext'', JString (cy_encode cy c)), (''header'', ?h), (''nonce'', JString (cy_encode cy ?n)),
     (''signature'', JString (sign_bytes cy (ds_signing sb) ?d))]"
  have canon: "canonical cy ?h" by (simp add: envelope_header_def less_char_def)
  note js = bundle_json [OF law(1) canon]
  have fields: "get_str ''format'' ?h = Some FLEET_CONTRACT" "get_str ''owner_device'' ?h = Some a" "get_str ''token_id'' ?h = Some (gc_token_id claims)"
    "get_str ''executor_device'' ?h = Some b" "get_str ''sender_signing_public'' ?h = Some (cy_encode cy (cy_sign_public cy (ds_signing sb)))"
    by (simp_all add: envelope_header_def json_read)
  have "seal_result cy io KB token payload rB stB = Inr (cy_json cy ?v)"
    using ownB token c(1) peer_key_ok [OF law(1) len(2)]
    by (rule_tac known_device [OF B(2)]) (simp add: seal_result_def ensure_def ok_or_def Let_def)
  moreover have "open_result cy KA (cy_json cy ?v) (gc_token_id claims) rA stA = Inr payload"
    using ownA c(2) key len(4) peer_key_ok [OF law(1) len(3)] verifying_key_ok [OF law(1) len(1)]
      signature_verifies [OF law(1) len(1), of ?d]
    by (rule_tac known_device [OF A(2)])
      (simp add: open_result_def js fields ensure_def ok_or_def Let_def decode_field_def sign_bytes_def lawfulD(1) [OF law(1)])
  moreover have "open_result cy K (cy_json cy ?v) (gc_token_id claims) r' stA = Inl (DeviceNotActive b)"
    if "revoke_device io b n (st, rA) = ((st', r'), Inr v)" for K io n st st' r' v
    using revoked_device [OF that] ownA(1) by (auto simp: open_result_def js fields ensure_def ok_or_def)
  ultimately show ?thesis
    using ownA(1) by (intro exI [of _ "cy_json cy ?v"]) (simp add: open_result_def js fields ensure_def ok_or_def)
qed


theorem results_reach_their_owner_witness:
  "\<exists>stA stB rA rB K token envelope. issue_task_grant ex_crypto ex_io ex_clock K ex_request rA (stA :: identity_store) = Inr token
     \<and> seal_result ex_crypto ex_io K token ''found'' rB (stB :: identity_store) = Inr envelope
     \<and> open_result ex_crypto K envelope (io_uuid ex_io 0) rA stA = Inr ''found''
     \<and> open_result ex_crypto K envelope ''other'' rA stA = Inl EnvelopeToken"
proof -
  obtain stA stB :: identity_store and rA rB K sa sb where *: "holds_key ex_crypto K rA stA ''a'' sa" "knows ex_crypto rA ''b'' sb"
    "holds_key ex_crypto K rB stB ''b'' sb" "knows ex_crypto rB ''a'' sa" by (rule ex_pair)
  obtain sk where own: "self_device stA = Inr ''a''" "registry_seal_key ex_crypto K rA = Inr sk" "unseal_self_secrets ex_crypto sk rA ''a'' = Inr sa"
    by (rule own_key [OF *(1)])
  obtain token claims where t: "issue_task_grant ex_crypto ex_io ex_clock K ex_request rA stA = Inr token" "tg_issuer token = ''a''"
    "claims_of_json (tg_claims token) = Some claims" "gc_audience claims = ''b''" "gc_token_id claims = io_uuid ex_io 0"
    using own by (rule_tac known_device [OF *(2)])
      (simp add: issue_task_grant_def ensure_def Let_def ex_request_def ex_clock_def claims_roundtrip)
  obtain envelope where "seal_result ex_crypto ex_io K token ''found'' rB stB = Inr envelope"
    "open_result ex_crypto K envelope (gc_token_id claims) rA stA = Inr ''found''"
    "\<And>tid. tid \<noteq> gc_token_id claims \<Longrightarrow> open_result ex_crypto K envelope tid rA stA = Inl EnvelopeToken"
    using results_reach_their_owner [OF ex_crypto_lawful ex_io_ok *(3,4,1,2) t(2-4), of "''found''"] by blast
  then show ?thesis using t(1,5)
    by (intro exI [of _ stA] exI [of _ stB] exI [of _ rA] exI [of _ rB] exI [of _ K] exI [of _ token] exI [of _ envelope])
      (simp add: ex_io_def)
qed

end
