(* ===== verification/Corpus.thy ===== *)
theory Corpus
  imports SyncEngine Chunking "HOL-Library.Word" "HOL-Library.AList"
begin

text \<open>
  The document corpus of the store (\<open>crates/core/src/store.rs\<close>): documents with their chunks, full-text
  rows, links and code indexes, tenant quotas, reconciliation with a source, and the rebuild of all
  embeddings. A table is the list of its rows in the order of their row numbers; what the schema
  declares (keys, cascades) is written out where the code relies on it. SHA-256, the JSON printer and
  the code parser are parameters; a database error other than a violated constraint is left out.
\<close>

section \<open>Tables\<close>

text \<open>A document of a source: the fields the chunker reads and the others. The time is its RFC 3339 text.\<close>

record document = doc +
  doc_title :: string
  doc_uri :: "string option"
  doc_updated_at :: string
  doc_project :: string
  doc_acl :: "string list"

record document_row =
  dr_id :: string
  dr_source :: string
  dr_source_id :: string
  dr_title :: string
  dr_uri :: "string option"
  dr_hash :: string
  dr_updated_at :: string
  dr_project :: string
  dr_acl_json :: string
  dr_metadata_json :: string
  dr_content :: string

record chunk_lineage =
  li_key :: string
  li_strategy :: string
  li_parent :: string
  li_previous :: "string option"
  li_next :: "string option"
  li_start :: nat
  li_end :: nat
  li_version :: string

record chunk_row =
  cw_id :: string
  cw_document :: string
  cw_ordinal :: nat
  cw_content :: string
  cw_blob :: "string option"
  cw_lineage :: "chunk_lineage option"

record code_index =
  ci_document :: string
  ci_repository :: "string option"
  ci_revision :: "string option"
  ci_language :: string
  ci_parser :: string
  ci_content_hash :: string
  ci_status :: string
  ci_output_json :: string

text \<open>The corpus. \<open>co_meta\<close> is the metadata table, whose revision counter is kept as a number;
  \<open>co_sync\<close> is the journal with the rest of the synchronised tables; \<open>co_rebuild\<close> is the staging
  table of a rebuild when it exists.\<close>

record corpus =
  co_documents :: "document_row list"
  co_chunks :: "chunk_row list"
  co_fts :: "(string \<times> string \<times> string) list"
  co_links :: "(string \<times> string) list"
  co_code :: "code_index list"
  co_meta :: "string \<Rightarrow> string option"
  co_revision :: nat
  co_embedding_cache :: "(string \<times> string) list"
  co_query_cache :: "(string \<times> string) list"
  co_rebuild :: "(string \<times> string) list option"
  co_sync :: sync_store

record parse_output =
  po_language :: string
  po_parser :: string
  po_content_hash :: string
  po_status :: string
  po_cache_key :: string

text \<open>\<open>ev_parse\<close> is \<open>parse_document\<close>, \<open>ev_output\<close> and \<open>ev_read_output\<close> write and read its result as JSON,
  \<open>ev_cache_key\<close> is \<open>parser_cache_key\<close>.\<close>

record corpus_env =
  ev_sha256_hex :: "string \<Rightarrow> string"
  ev_json :: "json \<Rightarrow> string"
  ev_parse :: "document \<Rightarrow> parse_output"
  ev_output :: "parse_output \<Rightarrow> string"
  ev_read_output :: "string \<Rightarrow> parse_output option"
  ev_cache_key :: "document \<Rightarrow> string"
  ev_parser_version :: string
  ev_sync :: sync_env

datatype corpus_error =
    ConstraintViolated
  | DocumentQuota nat nat
  | StorageQuota nat nat
  | JournalFailed sync_error
  | EmptyFingerprint
  | SameGeneration
  | NoGeneration
  | GenerationChanged
  | EmptyVector
  | UnknownChunk
  | NoRebuild
  | RebuildIncomplete nat nat

section \<open>Identity and hash of a document\<close>

definition stable_id :: "corpus_env \<Rightarrow> string \<Rightarrow> string \<Rightarrow> string" where
  "stable_id env source source_id = ev_sha256_hex env (source @ [CHR 0x00] @ source_id)"

text \<open>The time of observation of code is not part of the hashed payload.\<close>

definition hashed_metadata :: "json \<Rightarrow> json" where
  "hashed_metadata v = (case v of
       JObject m \<Rightarrow> JObject (map (\<lambda>(k, x). (k, if k = ''code'' then (case x of
           JObject code \<Rightarrow> JObject (filter (\<lambda>kv. fst kv \<noteq> ''observed_at'') code) | _ \<Rightarrow> x) else x)) m)
     | _ \<Rightarrow> v)"

definition document_hash :: "corpus_env \<Rightarrow> document \<Rightarrow> string" where
  "document_hash env d = ev_sha256_hex env (ev_json env (JObject
     [(''acl'', JArray (map JString (doc_acl d))), (''content'', JString (doc_content d)),
      (''metadata'', hashed_metadata (doc_metadata d)), (''project'', JString (doc_project d)),
      (''title'', JString (doc_title d)), (''uri'', case doc_uri d of None \<Rightarrow> JNull | Some u \<Rightarrow> JString u)]))"

section \<open>References in metadata\<close>

definition is_reference_metadata_key :: "string \<Rightarrow> bool" where
  "is_reference_metadata_key key \<longleftrightarrow> to_ascii_lowercase key \<in> set [''uri'', ''url'', ''link'', ''links'', ''ref'', ''refs'',
     ''reference'', ''references'', ''related'', ''source_id'', ''document_id'', ''parent_uri'', ''parent_id'']"

text \<open>A hash set as the list of its elements; no call adds anything once there are 256.\<close>

fun collect_reference_values :: "json \<Rightarrow> string list \<Rightarrow> string list" where
  "collect_reference_values (JString s) vs =
     (if 256 \<le> length vs then vs else if s \<noteq> [] \<and> length s \<le> 4096 then List.insert s vs else vs)"
| "collect_reference_values (JArray items) vs =
     (if 256 \<le> length vs then vs else fold collect_reference_values items vs)"
| "collect_reference_values (JObject items) vs =
     (if 256 \<le> length vs then vs else fold (\<lambda>kv. collect_reference_values (snd kv)) items vs)"
| "collect_reference_values _ vs = vs"

fun collect_metadata_reference_strings :: "json \<Rightarrow> string list \<Rightarrow> string list" where
  "collect_metadata_reference_strings (JArray items) vs =
     (if 256 \<le> length vs then vs else fold collect_metadata_reference_strings items vs)"
| "collect_metadata_reference_strings (JObject items) vs =
     (if 256 \<le> length vs then vs
      else fold (\<lambda>kv. if is_reference_metadata_key (fst kv) then collect_reference_values (snd kv)
                      else collect_metadata_reference_strings (snd kv)) items vs)"
| "collect_metadata_reference_strings _ vs = vs"

definition metadata_reference_strings :: "json \<Rightarrow> string list" where
  "metadata_reference_strings v = sort (collect_metadata_reference_strings v [])"

section \<open>Quotas\<close>

text \<open>\<open>str::parse::<u64>\<close>: decimal digits, perhaps after a plus sign, of a number below \<open>2 ^ 64\<close>.\<close>

definition parse_u64 :: "string \<Rightarrow> nat option" where
  "parse_u64 s = (let digits = (case s of c # cs \<Rightarrow> if c = CHR ''+'' then cs else s | [] \<Rightarrow> []);
       n = fold (\<lambda>c n. 10 * n + (byte c - 48)) digits 0
     in if digits \<noteq> [] \<and> list_all (\<lambda>c. 48 \<le> byte c \<and> byte c \<le> 57) digits \<and> n < 2 ^ 64 then Some n else None)"

definition meta_value :: "string \<Rightarrow> corpus \<Rightarrow> nat option" where
  "meta_value key c = Option.bind (co_meta c key) parse_u64"

definition meta_put :: "string \<Rightarrow> string \<Rightarrow> corpus \<Rightarrow> corpus" where
  "meta_put key value c = c\<lparr>co_meta := (co_meta c)(key \<mapsto> value)\<rparr>"

text \<open>\<open>length(content)\<close> of SQLite: the characters before the first NUL.\<close>

definition sqlite_length :: "string \<Rightarrow> nat" where
  "sqlite_length s = length (utf8_chars (takeWhile (\<lambda>c. c \<noteq> CHR 0x00) s))"

definition find_document :: "string \<Rightarrow> corpus \<Rightarrow> document_row option" where
  "find_document did c = find (\<lambda>r. dr_id r = did) (co_documents c)"

definition stored_length :: "string \<Rightarrow> corpus \<Rightarrow> nat" where
  "stored_length did c = (case find_document did c of None \<Rightarrow> 0 | Some r \<Rightarrow> sqlite_length (dr_content r))"

definition u64_max :: nat where "u64_max = 2 ^ 64 - 1"

definition enforce_tenant_quota :: "string \<Rightarrow> nat \<Rightarrow> corpus \<Rightarrow> (corpus_error, corpus) result" where
  "enforce_tenant_quota did incoming c = (case meta_value ''tenant.max_documents'' c of None \<Rightarrow> Inr c
     | Some max_documents \<Rightarrow>
        if find_document did c = None \<and> max_documents \<le> length (co_documents c)
        then Inl (DocumentQuota (length (co_documents c)) max_documents)
        else (case meta_value ''tenant.storage_quota_bytes'' c of None \<Rightarrow> Inr c
          | Some quota \<Rightarrow>
             let used = (case meta_value ''tenant.bytes_used'' c of None \<Rightarrow> 0 | Some n \<Rightarrow> n);
                 new_used = min (used + incoming) u64_max - stored_length did c
             in if quota < new_used then Inl (StorageQuota new_used quota)
                else Inr (meta_put ''tenant.bytes_used'' (decimal new_used) c)))"

definition release_tenant_bytes :: "string \<Rightarrow> corpus \<Rightarrow> corpus" where
  "release_tenant_bytes did c = (if co_meta c ''tenant.max_documents'' = None then c
     else (let used = (case meta_value ''tenant.bytes_used'' c of None \<Rightarrow> 0 | Some n \<Rightarrow> n)
           in meta_put ''tenant.bytes_used'' (decimal (used - stored_length did c)) c))"

section \<open>The journal\<close>

text \<open>The row of a document as the synchronised tables see it, and the journal entry of a change.\<close>

definition document_columns :: "document_row \<Rightarrow> json list" where
  "document_columns r = [JString (dr_id r), JString (dr_source r), JString (dr_source_id r), JString (dr_title r),
     (case dr_uri r of None \<Rightarrow> JNull | Some u \<Rightarrow> JString u), JString (dr_hash r), JString (dr_updated_at r),
     JString (dr_project r), JString (dr_acl_json r), JString (dr_metadata_json r), JString (dr_content r)]"

definition sync_view :: "corpus \<Rightarrow> sync_store" where
  "sync_view c = (co_sync c)\<lparr>sy_objects := (sy_objects (co_sync c))(''document'' :=
     (\<lambda>did. map_option document_columns (find_document did c)))\<rparr>"

definition journal_document :: "corpus_env \<Rightarrow> string \<Rightarrow> corpus \<Rightarrow> (corpus_error, corpus) result" where
  "journal_document env did c = bindE (map_err JournalFailed (journal_object (ev_sync env) ''document'' did (sync_view c)))
     (\<lambda>(st, _). Inr (c\<lparr>co_sync := st\<rparr>))"

definition bump_corpus_revision :: "corpus \<Rightarrow> corpus" where
  "bump_corpus_revision c = c\<lparr>co_revision := co_revision c + 1\<rparr>"

section \<open>Code indexes\<close>

definition code_field :: "string \<Rightarrow> document \<Rightarrow> string option" where
  "code_field key d = Option.bind (json_get ''code'' (doc_metadata d)) (get_str key)"

definition replace_code_index :: "corpus_env \<Rightarrow> string \<Rightarrow> document \<Rightarrow> corpus \<Rightarrow> corpus" where
  "replace_code_index env did d c =
     (let kept = filter (\<lambda>i. ci_document i \<noteq> did) (co_code c); out = ev_parse env d in
      c\<lparr>co_code := (if json_get ''code'' (doc_metadata d) = None then kept
         else kept @ [\<lparr>ci_document = did, ci_repository = code_field ''repository_id'' d, ci_revision = code_field ''revision'' d,
           ci_language = po_language out, ci_parser = po_parser out, ci_content_hash = po_content_hash out,
           ci_status = to_ascii_lowercase (po_status out), ci_output_json = ev_output env out\<rparr>])\<rparr>)"

definition code_index_current :: "corpus_env \<Rightarrow> document \<Rightarrow> string option \<Rightarrow> bool" where
  "code_index_current env d output_json =
     (if json_get ''code'' (doc_metadata d) = None then output_json = None
      else (case Option.bind output_json (ev_read_output env) of None \<Rightarrow> False
        | Some out \<Rightarrow> po_parser out = ev_parser_version env \<and> po_cache_key out = ev_cache_key env d))"

definition stored_output :: "string \<Rightarrow> corpus \<Rightarrow> string option" where
  "stored_output did c = map_option ci_output_json (find (\<lambda>i. ci_document i = did) (co_code c))"

section \<open>Writing a document\<close>

definition row_of_document :: "corpus_env \<Rightarrow> document \<Rightarrow> document_row" where
  "row_of_document env d = \<lparr>dr_id = stable_id env (doc_source d) (doc_source_id d), dr_source = doc_source d,
     dr_source_id = doc_source_id d, dr_title = doc_title d, dr_uri = doc_uri d, dr_hash = document_hash env d,
     dr_updated_at = doc_updated_at d, dr_project = doc_project d, dr_acl_json = ev_json env (JArray (map JString (doc_acl d))),
     dr_metadata_json = ev_json env (doc_metadata d), dr_content = doc_content d\<rparr>"

text \<open>\<open>INSERT .. ON CONFLICT(id) DO UPDATE\<close> of everything but the source; \<open>(source, source_id)\<close> is unique.\<close>

definition put_document :: "document_row \<Rightarrow> corpus \<Rightarrow> (corpus_error, corpus) result" where
  "put_document r c = (case find_document (dr_id r) c of
       Some old \<Rightarrow> Inr (c\<lparr>co_documents := update_first (\<lambda>x. dr_id x = dr_id r)
         (\<lambda>x. r\<lparr>dr_source := dr_source x, dr_source_id := dr_source_id x\<rparr>) (co_documents c)\<rparr>)
     | None \<Rightarrow> if list_ex (\<lambda>x. dr_source x = dr_source r \<and> dr_source_id x = dr_source_id r) (co_documents c)
         then Inl ConstraintViolated else Inr (c\<lparr>co_documents := co_documents c @ [r]\<rparr>))"

definition delete_chunks :: "string \<Rightarrow> corpus \<Rightarrow> corpus" where
  "delete_chunks did c = c\<lparr>co_fts := filter (\<lambda>f. fst f \<notin> cw_id ` set (filter (\<lambda>w. cw_document w = did) (co_chunks c))) (co_fts c),
     co_chunks := filter (\<lambda>w. cw_document w \<noteq> did) (co_chunks c)\<rparr>"

definition replace_links :: "string \<Rightarrow> string list \<Rightarrow> corpus \<Rightarrow> corpus" where
  "replace_links did targets c = c\<lparr>co_links := fold (\<lambda>t ls. if (did, t) \<in> set ls then ls else ls @ [(did, t)]) targets
     (filter (\<lambda>l. fst l \<noteq> did) (co_links c))\<rparr>"

text \<open>A chunk and its full-text row; the identifier of a chunk is unique.\<close>

definition insert_chunk :: "string \<Rightarrow> chunk_row \<Rightarrow> corpus \<Rightarrow> (corpus_error, corpus) result" where
  "insert_chunk title w c = (if cw_id w \<in> cw_id ` set (co_chunks c) then Inl ConstraintViolated
     else Inr (c\<lparr>co_chunks := co_chunks c @ [w], co_fts := co_fts c @ [(cw_id w, title, cw_content w)]\<rparr>))"

fun insert_chunks :: "string \<Rightarrow> chunk_row list \<Rightarrow> corpus \<Rightarrow> (corpus_error, corpus) result" where
  "insert_chunks title [] c = Inr c"
| "insert_chunks title (w # ws) c = bindE (insert_chunk title w c) (insert_chunks title ws)"

text \<open>Vectors of 32-bit floats are lists of their bit patterns, stored in little-endian order.\<close>

definition le_bytes :: "32 word \<Rightarrow> string" where
  "le_bytes w = map (\<lambda>i. char_of (unat w div 256 ^ i mod 256)) [0, 1, 2, 3]"

definition encode_embedding :: "32 word list \<Rightarrow> string" where
  "encode_embedding vs = concat (map le_bytes vs)"

definition plain_rows :: "string \<Rightarrow> (string \<times> 32 word list) list \<Rightarrow> chunk_row list" where
  "plain_rows did chunks = map (\<lambda>(i, content, vector). \<lparr>cw_id = did @ '':'' @ decimal i, cw_document = did, cw_ordinal = i,
     cw_content = content, cw_blob = Some (encode_embedding vector), cw_lineage = None\<rparr>) (enumerate 0 chunks)"

definition structured_rows :: "string \<Rightarrow> (chunk_spec \<times> 32 word list) list \<Rightarrow> chunk_row list" where
  "structured_rows did chunks = map (\<lambda>(spec, vector). \<lparr>cw_id = did @ '':'' @ ch_key spec, cw_document = did,
     cw_ordinal = ch_ordinal spec, cw_content = ch_content spec, cw_blob = Some (encode_embedding vector),
     cw_lineage = Some \<lparr>li_key = ch_key spec, li_strategy = strategy_as_str (ch_strategy spec), li_parent = ch_parent_key spec,
       li_previous = ch_previous spec, li_next = ch_next spec, li_start = ch_start spec, li_end = ch_end spec,
       li_version = ch_version spec\<rparr>\<rparr>) chunks"

text \<open>\<open>(SELECT policy_version FROM chunks .. ORDER BY ordinal LIMIT 1)\<close>: of the chunk with the least
  ordinal, nothing when there is no chunk or it has no policy.\<close>

definition first_chunk :: "string \<Rightarrow> corpus \<Rightarrow> chunk_row option" where
  "first_chunk did c = (case sort_key cw_ordinal (filter (\<lambda>w. cw_document w = did) (co_chunks c)) of [] \<Rightarrow> None | w # _ \<Rightarrow> Some w)"

definition stored_policy :: "string \<Rightarrow> corpus \<Rightarrow> string option" where
  "stored_policy did c = Option.bind (first_chunk did c) (\<lambda>w. map_option li_version (cw_lineage w))"

definition unchanged :: "corpus_env \<Rightarrow> document \<Rightarrow> corpus \<Rightarrow> bool" where
  "unchanged env d c = (let did = stable_id env (doc_source d) (doc_source_id d) in
     case find_document did c of None \<Rightarrow> False
     | Some r \<Rightarrow> dr_hash r = document_hash env d \<and> 0 < sqlite_length (dr_content r) \<and> code_index_current env d (stored_output did c))"

text \<open>The transaction both kinds of upsert share.\<close>

definition write_document :: "corpus_env \<Rightarrow> document \<Rightarrow> chunk_row list \<Rightarrow> corpus \<Rightarrow> (corpus_error, corpus) result" where
  "write_document env d ws c = (let r = row_of_document env d; did = dr_id r in
     bindE (enforce_tenant_quota did (length (doc_content d)) c) (\<lambda>c1.
     bindE (put_document r (delete_chunks did c1)) (\<lambda>c2.
     bindE (insert_chunks (doc_title d) ws (replace_links did (metadata_reference_strings (doc_metadata d)) c2)) (\<lambda>c3.
     bindE (journal_document env did (replace_code_index env did d c3)) (\<lambda>c4.
     Inr (bump_corpus_revision c4))))))"

definition transact :: "(corpus \<Rightarrow> (corpus_error, corpus) result) \<Rightarrow> corpus \<Rightarrow> corpus \<times> (corpus_error, bool) result" where
  "transact f c = (case f c of Inl e \<Rightarrow> (c, Inl e) | Inr c' \<Rightarrow> (c', Inr True))"

definition upsert :: "corpus_env \<Rightarrow> document \<Rightarrow> (string \<times> 32 word list) list \<Rightarrow> corpus \<Rightarrow> corpus \<times> (corpus_error, bool) result" where
  "upsert env d chunks c = (if unchanged env d c then (c, Inr False)
     else transact (write_document env d (plain_rows (stable_id env (doc_source d) (doc_source_id d)) chunks)) c)"

definition upsert_structured :: "corpus_env \<Rightarrow> document \<Rightarrow> (chunk_spec \<times> 32 word list) list \<Rightarrow> corpus
    \<Rightarrow> corpus \<times> (corpus_error, bool) result" where
  "upsert_structured env d chunks c =
     (let did = stable_id env (doc_source d) (doc_source_id d) in
      if unchanged env d c \<and> stored_policy did c = Some CHUNKING_CONTRACT_VERSION then (c, Inr False)
      else transact (write_document env d (structured_rows did chunks)) c)"

definition needs_update :: "corpus_env \<Rightarrow> document \<Rightarrow> corpus \<Rightarrow> bool" where
  "needs_update env d c \<longleftrightarrow> \<not> unchanged env d c"

definition needs_structured_update :: "corpus_env \<Rightarrow> document \<Rightarrow> corpus \<Rightarrow> bool" where
  "needs_structured_update env d c \<longleftrightarrow> needs_update env d c
     \<or> stored_policy (stable_id env (doc_source d) (doc_source_id d)) c \<noteq> Some CHUNKING_CONTRACT_VERSION"

definition refresh_timestamp :: "corpus_env \<Rightarrow> document \<Rightarrow> corpus \<Rightarrow> corpus" where
  "refresh_timestamp env d c = (let did = stable_id env (doc_source d) (doc_source_id d) in
     case find_document did c of None \<Rightarrow> c
     | Some r \<Rightarrow> if dr_updated_at r = doc_updated_at d then c
         else bump_corpus_revision (c\<lparr>co_documents := update_first (\<lambda>x. dr_id x = did)
                (\<lambda>x. x\<lparr>dr_updated_at := doc_updated_at d\<rparr>) (co_documents c)\<rparr>))"

text \<open>The corpus of an evaluation: new rows only, without quota and without a journal entry.\<close>

fun insert_evaluation :: "corpus_env \<Rightarrow> 32 word list \<Rightarrow> document list \<Rightarrow> corpus \<Rightarrow> (corpus_error, corpus) result" where
  "insert_evaluation env vector [] c = Inr c"
| "insert_evaluation env vector (d # ds) c = (let r = row_of_document env d; did = dr_id r in
     bindE (ensure (find_document did c = None) ConstraintViolated) (\<lambda>_.
     bindE (put_document r c) (\<lambda>c1.
     bindE (insert_chunks (doc_title d) (plain_rows did [(doc_content d, vector)])
         (replace_links did (metadata_reference_strings (doc_metadata d)) c1)) (\<lambda>c2.
     insert_evaluation env vector ds (bump_corpus_revision (replace_code_index env did d c2))))))"

definition insert_evaluation_corpus :: "corpus_env \<Rightarrow> document list \<Rightarrow> 32 word list \<Rightarrow> corpus \<Rightarrow> corpus \<times> (corpus_error, bool) result" where
  "insert_evaluation_corpus env ds vector c = (if vector = [] then (c, Inl EmptyVector)
     else transact (insert_evaluation env vector ds) c)"

section \<open>Reconciliation\<close>

text \<open>Removing a document: its full-text rows and bytes first, then its row, with which its chunks,
  links and code index go.\<close>

definition delete_document :: "corpus_env \<Rightarrow> string \<Rightarrow> corpus \<Rightarrow> (corpus_error, corpus) result" where
  "delete_document env did c = (let c1 = release_tenant_bytes did (delete_chunks did c) in
     journal_document env did (c1\<lparr>co_documents := filter (\<lambda>r. dr_id r \<noteq> did) (co_documents c1),
       co_links := filter (\<lambda>l. fst l \<noteq> did) (co_links c1), co_code := filter (\<lambda>i. ci_document i \<noteq> did) (co_code c1)\<rparr>))"

fun delete_documents :: "corpus_env \<Rightarrow> string list \<Rightarrow> corpus \<Rightarrow> (corpus_error, corpus) result" where
  "delete_documents env [] c = Inr c"
| "delete_documents env (did # dids) c = bindE (delete_document env did c) (delete_documents env dids)"

definition stale_documents :: "string \<Rightarrow> string \<Rightarrow> string list \<Rightarrow> corpus \<Rightarrow> string list" where
  "stale_documents source project seen c =
     map dr_id (filter (\<lambda>r. dr_source r = source \<and> dr_project r = project \<and> dr_source_id r \<notin> set seen) (co_documents c))"

definition reconcile :: "corpus_env \<Rightarrow> string \<Rightarrow> string \<Rightarrow> string list \<Rightarrow> corpus \<Rightarrow> corpus \<times> (corpus_error, nat) result" where
  "reconcile env source project seen c = (let stale = stale_documents source project seen c in
     case delete_documents env stale c of Inl e \<Rightarrow> (c, Inl e)
     | Inr c' \<Rightarrow> (if stale = [] then c' else bump_corpus_revision c', Inr (length stale)))"

text \<open>\<open>UPDATE documents SET acl_json .. WHERE project=?1 AND acl_json='[]'\<close> for each mapping.\<close>

fun backfill :: "corpus_env \<Rightarrow> (string \<times> string list) list \<Rightarrow> nat \<Rightarrow> corpus \<Rightarrow> (corpus_error, corpus \<times> nat) result" where
  "backfill env [] n c = Inr (c, n)"
| "backfill env ((project, labels) # ms) n c = bindE (ensure (labels \<noteq> []) ConstraintViolated) (\<lambda>_.
     let open_to = (\<lambda>r. dr_project r = project \<and> dr_acl_json r = ''[]'') in
     backfill env ms (n + length (filter open_to (co_documents c))) (c\<lparr>co_documents := map (\<lambda>r.
       if open_to r then r\<lparr>dr_acl_json := ev_json env (JArray (map JString labels))\<rparr> else r) (co_documents c)\<rparr>))"

definition backfill_project_acls :: "corpus_env \<Rightarrow> (string \<times> string list) list \<Rightarrow> corpus \<Rightarrow> corpus \<times> (corpus_error, nat) result" where
  "backfill_project_acls env mappings c = (case backfill env mappings 0 c of Inl e \<Rightarrow> (c, Inl e)
     | Inr (c', n) \<Rightarrow> (if 0 < n then bump_corpus_revision c' else c', Inr n))"

section \<open>Embedding generations\<close>

definition generation :: "corpus \<Rightarrow> string option" where
  "generation c = co_meta c ''embedding_fingerprint''"

definition ensure_fingerprint :: "string \<Rightarrow> corpus \<Rightarrow> corpus \<times> (corpus_error, unit) result" where
  "ensure_fingerprint fingerprint c = (case generation c of
       Some g \<Rightarrow> if g \<noteq> fingerprint then (c, Inl GenerationChanged) else (c, Inr ())
     | None \<Rightarrow> (meta_put ''embedding_fingerprint'' fingerprint c, Inr ()))"

definition check_generations :: "string \<Rightarrow> string \<Rightarrow> corpus \<Rightarrow> (corpus_error, unit) result" where
  "check_generations source target c =
     bindE (ensure (trim source \<noteq> []) EmptyFingerprint) (\<lambda>_.
     bindE (ensure (trim target \<noteq> []) EmptyFingerprint) (\<lambda>_.
     bindE (ensure (source \<noteq> target) SameGeneration) (\<lambda>_.
     bindE (ok_or (generation c) NoGeneration) (\<lambda>current.
     ensure (current = source) GenerationChanged))))"

definition migrate_embedding_fingerprint :: "string \<Rightarrow> string \<Rightarrow> corpus \<Rightarrow> corpus \<times> (corpus_error, unit) result" where
  "migrate_embedding_fingerprint source target c = (case check_generations source target c of Inl e \<Rightarrow> (c, Inl e)
     | Inr _ \<Rightarrow> ((meta_put ''embedding_fingerprint'' target c)\<lparr>co_embedding_cache := [], co_query_cache := []\<rparr>, Inr ()))"

definition begin_embedding_rebuild :: "string \<Rightarrow> string \<Rightarrow> corpus \<Rightarrow> corpus \<times> (corpus_error, nat) result" where
  "begin_embedding_rebuild source target c = (case check_generations source target c of Inl e \<Rightarrow> (c, Inl e)
     | Inr _ \<Rightarrow> (c\<lparr>co_rebuild := Some []\<rparr>, Inr (length (co_chunks c))))"

definition embedding_rebuild_chunks :: "string option \<Rightarrow> nat \<Rightarrow> corpus \<Rightarrow> (string \<times> string) list" where
  "embedding_rebuild_chunks after limit c = map (\<lambda>w. (cw_id w, cw_content w)) (take (max limit 1)
     (sort_key cw_id (filter (\<lambda>w. case after of None \<Rightarrow> True | Some a \<Rightarrow> a < cw_id w) (co_chunks c))))"

text \<open>Staged vectors, keyed by chunk; staging again replaces.\<close>

fun stage :: "(string \<times> 32 word list) list \<Rightarrow> corpus \<Rightarrow> (corpus_error, corpus) result" where
  "stage [] c = Inr c"
| "stage ((wid, vector) # vs) c =
     bindE (ensure (vector \<noteq> []) EmptyVector) (\<lambda>_.
     bindE (ensure (wid \<in> cw_id ` set (co_chunks c)) UnknownChunk) (\<lambda>_.
     bindE (ok_or (co_rebuild c) NoRebuild) (\<lambda>st.
     stage vs (c\<lparr>co_rebuild := Some (AList.update wid (encode_embedding vector) st)\<rparr>))))"

definition stage_embedding_rebuild :: "(string \<times> 32 word list) list \<Rightarrow> corpus \<Rightarrow> corpus \<times> (corpus_error, unit) result" where
  "stage_embedding_rebuild vectors c = (case stage vectors c of Inl e \<Rightarrow> (c, Inl e) | Inr c' \<Rightarrow> (c', Inr ()))"

definition commit_embedding_rebuild :: "string \<Rightarrow> string \<Rightarrow> corpus \<Rightarrow> corpus \<times> (corpus_error, nat) result" where
  "commit_embedding_rebuild source target c =
     (case bindE (ensure (generation c = Some source) GenerationChanged) (\<lambda>_.
           bindE (ok_or (co_rebuild c) NoRebuild) (\<lambda>st.
           bindE (ensure (length st = length (co_chunks c)) (RebuildIncomplete (length st) (length (co_chunks c)))) (\<lambda>_. Inr st))) of
       Inl e \<Rightarrow> (c, Inl e)
     | Inr st \<Rightarrow> (bump_corpus_revision ((meta_put ''embedding_fingerprint'' target c)\<lparr>
          co_chunks := map (\<lambda>w. w\<lparr>cw_blob := map_of st (cw_id w)\<rparr>) (co_chunks c),
          co_embedding_cache := [], co_query_cache := [], co_rebuild := None\<rparr>), Inr (length (co_chunks c))))"

definition discard_embedding_rebuild :: "corpus \<Rightarrow> corpus" where
  "discard_embedding_rebuild c = c\<lparr>co_rebuild := None\<rparr>"

section \<open>The invariant\<close>

text \<open>The keys are unique, derived rows belong to documents, and the full-text table holds for every
  chunk its text under the current title of its document, in the order of the chunks.\<close>

definition title_of :: "document_row list \<Rightarrow> string \<Rightarrow> string" where
  "title_of docs did = (case find (\<lambda>r. dr_id r = did) docs of None \<Rightarrow> [] | Some r \<Rightarrow> dr_title r)"

definition fts_row :: "document_row list \<Rightarrow> chunk_row \<Rightarrow> string \<times> string \<times> string" where
  "fts_row docs w = (cw_id w, title_of docs (cw_document w), cw_content w)"

definition own_identity :: "corpus_env \<Rightarrow> document_row \<Rightarrow> bool" where
  "own_identity env r \<longleftrightarrow> stable_id env (dr_source r) (dr_source_id r) = dr_id r"

definition corpus_inv :: "corpus_env \<Rightarrow> corpus \<Rightarrow> bool" where
  "corpus_inv env c \<longleftrightarrow> distinct (map dr_id (co_documents c))
     \<and> list_all (own_identity env) (co_documents c)
     \<and> distinct (map cw_id (co_chunks c)) \<and> cw_document ` set (co_chunks c) \<subseteq> dr_id ` set (co_documents c)
     \<and> co_fts c = map (fts_row (co_documents c)) (co_chunks c)
     \<and> distinct (co_links c) \<and> fst ` set (co_links c) \<subseteq> dr_id ` set (co_documents c)
     \<and> distinct (map ci_document (co_code c)) \<and> ci_document ` set (co_code c) \<subseteq> dr_id ` set (co_documents c)"

lemma corpus_invD:
  assumes "corpus_inv env c"
  shows "distinct (map dr_id (co_documents c))"
    "list_all (own_identity env) (co_documents c)"
    "distinct (map cw_id (co_chunks c))" "cw_document ` set (co_chunks c) \<subseteq> dr_id ` set (co_documents c)"
    "co_fts c = map (fts_row (co_documents c)) (co_chunks c)"
    "distinct (co_links c)" "fst ` set (co_links c) \<subseteq> dr_id ` set (co_documents c)"
    "distinct (map ci_document (co_code c))" "ci_document ` set (co_code c) \<subseteq> dr_id ` set (co_documents c)"
  using assms by (simp_all add: corpus_inv_def)

text \<open>What the invariant speaks of.\<close>

definition same_tables :: "corpus \<Rightarrow> corpus \<Rightarrow> bool" where
  "same_tables c c' \<longleftrightarrow> co_documents c' = co_documents c \<and> co_chunks c' = co_chunks c \<and> co_fts c' = co_fts c
     \<and> co_links c' = co_links c \<and> co_code c' = co_code c"

lemma same_tables_inv: "same_tables c c' \<Longrightarrow> corpus_inv env c' = corpus_inv env c"
  by (simp add: same_tables_def corpus_inv_def)

lemma same_tables_refl [simp]: "same_tables c c"
  by (simp add: same_tables_def)

lemma quota_tables: "enforce_tenant_quota did n c = Inr c' \<Longrightarrow> same_tables c c' \<and> co_revision c' = co_revision c"
  by (auto simp: enforce_tenant_quota_def meta_put_def same_tables_def Let_def split: option.splits if_splits)

lemma release_tables: "same_tables c (release_tenant_bytes did c)" "co_revision (release_tenant_bytes did c) = co_revision c"
  by (simp_all add: release_tenant_bytes_def meta_put_def same_tables_def Let_def)

lemma journal_tables: "journal_document env did c = Inr c' \<Longrightarrow> \<exists>st. c' = c\<lparr>co_sync := st\<rparr>"
  by (auto simp: journal_document_def result_simps split: prod.splits)

lemma find_document_eq: "find_document did c = Some r \<Longrightarrow> r \<in> set (co_documents c) \<and> dr_id r = did"
  using find_Some_set by (fastforce simp: find_document_def)

lemma find_document_None: "find_document did c = None \<longleftrightarrow> did \<notin> dr_id ` set (co_documents c)"
  by (auto simp: find_document_def find_None_iff)

section \<open>Steps of a write\<close>

lemma delete_chunks_fts:
  assumes "distinct (map cw_id ws)"
  shows "filter (\<lambda>f. fst f \<notin> cw_id ` set (filter (\<lambda>w. cw_document w = did) ws)) (map (fts_row docs) ws)
       = map (fts_row docs) (filter (\<lambda>w. cw_document w \<noteq> did) ws)"
proof -
  have "cw_id w \<notin> cw_id ` set (filter (\<lambda>w. cw_document w = did) ws) \<longleftrightarrow> cw_document w \<noteq> did" if "w \<in> set ws" for w
    using that assms by (auto simp: distinct_map dest: inj_onD)
  then show ?thesis by (auto simp: filter_map o_def fts_row_def cong: filter_cong intro!: arg_cong [where f = "map _"] filter_cong)
qed

lemma delete_chunks_inv:
  assumes "corpus_inv env c"
  shows "corpus_inv env (delete_chunks did c)" "did \<notin> cw_document ` set (co_chunks (delete_chunks did c))"
  using corpus_invD [OF assms] delete_chunks_fts [of "co_chunks c" did "co_documents c"]
  by (auto simp: corpus_inv_def delete_chunks_def distinct_map_filter)

lemma title_of_update:
  assumes "\<And>x. dr_id (f x) = dr_id x" "did \<noteq> d"
  shows "title_of (update_first (\<lambda>x. dr_id x = d) f docs) did = title_of docs did"
  using assms find_update_first_other [of "\<lambda>x. dr_id x = d" "\<lambda>x. dr_id x = did" f docs] by (auto simp: title_of_def)

lemma fts_rows_cong: "(\<And>w. w \<in> set ws \<Longrightarrow> title_of docs' (cw_document w) = title_of docs (cw_document w)) \<Longrightarrow>
    map (fts_row docs') ws = map (fts_row docs) ws"
  by (simp add: fts_row_def)

text \<open>The documents after a write: the row is there, and every other document is as it was.\<close>

lemma put_document_inv:
  assumes inv: "corpus_inv env c" and r: "own_identity env r"
    and none: "dr_id r \<notin> cw_document ` set (co_chunks c)" and put: "put_document r c = Inr c'"
  shows "corpus_inv env c'" "c' = c\<lparr>co_documents := co_documents c'\<rparr>"
    "\<exists>s i. find_document (dr_id r) c' = Some (r\<lparr>dr_source := s, dr_source_id := i\<rparr>) \<and> stable_id env s i = dr_id r"
    "\<And>d. d \<noteq> dr_id r \<Longrightarrow> find_document d c' = find_document d c"
proof -
  let ?p = "\<lambda>x. dr_id x = dr_id r" and ?f = "\<lambda>x. r\<lparr>dr_source := dr_source x, dr_source_id := dr_source_id x\<rparr>"
  note D = corpus_invD [OF inv]
  have "corpus_inv env c' \<and> c' = c\<lparr>co_documents := co_documents c'\<rparr>
    \<and> (\<exists>s i. find_document (dr_id r) c' = Some (r\<lparr>dr_source := s, dr_source_id := i\<rparr>) \<and> stable_id env s i = dr_id r)
    \<and> (\<forall>d. d \<noteq> dr_id r \<longrightarrow> find_document d c' = find_document d c)"
  proof (cases "find_document (dr_id r) c")
    case (Some old)
    let ?docs = "update_first ?p ?f (co_documents c)"
    have c': "c' = c\<lparr>co_documents := ?docs\<rparr>" using put Some by (simp add: put_document_def)
    have ids: "map dr_id ?docs = map dr_id (co_documents c)" by (rule map_update_first_id) simp
    then have idset: "dr_id ` set ?docs = dr_id ` set (co_documents c)" by (metis set_map)
    have "own_identity env x" if x: "x \<in> set ?docs" for x
    proof -
      from set_update_firstD [OF x] consider "x \<in> set (co_documents c)" | y where "y \<in> set (co_documents c)" "?p y" "x = ?f y" by blast
      then show ?thesis using D(2) by cases (auto simp: list_all_iff own_identity_def)
    qed
    then have stable: "list_all (own_identity env) ?docs" by (simp add: list_all_iff)
    have fts: "map (fts_row ?docs) (co_chunks c) = map (fts_row (co_documents c)) (co_chunks c)"
    proof (rule fts_rows_cong)
      fix w assume "w \<in> set (co_chunks c)"
      with none have "cw_document w \<noteq> dr_id r" by (metis image_eqI)
      then show "title_of ?docs (cw_document w) = title_of (co_documents c) (cw_document w)"
        using find_update_first_other [of ?p "\<lambda>x. dr_id x = cw_document w" ?f "co_documents c"] by (auto simp: title_of_def)
    qed
    have "find ?p ?docs = Some (?f old)"
      using Some by (intro find_update_first_same) (simp_all add: find_document_def)
    moreover have "find (\<lambda>x. dr_id x = d) ?docs = find (\<lambda>x. dr_id x = d) (co_documents c)" if "d \<noteq> dr_id r" for d
      using that by (intro find_update_first_other) auto
    moreover have "stable_id env (dr_source old) (dr_source_id old) = dr_id r"
      using D(2) find_document_eq [OF Some] by (auto simp: list_all_iff own_identity_def)
    ultimately show ?thesis
      using c' stable D fts by (auto simp: corpus_inv_def ids idset find_document_def)
  next
    case None
    have c': "c' = c\<lparr>co_documents := co_documents c @ [r]\<rparr>" using put None by (simp add: put_document_def split: if_splits)
    have new: "find ?p (co_documents c) = None" using None by (simp add: find_document_def)
    have old: "find (\<lambda>x. dr_id x = d) (co_documents c @ [r]) = find (\<lambda>x. dr_id x = d) (co_documents c)" if "d \<noteq> dr_id r" for d
      using that by (simp add: find_append split: option.split)
    have mine: "find ?p (co_documents c @ [r]) = Some r" using new by (simp add: find_append)
    have "map (fts_row (co_documents c @ [r])) (co_chunks c) = map (fts_row (co_documents c)) (co_chunks c)"
    proof (rule fts_rows_cong)
      fix w assume "w \<in> set (co_chunks c)"
      with none have "cw_document w \<noteq> dr_id r" by (metis image_eqI)
      then show "title_of (co_documents c @ [r]) (cw_document w) = title_of (co_documents c) (cw_document w)"
        using old by (simp add: title_of_def)
    qed
    moreover have "dr_id r \<notin> dr_id ` set (co_documents c)" using None by (simp add: find_document_None)
    ultimately have "corpus_inv env c'" using D r by (auto simp: corpus_inv_def c')
    moreover have "\<exists>s i. r = r\<lparr>dr_source := s, dr_source_id := i\<rparr> \<and> stable_id env s i = dr_id r"
      using r by (intro exI [of _ "dr_source r"] exI [of _ "dr_source_id r"]) (simp add: own_identity_def)
    ultimately show ?thesis using c' old mine by (auto simp: find_document_def)
  qed
  then show "corpus_inv env c'" "c' = c\<lparr>co_documents := co_documents c'\<rparr>"
    "\<exists>s i. find_document (dr_id r) c' = Some (r\<lparr>dr_source := s, dr_source_id := i\<rparr>) \<and> stable_id env s i = dr_id r"
    "\<And>d. d \<noteq> dr_id r \<Longrightarrow> find_document d c' = find_document d c" by blast+
qed

lemma insert_chunks_inv:
  assumes "corpus_inv env c" "title_of (co_documents c) did = title" "did \<in> dr_id ` set (co_documents c)"
    and "\<And>w. w \<in> set ws \<Longrightarrow> cw_document w = did" "insert_chunks title ws c = Inr c'"
  shows "corpus_inv env c'" "co_chunks c' = co_chunks c @ ws" "\<exists>f. c' = c\<lparr>co_chunks := co_chunks c @ ws, co_fts := f\<rparr>"
proof -
  have "corpus_inv env c' \<and> co_chunks c' = co_chunks c @ ws \<and> (\<exists>f. c' = c\<lparr>co_chunks := co_chunks c @ ws, co_fts := f\<rparr>)"
    using assms
  proof (induction ws arbitrary: c)
    case Nil
    then show ?case by (auto intro: exI [of _ "co_fts c"])
  next
    case (Cons w ws)
    let ?c1 = "c\<lparr>co_chunks := co_chunks c @ [w], co_fts := co_fts c @ [(cw_id w, title, cw_content w)]\<rparr>"
    from Cons.prems(4,5) have w: "cw_document w = did" "cw_id w \<notin> cw_id ` set (co_chunks c)" and rest: "insert_chunks title ws ?c1 = Inr c'"
      by (auto simp: insert_chunk_def result_simps split: if_splits)
    have "corpus_inv env ?c1"
      using corpus_invD [OF Cons.prems(1)] w Cons.prems(2,3) by (auto simp: corpus_inv_def fts_row_def)
    with Cons.IH [of ?c1] Cons.prems(2-4) rest show ?case by auto
  qed
  then show "corpus_inv env c'" "co_chunks c' = co_chunks c @ ws" "\<exists>f. c' = c\<lparr>co_chunks := co_chunks c @ ws, co_fts := f\<rparr>" by blast+
qed

lemma fold_links: "distinct ls \<Longrightarrow> distinct (fold (\<lambda>t ls. if (did, t) \<in> set ls then ls else ls @ [(did, t)]) ts ls)
    \<and> set (fold (\<lambda>t ls. if (did, t) \<in> set ls then ls else ls @ [(did, t)]) ts ls) = set ls \<union> Pair did ` set ts"
  by (induction ts arbitrary: ls) auto

lemma replace_links_inv:
  assumes "corpus_inv env c" "did \<in> dr_id ` set (co_documents c)"
  shows "corpus_inv env (replace_links did ts c)"
  using corpus_invD [OF assms(1)] assms(2) fold_links [of "filter (\<lambda>l. fst l \<noteq> did) (co_links c)" did ts]
  by (auto simp: corpus_inv_def replace_links_def)

lemma replace_code_index_inv:
  assumes "corpus_inv env c" "did \<in> dr_id ` set (co_documents c)"
  shows "corpus_inv env (replace_code_index env did d c)"
  using corpus_invD [OF assms(1)] assms(2)
  by (auto simp: corpus_inv_def replace_code_index_def Let_def distinct_map_filter)

text \<open>A write as a whole: the row of the document, its chunks in the order given after all others,
  one revision more.\<close>

lemma write_document_spec:
  fixes env d c
  defines "r \<equiv> row_of_document env d"
  assumes inv: "corpus_inv env c" and ws: "\<And>w. w \<in> set ws \<Longrightarrow> cw_document w = dr_id r"
    and ok: "write_document env d ws c = Inr c'"
  shows "corpus_inv env c'" "co_revision c' = co_revision c + 1"
    "co_chunks c' = filter (\<lambda>w. cw_document w \<noteq> dr_id r) (co_chunks c) @ ws"
    "\<exists>s i. find_document (dr_id r) c' = Some (r\<lparr>dr_source := s, dr_source_id := i\<rparr>) \<and> stable_id env s i = dr_id r"
    "\<And>did. did \<noteq> dr_id r \<Longrightarrow> find_document did c' = find_document did c"
    "stored_output (dr_id r) c' = (if json_get ''code'' (doc_metadata d) = None then None else Some (ev_output env (ev_parse env d)))"
proof -
  let ?did = "dr_id r"
  obtain c1 c2 c3 c4 where q: "enforce_tenant_quota ?did (length (doc_content d)) c = Inr c1"
    and p: "put_document r (delete_chunks ?did c1) = Inr c2"
    and i: "insert_chunks (doc_title d) ws (replace_links ?did (metadata_reference_strings (doc_metadata d)) c2) = Inr c3"
    and j: "journal_document env ?did (replace_code_index env ?did d c3) = Inr c4" and c': "c' = bump_corpus_revision c4"
    using ok by (auto simp: write_document_def Let_def r_def [symmetric] result_simps)
  have own: "own_identity env r" by (simp add: r_def own_identity_def row_of_document_def)
  have t1: "same_tables c c1" "co_revision c1 = co_revision c" using quota_tables [OF q] by auto
  then have inv1: "corpus_inv env c1" using inv by (simp add: same_tables_inv)
  note dc = delete_chunks_inv [OF inv1, of ?did]
  note pd = put_document_inv [OF dc(1) own dc(2) p]
  obtain s k where row: "find_document ?did c2 = Some (r\<lparr>dr_source := s, dr_source_id := k\<rparr>)" "stable_id env s k = ?did"
    using pd(3) by blast
  have here: "?did \<in> dr_id ` set (co_documents c2)" using row(1) find_document_None [of ?did c2] by auto
  let ?c2 = "replace_links ?did (metadata_reference_strings (doc_metadata d)) c2"
  have c2: "co_documents ?c2 = co_documents c2" "co_chunks ?c2 = co_chunks c2" "co_revision ?c2 = co_revision c2"
    by (simp_all add: replace_links_def)
  have title: "title_of (co_documents ?c2) ?did = doc_title d"
    unfolding c2 using row(1) by (simp add: title_of_def find_document_def) (simp add: r_def row_of_document_def)
  obtain f where ic: "corpus_inv env c3" "c3 = ?c2\<lparr>co_chunks := co_chunks ?c2 @ ws, co_fts := f\<rparr>"
    using insert_chunks_inv [OF replace_links_inv [OF pd(1) here] title _ ws i] here c2 by auto
  let ?c3 = "replace_code_index env ?did d c3"
  obtain st where st: "c4 = ?c3\<lparr>co_sync := st\<rparr>" using journal_tables [OF j] by blast
  have docs: "co_documents c' = co_documents c2"
    by (simp add: c' bump_corpus_revision_def st replace_code_index_def Let_def ic(2) c2)
  have inv3: "corpus_inv env ?c3" using replace_code_index_inv [OF ic(1)] here c2(1) ic(2) by simp
  have "same_tables ?c3 c'" by (simp add: c' bump_corpus_revision_def st same_tables_def)
  then show "corpus_inv env c'" using inv3 by (simp add: same_tables_inv)
  have prev: "co_chunks c2 = filter (\<lambda>w. cw_document w \<noteq> ?did) (co_chunks c)" "co_revision c2 = co_revision c"
    using arg_cong [OF pd(2), of co_chunks] arg_cong [OF pd(2), of co_revision] t1 by (simp_all add: delete_chunks_def same_tables_def)
  show "co_chunks c' = filter (\<lambda>w. cw_document w \<noteq> ?did) (co_chunks c) @ ws"
    by (simp add: c' bump_corpus_revision_def st replace_code_index_def Let_def ic(2) c2 prev)
  show "co_revision c' = co_revision c + 1"
    by (simp add: c' bump_corpus_revision_def st replace_code_index_def Let_def ic(2) c2 prev)
  show "\<exists>s i. find_document ?did c' = Some (r\<lparr>dr_source := s, dr_source_id := i\<rparr>) \<and> stable_id env s i = ?did"
    using row docs by (auto simp: find_document_def)
  show "find_document did c' = find_document did c" if "did \<noteq> ?did" for did
    using pd(4) [OF that] t1(1) docs by (simp add: find_document_def delete_chunks_def same_tables_def)
  show "stored_output ?did c' = (if json_get ''code'' (doc_metadata d) = None then None else Some (ev_output env (ev_parse env d)))"
    by (simp add: c' bump_corpus_revision_def st stored_output_def replace_code_index_def Let_def find_append find_filter_none)
qed

section \<open>Deletions\<close>

definition without :: "string set \<Rightarrow> corpus \<Rightarrow> corpus \<Rightarrow> bool" where
  "without ids c c' \<longleftrightarrow> co_documents c' = filter (\<lambda>r. dr_id r \<notin> ids) (co_documents c)
     \<and> co_chunks c' = filter (\<lambda>w. cw_document w \<notin> ids) (co_chunks c)
     \<and> co_links c' = filter (\<lambda>l. fst l \<notin> ids) (co_links c)
     \<and> co_code c' = filter (\<lambda>i. ci_document i \<notin> ids) (co_code c) \<and> co_revision c' = co_revision c"

lemma without_find: "without ids c c' \<Longrightarrow> find_document did c' = (if did \<in> ids then None else find_document did c)"
  by (auto simp: without_def find_document_def intro: find_filter_other find_filter_none)

lemma without_empty: "without {} c c"
  by (simp add: without_def)

lemma without_trans: "without A c c' \<Longrightarrow> without B c' c'' \<Longrightarrow> without (A \<union> B) c c''"
  by (simp add: without_def conj_commute)

lemma delete_document_without:
  assumes inv: "corpus_inv env c" and del: "delete_document env did c = Inr c'"
  shows "corpus_inv env c'" "without {did} c c'"
proof -
  let ?c1 = "release_tenant_bytes did (delete_chunks did c)"
  let ?docs = "filter (\<lambda>r. dr_id r \<noteq> did) (co_documents c)" and ?ws = "filter (\<lambda>w. cw_document w \<noteq> did) (co_chunks c)"
  have t: "same_tables (delete_chunks did c) ?c1" "co_revision ?c1 = co_revision c"
    by (simp_all add: release_tables) (simp add: delete_chunks_def)
  obtain st where c': "c' = ?c1\<lparr>co_documents := filter (\<lambda>r. dr_id r \<noteq> did) (co_documents ?c1),
       co_links := filter (\<lambda>l. fst l \<noteq> did) (co_links ?c1), co_code := filter (\<lambda>i. ci_document i \<noteq> did) (co_code ?c1), co_sync := st\<rparr>"
    using del journal_tables by (fastforce simp: delete_document_def Let_def)
  note D = corpus_invD [OF inv]
  have fts: "map (fts_row ?docs) ?ws = map (fts_row (co_documents c)) ?ws"
    by (rule fts_rows_cong) (auto simp: title_of_def find_filter_other)
  have "co_fts ?c1 = map (fts_row (co_documents c)) ?ws"
    using t(1) D(5) delete_chunks_fts [OF D(3), of did "co_documents c"] by (simp add: same_tables_def delete_chunks_def)
  with t D fts show "corpus_inv env c'"
    by (auto simp: c' corpus_inv_def same_tables_def delete_chunks_def distinct_map_filter list_all_iff)
  from t show "without {did} c c'" by (simp add: c' without_def same_tables_def delete_chunks_def)
qed

lemma delete_documents_without:
  "corpus_inv env c \<Longrightarrow> delete_documents env ids c = Inr c' \<Longrightarrow> corpus_inv env c' \<and> without (set ids) c c'"
proof (induction ids arbitrary: c)
  case Nil
  then show ?case by (simp add: without_empty)
next
  case (Cons did ids)
  then obtain c1 where c1: "delete_document env did c = Inr c1" "delete_documents env ids c1 = Inr c'" by (auto simp: result_simps)
  note d = delete_document_without [OF Cons.prems(1) c1(1)]
  from Cons.IH [OF d(1) c1(2)] d(2) show ?case using without_trans [of "{did}" c c1 "set ids" c'] by simp
qed

lemma update_title_free:
  assumes "\<And>x. dr_title (f x) = dr_title x" "\<And>x. dr_id (f x) = dr_id x"
  shows "title_of (update_first p f docs) = title_of docs"
proof
  show "title_of (update_first p f docs) d = title_of docs d" for d
    using assms by (induction docs) (auto simp: title_of_def)
qed

lemma replaced_documents_inv:
  assumes "corpus_inv env c" "map dr_id docs = map dr_id (co_documents c)" "list_all (own_identity env) docs"
    and "title_of docs = title_of (co_documents c)"
  shows "corpus_inv env (c\<lparr>co_documents := docs\<rparr>)"
proof -
  have "dr_id ` set docs = dr_id ` set (co_documents c)" using assms(2) by (metis set_map)
  moreover have "fts_row docs = fts_row (co_documents c)" using assms(4) by (simp add: fts_row_def fun_eq_iff)
  ultimately show ?thesis using corpus_invD [OF assms(1)] assms(2,3) by (simp add: corpus_inv_def)
qed

lemma own_identity_cong: "dr_id x = dr_id y \<Longrightarrow> dr_source x = dr_source y \<Longrightarrow> dr_source_id x = dr_source_id y \<Longrightarrow>
    own_identity env x = own_identity env y"
  by (simp add: own_identity_def)

lemma refresh_timestamp_inv:
  assumes "corpus_inv env c"
  shows "corpus_inv env (refresh_timestamp env d c)"
proof (cases "find_document (stable_id env (doc_source d) (doc_source_id d)) c")
  case (Some r)
  let ?f = "\<lambda>x. x\<lparr>dr_updated_at := doc_updated_at d\<rparr>" and ?p = "\<lambda>x. dr_id x = stable_id env (doc_source d) (doc_source_id d)"
  have own: "list_all (own_identity env) (update_first ?p ?f xs)" if "list_all (own_identity env) xs" for xs
    using that by (induction xs) (simp_all add: own_identity_def)
  have "corpus_inv env (c\<lparr>co_documents := update_first ?p ?f (co_documents c)\<rparr>)"
    by (rule replaced_documents_inv [OF assms map_update_first_id own [OF corpus_invD(2) [OF assms]] update_title_free]) simp_all
  then have "corpus_inv env (bump_corpus_revision (c\<lparr>co_documents := update_first ?p ?f (co_documents c)\<rparr>))"
    by (simp add: bump_corpus_revision_def corpus_inv_def)
  with assms Some show ?thesis by (simp add: refresh_timestamp_def)
qed (use assms in \<open>simp add: refresh_timestamp_def\<close>)

section \<open>Steps\<close>

inductive corpus_step :: "corpus_env \<Rightarrow> corpus \<Rightarrow> corpus \<Rightarrow> bool" for env where
  step_upsert: "corpus_step env c (fst (upsert env d chunks c))"
| step_upsert_structured: "corpus_step env c (fst (upsert_structured env d specs c))"
| step_refresh: "corpus_step env c (refresh_timestamp env d c)"
| step_evaluation: "corpus_step env c (fst (insert_evaluation_corpus env ds vector c))"
| step_reconcile: "corpus_step env c (fst (reconcile env source project seen c))"
| step_backfill: "corpus_step env c (fst (backfill_project_acls env mappings c))"
| step_fingerprint: "corpus_step env c (fst (ensure_fingerprint g c))"
| step_migrate: "corpus_step env c (fst (migrate_embedding_fingerprint g h c))"
| step_begin: "corpus_step env c (fst (begin_embedding_rebuild g h c))"
| step_stage: "corpus_step env c (fst (stage_embedding_rebuild vs c))"
| step_commit: "corpus_step env c (fst (commit_embedding_rebuild g h c))"
| step_discard: "corpus_step env c (discard_embedding_rebuild c)"

definition corpus_init :: "corpus \<Rightarrow> bool" where
  "corpus_init c \<longleftrightarrow> co_documents c = [] \<and> co_chunks c = [] \<and> co_fts c = [] \<and> co_links c = [] \<and> co_code c = []"

text \<open>The revision never goes down, and while it stays the same so do the tables.\<close>

definition corpus_grows :: "corpus \<Rightarrow> corpus \<Rightarrow> bool" where
  "corpus_grows c c' \<longleftrightarrow> co_revision c \<le> co_revision c' \<and> (co_revision c' = co_revision c \<longrightarrow> same_tables c c')"

lemma plain_rows_document: "w \<in> set (plain_rows did chunks) \<Longrightarrow> cw_document w = did"
  by (auto simp: plain_rows_def)

lemma structured_rows_document: "w \<in> set (structured_rows did chunks) \<Longrightarrow> cw_document w = did"
  by (auto simp: structured_rows_def)

definition kept :: "corpus_env \<Rightarrow> corpus \<Rightarrow> corpus \<Rightarrow> bool" where
  "kept env c c' \<longleftrightarrow> corpus_inv env c' \<and> corpus_grows c c'"

lemma kept_same: "corpus_inv env c \<Longrightarrow> same_tables c c' \<Longrightarrow> co_revision c' = co_revision c \<Longrightarrow> kept env c c'"
  by (simp add: kept_def same_tables_inv corpus_grows_def)

lemma kept_refl: "corpus_inv env c \<Longrightarrow> kept env c c"
  by (simp add: kept_same)

lemma kept_bumped: "corpus_inv env c' \<Longrightarrow> co_revision c < co_revision c' \<Longrightarrow> kept env c c'"
  by (simp add: kept_def corpus_grows_def)

lemma transact_write_kept:
  assumes "corpus_inv env c" "\<And>w. w \<in> set ws \<Longrightarrow> cw_document w = dr_id (row_of_document env d)"
  shows "kept env c (fst (transact (write_document env d ws) c))"
proof (cases "write_document env d ws c")
  case (Inr c')
  then show ?thesis
    using write_document_spec(1,2) [OF assms(1) assms(2) Inr] by (simp add: transact_def kept_bumped)
qed (simp add: transact_def kept_refl assms(1))

lemma insert_evaluation_kept:
  "corpus_inv env c \<Longrightarrow> insert_evaluation env v ds c = Inr c' \<Longrightarrow>
     corpus_inv env c' \<and> co_revision c \<le> co_revision c' \<and> (co_revision c' = co_revision c \<longrightarrow> c' = c)"
proof (induction ds arbitrary: c)
  case (Cons d ds)
  let ?r = "row_of_document env d"
  let ?did = "dr_id ?r"
  obtain c1 c2 where none: "find_document ?did c = None" and p: "put_document ?r c = Inr c1"
    and i: "insert_chunks (doc_title d) (plain_rows ?did [(doc_content d, v)]) (replace_links ?did (metadata_reference_strings (doc_metadata d)) c1) = Inr c2"
    and rest: "insert_evaluation env v ds (bump_corpus_revision (replace_code_index env ?did d c2)) = Inr c'"
    using Cons.prems(2) by (auto simp: Let_def result_simps simp del: insert_chunks.simps split: if_splits)
  have own: "own_identity env ?r" by (simp add: own_identity_def row_of_document_def)
  have free: "?did \<notin> cw_document ` set (co_chunks c)"
    using none corpus_invD(4) [OF Cons.prems(1)] by (auto simp: find_document_None)
  note pd = put_document_inv [OF Cons.prems(1) own free p]
  obtain s k where row: "find_document ?did c1 = Some (?r\<lparr>dr_source := s, dr_source_id := k\<rparr>)" using pd(3) by blast
  have here: "?did \<in> dr_id ` set (co_documents c1)" using row find_document_None [of ?did c1] by auto
  let ?c1 = "replace_links ?did (metadata_reference_strings (doc_metadata d)) c1"
  have c1: "co_documents ?c1 = co_documents c1" "co_revision ?c1 = co_revision c1" by (simp_all add: replace_links_def)
  have title: "title_of (co_documents ?c1) ?did = doc_title d"
    unfolding c1 using row by (simp add: title_of_def find_document_def) (simp add: row_of_document_def)
  have here1: "?did \<in> dr_id ` set (co_documents ?c1)" unfolding c1 by (rule here)
  obtain f ws where c2: "corpus_inv env c2" "c2 = ?c1\<lparr>co_chunks := ws, co_fts := f\<rparr>"
    using insert_chunks_inv [OF replace_links_inv [OF pd(1) here] title here1 plain_rows_document [of _ ?did "[(doc_content d, v)]"] i]
    by blast
  have "co_revision c1 = co_revision c" using arg_cong [OF pd(2), of co_revision] by simp
  then have rev: "co_revision (bump_corpus_revision (replace_code_index env ?did d c2)) = co_revision c + 1"
    using c1 by (simp add: c2(2) bump_corpus_revision_def replace_code_index_def Let_def)
  have "corpus_inv env (replace_code_index env ?did d c2)" using replace_code_index_inv [OF c2(1)] here c1 c2(2) by simp
  then have "corpus_inv env (bump_corpus_revision (replace_code_index env ?did d c2))"
    by (simp add: bump_corpus_revision_def corpus_inv_def)
  from Cons.IH [OF this rest] rev show ?case by simp
qed simp

lemma backfill_tables: "backfill env ms n c = Inr (c', n') \<Longrightarrow> n \<le> n' \<and> co_revision c' = co_revision c
    \<and> (n' = n \<longrightarrow> c' = c) \<and> (corpus_inv env c \<longrightarrow> corpus_inv env c')"
proof (induction ms arbitrary: n c)
  case (Cons m ms)
  obtain project labels where m: "m = (project, labels)" by (cases m)
  let ?open = "\<lambda>r. dr_project r = project \<and> dr_acl_json r = ''[]''"
  let ?f = "\<lambda>r. if ?open r then r\<lparr>dr_acl_json := ev_json env (JArray (map JString labels))\<rparr> else r"
  let ?c = "c\<lparr>co_documents := map ?f (co_documents c)\<rparr>"
  have next': "backfill env ms (n + length (filter ?open (co_documents c))) ?c = Inr (c', n')"
    using Cons.prems by (simp add: m result_simps Let_def split: if_splits)
  have same: "?c = c" if "filter ?open (co_documents c) = []"
  proof -
    have "map ?f (co_documents c) = map (\<lambda>r. r) (co_documents c)"
      using that by (intro map_cong) (auto simp: filter_empty_conv)
    then show ?thesis by simp
  qed
  have f: "dr_id (?f r) = dr_id r" "dr_title (?f r) = dr_title r" "own_identity env (?f r) = own_identity env r" for r
    by (simp_all add: own_identity_def)
  have ids: "map dr_id (map ?f docs) = map dr_id docs" for docs by (induction docs) simp_all
  have own: "list_all (own_identity env) (map ?f docs) = list_all (own_identity env) docs" for docs
    using f(3) by (induction docs) simp_all
  have title: "title_of (map ?f docs) = title_of docs" for docs
  proof
    show "title_of (map ?f docs) d = title_of docs d" for d
      by (induction docs) (simp_all add: title_of_def)
  qed
  have inv: "corpus_inv env ?c" if "corpus_inv env c"
    using replaced_documents_inv [OF that ids _ title] own corpus_invD(2) [OF that] by blast
  from Cons.IH [OF next'] same inv show ?case by (cases "filter ?open (co_documents c) = []") auto
qed simp

lemma upsert_kept: "corpus_inv env c \<Longrightarrow> kept env c (fst (upsert env d chunks c))"
  using transact_write_kept [of env c "plain_rows (dr_id (row_of_document env d)) chunks" d] plain_rows_document
  by (auto simp: upsert_def kept_refl row_of_document_def)

lemma upsert_structured_kept: "corpus_inv env c \<Longrightarrow> kept env c (fst (upsert_structured env d specs c))"
  using transact_write_kept [of env c "structured_rows (dr_id (row_of_document env d)) specs" d] structured_rows_document
  by (auto simp: upsert_structured_def Let_def kept_refl row_of_document_def)

lemma refresh_timestamp_kept: "corpus_inv env c \<Longrightarrow> kept env c (refresh_timestamp env d c)"
  using refresh_timestamp_inv [of env c d]
  by (auto simp: refresh_timestamp_def Let_def bump_corpus_revision_def kept_refl intro!: kept_bumped split: option.splits)

lemma reconcile_kept:
  assumes "corpus_inv env c"
  shows "kept env c (fst (reconcile env source project seen c))"
proof (cases "delete_documents env (stale_documents source project seen c) c")
  case (Inr c')
  note d = delete_documents_without [OF assms Inr]
  show ?thesis
  proof (cases "stale_documents source project seen c = []")
    case True
    with Inr show ?thesis using kept_refl [OF assms] by (simp add: reconcile_def)
  next
    case False
    have "corpus_inv env (bump_corpus_revision c')" using d by (simp add: bump_corpus_revision_def corpus_inv_def)
    with d False Inr show ?thesis
      by (simp add: reconcile_def Let_def) (rule kept_bumped, simp_all add: bump_corpus_revision_def without_def)
  qed
qed (simp add: reconcile_def kept_refl assms Let_def)

lemma insert_evaluation_corpus_kept: "corpus_inv env c \<Longrightarrow> kept env c (fst (insert_evaluation_corpus env ds v c))"
  using insert_evaluation_kept [of env c v ds]
  by (auto simp: insert_evaluation_corpus_def transact_def kept_refl kept_def corpus_grows_def split: sum.splits)

lemma bumped_inv: "corpus_inv env (bump_corpus_revision c) = corpus_inv env c" "co_revision (bump_corpus_revision c) = co_revision c + 1"
  by (simp_all add: bump_corpus_revision_def corpus_inv_def)

lemma backfill_kept:
  assumes "corpus_inv env c"
  shows "kept env c (fst (backfill_project_acls env ms c))"
proof (cases "backfill env ms 0 c")
  case (Inr res)
  obtain c' n where "res = (c', n)" by (cases res)
  with Inr have b: "backfill env ms 0 c = Inr (c', n)" by simp
  from backfill_tables [OF this] assms show ?thesis
    using kept_refl [OF assms] by (cases "n = 0") (auto simp: backfill_project_acls_def b bumped_inv intro!: kept_bumped)
qed (use assms in \<open>simp add: backfill_project_acls_def kept_refl\<close>)

lemma stage_tables: "stage vs c = Inr c' \<Longrightarrow> \<exists>st. c' = c\<lparr>co_rebuild := st\<rparr>"
proof (induction vs c rule: stage.induct)
  case (1 c)
  then show ?case by (auto intro: exI [of _ "co_rebuild c"])
qed (fastforce simp: result_simps split: if_splits)

lemma rebuilt_chunks_inv: "corpus_inv env c \<Longrightarrow> corpus_inv env (c\<lparr>co_chunks := map (\<lambda>w. w\<lparr>cw_blob := f (cw_id w)\<rparr>) (co_chunks c)\<rparr>)"
  by (simp add: corpus_inv_def o_def image_image fts_row_def)

lemma commit_kept:
  assumes "corpus_inv env c"
  shows "kept env c (fst (commit_embedding_rebuild g h c))"
proof -
  have "corpus_inv env (bump_corpus_revision ((meta_put k v c)\<lparr>co_chunks := map (\<lambda>w. w\<lparr>cw_blob := f (cw_id w)\<rparr>) (co_chunks c),
      co_embedding_cache := [], co_query_cache := [], co_rebuild := None\<rparr>))" for k v f
    using rebuilt_chunks_inv [OF assms, of f] by (simp add: corpus_inv_def bump_corpus_revision_def meta_put_def)
  then show ?thesis
    by (auto simp: commit_embedding_rebuild_def kept_refl assms split: sum.splits intro!: kept_bumped)
      (simp add: bump_corpus_revision_def meta_put_def)
qed

lemmas kept_steps = upsert_kept upsert_structured_kept refresh_timestamp_kept reconcile_kept insert_evaluation_corpus_kept
  backfill_kept commit_kept

lemma corpus_step_kept:
  assumes "corpus_step env c c'" "corpus_inv env c"
  shows "kept env c c'"
  using assms
proof (cases rule: corpus_step.cases)
  case (step_stage vs)
  then show ?thesis using assms(2) stage_tables [of vs c]
    by (auto simp: stage_embedding_rebuild_def kept_refl same_tables_def intro!: kept_same split: sum.splits)
qed (auto intro: kept_steps kept_same simp: same_tables_def ensure_fingerprint_def migrate_embedding_fingerprint_def
    begin_embedding_rebuild_def discard_embedding_rebuild_def meta_put_def split: option.splits sum.splits)

interpretation co: stepwise corpus_init "corpus_step env" "corpus_inv env" corpus_grows for env
proof
  show "corpus_init c \<Longrightarrow> corpus_inv env c" for c by (simp add: corpus_init_def corpus_inv_def)
  show "corpus_inv env c \<Longrightarrow> corpus_step env c c' \<Longrightarrow> corpus_inv env c'" for c c'
    using corpus_step_kept by (auto simp: kept_def)
  show "corpus_inv env c \<Longrightarrow> corpus_step env c c' \<Longrightarrow> corpus_grows c c'" for c c'
    using corpus_step_kept by (auto simp: kept_def)
qed (auto simp: corpus_grows_def same_tables_def)

section \<open>The journal of the corpus\<close>

lemma latest_row_None: "latest_row rs = None \<longleftrightarrow> rs = []"
  by (cases rs) (auto split: option.splits if_splits)

lemma latest_row_max: "latest_row rs = Some r \<Longrightarrow> x \<in> set rs \<Longrightarrow> jr_revision x \<le> jr_revision r"
proof (induction rs arbitrary: r)
  case (Cons a rs)
  show ?case
  proof (cases "latest_row rs")
    case None
    with Cons.prems show ?thesis by (auto simp: latest_row_None)
  next
    case (Some t)
    with Cons.prems Cons.IH [OF Some] show ?thesis by (auto split: if_splits)
  qed
qed simp

lemma latest_row_snoc: "(\<And>x. x \<in> set rs \<Longrightarrow> jr_revision x < jr_revision r) \<Longrightarrow> latest_row (rs @ [r]) = Some r"
proof (induction rs)
  case (Cons a rs)
  then have "latest_row (rs @ [r]) = Some r" "jr_revision a < jr_revision r" by simp_all
  then show ?case by simp
qed simp

definition journalled :: "corpus_env \<Rightarrow> string \<Rightarrow> corpus \<Rightarrow> bool" where
  "journalled env did c \<longleftrightarrow> (\<forall>origin. sy_self (co_sync c) = Some origin \<longrightarrow> (\<exists>j. latest ''document'' did (co_sync c) = Some j
     \<and> jr_tombstone j = (find_document did c = None) \<and> jr_fingerprint j = (case find_document did c of None \<Rightarrow> ''deleted''
         | Some r \<Rightarrow> fingerprint_value (ev_sync env) (document_columns r))))"

text \<open>The journal always takes the entry, and its newest row then describes the document; the rows of
  other documents are as they were.\<close>

lemma journal_document_ok:
  "\<exists>st. journal_document env did c = Inr (c\<lparr>co_sync := st\<rparr>) \<and> journalled env did (c\<lparr>co_sync := st\<rparr>)
     \<and> sy_self st = sy_self (co_sync c) \<and> (\<forall>d. d \<noteq> did \<longrightarrow> latest ''document'' d st = latest ''document'' d (co_sync c))"
proof (cases "sy_self (co_sync c)")
  case None
  then have "journal_document env did c = Inr (c\<lparr>co_sync := sync_view c\<rparr>)"
    by (simp add: journal_document_def journal_object_def sync_view_def)
  then show ?thesis using None by (intro exI [of _ "sync_view c"]) (simp add: journalled_def sync_view_def latest_def)
next
  case (Some origin)
  let ?v = "sync_view c" and ?k = "''document''"
  let ?row = "find_document did c"
  let ?fp = "case ?row of None \<Rightarrow> ''deleted'' | Some r \<Rightarrow> fingerprint_value (ev_sync env) (document_columns r)"
  let ?entry = "\<lambda>n. \<lparr>jr_id = sy_next_journal ?v, jr_kind = ?k, jr_object = did, jr_revision = n, jr_origin = origin,
     jr_fingerprint = ?fp, jr_tombstone = (?row = None), jr_changed_at = sx_now (ev_sync env)\<rparr>"
  let ?added = "\<lambda>n. ?v\<lparr>sy_journal := sy_journal ?v @ [?entry n], sy_next_journal := sy_next_journal ?v + 1\<rparr>"
  let ?good = "\<lambda>st. journal_document env did c = Inr (c\<lparr>co_sync := st\<rparr>) \<and> journalled env did (c\<lparr>co_sync := st\<rparr>)
     \<and> sy_self st = sy_self (co_sync c) \<and> (\<forall>d. d \<noteq> did \<longrightarrow> latest ?k d st = latest ?k d (co_sync c))"
  have self: "sy_self ?v = Some origin" using Some by (simp add: sync_view_def)
  have fp: "row_fingerprint (ev_sync env) ?k did ?v = Inr (map_option (fingerprint_value (ev_sync env) \<circ> document_columns) ?row)"
    by (simp add: row_fingerprint_def columns_for_kind_def sync_view_def option.map_comp)
  have fpe: "(case map_option (fingerprint_value (ev_sync env) \<circ> document_columns) ?row of None \<Rightarrow> ''deleted'' | Some f \<Rightarrow> f) = ?fp"
    by (cases ?row) simp_all
  have row: "find_document did (c\<lparr>co_sync := st\<rparr>) = ?row" for st by (simp add: find_document_def)
  have others: "latest ?k d (?added n) = latest ?k d (co_sync c)" "latest ?k d ?v = latest ?k d (co_sync c)" if "d \<noteq> did" for d n
    using that by (simp_all add: latest_def of_object_def sync_view_def)
  have added: "?good (?added n)" if ok: "journal_object (ev_sync env) ?k did ?v = bindE (insert_journal ?k did n origin ?fp (?row = None) (sx_now (ev_sync env)) ?v) (\<lambda>st. Inr (st, True))"
    and less: "\<And>j. j \<in> set (filter (of_object ?k did) (sy_journal ?v)) \<Longrightarrow> jr_revision j < n" for n
  proof -
    have "latest ?k did (?added n) = Some (?entry n)"
      using latest_row_snoc [of "filter (of_object ?k did) (sy_journal ?v)" "?entry n"] less by (simp add: latest_def of_object_def)
    moreover have "journal_document env did c = Inr (c\<lparr>co_sync := ?added n\<rparr>)"
      using less by (simp add: journal_document_def ok insert_journal_def list_ex_iff) blast
    ultimately show ?thesis using others self by (simp add: journalled_def row) (simp add: sync_view_def)
  qed
  show ?thesis
  proof (cases "latest ?k did ?v")
    case None
    then have "filter (of_object ?k did) (sy_journal ?v) = []" by (simp add: latest_def latest_row_None)
    moreover have "journal_object (ev_sync env) ?k did ?v
        = bindE (insert_journal ?k did 1 origin ?fp (?row = None) (sx_now (ev_sync env)) ?v) (\<lambda>st. Inr (st, True))"
      using fpe by (simp add: journal_object_def self fp None Let_def)
    ultimately have "?good (?added 1)" by (intro added) simp_all
    then show ?thesis by blast
  next
    case (Some j)
    show ?thesis
    proof (cases "jr_fingerprint j = ?fp \<and> jr_tombstone j = (?row = None)")
      case True
      then have "journal_document env did c = Inr (c\<lparr>co_sync := ?v\<rparr>)"
        using fpe by (simp add: journal_document_def journal_object_def self fp Some Let_def)
      then have "?good ?v" using True Some others by (simp add: journalled_def row) (simp add: sync_view_def)
      then show ?thesis by blast
    next
      case False
      then have "journal_object (ev_sync env) ?k did ?v
        = bindE (insert_journal ?k did (jr_revision j + 1) origin ?fp (?row = None) (sx_now (ev_sync env)) ?v) (\<lambda>st. Inr (st, True))"
        by (simp only: journal_object_def self fp Some Let_def fpe option.case bindE.simps option.map_disc_iff if_not_P [OF False] if_False)
      moreover have "jr_revision x < jr_revision j + 1" if "x \<in> set (filter (of_object ?k did) (sy_journal ?v))" for x
        using latest_row_max [OF Some [unfolded latest_def] that] by simp
      ultimately have "?good (?added (jr_revision j + 1))" by (intro added) simp_all
      then show ?thesis by blast
    qed
  qed
qed

section \<open>Properties\<close>

text \<open>
  C24. The corpus stays consistent. In every state the store's operations lead to from an empty corpus,
  identifiers are unique and made from source and source identifier, chunks, links and code indexes
  belong to documents, and the full-text table holds exactly the chunks, under the current titles.
  The revision never goes down, and two states of one run with the same revision have the same
  documents, chunks and derived rows, so an answer kept under a revision is an answer about them. The
  import of synchronised entries (\<open>SyncEngine\<close>) writes documents without raising the revision; it is not
  among the operations.
\<close>

theorem corpus_stays_consistent:
  assumes "reachable corpus_init (corpus_step env) c" "(corpus_step env)\<^sup>*\<^sup>* c c'"
  shows "corpus_inv env c \<and> co_fts c = map (\<lambda>w. (cw_id w, title_of (co_documents c) (cw_document w), cw_content w)) (co_chunks c)
    \<and> co_revision c \<le> co_revision c' \<and> (co_revision c' = co_revision c \<longrightarrow> same_tables c c')"
  using co.always_inv [OF assms(1)] co.always_grow [OF assms] corpus_invD(5)
  by (auto simp: corpus_grows_def fts_row_def)

definition ex_corpus_env :: corpus_env where
  "ex_corpus_env = \<lparr>ev_sha256_hex = \<lambda>s. s, ev_json = \<lambda>v. (case get_str ''title'' v of None \<Rightarrow> ''json'' | Some t \<Rightarrow> t), ev_parse = \<lambda>d. \<lparr>po_language = ''rust'', po_parser = ''p'',
     po_content_hash = [], po_status = ''Complete'', po_cache_key = []\<rparr>, ev_output = \<lambda>out. [], ev_read_output = \<lambda>s. None,
     ev_cache_key = \<lambda>d. [], ev_parser_version = ''p'', ev_sync = ex_sync_env\<rparr>"

definition ex_corpus :: corpus where
  "ex_corpus = \<lparr>co_documents = [], co_chunks = [], co_fts = [], co_links = [], co_code = [], co_meta = \<lambda>k. None, co_revision = 0,
     co_embedding_cache = [], co_query_cache = [], co_rebuild = None, co_sync = ex_sync ''a''\<rparr>"

definition ex_document :: "string \<Rightarrow> string \<Rightarrow> string \<Rightarrow> document" where
  "ex_document oid title content = \<lparr>doc_source = ''mail'', doc_source_id = oid, doc_content = content, doc_metadata = JNull,
     doc_title = title, doc_uri = None, doc_updated_at = ''t'', doc_project = ''w'', doc_acl = []\<rparr>"

theorem corpus_stays_consistent_witness:
  "co_fts (fst (upsert ex_corpus_env (ex_document ''1'' ''hi'' ''text'') [(''text'', [1])] ex_corpus)) \<noteq> []
   \<and> corpus_inv ex_corpus_env (fst (upsert ex_corpus_env (ex_document ''1'' ''hi'' ''text'') [(''text'', [1])] ex_corpus))"
proof -
  let ?c = "fst (upsert ex_corpus_env (ex_document ''1'' ''hi'' ''text'') [(''text'', [1])] ex_corpus)"
  have "reachable corpus_init (corpus_step ex_corpus_env) ex_corpus"
    by (rule reachable_start) (simp add: corpus_init_def ex_corpus_def)
  then have "reachable corpus_init (corpus_step ex_corpus_env) ?c"
    by (rule reachable_step) (rule step_upsert)
  note inv = corpus_stays_consistent [OF this rtranclp.rtrancl_refl]
  obtain st where st: "journal_document ex_corpus_env did c = Inr (c\<lparr>co_sync := st did c\<rparr>)" for did c
    using journal_document_ok [of ex_corpus_env] by metis
  have "co_fts ?c \<noteq> []"
    by (simp add: upsert_def unchanged_def find_document_def ex_corpus_def ex_document_def transact_def write_document_def
        enforce_tenant_quota_def meta_value_def Let_def put_document_def delete_chunks_def plain_rows_def enumerate_eq_zip
        row_of_document_def insert_chunk_def replace_links_def st bump_corpus_revision_def replace_code_index_def)
  with inv show ?thesis by blast
qed

lemma write_document_journalled:
  assumes "write_document env d ws c = Inr c'"
  shows "journalled env (stable_id env (doc_source d) (doc_source_id d)) c'"
proof -
  let ?did = "stable_id env (doc_source d) (doc_source_id d)"
  obtain c3 c4 where "journal_document env ?did (replace_code_index env ?did d c3) = Inr c4" and c': "c' = bump_corpus_revision c4"
    using assms by (auto simp: write_document_def Let_def result_simps row_of_document_def)
  with journal_document_ok [of env ?did "replace_code_index env ?did d c3"] have "journalled env ?did c4" by auto
  then show ?thesis by (simp add: journalled_def c' bump_corpus_revision_def find_document_def)
qed

text \<open>
  An upsert installs the document and is idempotent. If it reports a change, the store holds the
  document with its content, hash and fields under its identifier, its chunks are the given ones in
  their order, every other document and its chunks are as before, the journal describes the new row,
  and the revision is one more; the store reports no change exactly when hash, content and code index
  are current, and then nothing changes. Repeating a successful upsert, with any chunks, reports no
  change, when the content is not empty and the code index written can be read back as current. An
  upsert that fails changes nothing.
\<close>

theorem upsert_installs:
  assumes inv: "corpus_inv env c" and up: "upsert env d chunks c = (c', res)"
  defines "did \<equiv> stable_id env (doc_source d) (doc_source_id d)"
  shows "(case res of Inl e \<Rightarrow> c' = c
    | Inr False \<Rightarrow> c' = c \<and> unchanged env d c
    | Inr True \<Rightarrow> \<not> unchanged env d c \<and> co_revision c' = co_revision c + 1 \<and> journalled env did c'
        \<and> (\<exists>s i. find_document did c' = Some ((row_of_document env d)\<lparr>dr_source := s, dr_source_id := i\<rparr>) \<and> stable_id env s i = did)
        \<and> filter (\<lambda>w. cw_document w = did) (co_chunks c') = plain_rows did chunks
        \<and> (\<forall>other. other \<noteq> did \<longrightarrow> find_document other c' = find_document other c
             \<and> filter (\<lambda>w. cw_document w = other) (co_chunks c') = filter (\<lambda>w. cw_document w = other) (co_chunks c))
        \<and> (0 < sqlite_length (doc_content d)
             \<and> (json_get ''code'' (doc_metadata d) = None \<or> code_index_current env d (Some (ev_output env (ev_parse env d))))
             \<longrightarrow> (\<forall>chunks'. upsert env d chunks' c' = (c', Inr False))))"
proof (cases "unchanged env d c")
  case True
  with up show ?thesis by (auto simp: upsert_def)
next
  case False
  let ?ws = "plain_rows did chunks"
  have r: "dr_id (row_of_document env d) = did" by (simp add: did_def row_of_document_def)
  show ?thesis
  proof (cases "write_document env d ?ws c")
    case (Inl e)
    with False up show ?thesis by (auto simp: upsert_def transact_def did_def)
  next
    case (Inr c1)
    with False up have res: "c' = c1" "res = Inr True" by (auto simp: upsert_def transact_def did_def)
    note W = write_document_spec [OF inv plain_rows_document [of _ did chunks, folded r] Inr, unfolded r]
    obtain s i where row: "find_document did c1 = Some ((row_of_document env d)\<lparr>dr_source := s, dr_source_id := i\<rparr>)" "stable_id env s i = did"
      using W(4) by blast
    have chunks: "filter (\<lambda>w. cw_document w = did) (co_chunks c1) = ?ws"
      "\<And>other. other \<noteq> did \<Longrightarrow> filter (\<lambda>w. cw_document w = other) (co_chunks c1) = filter (\<lambda>w. cw_document w = other) (co_chunks c)"
      using plain_rows_document by (auto simp: W(3) filter_empty_conv intro!: filter_True filter_cong)
    have again: "unchanged env d c1" if "0 < sqlite_length (doc_content d)"
      "json_get ''code'' (doc_metadata d) = None \<or> code_index_current env d (Some (ev_output env (ev_parse env d)))"
      using row W(6) that by (auto simp: unchanged_def did_def [symmetric] Let_def row_of_document_def code_index_current_def)
    show ?thesis
      using row chunks W(2,5) again False write_document_journalled [OF Inr]
      by (auto simp: res did_def upsert_def)
  qed
qed

lemmas evaluate_upsert = upsert_def unchanged_def find_document_def ex_corpus_def ex_document_def transact_def
  write_document_def enforce_tenant_quota_def meta_value_def meta_put_def Let_def put_document_def delete_chunks_def plain_rows_def
  enumerate_eq_zip row_of_document_def insert_chunk_def replace_links_def bump_corpus_revision_def replace_code_index_def

theorem upsert_installs_witness:
  "(let d = ex_document ''1'' ''hi'' ''text''; c = fst (upsert ex_corpus_env d [(''text'', [1])] ex_corpus) in
    co_revision c = 1 \<and> upsert ex_corpus_env d [] c = (c, Inr False))"
proof -
  let ?d = "ex_document ''1'' ''hi'' ''text''" let ?c = "fst (upsert ex_corpus_env ?d [(''text'', [1])] ex_corpus)"
  obtain st where st: "journal_document ex_corpus_env did c = Inr (c\<lparr>co_sync := st did c\<rparr>)" for did c
    using journal_document_ok [of ex_corpus_env] by metis
  have inv: "corpus_inv ex_corpus_env ex_corpus" by (simp add: corpus_inv_def ex_corpus_def)
  have up: "upsert ex_corpus_env ?d [(''text'', [1])] ex_corpus = (?c, Inr True)"
    by (simp add: evaluate_upsert st)
  have "0 < sqlite_length (doc_content ?d)" "json_get ''code'' (doc_metadata ?d) = None" "co_revision ex_corpus = 0"
    by (simp_all add: ex_document_def sqlite_length_def json_get_def ex_corpus_def byte_def)
  with upsert_installs [OF inv up] show ?thesis by (simp add: Let_def)
qed

lemma delete_document_ok:
  assumes "journalled env x c \<and> find_document x c = None \<or> x = did"
  shows "\<exists>c'. delete_document env did c = Inr c' \<and> journalled env x c' \<and> find_document x c' = None"
proof -
  let ?c1 = "release_tenant_bytes did (delete_chunks did c)"
  let ?c2 = "?c1\<lparr>co_documents := filter (\<lambda>r. dr_id r \<noteq> did) (co_documents ?c1),
       co_links := filter (\<lambda>l. fst l \<noteq> did) (co_links ?c1), co_code := filter (\<lambda>i. ci_document i \<noteq> did) (co_code ?c1)\<rparr>"
  have sync: "co_sync ?c1 = co_sync c" by (simp add: release_tenant_bytes_def delete_chunks_def meta_put_def Let_def)
  have docs: "co_documents ?c1 = co_documents c" by (simp add: release_tenant_bytes_def delete_chunks_def meta_put_def Let_def)
  obtain st where st: "journal_document env did ?c2 = Inr (?c2\<lparr>co_sync := st\<rparr>)" "journalled env did (?c2\<lparr>co_sync := st\<rparr>)"
    "sy_self st = sy_self (co_sync c)" "\<And>d. d \<noteq> did \<Longrightarrow> latest ''document'' d st = latest ''document'' d (co_sync c)"
    using journal_document_ok [of env did ?c2] sync by auto
  have "find_document x (?c2\<lparr>co_sync := st\<rparr>) = None"
    using assms by (auto simp: find_document_def docs find_filter_none) (auto simp: find_None_iff)
  moreover have "journalled env x (?c2\<lparr>co_sync := st\<rparr>)"
  proof (cases "x = did")
    case False
    with assms have x: "journalled env x c" "find_document x c = None" by auto
    have "latest ''document'' x st = latest ''document'' x (co_sync c)" using st(4) False by simp
    with x calculation st(3) show ?thesis unfolding journalled_def by simp
  qed (use st(2) in simp)
  ultimately show ?thesis using st(1) by (auto simp: delete_document_def Let_def)
qed

lemma delete_documents_ok:
  "\<exists>c'. delete_documents env dids c = Inr c' \<and> (\<forall>x \<in> set dids. journalled env x c' \<and> find_document x c' = None)
     \<and> (\<forall>x. journalled env x c \<and> find_document x c = None \<longrightarrow> journalled env x c' \<and> find_document x c' = None)"
proof (induction dids arbitrary: c)
  case (Cons did dids)
  obtain c1 where c1: "delete_document env did c = Inr c1" "journalled env did c1" "find_document did c1 = None"
    using delete_document_ok [of env did c did] by auto
  have keep: "journalled env x c1 \<and> find_document x c1 = None" if "journalled env x c \<and> find_document x c = None" for x
    using delete_document_ok [of env x c did] that c1(1) by auto
  from Cons.IH [of c1] c1 keep show ?case by auto
qed simp

lemma reconcile_exact:
  fixes source project :: string and seen :: "string list"
  assumes inv: "corpus_inv env c"
  defines "stale \<equiv> \<lambda>r. dr_source r = source \<and> dr_project r = project \<and> dr_source_id r \<notin> set seen"
  shows "\<exists>c'. reconcile env source project seen c = (c', Inr (length (filter stale (co_documents c))))
    \<and> co_documents c' = filter (\<lambda>r. \<not> stale r) (co_documents c)
    \<and> co_chunks c' = filter (\<lambda>w. \<exists>r \<in> set (co_documents c'). dr_id r = cw_document w) (co_chunks c)
    \<and> (\<forall>r \<in> set (co_documents c). stale r \<longrightarrow> journalled env (dr_id r) c' \<and> find_document (dr_id r) c' = None)
    \<and> co_revision c' = (if filter stale (co_documents c) = [] then co_revision c else co_revision c + 1)"
proof -
  let ?ids = "stale_documents source project seen c"
  have ids: "?ids = map dr_id (filter stale (co_documents c))" by (simp add: stale_documents_def stale_def)
  obtain c1 where c1: "delete_documents env ?ids c = Inr c1" "\<forall>x \<in> set ?ids. journalled env x c1 \<and> find_document x c1 = None"
    using delete_documents_ok [of env ?ids c] by blast
  have W: "co_documents c1 = filter (\<lambda>r. dr_id r \<notin> set ?ids) (co_documents c)"
    "co_chunks c1 = filter (\<lambda>w. cw_document w \<notin> set ?ids) (co_chunks c)" "co_revision c1 = co_revision c"
    using delete_documents_without [OF inv c1(1)] by (simp_all add: without_def)
  have "dr_id r \<in> set ?ids \<longleftrightarrow> stale r" if "r \<in> set (co_documents c)" for r
    using that corpus_invD(1) [OF inv] by (auto simp: ids distinct_map dest: inj_onD)
  then have docs: "co_documents c1 = filter (\<lambda>r. \<not> stale r) (co_documents c)"
    unfolding W(1) by (intro filter_cong) auto
  have "cw_document w \<notin> set ?ids \<longleftrightarrow> (\<exists>r \<in> set (co_documents c1). dr_id r = cw_document w)" if w: "w \<in> set (co_chunks c)" for w
  proof -
    obtain r where "r \<in> set (co_documents c)" "cw_document w = dr_id r"
      using subsetD [OF corpus_invD(4) [OF inv] imageI [OF w]] by (rule imageE) (rule that; assumption)
    then show ?thesis unfolding W(1) by auto
  qed
  then have chunks: "co_chunks c1 = filter (\<lambda>w. \<exists>r \<in> set (co_documents c1). dr_id r = cw_document w) (co_chunks c)"
    unfolding W(2) by (intro filter_cong) auto
  define c' where "c' = (if ?ids = [] then c1 else bump_corpus_revision c1)"
  have T: "co_documents c' = co_documents c1" "co_chunks c' = co_chunks c1" "journalled env x c' = journalled env x c1"
    "find_document x c' = find_document x c1" for x
    by (simp_all add: c'_def bump_corpus_revision_def journalled_def find_document_def)
  have "reconcile env source project seen c = (c', Inr (length (filter stale (co_documents c))))"
    by (simp add: reconcile_def Let_def c1(1) c'_def) (simp add: ids)
  moreover have "co_revision c' = (if filter stale (co_documents c) = [] then co_revision c else co_revision c + 1)"
    by (simp add: c'_def bumped_inv W(3)) (simp add: ids)
  moreover have "journalled env (dr_id r) c' \<and> find_document (dr_id r) c' = None" if "r \<in> set (co_documents c)" "stale r" for r
    using c1(2) that by (auto simp: ids T)
  ultimately show ?thesis using docs chunks unfolding T [symmetric] by blast
qed

text \<open>
  Reconciliation removes what a source no longer has. It always succeeds, and removes exactly the
  documents of the source and project whose identifier was not seen, with their chunks, links and
  code indexes; the journal then has a tombstone for each of them. It reports their number, and the
  revision goes up by one if there was any.
\<close>

theorem reconcile_removes_the_unseen:
  fixes source project :: string and seen :: "string list"
  assumes inv: "corpus_inv env c"
  defines "stale \<equiv> \<lambda>r. dr_source r = source \<and> dr_project r = project \<and> dr_source_id r \<notin> set seen"
  shows "\<exists>c'. reconcile env source project seen c = (c', Inr (length (filter stale (co_documents c))))
    \<and> co_documents c' = filter (\<lambda>r. \<not> stale r) (co_documents c)
    \<and> co_chunks c' = filter (\<lambda>w. \<exists>r \<in> set (co_documents c'). dr_id r = cw_document w) (co_chunks c)
    \<and> (\<forall>r \<in> set (co_documents c). stale r \<longrightarrow> journalled env (dr_id r) c' \<and> find_document (dr_id r) c' = None)
    \<and> co_revision c' = (if filter stale (co_documents c) = [] then co_revision c else co_revision c + 1)"
  using reconcile_exact [OF inv] unfolding stale_def .

theorem reconcile_removes_the_unseen_witness:
  "(let c = fst (upsert ex_corpus_env (ex_document ''1'' ''hi'' ''text'') [(''text'', [1])] ex_corpus);
        (c', res) = reconcile ex_corpus_env ''mail'' ''w'' [] c in
    co_documents c \<noteq> [] \<and> co_documents c' = [] \<and> co_chunks c' = [] \<and> res = Inr 1)"
proof -
  let ?c = "fst (upsert ex_corpus_env (ex_document ''1'' ''hi'' ''text'') [(''text'', [1])] ex_corpus)"
  obtain st where st: "journal_document ex_corpus_env did c = Inr (c\<lparr>co_sync := st did c\<rparr>)" for did c
    using journal_document_ok [of ex_corpus_env] by metis
  have "corpus_inv ex_corpus_env ex_corpus" by (simp add: corpus_inv_def ex_corpus_def)
  then have inv: "corpus_inv ex_corpus_env ?c" using upsert_kept by (simp add: kept_def)
  have "\<exists>r. co_documents ?c = [r] \<and> dr_source r = ''mail'' \<and> dr_project r = ''w''" by (simp add: evaluate_upsert st)
  with reconcile_removes_the_unseen [OF inv, of "''mail''" "''w''" "[]"] show ?thesis by auto
qed

section \<open>Quota accounting\<close>

lemma decimal_digits: "decimal n \<noteq> [] \<and> list_all (\<lambda>c. 48 \<le> byte c \<and> byte c \<le> 57) (decimal n)
    \<and> fold (\<lambda>c n. 10 * n + (byte c - 48)) (decimal n) 0 = n"
proof (induction n rule: decimal.induct)
  case (1 n)
  then show ?case by (cases "n < 10") (auto simp: decimal.simps [of n] byte_def)
qed

lemma parse_decimal: "n < 2 ^ 64 \<Longrightarrow> parse_u64 (decimal n) = Some n"
proof -
  assume n: "n < 2 ^ 64"
  obtain x xs where x: "decimal n = x # xs" using decimal_digits [of n] by (cases "decimal n") auto
  then have "x \<noteq> CHR ''+''" using decimal_digits [of n] by (auto simp: byte_def)
  then show ?thesis using decimal_digits [of n] x n by (simp add: parse_u64_def)
qed

definition plain_text :: "string \<Rightarrow> bool" where
  "plain_text s \<longleftrightarrow> list_all (\<lambda>c. 0 < byte c \<and> byte c < 128) s"

lemma plain_length: "plain_text s \<Longrightarrow> sqlite_length s = length s"
proof -
  assume p: "plain_text s"
  then have "\<forall>x \<in> set s. x \<noteq> CHR 0x00" by (auto simp: plain_text_def list_all_iff byte_def)
  then have "takeWhile (\<lambda>c. c \<noteq> CHR 0x00) s = s" by (simp add: takeWhile_eq_all_conv)
  moreover have "list_all (\<lambda>c. byte c < 128) s" using p by (simp add: plain_text_def list_all_iff)
  ultimately show ?thesis by (simp only: sqlite_length_def utf8_chars_ascii length_map)
qed

definition content_bytes :: "corpus \<Rightarrow> nat" where
  "content_bytes c = sum_list (map (length \<circ> dr_content) (co_documents c))"

definition bytes_used :: "corpus \<Rightarrow> nat" where
  "bytes_used c = (case meta_value ''tenant.bytes_used'' c of None \<Rightarrow> 0 | Some n \<Rightarrow> n)"

definition quota_ok :: "nat \<Rightarrow> nat \<Rightarrow> corpus \<Rightarrow> bool" where
  "quota_ok m q c \<longleftrightarrow> meta_value ''tenant.max_documents'' c = Some m \<and> meta_value ''tenant.storage_quota_bytes'' c = Some q
     \<and> bytes_used c = content_bytes c \<and> content_bytes c \<le> q \<and> length (co_documents c) \<le> m
     \<and> list_all (plain_text \<circ> dr_content) (co_documents c)"

lemma sum_update_first: "find p xs = Some x \<Longrightarrow> sum_list (map f (update_first p g xs)) + f x = sum_list (map f xs) + (f (g x) :: nat)"
  by (induction xs) (auto split: if_splits)

lemma sum_filter_key:
  "distinct (map k xs) \<Longrightarrow> find (\<lambda>y. k y = i) xs = Some x \<Longrightarrow> sum_list (map f (filter (\<lambda>y. k y \<noteq> i) xs)) + f x = (sum_list (map f xs) :: nat)"
proof (induction xs)
  case (Cons a xs)
  show ?case
  proof (cases "k a = i")
    case True
    with Cons.prems have "filter (\<lambda>y. k y \<noteq> i) xs = xs" by (auto simp: filter_id_conv image_iff)
    with True Cons.prems show ?thesis by simp
  qed (use Cons in auto)
qed simp

lemma stored_plain: "list_all (plain_text \<circ> dr_content) (co_documents c) \<Longrightarrow> stored_length did c =
    (case find_document did c of None \<Rightarrow> 0 | Some r \<Rightarrow> length (dr_content r))"
  by (auto simp: stored_length_def list_all_iff plain_length dest: find_document_eq split: option.split)

lemma meta_put_value: "n < 2 ^ 64 \<Longrightarrow> meta_value k (meta_put k' (decimal n) c) = (if k = k' then Some n else meta_value k c)"
  by (simp add: meta_value_def meta_put_def parse_decimal)

lemma write_document_quota:
  assumes "write_document env d ws c = Inr c'"
  defines "r \<equiv> row_of_document env d"
  shows "\<exists>c1. enforce_tenant_quota (dr_id r) (length (doc_content d)) c = Inr c1 \<and> co_meta c' = co_meta c1
    \<and> co_documents c' = (if find_document (dr_id r) c = None then co_documents c @ [r]
        else update_first (\<lambda>x. dr_id x = dr_id r) (\<lambda>x. r\<lparr>dr_source := dr_source x, dr_source_id := dr_source_id x\<rparr>) (co_documents c))"
proof -
  obtain c1 c2 c3 c4 where q: "enforce_tenant_quota (dr_id r) (length (doc_content d)) c = Inr c1"
    and p: "put_document r (delete_chunks (dr_id r) c1) = Inr c2"
    and i: "insert_chunks (doc_title d) ws (replace_links (dr_id r) (metadata_reference_strings (doc_metadata d)) c2) = Inr c3"
    and j: "journal_document env (dr_id r) (replace_code_index env (dr_id r) d c3) = Inr c4" and c': "c' = bump_corpus_revision c4"
    using assms(1) by (auto simp: write_document_def Let_def r_def [symmetric] result_simps)
  have i': "insert_chunks t ws a = Inr b \<Longrightarrow> co_meta b = co_meta a \<and> co_documents b = co_documents a" for t a b
    by (induction t ws a rule: insert_chunks.induct) (auto simp: insert_chunk_def result_simps split: if_splits)
  have docs: "co_documents c1 = co_documents c" using quota_tables [OF q] by (simp add: same_tables_def)
  have "co_meta c' = co_meta c2 \<and> co_documents c' = co_documents c2"
    using i' [OF i] journal_tables [OF j] by (auto simp: c' bump_corpus_revision_def replace_code_index_def replace_links_def Let_def)
  moreover have "co_meta c2 = co_meta c1"
    using p by (auto simp: put_document_def delete_chunks_def split: option.splits if_splits)
  moreover have "find_document (dr_id r) (delete_chunks (dr_id r) c1) = find_document (dr_id r) c"
    by (simp add: find_document_def delete_chunks_def docs)
  ultimately show ?thesis
    using q p docs by (auto simp: put_document_def delete_chunks_def split: option.splits if_splits)
qed

lemma write_document_quota_ok:
  assumes inv: "corpus_inv env c" and ok: "quota_ok m q c" and plain: "plain_text (doc_content d)"
    and small: "q + length (doc_content d) \<le> u64_max" and w: "write_document env d ws c = Inr c'"
  shows "quota_ok m q c'"
proof -
  let ?r = "row_of_document env d" and ?n = "length (doc_content d)"
  obtain c1 where q: "enforce_tenant_quota (dr_id ?r) ?n c = Inr c1" and meta: "co_meta c' = co_meta c1"
    and docs: "co_documents c' = (if find_document (dr_id ?r) c = None then co_documents c @ [?r]
        else update_first (\<lambda>x. dr_id x = dr_id ?r) (\<lambda>x. ?r\<lparr>dr_source := dr_source x, dr_source_id := dr_source_id x\<rparr>) (co_documents c))"
    using write_document_quota [OF w] by blast
  let ?new = "content_bytes c + ?n - stored_length (dr_id ?r) c"
  have k: "meta_value ''tenant.max_documents'' c = Some m" "meta_value ''tenant.storage_quota_bytes'' c = Some q"
    "bytes_used c = content_bytes c" "content_bytes c \<le> q" "length (co_documents c) \<le> m"
    "list_all (plain_text \<circ> dr_content) (co_documents c)" using ok by (simp_all add: quota_ok_def)
  have "min (content_bytes c + ?n) u64_max = content_bytes c + ?n" using k(4) small by simp
  then have c1: "c1 = meta_put ''tenant.bytes_used'' (decimal ?new) c" "?new \<le> q"
    and room: "find_document (dr_id ?r) c \<noteq> None \<or> length (co_documents c) < m"
    using q k(1-3) by (auto simp: enforce_tenant_quota_def bytes_used_def Let_def split: if_splits)
  have "?new < 2 ^ 64" using c1(2) small by (simp add: u64_max_def)
  then have meta': "meta_value ''tenant.max_documents'' c' = Some m" "meta_value ''tenant.storage_quota_bytes'' c' = Some q" "bytes_used c' = ?new"
    using k(1,2) meta meta_put_value [of ?new] by (simp_all add: meta_value_def bytes_used_def c1(1))
  have sum: "content_bytes c' = ?new"
  proof (cases "find_document (dr_id ?r) c")
    case None
    then show ?thesis by (simp add: content_bytes_def docs stored_plain [OF k(6)] row_of_document_def)
  next
    case (Some old)
    with sum_update_first [of "\<lambda>x. dr_id x = dr_id ?r" "co_documents c" old "length \<circ> dr_content"
        "\<lambda>x. ?r\<lparr>dr_source := dr_source x, dr_source_id := dr_source_id x\<rparr>"]
    have "content_bytes c' + length (dr_content old) = content_bytes c + ?n"
      by (simp add: content_bytes_def docs find_document_def row_of_document_def)
    with Some show ?thesis by (simp add: stored_plain [OF k(6)])
  qed
  have "list_all (plain_text \<circ> dr_content) (co_documents c')"
    using k(6) plain by (auto simp: docs list_all_iff row_of_document_def dest!: set_update_firstD)
  with meta' sum c1(2) room k(5) show ?thesis by (auto simp: quota_ok_def docs)
qed

lemma delete_document_quota_ok:
  assumes inv: "corpus_inv env c" and ok: "quota_ok m q c" and q: "q \<le> u64_max" and del: "delete_document env did c = Inr c'"
  shows "quota_ok m q c'"
proof -
  have k: "meta_value ''tenant.max_documents'' c = Some m" "meta_value ''tenant.storage_quota_bytes'' c = Some q"
    "bytes_used c = content_bytes c" "content_bytes c \<le> q" "length (co_documents c) \<le> m"
    "list_all (plain_text \<circ> dr_content) (co_documents c)" using ok by (simp_all add: quota_ok_def)
  let ?new = "content_bytes c - stored_length did c"
  have marked: "co_meta c ''tenant.max_documents'' \<noteq> None" using k(1) by (auto simp: meta_value_def bind_eq_Some_conv)
  have same: "meta_value x (delete_chunks did c) = meta_value x c" "stored_length did (delete_chunks did c) = stored_length did c" for x
    by (simp_all add: meta_value_def delete_chunks_def stored_length_def find_document_def)
  have "co_meta c' = co_meta (meta_put ''tenant.bytes_used'' (decimal ?new) c)"
    using del journal_tables marked k(3) same
    by (fastforce simp: delete_document_def release_tenant_bytes_def Let_def bytes_used_def delete_chunks_def meta_put_def)
  moreover have "?new < 2 ^ 64" using k(4) q by (simp add: u64_max_def)
  ultimately have meta: "meta_value ''tenant.max_documents'' c' = Some m" "meta_value ''tenant.storage_quota_bytes'' c' = Some q" "bytes_used c' = ?new"
    using k(1,2) meta_put_value [of ?new] by (simp_all add: meta_value_def bytes_used_def)
  have docs: "co_documents c' = filter (\<lambda>r. dr_id r \<noteq> did) (co_documents c)"
    using delete_document_without(2) [OF inv del] by (simp add: without_def)
  have "content_bytes c' = ?new"
  proof (cases "find_document did c")
    case None
    then have "co_documents c' = co_documents c" by (auto simp: docs find_document_None filter_id_conv)
    with None show ?thesis by (simp add: content_bytes_def stored_plain [OF k(6)])
  next
    case (Some old)
    with sum_filter_key [OF corpus_invD(1) [OF inv], of did old "length \<circ> dr_content"]
    have "content_bytes c' + length (dr_content old) = content_bytes c" by (simp add: content_bytes_def docs find_document_def)
    with Some show ?thesis by (simp add: stored_plain [OF k(6)])
  qed
  with meta k(4-6) show ?thesis by (auto simp: quota_ok_def docs list_all_iff intro: order_trans [OF length_filter_le])
qed

lemma delete_documents_quota_ok:
  "corpus_inv env c \<Longrightarrow> quota_ok m q c \<Longrightarrow> q \<le> u64_max \<Longrightarrow> delete_documents env dids c = Inr c' \<Longrightarrow> quota_ok m q c'"
proof (induction dids arbitrary: c)
  case (Cons did dids)
  obtain c1 where "delete_document env did c = Inr c1" "delete_documents env dids c1 = Inr c'"
    using Cons.prems(4) by (auto simp: result_simps)
  with Cons show ?case using delete_document_quota_ok delete_document_without(1) by metis
qed simp

lemma transact_quota_ok:
  assumes "corpus_inv env c" "quota_ok m q c" "plain_text (doc_content d)" "q + length (doc_content d) \<le> u64_max"
  shows "quota_ok m q (fst (transact (write_document env d ws) c))"
  using write_document_quota_ok [OF assms] assms(2) by (auto simp: transact_def split: sum.split)

lemma bumped_quota: "quota_ok m q (bump_corpus_revision c) = quota_ok m q c"
  by (simp add: quota_ok_def bump_corpus_revision_def meta_value_def bytes_used_def content_bytes_def)

lemma write_document_error:
  assumes "write_document env d ws c = Inl e"
  shows "e = ConstraintViolated \<or> enforce_tenant_quota (dr_id (row_of_document env d)) (length (doc_content d)) c = Inl e"
proof -
  have chunks: "insert_chunks t ws a = Inl e' \<Longrightarrow> e' = ConstraintViolated" for t a e'
    by (induction t ws a rule: insert_chunks.induct) (auto simp: insert_chunk_def bindE_Inl_iff split: if_splits)
  have put: "put_document r a = Inl e' \<Longrightarrow> e' = ConstraintViolated" for r a e'
    by (auto simp: put_document_def split: option.splits if_splits)
  have journal: "journal_document env did a \<noteq> Inl e'" for did a e'
    using journal_document_ok [of env did a] by auto
  show ?thesis
    using assms chunks put journal by (fastforce simp: write_document_def Let_def bindE_Inl_iff)
qed

lemma quota_steps:
  assumes inv: "corpus_inv env c" and ok: "quota_ok m q c" and d: "plain_text (doc_content d)" "q + length (doc_content d) \<le> u64_max"
  defines "did \<equiv> stable_id env (doc_source d) (doc_source_id d)"
  shows "quota_ok m q (fst (upsert env d chunks c))" "quota_ok m q (fst (upsert_structured env d specs c))"
    "quota_ok m q (fst (reconcile env source project seen c))"
    "snd (upsert env d chunks c) = Inl (StorageQuota n q') \<Longrightarrow>
       q < content_bytes c + length (doc_content d) - (case find_document did c of None \<Rightarrow> 0 | Some r \<Rightarrow> length (dr_content r))"
    "snd (upsert env d chunks c) = Inl (DocumentQuota n m') \<Longrightarrow> find_document did c = None \<and> length (co_documents c) = m"
proof -
  show "quota_ok m q (fst (upsert env d chunks c))" "quota_ok m q (fst (upsert_structured env d specs c))"
    using transact_quota_ok [OF inv ok d] ok by (simp_all add: upsert_def upsert_structured_def Let_def)
  show "quota_ok m q (fst (reconcile env source project seen c))"
    using delete_documents_quota_ok [OF inv ok] d(2) ok
    by (auto simp: reconcile_def Let_def bumped_quota split: sum.split)
  have q: "enforce_tenant_quota did (length (doc_content d)) c = Inl e"
    if "snd (upsert env d chunks c) = Inl e" "e \<noteq> ConstraintViolated" for e
    using that write_document_error [of env d "plain_rows did chunks" c e]
    by (auto simp: upsert_def transact_def did_def row_of_document_def split: if_splits sum.splits)
  have k: "meta_value ''tenant.max_documents'' c = Some m" "meta_value ''tenant.storage_quota_bytes'' c = Some q"
    "bytes_used c = content_bytes c" "content_bytes c \<le> q" "length (co_documents c) \<le> m"
    "list_all (plain_text \<circ> dr_content) (co_documents c)" using ok by (simp_all add: quota_ok_def)
  then have "min (content_bytes c + length (doc_content d)) u64_max = content_bytes c + length (doc_content d)" using d(2) by simp
  then show "snd (upsert env d chunks c) = Inl (StorageQuota n q') \<Longrightarrow>
       q < content_bytes c + length (doc_content d) - (case find_document did c of None \<Rightarrow> 0 | Some r \<Rightarrow> length (dr_content r))"
    using q k(1-3) stored_plain [OF k(6), of did] by (auto simp: enforce_tenant_quota_def bytes_used_def Let_def split: if_splits)
  show "snd (upsert env d chunks c) = Inl (DocumentQuota n m') \<Longrightarrow> find_document did c = None \<and> length (co_documents c) = m"
    using q k(1,2,5) by (auto simp: enforce_tenant_quota_def Let_def split: if_splits)
qed

text \<open>
  C25. In a tenant's store of plain ASCII documents the accounting is exact and the quotas hold: when
  the counter is the number of content bytes stored, and bytes and documents are within the quotas,
  they are so after every upsert of an ASCII document and after every reconciliation; and an upsert is
  refused for the byte quota only if the store would exceed it, for the document quota only if it is
  full and the document is new.
\<close>

theorem quota_accounting:
  assumes "corpus_inv env c" "quota_ok m q c" "plain_text (doc_content d)" "q + length (doc_content d) \<le> u64_max"
  defines "did \<equiv> stable_id env (doc_source d) (doc_source_id d)"
  shows "quota_ok m q (fst (upsert env d chunks c)) \<and> quota_ok m q (fst (upsert_structured env d specs c))
    \<and> quota_ok m q (fst (reconcile env source project seen c))
    \<and> (\<forall>n q'. snd (upsert env d chunks c) = Inl (StorageQuota n q') \<longrightarrow>
       q < content_bytes c + length (doc_content d) - (case find_document did c of None \<Rightarrow> 0 | Some r \<Rightarrow> length (dr_content r)))
    \<and> (\<forall>n m'. snd (upsert env d chunks c) = Inl (DocumentQuota n m') \<longrightarrow> find_document did c = None \<and> length (co_documents c) = m)"
  using quota_steps [OF assms(1-4)] unfolding did_def by blast

definition ex_tenant :: "string \<Rightarrow> corpus" where
  "ex_tenant quota = ex_corpus\<lparr>co_meta := [''tenant.max_documents'' \<mapsto> ''10'', ''tenant.storage_quota_bytes'' \<mapsto> quota]\<rparr>"

definition ex_write :: "string \<Rightarrow> string \<Rightarrow> corpus \<Rightarrow> corpus \<times> (corpus_error, bool) result" where
  "ex_write title content c = upsert ex_corpus_env (ex_document ''1'' title content) [(content, [1])] c"

lemma ex_tenant_inv: "corpus_inv ex_corpus_env (ex_tenant quota)"
  by (simp add: corpus_inv_def ex_tenant_def ex_corpus_def)

theorem quota_accounting_witness:
  "bytes_used (fst (ex_write ''a'' ''text'' (ex_tenant ''5''))) = 4 \<and> quota_ok 10 5 (fst (ex_write ''a'' ''text'' (ex_tenant ''5'')))"
proof -
  obtain st where st: "journal_document ex_corpus_env did c = Inr (c\<lparr>co_sync := st did c\<rparr>)" for did c
    using journal_document_ok [of ex_corpus_env] by metis
  have start: "quota_ok 10 5 (ex_tenant ''5'')"
    by (simp add: quota_ok_def meta_value_def ex_tenant_def ex_corpus_def parse_u64_def bytes_used_def content_bytes_def byte_def)
  have "plain_text (doc_content (ex_document ''1'' ''a'' ''text''))" "5 + length (doc_content (ex_document ''1'' ''a'' ''text'')) \<le> u64_max"
    by (simp_all add: ex_document_def plain_text_def u64_max_def byte_def)
  from quota_accounting [OF ex_tenant_inv start this, of "[(''text'', [1])]"]
  have "quota_ok 10 5 (fst (ex_write ''a'' ''text'' (ex_tenant ''5'')))" by (simp add: ex_write_def)
  moreover have "content_bytes (fst (ex_write ''a'' ''text'' (ex_tenant ''5''))) = 4"
    by (simp add: ex_write_def ex_tenant_def evaluate_upsert content_bytes_def st parse_u64_def u64_max_def byte_def)
  ultimately show ?thesis by (simp add: quota_ok_def)
qed

text \<open>
  With any other text the accounting drifts, because the new size is counted in bytes and the old
  one in characters: writing the stored content of a document again, say under a new title, adds the
  difference to the counter, and is refused when that exceeds the quota.
\<close>

lemma quota_drift:
  assumes "find_document did c = Some r" "meta_value ''tenant.max_documents'' c = Some m" "meta_value ''tenant.storage_quota_bytes'' c = Some q"
    "bytes_used c + length (dr_content r) \<le> u64_max"
  defines "new \<equiv> bytes_used c + length (dr_content r) - sqlite_length (dr_content r)"
  shows "enforce_tenant_quota did (length (dr_content r)) c
    = (if q < new then Inl (StorageQuota new q) else Inr (meta_put ''tenant.bytes_used'' (decimal new) c))"
  using assms by (simp add: enforce_tenant_quota_def bytes_used_def stored_length_def Let_def)

end
