(* ===== verification/Rebuild.thy ===== *)
theory Rebuild
  imports Corpus
begin

text \<open>
  The rebuild of the embedding generation (\<open>rebuild_embedding_generation\<close> of \<open>src/main.rs\<close>) over
  the staging operations of the store: pages of chunks are embedded in small requests and staged, and
  the staged vectors are installed at once. The embedding provider, the lock, the integrity check and
  the backup are parameters; the audit entry, whose failure is only logged, is left out.
\<close>

definition EMBEDDING_REQUEST_SIZE :: nat where "EMBEDDING_REQUEST_SIZE = 8"

datatype rebuild_error =
    NotForced
  | LockTaken
  | NotInitialized
  | OtherGeneration
  | AlreadyTarget
  | ProbeFailed
  | NotIntact
  | BackupFailed
  | ProviderFailed
  | VectorCount
  | ScanMismatch nat nat
  | CountMismatch
  | StoreFailed corpus_error

text \<open>\<open>re_embed\<close> is the provider's answer to one request, \<open>None\<close> an error.\<close>

record rebuild_env =
  re_target :: string
  re_embed :: "string list \<Rightarrow> 32 word list list option"
  re_locked :: bool
  re_probe :: bool
  re_intact :: bool
  re_backup :: bool

text \<open>\<open>requests.chunks(n)\<close>, and the answers in the order of the requests.\<close>

function request_chunks :: "nat \<Rightarrow> 'a list \<Rightarrow> 'a list list" where
  "request_chunks n xs = (if xs = [] \<or> n = 0 then [] else take n xs # request_chunks n (drop n xs))"
  by pat_completeness auto
termination
  by (relation "measure (length \<circ> snd)") auto

declare request_chunks.simps [simp del]

definition embed_page :: "rebuild_env \<Rightarrow> string list \<Rightarrow> 32 word list list option" where
  "embed_page env texts = map_option concat (those (map (re_embed env) (request_chunks EMBEDDING_REQUEST_SIZE texts)))"

lemma stage_chunks: "stage vs c = Inr c' \<Longrightarrow> co_chunks c' = co_chunks c"
  using stage_tables by fastforce

lemma page_members:
  "x \<in> set (embedding_rebuild_chunks after limit c) \<Longrightarrow>
    \<exists>w \<in> set (co_chunks c). x = (cw_id w, cw_content w) \<and> (case after of None \<Rightarrow> True | Some a \<Rightarrow> a < cw_id w)"
  by (auto simp: embedding_rebuild_chunks_def dest!: in_set_takeD)

text \<open>The loop over the pages. It ends because the chunks after the last one of a page get fewer.\<close>

definition after_chunks :: "string option \<Rightarrow> corpus \<Rightarrow> chunk_row list" where
  "after_chunks after c = filter (\<lambda>w. case after of None \<Rightarrow> True | Some a \<Rightarrow> a < cw_id w) (co_chunks c)"

lemma filter_fewer: "(\<And>x. x \<in> set xs \<Longrightarrow> Q x \<Longrightarrow> P x) \<Longrightarrow> w \<in> set xs \<Longrightarrow> P w \<Longrightarrow> \<not> Q w \<Longrightarrow> length (filter Q xs) < length (filter P xs)"
proof (induction xs)
  case (Cons x xs)
  have "length (filter Q ys) \<le> length (filter P ys)" if "set ys \<subseteq> set xs" for ys
    using that Cons.prems(1) by (induction ys) (auto simp: le_SucI)
  from this [OF subset_refl] have "length (filter Q xs) \<le> length (filter P xs)" .
  with Cons show ?case by (auto simp: less_Suc_eq_le)
qed simp

lemma fewer_after_page:
  assumes "w \<in> set (co_chunks c)" "case after of None \<Rightarrow> True | Some a \<Rightarrow> a < cw_id w"
  shows "length (after_chunks (Some (cw_id w)) c) < length (after_chunks after c)"
  unfolding after_chunks_def using assms by (intro filter_fewer [of _ _ _ w]) (auto split: option.splits)

function rebuild_loop :: "rebuild_env \<Rightarrow> string option \<Rightarrow> nat \<Rightarrow> corpus \<Rightarrow> corpus \<times> (rebuild_error, nat) result" where
  "rebuild_loop env after processed c =
     (let page = embedding_rebuild_chunks after 256 c in
      if page = [] then (c, Inr processed)
      else (case embed_page env (map snd page) of None \<Rightarrow> (c, Inl ProviderFailed)
        | Some vectors \<Rightarrow>
            if length vectors \<noteq> length page then (c, Inl VectorCount)
            else (let staged = zip (map fst page) vectors in
              case stage staged c of Inl e \<Rightarrow> (c, Inl (StoreFailed e))
              | Inr c' \<Rightarrow> rebuild_loop env (Some (fst (last staged))) (processed + length staged) c')))"
  by pat_completeness auto
termination
proof (relation "measure (\<lambda>(env, after, processed, c). length (after_chunks after c))")
  fix env :: rebuild_env and after and processed :: nat and c page vectors staged c'
  assume page: "page = embedding_rebuild_chunks after 256 c" "page \<noteq> []" and n: "\<not> length vectors \<noteq> length page"
    and staged: "staged = zip (map fst page) vectors" and st: "stage staged c = Inr c'"
  have "last page \<in> set page" using page(2) by simp
  then obtain w where w: "w \<in> set (co_chunks c)" "last page = (cw_id w, cw_content w)" "case after of None \<Rightarrow> True | Some a \<Rightarrow> a < cw_id w"
    using page_members page(1) by metis
  have "zip (map fst page) vectors \<noteq> []" "length vectors - 1 < length page" using n page(2) by (auto simp: zip_eq_Nil_iff)
  then have "fst (last staged) = cw_id w"
    using n page(2) w(2) by (simp add: staged last_conv_nth [of "zip _ _"] last_conv_nth [of page])
  moreover have "after_chunks a c' = after_chunks a c" for a by (simp add: after_chunks_def stage_chunks [OF st])
  ultimately show "((env, Some (fst (last staged)), processed + length staged, c'), env, after, processed, c)
      \<in> measure (\<lambda>(env, after, processed, c). length (after_chunks after c))"
    using fewer_after_page [OF w(1,3)] by simp
qed simp

declare rebuild_loop.simps [simp del]

definition rebuild_embedding_generation :: "rebuild_env \<Rightarrow> string \<Rightarrow> bool \<Rightarrow> corpus \<Rightarrow> corpus \<times> (rebuild_error, nat) result" where
  "rebuild_embedding_generation env source force c =
     (case bindE (ensure force NotForced) (\<lambda>_.
           bindE (ensure (re_locked env) LockTaken) (\<lambda>_.
           bindE (ok_or (generation c) NotInitialized) (\<lambda>current.
           bindE (ensure (current = source) OtherGeneration) (\<lambda>_.
           bindE (ensure (current \<noteq> re_target env) AlreadyTarget) (\<lambda>_.
           bindE (ensure (re_probe env) ProbeFailed) (\<lambda>_.
           bindE (ensure (re_intact env) NotIntact) (\<lambda>_.
           bindE (ensure (re_backup env) BackupFailed) (\<lambda>_. Inr current)))))))) of
       Inl e \<Rightarrow> (c, Inl e)
     | Inr current \<Rightarrow>
         (case begin_embedding_rebuild current (re_target env) c of
            (c1, Inl e) \<Rightarrow> (c1, Inl (StoreFailed e))
          | (c1, Inr expected) \<Rightarrow>
              (case rebuild_loop env None 0 c1 of
                 (c2, Inl e) \<Rightarrow> (discard_embedding_rebuild c2, Inl e)
               | (c2, Inr processed) \<Rightarrow>
                   if processed \<noteq> expected then (discard_embedding_rebuild c2, Inl (ScanMismatch processed expected))
                   else (case commit_embedding_rebuild current (re_target env) c2 of
                       (c3, Inl e) \<Rightarrow> (c3, Inl (StoreFailed e))
                     | (c3, Inr committed) \<Rightarrow> (c3, if committed = processed then Inr committed else Inl CountMismatch)))))"

section \<open>Staging\<close>

text \<open>What the staging table holds while every chunk gets the vector \<open>vec\<close> gives its text.\<close>

definition staged_ok :: "(string \<Rightarrow> 32 word list) \<Rightarrow> chunk_row list \<Rightarrow> (string \<times> string) list \<Rightarrow> bool" where
  "staged_ok vec ws st \<longleftrightarrow> distinct (map fst st)
     \<and> (\<forall>k v. map_of st k = Some v \<longrightarrow> (\<exists>w \<in> set ws. cw_id w = k \<and> v = encode_embedding (vec (cw_content w))))"

lemma stage_page:
  assumes "\<And>t. vec t \<noteq> []" "set ws \<subseteq> set (co_chunks c)" "co_rebuild c = Some st" "staged_ok vec (co_chunks c) st"
  shows "\<exists>st'. stage (map (\<lambda>w. (cw_id w, vec (cw_content w))) ws) c = Inr (c\<lparr>co_rebuild := Some st'\<rparr>)
    \<and> staged_ok vec (co_chunks c) st' \<and> fst ` set st' = fst ` set st \<union> cw_id ` set ws"
  using assms(2-4)
proof (induction ws arbitrary: c st)
  case Nil
  then show ?case by (intro exI [of _ st]) simp
next
  case (Cons w ws)
  let ?st = "AList.update (cw_id w) (encode_embedding (vec (cw_content w))) st"
  let ?c = "c\<lparr>co_rebuild := Some ?st\<rparr>"
  have "staged_ok vec (co_chunks ?c) ?st"
    using Cons.prems by (auto simp: staged_ok_def AList.distinct_update update_conv' split: if_splits)
  with Cons.IH [of ?c ?st] Cons.prems obtain st' where
    st': "stage (map (\<lambda>w. (cw_id w, vec (cw_content w))) ws) ?c = Inr (?c\<lparr>co_rebuild := Some st'\<rparr>)"
    "staged_ok vec (co_chunks c) st'" "fst ` set st' = fst ` set ?st \<union> cw_id ` set ws" by auto
  have "fst ` set ?st = insert (cw_id w) (fst ` set st)" using dom_update [of "cw_id w" _ st] by (simp add: dom_map_of_conv_image_fst)
  with st' Cons.prems assms(1) show ?case by (intro exI [of _ st']) (auto simp: ok_or_def ensure_def)
qed

lemma embed_page_vec:
  assumes "\<And>texts. re_embed env texts = Some (map vec texts)"
  shows "embed_page env texts = Some (map vec texts)"
proof -
  have "those (map (re_embed env) rs) = Some (map (map vec) rs)" for rs by (induction rs) (simp_all add: assms)
  moreover have "concat (request_chunks n xs) = xs" if "0 < n" for n and xs :: "string list"
    using that by (induction n xs rule: request_chunks.induct) (subst request_chunks.simps, auto)
  ultimately show ?thesis by (simp add: embed_page_def EMBEDDING_REQUEST_SIZE_def map_concat [symmetric])
qed

lemma page_of_chunks:
  "\<exists>ws. embedding_rebuild_chunks after limit c = map (\<lambda>w. (cw_id w, cw_content w)) ws \<and> set ws \<subseteq> set (after_chunks after c)
     \<and> sorted (map cw_id ws) \<and> (distinct (map cw_id (co_chunks c)) \<longrightarrow> distinct (map cw_id ws)) \<and> (ws = [] \<longleftrightarrow> after_chunks after c = [])
     \<and> (\<forall>w \<in> set (after_chunks after c). ws \<noteq> [] \<longrightarrow> w \<in> set ws \<or> cw_id (last ws) \<le> cw_id w)"
proof -
  let ?all = "sort_key cw_id (after_chunks after c)" let ?n = "max limit 1"
  have sorted: "sorted (map cw_id (take ?n ?all @ drop ?n ?all))" by simp
  have set: "set (after_chunks after c) = set (take ?n ?all) \<union> set (drop ?n ?all)"
    by (metis append_take_drop_id set_append set_sort)
  have order: "cw_id x \<le> cw_id y" if "x \<in> set (take ?n ?all)" "y \<in> set (drop ?n ?all)" for x y
    using sorted that unfolding map_append sorted_append by auto
  have "\<forall>w \<in> set (after_chunks after c). take ?n ?all \<noteq> [] \<longrightarrow> w \<in> set (take ?n ?all) \<or> cw_id (last (take ?n ?all)) \<le> cw_id w"
    using set order by (metis Un_iff last_in_set)
  moreover have "sorted (map cw_id (take ?n ?all))" using sorted unfolding map_append sorted_append by simp
  moreover have "take ?n ?all = [] \<longleftrightarrow> after_chunks after c = []"
    by (metis length_0_conv length_sort max.cobounded2 not_one_le_zero take_eq_Nil)
  moreover have "distinct (map cw_id (co_chunks c)) \<Longrightarrow> distinct (map cw_id (take ?n ?all))"
    unfolding take_map [symmetric] by (auto simp: after_chunks_def distinct_map intro!: distinct_take intro: inj_on_subset)
  moreover have "set (take ?n ?all) \<subseteq> set (after_chunks after c)" unfolding set by blast
  moreover have "embedding_rebuild_chunks after limit c = map (\<lambda>w. (cw_id w, cw_content w)) (take ?n ?all)"
    by (simp add: embedding_rebuild_chunks_def after_chunks_def)
  ultimately show ?thesis by blast
qed

text \<open>With such a provider the loop stages every chunk.\<close>

definition covered :: "string option \<Rightarrow> corpus \<Rightarrow> chunk_row set" where
  "covered after c = set (co_chunks c) - set (after_chunks after c)"

lemma rebuild_loop_stages_all:
  assumes vec: "\<And>t. vec t \<noteq> []"
  shows "(\<And>texts. re_embed env texts = Some (map vec texts)) \<Longrightarrow> co_rebuild c = Some st \<Longrightarrow> staged_ok vec (co_chunks c) st \<Longrightarrow> fst ` set st = cw_id ` covered after c
    \<Longrightarrow> distinct (map cw_id (co_chunks c)) \<Longrightarrow> processed = length st
    \<Longrightarrow> \<exists>st'. rebuild_loop env after processed c = (c\<lparr>co_rebuild := Some st'\<rparr>, Inr (length (co_chunks c)))
      \<and> staged_ok vec (co_chunks c) st' \<and> fst ` set st' = cw_id ` set (co_chunks c)"
proof (induction env after processed c arbitrary: st rule: rebuild_loop.induct)
  case (1 env after processed c)
  obtain ws where page: "embedding_rebuild_chunks after 256 c = map (\<lambda>w. (cw_id w, cw_content w)) ws"
    and ws: "set ws \<subseteq> set (after_chunks after c)" "sorted (map cw_id ws)" "distinct (map cw_id ws)" "ws = [] \<longleftrightarrow> after_chunks after c = []"
    and rest: "\<forall>w \<in> set (after_chunks after c). ws \<noteq> [] \<longrightarrow> w \<in> set ws \<or> cw_id (last ws) \<le> cw_id w"
    using page_of_chunks [of after 256 c] "1.prems"(5) by blast
  have sub: "set (after_chunks after c) \<subseteq> set (co_chunks c)" by (auto simp: after_chunks_def)
  have inj: "inj_on cw_id (set (co_chunks c))" using "1.prems"(5) by (simp add: distinct_map)
  show ?case
  proof (cases "ws = []")
    case True
    then have keys: "fst ` set st = cw_id ` set (co_chunks c)" using "1.prems"(4) ws(4) by (simp add: covered_def)
    then have "length st = length (co_chunks c)"
      using "1.prems"(3,5) by (metis distinct_card length_map set_map staged_ok_def)
    with True page keys "1.prems" show ?thesis by (intro exI [of _ st]) (simp add: rebuild_loop.simps [of env])
  next
    case False
    let ?vs = "map (\<lambda>w. (cw_id w, vec (cw_content w))) ws" let ?l = "cw_id (last ws)"
    obtain st' where st': "stage ?vs c = Inr (c\<lparr>co_rebuild := Some st'\<rparr>)" "staged_ok vec (co_chunks c) st'"
      "fst ` set st' = fst ` set st \<union> cw_id ` set ws"
      using stage_page [OF vec _ "1.prems"(2,3), of ws] ws(1) sub by blast
    have "cw_id w \<le> ?l" if "w \<in> set ws" for w
      using ws(2) that False by (auto simp: sorted_iff_nth_mono last_conv_nth in_set_conv_nth)
    moreover have "w \<in> covered (Some ?l) c" if w: "w \<in> covered after c" for w
    proof -
      have "last ws \<in> set (after_chunks after c)" using ws(1) False by auto
      with w show ?thesis by (auto simp: covered_def after_chunks_def split: option.splits)
    qed
    moreover have "w \<in> set ws" if "w \<in> set (after_chunks after c)" "\<not> ?l < cw_id w" for w
    proof -
      have "w \<in> set ws \<or> cw_id w = ?l" using rest that False by fastforce
      moreover have "last ws \<in> set (co_chunks c)" "w \<in> set (co_chunks c)" using ws(1) sub that last_in_set [OF False] by auto
      ultimately show ?thesis using inj False by (metis inj_onD last_in_set)
    qed
    ultimately have "covered (Some ?l) c = covered after c \<union> set ws"
      using ws(1) by (fastforce simp: covered_def after_chunks_def)
    then have keys: "fst ` set st' = cw_id ` covered (Some ?l) c" using st'(3) "1.prems"(4) by auto
    have disjoint: "fst ` set st \<inter> cw_id ` set ws = {}"
      using ws(1) sub inj unfolding "1.prems"(4) covered_def by (auto dest: inj_onD)
    have "card (fst ` set st') = card (fst ` set st) + card (cw_id ` set ws)"
      unfolding st'(3) by (intro card_Un_disjoint disjoint) simp_all
    then have len: "length st' = length st + length ws"
      using st'(2) "1.prems"(3) ws(3) by (metis distinct_card length_map list.set_map staged_ok_def)
    let ?c = "c\<lparr>co_rebuild := Some st'\<rparr>"
    have zip: "zip (map fst (embedding_rebuild_chunks after 256 c)) (map vec (map snd (embedding_rebuild_chunks after 256 c))) = ?vs"
      by (simp add: page comp_def zip_map_map zip_same_conv_map)
    have "\<exists>st''. rebuild_loop env (Some ?l) (processed + length ws) ?c = (?c\<lparr>co_rebuild := Some st''\<rparr>, Inr (length (co_chunks ?c)))
        \<and> staged_ok vec (co_chunks ?c) st'' \<and> fst ` set st'' = cw_id ` set (co_chunks ?c)"
    proof -
      note IH = "1.IH" [OF refl _ embed_page_vec [OF "1.prems"(1)] _ refl, unfolded zip, of ?c st']
      have "embedding_rebuild_chunks after 256 c \<noteq> []" "\<not> length (map vec (map snd (embedding_rebuild_chunks after 256 c))) \<noteq> length (embedding_rebuild_chunks after 256 c)"
        using False by (simp_all add: page)
      note IH = IH [OF this st'(1) "1.prems"(1)]
      have "fst (last ?vs) = ?l" "length ?vs = length ws" using False by (simp_all add: last_map)
      from IH [unfolded this] show ?thesis
        using keys st'(2) len "1.prems"(5,6) by (simp add: covered_def after_chunks_def)
    qed
    with False st'(1) show ?thesis
      by (simp add: rebuild_loop.simps [of env after] page embed_page_vec [OF "1.prems"(1)] Let_def comp_def zip_map_map zip_same_conv_map last_map)
  qed
qed


section \<open>Properties\<close>

text \<open>What a rebuild may leave behind: the corpus, up to the staging table.\<close>

lemma rebuild_loop_keeps:
  "rebuild_loop env after processed c = (c', res) \<Longrightarrow> (\<exists>st. c' = c\<lparr>co_rebuild := st\<rparr>) \<and> res \<noteq> Inl CountMismatch"
proof (induction env after processed c rule: rebuild_loop.induct)
  case (1 env after processed c)
  let ?page = "embedding_rebuild_chunks after 256 c"
  have c: "\<exists>st. c = c\<lparr>co_rebuild := st\<rparr>" by (intro exI [of _ "co_rebuild c"]) simp
  show ?case
  proof (cases "\<exists>vs c1. ?page \<noteq> [] \<and> embed_page env (map snd ?page) = Some vs \<and> length vs = length ?page \<and> stage (zip (map fst ?page) vs) c = Inr c1")
    case True
    then obtain vs c1 where vs: "?page \<noteq> []" "embed_page env (map snd ?page) = Some vs" "\<not> length vs \<noteq> length ?page"
      "stage (zip (map fst ?page) vs) c = Inr c1" by auto
    have "(\<exists>st. c' = c1\<lparr>co_rebuild := st\<rparr>) \<and> res \<noteq> Inl CountMismatch"
      by (rule "1.IH" [OF refl vs(1-3) refl vs(4)]) (use "1.prems" vs in \<open>simp add: rebuild_loop.simps [of env after] Let_def\<close>)
    with stage_tables [OF vs(4)] show ?thesis by auto
  next
    case False
    with "1.prems" have "c' = c \<and> res \<noteq> Inl CountMismatch"
      by (auto simp: rebuild_loop.simps [of env after] Let_def split: if_splits option.splits sum.splits)
    with c show ?thesis by simp
  qed
qed

lemma begin_keeps: "begin_embedding_rebuild source target c = (c', res) \<Longrightarrow> \<exists>st. c' = c\<lparr>co_rebuild := st\<rparr>"
  by (auto simp: begin_embedding_rebuild_def split: sum.splits intro: exI [of _ "co_rebuild c"])

lemma commit_keeps: "commit_embedding_rebuild source target c = (c', Inl e) \<Longrightarrow> c' = c"
  by (auto simp: commit_embedding_rebuild_def split: sum.splits)

text \<open>
  A rebuild that fails, at whatever point, changes nothing but the staging table: the chunks keep the
  vectors they have, the generation and the caches stay, and whatever was staged is dropped unless the
  installation itself was refused. A rebuild that succeeds found the index in the generation named and has moved it
  to the provider's.
\<close>

theorem rebuild_all_or_nothing:
  assumes "rebuild_embedding_generation env source force c = (c', res)"
  shows "(case res of Inl e \<Rightarrow> \<exists>st. c' = c\<lparr>co_rebuild := st\<rparr>
    | Inr n \<Rightarrow> force \<and> generation c = Some source \<and> source \<noteq> re_target env \<and> generation c' = Some (re_target env) \<and> n = length (co_chunks c)
        \<and> co_revision c' = co_revision c + 1 \<and> co_documents c' = co_documents c
        \<and> map (\<lambda>w. w\<lparr>cw_blob := None\<rparr>) (co_chunks c') = map (\<lambda>w. w\<lparr>cw_blob := None\<rparr>) (co_chunks c)
        \<and> co_embedding_cache c' = [] \<and> co_query_cache c' = [] \<and> co_rebuild c' = None)"
proof -
  have same: "\<exists>st. c = c\<lparr>co_rebuild := st\<rparr>" by (intro exI [of _ "co_rebuild c"]) simp
  show ?thesis
  proof (cases "res = Inl CountMismatch \<or> (\<exists>n. res = Inr n)")
    case True
    then obtain c1 c2 n where gates: "force" "generation c = Some source" "source \<noteq> re_target env"
      and c1: "begin_embedding_rebuild source (re_target env) c = (c1, Inr n)"
      and c2: "rebuild_loop env None 0 c1 = (c2, Inr n)"
      and c3: "\<exists>m. commit_embedding_rebuild source (re_target env) c2 = (c', Inr m) \<and> res = (if m = n then Inr m else Inl CountMismatch)"
      using assms by (auto simp: rebuild_embedding_generation_def ok_or_def result_simps split: prod.splits sum.splits if_splits option.splits dest: rebuild_loop_keeps)
    have n: "n = length (co_chunks c)" "c1 = c\<lparr>co_rebuild := Some []\<rparr>"
      using c1 by (auto simp: begin_embedding_rebuild_def split: sum.splits)
    obtain st where st: "c2 = c\<lparr>co_rebuild := st\<rparr>" using rebuild_loop_keeps [OF c2] n(2) by auto
    from c3 show ?thesis
      using gates n(1)
      by (auto simp: commit_embedding_rebuild_def st generation_def meta_put_def bump_corpus_revision_def comp_def split: sum.splits if_splits)
  next
    case False
    obtain c1 r1 where c1: "begin_embedding_rebuild source (re_target env) c = (c1, r1)" by fastforce
    obtain c2 r2 where c2: "rebuild_loop env None 0 c1 = (c2, r2)" by fastforce
    obtain c3 r3 where c3: "commit_embedding_rebuild source (re_target env) c2 = (c3, r3)" by fastforce
    obtain s1 where s1: "c1 = c\<lparr>co_rebuild := s1\<rparr>" using begin_keeps [OF c1] by blast
    obtain s2 where s2: "c2 = c\<lparr>co_rebuild := s2\<rparr>" using rebuild_loop_keeps [OF c2] s1 by auto
    have s3: "c3 = c2" if "r3 = Inl e" for e using commit_keeps c3 that by simp
    have "c' = c \<or> c' = c1 \<or> c' = c2 \<or> c' = discard_embedding_rebuild c2"
    proof (cases "force \<and> re_locked env \<and> generation c = Some source \<and> source \<noteq> re_target env \<and> re_probe env \<and> re_intact env \<and> re_backup env")
      case True
      then show ?thesis using assms False s3
        by (simp add: rebuild_embedding_generation_def ok_or_def ensure_def c1 c2 c3 split: sum.splits if_splits) blast+
    next
      case False
      then show ?thesis using assms
        by (auto simp: rebuild_embedding_generation_def ok_or_def ensure_def split: option.splits if_splits)
    qed
    then have "\<exists>st. c' = c\<lparr>co_rebuild := st\<rparr>" using same by (auto simp: s1 s2 discard_embedding_rebuild_def)
    with False show ?thesis by (auto split: sum.splits)
  qed
qed

definition ex_rebuild :: rebuild_env where
  "ex_rebuild = \<lparr>re_target = ''new'', re_embed = \<lambda>texts. Some (map (\<lambda>t. [word_of_nat (length t)]) texts), re_locked = True,
     re_probe = True, re_intact = True, re_backup = True\<rparr>"

definition ex_indexed :: corpus where
  "ex_indexed = (fst (upsert ex_corpus_env (ex_document ''1'' ''hi'' ''text'') [(''abc'', [1]), (''a'', [2])] ex_corpus))
     \<lparr>co_meta := [''embedding_fingerprint'' \<mapsto> ''old'']\<rparr>"

lemma ex_indexed_chunks: "corpus_inv ex_corpus_env ex_indexed" "generation ex_indexed = Some ''old''"
  "map cw_content (co_chunks ex_indexed) = [''abc'', ''a'']"
proof -
  obtain st where st: "journal_document ex_corpus_env did c = Inr (c\<lparr>co_sync := st did c\<rparr>)" for did c
    using journal_document_ok [of ex_corpus_env] by metis
  have "corpus_inv ex_corpus_env ex_corpus" by (simp add: corpus_inv_def ex_corpus_def)
  from upsert_kept [OF this] show "corpus_inv ex_corpus_env ex_indexed"
    by (simp add: ex_indexed_def kept_def corpus_inv_def)
  show "generation ex_indexed = Some ''old''" by (simp add: ex_indexed_def generation_def)
  show "map cw_content (co_chunks ex_indexed) = [''abc'', ''a'']"
    by (simp add: ex_indexed_def evaluate_upsert st decimal.simps)
qed

theorem rebuild_all_or_nothing_witness:
  "generation (fst (rebuild_embedding_generation ex_rebuild ''other'' True ex_indexed)) = Some ''old''"
proof -
  obtain c' res where r: "rebuild_embedding_generation ex_rebuild ''other'' True ex_indexed = (c', res)" by fastforce
  moreover have "res = Inl OtherGeneration"
    using r by (simp add: rebuild_embedding_generation_def ex_indexed_chunks ex_rebuild_def ok_or_def ensure_def)
  ultimately show ?thesis using rebuild_all_or_nothing [OF r] ex_indexed_chunks(2) by (auto simp: generation_def)
qed

text \<open>
  C26. With a provider that works the rebuild completes: it reports the number of chunks, and every chunk
  then has the vector the provider gives its text, whatever the order, the pages and the
  requests were; nothing else of the chunks and documents changes.
\<close>

theorem rebuild_completes:
  assumes inv: "corpus_inv cenv c" and "generation c = Some source" "source \<noteq> re_target env" "trim source \<noteq> []" "trim (re_target env) \<noteq> []"
    and "re_locked env" "re_probe env" "re_intact env" "re_backup env"
    and vec: "\<And>texts. re_embed env texts = Some (map vec texts)" "\<And>t. vec t \<noteq> []"
  shows "\<exists>c'. rebuild_embedding_generation env source True c = (c', Inr (length (co_chunks c)))
    \<and> co_chunks c' = map (\<lambda>w. w\<lparr>cw_blob := Some (encode_embedding (vec (cw_content w)))\<rparr>) (co_chunks c)
    \<and> generation c' = Some (re_target env) \<and> co_documents c' = co_documents c \<and> co_revision c' = co_revision c + 1"
proof -
  let ?c1 = "c\<lparr>co_rebuild := Some []\<rparr>"
  have ids: "distinct (map cw_id (co_chunks c))" using corpus_invD [OF inv] by blast
  have started: "begin_embedding_rebuild source (re_target env) c = (?c1, Inr (length (co_chunks c)))"
    using assms(2-5) by (simp add: begin_embedding_rebuild_def check_generations_def ok_or_def ensure_def)
  obtain st where loop: "rebuild_loop env None 0 ?c1 = (c\<lparr>co_rebuild := Some st\<rparr>, Inr (length (co_chunks c)))"
    and ok: "staged_ok vec (co_chunks c) st" and keys: "fst ` set st = cw_id ` set (co_chunks c)"
    using rebuild_loop_stages_all [OF vec(2) vec(1), of ?c1 "[]" None 0] ids by (auto simp: staged_ok_def covered_def after_chunks_def)
  have len: "length st = length (co_chunks c)"
    using ok ids keys by (metis distinct_card length_map list.set_map staged_ok_def)
  have blob: "map_of st (cw_id w) = Some (encode_embedding (vec (cw_content w)))" if w: "w \<in> set (co_chunks c)" for w
  proof -
    have "cw_id w \<in> fst ` set st" using w keys by blast
    then obtain v where v: "map_of st (cw_id w) = Some v" by (metis domD dom_map_of_conv_image_fst)
    with ok obtain x where "x \<in> set (co_chunks c)" "cw_id x = cw_id w" "v = encode_embedding (vec (cw_content x))"
      unfolding staged_ok_def by metis
    with v w ids show ?thesis by (auto simp: distinct_map dest: inj_onD)
  qed
  have "fst (commit_embedding_rebuild source (re_target env) (c\<lparr>co_rebuild := Some st\<rparr>))
      = bump_corpus_revision ((meta_put ''embedding_fingerprint'' (re_target env) c)\<lparr>
          co_chunks := map (\<lambda>w. w\<lparr>cw_blob := Some (encode_embedding (vec (cw_content w)))\<rparr>) (co_chunks c),
          co_embedding_cache := [], co_query_cache := [], co_rebuild := None\<rparr>)"
    "snd (commit_embedding_rebuild source (re_target env) (c\<lparr>co_rebuild := Some st\<rparr>)) = Inr (length (co_chunks c))"
    using assms(2) len blob
    by (simp_all add: commit_embedding_rebuild_def ok_or_def ensure_def generation_def meta_put_def bump_corpus_revision_def cong: map_cong)
  then obtain c' where c': "commit_embedding_rebuild source (re_target env) (c\<lparr>co_rebuild := Some st\<rparr>) = (c', Inr (length (co_chunks c)))"
    "c' = bump_corpus_revision ((meta_put ''embedding_fingerprint'' (re_target env) c)\<lparr>
          co_chunks := map (\<lambda>w. w\<lparr>cw_blob := Some (encode_embedding (vec (cw_content w)))\<rparr>) (co_chunks c),
          co_embedding_cache := [], co_query_cache := [], co_rebuild := None\<rparr>)"
    by (metis prod.collapse)
  moreover have "rebuild_embedding_generation env source True c = (c', Inr (length (co_chunks c)))"
    using assms(2-9) started loop c'(1) by (simp add: rebuild_embedding_generation_def ok_or_def ensure_def)
  ultimately show ?thesis
    by (simp add: generation_def meta_put_def bump_corpus_revision_def)
qed

theorem rebuild_completes_witness:
  "map cw_blob (co_chunks (fst (rebuild_embedding_generation ex_rebuild ''old'' True ex_indexed)))
    = [Some (encode_embedding [3]), Some (encode_embedding [1])]"
proof -
  let ?vec = "\<lambda>t. [word_of_nat (length t)] :: 32 word list"
  have "re_target ex_rebuild = ''new''" by (simp add: ex_rebuild_def)
  moreover have "trim ''old'' = ''old''" "trim ''new'' = ''new''" by (rule trim_plain; simp add: byte_def)+
  ultimately have gates: "''old'' \<noteq> re_target ex_rebuild" "trim ''old'' \<noteq> []" "trim (re_target ex_rebuild) \<noteq> []"
    "re_locked ex_rebuild" "re_probe ex_rebuild" "re_intact ex_rebuild" "re_backup ex_rebuild"
    by (simp_all add: ex_rebuild_def)
  have embed: "re_embed ex_rebuild texts = Some (map ?vec texts)" "?vec t \<noteq> []" for texts t by (simp_all add: ex_rebuild_def)
  have chunks: "\<exists>a b. co_chunks ex_indexed = [a, b] \<and> cw_content a = ''abc'' \<and> cw_content b = ''a''"
    using ex_indexed_chunks(3) by (auto simp: map_eq_Cons_conv)
  show ?thesis
    using rebuild_completes [OF ex_indexed_chunks(1,2) gates embed] chunks by auto
qed

end
