(* ===== verification/SourceConfig.thy ===== *)
theory SourceConfig
  imports Corpus
begin

text \<open>
  Configured sources (\<open>crates/core/src/config.rs\<close>: \<open>SourceConfig\<close> and the checks of
  \<open>validate_source_definitions\<close> on workspaces and sources), the limits of a run and the
  normalisation of what a connector delivers (\<open>SourceLimits::resolve\<close>, \<open>canonical_source\<close> and
  \<open>normalize_documents\<close> of \<open>src/main.rs\<close>). Fields that only name files or connector options and
  that no check reads are left out.
\<close>

definition MAX_CONFIGURED_SOURCES :: nat where "MAX_CONFIGURED_SOURCES = 128"
definition MAX_BUZZ_COMMUNITIES :: nat where "MAX_BUZZ_COMMUNITIES = 100"
definition MAX_BUZZ_COMMUNITY_ID_CHARS :: nat where "MAX_BUZZ_COMMUNITY_ID_CHARS = 128"
definition MAX_BUZZ_COMMUNITY_NAME_CHARS :: nat where "MAX_BUZZ_COMMUNITY_NAME_CHARS = 128"
definition MAX_APPLE_NOTES_FOLDERS :: nat where "MAX_APPLE_NOTES_FOLDERS = 100"
definition MAX_APPLE_NOTES_FOLDER_NAME_CHARS :: nat where "MAX_APPLE_NOTES_FOLDER_NAME_CHARS = 128"

definition SUPPORTED_SOURCE_KINDS :: "string list" where
  "SUPPORTED_SOURCE_KINDS = [''filesystem'', ''apple-notes'', ''buzz'', ''google-drive'', ''gmail'', ''google-calendar'',
     ''github'', ''slack'', ''discord'', ''external'']"

record source_config =
  so_name :: string
  so_kind :: string
  so_enabled :: bool
  so_project :: string
  so_source :: "string option"
  so_folders :: "string list"
  so_exclude_folders :: "string list"
  so_communities :: "string list"
  so_community_names :: "string list"
  so_repositories :: "string list"
  so_token_env :: "string option"
  so_token :: "string option"
  so_oauth_client :: "string option"
  so_max_documents :: "nat option"
  so_max_bytes :: "nat option"
  so_max_seconds :: "nat option"
  so_acl :: "string list"

datatype config_error =
    TooManySources
  | EmptyWorkspace
  | DuplicateWorkspace string
  | BadSourceName string
  | DuplicateSourceName string
  | BadCanonical string
  | DuplicateScope string string
  | UnsupportedKind string
  | FoldersNotAllowed string
  | TooManyFolders string
  | BadFolder string
  | EmptyProject string
  | NoRepository string
  | NoToken string
  | BadRepository string string
  | DiscordPaths string
  | DiscordTokenEnv string
  | UnknownWorkspace string string
  | CommunitiesNotAllowed string
  | TooManyCommunities string
  | CommunityNames string
  | BadCommunity string nat
  | DuplicateCommunity string string
  | BadCommunityName string nat

section \<open>The source of a document\<close>

definition canonical_source :: "source_config \<Rightarrow> string" where
  "canonical_source so = (case so_source so of None \<Rightarrow> so_name so | Some s \<Rightarrow> s)"

text \<open>\<open>retain(|label| seen.insert(label))\<close> keeps the first of equal labels.\<close>

fun retain_new :: "string list \<Rightarrow> string list \<Rightarrow> string list" where
  "retain_new seen [] = []"
| "retain_new seen (l # ls) = (if l \<in> set seen then retain_new seen ls else l # retain_new (l # seen) ls)"

definition effective_acl :: "source_config \<Rightarrow> string list" where
  "effective_acl so = (if so_acl so = [] then [so_project so] else retain_new [] (so_acl so))"

definition entry_or_insert :: "string \<Rightarrow> json \<Rightarrow> (string \<times> json) list \<Rightarrow> (string \<times> json) list" where
  "entry_or_insert k v m = (if map_of m k = None then insort_key fst (k, v) m else m)"

definition normalize_document :: "source_config \<Rightarrow> document \<Rightarrow> document" where
  "normalize_document so d =
     (let entries = (case doc_metadata d of JObject m \<Rightarrow> m | _ \<Rightarrow> []) in
      d\<lparr>doc_source := canonical_source so, doc_project := so_project so,
        doc_acl := (if doc_acl d = [] then effective_acl so else doc_acl d),
        doc_metadata := JObject (entry_or_insert ''configured_source'' (JString (so_name so))
          (entry_or_insert ''connector_kind'' (JString (doc_source d)) entries))\<rparr>)"

section \<open>Validation\<close>

definition ascii_lower_or_digit :: "char \<Rightarrow> bool" where
  "ascii_lower_or_digit c \<longleftrightarrow> 97 \<le> byte c \<and> byte c \<le> 122 \<or> 48 \<le> byte c \<and> byte c \<le> 57"

definition valid_source_name :: "string \<Rightarrow> bool" where
  "valid_source_name s \<longleftrightarrow> s \<noteq> [] \<and> length s \<le> 64
     \<and> list_all (\<lambda>c. ascii_lower_or_digit c \<or> c = CHR ''-'' \<or> c = CHR ''_'') s \<and> ascii_lower_or_digit (hd s)"

definition valid_canonical :: "string \<Rightarrow> bool" where
  "valid_canonical s \<longleftrightarrow> s \<noteq> [] \<and> s = trim s \<and> trim s \<noteq> [] \<and> length s \<le> 128 \<and> \<not> any_control s"

text \<open>\<open>split('/')\<close> and its first two parts.\<close>

fun split_slash :: "string \<Rightarrow> string list" where
  "split_slash [] = [[]]"
| "split_slash (c # cs) = (if c = CHR ''/'' then [] # split_slash cs
     else (case split_slash cs of [] \<Rightarrow> [[c]] | p # ps \<Rightarrow> (c # p) # ps))"

definition repository_part :: "string \<Rightarrow> bool" where
  "repository_part s \<longleftrightarrow> s \<noteq> [] \<and> list_all (\<lambda>c. is_ascii_alnum (byte c) \<or> c \<in> {CHR ''-'', CHR ''_'', CHR ''.''}) s"

definition valid_github_repository :: "string \<Rightarrow> bool" where
  "valid_github_repository s = (case split_slash (trim s) of [owner, repository] \<Rightarrow> repository_part owner \<and> repository_part repository
     | _ \<Rightarrow> False)"

definition valid_folder :: "string \<Rightarrow> bool" where
  "valid_folder s \<longleftrightarrow> trim s \<noteq> [] \<and> s = trim s \<and> length s \<le> MAX_APPLE_NOTES_FOLDER_NAME_CHARS \<and> \<not> any_control s"

definition valid_community :: "string \<Rightarrow> bool" where
  "valid_community s \<longleftrightarrow> s \<noteq> [] \<and> length s \<le> MAX_BUZZ_COMMUNITY_ID_CHARS \<and> s = trim s \<and> \<not> any_control s"

definition valid_community_name :: "string \<Rightarrow> bool" where
  "valid_community_name s \<longleftrightarrow> trim s \<noteq> [] \<and> length s \<le> MAX_BUZZ_COMMUNITY_NAME_CHARS \<and> \<not> any_control s"

fun check_folders :: "string \<Rightarrow> string list \<Rightarrow> string list \<Rightarrow> (config_error, unit) result" where
  "check_folders name seen [] = Inr ()"
| "check_folders name seen (f # fs) =
     bindE (ensure (valid_folder f \<and> f \<notin> set seen) (BadFolder name)) (\<lambda>_. check_folders name (f # seen) fs)"

definition check_folder_list :: "string \<Rightarrow> string list \<Rightarrow> (config_error, unit) result" where
  "check_folder_list name fs =
     bindE (ensure (length fs \<le> MAX_APPLE_NOTES_FOLDERS) (TooManyFolders name)) (\<lambda>_. check_folders name [] fs)"

fun check_communities :: "string \<Rightarrow> nat \<Rightarrow> string list \<Rightarrow> (string \<times> string) list \<Rightarrow> (config_error, unit) result" where
  "check_communities name i seen [] = Inr ()"
| "check_communities name i seen ((c, label) # cs) =
     bindE (ensure (valid_community c) (BadCommunity name i)) (\<lambda>_.
     bindE (ensure (c \<notin> set seen) (DuplicateCommunity name c)) (\<lambda>_.
     bindE (ensure (valid_community_name label) (BadCommunityName name i)) (\<lambda>_.
     check_communities name (i + 1) (c # seen) cs)))"

definition check_github :: "source_config \<Rightarrow> (config_error, unit) result" where
  "check_github so = (if so_kind so \<noteq> ''github'' then Inr ()
     else bindE (if so_enabled so
         then bindE (ensure (so_repositories so \<noteq> []) (NoRepository (so_name so))) (\<lambda>_.
              ensure ((case so_token_env so of None \<Rightarrow> False | Some v \<Rightarrow> trim v \<noteq> []) \<or> so_token so \<noteq> None) (NoToken (so_name so)))
         else Inr ()) (\<lambda>_.
       for_each (\<lambda>r. ensure (valid_github_repository r) (BadRepository (so_name so) r)) (so_repositories so)))"

definition check_discord :: "source_config \<Rightarrow> (config_error, unit) result" where
  "check_discord so = (if so_kind so = ''discord'' \<and> so_enabled so
     then bindE (ensure (so_token so \<noteq> None \<and> so_oauth_client so \<noteq> None) (DiscordPaths (so_name so))) (\<lambda>_.
          ensure (so_token_env so = None) (DiscordTokenEnv (so_name so)))
     else Inr ())"

text \<open>The checks of one source, given the names and scopes of the sources before it.\<close>

definition validate_source :: "string list \<Rightarrow> string list \<Rightarrow> (string \<times> string) list \<Rightarrow> source_config \<Rightarrow> (config_error, unit) result" where
  "validate_source workspaces names scopes so =
     (let name = so_name so; canonical = canonical_source so in
      bindE (ensure (valid_source_name name) (BadSourceName name)) (\<lambda>_.
      bindE (ensure (name \<notin> set names) (DuplicateSourceName name)) (\<lambda>_.
      bindE (ensure (valid_canonical canonical) (BadCanonical name)) (\<lambda>_.
      bindE (ensure ((so_project so, canonical) \<notin> set scopes) (DuplicateScope canonical (so_project so))) (\<lambda>_.
      bindE (ensure (so_kind so \<in> set SUPPORTED_SOURCE_KINDS) (UnsupportedKind name)) (\<lambda>_.
      bindE (ensure (so_folders so = [] \<and> so_exclude_folders so = [] \<or> so_kind so = ''apple-notes'') (FoldersNotAllowed name)) (\<lambda>_.
      bindE (check_folder_list name (so_folders so)) (\<lambda>_.
      bindE (check_folder_list name (so_exclude_folders so)) (\<lambda>_.
      bindE (ensure (trim (so_project so) \<noteq> []) (EmptyProject name)) (\<lambda>_.
      bindE (check_github so) (\<lambda>_.
      bindE (check_discord so) (\<lambda>_.
      bindE (ensure (workspaces = [] \<or> so_project so \<in> set workspaces) (UnknownWorkspace name (so_project so))) (\<lambda>_.
      bindE (ensure (so_communities so = [] \<and> so_community_names so = [] \<or> so_kind so = ''buzz'') (CommunitiesNotAllowed name)) (\<lambda>_.
      bindE (ensure (length (so_communities so) \<le> MAX_BUZZ_COMMUNITIES) (TooManyCommunities name)) (\<lambda>_.
      bindE (ensure (length (so_community_names so) = length (so_communities so)) (CommunityNames name)) (\<lambda>_.
      check_communities name 0 [] (zip (so_communities so) (so_community_names so))))))))))))))))))"

fun validate_sources :: "string list \<Rightarrow> string list \<Rightarrow> (string \<times> string) list \<Rightarrow> source_config list \<Rightarrow> (config_error, unit) result" where
  "validate_sources workspaces names scopes [] = Inr ()"
| "validate_sources workspaces names scopes (so # sos) =
     bindE (validate_source workspaces names scopes so) (\<lambda>_.
     validate_sources workspaces (so_name so # names) ((so_project so, canonical_source so) # scopes) sos)"

fun check_workspaces :: "string list \<Rightarrow> string list \<Rightarrow> (config_error, unit) result" where
  "check_workspaces seen [] = Inr ()"
| "check_workspaces seen (w # ws) =
     bindE (ensure (trim w \<noteq> []) EmptyWorkspace) (\<lambda>_.
     bindE (ensure (w \<notin> set seen) (DuplicateWorkspace w)) (\<lambda>_. check_workspaces (w # seen) ws))"

definition validate_source_definitions :: "string list \<Rightarrow> source_config list \<Rightarrow> (config_error, unit) result" where
  "validate_source_definitions workspaces sources =
     bindE (ensure (length sources \<le> MAX_CONFIGURED_SOURCES) TooManySources) (\<lambda>_.
     bindE (check_workspaces [] workspaces) (\<lambda>_. validate_sources workspaces [] [] sources))"

section \<open>Limits of a run\<close>

record run_limits =
  rl_max_documents :: nat
  rl_max_bytes :: nat
  rl_max_seconds :: nat
  rl_batch_size :: nat
  rl_concurrency :: nat

record sync_overrides =
  ov_max_documents :: "nat option"
  ov_max_bytes :: "nat option"
  ov_max_seconds :: "nat option"

text \<open>The ingestion defaults of the configuration, and the concurrency of the embedding section.\<close>

record ingestion_config =
  ig_max_documents_per_source :: nat
  ig_max_bytes_per_source :: nat
  ig_max_duration_seconds :: nat
  ig_document_batch_size :: nat
  ig_request_concurrency :: nat
  ig_embedding_concurrency :: nat

datatype limit_error = NoDocumentBudget | NoByteBudget | NoDurationBudget | NoBatchSize | NoConcurrency

definition or_else :: "'a option \<Rightarrow> 'a option \<Rightarrow> 'a option" where
  "or_else x y = (case x of None \<Rightarrow> y | Some _ \<Rightarrow> x)"

definition unwrap_or :: "'a option \<Rightarrow> 'a \<Rightarrow> 'a" where
  "unwrap_or x d = (case x of None \<Rightarrow> d | Some a \<Rightarrow> a)"

definition resolve_limits :: "ingestion_config \<Rightarrow> source_config \<Rightarrow> sync_overrides \<Rightarrow> (limit_error, run_limits) result" where
  "resolve_limits cfg so ov =
     (let limits = \<lparr>rl_max_documents = unwrap_or (or_else (ov_max_documents ov) (so_max_documents so)) (ig_max_documents_per_source cfg),
        rl_max_bytes = unwrap_or (or_else (ov_max_bytes ov) (so_max_bytes so)) (ig_max_bytes_per_source cfg),
        rl_max_seconds = unwrap_or (or_else (ov_max_seconds ov) (so_max_seconds so)) (ig_max_duration_seconds cfg),
        rl_batch_size = ig_document_batch_size cfg,
        rl_concurrency = min (ig_request_concurrency cfg) (ig_embedding_concurrency cfg)\<rparr> in
      bindE (ensure (0 < rl_max_documents limits) NoDocumentBudget) (\<lambda>_.
      bindE (ensure (0 < rl_max_bytes limits) NoByteBudget) (\<lambda>_.
      bindE (ensure (0 < rl_max_seconds limits) NoDurationBudget) (\<lambda>_.
      bindE (ensure (0 < rl_batch_size limits) NoBatchSize) (\<lambda>_.
      bindE (ensure (0 < rl_concurrency limits) NoConcurrency) (\<lambda>_. Inr limits))))))"

section \<open>What a valid configuration promises\<close>

lemma retain_new_distinct: "distinct (retain_new seen ls) \<and> set (retain_new seen ls) = set ls - set seen"
  by (induction seen ls rule: retain_new.induct) auto

lemma validate_sources_distinct:
  "validate_sources ws names scopes sos = Inr () \<Longrightarrow>
    distinct (map so_name sos) \<and> set (map so_name sos) \<inter> set names = {}
    \<and> distinct (map (\<lambda>so. (so_project so, canonical_source so)) sos) \<and> (\<lambda>so. (so_project so, canonical_source so)) ` set sos \<inter> set scopes = {}
    \<and> (\<forall>so \<in> set sos. valid_source_name (so_name so) \<and> valid_canonical (canonical_source so) \<and> trim (so_project so) \<noteq> []
        \<and> so_kind so \<in> set SUPPORTED_SOURCE_KINDS \<and> (ws = [] \<or> so_project so \<in> set ws))"
proof (induction ws names scopes sos rule: validate_sources.induct)
  case (2 ws names scopes so sos)
  then have "validate_source ws names scopes so = Inr ()"
    and rest: "validate_sources ws (so_name so # names) ((so_project so, canonical_source so) # scopes) sos = Inr ()"
    by (auto simp: result_simps)
  then have "valid_source_name (so_name so)" "so_name so \<notin> set names" "valid_canonical (canonical_source so)"
    "(so_project so, canonical_source so) \<notin> set scopes" "so_kind so \<in> set SUPPORTED_SOURCE_KINDS" "trim (so_project so) \<noteq> []"
    "ws = [] \<or> so_project so \<in> set ws"
    by (simp_all add: validate_source_def Let_def result_simps split: if_splits)
  with "2.IH" [OF rest] show ?case by auto
qed simp

lemma entry_or_insert_present: "k \<in> fst ` set (entry_or_insert k v m)" "fst ` set m \<subseteq> fst ` set (entry_or_insert k v m)"
  by (auto simp: entry_or_insert_def set_insort_key dest: map_of_SomeD intro: rev_image_eqI)

text \<open>
  C28. A valid configuration scopes its sources. Names are unique and so are project and identifier
  together; every document of a source, whatever the connector put into it, is normalised into the
  project and identifier of the source, keeps its content and title, carries the provenance keys, and has
  labels: its own if the connector gave any, else those of the source, without repetition, else the
  project alone; it is never without a label.
\<close>

theorem sources_are_scoped:
  fixes d :: document
  assumes "validate_source_definitions workspaces sources = Inr ()" "so \<in> set sources"
  defines "n \<equiv> normalize_document so d"
  shows "distinct (map so_name sources) \<and> distinct (map (\<lambda>so. (so_project so, canonical_source so)) sources)
    \<and> length sources \<le> MAX_CONFIGURED_SOURCES \<and> (workspaces = [] \<or> so_project so \<in> set workspaces)
    \<and> doc_source n = canonical_source so \<and> trim (doc_source n) \<noteq> [] \<and> doc_project n = so_project so \<and> trim (doc_project n) \<noteq> []
    \<and> doc_content n = doc_content d \<and> doc_title n = doc_title d \<and> doc_source_id n = doc_source_id d
    \<and> doc_acl n \<noteq> [] \<and> (doc_acl d \<noteq> [] \<longrightarrow> doc_acl n = doc_acl d)
    \<and> (doc_acl d = [] \<longrightarrow> distinct (doc_acl n) \<and> set (doc_acl n) = (if so_acl so = [] then {so_project so} else set (so_acl so)))
    \<and> (\<exists>m. doc_metadata n = JObject m \<and> {''connector_kind'', ''configured_source''} \<subseteq> fst ` set m)"
proof -
  have valid: "validate_sources workspaces [] [] sources = Inr ()" "length sources \<le> MAX_CONFIGURED_SOURCES"
    using assms(1) by (auto simp: validate_source_definitions_def result_simps split: if_splits)
  note V = validate_sources_distinct [OF valid(1)]
  have acl: "effective_acl so \<noteq> [] \<and> distinct (effective_acl so) \<and> set (effective_acl so) = (if so_acl so = [] then {so_project so} else set (so_acl so))"
    using retain_new_distinct [of "[]" "so_acl so"] by (cases "so_acl so") (auto simp: effective_acl_def)
  have canonical: "trim (canonical_source so) \<noteq> []" "trim (so_project so) \<noteq> []" "workspaces = [] \<or> so_project so \<in> set workspaces"
    using V assms(2) by (auto simp: valid_canonical_def)
  have keys: "{''connector_kind'', ''configured_source''} \<subseteq> fst ` set (entry_or_insert ''configured_source'' v (entry_or_insert ''connector_kind'' w m))" for v w m
    using entry_or_insert_present by blast
  show ?thesis
    using V valid(2) canonical acl keys by (simp add: n_def normalize_document_def Let_def)
qed

definition ex_source :: source_config where
  "ex_source = \<lparr>so_name = ''a'', so_kind = ''external'', so_enabled = True, so_project = ''w'', so_source = None, so_folders = [],
     so_exclude_folders = [], so_communities = [], so_community_names = [], so_repositories = [], so_token_env = None, so_token = None,
     so_oauth_client = None, so_max_documents = None, so_max_bytes = None, so_max_seconds = None, so_acl = []\<rparr>"

lemma ex_source_valid: "validate_source_definitions [] [ex_source] = Inr ()"
proof -
  have t: "trim ''a'' = ''a''" "trim ''w'' = ''w''" by (rule trim_plain; simp add: byte_def)+
  have "\<not> any_control ''a''" by (simp add: any_control_def byte_def is_control_def)
  then show ?thesis
    by (simp add: validate_source_definitions_def validate_source_def ex_source_def canonical_source_def valid_source_name_def
        ascii_lower_or_digit_def byte_def valid_canonical_def t SUPPORTED_SOURCE_KINDS_def check_folder_list_def check_github_def
        check_discord_def MAX_CONFIGURED_SOURCES_def ensure_def)
qed

theorem sources_are_scoped_witness:
  "doc_acl (normalize_document ex_source (ex_document ''1'' ''t'' ''c'')) = [''w'']"
  using sources_are_scoped [OF ex_source_valid, of ex_source "ex_document ''1'' ''t'' ''c''"]
  by (simp add: ex_document_def ex_source_def normalize_document_def effective_acl_def)

end
