(* ===== verification/SyncRuns.thy ===== *)
theory SyncRuns
  imports Text "HOL-Library.Multiset"
begin

text \<open>
  The records of synchronisation runs in the store (\<open>begin_sync\<close>, \<open>finish_sync\<close>,
  \<open>update_sync_progress\<close> and \<open>recover_interrupted_syncs\<close> of \<open>crates/core/src/store.rs\<close>). The table is
  the list of its rows in the order of their row numbers. Fresh identifiers and the time are parameters.
\<close>

record sync_run =
  sr_id :: string
  sr_source :: string
  sr_project :: string
  sr_status :: string
  sr_started :: string
  sr_completed :: "string option"
  sr_documents :: "nat option"
  sr_bytes :: "nat option"
  sr_deleted :: "nat option"
  sr_progress_documents :: nat
  sr_progress_bytes :: nat
  sr_progress_at :: string
  sr_budget_documents :: nat
  sr_budget_bytes :: nat
  sr_budget_seconds :: nat

datatype sync_run_status = Succeeded | Failed | Cancelled | BudgetExceeded

fun run_status_as_str :: "sync_run_status \<Rightarrow> string" where
  "run_status_as_str Succeeded = ''succeeded''"
| "run_status_as_str Failed = ''failed''"
| "run_status_as_str Cancelled = ''cancelled''"
| "run_status_as_str BudgetExceeded = ''budget_exceeded''"

datatype run_error = DuplicateRun | RunMissing

definition SYNC_RUNS_PER_SOURCE :: nat where "SYNC_RUNS_PER_SOURCE = 100"

text \<open>\<open>i64::try_from(n).unwrap_or(i64::MAX)\<close>\<close>

definition clamp_i64 :: "nat \<Rightarrow> nat" where
  "clamp_i64 n = min n (2 ^ 63 - 1)"

definition of_scope :: "string \<Rightarrow> string \<Rightarrow> sync_run \<Rightarrow> bool" where
  "of_scope source project r \<longleftrightarrow> sr_source r = source \<and> sr_project r = project"

text \<open>\<open>ORDER BY started_at DESC, rowid DESC LIMIT -1 OFFSET 100\<close>\<close>

definition surplus_runs :: "string \<Rightarrow> string \<Rightarrow> sync_run list \<Rightarrow> string list" where
  "surplus_runs source project runs =
     map sr_id (drop SYNC_RUNS_PER_SOURCE (rev (sort_key sr_started (filter (of_scope source project) runs))))"

definition new_run :: "string \<Rightarrow> string \<Rightarrow> string \<Rightarrow> string \<Rightarrow> nat \<Rightarrow> nat \<Rightarrow> nat \<Rightarrow> sync_run" where
  "new_run rid now source project budget_documents budget_bytes budget_seconds =
     \<lparr>sr_id = rid, sr_source = source, sr_project = project, sr_status = ''running'', sr_started = now,
      sr_completed = None, sr_documents = None, sr_bytes = None, sr_deleted = None, sr_progress_documents = 0,
      sr_progress_bytes = 0, sr_progress_at = now, sr_budget_documents = clamp_i64 budget_documents,
      sr_budget_bytes = clamp_i64 budget_bytes, sr_budget_seconds = clamp_i64 budget_seconds\<rparr>"

definition begin_sync :: "string \<Rightarrow> string \<Rightarrow> string \<Rightarrow> string \<Rightarrow> nat \<Rightarrow> nat \<Rightarrow> nat \<Rightarrow> sync_run list
    \<Rightarrow> (run_error, sync_run list) result" where
  "begin_sync rid now source project budget_documents budget_bytes budget_seconds runs =
     bindE (ensure (rid \<notin> sr_id ` set runs) DuplicateRun) (\<lambda>_.
       let added = runs @ [new_run rid now source project budget_documents budget_bytes budget_seconds]
       in Inr (filter (\<lambda>r. sr_id r \<notin> set (surplus_runs source project added)) added))"

text \<open>\<open>UPDATE sync_runs SET .. WHERE id=?1 AND status='running'\<close>, which must change one row.\<close>

definition is_running :: "string \<Rightarrow> sync_run \<Rightarrow> bool" where
  "is_running rid r \<longleftrightarrow> sr_id r = rid \<and> sr_status r = ''running''"

definition update_running :: "string \<Rightarrow> (sync_run \<Rightarrow> sync_run) \<Rightarrow> sync_run list \<Rightarrow> (run_error, sync_run list) result" where
  "update_running rid f runs =
     bindE (ensure (list_ex (is_running rid) runs) RunMissing) (\<lambda>_. Inr (map (\<lambda>r. if is_running rid r then f r else r) runs))"

definition finished_run :: "string \<Rightarrow> sync_run_status \<Rightarrow> nat option \<Rightarrow> nat option \<Rightarrow> nat option \<Rightarrow> sync_run \<Rightarrow> sync_run" where
  "finished_run now status documents bytes deleted r =
     r\<lparr>sr_status := run_status_as_str status, sr_completed := Some now, sr_documents := map_option clamp_i64 documents,
       sr_bytes := map_option clamp_i64 bytes, sr_deleted := map_option clamp_i64 deleted,
       sr_progress_documents := (case documents of None \<Rightarrow> sr_progress_documents r | Some n \<Rightarrow> clamp_i64 n),
       sr_progress_bytes := (case bytes of None \<Rightarrow> sr_progress_bytes r | Some n \<Rightarrow> clamp_i64 n),
       sr_progress_at := now\<rparr>"

definition finish_sync :: "string \<Rightarrow> string \<Rightarrow> sync_run_status \<Rightarrow> nat option \<Rightarrow> nat option \<Rightarrow> nat option \<Rightarrow> sync_run list
    \<Rightarrow> (run_error, sync_run list) result" where
  "finish_sync rid now status documents bytes deleted = update_running rid (finished_run now status documents bytes deleted)"

definition progressed_run :: "string \<Rightarrow> nat \<Rightarrow> nat \<Rightarrow> sync_run \<Rightarrow> sync_run" where
  "progressed_run now documents bytes r =
     r\<lparr>sr_progress_documents := clamp_i64 documents, sr_progress_bytes := clamp_i64 bytes, sr_progress_at := now\<rparr>"

definition update_sync_progress :: "string \<Rightarrow> string \<Rightarrow> nat \<Rightarrow> nat \<Rightarrow> sync_run list \<Rightarrow> (run_error, sync_run list) result" where
  "update_sync_progress rid now documents bytes = update_running rid (progressed_run now documents bytes)"

definition recovered_run :: "string \<Rightarrow> sync_run \<Rightarrow> sync_run" where
  "recovered_run now r = r\<lparr>sr_status := run_status_as_str Cancelled, sr_completed := Some now, sr_progress_at := now\<rparr>"

definition recover_interrupted_syncs :: "string \<Rightarrow> sync_run list \<Rightarrow> sync_run list \<times> nat" where
  "recover_interrupted_syncs now runs =
     (map (\<lambda>r. if sr_status r = ''running'' then recovered_run now r else r) runs,
      length (filter (\<lambda>r. sr_status r = ''running'') runs))"

section \<open>The invariant\<close>

definition runs_inv :: "sync_run list \<Rightarrow> bool" where
  "runs_inv runs \<longleftrightarrow> distinct (map sr_id runs)
     \<and> (\<forall>r \<in> set runs. (sr_completed r = None) = (sr_status r = ''running'')
          \<and> (sr_status r = ''running'' \<or> sr_status r \<in> range run_status_as_str))
     \<and> (\<forall>source project. length (filter (of_scope source project) runs) \<le> SYNC_RUNS_PER_SOURCE)"

inductive runs_step :: "sync_run list \<Rightarrow> sync_run list \<Rightarrow> bool" where
  step_begin: "begin_sync rid now source project d b s runs = Inr runs' \<Longrightarrow> runs_step runs runs'"
| step_finish: "finish_sync rid now status d b n runs = Inr runs' \<Longrightarrow> runs_step runs runs'"
| step_progress: "update_sync_progress rid now d b runs = Inr runs' \<Longrightarrow> runs_step runs runs'"
| step_recover: "runs_step runs (fst (recover_interrupted_syncs now runs))"

lemma filter_not_dropped: "distinct (map k xs) \<Longrightarrow> filter (\<lambda>x. k x \<notin> k ` set (drop n xs)) xs = take n xs"
proof -
  assume d: "distinct (map k xs)"
  have "distinct (map k (take n xs @ drop n xs))" using d by simp
  then have "k ` set (take n xs) \<inter> k ` set (drop n xs) = {}" unfolding map_append distinct_append by simp
  then have "filter (\<lambda>x. k x \<notin> k ` set (drop n xs)) (take n xs @ drop n xs) = take n xs"
    unfolding filter_append by (auto simp: filter_id_conv filter_empty_conv)
  then show ?thesis by simp
qed

lemma length_filter_perm: "mset xs = mset ys \<Longrightarrow> length (filter P xs) = length (filter P ys)"
  by (metis mset_filter size_mset)

text \<open>Starting a run leaves at most a hundred of its scope, all rows of other scopes, and of its own the latest.\<close>

lemma kept_of_scope:
  assumes "distinct (map sr_id added)"
  shows "length (filter (of_scope source project) (filter (\<lambda>r. sr_id r \<notin> set (surplus_runs source project added)) added))
      = min SYNC_RUNS_PER_SOURCE (length (filter (of_scope source project) added))"
    "r \<in> set added \<Longrightarrow> \<not> of_scope source project r \<Longrightarrow> sr_id r \<notin> set (surplus_runs source project added)"
proof -
  let ?F = "filter (of_scope source project) added" let ?S = "rev (sort_key sr_started ?F)"
  have perm: "mset ?S = mset ?F" by simp
  have "distinct (map sr_id ?F)" using assms by (auto simp: distinct_map intro: inj_on_subset)
  then have d: "distinct (map sr_id ?S)" using perm by (metis mset_eq_imp_distinct_iff mset_map)
  have "length (filter (\<lambda>r. sr_id r \<notin> sr_id ` set (drop SYNC_RUNS_PER_SOURCE ?S)) ?F) = length (take SYNC_RUNS_PER_SOURCE ?S)"
    by (subst length_filter_perm [OF perm, symmetric]) (simp only: filter_not_dropped [OF d])
  then show "length (filter (of_scope source project) (filter (\<lambda>r. sr_id r \<notin> set (surplus_runs source project added)) added))
      = min SYNC_RUNS_PER_SOURCE (length ?F)"
    by (simp add: surplus_runs_def conj_commute min.commute)
  show "sr_id r \<notin> set (surplus_runs source project added)" if "r \<in> set added" "\<not> of_scope source project r"
  proof
    assume "sr_id r \<in> set (surplus_runs source project added)"
    then obtain x where "x \<in> set added" "of_scope source project x" "sr_id x = sr_id r"
      by (auto simp: surplus_runs_def dest!: in_set_dropD)
    with that assms show False by (auto simp: distinct_map dest: inj_onD)
  qed
qed

lemma filter_other: "\<not> P n \<Longrightarrow> filter P (filter Q (xs @ [n])) = filter Q (filter P xs)"
  by (simp add: filter_filter conj_commute)

lemma begin_sync_rows:
  assumes "begin_sync rid now source project d b s runs = Inr runs'"
  obtains n where "n = new_run rid now source project d b s" "sr_id n = rid" "of_scope source project n"
    "sr_completed n = None" "sr_status n = ''running''" "rid \<notin> sr_id ` set runs"
    "runs' = filter (\<lambda>r. sr_id r \<notin> set (surplus_runs source project (runs @ [n]))) (runs @ [n])"
proof -
  obtain n where n: "n = new_run rid now source project d b s" "sr_id n = rid" "of_scope source project n"
    "sr_completed n = None" "sr_status n = ''running''" by (simp add: new_run_def of_scope_def)
  moreover have "rid \<notin> sr_id ` set runs" "runs' = filter (\<lambda>r. sr_id r \<notin> set (surplus_runs source project (runs @ [n]))) (runs @ [n])"
    using assms unfolding begin_sync_def Let_def n(1) [symmetric]
    by (simp_all add: result_simps del: filter.simps filter_append split: if_splits)
  ultimately show thesis by (rule that)
qed

lemma begin_sync_inv:
  assumes inv: "runs_inv runs" and ok: "begin_sync rid now source project d b s runs = Inr runs'"
  shows "runs_inv runs'"
proof -
  obtain n where n: "n = new_run rid now source project d b s" "sr_id n = rid" "of_scope source project n"
    "sr_completed n = None" "sr_status n = ''running''" and fresh: "rid \<notin> sr_id ` set runs"
    and runs': "runs' = filter (\<lambda>r. sr_id r \<notin> set (surplus_runs source project (runs @ [n]))) (runs @ [n])"
    using begin_sync_rows [OF ok] by metis
  let ?added = "runs @ [n]"
  have d: "distinct (map sr_id ?added)" using inv fresh n(2) by (simp add: runs_inv_def)
  have "length (filter (of_scope x y) runs') \<le> SYNC_RUNS_PER_SOURCE" for x y
  proof (cases "x = source \<and> y = project")
    case True
    then have "length (filter (of_scope x y) runs') = min SYNC_RUNS_PER_SOURCE (length (filter (of_scope x y) ?added))"
      using kept_of_scope(1) [OF d, of source project] unfolding runs' by blast
    then show ?thesis by simp
  next
    case False
    then have "\<not> of_scope x y n" using n(3) by (auto simp: of_scope_def)
    then have "filter (of_scope x y) runs' = filter (\<lambda>r. sr_id r \<notin> set (surplus_runs source project ?added)) (filter (of_scope x y) runs)"
      unfolding runs' by (rule filter_other)
    then have "length (filter (of_scope x y) runs') \<le> length (filter (of_scope x y) runs)" by (metis length_filter_le)
    also have "\<dots> \<le> SYNC_RUNS_PER_SOURCE" using inv by (simp add: runs_inv_def)
    finally show ?thesis .
  qed
  moreover have "distinct (map sr_id runs')"
    using distinct_map_filter [OF d] unfolding runs' .
  moreover have "set runs' \<subseteq> insert n (set runs)" unfolding runs' by auto
  ultimately show ?thesis using inv n(4,5) unfolding runs_inv_def by blast
qed

lemma same_scopes: "(\<And>r. sr_source (f r) = sr_source r \<and> sr_project (f r) = sr_project r) \<Longrightarrow>
    length (filter (of_scope x y) (map f runs)) = length (filter (of_scope x y) runs)"
  by (induction runs) (auto simp: of_scope_def)

lemma run_status_names [simp]: "run_status_as_str st \<noteq> ''running''"
  by (cases st) simp_all

lemma map_runs_inv:
  assumes "runs_inv runs"
    and "\<And>r. sr_id (f r) = sr_id r \<and> sr_source (f r) = sr_source r \<and> sr_project (f r) = sr_project r"
    and "\<And>r. (sr_completed (f r) = sr_completed r \<and> sr_status (f r) = sr_status r)
      \<or> (sr_completed (f r) \<noteq> None \<and> sr_status (f r) \<in> range run_status_as_str)"
  shows "runs_inv (map f runs)"
proof -
  have "map sr_id (map f runs) = map sr_id runs" using assms(2) by simp
  then have "distinct (map sr_id (map f runs))" using assms(1) by (simp only: runs_inv_def)
  moreover have "length (filter (of_scope x y) (map f runs)) = length (filter (of_scope x y) runs)" for x y
    using assms(2) by (intro same_scopes) auto
  moreover have "(sr_completed (f r) = None) = (sr_status (f r) = ''running'') \<and> (sr_status (f r) = ''running'' \<or> sr_status (f r) \<in> range run_status_as_str)"
    if "r \<in> set runs" for r
  proof -
    have "(sr_completed r = None) = (sr_status r = ''running'')" "sr_status r = ''running'' \<or> sr_status r \<in> range run_status_as_str"
      using assms(1) that by (simp_all add: runs_inv_def)
    moreover have "s \<noteq> ''running''" if "s \<in> range run_status_as_str" for s using that by auto
    ultimately show ?thesis using assms(3) [of r] by metis
  qed
  ultimately show ?thesis using assms(1) unfolding runs_inv_def by (simp del: map_map)
qed

lemma cancelled_status [simp]: "''cancelled'' \<in> range run_status_as_str"
  by (metis rangeI run_status_as_str.simps(3))

lemmas run_updates = finished_run_def progressed_run_def recovered_run_def

lemma update_running_inv:
  assumes "runs_inv runs" "update_running rid f runs = Inr runs'"
    and "\<And>r. sr_id (f r) = sr_id r \<and> sr_source (f r) = sr_source r \<and> sr_project (f r) = sr_project r"
    and "\<And>r. (sr_completed (f r) = sr_completed r \<and> sr_status (f r) = sr_status r)
      \<or> (sr_completed (f r) \<noteq> None \<and> sr_status (f r) \<in> range run_status_as_str)"
  shows "runs_inv runs'"
proof -
  have "runs' = map (\<lambda>r. if is_running rid r then f r else r) runs"
    using assms(2) by (simp add: update_running_def result_simps split: if_splits)
  with assms(3,4) show ?thesis by (simp only:) (rule map_runs_inv [OF assms(1)]; simp)
qed

lemma runs_step_inv: "runs_inv runs \<Longrightarrow> runs_step runs runs' \<Longrightarrow> runs_inv runs'"
proof (erule runs_step.cases, goal_cases)
  case (1 rid now source project d b s runs runs')
  then show ?case using begin_sync_inv by blast
next
  case (2 rid now status d b n runs runs')
  then show ?case by (auto simp: finish_sync_def run_updates elim!: update_running_inv)
next
  case (3 rid now d b runs runs')
  then show ?case by (auto simp: update_sync_progress_def run_updates elim!: update_running_inv)
next
  case (4 runs now)
  then show ?case by (simp add: recover_interrupted_syncs_def) (rule map_runs_inv; simp add: run_updates)
qed

interpretation sr: step_invariant "\<lambda>runs. runs = []" runs_step runs_inv
proof
  show "runs = [] \<Longrightarrow> runs_inv runs" for runs by (simp add: runs_inv_def)
qed (rule runs_step_inv)

text \<open>
  C27. The history of runs is bounded and final. At most a hundred runs of a source and project are
  kept, identifiers are unique, exactly the running ones have no time of completion; and no operation
  changes a completed run, whichever run it names and whatever it reports, or drops a run
  of another source or project than the one being started.
\<close>

theorem run_history_is_bounded_and_final:
  assumes "reachable (\<lambda>runs. runs = []) runs_step runs" "runs_step runs runs'"
  shows "length (filter (of_scope source project) runs') \<le> SYNC_RUNS_PER_SOURCE \<and> distinct (map sr_id runs')
    \<and> list_all (\<lambda>r. (sr_completed r = None) = (sr_status r = ''running'')) runs'
    \<and> (sr_completed r \<noteq> None \<and> r \<in> set runs \<longrightarrow> (\<forall>r' \<in> set runs'. sr_id r' = sr_id r \<longrightarrow> r' = r))
    \<and> (\<forall>rid now d b s. begin_sync rid now source project d b s runs = Inr runs' \<and> r \<in> set runs \<and> \<not> of_scope source project r \<longrightarrow> r \<in> set runs')"
proof -
  have inv: "runs_inv runs" by (rule sr.always_inv [OF assms(1)])
  have inv': "runs_inv runs'" by (rule runs_step_inv [OF inv assms(2)])
  have ids: "inj_on sr_id (set runs)" using inv by (simp add: runs_inv_def distinct_map)
  have final: "r' = r" if r: "r \<in> set runs" "sr_completed r \<noteq> None" and r': "r' \<in> set runs'" "sr_id r' = sr_id r" for r'
  proof -
    have idle: "sr_status r \<noteq> ''running''" using inv r by (auto simp: runs_inv_def)
    have same: "x = r" if "x \<in> set runs" "sr_id x = sr_id r" for x using ids that r(1) by (auto dest: inj_onD)
    have changed: "r' = r" if ok: "update_running rid f runs = Inr runs'" and f: "\<And>x. sr_id (f x) = sr_id x" for rid f
    proof -
      obtain x where "x \<in> set runs" "r' = (if is_running rid x then f x else x)"
        using ok r'(1) by (auto simp: update_running_def result_simps split: if_splits)
      with f r'(2) same [of x] idle show ?thesis by (auto simp: is_running_def split: if_splits)
    qed
    from assms(2) show ?thesis
    proof cases
      case (step_begin rid now source project d b s)
      obtain n where "sr_id n \<notin> sr_id ` set runs" "r' = n \<or> r' \<in> set runs"
        using begin_sync_rows [OF step_begin] r'(1) by (metis (no_types, lifting) Un_iff empty_iff insert_iff list.set mem_Collect_eq set_append set_filter)
      then show ?thesis using r r' same by (metis imageI)
    next
      case (step_finish rid now status d b n)
      then show ?thesis using changed [of rid "finished_run now status d b n"] r' by (simp add: finish_sync_def run_updates)
    next
      case (step_progress rid now d b)
      then show ?thesis using changed [of rid "progressed_run now d b"] r' by (simp add: update_sync_progress_def run_updates)
    next
      case (step_recover now)
      then obtain x where "x \<in> set runs" "r' = (if sr_status x = ''running'' then recovered_run now x else x)"
        using r'(1) by (auto simp: recover_interrupted_syncs_def)
      with r'(2) same [of x] idle show ?thesis by (auto simp: run_updates split: if_splits)
    qed
  qed
  have "r \<in> set runs'" if ok: "begin_sync rid now source project d b s runs = Inr runs'" and r: "r \<in> set runs" "\<not> of_scope source project r" for rid now d b s
  proof -
    obtain n where n: "sr_id n = rid" "rid \<notin> sr_id ` set runs"
      and runs': "runs' = filter (\<lambda>r. sr_id r \<notin> set (surplus_runs source project (runs @ [n]))) (runs @ [n])"
      using begin_sync_rows [OF ok] by metis
    have "distinct (map sr_id (runs @ [n]))" using n inv by (simp add: runs_inv_def)
    then have "sr_id r \<notin> set (surplus_runs source project (runs @ [n]))" using kept_of_scope(2) r by auto
    then show ?thesis using r(1) unfolding runs' by simp
  qed
  with inv' final show ?thesis by (auto simp: runs_inv_def list_all_iff)
qed

theorem run_history_is_bounded_and_final_witness:
  "(case begin_sync ''1'' ''t'' ''mail'' ''w'' 1 1 1 [] of Inl e \<Rightarrow> False
    | Inr runs \<Rightarrow> length runs = 1 \<and> length (filter (of_scope ''mail'' ''w'') runs) \<le> SYNC_RUNS_PER_SOURCE)"
proof -
  obtain runs where ok: "begin_sync ''1'' ''t'' ''mail'' ''w'' 1 1 1 [] = Inr runs" and one: "length runs = 1"
    by (simp add: begin_sync_def surplus_runs_def SYNC_RUNS_PER_SOURCE_def of_scope_def new_run_def ensure_def Let_def)
  have "reachable (\<lambda>runs. runs = []) runs_step []" by (rule reachable_start) simp
  from run_history_is_bounded_and_final [OF this step_begin [OF ok], of "''mail''" "''w''"] ok one show ?thesis by simp
qed

end
