(* ===== verification/Ingest.thy ===== *)
theory Ingest
  imports Rebuild SourceConfig SyncRuns
begin

text \<open>
  Ingestion (\<open>src/main.rs\<close>: \<open>flush_ingest_batch\<close>, \<open>ingest_documents_controlled\<close>,
  \<open>sync_source_documents\<close> from its documents on, \<open>validate_connector_spool\<close>, \<open>sync_configured_sources\<close>).
  Embedding requests run concurrently and answer in any order; documents are committed one by one,
  in their order, as soon as all their vectors are there. What the outside does is a parameter: the
  outcome of every check of cancellation and time, and for every batch the sequence of what the
  requests answer. The text of an error is a parameter.
\<close>

datatype ingest_error =
    Stopped nat
  | EmbedFailed
  | WrongCount nat nat
  | OutsideRange
  | NotEnoughVectors
  | ChunkerStuck
  | IngestRefused corpus_error
  | RunFailed run_error
  | InvalidLine
  | DocumentBudget nat
  | ByteBudget nat
  | SpoolTooLarge nat
  | ConnectorFailed nat

text \<open>What can happen while the answers are awaited: request \<open>i\<close> answers, one fails, or time or the user stops it.\<close>

datatype flush_event = Answered nat "32 word list list" | RequestFailed | Interrupted ingest_error

text \<open>\<open>fc_before\<close>: stopped before anything ran.\<close>

record flush_course =
  fc_before :: "ingest_error option"
  fc_events :: "flush_event list"

type_synonym chunked = "document \<times> chunk_spec list"

section \<open>A batch\<close>

record flush =
  fl_corpus :: corpus
  fl_rest :: "chunked list"
  fl_vectors :: "32 word list option list"
  fl_offset :: nat
  fl_changed :: nat
  fl_unchanged :: nat

definition count_change :: "bool \<Rightarrow> flush \<Rightarrow> flush" where
  "count_change changed s = (if changed then s\<lparr>fl_changed := fl_changed s + 1\<rparr> else s\<lparr>fl_unchanged := fl_unchanged s + 1\<rparr>)"

text \<open>The leading documents without chunks.\<close>

fun commit_empty :: "corpus_env \<Rightarrow> chunked list \<Rightarrow> flush \<Rightarrow> flush \<times> (ingest_error, unit) result" where
  "commit_empty env [] s = (s, Inr ())"
| "commit_empty env ((d, specs) # rest) s =
     (if specs \<noteq> [] then (s, Inr ())
      else (case upsert_structured env d [] (fl_corpus s) of
          (c, Inl e) \<Rightarrow> (s\<lparr>fl_corpus := c\<rparr>, Inl (IngestRefused e))
        | (c, Inr changed) \<Rightarrow> commit_empty env rest (count_change changed (s\<lparr>fl_corpus := c, fl_rest := rest\<rparr>))))"

text \<open>The documents whose vectors are all there; the vectors are taken out of their places.\<close>

fun commit_ready :: "corpus_env \<Rightarrow> chunked list \<Rightarrow> flush \<Rightarrow> flush \<times> (ingest_error, unit) result" where
  "commit_ready env [] s = (s, Inr ())"
| "commit_ready env ((d, specs) # rest) s =
     (let offset = fl_offset s; past = offset + length specs in
      if length (fl_vectors s) < past then (s, Inl OutsideRange)
      else (case those (take (length specs) (drop offset (fl_vectors s))) of
          None \<Rightarrow> (s, Inr ())
        | Some vectors \<Rightarrow>
            let taken = s\<lparr>fl_vectors := take offset (fl_vectors s) @ replicate (length specs) None @ drop past (fl_vectors s)\<rparr> in
            (case upsert_structured env d (zip specs vectors) (fl_corpus s) of
               (c, Inl e) \<Rightarrow> (taken\<lparr>fl_corpus := c\<rparr>, Inl (IngestRefused e))
             | (c, Inr changed) \<Rightarrow>
                 commit_ready env rest (count_change changed (taken\<lparr>fl_corpus := c, fl_rest := rest, fl_offset := past\<rparr>)))))"

definition store_vectors :: "nat \<Rightarrow> 32 word list list \<Rightarrow> flush \<Rightarrow> flush" where
  "store_vectors start vectors s =
     s\<lparr>fl_vectors := take start (fl_vectors s) @ map Some vectors @ drop (start + length vectors) (fl_vectors s)\<rparr>"

fun run_requests :: "corpus_env \<Rightarrow> string list list \<Rightarrow> flush_event list \<Rightarrow> flush \<Rightarrow> flush \<times> (ingest_error, unit) result" where
  "run_requests env requests [] s = (s, if fl_rest s = [] then Inr () else Inl NotEnoughVectors)"
| "run_requests env requests (Answered i vectors # events) s =
     (if length vectors \<noteq> length (requests ! i) then (s, Inl (WrongCount (length vectors) (length (requests ! i))))
      else (case (let s = store_vectors (i * EMBEDDING_REQUEST_SIZE) vectors s in commit_ready env (fl_rest s) s) of
          (s', Inl e) \<Rightarrow> (s', Inl e)
        | (s', Inr _) \<Rightarrow> run_requests env requests events s'))"
| "run_requests env requests (RequestFailed # events) s = (s, Inl EmbedFailed)"
| "run_requests env requests (Interrupted e # events) s = (s, Inl e)"

definition batch_input :: "chunked list \<Rightarrow> string list" where
  "batch_input docs = concat (map (map ch_content \<circ> snd) docs)"

definition embed_and_commit :: "corpus_env \<Rightarrow> flush_course \<Rightarrow> flush \<Rightarrow> flush \<times> (ingest_error, unit) result" where
  "embed_and_commit env course s =
     (case fc_before course of Some e \<Rightarrow> (s, Inl e)
      | None \<Rightarrow> (case commit_empty env (fl_rest s) s of (s', Inl e) \<Rightarrow> (s', Inl e)
          | (s', Inr _) \<Rightarrow> run_requests env (request_chunks EMBEDDING_REQUEST_SIZE (batch_input (fl_rest s))) (fc_events course) s'))"

text \<open>One by one: the reference for what a batch does to the store.\<close>

fun upsert_all :: "corpus_env \<Rightarrow> (document \<times> (chunk_spec \<times> 32 word list) list) list \<Rightarrow> flush \<Rightarrow> flush \<times> (ingest_error, unit) result" where
  "upsert_all env [] s = (s, Inr ())"
| "upsert_all env ((d, chunks) # rest) s = (case upsert_structured env d chunks (fl_corpus s) of
       (c, Inl e) \<Rightarrow> (s\<lparr>fl_corpus := c\<rparr>, Inl (IngestRefused e))
     | (c, Inr changed) \<Rightarrow> upsert_all env rest (count_change changed (s\<lparr>fl_corpus := c, fl_rest := tl (fl_rest s)\<rparr>)))"

definition embedded :: "(string \<Rightarrow> 32 word list) \<Rightarrow> chunked list \<Rightarrow> (document \<times> (chunk_spec \<times> 32 word list) list) list" where
  "embedded vec docs = map (\<lambda>(d, specs). (d, map (\<lambda>spec. (spec, vec (ch_content spec))) specs)) docs"

section \<open>Answers in any order\<close>

text \<open>What the batch looks like: the places before the offset belong to committed documents, and a
  later place is filled exactly when its request has answered.\<close>

definition flush_at :: "(string \<Rightarrow> 32 word list) \<Rightarrow> chunked list \<Rightarrow> nat set \<Rightarrow> flush \<Rightarrow> bool" where
  "flush_at vec docs answered s \<longleftrightarrow> length (fl_vectors s) = length (batch_input docs)
     \<and> drop (fl_offset s) (batch_input docs) = batch_input (fl_rest s) \<and> fl_offset s \<le> length (batch_input docs)
     \<and> (\<forall>j < length (batch_input docs). fl_offset s \<le> j \<longrightarrow> fl_vectors s ! j =
         (if j div EMBEDDING_REQUEST_SIZE \<in> answered then Some (vec (batch_input docs ! j)) else None))"

text \<open>Equal in what counts: the bookkeeping of the vectors aside.\<close>

definition same_flush :: "flush \<Rightarrow> flush \<Rightarrow> bool" where
  "same_flush s t \<longleftrightarrow> fl_corpus s = fl_corpus t \<and> fl_rest s = fl_rest t \<and> fl_changed s = fl_changed t \<and> fl_unchanged s = fl_unchanged t"

lemma request_chunks_nth:
  "0 < n \<Longrightarrow> (i < length (request_chunks n xs)) = (i * n < length xs)
    \<and> (i < length (request_chunks n xs) \<longrightarrow> request_chunks n xs ! i = take n (drop (i * n) xs))"
proof (induction n xs arbitrary: i rule: request_chunks.induct)
  case (1 n xs)
  show ?case
  proof (cases "xs = []")
    case True
    then show ?thesis by (simp add: request_chunks.simps)
  next
    case False
    then have rc: "request_chunks n xs = take n xs # request_chunks n (drop n xs)" using "1.prems" by (simp add: request_chunks.simps [of n xs])
    show ?thesis
    proof (cases i)
      case 0
      with False rc show ?thesis by simp
    next
      case (Suc k)
      have "(Suc k * n < length xs) = (k * n < length (drop n xs))" by auto
      moreover have "drop (k * n) (drop n xs) = drop (Suc k * n) xs" by (simp add: add.commute)
      ultimately show ?thesis using "1.IH" [of k] False "1.prems" rc Suc by simp
    qed
  qed
qed

text \<open>A run of places of a vector replaced.\<close>

lemma nth_spliced:
  assumes "a + length r \<le> length v"
  shows "j < a \<Longrightarrow> (take a v @ r @ drop (a + length r) v) ! j = v ! j"
    "a \<le> j \<Longrightarrow> j < a + length r \<Longrightarrow> (take a v @ r @ drop (a + length r) v) ! j = r ! (j - a)"
    "a + length r \<le> j \<Longrightarrow> j < length v \<Longrightarrow> (take a v @ r @ drop (a + length r) v) ! j = v ! j"
proof -
  have a: "length (take a v) = a" using assms by simp
  show "j < a \<Longrightarrow> (take a v @ r @ drop (a + length r) v) ! j = v ! j" using a by (simp add: nth_append)
  show "a \<le> j \<Longrightarrow> j < a + length r \<Longrightarrow> (take a v @ r @ drop (a + length r) v) ! j = r ! (j - a)"
    unfolding nth_append a by auto
  assume j: "a + length r \<le> j" "j < length v"
  then have "\<not> j < a" "\<not> j - a < length r" "j - a - length r + (a + length r) = j" by auto
  then show "(take a v @ r @ drop (a + length r) v) ! j = v ! j"
    unfolding nth_append a using assms by (simp add: add.commute)
qed

lemma batch_input_Cons [simp]: "batch_input ((d, specs) # rest) = map ch_content specs @ batch_input rest"
  by (simp add: batch_input_def)

lemma same_flush_refl [simp]: "same_flush s s" and same_flush_sym: "same_flush s t \<Longrightarrow> same_flush t s"
  and same_flush_trans: "same_flush s t \<Longrightarrow> same_flush t u \<Longrightarrow> same_flush s u"
  by (simp_all add: same_flush_def)

definition same_outcome :: "flush \<times> (ingest_error, unit) result \<Rightarrow> flush \<times> (ingest_error, unit) result \<Rightarrow> bool" where
  "same_outcome x y \<longleftrightarrow> same_flush (fst x) (fst y) \<and> snd x = snd y"

lemma same_outcome_trans: "same_outcome x y \<Longrightarrow> same_outcome y z \<Longrightarrow> same_outcome x z"
  by (auto simp: same_outcome_def intro: same_flush_trans)

lemma same_outcome_sym: "same_outcome x y \<Longrightarrow> same_outcome y x"
  by (simp add: same_outcome_def same_flush_sym)

lemma upsert_all_same: "same_flush s t \<Longrightarrow> same_outcome (upsert_all env ds s) (upsert_all env ds t)"
proof (induction env ds s arbitrary: t rule: upsert_all.induct)
  case (2 env d chunks rest s)
  have c: "fl_corpus t = fl_corpus s" using "2.prems" by (simp add: same_flush_def)
  show ?case
  proof (cases "upsert_structured env d chunks (fl_corpus s)")
    case (Pair c r)
    show ?thesis
    proof (cases r)
      case (Inl e)
      with Pair c "2.prems" show ?thesis by (simp add: same_outcome_def same_flush_def)
    next
      case (Inr b)
      have "same_flush (count_change b (s\<lparr>fl_corpus := c, fl_rest := tl (fl_rest s)\<rparr>)) (count_change b (t\<lparr>fl_corpus := c, fl_rest := tl (fl_rest t)\<rparr>))"
        using "2.prems" by (simp add: same_flush_def count_change_def)
      from "2.IH" [OF Pair [symmetric] Inr this] Pair Inr c show ?thesis by simp
    qed
  qed
qed (simp add: same_outcome_def)

lemma those_map_Some [simp]: "those (map Some xs) = Some xs"
  by (induction xs) simp_all

lemma those_None: "None \<in> set xs \<Longrightarrow> those xs = None"
  by (induction xs) (auto split: option.splits)

lemma those_nth: "those xs = Some ys \<Longrightarrow> xs = map Some ys"
  by (induction xs arbitrary: ys) (auto split: option.splits)

text \<open>Committing what is ready does the first part of the reference and stops at a document that waits.\<close>

definition waiting :: "flush \<Rightarrow> bool" where
  "waiting s \<longleftrightarrow> (\<exists>d specs rest j. fl_rest s = (d, specs) # rest \<and> fl_offset s \<le> j \<and> j < fl_offset s + length specs \<and> fl_vectors s ! j = None)"

lemma commit_ready_step:
  "flush_at vec docs A s \<Longrightarrow> fl_rest s = rest \<Longrightarrow> commit_ready env rest s = (s', r) \<Longrightarrow>
    same_outcome (case r of Inl e \<Rightarrow> (s', Inl e) | Inr _ \<Rightarrow> upsert_all env (embedded vec (fl_rest s')) s') (upsert_all env (embedded vec rest) s)
    \<and> (r = Inr () \<longrightarrow> flush_at vec docs A s' \<and> (fl_rest s' = [] \<or> waiting s'))"
proof (induction env rest s rule: commit_ready.induct)
  case (1 env s)
  then show ?case by (auto simp: same_outcome_def embedded_def)
next
  case (2 env d specs rest s)
  let ?past = "fl_offset s + length specs" and ?slice = "take (length specs) (drop (fl_offset s) (fl_vectors s))"
  note at = "2.prems"(1) [unfolded flush_at_def]
  have input: "drop (fl_offset s) (batch_input docs) = map ch_content specs @ batch_input rest" using at "2.prems"(2) by simp
  then have long: "?past \<le> length (batch_input docs)" using at by (metis add.commute le_diff_conv2 length_append length_drop length_map le_add1)
  show ?case
  proof (cases "those ?slice")
    case None
    have "\<exists>j. fl_offset s \<le> j \<and> j < ?past \<and> fl_vectors s ! j = None"
    proof (rule ccontr)
      assume "\<nexists>j. fl_offset s \<le> j \<and> j < ?past \<and> fl_vectors s ! j = None"
      then have "?slice = map Some (map the ?slice)"
        using at long by (intro nth_equalityI) auto
      then have "those ?slice \<noteq> None" by (metis option.discI those_map_Some)
      with None show False by simp
    qed
    with None "2.prems" long at have "s' = s" "r = Inr ()" "waiting s" by (auto simp: waiting_def Let_def)
    with "2.prems" show ?thesis by (simp add: same_outcome_def)
  next
    case (Some vectors)
    have "?slice = map (\<lambda>spec. Some (vec (ch_content spec))) specs"
    proof (rule nth_equalityI)
      show "length ?slice = length (map (\<lambda>spec. Some (vec (ch_content spec))) specs)" using at long by simp
      fix i assume "i < length ?slice"
      then have i: "i < length specs" by simp
      have content: "batch_input docs ! (fl_offset s + i) = ch_content (specs ! i)"
        using arg_cong [OF input, of "\<lambda>xs. xs ! i"] i long by (simp add: nth_append)
      have "?slice ! i = fl_vectors s ! (fl_offset s + i)" using i at long by simp
      moreover have "\<dots> = (if (fl_offset s + i) div EMBEDDING_REQUEST_SIZE \<in> A then Some (vec (batch_input docs ! (fl_offset s + i))) else None)"
        using at i long by (metis add.commute add_less_cancel_left le_add1 less_le_trans)
      moreover have "?slice ! i \<noteq> None" using those_nth [OF Some] i \<open>i < length ?slice\<close> by simp
      ultimately show "?slice ! i = map (\<lambda>spec. Some (vec (ch_content spec))) specs ! i" using content i by (simp split: if_splits)
    qed
    then have "?slice = map Some (map (\<lambda>spec. vec (ch_content spec)) specs)" by (simp only: map_map comp_def)
    with Some have vectors: "vectors = map (\<lambda>spec. vec (ch_content spec)) specs" by (simp only: those_map_Some option.inject)
    then have chunks: "zip specs vectors = map (\<lambda>spec. (spec, vec (ch_content spec))) specs" by (simp add: zip_map2 zip_same_conv_map)
    let ?taken = "s\<lparr>fl_vectors := take (fl_offset s) (fl_vectors s) @ replicate (length specs) None @ drop ?past (fl_vectors s)\<rparr>"
    obtain c u where up: "upsert_structured env d (zip specs vectors) (fl_corpus s) = (c, u)" by fastforce
    show ?thesis
    proof (cases u)
      case (Inl e)
      with up Some "2.prems" long at chunks show ?thesis
        by (auto simp: Let_def same_outcome_def same_flush_def embedded_def)
    next
      case (Inr b)
      let ?s = "count_change b (?taken\<lparr>fl_corpus := c, fl_rest := rest, fl_offset := ?past\<rparr>)"
      have "drop ?past (batch_input docs) = batch_input rest" using input by (metis append_eq_conv_conj drop_drop add.commute length_map)
      moreover have "fl_vectors ?s ! j = fl_vectors s ! j" if "?past \<le> j" "j < length (fl_vectors s)" for j
        using that long at nth_spliced(3) [of "fl_offset s" "replicate (length specs) None" "fl_vectors s" j]
        by (simp add: count_change_def)
      moreover have "length (fl_vectors ?s) = length (batch_input docs)" "fl_offset ?s = ?past" "fl_rest ?s = rest"
        using at long by (simp_all add: count_change_def)
      moreover have "fl_vectors s ! j = (if j div EMBEDDING_REQUEST_SIZE \<in> A then Some (vec (batch_input docs ! j)) else None)"
        if "?past \<le> j" "j < length (batch_input docs)" for j using at that by simp
      ultimately have at': "flush_at vec docs A ?s"
        unfolding flush_at_def using long at by (metis (no_types, lifting))
      have step: "commit_ready env rest ?s = (s', r)" using "2.prems"(3) up Some Inr long at by (simp add: Let_def)
      have "fl_rest ?s = rest" by (simp add: count_change_def)
      note IH = "2.IH" [OF refl refl _ Some refl up [symmetric] Inr at' this step]
      have "same_flush ?s (count_change b (s\<lparr>fl_corpus := c, fl_rest := tl (fl_rest s)\<rparr>))"
        using "2.prems"(2) by (simp add: same_flush_def count_change_def)
      from upsert_all_same [OF this] have "same_outcome (upsert_all env (embedded vec rest) ?s) (upsert_all env (embedded vec ((d, specs) # rest)) s)"
        using up Inr chunks by (simp add: embedded_def)
      with IH long at show ?thesis by (auto intro: same_outcome_trans)
    qed
  qed
qed

lemma commit_empty_step:
  "flush_at vec docs A s \<Longrightarrow> fl_rest s = rest \<Longrightarrow> commit_empty env rest s = (s', r) \<Longrightarrow>
    same_outcome (case r of Inl e \<Rightarrow> (s', Inl e) | Inr _ \<Rightarrow> upsert_all env (embedded vec (fl_rest s')) s') (upsert_all env (embedded vec rest) s)
    \<and> (r = Inr () \<longrightarrow> flush_at vec docs A s' \<and> (\<forall>d specs rest'. fl_rest s' = (d, specs) # rest' \<longrightarrow> specs \<noteq> []))"
proof (induction env rest s rule: commit_empty.induct)
  case (1 env s)
  then show ?case by (auto simp: same_outcome_def embedded_def)
next
  case (2 env d specs rest s)
  obtain c u where up: "upsert_structured env d [] (fl_corpus s) = (c, u)" by fastforce
  show ?case
  proof (cases "specs = []")
    case False
    with "2.prems" show ?thesis by (auto simp: same_outcome_def)
  next
    case True
    show ?thesis
    proof (cases u)
      case (Inl e)
      with True up "2.prems" show ?thesis by (auto simp: same_outcome_def same_flush_def embedded_def)
    next
      case (Inr b)
      let ?s = "count_change b (s\<lparr>fl_corpus := c, fl_rest := rest\<rparr>)"
      have at': "flush_at vec docs A ?s" "fl_rest ?s = rest"
        using "2.prems"(1,2) True by (simp_all add: flush_at_def count_change_def)
      have step: "commit_empty env rest ?s = (s', r)" using "2.prems"(3) up True Inr by simp
      have "\<not> specs \<noteq> []" using True by simp
      note IH = "2.IH" [OF this up [symmetric] Inr at' step]
      have "same_flush ?s (count_change b (s\<lparr>fl_corpus := c, fl_rest := tl (fl_rest s)\<rparr>))"
        using "2.prems"(2) by (simp add: same_flush_def count_change_def)
      from upsert_all_same [OF this] have "same_outcome (upsert_all env (embedded vec rest) ?s) (upsert_all env (embedded vec ((d, specs) # rest)) s)"
        using up Inr True by (simp add: embedded_def)
      with IH show ?thesis by (auto intro: same_outcome_trans)
    qed
  qed
qed

lemma flush_at_store:
  assumes "flush_at vec docs A s" "i < length (request_chunks EMBEDDING_REQUEST_SIZE (batch_input docs))"
  defines "request \<equiv> request_chunks EMBEDDING_REQUEST_SIZE (batch_input docs) ! i"
  shows "flush_at vec docs (insert i A) (store_vectors (i * EMBEDDING_REQUEST_SIZE) (map vec request) s)"
proof -
  let ?n = EMBEDDING_REQUEST_SIZE and ?in = "batch_input docs"
  have n: "0 < ?n" by (simp add: EMBEDDING_REQUEST_SIZE_def)
  have start: "i * ?n < length ?in" "request = take ?n (drop (i * ?n) ?in)"
    using request_chunks_nth [OF n, of i ?in] assms(2) by (auto simp: request_def)
  let ?vs = "fl_vectors s" let ?new = "take (i * ?n) ?vs @ map Some (map vec request) @ drop (i * ?n + length request) ?vs"
  note at = assms(1) [unfolded flush_at_def]
  have len: "length request = min ?n (length ?in - i * ?n)" by (simp add: start(2))
  have fits: "i * ?n + length (map Some (map vec request)) \<le> length ?vs" using at start(1) len by simp
  have new: "?new ! j = (if j div ?n = i then Some (vec (?in ! j)) else ?vs ! j)" if j: "j < length ?in" for j
  proof -
    consider "j < i * ?n" | "i * ?n \<le> j" "j < i * ?n + length request" | "i * ?n + length request \<le> j" by linarith
    then show ?thesis
    proof cases
      case 1
      then have "j div ?n < i" using n by (simp add: div_less_iff_less_mult)
      with nth_spliced(1) [OF fits 1] show ?thesis by simp
    next
      case 2
      then have "j div ?n = i" using len n by (intro div_nat_eqI) (auto simp: mult.commute)
      moreover have "?new ! j = Some (vec (request ! (j - i * ?n)))" using nth_spliced(2) [OF fits, of j] 2 by simp
      moreover have "request ! (j - i * ?n) = ?in ! j" using 2 len j by (simp add: start(2))
      ultimately show ?thesis by simp
    next
      case 3
      then have "i * ?n + ?n \<le> j" using j len by linarith
      then have "i + 1 \<le> j div ?n" using n by (simp add: less_eq_div_iff_mult_less_eq)
      with nth_spliced(3) [OF fits, of j] 3 j at show ?thesis by simp
    qed
  qed
  have "length ?new = length ?in" using at start(1) len by simp
  with at new show ?thesis by (auto simp: flush_at_def store_vectors_def)
qed

lemma run_requests_all:
  "flush_at vec docs A s \<Longrightarrow> requests = request_chunks EMBEDDING_REQUEST_SIZE (batch_input docs)
    \<Longrightarrow> distinct order \<Longrightarrow> set order \<union> A = {..<length requests} \<Longrightarrow> fl_rest s = [] \<or> waiting s
    \<Longrightarrow> run_requests env requests (map (\<lambda>i. Answered i (map vec (requests ! i))) order) s = (s', r)
    \<Longrightarrow> same_outcome (s', r) (upsert_all env (embedded vec (fl_rest s)) s)"
proof (induction order arbitrary: A s)
  case Nil
  have "fl_rest s = []"
  proof (rule ccontr)
    assume "fl_rest s \<noteq> []"
    with Nil.prems(5) obtain d specs rest j where j: "fl_rest s = (d, specs) # rest" "fl_offset s \<le> j" "j < fl_offset s + length specs" "fl_vectors s ! j = None"
      by (auto simp: waiting_def)
    note at = Nil.prems(1) [unfolded flush_at_def]
    have "drop (fl_offset s) (batch_input docs) = map ch_content specs @ batch_input rest" using at j(1) by simp
    then have "length (batch_input docs) - fl_offset s = length specs + length (batch_input rest)" by (metis length_append length_drop length_map)
    moreover have "fl_offset s \<le> length (batch_input docs)" using at by blast
    ultimately have jl: "j < length (batch_input docs)" using j(3) by linarith
    have "j div EMBEDDING_REQUEST_SIZE * EMBEDDING_REQUEST_SIZE < length (batch_input docs)"
      using jl by (meson div_times_less_eq_dividend le_less_trans)
    then have "j div EMBEDDING_REQUEST_SIZE < length requests"
      using request_chunks_nth [of EMBEDDING_REQUEST_SIZE "j div EMBEDDING_REQUEST_SIZE" "batch_input docs"] Nil.prems(2)
      unfolding EMBEDDING_REQUEST_SIZE_def by simp
    then have "j div EMBEDDING_REQUEST_SIZE \<in> A" using Nil.prems(4) by auto
    with at jl j(2,4) show False by auto
  qed
  with Nil.prems(6) show ?case by (auto simp: same_outcome_def embedded_def)
next
  case (Cons i order)
  have i: "i < length requests" using Cons.prems(4) by auto
  let ?s = "store_vectors (i * EMBEDDING_REQUEST_SIZE) (map vec (requests ! i)) s"
  have at: "flush_at vec docs (insert i A) ?s" using flush_at_store [OF Cons.prems(1)] i Cons.prems(2) by simp
  obtain s1 r1 where step: "commit_ready env (fl_rest ?s) ?s = (s1, r1)" by fastforce
  note C = commit_ready_step [OF at refl step]
  have "same_flush ?s s" "fl_rest ?s = fl_rest s" by (simp_all add: same_flush_def store_vectors_def)
  then have base: "same_outcome (upsert_all env (embedded vec (fl_rest ?s)) ?s) (upsert_all env (embedded vec (fl_rest s)) s)"
    using upsert_all_same by simp
  show ?case
  proof (cases r1)
    case (Inl e)
    then have "(s', r) = (s1, Inl e)" using Cons.prems(6) step by (simp add: Let_def)
    with C base Inl show ?thesis by (auto intro: same_outcome_trans)
  next
    case (Inr u)
    have "same_outcome (s', r) (upsert_all env (embedded vec (fl_rest s1)) s1)"
    proof (rule Cons.IH [of "insert i A"])
      show "run_requests env requests (map (\<lambda>i. Answered i (map vec (requests ! i))) order) s1 = (s', r)"
        using Cons.prems(6) step Inr by (simp add: Let_def)
    qed (use C Inr Cons.prems in auto)
    with C base Inr show ?thesis by (auto intro: same_outcome_trans)
  qed
qed

lemma run_requests_start:
  assumes at: "flush_at vec docs A s" and s: "fl_rest s = [] \<or> fl_rest s = (d, specs) # rest \<and> specs \<noteq> []" and A: "A = {}"
  shows "fl_rest s = [] \<or> waiting s"
proof (rule disjCI)
  assume "\<not> waiting s"
  show "fl_rest s = []"
  proof (rule ccontr)
    assume "fl_rest s \<noteq> []"
    with s have rest: "fl_rest s = (d, specs) # rest" "specs \<noteq> []" by auto
    note at = at [unfolded flush_at_def]
    have "drop (fl_offset s) (batch_input docs) = map ch_content specs @ batch_input rest" using at rest by simp
    then have "fl_offset s < length (batch_input docs)" using rest(2) by (metis append_is_Nil_conv drop_all map_is_Nil_conv not_le)
    then have "fl_vectors s ! fl_offset s = None" using at A by simp
    with rest have "waiting s" unfolding waiting_def by (metis length_greater_0_conv less_add_same_cancel1 order_refl)
    with \<open>\<not> waiting s\<close> show False ..
  qed
qed

definition new_flush :: "chunked list \<Rightarrow> corpus \<Rightarrow> nat \<Rightarrow> nat \<Rightarrow> flush" where
  "new_flush docs c m n = \<lparr>fl_corpus = c, fl_rest = docs, fl_vectors = replicate (length (batch_input docs)) None,
     fl_offset = 0, fl_changed = m, fl_unchanged = n\<rparr>"

lemma new_flush_at: "flush_at vec docs {} (new_flush docs c m n)"
  by (simp add: flush_at_def new_flush_def)

text \<open>
  C29. A batch is the sequence of its upserts. Whatever the order in which the concurrent embedding
  requests answer, each document is written with the vectors of its own chunks, in the order of the
  documents, exactly as when they are written one after the other with all vectors at hand: the
  same store, the same counts, the same documents left over and the same error, if a write is refused.
\<close>

theorem batch_equals_sequence:
  fixes docs :: "chunked list"
  defines "requests \<equiv> request_chunks EMBEDDING_REQUEST_SIZE (batch_input docs)"
  assumes order: "distinct order" "set order = {..<length requests}"
    and course: "course = \<lparr>fc_before = None, fc_events = map (\<lambda>i. Answered i (map vec (requests ! i))) order\<rparr>"
  shows "(case embed_and_commit env course (new_flush docs c m n) of (s, r) \<Rightarrow>
      case upsert_all env (embedded vec docs) (new_flush docs c m n) of (t, r') \<Rightarrow>
        fl_corpus s = fl_corpus t \<and> fl_rest s = fl_rest t \<and> fl_changed s = fl_changed t \<and> fl_unchanged s = fl_unchanged t \<and> r = r')"
proof -
  let ?s = "new_flush docs c m n"
  have rest: "fl_rest ?s = docs" by (simp add: new_flush_def)
  obtain s1 r1 where empty: "commit_empty env docs ?s = (s1, r1)" by fastforce
  note C = commit_empty_step [OF new_flush_at rest empty, of vec]
  have "same_outcome (embed_and_commit env course ?s) (upsert_all env (embedded vec docs) ?s)"
  proof (cases r1)
    case (Inl e)
    then show ?thesis using C by (simp add: embed_and_commit_def course rest empty)
  next
    case (Inr u)
    obtain s2 r2 where run: "run_requests env requests (map (\<lambda>i. Answered i (map vec (requests ! i))) order) s1 = (s2, r2)" by fastforce
    have at: "flush_at vec docs {} s1" and "\<forall>d specs rest'. fl_rest s1 = (d, specs) # rest' \<longrightarrow> specs \<noteq> []" using C Inr by auto
    then have "fl_rest s1 = [] \<or> waiting s1"
      using run_requests_start [OF at, of "fst (hd (fl_rest s1))" "snd (hd (fl_rest s1))" "tl (fl_rest s1)"] by (cases "fl_rest s1") auto
    then have "same_outcome (s2, r2) (upsert_all env (embedded vec (fl_rest s1)) s1)"
      using run_requests_all [OF at _ order(1) _ _ run] order(2) by (simp add: requests_def)
    moreover have "embed_and_commit env course ?s = (s2, r2)"
      using run Inr by (simp add: embed_and_commit_def course rest empty requests_def)
    ultimately show ?thesis using C Inr by (auto intro: same_outcome_trans)
  qed
  then show ?thesis by (auto simp: same_outcome_def same_flush_def split: prod.split)
qed

definition ex_spec :: chunk_spec where
  "ex_spec = \<lparr>ch_key = ''k'', ch_content = ''text'', ch_ordinal = 0, ch_strategy = Generic, ch_parent_key = ''p'', ch_previous = None,
     ch_next = None, ch_start = 0, ch_end = 4, ch_version = CHUNKING_CONTRACT_VERSION\<rparr>"

theorem batch_equals_sequence_witness:
  "(case embed_and_commit ex_corpus_env \<lparr>fc_before = None, fc_events = [Answered 0 [[7]]]\<rparr>
        (new_flush [(ex_document ''1'' ''hi'' ''text'', [ex_spec])] ex_corpus 0 0) of (s, r) \<Rightarrow>
      case upsert_all ex_corpus_env [(ex_document ''1'' ''hi'' ''text'', [(ex_spec, [7])])]
        (new_flush [(ex_document ''1'' ''hi'' ''text'', [ex_spec])] ex_corpus 0 0) of (t, r') \<Rightarrow>
        fl_corpus s = fl_corpus t \<and> r = r')"
proof -
  let ?docs = "[(ex_document ''1'' ''hi'' ''text'', [ex_spec])]"
  have requests: "request_chunks EMBEDDING_REQUEST_SIZE (batch_input ?docs) = [[''text'']]"
    by (simp add: batch_input_def ex_spec_def EMBEDDING_REQUEST_SIZE_def request_chunks.simps)
  show ?thesis
    using batch_equals_sequence [of "[0]" ?docs _ "\<lambda>t. [7]" ex_corpus_env ex_corpus 0 0, unfolded requests, OF _ _ refl]
    by (simp add: embedded_def lessThan_Suc split: prod.splits)
qed

section \<open>Interrupted batches\<close>

definition stripped :: "(document \<times> (chunk_spec \<times> 32 word list) list) list \<Rightarrow> chunked list" where
  "stripped = map (\<lambda>(d, chunks). (d, map fst chunks))"

text \<open>What has been committed so far, and that the vectors fit the documents left.\<close>

definition committed :: "corpus_env \<Rightarrow> chunked list \<Rightarrow> flush \<Rightarrow> flush \<Rightarrow> bool" where
  "committed env docs start s \<longleftrightarrow> (\<exists>ready. stripped ready @ fl_rest s = docs \<and> snd (upsert_all env ready start) = Inr ()
     \<and> fl_corpus s = fl_corpus (fst (upsert_all env ready start)) \<and> fl_changed s = fl_changed (fst (upsert_all env ready start))
     \<and> fl_unchanged s = fl_unchanged (fst (upsert_all env ready start)))"

definition fitting :: "chunked list \<Rightarrow> flush \<Rightarrow> bool" where
  "fitting docs s \<longleftrightarrow> length (fl_vectors s) = length (batch_input docs)
     \<and> fl_offset s + length (batch_input (fl_rest s)) = length (batch_input docs)"

lemma upsert_all_append:
  "upsert_all env (xs @ ys) s = (case upsert_all env xs s of (t, Inl e) \<Rightarrow> (t, Inl e) | (t, Inr _) \<Rightarrow> upsert_all env ys t)"
  by (induction env xs s rule: upsert_all.induct) (auto split: prod.splits sum.splits)

lemma upsert_structured_error: "upsert_structured env d chunks c = (c', Inl e) \<Longrightarrow> c' = c"
  by (auto simp: upsert_structured_def transact_def Let_def split: if_splits sum.splits)

lemma committed_next:
  assumes "committed env docs start s" "fl_rest s = (d, map fst chunks) # rest" "upsert_structured env d chunks (fl_corpus s) = (c, Inr b)"
    and "fl_corpus t = c" "fl_rest t = rest" "fl_changed t = fl_changed s + (if b then 1 else 0)" "fl_unchanged t = fl_unchanged s + (if b then 0 else 1)"
  shows "committed env docs start t"
proof -
  obtain ready where r: "stripped ready @ fl_rest s = docs" "snd (upsert_all env ready start) = Inr ()"
    "fl_corpus s = fl_corpus (fst (upsert_all env ready start))" "fl_changed s = fl_changed (fst (upsert_all env ready start))"
    "fl_unchanged s = fl_unchanged (fst (upsert_all env ready start))"
    using assms(1) unfolding committed_def by blast
  obtain u where u: "upsert_all env ready start = (u, Inr ())" using r(2) by (cases "upsert_all env ready start") simp
  have "upsert_all env (ready @ [(d, chunks)]) start = (count_change b (u\<lparr>fl_corpus := c, fl_rest := tl (fl_rest u)\<rparr>), Inr ())"
    using assms(3) r(3) u by (simp add: upsert_all_append)
  then show ?thesis
    unfolding committed_def using r u assms(2,4-7)
    by (intro exI [of _ "ready @ [(d, chunks)]"]) (auto simp: stripped_def count_change_def)
qed

lemma commit_empty_committed:
  "committed env docs start s \<Longrightarrow> fitting docs s \<Longrightarrow> fl_rest s = rest \<Longrightarrow> commit_empty env rest s = (s', r) \<Longrightarrow>
    committed env docs start s' \<and> fitting docs s' \<and> r \<noteq> Inl OutsideRange"
proof (induction env rest s rule: commit_empty.induct)
  case (2 env d specs rest s)
  obtain c u where up: "upsert_structured env d [] (fl_corpus s) = (c, u)" by fastforce
  show ?case
  proof (cases "specs = []")
    case True
    show ?thesis
    proof (cases u)
      case (Inl e)
      with upsert_structured_error up have "c = fl_corpus s" by blast
      with Inl True up "2.prems" show ?thesis by (auto simp: committed_def fitting_def)
    next
      case (Inr b)
      let ?s = "count_change b (s\<lparr>fl_corpus := c, fl_rest := rest\<rparr>)"
      have "committed env docs start ?s"
        using True "2.prems"(3) up Inr by (intro committed_next [OF "2.prems"(1), of d "[]" rest c b]) (auto simp: count_change_def)
      moreover have "fitting docs ?s" "fl_rest ?s = rest" using "2.prems"(2,3) True by (auto simp: fitting_def count_change_def)
      moreover have "commit_empty env rest ?s = (s', r)" using "2.prems"(4) up True Inr by simp
      moreover have "\<not> specs \<noteq> []" using True by simp
      ultimately show ?thesis using "2.IH" [OF _ up [symmetric] Inr] by blast
    qed
  qed (use "2.prems" in auto)
qed auto

lemma commit_ready_committed:
  "committed env docs start s \<Longrightarrow> fitting docs s \<Longrightarrow> fl_rest s = rest \<Longrightarrow> commit_ready env rest s = (s', r) \<Longrightarrow>
    committed env docs start s' \<and> fitting docs s' \<and> r \<noteq> Inl OutsideRange"
proof (induction env rest s rule: commit_ready.induct)
  case (2 env d specs rest s)
  let ?past = "fl_offset s + length specs" and ?slice = "take (length specs) (drop (fl_offset s) (fl_vectors s))"
  have long: "\<not> length (fl_vectors s) < ?past" using "2.prems"(2,3) by (auto simp: fitting_def)
  let ?taken = "s\<lparr>fl_vectors := take (fl_offset s) (fl_vectors s) @ replicate (length specs) None @ drop ?past (fl_vectors s)\<rparr>"
  show ?case
  proof (cases "those ?slice")
    case None
    with "2.prems" long show ?thesis by (auto simp: Let_def)
  next
    case (Some vectors)
    have len: "length vectors = length specs" using those_nth [OF Some] long by (metis add_le_imp_le_diff length_drop length_map length_take min.absorb2 not_less add.commute)
    obtain c u where up: "upsert_structured env d (zip specs vectors) (fl_corpus s) = (c, u)" by fastforce
    have fit: "length (fl_vectors ?taken) = length (fl_vectors s)" using long by simp
    show ?thesis
    proof (cases u)
      case (Inl e)
      with upsert_structured_error up have "c = fl_corpus s" by blast
      then have "committed env docs start (?taken\<lparr>fl_corpus := c\<rparr>)" "fitting docs (?taken\<lparr>fl_corpus := c\<rparr>)"
        using "2.prems"(1,2) fit by (auto simp: committed_def fitting_def)
      moreover have "(s', r) = (?taken\<lparr>fl_corpus := c\<rparr>, Inl (IngestRefused e))" using "2.prems"(4) up Some Inl long by (simp add: Let_def)
      ultimately show ?thesis by simp
    next
      case (Inr b)
      let ?s = "count_change b (?taken\<lparr>fl_corpus := c, fl_rest := rest, fl_offset := ?past\<rparr>)"
      have "committed env docs start ?s"
        using "2.prems"(3) up Inr len by (intro committed_next [OF "2.prems"(1), of d "zip specs vectors" rest c b]) (auto simp: count_change_def)
      moreover have "fitting docs ?s" "fl_rest ?s = rest" using "2.prems"(2,3) fit by (auto simp: fitting_def count_change_def)
      moreover have "commit_ready env rest ?s = (s', r)" using "2.prems"(4) up Some Inr long by (simp add: Let_def)
      ultimately show ?thesis using "2.IH" [OF refl refl long Some refl up [symmetric] Inr] by blast
    qed
  qed
qed auto

lemma request_length:
  assumes "i < length (request_chunks EMBEDDING_REQUEST_SIZE xs)"
  shows "i * EMBEDDING_REQUEST_SIZE + length (request_chunks EMBEDDING_REQUEST_SIZE xs ! i) \<le> length xs"
  using request_chunks_nth [of EMBEDDING_REQUEST_SIZE i xs] assms unfolding EMBEDDING_REQUEST_SIZE_def by auto

definition answers_requests :: "string list list \<Rightarrow> flush_event \<Rightarrow> bool" where
  "answers_requests requests ev = (case ev of Answered i _ \<Rightarrow> i < length requests | Interrupted e \<Rightarrow> e \<noteq> OutsideRange | _ \<Rightarrow> True)"

lemma run_requests_committed:
  "committed env docs start s \<Longrightarrow> fitting docs s \<Longrightarrow> requests = request_chunks EMBEDDING_REQUEST_SIZE (batch_input docs)
    \<Longrightarrow> list_all (answers_requests requests) events \<Longrightarrow> run_requests env requests events s = (s', r)
    \<Longrightarrow> committed env docs start s' \<and> r \<noteq> Inl OutsideRange \<and> (r = Inr () \<longrightarrow> fl_rest s' = [])"
proof (induction env requests events s rule: run_requests.induct)
  case (2 env requests i vectors events s)
  show ?case
  proof (cases "length vectors = length (requests ! i)")
    case True
    let ?s = "store_vectors (i * EMBEDDING_REQUEST_SIZE) vectors s"
    have i: "i * EMBEDDING_REQUEST_SIZE + length vectors \<le> length (fl_vectors s)"
      using request_length [of i "batch_input docs"] "2.prems"(2-4) True by (simp add: answers_requests_def fitting_def)
    have ok: "committed env docs start ?s" "fitting docs ?s"
      using "2.prems"(1,2) i by (auto simp: committed_def fitting_def store_vectors_def)
    obtain s1 r1 where step: "commit_ready env (fl_rest ?s) ?s = (s1, r1)" by fastforce
    note C = commit_ready_committed [OF ok refl step]
    show ?thesis
    proof (cases r1)
      case (Inl e)
      with "2.prems"(5) step True C show ?thesis by (auto simp: Let_def)
    next
      case (Inr u)
      have run: "run_requests env requests events s1 = (s', r)" using "2.prems"(5) step True Inr by (simp add: Let_def)
      have "\<not> length vectors \<noteq> length (requests ! i)" using True by simp
      from "2.IH" [OF this _ Inr, of s1] step C run "2.prems"(3,4) show ?thesis by (simp add: Let_def)
    qed
  qed (use "2.prems" in auto)
qed (auto simp: answers_requests_def split: if_splits)

lemma batch_committed:
  assumes "list_all (answers_requests (request_chunks EMBEDDING_REQUEST_SIZE (batch_input docs))) (fc_events course)"
    and "fc_before course \<noteq> Some OutsideRange" and "embed_and_commit env course (new_flush docs c m n) = (s, r)"
  shows "committed env docs (new_flush docs c m n) s \<and> r \<noteq> Inl OutsideRange \<and> (r = Inr () \<longrightarrow> fl_rest s = [])"
proof -
  let ?s = "new_flush docs c m n"
  have start: "committed env docs ?s ?s" "fitting docs ?s"
    by (auto simp: committed_def fitting_def new_flush_def stripped_def intro: exI [of _ "[]"])
  have rest: "fl_rest ?s = docs" by (simp add: new_flush_def)
  obtain s1 r1 where empty: "commit_empty env docs ?s = (s1, r1)" by fastforce
  note C = commit_empty_committed [OF start rest empty]
  show ?thesis
    using assms C start run_requests_committed [of env docs ?s s1 _ "fc_events course" s r]
    by (auto simp: embed_and_commit_def rest empty split: option.splits sum.splits)
qed

text \<open>
  C30. An interrupted batch leaves a prefix. Whatever the requests answer, in whatever order, with
  whatever vectors, and whenever a provider fails, time runs out or the user stops, the documents
  of the batch split into two parts: those written, in their order, each as one whole with one vector for
  every chunk, and those left over for a retry, untouched; nothing is left over on success. The
  guard against vectors outside the input never fires.
\<close>

theorem interrupted_batch_commits_a_prefix:
  fixes docs :: "chunked list"
  assumes "list_all (answers_requests (request_chunks EMBEDDING_REQUEST_SIZE (batch_input docs))) (fc_events course)"
    and "fc_before course \<noteq> Some OutsideRange" and "embed_and_commit env course (new_flush docs c m n) = (s, r)"
  shows "\<exists>written t. docs = map (\<lambda>(d, chunks). (d, map fst chunks)) written @ fl_rest s
    \<and> upsert_all env written (new_flush docs c m n) = (t, Inr ()) \<and> fl_corpus s = fl_corpus t
    \<and> fl_changed s = fl_changed t \<and> fl_unchanged s = fl_unchanged t
    \<and> r \<noteq> Inl OutsideRange \<and> (r = Inr () \<longrightarrow> fl_rest s = [])"
proof -
  from batch_committed [OF assms] obtain ready where "stripped ready @ fl_rest s = docs"
    "snd (upsert_all env ready (new_flush docs c m n)) = Inr ()"
    "fl_corpus s = fl_corpus (fst (upsert_all env ready (new_flush docs c m n)))"
    "fl_changed s = fl_changed (fst (upsert_all env ready (new_flush docs c m n)))"
    "fl_unchanged s = fl_unchanged (fst (upsert_all env ready (new_flush docs c m n)))"
    "r \<noteq> Inl OutsideRange" "r = Inr () \<longrightarrow> fl_rest s = []"
    unfolding committed_def by blast
  then show ?thesis
    by (intro exI [of _ ready] exI [of _ "fst (upsert_all env ready (new_flush docs c m n))"]) (auto simp: stripped_def intro: prod_eqI)
qed

theorem interrupted_batch_commits_a_prefix_witness:
  "(case embed_and_commit ex_corpus_env \<lparr>fc_before = None, fc_events = [RequestFailed]\<rparr>
      (new_flush [(ex_document ''1'' ''hi'' ''text'', [ex_spec])] ex_corpus 0 0) of (s, r) \<Rightarrow>
    r = Inl EmbedFailed \<and> (\<exists>written :: (document \<times> (chunk_spec \<times> 32 word list) list) list. [(ex_document ''1'' ''hi'' ''text'', [ex_spec])] = map (\<lambda>(d, chunks). (d, map fst chunks)) written @ fl_rest s))"
proof -
  let ?docs = "[(ex_document ''1'' ''hi'' ''text'', [ex_spec])]" and ?course = "\<lparr>fc_before = None, fc_events = [RequestFailed]\<rparr>"
  obtain s r where run: "embed_and_commit ex_corpus_env ?course (new_flush ?docs ex_corpus 0 0) = (s, r)" by fastforce
  have events: "list_all (answers_requests (request_chunks EMBEDDING_REQUEST_SIZE (batch_input ?docs))) (fc_events ?course)"
    "fc_before ?course \<noteq> Some OutsideRange" by (simp_all add: answers_requests_def)
  from interrupted_batch_commits_a_prefix [OF this run] have "\<exists>written :: (document \<times> (chunk_spec \<times> 32 word list) list) list. ?docs = map (\<lambda>(d, chunks). (d, map fst chunks)) written @ fl_rest s"
    by blast
  moreover have "r = Inl EmbedFailed" using run by (simp add: embed_and_commit_def new_flush_def)
  ultimately show ?thesis using run by simp
qed

end
