(* ===== verification/SyncSources.thy ===== *)
theory SyncSources
  imports Ingest
begin

text \<open>
  The ingestion of a stream of documents (\<open>flush_ingest_batch\<close> and \<open>ingest_documents_controlled\<close>) and
  the synchronisation of the configured sources (\<open>validate_connector_spool\<close>, \<open>sync_source_documents\<close>,
  \<open>sync_configured_sources\<close> of \<open>src/main.rs\<close>). What a connector process or a directory delivers, the
  clock, run identifiers and the course of every embedding batch are parameters.
\<close>

section \<open>Ingesting documents\<close>

text \<open>\<open>ct_check\<close> is the outcome of each check of cancellation and time, numbered in the order of
  the checks; \<open>ct_course\<close> what happens in each batch, given its requests.\<close>

record control =
  ct_limits :: run_limits
  ct_check :: "nat \<Rightarrow> ingest_error option"
  ct_course :: "nat \<Rightarrow> string list list \<Rightarrow> flush_course"
  ct_run :: "string option"
  ct_now :: "nat \<Rightarrow> string"
  ct_chunks :: chunk_env

record ingest =
  in_corpus :: corpus
  in_runs :: "sync_run list"
  in_tick :: nat
  in_batches :: nat
  in_pending :: "chunked list"
  in_pending_chunks :: nat
  in_changed :: nat
  in_unchanged :: nat
  in_documents :: nat
  in_bytes :: nat

definition proceed :: "'s \<times> ('e, 'a) result \<Rightarrow> ('a \<Rightarrow> 's \<Rightarrow> 's \<times> ('e, 'b) result) \<Rightarrow> 's \<times> ('e, 'b) result" where
  "proceed p f = (case p of (s, Inl e) \<Rightarrow> (s, Inl e) | (s, Inr a) \<Rightarrow> f a s)"

lemma proceed_simps [simp]: "proceed (s, Inl e) f = (s, Inl e)" "proceed (s, Inr a) f = f a s"
  by (simp_all add: proceed_def)

definition check_control :: "control \<Rightarrow> ingest \<Rightarrow> ingest \<times> (ingest_error, unit) result" where
  "check_control ctl s = (s\<lparr>in_tick := in_tick s + 1\<rparr>, case ct_check ctl (in_tick s) of None \<Rightarrow> Inr () | Some e \<Rightarrow> Inl e)"

definition record_progress :: "control \<Rightarrow> ingest \<Rightarrow> ingest \<times> (ingest_error, unit) result" where
  "record_progress ctl s = (case ct_run ctl of None \<Rightarrow> (s, Inr ())
     | Some rid \<Rightarrow> (case update_sync_progress rid (ct_now ctl (in_tick s)) (in_documents s) (in_bytes s) (in_runs s) of
           Inl e \<Rightarrow> (s, Inl (RunFailed e)) | Inr runs \<Rightarrow> (s\<lparr>in_runs := runs\<rparr>, Inr ())))"

definition flush_ingest_batch :: "corpus_env \<Rightarrow> control \<Rightarrow> ingest \<Rightarrow> ingest \<times> (ingest_error, unit) result" where
  "flush_ingest_batch env ctl s = (if in_pending s = [] then (s, Inr ())
     else proceed (check_control ctl s) (\<lambda>_ s.
       let docs = in_pending s in
       proceed (check_control ctl (s\<lparr>in_pending := []\<rparr>)) (\<lambda>_ s.
       let requests = request_chunks EMBEDDING_REQUEST_SIZE (batch_input docs) in
       (case embed_and_commit env (ct_course ctl (in_batches s) requests)
            (new_flush docs (in_corpus s) (in_changed s) (in_unchanged s)) of (f, r) \<Rightarrow>
          let s = s\<lparr>in_corpus := fl_corpus f, in_batches := in_batches s + 1, in_changed := fl_changed f, in_unchanged := fl_unchanged f\<rparr> in
          (case r of Inl e \<Rightarrow> (s\<lparr>in_pending := fl_rest f\<rparr>, Inl e) | Inr _ \<Rightarrow> check_control ctl s)))))"

definition count_document :: "document \<Rightarrow> ingest \<Rightarrow> ingest" where
  "count_document d s = s\<lparr>in_documents := in_documents s + 1, in_bytes := min (in_bytes s + length (doc_content d)) u64_max\<rparr>"

fun ingest_loop :: "corpus_env \<Rightarrow> control \<Rightarrow> document list \<Rightarrow> ingest \<Rightarrow> ingest \<times> (ingest_error, unit) result" where
  "ingest_loop env ctl [] s = proceed (flush_ingest_batch env ctl s) (\<lambda>_. record_progress ctl)"
| "ingest_loop env ctl (d # ds) s =
     proceed (check_control ctl s) (\<lambda>_ s.
     let s = count_document d s in
     if \<not> needs_structured_update env d (in_corpus s)
     then (let s = s\<lparr>in_corpus := refresh_timestamp env d (in_corpus s), in_unchanged := in_unchanged s + 1\<rparr> in
       proceed (if 64 dvd in_documents s then record_progress ctl s else (s, Inr ())) (\<lambda>_. ingest_loop env ctl ds))
     else (case chunk_document (ct_chunks ctl) (doc.truncate d) of None \<Rightarrow> (s, Inl ChunkerStuck)
       | Some specs \<Rightarrow>
           let s = s\<lparr>in_pending_chunks := in_pending_chunks s + length specs, in_pending := in_pending s @ [(d, specs)]\<rparr> in
           if EMBEDDING_REQUEST_SIZE * rl_concurrency (ct_limits ctl) \<le> in_pending_chunks s
           then proceed (flush_ingest_batch env ctl s) (\<lambda>_ s.
                proceed (record_progress ctl s) (\<lambda>_ s. ingest_loop env ctl ds (s\<lparr>in_pending_chunks := 0\<rparr>)))
           else ingest_loop env ctl ds s))"

definition ingest_documents_controlled :: "corpus_env \<Rightarrow> control \<Rightarrow> document list \<Rightarrow> ingest \<Rightarrow> ingest \<times> (ingest_error, unit) result" where
  "ingest_documents_controlled env ctl ds s = ingest_loop env ctl ds
     (s\<lparr>in_pending := [], in_pending_chunks := 0, in_changed := 0, in_unchanged := 0, in_documents := 0, in_bytes := 0\<rparr>)"

section \<open>Reading a source\<close>

datatype spool_line = BlankLine | InvalidJson | Delivered document

text \<open>What the outside delivers: the connector's spool with its size, a failure to produce it, or the
  plan and the walk of a directory.\<close>

datatype delivery =
    ConnectorError ingest_error
  | ConnectorSpool nat "spool_line list"
  | FileTree "ingest_error option" "(ingest_error, document) result list"

record sync_scope =
  sc_seen :: "string list"
  sc_documents :: nat
  sc_bytes :: nat

definition maximum_connector_spool_bytes :: "run_limits \<Rightarrow> nat" where
  "maximum_connector_spool_bytes limits = min (rl_max_bytes limits + min (rl_max_documents limits * (64 * 1024)) u64_max) u64_max"

fun validate_lines :: "control \<Rightarrow> spool_line list \<Rightarrow> nat \<Rightarrow> nat \<Rightarrow> ingest \<Rightarrow> ingest \<times> (ingest_error, sync_scope) result" where
  "validate_lines ctl [] documents bytes s = (s, Inr \<lparr>sc_seen = [], sc_documents = documents, sc_bytes = bytes\<rparr>)"
| "validate_lines ctl (line # lines) documents bytes s =
     proceed (check_control ctl s) (\<lambda>_ s. case line of BlankLine \<Rightarrow> validate_lines ctl lines documents bytes s
       | InvalidJson \<Rightarrow> (s, Inl InvalidLine)
       | Delivered d \<Rightarrow>
           let documents = documents + 1; bytes = min (bytes + length (doc_content d)) u64_max in
           if rl_max_documents (ct_limits ctl) < documents then (s, Inl (DocumentBudget documents))
           else if rl_max_bytes (ct_limits ctl) < bytes then (s, Inl (ByteBudget bytes))
           else validate_lines ctl lines documents bytes s)"

definition validate_connector_spool :: "control \<Rightarrow> nat \<Rightarrow> spool_line list \<Rightarrow> ingest \<Rightarrow> ingest \<times> (ingest_error, sync_scope) result" where
  "validate_connector_spool ctl spool_bytes lines s =
     (if maximum_connector_spool_bytes (ct_limits ctl) < spool_bytes then (s, Inl (SpoolTooLarge spool_bytes))
      else validate_lines ctl lines 0 0 s)"

text \<open>The documents in batches. \<open>batch_step\<close> adds one and ingests the batch when it is full.\<close>

definition batch_step :: "corpus_env \<Rightarrow> control \<Rightarrow> document \<Rightarrow> document list \<Rightarrow> ingest \<Rightarrow> ingest \<times> (ingest_error, document list) result" where
  "batch_step env ctl d batch s = (let batch = batch @ [d] in
     if rl_batch_size (ct_limits ctl) \<le> length batch
     then proceed (ingest_documents_controlled env ctl batch s) (\<lambda>_ s. (s, Inr []))
     else (s, Inr batch))"

definition last_batch :: "corpus_env \<Rightarrow> control \<Rightarrow> document list \<Rightarrow> sync_scope \<Rightarrow> ingest \<Rightarrow> ingest \<times> (ingest_error, sync_scope) result" where
  "last_batch env ctl batch scope s =
     proceed (if batch = [] then (s, Inr ()) else ingest_documents_controlled env ctl batch s) (\<lambda>_ s. (s, Inr scope))"

fun connector_loop :: "corpus_env \<Rightarrow> control \<Rightarrow> source_config \<Rightarrow> spool_line list \<Rightarrow> document list \<Rightarrow> sync_scope \<Rightarrow> ingest
    \<Rightarrow> ingest \<times> (ingest_error, sync_scope) result" where
  "connector_loop env ctl so [] batch scope s = last_batch env ctl batch scope s"
| "connector_loop env ctl so (line # lines) batch scope s =
     proceed (check_control ctl s) (\<lambda>_ s. case line of BlankLine \<Rightarrow> connector_loop env ctl so lines batch scope s
       | InvalidJson \<Rightarrow> (s, Inl InvalidLine)
       | Delivered d \<Rightarrow>
           let d = normalize_document so d; scope = scope\<lparr>sc_seen := sc_seen scope @ [doc_source_id d]\<rparr> in
           proceed (batch_step env ctl d batch s) (\<lambda>batch. connector_loop env ctl so lines batch scope))"

definition file_scope :: "string list \<Rightarrow> nat \<Rightarrow> sync_scope" where
  "file_scope seen bytes = \<lparr>sc_seen = seen, sc_documents = length seen, sc_bytes = bytes\<rparr>"

fun filesystem_loop :: "corpus_env \<Rightarrow> control \<Rightarrow> source_config \<Rightarrow> bool \<Rightarrow> (ingest_error, document) result list \<Rightarrow> string list \<Rightarrow> nat
    \<Rightarrow> document list \<Rightarrow> ingest \<Rightarrow> ingest \<times> (ingest_error, sync_scope) result" where
  "filesystem_loop env ctl so rec [] seen bytes batch s = last_batch env ctl batch (file_scope seen bytes) s"
| "filesystem_loop env ctl so rec (item # items) seen bytes batch s =
     proceed (check_control ctl s) (\<lambda>_ s. case item of Inl e \<Rightarrow> (s, Inl e)
       | Inr d \<Rightarrow>
           let d = normalize_document so d; total = min (bytes + length (doc_content d)) u64_max;
               more = proceed (batch_step env ctl d batch s)
                 (\<lambda>batch. filesystem_loop env ctl so rec items (seen @ [doc_source_id d]) total batch) in
           if rec then
             if rl_max_documents (ct_limits ctl) \<le> length seen then (s, Inl (DocumentBudget (length seen)))
             else if rl_max_bytes (ct_limits ctl) < total then (s, Inl (ByteBudget total))
             else more
           else if rl_max_documents (ct_limits ctl) \<le> length seen \<or> rl_max_bytes (ct_limits ctl) < total
             then last_batch env ctl batch (file_scope seen bytes) s
           else more)"

definition sync_source_documents :: "corpus_env \<Rightarrow> control \<Rightarrow> source_config \<Rightarrow> bool \<Rightarrow> delivery \<Rightarrow> ingest
    \<Rightarrow> ingest \<times> (ingest_error, sync_scope) result" where
  "sync_source_documents env ctl so rec delivery s = (case delivery of
       ConnectorError e \<Rightarrow> (s, Inl e)
     | ConnectorSpool spool_bytes lines \<Rightarrow>
         proceed (validate_connector_spool ctl spool_bytes lines s) (\<lambda>scope. connector_loop env ctl so lines [] scope)
     | FileTree plan items \<Rightarrow>
         proceed (check_control ctl s) (\<lambda>_ s. case plan of Some e \<Rightarrow> (s, Inl e)
           | None \<Rightarrow> proceed (check_control ctl s) (\<lambda>_. filesystem_loop env ctl so rec items [] 0 [])))"

section \<open>A run over the sources\<close>

text \<open>\<open>failure_status\<close> reads the text of the error.\<close>

definition is_cancelled_status :: "string \<Rightarrow> bool" where
  "is_cancelled_status message \<longleftrightarrow> find_at message ''cancel'' \<noteq> None"

definition is_budget_exceeded :: "string \<Rightarrow> bool" where
  "is_budget_exceeded message \<longleftrightarrow> list_ex (\<lambda>marker. find_at message marker \<noteq> None)
     [''budget'', ''safety bound'', ''timed out after'', ''timed out before'', ''exceeded duration budget'', ''connector timed out'']"

definition failure_status :: "string \<Rightarrow> sync_run_status" where
  "failure_status message = (if is_cancelled_status message then Cancelled
     else if is_budget_exceeded message then BudgetExceeded else Failed)"

text \<open>The parameters of one source's run: the identifier and times of its record, the lower-cased text of
  errors, and the control without limits and run.\<close>

record run_world =
  rw_id :: string
  rw_begin :: string
  rw_finish :: string
  rw_text :: "ingest_error \<Rightarrow> string"
  rw_control :: control
  rw_delivery :: delivery

datatype sync_failure = LimitsRefused limit_error | RecordFailed run_error | NoSources | SourcesFailed "string list"

text \<open>Documents and reconciliation of one source.\<close>

definition run_source :: "corpus_env \<Rightarrow> control \<Rightarrow> source_config \<Rightarrow> bool \<Rightarrow> delivery \<Rightarrow> ingest
    \<Rightarrow> ingest \<times> (ingest_error, sync_scope \<times> nat) result" where
  "run_source env ctl so rec delivery s =
     proceed (sync_source_documents env ctl so rec delivery s) (\<lambda>scope s.
     proceed (check_control ctl s) (\<lambda>_ s.
     if \<not> rec then (s, Inr (scope, 0))
     else (case reconcile env (canonical_source so) (so_project so) (sc_seen scope) (in_corpus s) of
         (c, Inl e) \<Rightarrow> (s\<lparr>in_corpus := c\<rparr>, Inl (IngestRefused e))
       | (c, Inr deleted) \<Rightarrow> (s\<lparr>in_corpus := c\<rparr>, Inr (scope, deleted)))))"

definition sync_one_source :: "corpus_env \<Rightarrow> ingestion_config \<Rightarrow> sync_overrides \<Rightarrow> bool \<Rightarrow> run_world \<Rightarrow> source_config \<Rightarrow> ingest
    \<Rightarrow> ingest \<times> (sync_failure, bool) result" where
  "sync_one_source env cfg ov rec w so s = (case resolve_limits cfg so ov of Inl e \<Rightarrow> (s, Inl (LimitsRefused e))
     | Inr limits \<Rightarrow> (case begin_sync (rw_id w) (rw_begin w) (canonical_source so) (so_project so) (rl_max_documents limits)
           (rl_max_bytes limits) (rl_max_seconds limits) (in_runs s) of Inl e \<Rightarrow> (s, Inl (RecordFailed e))
       | Inr runs \<Rightarrow>
           (case run_source env ((rw_control w)\<lparr>ct_limits := limits, ct_run := Some (rw_id w)\<rparr>) so rec (rw_delivery w) (s\<lparr>in_runs := runs\<rparr>) of
              (s, Inr (scope, deleted)) \<Rightarrow>
                (case finish_sync (rw_id w) (rw_finish w) Succeeded (Some (sc_documents scope)) (Some (sc_bytes scope)) (Some deleted) (in_runs s) of
                   Inl e \<Rightarrow> (s, Inl (RecordFailed e)) | Inr runs \<Rightarrow> (s\<lparr>in_runs := runs\<rparr>, Inr True))
            | (s, Inl e) \<Rightarrow>
                (case finish_sync (rw_id w) (rw_finish w) (failure_status (rw_text w e)) None None None (in_runs s) of
                   Inl e \<Rightarrow> (s, Inl (RecordFailed e)) | Inr runs \<Rightarrow> (s\<lparr>in_runs := runs\<rparr>, Inr False)))))"

fun sync_sources :: "corpus_env \<Rightarrow> ingestion_config \<Rightarrow> sync_overrides \<Rightarrow> bool \<Rightarrow> (source_config \<times> run_world) list \<Rightarrow> string list \<Rightarrow> ingest
    \<Rightarrow> ingest \<times> (sync_failure, unit) result" where
  "sync_sources env cfg ov rec [] failures s = (s, if failures = [] then Inr () else Inl (SourcesFailed failures))"
| "sync_sources env cfg ov rec ((so, w) # rest) failures s =
     proceed (sync_one_source env cfg ov rec w so s) (\<lambda>ok.
       sync_sources env cfg ov rec rest (if ok then failures else failures @ [so_name so]))"

definition sync_configured_sources :: "corpus_env \<Rightarrow> ingestion_config \<Rightarrow> (source_config \<times> run_world) list \<Rightarrow> string option \<Rightarrow> bool
    \<Rightarrow> sync_overrides \<Rightarrow> ingest \<Rightarrow> ingest \<times> (sync_failure, unit) result" where
  "sync_configured_sources env cfg sources selected rec ov s =
     (let chosen = filter (\<lambda>(so, w). so_enabled so \<and> (case selected of None \<Rightarrow> True | Some name \<Rightarrow> so_name so = name)) sources in
      if chosen = [] then (s, Inl NoSources) else sync_sources env cfg ov rec chosen [] s)"

section \<open>What ingestion does to the store\<close>

definition identity :: "corpus_env \<Rightarrow> document \<Rightarrow> string" where
  "identity env d = stable_id env (doc_source d) (doc_source_id d)"

definition chunks_of :: "string \<Rightarrow> corpus \<Rightarrow> chunk_row list" where
  "chunks_of did c = filter (\<lambda>w. cw_document w = did) (co_chunks c)"

text \<open>From one corpus to a later one: consistent, no document lost, and only the named ones touched.\<close>

definition extends :: "corpus_env \<Rightarrow> string set \<Rightarrow> corpus \<Rightarrow> corpus \<Rightarrow> bool" where
  "extends env ids c c' \<longleftrightarrow> corpus_inv env c' \<and> co_revision c \<le> co_revision c'
     \<and> (\<forall>r \<in> set (co_documents c). \<exists>r' \<in> set (co_documents c'). dr_id r' = dr_id r \<and> dr_source r' = dr_source r \<and> dr_source_id r' = dr_source_id r)
     \<and> (\<forall>did. did \<notin> ids \<longrightarrow> find_document did c' = find_document did c \<and> chunks_of did c' = chunks_of did c)"

definition installed :: "corpus_env \<Rightarrow> document \<Rightarrow> corpus \<Rightarrow> bool" where
  "installed env d c \<longleftrightarrow> (\<exists>r. find_document (identity env d) c = Some r \<and> dr_hash r = document_hash env d)"

lemma extends_refl: "corpus_inv env c \<Longrightarrow> extends env ids c c"
  by (auto simp: extends_def)

lemma extends_trans: "extends env A c c' \<Longrightarrow> extends env B c' c'' \<Longrightarrow> extends env (A \<union> B) c c''"
  unfolding extends_def by (metis UnCI order_trans)

lemma extends_mono: "extends env A c c' \<Longrightarrow> A \<subseteq> B \<Longrightarrow> extends env B c c'"
  by (auto simp: extends_def)

lemma extends_inv: "extends env A c c' \<Longrightarrow> corpus_inv env c'"
  by (simp add: extends_def)

lemma extends_installed: "extends env A c c' \<Longrightarrow> identity env d \<notin> A \<Longrightarrow> installed env d c' = installed env d c"
  by (simp add: extends_def installed_def)

lemma write_extends:
  assumes inv: "corpus_inv env c" and ok: "write_document env d ws c = Inr c'" and ws: "\<And>w. w \<in> set ws \<Longrightarrow> cw_document w = identity env d"
  shows "extends env {identity env d} c c' \<and> installed env d c'"
proof -
  let ?r = "row_of_document env d"
  have r: "dr_id ?r = identity env d" "dr_hash ?r = document_hash env d" by (simp_all add: row_of_document_def identity_def)
  note W = write_document_spec [OF inv ws [folded r(1)] ok, unfolded r]
  have docs: "co_documents c' = (if find_document (identity env d) c = None then co_documents c @ [?r]
        else update_first (\<lambda>x. dr_id x = identity env d) (\<lambda>x. ?r\<lparr>dr_source := dr_source x, dr_source_id := dr_source_id x\<rparr>) (co_documents c))"
    using write_document_quota [OF ok] by (auto simp: r)
  have "\<exists>r' \<in> set (co_documents c'). dr_id r' = dr_id x \<and> dr_source r' = dr_source x \<and> dr_source_id r' = dr_source_id x" if x: "x \<in> set (co_documents c)" for x
  proof -
    have "\<exists>y \<in> set (update_first p f xs). dr_id y = dr_id x \<and> dr_source y = dr_source x \<and> dr_source_id y = dr_source_id x"
      if "x \<in> set xs" "\<And>z. p z \<Longrightarrow> dr_id (f z) = dr_id z \<and> dr_source (f z) = dr_source z \<and> dr_source_id (f z) = dr_source_id z" for p f xs
      using that by (induction xs) auto
    from this [OF x] show ?thesis using x unfolding docs by (auto simp: r)
  qed
  moreover have "chunks_of did c' = chunks_of did c" if "did \<noteq> identity env d" for did
  proof -
    have "filter (\<lambda>w. cw_document w = did) ws = []" using that ws by (auto simp: filter_empty_conv)
    moreover have "filter (\<lambda>w. cw_document w = did) (filter (\<lambda>w. cw_document w \<noteq> identity env d) ws') = filter (\<lambda>w. cw_document w = did) ws'" for ws'
      using that by (induction ws') auto
    ultimately show ?thesis by (simp only: chunks_of_def W(3) filter_append append_Nil2)
  qed
  ultimately have "extends env {identity env d} c c'" using W(1,2,5) by (auto simp: extends_def)
  moreover have "installed env d c'" using W(4) r(2) by (auto simp: installed_def)
  ultimately show ?thesis by blast
qed

lemma upsert_structured_extends:
  assumes inv: "corpus_inv env c" and up: "upsert_structured env d specs c = (c', res)"
  shows "extends env {identity env d} c c' \<and> (\<forall>b. res = Inr b \<longrightarrow> installed env d c')"
proof (cases "unchanged env d c \<and> stored_policy (stable_id env (doc_source d) (doc_source_id d)) c = Some CHUNKING_CONTRACT_VERSION")
  case True
  with up have "c' = c" "res = Inr False" by (auto simp: upsert_structured_def Let_def)
  moreover have "installed env d c" using True by (auto simp: unchanged_def installed_def identity_def Let_def split: option.splits)
  ultimately show ?thesis using extends_refl [OF inv] by simp
next
  case False
  let ?ws = "structured_rows (identity env d) specs"
  show ?thesis
  proof (cases "write_document env d ?ws c")
    case (Inl e)
    with False up have "c' = c" "res = Inl e" by (auto simp: upsert_structured_def transact_def identity_def Let_def)
    then show ?thesis using extends_refl [OF inv] by simp
  next
    case (Inr c1)
    with False up have "c' = c1" by (auto simp: upsert_structured_def transact_def identity_def Let_def)
    with write_extends [OF inv Inr] structured_rows_document show ?thesis by blast
  qed
qed

lemma refresh_timestamp_extends:
  assumes inv: "corpus_inv env c"
  shows "extends env {identity env d} c (refresh_timestamp env d c) \<and> (installed env d c \<longrightarrow> installed env d (refresh_timestamp env d c))"
proof -
  let ?did = "identity env d" and ?c = "refresh_timestamp env d c"
  let ?f = "\<lambda>x. x\<lparr>dr_updated_at := doc_updated_at d\<rparr>"
  have k: "corpus_inv env ?c" "co_revision c \<le> co_revision ?c"
    using refresh_timestamp_kept [OF inv] by (auto simp: kept_def corpus_grows_def)
  have docs: "co_documents ?c = co_documents c \<or> co_documents ?c = update_first (\<lambda>x. dr_id x = ?did) ?f (co_documents c)"
    and chunks: "co_chunks ?c = co_chunks c"
    by (auto simp: refresh_timestamp_def identity_def bump_corpus_revision_def Let_def split: option.split)
  have rows: "\<exists>y \<in> set (update_first p ?f xs). dr_id y = dr_id x \<and> dr_source y = dr_source x \<and> dr_source_id y = dr_source_id x" if "x \<in> set xs" for p x xs
    using that by (induction xs) auto
  have other: "find (\<lambda>x. dr_id x = did) (update_first (\<lambda>x. dr_id x = ?did) ?f xs) = find (\<lambda>x. dr_id x = did) xs" if "did \<noteq> ?did" for did xs
    using that by (induction xs) auto
  have own: "find (\<lambda>x. dr_id x = ?did) xs = Some r \<Longrightarrow> \<exists>r'. find (\<lambda>x. dr_id x = ?did) (update_first (\<lambda>x. dr_id x = ?did) ?f xs) = Some r' \<and> dr_hash r' = dr_hash r" for xs r
    by (induction xs) (auto split: if_splits)
  have "\<exists>y \<in> set (co_documents ?c). dr_id y = dr_id x \<and> dr_source y = dr_source x \<and> dr_source_id y = dr_source_id x"
    if "x \<in> set (co_documents c)" for x
    using docs rows [OF that] that by (elim disjE) auto
  moreover have "find_document did ?c = find_document did c" if "did \<noteq> ?did" for did
    using docs other [OF that] by (elim disjE) (simp_all add: find_document_def)
  moreover have "installed env d ?c" if "installed env d c"
  proof -
    obtain r where r: "find (\<lambda>x. dr_id x = ?did) (co_documents c) = Some r" "dr_hash r = document_hash env d"
      using \<open>installed env d c\<close> by (auto simp: installed_def find_document_def)
    with docs own [OF r(1)] show ?thesis by (elim disjE) (auto simp: installed_def find_document_def)
  qed
  ultimately show ?thesis using k chunks by (simp add: extends_def chunks_of_def)
qed

lemma upsert_all_extends:
  "corpus_inv env (fl_corpus s) \<Longrightarrow> upsert_all env ds s = (t, r) \<Longrightarrow>
    extends env (identity env ` fst ` set ds) (fl_corpus s) (fl_corpus t)
    \<and> (r = Inr () \<and> distinct (map (\<lambda>x. identity env (fst x)) ds) \<longrightarrow> (\<forall>x \<in> set ds. installed env (fst x) (fl_corpus t)))"
proof (induction env ds s rule: upsert_all.induct)
  case (1 env s)
  then show ?case by (auto simp: extends_refl)
next
  case (2 env d chunks rest s)
  obtain c u where up: "upsert_structured env d chunks (fl_corpus s) = (c, u)" by fastforce
  note U = upsert_structured_extends [OF "2.prems"(1) up]
  show ?case
  proof (cases u)
    case (Inl e)
    with "2.prems"(2) up U show ?thesis by (auto intro: extends_mono)
  next
    case (Inr b)
    let ?s = "count_change b (s\<lparr>fl_corpus := c, fl_rest := tl (fl_rest s)\<rparr>)"
    have c: "fl_corpus ?s = c" by (simp add: count_change_def)
    have run: "upsert_all env rest ?s = (t, r)" using "2.prems"(2) up Inr by simp
    have "corpus_inv env (fl_corpus ?s)" using extends_inv [OF conjunct1 [OF U]] c by simp
    note IH = "2.IH" [OF up [symmetric] Inr this run, unfolded c]
    have "extends env (identity env ` fst ` set ((d, chunks) # rest)) (fl_corpus s) (fl_corpus t)"
      using extends_trans [OF conjunct1 [OF U] conjunct1 [OF IH]] by simp
    moreover have "installed env d (fl_corpus t)" if "distinct (map (\<lambda>x. identity env (fst x)) ((d, chunks) # rest))"
      using extends_installed [OF conjunct1 [OF IH], of d] U Inr that by (auto simp: image_image)
    ultimately show ?thesis using IH by auto
  qed
qed

text \<open>What the requests answer is one of them, and the guard of the loop is not what stops it.\<close>

definition well_behaved :: "control \<Rightarrow> bool" where
  "well_behaved ctl \<longleftrightarrow> (\<forall>k requests. list_all (answers_requests requests) (fc_events (ct_course ctl k requests))
     \<and> fc_before (ct_course ctl k requests) \<noteq> Some OutsideRange)"

lemma check_control_keeps: "check_control ctl s = (s', r) \<Longrightarrow> s' = s\<lparr>in_tick := in_tick s + 1\<rparr>"
  by (auto simp: check_control_def)

lemma record_progress_keeps: "record_progress ctl s = (s', r) \<Longrightarrow> \<exists>runs. s' = s\<lparr>in_runs := runs\<rparr>"
  by (auto simp: record_progress_def intro: exI [of _ "in_runs s"] split: option.splits sum.splits)

lemma flush_extends:
  assumes inv: "corpus_inv env (in_corpus s)" and good: "well_behaved ctl" and fl: "flush_ingest_batch env ctl s = (s', r)"
  shows "extends env (identity env ` fst ` set (in_pending s)) (in_corpus s) (in_corpus s')
    \<and> (r = Inr () \<longrightarrow> in_pending s' = [] \<and> (distinct (map (\<lambda>x. identity env (fst x)) (in_pending s)) \<longrightarrow> (\<forall>x \<in> set (in_pending s). installed env (fst x) (in_corpus s'))))"
proof (cases "in_pending s = []")
  case True
  with fl inv show ?thesis by (auto simp: flush_ingest_batch_def extends_refl)
next
  case False
  let ?docs = "in_pending s"
  let ?s1 = "s\<lparr>in_tick := in_tick s + 1, in_pending := []\<rparr>" let ?s2 = "?s1\<lparr>in_tick := in_tick s + 2\<rparr>"
  let ?course = "ct_course ctl (in_batches s) (request_chunks EMBEDDING_REQUEST_SIZE (batch_input ?docs))"
  obtain f q where run: "embed_and_commit env ?course (new_flush ?docs (in_corpus s) (in_changed s) (in_unchanged s)) = (f, q)" by fastforce
  have good': "list_all (answers_requests (request_chunks EMBEDDING_REQUEST_SIZE (batch_input ?docs))) (fc_events ?course)"
    "fc_before ?course \<noteq> Some OutsideRange" using good by (simp_all add: well_behaved_def)
  note B = batch_committed [OF good' run]
  then obtain ready where ready: "stripped ready @ fl_rest f = ?docs"
    and up: "snd (upsert_all env ready (new_flush ?docs (in_corpus s) (in_changed s) (in_unchanged s))) = Inr ()"
    and c: "fl_corpus f = fl_corpus (fst (upsert_all env ready (new_flush ?docs (in_corpus s) (in_changed s) (in_unchanged s))))"
    unfolding committed_def by blast
  have start: "fl_corpus (new_flush ?docs (in_corpus s) (in_changed s) (in_unchanged s)) = in_corpus s" by (simp add: new_flush_def)
  have ids: "map (\<lambda>x. identity env (fst x)) ?docs = map (\<lambda>x. identity env (fst x)) ready @ map (\<lambda>x. identity env (fst x)) (fl_rest f)" "fst ` set ready \<subseteq> fst ` set ?docs"
    unfolding ready [symmetric] by (force simp: stripped_def)+
  have "upsert_all env ready (new_flush ?docs (in_corpus s) (in_changed s) (in_unchanged s))
      = (fst (upsert_all env ready (new_flush ?docs (in_corpus s) (in_changed s) (in_unchanged s))), Inr ())"
    using up by (metis prod.collapse)
  from upsert_all_extends [OF _ this, unfolded start, OF inv]
  have U: "extends env (identity env ` fst ` set ready) (in_corpus s) (fl_corpus f)"
    "distinct (map (\<lambda>x. identity env (fst x)) ready) \<longrightarrow> (\<forall>x \<in> set ready. installed env (fst x) (fl_corpus f))" by (simp_all add: c)
  have ext: "extends env (identity env ` fst ` set ?docs) (in_corpus s) (fl_corpus f)"
    by (rule extends_mono [OF U(1) image_mono [OF ids(2)]])
  show ?thesis
  proof (cases "ct_check ctl (in_tick s) = None \<and> ct_check ctl (in_tick s + 1) = None")
    case True
    then have s': "in_corpus s' = fl_corpus f" and r: "r = Inr () \<Longrightarrow> q = Inr () \<and> in_pending s' = []"
      using fl False run
      by (auto simp: flush_ingest_batch_def proceed_def check_control_def Let_def split: prod.splits sum.splits option.splits)
    have "\<forall>x \<in> set ?docs. installed env (fst x) (in_corpus s')" if "r = Inr ()" "distinct (map (\<lambda>x. identity env (fst x)) ?docs)"
    proof -
      have "fl_rest f = []" using r [OF that(1)] B by blast
      then have "fst ` set ?docs = fst ` set ready" unfolding ready [symmetric] by (force simp: stripped_def)
      moreover have "\<forall>x \<in> set ready. installed env (fst x) (fl_corpus f)" using U(2) ids(1) that(2) by simp
      ultimately show ?thesis unfolding s' by (metis (no_types, lifting) image_iff)
    qed
    with ext s' r show ?thesis by auto
  next
    case False
    with fl \<open>?docs \<noteq> []\<close> have "in_corpus s' = in_corpus s" "r \<noteq> Inr ()"
      by (auto simp: flush_ingest_batch_def proceed_def check_control_def Let_def split: prod.splits sum.splits option.splits)
    with extends_refl [OF inv] show ?thesis by simp
  qed
qed

definition to_come :: "corpus_env \<Rightarrow> document list \<Rightarrow> ingest \<Rightarrow> string list" where
  "to_come env ds s = map (\<lambda>x. identity env (fst x)) (in_pending s) @ map (identity env) ds"

definition ingests :: "corpus_env \<Rightarrow> document list \<Rightarrow> ingest \<Rightarrow> ingest \<Rightarrow> bool \<Rightarrow> bool" where
  "ingests env ds s s' ok \<longleftrightarrow> extends env (set (to_come env ds s)) (in_corpus s) (in_corpus s')
     \<and> (ok \<and> distinct (to_come env ds s) \<longrightarrow> (\<forall>d \<in> fst ` set (in_pending s) \<union> set ds. installed env d (in_corpus s')))"

lemma ingests_stopped: "corpus_inv env (in_corpus s) \<Longrightarrow> in_corpus s' = in_corpus s \<Longrightarrow> ingests env ds s s' False"
  by (simp add: ingests_def extends_refl)

text \<open>Flushing first and going on with nothing pending.\<close>

lemma ingests_after_flush:
  assumes inv: "corpus_inv env (in_corpus s)" and good: "well_behaved ctl" and fl: "flush_ingest_batch env ctl s = (s1, Inr ())"
    and go: "corpus_inv env (in_corpus s1) \<Longrightarrow> in_pending s1 = [] \<Longrightarrow> ingests env ds s1 s' ok"
  shows "ingests env ds s s' ok"
proof -
  note F = flush_extends [OF inv good fl]
  then have pend: "in_pending s1 = []" by simp
  have rest: "ingests env ds s1 s' ok" using go extends_inv F pend by blast
  then have R: "extends env (identity env ` set ds) (in_corpus s1) (in_corpus s')"
    "ok \<and> distinct (map (identity env) ds) \<longrightarrow> (\<forall>d \<in> set ds. installed env d (in_corpus s'))"
    by (simp_all add: ingests_def to_come_def pend)
  have "extends env (set (to_come env ds s)) (in_corpus s) (in_corpus s')"
    using extends_trans [OF conjunct1 [OF F] R(1)] by (simp add: to_come_def image_image Un_commute)
  moreover have "installed env d (in_corpus s')" if "ok" "distinct (to_come env ds s)" "d \<in> fst ` set (in_pending s)" for d
  proof -
    have "identity env d \<notin> identity env ` set ds" using that(2,3) by (auto simp: to_come_def)
    moreover have "installed env d (in_corpus s1)" using F that(2,3) by (auto simp: to_come_def)
    ultimately show ?thesis using extends_installed [OF R(1)] by simp
  qed
  ultimately show ?thesis using R(2) by (auto simp: ingests_def to_come_def)
qed

lemma ingests_flush_stopped:
  assumes inv: "corpus_inv env (in_corpus s)" and good: "well_behaved ctl" and fl: "flush_ingest_batch env ctl s = (s1, r)"
  shows "ingests env ds s s1 False"
  using flush_extends [OF inv good fl] by (auto simp: ingests_def to_come_def image_image elim: extends_mono)

lemma ingest_loop_ingests:
  assumes good: "well_behaved ctl"
  shows "corpus_inv env (in_corpus s) \<Longrightarrow> ingest_loop env ctl ds s = (s', r) \<Longrightarrow> ingests env ds s s' (r = Inr ())"
proof (induction ds arbitrary: s)
  case Nil
  obtain s1 q where fl: "flush_ingest_batch env ctl s = (s1, q)" by fastforce
  show ?case
  proof (cases q)
    case (Inl e)
    with Nil.prems fl ingests_flush_stopped [OF Nil.prems(1) good fl, of "[]"] show ?thesis by (auto simp: proceed_def)
  next
    case (Inr u)
    have "record_progress ctl s1 = (s', r)" using Nil.prems(2) fl Inr by (simp add: proceed_def)
    then obtain runs where s': "s' = s1\<lparr>in_runs := runs\<rparr>" using record_progress_keeps by blast
    show ?thesis
    proof (rule ingests_after_flush [OF Nil.prems(1) good])
      show "flush_ingest_batch env ctl s = (s1, Inr ())" using fl Inr by simp
    qed (auto simp: ingests_def to_come_def s' extends_refl)
  qed
next
  case (Cons d ds)
  obtain s0 q where chk: "check_control ctl s = (s0, q)" by fastforce
  have s0: "s0 = s\<lparr>in_tick := in_tick s + 1\<rparr>" by (rule check_control_keeps [OF chk])
  show ?case
  proof (cases q)
    case (Inl e)
    with Cons.prems chk s0 show ?thesis by (simp add: proceed_def) (auto simp: ingests_stopped)
  next
    case (Inr u)
    let ?s1 = "count_document d s0"
    have same: "in_corpus ?s1 = in_corpus s" "in_pending ?s1 = in_pending s" by (simp_all add: s0 count_document_def)
    show ?thesis
    proof (cases "needs_structured_update env d (in_corpus s)")
      case False
      let ?s2 = "?s1\<lparr>in_corpus := refresh_timestamp env d (in_corpus ?s1), in_unchanged := in_unchanged ?s1 + 1\<rparr>"
      note R = refresh_timestamp_extends [OF Cons.prems(1), of d]
      have "installed env d (in_corpus s)"
        using False by (auto simp: needs_structured_update_def needs_update_def unchanged_def installed_def identity_def Let_def split: option.splits)
      then have here: "installed env d (in_corpus ?s2)" using R same by simp
      obtain s3 q3 where pr: "(if 64 dvd in_documents ?s2 then record_progress ctl ?s2 else (?s2, Inr ())) = (s3, q3)" by fastforce
      have s3: "in_corpus s3 = in_corpus ?s2" "in_pending s3 = in_pending s"
        using pr same record_progress_keeps [of ctl ?s2] by (auto split: if_splits)
      have inv3: "corpus_inv env (in_corpus s3)" using extends_inv [OF conjunct1 [OF R]] s3 same by simp
      have ext: "extends env {identity env d} (in_corpus s) (in_corpus s3)" using R s3 same by simp
      have "ingest_loop env ctl (d # ds) s = proceed (if 64 dvd in_documents ?s2 then record_progress ctl ?s2 else (?s2, Inr ())) (\<lambda>_. ingest_loop env ctl ds)"
        using chk Inr False same by (simp add: Let_def)
      then have go: "proceed (s3, q3) (\<lambda>_. ingest_loop env ctl ds) = (s', r)" using Cons.prems(2) unfolding pr by simp
      have rest: "ingests env ds s3 s' (r = Inr ()) \<or> (in_corpus s' = in_corpus s3 \<and> r \<noteq> Inr ())"
      proof (cases q3)
        case (Inl e)
        then show ?thesis using go by (auto simp: proceed_def)
      next
        case (Inr u3)
        have "ingest_loop env ctl ds s3 = (s', r)" using go Inr by (simp add: proceed_def)
        then show ?thesis using Cons.IH [OF inv3] by blast
      qed
      then show ?thesis
      proof
        assume I: "ingests env ds s3 s' (r = Inr ())"
        then have E: "extends env (set (to_come env ds s)) (in_corpus s3) (in_corpus s')" by (simp add: ingests_def to_come_def s3)
        have "set (to_come env (d # ds) s) = {identity env d} \<union> set (to_come env ds s)" by (auto simp: to_come_def)
        then have "extends env (set (to_come env (d # ds) s)) (in_corpus s) (in_corpus s')"
          using extends_trans [OF ext E] by simp
        moreover have "installed env d (in_corpus s')" if "distinct (to_come env (d # ds) s)"
          using extends_installed [OF E, of d] here s3 that by (auto simp: to_come_def)
        ultimately show ?thesis using I s3 by (auto simp: ingests_def to_come_def)
      next
        assume "in_corpus s' = in_corpus s3 \<and> r \<noteq> Inr ()"
        with ext show ?thesis by (auto simp: ingests_def to_come_def elim: extends_mono)
      qed
    next
      case True
      show ?thesis
      proof (cases "chunk_document (ct_chunks ctl) (doc.truncate d)")
        case None
        with Cons.prems chk Inr True same show ?thesis by (auto simp: proceed_def Let_def intro: ingests_stopped)
      next
        case (Some specs)
        let ?s2 = "?s1\<lparr>in_pending_chunks := in_pending_chunks ?s1 + length specs, in_pending := in_pending ?s1 @ [(d, specs)]\<rparr>"
        have move: "ingests env ds ?s2 s' ok \<Longrightarrow> ingests env (d # ds) s s' ok" for ok
          using same by (auto simp: ingests_def to_come_def)
        have inv2: "corpus_inv env (in_corpus ?s2)" using Cons.prems(1) same by simp
        show ?thesis
        proof (cases "EMBEDDING_REQUEST_SIZE * rl_concurrency (ct_limits ctl) \<le> in_pending_chunks ?s2")
          case False
          have "ingest_loop env ctl ds ?s2 = (s', r)" using Cons.prems(2) chk Inr True same Some False by (simp add: proceed_def Let_def)
          then show ?thesis using Cons.IH [OF inv2] move by blast
        next
          case full: True
          obtain s3 q3 where fl: "flush_ingest_batch env ctl ?s2 = (s3, q3)" by fastforce
          show ?thesis
          proof (cases q3)
            case (Inl e)
            then have "s' = s3" "r \<noteq> Inr ()" using Cons.prems(2) chk Inr True same Some full fl \<open>q = Inr u\<close> by (auto simp: proceed_def Let_def)
            then show ?thesis using move ingests_flush_stopped [OF inv2 good fl] by simp
          next
            case (Inr u3)
            obtain s4 q4 where pr: "record_progress ctl s3 = (s4, q4)" by fastforce
            obtain runs where s4: "s4 = s3\<lparr>in_runs := runs\<rparr>" using record_progress_keeps [OF pr] by blast
            show ?thesis
            proof (rule move, rule ingests_after_flush [OF inv2 good])
              show "flush_ingest_batch env ctl ?s2 = (s3, Inr ())" using fl Inr by simp
              assume inv3: "corpus_inv env (in_corpus s3)" and none: "in_pending s3 = []"
              show "ingests env ds s3 s' (r = Inr ())"
              proof (cases q4)
                case (Inl e)
                then have "s' = s4" "r \<noteq> Inr ()" using Cons.prems(2) chk \<open>q = Inr u\<close> True same Some full fl \<open>q3 = Inr u3\<close> pr by (auto simp: proceed_def Let_def)
                then show ?thesis using ingests_stopped [OF inv3, of s'] s4 by simp
              next
                case (Inr u4)
                have "ingest_loop env ctl ds (s4\<lparr>in_pending_chunks := 0\<rparr>) = (s', r)"
                  using Cons.prems(2) chk \<open>q = Inr u\<close> True same Some full fl \<open>q3 = Inr u3\<close> pr Inr by (simp add: proceed_def Let_def)
                from Cons.IH [OF _ this] inv3 s4 show ?thesis by (simp add: ingests_def to_come_def)
              qed
            qed
          qed
        qed
      qed
    qed
  qed
qed

text \<open>
  C31. Ingestion installs every document it is given. With embedding requests that answer as requests do,
  and whatever their order, the checks and the batching: if the documents have different identities and
  the ingestion succeeds, each of them is in the store with the hash of what was given, whether it was
  written, waited in a batch, or was current; and in every case, success or not, no document is lost
  and no document or chunk of another identity is touched.
\<close>

theorem ingestion_installs_every_document:
  assumes "well_behaved ctl" "corpus_inv env (in_corpus s)" "ingest_documents_controlled env ctl ds s = (s', r)"
  shows "(r = Inr () \<and> distinct (map (identity env) ds) \<longrightarrow>
      (\<forall>d \<in> set ds. \<exists>row. find_document (identity env d) (in_corpus s') = Some row \<and> dr_hash row = document_hash env d))
    \<and> corpus_inv env (in_corpus s')
    \<and> (\<forall>row \<in> set (co_documents (in_corpus s)). \<exists>row' \<in> set (co_documents (in_corpus s')).
        dr_id row' = dr_id row \<and> dr_source row' = dr_source row \<and> dr_source_id row' = dr_source_id row)
    \<and> (\<forall>did. did \<notin> identity env ` set ds \<longrightarrow> find_document did (in_corpus s') = find_document did (in_corpus s)
        \<and> chunks_of did (in_corpus s') = chunks_of did (in_corpus s))"
proof -
  let ?s = "s\<lparr>in_pending := [], in_pending_chunks := 0, in_changed := 0, in_unchanged := 0, in_documents := 0, in_bytes := 0\<rparr>"
  have "ingests env ds ?s s' (r = Inr ())"
    by (rule ingest_loop_ingests [OF assms(1)]) (use assms(2,3) in \<open>simp_all add: ingest_documents_controlled_def\<close>)
  then have I: "extends env (identity env ` set ds) (in_corpus s) (in_corpus s')"
    "r = Inr () \<and> distinct (map (identity env) ds) \<longrightarrow> (\<forall>d \<in> set ds. installed env d (in_corpus s'))"
    by (simp_all add: ingests_def to_come_def)
  from I(1) show ?thesis unfolding extends_def using I(2) unfolding installed_def by blast
qed

lemma ingest_documents_extends:
  assumes "well_behaved ctl" "corpus_inv env (in_corpus s)" "ingest_documents_controlled env ctl ds s = (s', r)"
  shows "extends env UNIV (in_corpus s) (in_corpus s')"
proof -
  let ?s = "s\<lparr>in_pending := [], in_pending_chunks := 0, in_changed := 0, in_unchanged := 0, in_documents := 0, in_bytes := 0\<rparr>"
  have "ingests env ds ?s s' (r = Inr ())"
    by (rule ingest_loop_ingests [OF assms(1)]) (use assms(2,3) in \<open>simp_all add: ingest_documents_controlled_def\<close>)
  then have "extends env (set (to_come env ds ?s)) (in_corpus s) (in_corpus s')" by (simp add: ingests_def)
  then show ?thesis by (rule extends_mono) simp
qed

definition keeps :: "corpus_env \<Rightarrow> ingest \<Rightarrow> ingest \<Rightarrow> bool" where
  "keeps env s s' \<longleftrightarrow> (corpus_inv env (in_corpus s) \<longrightarrow> extends env UNIV (in_corpus s) (in_corpus s'))"

lemma keeps_refl: "in_corpus s' = in_corpus s \<Longrightarrow> keeps env s s'"
  by (simp add: keeps_def extends_refl)

lemma keeps_trans: "keeps env s s' \<Longrightarrow> keeps env s' s'' \<Longrightarrow> keeps env s s''"
  unfolding keeps_def using extends_inv extends_trans [of env UNIV _ _ UNIV] by (metis Un_UNIV_left)

lemma keeps_check: "check_control ctl s = (s', r) \<Longrightarrow> keeps env s s'"
  by (auto dest!: check_control_keeps intro: keeps_refl)

text \<open>A computation that goes on after another keeps what both keep.\<close>

lemma keeps_proceed:
  assumes "proceed p f = (s', r)" "keeps env s (fst p)" "\<And>a s1. p = (s1, Inr a) \<Longrightarrow> f a s1 = (s', r) \<Longrightarrow> keeps env s1 s'"
  shows "keeps env s s'"
  using assms by (cases p) (auto simp: proceed_def split: sum.splits intro: keeps_trans)

lemma proceed_Inr: "proceed p f = (s', Inr b) \<longleftrightarrow> (\<exists>a s1. p = (s1, Inr a) \<and> f a s1 = (s', Inr b))"
  by (cases p) (auto simp: proceed_def split: sum.splits)

lemma keeps_ingest: "well_behaved ctl \<Longrightarrow> ingest_documents_controlled env ctl ds s = (s', r) \<Longrightarrow> keeps env s s'"
  by (simp add: keeps_def ingest_documents_extends)

lemma keeps_batch_step: "well_behaved ctl \<Longrightarrow> batch_step env ctl d batch s = (s', r) \<Longrightarrow> keeps env s s'"
  by (auto simp: batch_step_def Let_def proceed_def split: if_splits prod.splits sum.splits intro: keeps_ingest keeps_refl)

lemma keeps_last_batch: "well_behaved ctl \<Longrightarrow> last_batch env ctl batch scope s = (s', r) \<Longrightarrow> keeps env s s'"
  by (auto simp: last_batch_def proceed_def split: if_splits prod.splits sum.splits intro: keeps_ingest keeps_refl)

lemma last_batch_scope: "last_batch env ctl batch scope s = (s', Inr scope') \<Longrightarrow> scope' = scope"
  by (auto simp: last_batch_def proceed_Inr)

section \<open>What a run of a source does\<close>

text \<open>The identifiers a delivery contains.\<close>

fun line_ids :: "spool_line \<Rightarrow> string list" where
  "line_ids (Delivered d) = [doc_source_id d]"
| "line_ids _ = []"

fun delivered :: "delivery \<Rightarrow> string list" where
  "delivered (ConnectorError e) = []"
| "delivered (ConnectorSpool n lines) = concat (map line_ids lines)"
| "delivered (FileTree plan items) = concat (map (\<lambda>item. case item of Inl e \<Rightarrow> [] | Inr d \<Rightarrow> [doc_source_id d]) items)"

lemma normalize_source_id [simp]: "doc_source_id (normalize_document so d) = doc_source_id d"
  by (simp add: normalize_document_def Let_def)

lemma validate_lines_keeps:
  "validate_lines ctl lines n b s = (s', r) \<Longrightarrow> in_corpus s' = in_corpus s \<and> (\<forall>scope. r = Inr scope \<longrightarrow> sc_seen scope = [])"
proof (induction lines arbitrary: n b s)
  case (Cons line lines)
  obtain s1 q where chk: "check_control ctl s = (s1, q)" by fastforce
  have "in_corpus s1 = in_corpus s" using check_control_keeps [OF chk] by simp
  with Cons chk show ?case by (cases q; cases line) (auto simp: Let_def split: if_splits)
qed auto

lemma connector_loop_keeps:
  assumes good: "well_behaved ctl"
  shows "connector_loop env ctl so lines batch scope s = (s', r) \<Longrightarrow>
    keeps env s s' \<and> (\<forall>scope'. r = Inr scope' \<longrightarrow> sc_seen scope' = sc_seen scope @ concat (map line_ids lines))"
proof (induction lines arbitrary: batch scope s)
  case Nil
  then show ?case using keeps_last_batch [OF good] last_batch_scope by fastforce
next
  case (Cons line lines)
  obtain s1 q where chk: "check_control ctl s = (s1, q)" by fastforce
  have k: "keeps env s s1" by (rule keeps_check [OF chk])
  show ?case
  proof (cases q)
    case (Inl e)
    with Cons.prems chk k show ?thesis by auto
  next
    case (Inr u)
    show ?thesis
    proof (cases line)
      case BlankLine
      have "connector_loop env ctl so lines batch scope s1 = (s', r)" using Cons.prems chk Inr BlankLine by simp
      note IH = Cons.IH [OF this]
      have "concat (map line_ids (line # lines)) = concat (map line_ids lines)" using BlankLine by simp
      with keeps_trans [OF k conjunct1 [OF IH]] conjunct2 [OF IH] show ?thesis by (simp only:)
    next
      case InvalidJson
      with Cons.prems chk Inr k show ?thesis by auto
    next
      case (Delivered d)
      let ?d = "normalize_document so d" and ?scope = "scope\<lparr>sc_seen := sc_seen scope @ [doc_source_id d]\<rparr>"
      obtain s2 q2 where st: "batch_step env ctl ?d batch s1 = (s2, q2)" by fastforce
      note k2 = keeps_trans [OF k keeps_batch_step [OF good st]]
      show ?thesis
      proof (cases q2)
        case (Inl e)
        with Cons.prems chk \<open>q = Inr u\<close> Delivered st k2 show ?thesis by (auto simp: Let_def)
      next
        case (Inr batch')
        have "connector_loop env ctl so lines batch' ?scope s2 = (s', r)"
          using Cons.prems chk \<open>q = Inr u\<close> Delivered st Inr by (simp add: Let_def)
        note IH = Cons.IH [OF this]
        have "sc_seen ?scope @ concat (map line_ids lines) = sc_seen scope @ concat (map line_ids (line # lines))" using Delivered by simp
        with keeps_trans [OF k2 conjunct1 [OF IH]] conjunct2 [OF IH] show ?thesis by metis
      qed
    qed
  qed
qed

lemma filesystem_loop_keeps:
  assumes good: "well_behaved ctl"
  shows "filesystem_loop env ctl so rec items seen bytes batch s = (s', r) \<Longrightarrow> keeps env s s'
    \<and> (\<forall>scope'. r = Inr scope' \<and> rec \<longrightarrow> sc_seen scope' = seen @ concat (map (\<lambda>item. case item of Inl e \<Rightarrow> [] | Inr d \<Rightarrow> [doc_source_id d]) items))"
proof (induction items arbitrary: seen bytes batch s)
  case Nil
  then show ?case using keeps_last_batch [OF good] last_batch_scope by (fastforce simp: file_scope_def)
next
  case (Cons item items)
  obtain s1 q where chk: "check_control ctl s = (s1, q)" by fastforce
  have k: "keeps env s s1" by (rule keeps_check [OF chk])
  show ?case
  proof (cases q)
    case (Inl e)
    with Cons.prems chk k show ?thesis by auto
  next
    case (Inr u)
    show ?thesis
    proof (cases item)
      case (Inl e)
      with Cons.prems chk Inr k show ?thesis by auto
    next
      case item: (Inr d)
      let ?d = "normalize_document so d" and ?total = "min (bytes + length (doc_content (normalize_document so d))) u64_max"
      obtain s2 q2 where st: "batch_step env ctl ?d batch s1 = (s2, q2)" by fastforce
      note k2 = keeps_trans [OF k keeps_batch_step [OF good st]]
      let ?more = "proceed (s2, q2) (\<lambda>batch. filesystem_loop env ctl so rec items (seen @ [doc_source_id d]) ?total batch)"
      have "(s', r) = ?more \<or> (rec \<and> s' = s1 \<and> (\<exists>e. r = Inl e)) \<or> (\<not> rec \<and> last_batch env ctl batch (file_scope seen bytes) s1 = (s', r))"
        using Cons.prems chk Inr item by (auto simp: Let_def st split: if_splits)
      then show ?thesis
      proof (elim disjE conjE)
        assume more: "(s', r) = ?more"
        show ?thesis
        proof (cases q2)
          case (Inl e)
          with more k2 show ?thesis by auto
        next
          case (Inr batch')
          with more have "filesystem_loop env ctl so rec items (seen @ [doc_source_id d]) ?total batch' s2 = (s', r)" by simp
          note IH = Cons.IH [OF this]
          let ?ids = "\<lambda>item. case item of Inl e \<Rightarrow> [] | Inr d \<Rightarrow> [doc_source_id d]"
          have "(seen @ [doc_source_id d]) @ concat (map ?ids items) = seen @ concat (map ?ids (item # items))" using item by simp
          with keeps_trans [OF k2 conjunct1 [OF IH]] conjunct2 [OF IH] show ?thesis by metis
        qed
      next
        assume "rec" "s' = s1" "\<exists>e. r = Inl e"
        then show ?thesis using k by auto
      next
        assume "\<not> rec" "last_batch env ctl batch (file_scope seen bytes) s1 = (s', r)"
        then show ?thesis using keeps_trans [OF k keeps_last_batch [OF good]] by auto
      qed
    qed
  qed
qed

lemma sync_source_documents_keeps:
  assumes good: "well_behaved ctl" and run: "sync_source_documents env ctl so rec delivery s = (s', r)"
  shows "keeps env s s' \<and> (\<forall>scope. r = Inr scope \<and> rec \<longrightarrow> sc_seen scope = delivered delivery)"
proof (cases delivery)
  case (ConnectorError e)
  with run show ?thesis by (auto simp: sync_source_documents_def keeps_refl)
next
  case (ConnectorSpool n lines)
  obtain s1 q where val: "validate_connector_spool ctl n lines s = (s1, q)" by fastforce
  have V: "keeps env s s1" "\<forall>scope. q = Inr scope \<longrightarrow> sc_seen scope = []"
    using val validate_lines_keeps [of ctl lines 0 0 s] by (auto simp: validate_connector_spool_def keeps_refl split: if_splits)
  show ?thesis
  proof (cases q)
    case (Inl e)
    with run ConnectorSpool val V show ?thesis by (auto simp: sync_source_documents_def)
  next
    case (Inr scope)
    have "connector_loop env ctl so lines [] scope s1 = (s', r)"
      using run ConnectorSpool val Inr by (simp add: sync_source_documents_def)
    note C = connector_loop_keeps [OF good this]
    have "sc_seen scope @ concat (map line_ids lines) = delivered delivery" using V(2) Inr ConnectorSpool by simp
    with keeps_trans [OF V(1) conjunct1 [OF C]] conjunct2 [OF C] show ?thesis by metis
  qed
next
  case (FileTree plan items)
  obtain s1 q1 where c1: "check_control ctl s = (s1, q1)" by fastforce
  obtain s2 q2 where c2: "check_control ctl s1 = (s2, q2)" by fastforce
  have k: "keeps env s s1" "keeps env s s2" using keeps_check [OF c1] keeps_check [OF c2] keeps_trans by blast+
  show ?thesis
  proof (cases "(\<exists>e. q1 = Inl e) \<or> plan \<noteq> None \<or> (\<exists>e. q2 = Inl e)")
    case True
    have "(s' = s1 \<or> s' = s2) \<and> (\<exists>e. r = Inl e)"
      using run FileTree c1 c2 True by (cases q1; cases q2) (auto simp: sync_source_documents_def split: option.splits)
    with k show ?thesis by auto
  next
    case False
    then have "filesystem_loop env ctl so rec items [] 0 [] s2 = (s', r)"
      using run FileTree c1 c2 by (cases q1; cases q2) (auto simp: sync_source_documents_def)
    note C = filesystem_loop_keeps [OF good this]
    have "[] @ concat (map (\<lambda>item. case item of Inl e \<Rightarrow> [] | Inr d \<Rightarrow> [doc_source_id d]) items) = delivered delivery" using FileTree by simp
    with keeps_trans [OF k(2) conjunct1 [OF C]] conjunct2 [OF C] show ?thesis by metis
  qed
qed

text \<open>Documents that are in a later state or were unseen documents of the source.\<close>

definition lost :: "document_row \<Rightarrow> corpus \<Rightarrow> bool" where
  "lost row c \<longleftrightarrow> \<not> (\<exists>row' \<in> set (co_documents c). dr_id row' = dr_id row \<and> dr_source row' = dr_source row \<and> dr_source_id row' = dr_source_id row)"

lemma keeps_not_lost: "keeps env s s' \<Longrightarrow> corpus_inv env (in_corpus s) \<Longrightarrow> row \<in> set (co_documents (in_corpus s)) \<Longrightarrow> \<not> lost row (in_corpus s')"
  by (auto simp: keeps_def extends_def lost_def)

lemma run_source_loses:
  assumes good: "well_behaved ctl" and inv: "corpus_inv env (in_corpus s)" and run: "run_source env ctl so rec delivery s = (s', r)"
    and row: "row \<in> set (co_documents (in_corpus s))" "lost row (in_corpus s')"
  shows "rec \<and> (\<exists>x. r = Inr x) \<and> dr_source row = canonical_source so \<and> dr_source_id row \<notin> set (delivered delivery)"
proof -
  obtain s1 q1 where docs: "sync_source_documents env ctl so rec delivery s = (s1, q1)" by fastforce
  obtain s2 q2 where chk: "check_control ctl s1 = (s2, q2)" by fastforce
  note D = sync_source_documents_keeps [OF good docs]
  have k: "keeps env s s2" using keeps_trans [OF conjunct1 [OF D] keeps_check [OF chk]] .
  have "s' = s1 \<Longrightarrow> False" "s' = s2 \<Longrightarrow> False" using keeps_not_lost [OF _ inv row(1)] D k row(2) by auto
  then obtain scope u where ok: "q1 = Inr scope" "q2 = Inr u" "rec"
    using run docs chk by (cases q1; cases q2) (auto simp: run_source_def split: if_splits)
  obtain c n where rc: "reconcile env (canonical_source so) (so_project so) (sc_seen scope) (in_corpus s2) = (c, Inr n)"
    "co_documents c = filter (\<lambda>r. \<not> (dr_source r = canonical_source so \<and> dr_project r = so_project so \<and> dr_source_id r \<notin> set (sc_seen scope))) (co_documents (in_corpus s2))"
    using reconcile_exact [of env "in_corpus s2" "canonical_source so" "so_project so" "sc_seen scope"] k inv by (auto simp: keeps_def extends_def)
  have s': "s' = s2\<lparr>in_corpus := c\<rparr>" "\<exists>x. r = Inr x" using run docs chk ok rc(1) by (auto simp: run_source_def)
  obtain row' where row': "row' \<in> set (co_documents (in_corpus s2))" "dr_id row' = dr_id row" "dr_source row' = dr_source row" "dr_source_id row' = dr_source_id row"
    using keeps_not_lost [OF k inv row(1)] by (auto simp: lost_def)
  with row(2) s'(1) rc(2) have "dr_source row' = canonical_source so" "dr_source_id row' \<notin> set (sc_seen scope)" by (auto simp: lost_def)
  with row' D ok s'(2) show ?thesis by auto
qed


section \<open>Concrete runs\<close>

definition ex_limits :: run_limits where
  "ex_limits = \<lparr>rl_max_documents = 10, rl_max_bytes = 100, rl_max_seconds = 60, rl_batch_size = 4, rl_concurrency = 1\<rparr>"

text \<open>Every check passes and every request is answered in its turn.\<close>

definition ex_control :: control where
  "ex_control = \<lparr>ct_limits = ex_limits, ct_check = \<lambda>_. None,
     ct_course = \<lambda>_ requests. \<lparr>fc_before = None, fc_events = map (\<lambda>i. Answered i (map (\<lambda>_. [7]) (requests ! i))) [0..<length requests]\<rparr>,
     ct_run = None, ct_now = \<lambda>_. ''t'', ct_chunks = ex_chunk_env\<rparr>"

definition ex_ingest :: ingest where
  "ex_ingest = \<lparr>in_corpus = ex_indexed, in_runs = [], in_tick = 0, in_batches = 0, in_pending = [], in_pending_chunks = 0,
     in_changed = 0, in_unchanged = 0, in_documents = 0, in_bytes = 0\<rparr>"

lemma ex_control_behaves: "well_behaved ex_control"
  by (simp add: well_behaved_def ex_control_def answers_requests_def list_all_iff)

theorem ingestion_installs_every_document_witness:
  "corpus_inv ex_corpus_env (in_corpus (fst (ingest_documents_controlled ex_corpus_env ex_control [ex_document ''1'' ''hi'' ''more''] ex_ingest)))
   \<and> find_document ''zzz'' (in_corpus (fst (ingest_documents_controlled ex_corpus_env ex_control [ex_document ''1'' ''hi'' ''more''] ex_ingest)))
     = find_document ''zzz'' ex_indexed"
proof -
  let ?run = "ingest_documents_controlled ex_corpus_env ex_control [ex_document ''1'' ''hi'' ''more''] ex_ingest"
  obtain s r where run: "?run = (s, r)" by fastforce
  have inv: "corpus_inv ex_corpus_env (in_corpus ex_ingest)" by (simp add: ex_ingest_def ex_indexed_chunks)
  have "''zzz'' \<notin> identity ex_corpus_env ` set [ex_document ''1'' ''hi'' ''more'']"
    by (simp add: identity_def stable_id_def ex_corpus_env_def ex_document_def)
  with ingestion_installs_every_document [OF ex_control_behaves inv run] show ?thesis
    unfolding run by (simp add: ex_ingest_def)
qed

definition ex_mail :: source_config where
  "ex_mail = ex_source\<lparr>so_name := ''mail''\<rparr>"

text \<open>A connector that delivers nothing.\<close>

definition ex_world :: run_world where
  "ex_world = \<lparr>rw_id = ''run'', rw_begin = ''1'', rw_finish = ''2'', rw_text = \<lambda>_. [], rw_control = ex_control, rw_delivery = ConnectorSpool 0 []\<rparr>"

definition ex_ingestion :: ingestion_config where
  "ex_ingestion = \<lparr>ig_max_documents_per_source = 10, ig_max_bytes_per_source = 100, ig_max_duration_seconds = 60,
     ig_document_batch_size = 4, ig_request_concurrency = 1, ig_embedding_concurrency = 1\<rparr>"

definition no_overrides :: sync_overrides where
  "no_overrides = \<lparr>ov_max_documents = None, ov_max_bytes = None, ov_max_seconds = None\<rparr>"

lemma ex_indexed_row: "\<exists>r. co_documents ex_indexed = [r] \<and> dr_source r = ''mail'' \<and> dr_project r = ''w'' \<and> dr_source_id r = ''1''"
proof -
  obtain st where st: "journal_document ex_corpus_env did c = Inr (c\<lparr>co_sync := st did c\<rparr>)" for did c
    using journal_document_ok [of ex_corpus_env] by metis
  show ?thesis by (simp add: ex_indexed_def evaluate_upsert st decimal.simps)
qed

lemma ex_resolved: "resolve_limits ex_ingestion ex_mail no_overrides = Inr ex_limits"
  by (simp add: resolve_limits_def ex_ingestion_def ex_mail_def ex_source_def no_overrides_def ex_limits_def or_else_def unwrap_or_def ensure_def)


text \<open>
  The identity of a document is its source and identifier; the project is not part of it. When two
  configured sources of different projects have the same canonical identifier, the document of the
  second takes over the row of the first, its project and its labels.
\<close>

lemma shared_identifier_crosses_projects:
  assumes inv: "corpus_inv env c" and old: "find_document (identity env d) c = Some row" "dr_project row \<noteq> doc_project d"
    and up: "upsert_structured env d specs c = (c', Inr True)"
  shows "\<exists>row'. find_document (identity env d) c' = Some row' \<and> dr_project row' = doc_project d \<and> dr_acl_json row' = ev_json env (JArray (map JString (doc_acl d)))
    \<and> length (co_documents c') = length (co_documents c)"
proof -
  let ?ws = "structured_rows (identity env d) specs"
  have ok: "write_document env d ?ws c = Inr c'"
    using up by (auto simp: upsert_structured_def Let_def identity_def transact_def split: if_splits sum.splits)
  have rid: "dr_id (row_of_document env d) = identity env d" by (simp add: row_of_document_def identity_def)
  have rows: "\<And>w. w \<in> set ?ws \<Longrightarrow> cw_document w = dr_id (row_of_document env d)" using structured_rows_document rid by simp
  note W = write_document_spec [OF inv rows ok, unfolded rid]
  have "length (co_documents c') = length (co_documents c)"
    using write_document_quota [OF ok] old(1) by (auto simp: rid)
  with W(4) show ?thesis by (auto simp: row_of_document_def)
qed

end
