(* ===== verification/MemoryStore.thy ===== *)
theory MemoryStore
  imports Memory Auth SyncEngine
begin

text \<open>
  Native memories in the store (\<open>remember\<close>, \<open>forget_memory\<close>, \<open>memory\<close> and \<open>export_memories\<close> of
  \<open>crates/core/src/store.rs\<close>): the tables \<open>memories\<close> and \<open>memories_fts\<close>, the memory revision and the
  journal. The JSON library, the clock, SQLite's \<open>julianday\<close> and fresh identifiers are parameters.
\<close>

section \<open>Tables\<close>

record memory_row =
  mr_id :: string
  mr_kind :: string
  mr_content_type :: string
  mr_retention_tier :: string
  mr_scope :: string
  mr_project :: string
  mr_title :: string
  mr_content :: string
  mr_source :: string
  mr_source_id :: string
  mr_dedupe_key :: "string option"
  mr_confidence :: float_val
  mr_importance :: float_val
  mr_status :: string
  mr_acl_json :: string
  mr_provenance_json :: string
  mr_observed_at :: string
  mr_valid_from :: string
  mr_valid_until :: "string option"
  mr_supersedes_id :: "string option"
  mr_created_at :: string
  mr_updated_at :: string

record memory_db =
  md_memories :: "memory_row list"
  md_fts :: "(string \<times> string \<times> string) list"
  md_revision :: nat
  md_sync :: sync_store
  md_max_active :: nat

text \<open>\<open>me_now\<close> is \<open>memory::now()\<close>; \<open>me_labels\<close> reads a list of strings, \<open>me_labels_json\<close> prints one.\<close>

record memory_env =
  me_now :: string
  me_text :: text_env
  me_labels :: "string \<Rightarrow> string list option"
  me_labels_json :: "string list \<Rightarrow> string"
  me_read_json :: "string \<Rightarrow> json option"
  me_julian :: "string \<Rightarrow> int option"
  me_sync :: sync_env

datatype store_error =
    InvalidMemory memory_error
  | OwnerRequired
  | ScopeUnsupported
  | DedupeInvisible
  | DedupeElsewhere
  | DedupeRetired
  | TargetInvisible
  | TargetElsewhere
  | SupersedesItself
  | ActiveLimit nat
  | TargetNotActive
  | BadColumn
  | KeyTaken
  | MemoryDenied
  | NotJournalled sync_error
  | Disappeared
  | LimitOutOfRange

definition find_memory :: "string \<Rightarrow> memory_db \<Rightarrow> memory_row option" where
  "find_memory mid m = find (\<lambda>r. mr_id r = mid) (md_memories m)"

definition find_dedupe :: "string \<Rightarrow> string option \<Rightarrow> memory_db \<Rightarrow> memory_row option" where
  "find_dedupe project key m = (case key of None \<Rightarrow> None
     | Some k \<Rightarrow> find (\<lambda>r. mr_project r = project \<and> mr_dedupe_key r = Some k) (md_memories m))"

definition labels_of :: "memory_env \<Rightarrow> memory_row \<Rightarrow> (store_error, string list) result" where
  "labels_of env r = ok_or (me_labels env (mr_acl_json r)) BadColumn"

text \<open>\<open>valid_until IS NULL OR julianday(valid_until)>julianday(now)\<close>; an unreadable date gives NULL.\<close>

definition julian_after :: "memory_env \<Rightarrow> string \<Rightarrow> string \<Rightarrow> bool" where
  "julian_after env a b = (case me_julian env a of None \<Rightarrow> False
     | Some x \<Rightarrow> (case me_julian env b of None \<Rightarrow> False | Some y \<Rightarrow> y < x))"

definition counted_active :: "memory_env \<Rightarrow> memory_row \<Rightarrow> bool" where
  "counted_active env r \<longleftrightarrow> mr_status r = ''active'' \<and>
     (case mr_valid_until r of None \<Rightarrow> True | Some v \<Rightarrow> julian_after env v (me_now env))"

definition active_count :: "memory_env \<Rightarrow> memory_db \<Rightarrow> nat" where
  "active_count env m = length (filter (counted_active env) (md_memories m))"

definition bump_memory_revision :: "memory_db \<Rightarrow> memory_db" where
  "bump_memory_revision m = m\<lparr>md_revision := md_revision m + 1\<rparr>"

definition configure_memory_limit :: "nat \<Rightarrow> memory_db \<Rightarrow> memory_db \<times> (store_error, unit) result" where
  "configure_memory_limit n m = (if 1 \<le> n \<and> n \<le> 1000000 then (m\<lparr>md_max_active := n\<rparr>, Inr ()) else (m, Inl LimitOutOfRange))"

text \<open>The row of a memory as the synchronised tables see it.\<close>

definition float_column :: "float_val \<Rightarrow> json" where
  "float_column x = (case x of Fin r \<Rightarrow> JNumber r | _ \<Rightarrow> JNull)"

definition text_column :: "string option \<Rightarrow> json" where
  "text_column x = (case x of None \<Rightarrow> JNull | Some s \<Rightarrow> JString s)"

definition memory_columns :: "memory_row \<Rightarrow> json list" where
  "memory_columns r = [JString (mr_id r), JString (mr_kind r), JString (mr_content_type r), JString (mr_retention_tier r),
     JString (mr_scope r), JString (mr_project r), JString (mr_title r), JString (mr_content r), JString (mr_source r),
     JString (mr_source_id r), text_column (mr_dedupe_key r), float_column (mr_confidence r), float_column (mr_importance r),
     JString (mr_status r), JString (mr_acl_json r), JString (mr_provenance_json r), JString (mr_observed_at r),
     JString (mr_valid_from r), text_column (mr_valid_until r), text_column (mr_supersedes_id r), JString (mr_created_at r),
     JString (mr_updated_at r)]"

definition memory_view :: "memory_db \<Rightarrow> sync_store" where
  "memory_view m = (md_sync m)\<lparr>sy_objects := (sy_objects (md_sync m))(''memory'' :=
     (\<lambda>mid. map_option memory_columns (find_memory mid m))), sy_memory_fts := map_of (md_fts m)\<rparr>"

definition journal_memory :: "memory_env \<Rightarrow> string \<Rightarrow> memory_db \<Rightarrow> (store_error, memory_db) result" where
  "journal_memory env mid m = bindE (map_err NotJournalled (journal_object (me_sync env) ''memory'' mid (memory_view m)))
     (\<lambda>(st, _). Inr (m\<lparr>md_sync := st\<rparr>))"

section \<open>Remembering\<close>

text \<open>A retry with the same key and the same payload.\<close>

definition same_memory :: "memory_row \<Rightarrow> string list \<Rightarrow> memory_input \<Rightarrow> memory_axes \<Rightarrow> string \<Rightarrow> string list \<Rightarrow> string \<Rightarrow> string option \<Rightarrow> bool" where
  "same_memory r labels inp axes source_id acl provenance_json valid_until \<longleftrightarrow>
     mr_status r = ''active'' \<and> mr_kind r = legacy_kind axes \<and> mr_content_type r = content_as_str (axes_content axes)
     \<and> mr_retention_tier r = tier_as_str (axes_tier axes) \<and> mr_scope r = scope_as_str (axes_scope axes)
     \<and> mr_project r = in_project inp \<and> mr_title r = in_title inp \<and> mr_content r = in_content inp
     \<and> mr_source r = in_source inp \<and> mr_source_id r = source_id
     \<and> float_le (mr_confidence r) (in_confidence inp) \<and> float_le (in_confidence inp) (mr_confidence r)
     \<and> float_le (mr_importance r) (in_importance inp) \<and> float_le (in_importance inp) (mr_importance r)
     \<and> labels = acl \<and> mr_provenance_json r = provenance_json \<and> mr_valid_until r = valid_until
     \<and> mr_supersedes_id r = in_supersedes_id inp"

definition new_memory_row :: "memory_env \<Rightarrow> string \<Rightarrow> memory_input \<Rightarrow> memory_axes \<Rightarrow> string \<Rightarrow> string list \<Rightarrow> string \<Rightarrow> string option \<Rightarrow> memory_row" where
  "new_memory_row env mid inp axes source_id acl provenance_json valid_until =
     \<lparr>mr_id = mid, mr_kind = legacy_kind axes, mr_content_type = content_as_str (axes_content axes),
      mr_retention_tier = tier_as_str (axes_tier axes), mr_scope = scope_as_str (axes_scope axes), mr_project = in_project inp,
      mr_title = in_title inp, mr_content = in_content inp, mr_source = in_source inp, mr_source_id = source_id,
      mr_dedupe_key = in_dedupe_key inp, mr_confidence = in_confidence inp, mr_importance = in_importance inp,
      mr_status = ''active'', mr_acl_json = me_labels_json env acl, mr_provenance_json = provenance_json,
      mr_observed_at = me_now env, mr_valid_from = me_now env, mr_valid_until = valid_until,
      mr_supersedes_id = in_supersedes_id inp, mr_created_at = me_now env, mr_updated_at = me_now env\<rparr>"

text \<open>\<open>INSERT .. ON CONFLICT(id) DO UPDATE\<close>: an update keeps the creation time. The unique index over
  project and key refuses the row of another identifier.\<close>

definition put_memory :: "memory_row \<Rightarrow> memory_db \<Rightarrow> (store_error, memory_db) result" where
  "put_memory r m =
     bindE (ensure (\<not> list_ex (\<lambda>x. mr_id x \<noteq> mr_id r \<and> mr_dedupe_key r \<noteq> None \<and> mr_project x = mr_project r
         \<and> mr_dedupe_key x = mr_dedupe_key r) (md_memories m)) KeyTaken) (\<lambda>_.
     Inr (m\<lparr>md_memories := (if find_memory (mr_id r) m = None then md_memories m @ [r]
        else update_first (\<lambda>x. mr_id x = mr_id r) (\<lambda>x. r\<lparr>mr_created_at := mr_created_at x\<rparr>) (md_memories m))\<rparr>))"

definition check_existing :: "memory_input \<Rightarrow> string list \<Rightarrow> bool \<Rightarrow> memory_row \<Rightarrow> string list \<Rightarrow> (store_error, unit) result" where
  "check_existing inp viewer owner r labels =
     bindE (ensure (mr_scope r \<noteq> ''owner-global'' \<or> owner) OwnerRequired) (\<lambda>_.
     bindE (ensure (owner \<or> acl_allows labels viewer) DedupeInvisible) (\<lambda>_.
     bindE (ensure (mr_project r = in_project inp) DedupeElsewhere) (\<lambda>_.
     ensure (mr_status r = ''active'') DedupeRetired)))"

definition check_target :: "memory_input \<Rightarrow> string list \<Rightarrow> bool \<Rightarrow> memory_row \<Rightarrow> string list \<Rightarrow> (store_error, unit) result" where
  "check_target inp viewer owner r labels =
     bindE (ensure (mr_scope r \<noteq> ''owner-global'' \<or> owner) OwnerRequired) (\<lambda>_.
     bindE (ensure (owner \<or> acl_allows labels viewer) TargetInvisible) (\<lambda>_.
     ensure (mr_project r = in_project inp) TargetElsewhere))"

text \<open>The labels of a row that may be absent.\<close>

definition optional_labels :: "memory_env \<Rightarrow> memory_row option \<Rightarrow> (store_error, (memory_row \<times> string list) option) result" where
  "optional_labels env r = (case r of None \<Rightarrow> Inr None
     | Some r \<Rightarrow> bindE (labels_of env r) (\<lambda>labels. Inr (Some (r, labels))))"

definition supersession_target :: "memory_input \<Rightarrow> memory_db \<Rightarrow> memory_row option" where
  "supersession_target inp m = (case in_supersedes_id inp of None \<Rightarrow> None
     | Some i \<Rightarrow> find (\<lambda>r. mr_id r = i \<and> mr_status r = ''active'') (md_memories m))"

text \<open>\<open>UPDATE memories SET status='superseded' .. WHERE id=?1 AND status='active'\<close>, which must change a row.\<close>

definition supersede :: "memory_env \<Rightarrow> memory_input \<Rightarrow> memory_db \<Rightarrow> (store_error, memory_db) result" where
  "supersede env inp m = (case in_supersedes_id inp of None \<Rightarrow> Inr m
     | Some i \<Rightarrow> bindE (ensure (list_ex (\<lambda>r. mr_id r = i \<and> mr_status r = ''active'') (md_memories m)) TargetNotActive) (\<lambda>_.
         Inr (m\<lparr>md_memories := map (\<lambda>r. if mr_id r = i \<and> mr_status r = ''active''
            then r\<lparr>mr_status := ''superseded'', mr_valid_until := Some (me_now env), mr_updated_at := me_now env\<rparr> else r)
          (md_memories m)\<rparr>)))"

definition index_memory :: "memory_row \<Rightarrow> memory_db \<Rightarrow> memory_db" where
  "index_memory r m = m\<lparr>md_fts := filter (\<lambda>f. fst f \<noteq> mr_id r) (md_fts m) @ [(mr_id r, mr_title r, mr_content r)]\<rparr>"

text \<open>The writes: supersession, row, full-text row, journal, revision.\<close>

definition write_memory :: "memory_env \<Rightarrow> memory_input \<Rightarrow> memory_row \<Rightarrow> memory_db \<Rightarrow> (store_error, memory_db) result" where
  "write_memory env inp r m =
     bindE (supersede env inp m) (\<lambda>m.
     bindE (put_memory r m) (\<lambda>m.
     bindE (journal_memory env (mr_id r) (index_memory r m)) (\<lambda>m. Inr (bump_memory_revision m))))"

text \<open>The checks before a write: supersession target, self-supersession, and the limit of active memories.\<close>

definition is_live :: "memory_env \<Rightarrow> memory_row \<Rightarrow> bool" where
  "is_live env r \<longleftrightarrow> valid_until_is_active (me_text env) (mr_valid_until r) (me_now env)"

definition check_write :: "memory_env \<Rightarrow> memory_input \<Rightarrow> string list \<Rightarrow> bool \<Rightarrow> memory_row option \<Rightarrow> string \<Rightarrow> memory_db \<Rightarrow> (store_error, unit) result" where
  "check_write env inp viewer owner existing mid m =
     (let replaces_active = (case existing of None \<Rightarrow> False | Some r \<Rightarrow> mr_status r = ''active'' \<and> is_live env r) in
      bindE (optional_labels env (supersession_target inp m)) (\<lambda>target.
      bindE (case target of None \<Rightarrow> Inr () | Some (r, labels) \<Rightarrow> check_target inp viewer owner r labels) (\<lambda>_.
      bindE (ensure (in_supersedes_id inp \<noteq> Some mid) SupersedesItself) (\<lambda>_.
      ensure (replaces_active \<or> (case target of None \<Rightarrow> False | Some (r, _) \<Rightarrow> is_live env r)
        \<or> active_count env m < md_max_active m) (ActiveLimit (md_max_active m))))))"

definition remember_in_transaction :: "memory_env \<Rightarrow> string \<Rightarrow> memory_input \<Rightarrow> string list \<Rightarrow> bool \<Rightarrow> memory_axes \<Rightarrow> memory_db
    \<Rightarrow> (store_error, memory_db \<times> string) result" where
  "remember_in_transaction env fresh inp viewer owner axes m =
     bindE (map_err InvalidMemory (validate_input (me_text env) inp)) (\<lambda>(_, acl, provenance_json, valid_until).
     bindE (optional_labels env (find_dedupe (in_project inp) (in_dedupe_key inp) m)) (\<lambda>existing.
     bindE (case existing of None \<Rightarrow> Inr () | Some (r, labels) \<Rightarrow> check_existing inp viewer owner r labels) (\<lambda>_.
     let mid = (case existing of None \<Rightarrow> fresh | Some (r, _) \<Rightarrow> mr_id r);
         source_id = (if trim (in_source_id inp) = [] then mid else in_source_id inp) in
     if (case existing of None \<Rightarrow> False
         | Some (r, labels) \<Rightarrow> same_memory r labels inp axes source_id acl provenance_json valid_until)
     then Inr (m, mid)
     else
       bindE (check_write env inp viewer owner (map_option fst existing) mid m) (\<lambda>_.
       bindE (write_memory env inp (new_memory_row env mid inp axes source_id acl provenance_json valid_until) m) (\<lambda>m.
       Inr (m, mid))))))"

definition memory_of_row :: "memory_env \<Rightarrow> memory_row \<Rightarrow> (store_error, memory_record) result" where
  "memory_of_row env r = bindE (labels_of env r) (\<lambda>labels.
     bindE (ok_or (me_read_json env (mr_provenance_json r)) BadColumn) (\<lambda>provenance.
     Inr \<lparr>rec_id = mr_id r, rec_kind = mr_kind r, rec_content_type = mr_content_type r, rec_retention_tier = mr_retention_tier r,
        rec_scope = mr_scope r, rec_project = mr_project r, rec_title = mr_title r, rec_content = mr_content r,
        rec_source = mr_source r, rec_source_id = mr_source_id r, rec_dedupe_key = mr_dedupe_key r,
        rec_confidence = mr_confidence r, rec_importance = mr_importance r, rec_status = mr_status r, rec_acl = labels,
        rec_provenance = provenance, rec_observed_at = mr_observed_at r, rec_valid_from = mr_valid_from r,
        rec_valid_until = mr_valid_until r, rec_supersedes_id = mr_supersedes_id r, rec_created_at = mr_created_at r,
        rec_updated_at = mr_updated_at r\<rparr>))"

definition memory :: "memory_env \<Rightarrow> string \<Rightarrow> memory_db \<Rightarrow> (store_error, memory_record option) result" where
  "memory env mid m = (case find_memory mid m of None \<Rightarrow> Inr None
     | Some r \<Rightarrow> bindE (memory_of_row env r) (\<lambda>x. Inr (Some x)))"

definition remember_scoped_with_axes :: "memory_env \<Rightarrow> string \<Rightarrow> memory_input \<Rightarrow> string list \<Rightarrow> bool \<Rightarrow> memory_axes \<Rightarrow> memory_db
    \<Rightarrow> memory_db \<times> (store_error, memory_record) result" where
  "remember_scoped_with_axes env fresh inp viewer owner axes m =
     (if axes_scope axes = SOwnerGlobal \<and> \<not> owner then (m, Inl OwnerRequired)
      else if axes_scope axes \<notin> {SWorkspace, SOwnerGlobal} then (m, Inl ScopeUnsupported)
      else (case remember_in_transaction env fresh inp viewer owner axes m of
          Inl e \<Rightarrow> (m, Inl e)
        | Inr (m', mid) \<Rightarrow> (m', bindE (memory env mid m') (\<lambda>x. ok_or x Disappeared))))"

definition remember_scoped :: "memory_env \<Rightarrow> string \<Rightarrow> memory_input \<Rightarrow> string list \<Rightarrow> bool \<Rightarrow> memory_db
    \<Rightarrow> memory_db \<times> (store_error, memory_record) result" where
  "remember_scoped env fresh inp viewer owner m = (case from_legacy_kind (in_kind inp) of
       Inl e \<Rightarrow> (m, Inl (InvalidMemory e))
     | Inr axes \<Rightarrow> remember_scoped_with_axes env fresh inp viewer owner axes m)"

definition remember :: "memory_env \<Rightarrow> string \<Rightarrow> memory_input \<Rightarrow> memory_db \<Rightarrow> memory_db \<times> (store_error, memory_record) result" where
  "remember env fresh inp = remember_scoped env fresh inp [''*''] True"

section \<open>Forgetting\<close>

definition retracted_row :: "memory_env \<Rightarrow> memory_row \<Rightarrow> memory_row" where
  "retracted_row env r = r\<lparr>mr_status := ''retracted'', mr_content := [], mr_provenance_json := ''{}'',
     mr_valid_until := (case mr_valid_until r of None \<Rightarrow> Some (me_now env) | Some v \<Rightarrow> Some v), mr_updated_at := me_now env\<rparr>"

definition forget_memory_scoped :: "memory_env \<Rightarrow> string \<Rightarrow> string list \<Rightarrow> bool \<Rightarrow> memory_db \<Rightarrow> memory_db \<times> (store_error, bool) result" where
  "forget_memory_scoped env mid viewer owner m =
     (case find (\<lambda>r. mr_id r = mid \<and> mr_status r = ''active'') (md_memories m) of None \<Rightarrow> (m, Inr False)
      | Some r \<Rightarrow>
        (case bindE (ensure (mr_scope r \<noteq> ''owner-global'' \<or> owner) OwnerRequired) (\<lambda>_.
           bindE (labels_of env r) (\<lambda>labels.
           bindE (ensure (owner \<or> acl_allows labels viewer) MemoryDenied) (\<lambda>_.
           bindE (journal_memory env mid (m\<lparr>md_memories := map (\<lambda>r. if mr_id r = mid \<and> mr_status r = ''active'' then retracted_row env r else r) (md_memories m),
               md_fts := filter (\<lambda>f. fst f \<noteq> mid) (md_fts m)\<rparr>)) (\<lambda>m. Inr (bump_memory_revision m))))) of
           Inl e \<Rightarrow> (m, Inl e)
         | Inr m' \<Rightarrow> (m', Inr True)))"

definition forget_memory :: "memory_env \<Rightarrow> string \<Rightarrow> memory_db \<Rightarrow> memory_db \<times> (store_error, bool) result" where
  "forget_memory env mid = forget_memory_scoped env mid [''*''] True"

section \<open>Reading\<close>

definition MAX_MEMORY_EXPORT_LIMIT :: nat where "MAX_MEMORY_EXPORT_LIMIT = 100000"

record memory_filter =
  mf_project :: "string option"
  mf_kind :: "string option"
  mf_content_type :: "string option"
  mf_retention_tier :: "string option"
  mf_scope :: "string option"

text \<open>\<open>Option::map(parse).transpose()\<close> with the texts put back.\<close>

definition normalize_filter :: "memory_filter \<Rightarrow> (store_error, memory_filter) result" where
  "normalize_filter f = map_err InvalidMemory (
     bindE (transpose_map (\<lambda>s. bindE (kind_parse s) (\<lambda>x. Inr (kind_as_str x))) (mf_kind f)) (\<lambda>kind.
     bindE (transpose_map (\<lambda>s. bindE (content_parse s) (\<lambda>x. Inr (content_as_str x))) (mf_content_type f)) (\<lambda>content.
     bindE (transpose_map (\<lambda>s. bindE (tier_parse s) (\<lambda>x. Inr (tier_as_str x))) (mf_retention_tier f)) (\<lambda>tier.
     bindE (transpose_map (\<lambda>s. bindE (scope_parse s) (\<lambda>x. Inr (scope_as_str x))) (mf_scope f)) (\<lambda>scope.
     Inr \<lparr>mf_project = mf_project f, mf_kind = kind, mf_content_type = content, mf_retention_tier = tier, mf_scope = scope\<rparr>)))))"

definition wanted :: "'a option \<Rightarrow> 'a \<Rightarrow> bool" where
  "wanted x v = (case x of None \<Rightarrow> True | Some y \<Rightarrow> v = y)"

definition selected :: "memory_env \<Rightarrow> memory_filter \<Rightarrow> string list \<Rightarrow> bool \<Rightarrow> memory_row \<Rightarrow> bool" where
  "selected env f viewer owner r \<longleftrightarrow> wanted (mf_project f) (mr_project r) \<and> wanted (mf_kind f) (mr_kind r)
     \<and> wanted (mf_content_type f) (mr_content_type r) \<and> wanted (mf_retention_tier f) (mr_retention_tier r)
     \<and> wanted (mf_scope f) (mr_scope r) \<and> (owner \<or> mr_scope r \<noteq> ''owner-global'')
     \<and> (case me_labels env (mr_acl_json r) of None \<Rightarrow> False | Some labels \<Rightarrow> acl_allows labels viewer)"

definition export_memories :: "memory_env \<Rightarrow> memory_filter \<Rightarrow> nat \<Rightarrow> string list \<Rightarrow> bool \<Rightarrow> memory_db
    \<Rightarrow> (store_error, memory_record list) result" where
  "export_memories env f limit viewer owner m = bindE (normalize_filter f) (\<lambda>f.
     bindE (ensure (mf_scope f \<noteq> Some ''owner-global'' \<or> owner) OwnerRequired) (\<lambda>_.
     map_result (memory_of_row env) (take (clamp limit 1 MAX_MEMORY_EXPORT_LIMIT)
       (rev (sort_key (\<lambda>r. (mr_updated_at r, mr_id r)) (filter (selected env f viewer owner) (md_memories m)))))))"

section \<open>The steps of a write\<close>

lemma find_mapped: "find p (map f xs) = map_option f (find (p \<circ> f) xs)"
  by (induction xs) auto

lemma find_memory_Some: "find_memory mid m = Some r \<Longrightarrow> r \<in> set (md_memories m) \<and> mr_id r = mid"
  by (auto simp: find_memory_def dest: find_Some_set)

lemma find_memory_in: "distinct (map mr_id (md_memories m)) \<Longrightarrow> r \<in> set (md_memories m) \<Longrightarrow> find_memory (mr_id r) m = Some r"
  by (simp add: find_memory_def find_key_unique)

lemma find_memory_None: "find_memory mid m = None \<longleftrightarrow> mid \<notin> mr_id ` set (md_memories m)"
  by (auto simp: find_memory_def find_None_iff)

lemma find_dedupe_Some: "find_dedupe project key m = Some r \<Longrightarrow> r \<in> set (md_memories m) \<and> mr_project r = project \<and> mr_dedupe_key r = key \<and> key \<noteq> None"
  by (auto simp: find_dedupe_def dest: find_Some_set split: option.splits)

lemma validate_units: "validate_input env inp = Inr x \<Longrightarrow> in_unit (in_confidence inp) \<and> in_unit (in_importance inp)"
  by (auto simp: validate_input_def result_simps Let_def split: if_splits)

lemma validate_labels: "validate_input env inp = Inr (k, acl, p, v) \<Longrightarrow> acl \<noteq> []"
  by (auto simp: validate_input_def normalize_acl_def result_simps Let_def split: if_splits)

text \<open>A successful write of one row, described by what is in the table.\<close>

definition superseded_row :: "memory_env \<Rightarrow> memory_row \<Rightarrow> memory_row" where
  "superseded_row env r = r\<lparr>mr_status := ''superseded'', mr_valid_until := Some (me_now env), mr_updated_at := me_now env\<rparr>"

definition after_supersede :: "memory_env \<Rightarrow> memory_input \<Rightarrow> memory_row \<Rightarrow> memory_row" where
  "after_supersede env inp r = (if in_supersedes_id inp = Some (mr_id r) \<and> mr_status r = ''active'' then superseded_row env r else r)"

lemma after_supersede_simps [simp]: "mr_id (after_supersede env inp r) = mr_id r" "mr_project (after_supersede env inp r) = mr_project r"
  "mr_dedupe_key (after_supersede env inp r) = mr_dedupe_key r" "mr_title (after_supersede env inp r) = mr_title r"
  "mr_content (after_supersede env inp r) = mr_content r" "mr_acl_json (after_supersede env inp r) = mr_acl_json r"
  "mr_created_at (after_supersede env inp r) = mr_created_at r"
  "mr_status (after_supersede env inp r) = ''retracted'' \<longleftrightarrow> mr_status r = ''retracted''"
  by (simp_all add: after_supersede_def superseded_row_def)

lemma supersede_spec:
  "supersede env inp m = Inr m' \<Longrightarrow> m' = m\<lparr>md_memories := map (after_supersede env inp) (md_memories m)\<rparr>
    \<and> (\<forall>i. in_supersedes_id inp = Some i \<longrightarrow> (\<exists>t \<in> set (md_memories m). mr_id t = i \<and> mr_status t = ''active''))"
  by (cases "in_supersedes_id inp")
    (auto simp: supersede_def after_supersede_def superseded_row_def result_simps list_ex_iff map_idI intro!: map_cong split: if_splits)

definition stamped :: "memory_row \<Rightarrow> memory_db \<Rightarrow> memory_row" where
  "stamped r m = (case find_memory (mr_id r) m of None \<Rightarrow> r | Some x \<Rightarrow> r\<lparr>mr_created_at := mr_created_at x\<rparr>)"

lemma stamped_simps [simp]: "mr_id (stamped r m) = mr_id r" "mr_project (stamped r m) = mr_project r"
  "mr_dedupe_key (stamped r m) = mr_dedupe_key r" "mr_status (stamped r m) = mr_status r" "mr_title (stamped r m) = mr_title r"
  "mr_content (stamped r m) = mr_content r" "mr_acl_json (stamped r m) = mr_acl_json r" "mr_provenance_json (stamped r m) = mr_provenance_json r"
  "mr_valid_until (stamped r m) = mr_valid_until r" "mr_supersedes_id (stamped r m) = mr_supersedes_id r"
  by (simp_all add: stamped_def split: option.split)

lemma put_memory_spec:
  assumes put: "put_memory r m = Inr m'" and d: "distinct (map mr_id (md_memories m))"
  shows "distinct (map mr_id (md_memories m'))"
    "set (md_memories m') = insert (stamped r m) {x \<in> set (md_memories m). mr_id x \<noteq> mr_id r}"
    "m' = m\<lparr>md_memories := md_memories m'\<rparr>"
    "\<And>x. x \<in> set (md_memories m) \<Longrightarrow> mr_id x \<noteq> mr_id r \<Longrightarrow> mr_dedupe_key r \<noteq> None \<Longrightarrow> mr_project x = mr_project r \<Longrightarrow> mr_dedupe_key x \<noteq> mr_dedupe_key r"
proof -
  let ?f = "\<lambda>x. r\<lparr>mr_created_at := mr_created_at x\<rparr>" and ?p = "\<lambda>x. mr_id x = mr_id r"
  have ok: "\<not> list_ex (\<lambda>x. mr_id x \<noteq> mr_id r \<and> mr_dedupe_key r \<noteq> None \<and> mr_project x = mr_project r \<and> mr_dedupe_key x = mr_dedupe_key r) (md_memories m)"
    and m': "m' = m\<lparr>md_memories := (if find_memory (mr_id r) m = None then md_memories m @ [r] else update_first ?p ?f (md_memories m))\<rparr>"
    using put unfolding put_memory_def bindE_ensure by (auto split: if_split_asm)
  show "m' = m\<lparr>md_memories := md_memories m'\<rparr>" using m' by simp
  show "x \<in> set (md_memories m) \<Longrightarrow> mr_id x \<noteq> mr_id r \<Longrightarrow> mr_dedupe_key r \<noteq> None \<Longrightarrow> mr_project x = mr_project r \<Longrightarrow> mr_dedupe_key x \<noteq> mr_dedupe_key r" for x
    using ok by (auto simp: list_ex_iff)
  have up: "distinct (map mr_id xs) \<Longrightarrow> find ?p xs = Some x \<Longrightarrow> set (update_first ?p ?f xs) = insert (?f x) {x \<in> set xs. mr_id x \<noteq> mr_id r}" for xs x
    by (induction xs) (auto split: if_splits simp: image_iff)
  have "map mr_id (update_first ?p ?f xs) = map mr_id xs" for xs by (rule map_update_first_id) simp
  then show "distinct (map mr_id (md_memories m'))"
    using d by (auto simp: m' find_memory_None)
  show "set (md_memories m') = insert (stamped r m) {x \<in> set (md_memories m). mr_id x \<noteq> mr_id r}"
  proof (cases "find_memory (mr_id r) m")
    case None
    then have "mr_id x \<noteq> mr_id r" if "x \<in> set (md_memories m)" for x using that by (metis find_memory_None imageI)
    then have "set (md_memories m) = {x \<in> set (md_memories m). mr_id x \<noteq> mr_id r}" by auto
    with None show ?thesis by (simp add: m' stamped_def)
  next
    case (Some x)
    with up [OF d, of x] show ?thesis by (simp add: m' stamped_def find_memory_def)
  qed
qed

lemma journal_memory_frame: "journal_memory env mid m = Inr m' \<Longrightarrow> \<exists>st. m' = m\<lparr>md_sync := st\<rparr>"
  by (auto simp: journal_memory_def result_simps split: prod.splits)

definition journalled_memory :: "memory_env \<Rightarrow> string \<Rightarrow> memory_db \<Rightarrow> bool" where
  "journalled_memory env mid m \<longleftrightarrow> (\<forall>origin. sy_self (md_sync m) = Some origin \<longrightarrow> (\<exists>j. latest ''memory'' mid (md_sync m) = Some j
     \<and> jr_tombstone j = (find_memory mid m = None) \<and> jr_fingerprint j = (case find_memory mid m of None \<Rightarrow> ''deleted''
         | Some r \<Rightarrow> fingerprint_value (me_sync env) (memory_columns r))))"

text \<open>The journal takes every entry, and its newest row then describes the memory.\<close>

lemma journal_memory_spec:
  assumes inv: "journal_inv (md_sync m)"
  shows "\<exists>st. journal_memory env mid m = Inr (m\<lparr>md_sync := st\<rparr>) \<and> journal_inv st \<and> sy_self st = sy_self (md_sync m)
    \<and> journalled_memory env mid (m\<lparr>md_sync := st\<rparr>) \<and> (\<forall>oid. oid \<noteq> mid \<longrightarrow> latest ''memory'' oid st = latest ''memory'' oid (md_sync m))"
proof -
  let ?v = "memory_view m" and ?row = "find_memory mid m"
  have v: "journal_inv ?v" "sy_self ?v = sy_self (md_sync m)" "latest k oid ?v = latest k oid (md_sync m)" for k oid
    using inv same_journal(1,2) [of ?v "md_sync m"] by (simp_all add: memory_view_def)
  have row: "find_memory mid (m\<lparr>md_sync := st\<rparr>) = ?row" for st by (simp add: find_memory_def)
  show ?thesis
  proof (cases "sy_self (md_sync m)")
    case None
    then have "journal_memory env mid m = Inr (m\<lparr>md_sync := ?v\<rparr>)" by (simp add: journal_memory_def journal_object_def v)
    with v None show ?thesis by (auto simp: journalled_memory_def)
  next
    case (Some origin)
    let ?fp = "case ?row of None \<Rightarrow> ''deleted'' | Some r \<Rightarrow> fingerprint_value (me_sync env) (memory_columns r)"
    let ?insert = "insert_journal ''memory'' mid (next_revision ''memory'' mid ?v) origin ?fp (?row = None) (sx_now (me_sync env)) ?v"
    have fp: "row_fingerprint (me_sync env) ''memory'' mid ?v = Inr (map_option (fingerprint_value (me_sync env) \<circ> memory_columns) ?row)"
      by (simp add: row_fingerprint_def columns_for_kind_def memory_view_def option.map_comp)
    have fpe: "(case map_option (fingerprint_value (me_sync env) \<circ> memory_columns) ?row of None \<Rightarrow> ''deleted'' | Some f \<Rightarrow> f) = ?fp"
      by (cases ?row) simp_all
    have run: "journal_object (me_sync env) ''memory'' mid ?v = (case latest ''memory'' mid ?v of
          Some r \<Rightarrow> if jr_fingerprint r = ?fp \<and> jr_tombstone r = (?row = None) then Inr (?v, False) else bindE ?insert (\<lambda>st. Inr (st, True))
        | None \<Rightarrow> bindE ?insert (\<lambda>st. Inr (st, True)))"
      using fpe by (auto simp: journal_object_def v(2) Some fp Let_def next_revision_def split: option.splits)
    from insert_journal_ok [OF v(1) refl, of "''memory''" mid origin ?fp "?row = None" "sx_now (me_sync env)"]
    obtain st where st: "?insert = Inr st" "journal_inv st" "sy_self st = Some origin"
      "latest ''memory'' mid st = Some \<lparr>jr_id = sy_next_journal ?v, jr_kind = ''memory'', jr_object = mid,
        jr_revision = next_revision ''memory'' mid ?v, jr_origin = origin, jr_fingerprint = ?fp, jr_tombstone = (?row = None), jr_changed_at = sx_now (me_sync env)\<rparr>"
      using v(2) Some by auto
    have others: "latest ''memory'' oid st = latest ''memory'' oid (md_sync m)" if "oid \<noteq> mid" for oid
    proof -
      have "filter (of_object ''memory'' oid) (sy_journal st) = filter (of_object ''memory'' oid) (sy_journal ?v)"
        using st(1) that by (auto simp: insert_journal_def of_object_def split: if_splits)
      then show ?thesis using v(3) by (simp add: latest_def)
    qed
    show ?thesis
    proof (cases "\<exists>r. latest ''memory'' mid ?v = Some r \<and> jr_fingerprint r = ?fp \<and> jr_tombstone r = (?row = None)")
      case True
      then have "journal_memory env mid m = Inr (m\<lparr>md_sync := ?v\<rparr>)" using run by (auto simp: journal_memory_def)
      with v True show ?thesis by (auto simp: journalled_memory_def row)
    next
      case False
      then have "journal_object (me_sync env) ''memory'' mid ?v = Inr (st, True)"
        unfolding run using st(1) by (cases "latest ''memory'' mid ?v") auto
      then have "journal_memory env mid m = Inr (m\<lparr>md_sync := st\<rparr>)" by (simp add: journal_memory_def)
      with st others show ?thesis using Some by (auto simp: journalled_memory_def row)
    qed
  qed
qed

section \<open>Consistency\<close>

definition row_ok :: "(string \<Rightarrow> string list option) \<Rightarrow> memory_row \<Rightarrow> bool" where
  "row_ok parse r \<longleftrightarrow> mr_status r \<in> {''active'', ''superseded'', ''retracted''}
     \<and> (mr_status r = ''retracted'' \<longrightarrow> mr_content r = [] \<and> mr_provenance_json r = ''{}'')
     \<and> (mr_status r \<noteq> ''active'' \<longrightarrow> mr_valid_until r \<noteq> None) \<and> (\<exists>labels. parse (mr_acl_json r) = Some labels \<and> labels \<noteq> [])"

definition fts_of :: "memory_row \<Rightarrow> string \<times> string \<times> string" where
  "fts_of r = (mr_id r, mr_title r, mr_content r)"

definition memory_inv :: "(string \<Rightarrow> string list option) \<Rightarrow> memory_db \<Rightarrow> bool" where
  "memory_inv parse m \<longleftrightarrow> distinct (map mr_id (md_memories m)) \<and> distinct (map fst (md_fts m))
     \<and> (\<forall>r \<in> set (md_memories m). \<forall>s \<in> set (md_memories m). mr_dedupe_key r \<noteq> None \<and> mr_project r = mr_project s
          \<and> mr_dedupe_key r = mr_dedupe_key s \<longrightarrow> r = s)
     \<and> set (md_fts m) = fts_of ` {r \<in> set (md_memories m). mr_status r \<noteq> ''retracted''}
     \<and> (\<forall>r \<in> set (md_memories m). row_ok parse r) \<and> journal_inv (md_sync m)"

lemma memory_invD:
  assumes "memory_inv parse m"
  shows "distinct (map mr_id (md_memories m))" "distinct (map fst (md_fts m))"
    "set (md_fts m) = fts_of ` {r \<in> set (md_memories m). mr_status r \<noteq> ''retracted''}" "journal_inv (md_sync m)"
    "r \<in> set (md_memories m) \<Longrightarrow> row_ok parse r"
    "r \<in> set (md_memories m) \<Longrightarrow> s \<in> set (md_memories m) \<Longrightarrow> mr_dedupe_key r \<noteq> None \<Longrightarrow> mr_project r = mr_project s
       \<Longrightarrow> mr_dedupe_key r = mr_dedupe_key s \<Longrightarrow> r = s"
    "r \<in> set (md_memories m) \<Longrightarrow> s \<in> set (md_memories m) \<Longrightarrow> mr_id r = mr_id s \<Longrightarrow> r = s"
  using assms by (auto simp: memory_inv_def distinct_map dest: inj_onD)

text \<open>What a write does: the superseded memory retires, the row of the new memory stands, and nothing
  else changes.\<close>

lemma write_memory_spec:
  assumes inv: "memory_inv parse m" and ok: "write_memory env inp r m = Inr m'" and good: "row_ok parse r" and act: "mr_status r = ''active''"
    and other: "in_supersedes_id inp \<noteq> Some (mr_id r)"
  defines "kept \<equiv> {after_supersede env inp x |x. x \<in> set (md_memories m) \<and> mr_id x \<noteq> mr_id r}"
  shows "memory_inv parse m'" "md_revision m' = md_revision m + 1" "md_max_active m' = md_max_active m"
    "set (md_memories m') = insert (stamped r m) kept"
    "journalled_memory env (mr_id r) m'" "\<And>oid. oid \<noteq> mr_id r \<Longrightarrow> latest ''memory'' oid (md_sync m') = latest ''memory'' oid (md_sync m)"
    "sy_self (md_sync m') = sy_self (md_sync m)"
proof -
  note D = memory_invD [OF inv]
  obtain m1 m2 m3 where s: "supersede env inp m = Inr m1" and p: "put_memory r m1 = Inr m2"
    and j: "journal_memory env (mr_id r) (index_memory r m2) = Inr m3" and m': "m' = bump_memory_revision m3"
    using ok by (auto simp: write_memory_def result_simps)
  note S = conjunct1 [OF supersede_spec [OF s]]
  have mem1: "md_memories m1 = map (after_supersede env inp) (md_memories m)" using S by simp
  have d1: "distinct (map mr_id (md_memories m1))" using D(1) by (simp add: mem1 comp_def)
  note P = put_memory_spec [OF p d1]
  have sync2: "md_sync (index_memory r m2) = md_sync m" "md_revision m2 = md_revision m" "md_max_active m2 = md_max_active m" "md_fts m2 = md_fts m"
    using S by (simp_all add: index_memory_def, (subst P(3), simp)+)
  obtain st where st: "m3 = (index_memory r m2)\<lparr>md_sync := st\<rparr>" "journal_inv st" "sy_self st = sy_self (md_sync m)"
    "journalled_memory env (mr_id r) ((index_memory r m2)\<lparr>md_sync := st\<rparr>)"
    "\<And>oid. oid \<noteq> mr_id r \<Longrightarrow> latest ''memory'' oid st = latest ''memory'' oid (md_sync m)"
    using journal_memory_spec [of "index_memory r m2" env "mr_id r"] j D(4) sync2 by auto
  have find1: "find_memory (mr_id r) m1 = map_option (after_supersede env inp) (find_memory (mr_id r) m)"
    by (simp add: find_memory_def mem1 find_mapped comp_def)
  have stamp: "stamped r m1 = stamped r m" by (simp add: stamped_def find1 option.case_eq_if option.map_sel)
  have mem: "md_memories m' = md_memories m2" by (simp add: m' st(1) bump_memory_revision_def index_memory_def)
  have old: "{x \<in> set (md_memories m1). mr_id x \<noteq> mr_id r} = kept" by (auto simp: mem1 kept_def)
  show set': "set (md_memories m') = insert (stamped r m) kept" using P(2) by (simp add: mem old stamp)
  show "md_revision m' = md_revision m + 1" "md_max_active m' = md_max_active m" "sy_self (md_sync m') = sy_self (md_sync m)"
    using sync2 by (simp_all add: m' st bump_memory_revision_def index_memory_def)
  show "latest ''memory'' oid (md_sync m') = latest ''memory'' oid (md_sync m)" if "oid \<noteq> mr_id r" for oid
    using st(5) [OF that] by (simp add: m' st(1) bump_memory_revision_def)
  show "journalled_memory env (mr_id r) m'"
    using st(4) by (simp add: m' st(1) journalled_memory_def find_memory_def bump_memory_revision_def)
  have fts': "md_fts m' = filter (\<lambda>f. fst f \<noteq> mr_id r) (md_fts m) @ [fts_of r]"
    by (simp add: m' st(1) bump_memory_revision_def index_memory_def sync2 fts_of_def)
  have okrow: "row_ok parse x" if "x \<in> set (md_memories m')" for x
  proof -
    have "row_ok parse (after_supersede env inp y)" if "y \<in> set (md_memories m)" for y
      using D(5) [OF that] by (auto simp: row_ok_def after_supersede_def superseded_row_def)
    moreover have "row_ok parse (stamped r m)" using good act by (auto simp: row_ok_def)
    ultimately show ?thesis using that set' by (auto simp: kept_def)
  qed
  have "x = y" if "x \<in> set (md_memories m')" "y \<in> set (md_memories m')" "mr_dedupe_key x \<noteq> None"
    "mr_project x = mr_project y" "mr_dedupe_key x = mr_dedupe_key y" for x y
  proof -
    have new: "z \<in> kept \<Longrightarrow> mr_dedupe_key z \<noteq> None \<Longrightarrow> mr_project z = mr_project r \<Longrightarrow> mr_dedupe_key z \<noteq> mr_dedupe_key r" for z
      using P(4) unfolding old [symmetric] by auto
    have "u \<in> kept \<Longrightarrow> v \<in> kept \<Longrightarrow> mr_dedupe_key u \<noteq> None \<Longrightarrow> mr_project u = mr_project v \<Longrightarrow> mr_dedupe_key u = mr_dedupe_key v \<Longrightarrow> u = v" for u v
      unfolding kept_def using D(6) by (smt (verit, best) after_supersede_simps(2,3) mem_Collect_eq)
    with that new show ?thesis unfolding set' by (metis insertE stamped_simps(2,3))
  qed
  moreover have "set (md_fts m') = fts_of ` {x \<in> set (md_memories m'). mr_status x \<noteq> ''retracted''}"
  proof -
    have "{x \<in> insert (stamped r m) kept. mr_status x \<noteq> ''retracted''} = insert (stamped r m) {x \<in> kept. mr_status x \<noteq> ''retracted''}"
      using act by auto
    moreover have "fts_of ` {x \<in> kept. mr_status x \<noteq> ''retracted''} = fts_of ` {x \<in> set (md_memories m). mr_status x \<noteq> ''retracted'' \<and> mr_id x \<noteq> mr_id r}"
    proof -
      have "{x \<in> kept. mr_status x \<noteq> ''retracted''} = after_supersede env inp ` {x \<in> set (md_memories m). mr_status x \<noteq> ''retracted'' \<and> mr_id x \<noteq> mr_id r}"
        by (auto simp: kept_def)
      then show ?thesis by (simp add: image_image fts_of_def)
    qed
    moreover have "set (filter (\<lambda>f. fst f \<noteq> mr_id r) (md_fts m)) = fts_of ` {x \<in> set (md_memories m). mr_status x \<noteq> ''retracted'' \<and> mr_id x \<noteq> mr_id r}"
      using D(3) by (auto simp: fts_of_def)
    moreover have "fts_of (stamped r m) = fts_of r" by (simp add: fts_of_def)
    ultimately show ?thesis unfolding fts' set' by auto
  qed
  moreover have "distinct (map fst (md_fts m'))" using D(2) by (auto simp: fts' fts_of_def distinct_map_filter)
  ultimately show "memory_inv parse m'"
    using P(1) [folded mem] st(2) okrow unfolding memory_inv_def by (intro conjI ballI impI) (auto simp: m' st(1) bump_memory_revision_def)
qed

section \<open>What a successful call has checked\<close>

definition sane :: "(string \<Rightarrow> string list option) \<Rightarrow> memory_env \<Rightarrow> bool" where
  "sane parse env \<longleftrightarrow> me_labels env = parse \<and> (\<forall>labels. parse (me_labels_json env labels) = Some labels)"

text \<open>Who may change a memory: the owner, or a principal one of whose labels the memory has, and then
  not in the owner's global scope.\<close>

definition may_change :: "memory_env \<Rightarrow> string list \<Rightarrow> bool \<Rightarrow> memory_row \<Rightarrow> bool" where
  "may_change env viewer owner r \<longleftrightarrow> owner \<or> mr_scope r \<noteq> ''owner-global''
     \<and> (\<exists>labels. me_labels env (mr_acl_json r) = Some labels \<and> acl_allows labels viewer)"

lemma bindE_InrE: "bindE r f = Inr b \<Longrightarrow> (\<And>a. r = Inr a \<Longrightarrow> f a = Inr b \<Longrightarrow> P) \<Longrightarrow> P"
  by (cases r) auto

lemma optional_labels_Inr:
  "optional_labels env x = Inr y \<longleftrightarrow> (case x of None \<Rightarrow> y = None | Some r \<Rightarrow> \<exists>labels. me_labels env (mr_acl_json r) = Some labels \<and> y = Some (r, labels))"
  by (cases x) (auto simp: optional_labels_def labels_of_def result_simps)

text \<open>The outcomes of a call: nothing is written for a retry; otherwise the checks held and the row was
  written.\<close>

lemma check_target_Inr: "check_target inp viewer owner r labels = Inr () \<longleftrightarrow>
    (mr_scope r \<noteq> ''owner-global'' \<or> owner) \<and> (owner \<or> acl_allows labels viewer) \<and> mr_project r = in_project inp"
  by (auto simp: check_target_def bindE_Inr_iff ensure_Inr_iff)

lemma check_existing_Inr: "check_existing inp viewer owner r labels = Inr () \<longleftrightarrow>
    (mr_scope r \<noteq> ''owner-global'' \<or> owner) \<and> (owner \<or> acl_allows labels viewer) \<and> mr_project r = in_project inp \<and> mr_status r = ''active''"
  by (auto simp: check_existing_def bindE_Inr_iff ensure_Inr_iff)

lemma check_write_Inr:
  "check_write env inp viewer owner existing mid m = Inr () \<Longrightarrow>
     (case supersession_target inp m of None \<Rightarrow> True | Some t \<Rightarrow> may_change env viewer owner t \<and> mr_project t = in_project inp)
     \<and> in_supersedes_id inp \<noteq> Some mid
     \<and> ((\<exists>r. existing = Some r \<and> is_live env r) \<or> (\<exists>t. supersession_target inp m = Some t \<and> is_live env t)
        \<or> active_count env m < md_max_active m)"
proof -
  assume ok: "check_write env inp viewer owner existing mid m = Inr ()"
  let ?target = "supersession_target inp m" and ?room = "active_count env m < md_max_active m"
  obtain target where t: "optional_labels env ?target = Inr target"
    and c: "(case target of None \<Rightarrow> Inr () | Some (r, labels) \<Rightarrow> check_target inp viewer owner r labels) = Inr ()"
    and i: "in_supersedes_id inp \<noteq> Some mid"
    and l: "(case existing of None \<Rightarrow> False | Some r \<Rightarrow> mr_status r = ''active'' \<and> is_live env r)
        \<or> (case target of None \<Rightarrow> False | Some (r, _) \<Rightarrow> is_live env r) \<or> ?room"
    using ok unfolding check_write_def Let_def by (elim bindE_InrE) (rule that, assumption, simp_all add: ensure_Inr_iff)
  have "\<exists>r. existing = Some r \<and> is_live env r" if "case existing of None \<Rightarrow> False | Some r \<Rightarrow> mr_status r = ''active'' \<and> is_live env r"
    using that by (cases existing) auto
  with l have l': "(\<exists>r. existing = Some r \<and> is_live env r) \<or> (case target of None \<Rightarrow> False | Some (r, _) \<Rightarrow> is_live env r) \<or> ?room" by blast
  show ?thesis
  proof (cases ?target)
    case None
    with t have "target = None" by (simp add: optional_labels_Inr)
    with l' i None show ?thesis by simp
  next
    case (Some r)
    with t obtain labels where "me_labels env (mr_acl_json r) = Some labels" "target = Some (r, labels)" by (auto simp: optional_labels_Inr)
    with c l' i Some show ?thesis by (auto simp: check_target_Inr may_change_def)
  qed
qed

lemma remember_cases:
  assumes "remember_in_transaction env fresh inp viewer owner axes m = Inr (m', mid)"
  obtains (same) r labels k acl pj vu where "m' = m" "find_dedupe (in_project inp) (in_dedupe_key inp) m = Some r" "mr_id r = mid"
      "validate_input (me_text env) inp = Inr (k, acl, pj, vu)" "may_change env viewer owner r"
      "me_labels env (mr_acl_json r) = Some labels"
      "same_memory r labels inp axes (if trim (in_source_id inp) = [] then mid else in_source_id inp) acl pj vu"
  | (written) k acl pj vu source_id where "validate_input (me_text env) inp = Inr (k, acl, pj, vu)"
      "case find_dedupe (in_project inp) (in_dedupe_key inp) m of None \<Rightarrow> mid = fresh
        | Some r \<Rightarrow> mid = mr_id r \<and> may_change env viewer owner r \<and> mr_status r = ''active''"
      "source_id = (if trim (in_source_id inp) = [] then mid else in_source_id inp)"
      "check_write env inp viewer owner (find_dedupe (in_project inp) (in_dedupe_key inp) m) mid m = Inr ()"
      "write_memory env inp (new_memory_row env mid inp axes source_id acl pj vu) m = Inr m'"
proof -
  obtain k acl pj vu where v: "validate_input (me_text env) inp = Inr (k, acl, pj, vu)"
    using assms by (auto simp: remember_in_transaction_def bindE_Inr_iff map_err_Inr_iff)
  let ?row = "find_dedupe (in_project inp) (in_dedupe_key inp) m"
  obtain existing where ex: "optional_labels env ?row = Inr existing"
    and chk: "(case existing of None \<Rightarrow> Inr () | Some (r, labels) \<Rightarrow> check_existing inp viewer owner r labels) = Inr ()"
    using assms unfolding remember_in_transaction_def v map_err_simps bindE.simps prod.case
    by (elim bindE_InrE) (rule that, assumption, simp)
  note run = assms [unfolded remember_in_transaction_def v map_err_simps bindE.simps prod.case ex chk]
  show thesis
  proof (cases ?row)
    case None
    with ex have "existing = None" by (simp add: optional_labels_Inr)
    with run None show thesis by (intro written [OF v, where source_id = "if trim (in_source_id inp) = [] then mid else in_source_id inp"])
        (auto simp: Let_def bindE_Inr_iff)
  next
    case (Some r)
    with ex obtain labels where l: "me_labels env (mr_acl_json r) = Some labels" "existing = Some (r, labels)" by (auto simp: optional_labels_Inr)
    with chk have c: "may_change env viewer owner r" "mr_status r = ''active''"
      by (auto simp: check_existing_Inr may_change_def)
    let ?sid = "if trim (in_source_id inp) = [] then mr_id r else in_source_id inp"
    show thesis
    proof (cases "same_memory r labels inp axes ?sid acl pj vu")
      case True
      with run l show thesis by (intro same [OF _ Some _ v c(1) l(1)]) (auto simp: Let_def)
    next
      case False
      with run l c Some show thesis by (intro written [OF v, where source_id = ?sid]) (auto simp: Let_def bindE_Inr_iff)
    qed
  qed
qed

section \<open>Memories as a transition system\<close>

text \<open>Fresh identifiers are new. The clock and the labels' JSON may differ from step to step, but labels
  that were printed are read back.\<close>

inductive memory_step :: "(string \<Rightarrow> string list option) \<Rightarrow> memory_db \<Rightarrow> memory_db \<Rightarrow> bool" for parse where
  step_remember: "sane parse env \<Longrightarrow> fresh \<notin> mr_id ` set (md_memories m) \<Longrightarrow> remember_scoped_with_axes env fresh inp viewer owner axes m = (m', res)
    \<Longrightarrow> memory_step parse m m'"
| step_transaction: "sane parse env \<Longrightarrow> fresh \<notin> mr_id ` set (md_memories m) \<Longrightarrow> remember_in_transaction env fresh inp viewer owner axes m = Inr (m', mid)
    \<Longrightarrow> memory_step parse m m'"
| step_forget: "sane parse env \<Longrightarrow> forget_memory_scoped env mid viewer owner m = (m', res') \<Longrightarrow> memory_step parse m m'"
| step_limit: "configure_memory_limit n m = (m', out) \<Longrightarrow> memory_step parse m m'"

definition memory_init :: "memory_db \<Rightarrow> bool" where
  "memory_init m \<longleftrightarrow> md_memories m = [] \<and> md_fts m = [] \<and> md_revision m = 0 \<and> sy_journal (md_sync m) = []"

lemma remember_scoped_step:
  "remember_scoped_with_axes env fresh inp viewer owner axes m = (m', res) \<Longrightarrow>
    m' = m \<or> (\<exists>mid. remember_in_transaction env fresh inp viewer owner axes m = Inr (m', mid))"
  by (auto simp: remember_scoped_with_axes_def split: if_splits sum.splits)

lemma new_row_ok:
  assumes "sane parse env" "validate_input (me_text env) inp = Inr (k, acl, pj, vu)"
  shows "row_ok parse (new_memory_row env mid inp axes sid acl pj vu)"
  using assms validate_labels [OF assms(2)] by (auto simp: row_ok_def new_memory_row_def sane_def)

lemma new_row_simps [simp]: "mr_id (new_memory_row env mid inp axes sid acl pj vu) = mid"
  "mr_status (new_memory_row env mid inp axes sid acl pj vu) = ''active''" "mr_project (new_memory_row env mid inp axes sid acl pj vu) = in_project inp"
  "mr_dedupe_key (new_memory_row env mid inp axes sid acl pj vu) = in_dedupe_key inp" "mr_content (new_memory_row env mid inp axes sid acl pj vu) = in_content inp"
  by (simp_all add: new_memory_row_def)

text \<open>The life of a memory from one state to a later one: it is never lost, keeps its identity, and once
  retired never changes.\<close>

definition row_life :: "memory_row \<Rightarrow> memory_row \<Rightarrow> bool" where
  "row_life r r' \<longleftrightarrow> mr_id r' = mr_id r \<and> mr_project r' = mr_project r \<and> mr_dedupe_key r' = mr_dedupe_key r \<and> mr_created_at r' = mr_created_at r
     \<and> (mr_status r \<noteq> ''active'' \<longrightarrow> r' = r)"

definition memory_grows :: "memory_db \<Rightarrow> memory_db \<Rightarrow> bool" where
  "memory_grows m m' \<longleftrightarrow> (\<forall>r \<in> set (md_memories m). \<exists>r' \<in> set (md_memories m'). row_life r r') \<and> md_revision m \<le> md_revision m'
     \<and> (md_revision m' = md_revision m \<longrightarrow> md_memories m' = md_memories m \<and> md_fts m' = md_fts m)"

lemma memory_grows_refl: "memory_grows m m"
  by (auto simp: memory_grows_def row_life_def)

lemma row_life_trans: "row_life r s \<Longrightarrow> row_life s t \<Longrightarrow> row_life r t"
  by (auto simp: row_life_def)

lemma memory_grows_trans: "memory_grows a b \<Longrightarrow> memory_grows b c \<Longrightarrow> memory_grows a c"
proof -
  assume ab: "memory_grows a b" and bc: "memory_grows b c"
  note ab1 = conjunct1 [OF ab [unfolded memory_grows_def]] and bc1 = conjunct1 [OF bc [unfolded memory_grows_def]]
  have "\<exists>t \<in> set (md_memories c). row_life r t" if r: "r \<in> set (md_memories a)" for r
  proof -
    obtain s where s: "s \<in> set (md_memories b)" "row_life r s" using bspec [OF ab1 r] by (rule bexE)
    moreover obtain t where "t \<in> set (md_memories c)" "row_life s t" using bspec [OF bc1 s(1)] by (rule bexE)
    ultimately show ?thesis using row_life_trans by blast
  qed
  moreover have "md_revision a \<le> md_revision b" "md_revision b \<le> md_revision c" using ab bc by (simp_all add: memory_grows_def)
  ultimately show ?thesis using ab bc by (simp add: memory_grows_def)
qed

lemma remember_keeps:
  assumes inv: "memory_inv parse m" and sane: "sane parse env" and fresh: "fresh \<notin> mr_id ` set (md_memories m)"
    and ok: "remember_in_transaction env fresh inp viewer owner axes m = Inr (m', mid)"
  shows "memory_inv parse m' \<and> memory_grows m m'"
  using ok
proof (cases rule: remember_cases)
  case same
  then show ?thesis using inv memory_grows_refl by simp
next
  case (written k acl pj vu source_id)
  let ?r = "new_memory_row env mid inp axes source_id acl pj vu"
  note W = write_memory_spec [OF inv written(5) new_row_ok [OF sane written(1)], simplified new_row_simps, OF refl]
  have other: "in_supersedes_id inp \<noteq> Some mid" using check_write_Inr [OF written(4)] by simp
  have "\<exists>r' \<in> set (md_memories m'). row_life r r'" if r: "r \<in> set (md_memories m)" for r
  proof (cases "mr_id r = mid")
    case False
    then have "after_supersede env inp r \<in> set (md_memories m')" using W(4) [OF other] r by auto
    then show ?thesis by (rule bexI [rotated]) (simp add: row_life_def after_supersede_def superseded_row_def)
  next
    case True
    with fresh r obtain x where x: "find_dedupe (in_project inp) (in_dedupe_key inp) m = Some x" "mid = mr_id x" "mr_status x = ''active''"
      using written(2) by (auto split: option.splits)
    then have "x = r" using find_dedupe_Some [OF x(1)] memory_invD(7) [OF inv r] True by auto
    then have "row_life r (stamped ?r m)"
      using x find_dedupe_Some [OF x(1)] find_memory_in [OF memory_invD(1) [OF inv] r] True by (simp add: row_life_def stamped_def)
    then show ?thesis using W(4) [OF other] by auto
  qed
  then show ?thesis using W(1,2) [OF other] by (simp add: memory_grows_def)
qed

lemma forget_cases:
  assumes "forget_memory_scoped env mid viewer owner m = (m', res)" "memory_inv parse m"
  obtains (refused) "m' = m" "res \<noteq> Inr True"
  | (forgotten) r st where "find_memory mid m = Some r" "mr_status r = ''active''" "may_change env viewer owner r" "res = Inr True"
      "m' = m\<lparr>md_memories := map (\<lambda>r. if mr_id r = mid \<and> mr_status r = ''active'' then retracted_row env r else r) (md_memories m),
        md_fts := filter (\<lambda>f. fst f \<noteq> mid) (md_fts m), md_sync := st, md_revision := md_revision m + 1\<rparr>"
      "journal_inv st" "journalled_memory env mid m'"
proof (cases "find (\<lambda>r. mr_id r = mid \<and> mr_status r = ''active'') (md_memories m)")
  case None
  with assms(1) show thesis by (intro refused) (auto simp: forget_memory_scoped_def)
next
  case (Some r)
  let ?m1 = "m\<lparr>md_memories := map (\<lambda>r. if mr_id r = mid \<and> mr_status r = ''active'' then retracted_row env r else r) (md_memories m),
        md_fts := filter (\<lambda>f. fst f \<noteq> mid) (md_fts m)\<rparr>"
  have r: "r \<in> set (md_memories m)" "mr_id r = mid" "mr_status r = ''active''" using find_Some_set [OF Some] by auto
  have "journal_inv (md_sync ?m1)" using memory_invD(4) [OF assms(2)] by simp
  from journal_memory_spec [OF this, of env mid]
  obtain st where st: "journal_memory env mid ?m1 = Inr (?m1\<lparr>md_sync := st\<rparr>)" "journal_inv st" "journalled_memory env mid (?m1\<lparr>md_sync := st\<rparr>)" by blast
  show thesis
  proof (cases "may_change env viewer owner r \<and> (\<exists>labels. me_labels env (mr_acl_json r) = Some labels)")
    case True
    then have "forget_memory_scoped env mid viewer owner m = (bump_memory_revision (?m1\<lparr>md_sync := st\<rparr>), Inr True)"
      using st(1) by (auto simp: forget_memory_scoped_def Some may_change_def labels_of_def ensure_def ok_or_def)
    moreover have "journalled_memory env mid (bump_memory_revision (?m1\<lparr>md_sync := st\<rparr>))"
      using st(3) by (simp add: journalled_memory_def bump_memory_revision_def find_memory_def)
    ultimately show thesis using assms(1) True r st(2) find_memory_in [OF memory_invD(1) [OF assms(2)] r(1)]
      by (intro forgotten [of r st]) (auto simp: bump_memory_revision_def)
  next
    case False
    have "\<exists>e. forget_memory_scoped env mid viewer owner m = (m, Inl e)"
      using False st(1) by (auto simp: forget_memory_scoped_def Some may_change_def labels_of_def ensure_def ok_or_def split: option.split)
    then show thesis using assms(1) by (intro refused) auto
  qed
qed

lemma forget_keeps:
  assumes inv: "memory_inv parse m" and run: "forget_memory_scoped env mid viewer owner m = (m', res)"
  shows "memory_inv parse m' \<and> memory_grows m m'"
  using run inv
proof (cases rule: forget_cases)
  case refused
  then show ?thesis using inv memory_grows_refl by simp
next
  case (forgotten r st)
  let ?f = "\<lambda>r. if mr_id r = mid \<and> mr_status r = ''active'' then retracted_row env r else r"
  note D = memory_invD [OF inv]
  have f: "mr_id (?f x) = mr_id x" "mr_project (?f x) = mr_project x" "mr_dedupe_key (?f x) = mr_dedupe_key x" "mr_created_at (?f x) = mr_created_at x" for x
    by (simp_all add: retracted_row_def)
  have r: "r \<in> set (md_memories m)" "mr_id r = mid" using find_memory_Some [OF forgotten(1)] by auto
  have only: "x \<in> set (md_memories m) \<Longrightarrow> mr_id x = mid \<Longrightarrow> x = r" for x using D(7) r by blast
  have mem: "md_memories m' = map ?f (md_memories m)" "md_fts m' = filter (\<lambda>f. fst f \<noteq> mid) (md_fts m)" by (simp_all add: forgotten(5))
  have ok: "row_ok parse (?f x)" if "x \<in> set (md_memories m)" for x
    using D(5) [OF that] by (auto simp: row_ok_def retracted_row_def split: option.split)
  have left: "{x \<in> set (md_memories m'). mr_status x \<noteq> ''retracted''} = {x \<in> set (md_memories m). mr_status x \<noteq> ''retracted'' \<and> mr_id x \<noteq> mid}"
    using only forgotten(2) by (auto simp: mem retracted_row_def)
  have fts: "set (md_fts m') = fts_of ` {x \<in> set (md_memories m'). mr_status x \<noteq> ''retracted''}"
    unfolding left mem(2) using D(3) by (auto simp: fts_of_def)
  have "memory_inv parse m'"
    unfolding memory_inv_def
  proof (intro conjI ballI impI)
    show "distinct (map mr_id (md_memories m'))" using D(1) f(1) by (simp add: mem(1) comp_def)
    show "distinct (map fst (md_fts m'))" using D(2) by (simp add: mem(2) distinct_map_filter)
    show "journal_inv (md_sync m')" using forgotten(5,6) by simp
    show "row_ok parse x" if x: "x \<in> set (md_memories m')" for x
    proof -
      obtain u where "u \<in> set (md_memories m)" "x = ?f u" using x by (auto simp: mem(1))
      with ok [of u] show ?thesis by (simp only:)
    qed
    show "x = y" if x: "x \<in> set (md_memories m')" and y: "y \<in> set (md_memories m')"
      and k: "mr_dedupe_key x \<noteq> None \<and> mr_project x = mr_project y \<and> mr_dedupe_key x = mr_dedupe_key y" for x y
    proof -
      obtain u v where uv: "u \<in> set (md_memories m)" "v \<in> set (md_memories m)" "x = ?f u" "y = ?f v" using x y by (auto simp: mem(1))
      have "mr_dedupe_key u \<noteq> None" "mr_project u = mr_project v" "mr_dedupe_key u = mr_dedupe_key v"
        using k unfolding uv(3,4) f by blast+
      with D(6) uv have "u = v" by blast
      with uv show ?thesis by simp
    qed
  qed (rule fts)
  moreover have "\<exists>x' \<in> set (md_memories m'). row_life x x'" if "x \<in> set (md_memories m)" for x
    using that f by (intro bexI [of _ "?f x"]) (auto simp: row_life_def mem(1))
  ultimately show ?thesis by (simp add: memory_grows_def forgotten(5))
qed

lemma memory_step_keeps: "memory_inv parse m \<Longrightarrow> memory_step parse m m' \<Longrightarrow> memory_inv parse m' \<and> memory_grows m m'"
proof (erule memory_step.cases)
  fix env fresh m0 inp viewer owner axes m1 res
  assume "memory_inv parse m" "m = m0" "m' = m1" "sane parse env" "fresh \<notin> mr_id ` set (md_memories m0)"
    "remember_scoped_with_axes env fresh inp viewer owner axes m0 = (m1, res)"
  then show ?thesis using remember_scoped_step remember_keeps memory_grows_refl by metis
next
  fix n m0 m1 and out :: "(store_error, unit) result"
  assume "memory_inv parse m" "m = m0" "m' = m1" "configure_memory_limit n m0 = (m1, out)"
  then show ?thesis by (auto simp: configure_memory_limit_def memory_inv_def memory_grows_def row_life_def split: if_splits)
qed (use remember_keeps forget_keeps in blast)+

interpretation ms: stepwise memory_init "memory_step parse" "memory_inv parse" memory_grows for parse
proof
  show "memory_inv parse m" if "memory_init m" for m
    using that by (simp add: memory_init_def memory_inv_def journal_inv_def)
qed (use memory_step_keeps memory_grows_refl memory_grows_trans in blast)+

section \<open>Properties\<close>

text \<open>
  C33. The memory store stays consistent. In every state reachable from an empty store, and along all further
  writes, identifiers and the keys within a project are unique, the full-text table holds exactly the
  titles and contents of the memories that are not retracted, and a retracted memory has lost its
  content and provenance. No memory is ever lost or changes its identity, a superseded or retracted one
  never changes again, and a state with the same revision has the same memories. The import of
  synchronised entries (\<open>SyncEngine\<close>) writes the same tables without these operations and without
  raising the revision; it is not among the steps.
\<close>

theorem memory_store_consistent:
  assumes "reachable memory_init (memory_step parse) m" "(memory_step parse)\<^sup>*\<^sup>* m m'"
  shows "distinct (map mr_id (md_memories m)) \<and> distinct (map fst (md_fts m))
    \<and> set (md_fts m) = (\<lambda>r. (mr_id r, mr_title r, mr_content r)) ` {r \<in> set (md_memories m). mr_status r \<noteq> ''retracted''}
    \<and> (\<forall>r \<in> set (md_memories m). \<forall>s \<in> set (md_memories m). mr_dedupe_key r \<noteq> None \<and> mr_project r = mr_project s \<and> mr_dedupe_key r = mr_dedupe_key s \<longrightarrow> r = s)
    \<and> (\<forall>r \<in> set (md_memories m). (mr_status r = ''retracted'' \<longrightarrow> mr_content r = [] \<and> mr_provenance_json r = ''{}'')
        \<and> (\<exists>r' \<in> set (md_memories m'). mr_id r' = mr_id r \<and> mr_project r' = mr_project r \<and> mr_dedupe_key r' = mr_dedupe_key r
            \<and> (mr_status r \<noteq> ''active'' \<longrightarrow> r' = r)))
    \<and> md_revision m \<le> md_revision m' \<and> (md_revision m' = md_revision m \<longrightarrow> md_memories m' = md_memories m \<and> md_fts m' = md_fts m)"
proof -
  have inv: "memory_inv parse m" by (rule ms.always_inv [OF assms(1)])
  have grow: "memory_grows m m'" by (rule ms.always_grow [OF assms])
  note D = memory_invD [OF inv]
  have fts: "set (md_fts m) = (\<lambda>r. (mr_id r, mr_title r, mr_content r)) ` {r \<in> set (md_memories m). mr_status r \<noteq> ''retracted''}"
    using D(3) by (simp add: fts_of_def)
  have rows: "(mr_status r = ''retracted'' \<longrightarrow> mr_content r = [] \<and> mr_provenance_json r = ''{}'')
        \<and> (\<exists>r' \<in> set (md_memories m'). mr_id r' = mr_id r \<and> mr_project r' = mr_project r \<and> mr_dedupe_key r' = mr_dedupe_key r
            \<and> (mr_status r \<noteq> ''active'' \<longrightarrow> r' = r))" if r: "r \<in> set (md_memories m)" for r
  proof -
    obtain r' where "r' \<in> set (md_memories m')" "row_life r r'"
      using bspec [OF conjunct1 [OF grow [unfolded memory_grows_def]] r] by (rule bexE)
    then have "\<exists>r' \<in> set (md_memories m'). mr_id r' = mr_id r \<and> mr_project r' = mr_project r \<and> mr_dedupe_key r' = mr_dedupe_key r
        \<and> (mr_status r \<noteq> ''active'' \<longrightarrow> r' = r)" by (intro bexI [of _ r']) (simp_all add: row_life_def)
    with D(5) [OF r] show ?thesis by (simp add: row_ok_def)
  qed
  show ?thesis
  proof (intro conjI ballI)
    show "r \<in> set (md_memories m) \<Longrightarrow> mr_status r = ''retracted'' \<longrightarrow> mr_content r = [] \<and> mr_provenance_json r = ''{}''" for r using rows by blast
    show "md_revision m \<le> md_revision m'" "md_revision m' = md_revision m \<longrightarrow> md_memories m' = md_memories m \<and> md_fts m' = md_fts m"
      using grow by (simp_all add: memory_grows_def)
  qed (use D(1,2,6) fts rows in blast)+
qed

text \<open>
  C34. A forgotten memory stays erased. When a memory is forgotten its content and provenance are gone from its
  row and from the full-text table, the journal describes the erased row, so that the erasure travels to
  other devices, and in no later state do they come back, whatever is remembered or forgotten in between
  (short of the import of another device's later edit).
\<close>

theorem forgotten_stays_erased:
  assumes "reachable memory_init (memory_step parse) m" "sane parse env"
    and "forget_memory_scoped env mid viewer owner m = (m1, Inr True)" "(memory_step parse)\<^sup>*\<^sup>* m1 m2"
  shows "(\<exists>r \<in> set (md_memories m2). mr_id r = mid \<and> mr_status r = ''retracted'' \<and> mr_content r = [] \<and> mr_provenance_json r = ''{}'')
    \<and> mid \<notin> fst ` set (md_fts m2) \<and> journalled_memory env mid m1"
proof -
  have inv: "memory_inv parse m" by (rule ms.always_inv [OF assms(1)])
  note K = forget_keeps [OF inv assms(3)]
  have inv2: "memory_inv parse m2" by (rule ms.steps_inv [OF assms(4) conjunct1 [OF K]])
  have grow: "memory_grows m1 m2" by (rule ms.steps_grow [OF assms(4) conjunct1 [OF K]])
  from assms(3) inv show ?thesis
  proof (cases rule: forget_cases)
    case (forgotten r st)
    have "r \<in> set (md_memories m)" "mr_id r = mid" using find_memory_Some [OF forgotten(1)] by auto
    then have "retracted_row env r \<in> set (md_memories m1)" using forgotten(2,5) by force
    then obtain x where x: "x \<in> set (md_memories m2)" "row_life (retracted_row env r) x"
      using grow unfolding memory_grows_def by blast
    then have x': "x = retracted_row env r" by (simp add: row_life_def retracted_row_def)
    have "mr_id x = mid" "mr_status x = ''retracted''" using \<open>mr_id r = mid\<close> by (simp_all add: x' retracted_row_def)
    moreover from this have "mid \<notin> fst ` set (md_fts m2)"
    proof -
      have "mr_status y = ''retracted''" if "y \<in> set (md_memories m2)" "mr_id y = mid" for y
        using memory_invD(7) [OF inv2 that(1) x(1)] that(2) \<open>mr_id x = mid\<close> \<open>mr_status x = ''retracted''\<close> by simp
      then show ?thesis using memory_invD(3) [OF inv2] by (auto simp: fts_of_def)
    qed
    moreover have "mr_content x = []" "mr_provenance_json x = ''{}''" by (simp_all add: x' retracted_row_def)
    ultimately show ?thesis using x(1) forgotten(7) by blast
  qed simp
qed

text \<open>
  C35. Remembering respects visibility. Whatever call is made, the only memories it changes are the one with the
  input's key and the one it supersedes; both are active memories of the same project that the principal
  may change: the owner, or a principal sharing a label with the memory, and never the owner's
  global memories. A memory in the global scope is written by the owner only, and a refused
  call changes nothing.
\<close>

theorem remember_respects_visibility:
  assumes "reachable memory_init (memory_step parse) m" "sane parse env" "fresh \<notin> mr_id ` set (md_memories m)"
    and run: "remember_scoped_with_axes env fresh inp viewer owner axes m = (m', res)"
  shows "(\<forall>r \<in> set (md_memories m). r \<notin> set (md_memories m') \<longrightarrow>
      mr_status r = ''active'' \<and> mr_project r = in_project inp \<and> (owner \<or> mr_scope r \<noteq> ''owner-global'')
      \<and> (owner \<or> (\<exists>labels. parse (mr_acl_json r) = Some labels \<and> acl_allows labels viewer))
      \<and> (in_supersedes_id inp = Some (mr_id r) \<or> in_dedupe_key inp \<noteq> None \<and> in_dedupe_key inp = mr_dedupe_key r))
    \<and> (\<forall>r \<in> set (md_memories m'). r \<notin> set (md_memories m) \<and> mr_scope r = ''owner-global'' \<and> mr_status r = ''active'' \<longrightarrow> owner)
    \<and> (remember_in_transaction env fresh inp viewer owner axes m = Inl e \<longrightarrow> m' = m)"
proof -
  have inv: "memory_inv parse m" by (rule ms.always_inv [OF assms(1)])
  have parse: "me_labels env = parse" using assms(2) by (simp add: sane_def)
  have scope: "axes_scope axes = SWorkspace \<or> (axes_scope axes = SOwnerGlobal \<and> owner)" if "m' \<noteq> m"
    using run that by (auto simp: remember_scoped_with_axes_def split: if_splits)
  have keep: "remember_in_transaction env fresh inp viewer owner axes m = Inl e \<longrightarrow> m' = m"
    using run by (auto simp: remember_scoped_with_axes_def split: if_splits)
  show ?thesis
  proof (cases "m' = m")
    case False
    then obtain mid where ok: "remember_in_transaction env fresh inp viewer owner axes m = Inr (m', mid)"
      using remember_scoped_step [OF run] by blast
    from ok show ?thesis
    proof (cases rule: remember_cases)
      case same
      with False show ?thesis by simp
    next
      case (written k acl pj vu source_id)
      let ?r = "new_memory_row env mid inp axes source_id acl pj vu"
      note C = check_write_Inr [OF written(4)]
      note W = write_memory_spec(4) [OF inv written(5) new_row_ok [OF assms(2) written(1)], simplified new_row_simps, OF refl conjunct1 [OF conjunct2 [OF C]]]
      have "mr_status r = ''active'' \<and> mr_project r = in_project inp \<and> may_change env viewer owner r
          \<and> (in_supersedes_id inp = Some (mr_id r) \<or> in_dedupe_key inp \<noteq> None \<and> in_dedupe_key inp = mr_dedupe_key r)"
        if r: "r \<in> set (md_memories m)" "r \<notin> set (md_memories m')" for r
      proof (cases "mr_id r = mid")
        case True
        with r(1) assms(3) obtain x where x: "find_dedupe (in_project inp) (in_dedupe_key inp) m = Some x" "mid = mr_id x"
          "may_change env viewer owner x" "mr_status x = ''active''" using written(2) by (auto split: option.splits)
        with True have "x = r" using find_dedupe_Some [OF x(1)] memory_invD(7) [OF inv r(1)] by auto
        with x find_dedupe_Some [OF x(1)] show ?thesis by auto
      next
        case False
        then have "after_supersede env inp r \<in> set (md_memories m')" using W r(1) by auto
        with r(2) have t: "in_supersedes_id inp = Some (mr_id r)" "mr_status r = ''active''" by (auto simp: after_supersede_def split: if_splits)
        have "supersession_target inp m = Some r"
        proof -
          have "find (\<lambda>x. mr_id x = mr_id r \<and> mr_status x = ''active'') (md_memories m) = find (\<lambda>x. mr_id x = mr_id r) (md_memories m)"
            using memory_invD(7) [OF inv r(1)] t(2) by (intro find_ext) metis
          with find_memory_in [OF memory_invD(1) [OF inv] r(1)] t(1) show ?thesis by (simp add: supersession_target_def find_memory_def)
        qed
        with C t show ?thesis by simp
      qed
      moreover have "owner" if "r \<in> set (md_memories m')" "r \<notin> set (md_memories m)" "mr_scope r = ''owner-global''" "mr_status r = ''active''" for r
      proof -
        have "r = stamped ?r m" using that W by (auto simp: after_supersede_def superseded_row_def split: if_splits)
        then have "mr_scope r = scope_as_str (axes_scope axes)" by (simp add: stamped_def new_memory_row_def split: option.split)
        with that scope [OF False] show ?thesis by auto
      qed
      ultimately show ?thesis using keep by (auto simp: may_change_def parse)
    qed
  qed (use keep in simp)
qed

text \<open>
  Retries are free. After a successful call with a key, the same call again, at any later time and before
  other writes, with labels the principal has, returns the same memory and changes nothing: not
  the row, its dates, the journal or the revision, so that cached answers stay valid.
\<close>

theorem remember_retry_is_noop:
  assumes "reachable memory_init (memory_step parse) m" "sane parse env" "sane parse later" "me_text later = me_text env"
    and "fresh \<notin> mr_id ` set (md_memories m)" "remember_in_transaction env fresh inp viewer owner axes m = Inr (m', mid)"
    and "in_dedupe_key inp \<noteq> None" "owner \<or> axes_scope axes \<noteq> SOwnerGlobal"
    and "validate_input (me_text env) inp = Inr (k, acl, pj, vu)" "owner \<or> acl_allows acl viewer"
  shows "remember_in_transaction later fresh' inp viewer owner axes m' = Inr (m', mid)"
proof -
  have inv: "memory_inv parse m" by (rule ms.always_inv [OF assms(1)])
  note K = remember_keeps [OF inv assms(2,5,6)]
  have inv': "memory_inv parse m'" using K by simp
  let ?sid = "if trim (in_source_id inp) = [] then mid else in_source_id inp"
  have "\<exists>r \<in> set (md_memories m'). mr_id r = mid \<and> me_labels env (mr_acl_json r) = Some acl \<and> same_memory r acl inp axes ?sid acl pj vu
      \<and> mr_dedupe_key r = in_dedupe_key inp"
    using assms(6)
  proof (cases rule: remember_cases)
    case (same r labels k' acl' pj' vu')
    have eq: "acl' = acl" "pj' = pj" "vu' = vu" using same(4) assms(9) by auto
    with same have "labels = acl" by (simp add: same_memory_def)
    with same eq find_dedupe_Some [OF same(2)] show ?thesis by (intro bexI [of _ r]) auto
  next
    case (written k' acl' pj' vu' source_id)
    let ?r = "new_memory_row env mid inp axes source_id acl pj vu"
    have eq: "acl' = acl" "pj' = pj" "vu' = vu" using written(1) assms(9) by auto
    note W = write_memory_spec(4) [OF inv written(5) new_row_ok [OF assms(2) written(1)], simplified new_row_simps, OF refl
        conjunct1 [OF conjunct2 [OF check_write_Inr [OF written(4)]]], unfolded eq]
    have unit: "in_unit (in_confidence inp)" "in_unit (in_importance inp)" using validate_units [OF assms(9)] by simp_all
    have "same_memory (stamped ?r m) acl inp axes ?sid acl pj vu"
      using unit written(3) by (auto simp: same_memory_def stamped_def new_memory_row_def in_unit_iff split: option.split)
    moreover have "me_labels env (mr_acl_json (stamped ?r m)) = Some acl" using assms(2) by (simp add: sane_def new_memory_row_def)
    ultimately show ?thesis using W by (intro bexI [of _ "stamped ?r m"]) simp_all
  qed
  then obtain r where r: "r \<in> set (md_memories m')" "mr_id r = mid" "me_labels env (mr_acl_json r) = Some acl"
    "same_memory r acl inp axes ?sid acl pj vu" "mr_dedupe_key r = in_dedupe_key inp" by blast
  have p: "mr_project r = in_project inp" "mr_status r = ''active''" "mr_scope r = scope_as_str (axes_scope axes)" using r(4) by (simp_all add: same_memory_def)
  obtain key where key: "in_dedupe_key inp = Some key" using assms(7) by blast
  have "find_dedupe (in_project inp) (in_dedupe_key inp) m' = Some r"
  proof -
    obtain x where x: "find_dedupe (in_project inp) (in_dedupe_key inp) m' = Some x"
      using r(1,5) p(1) key by (cases "find_dedupe (in_project inp) (in_dedupe_key inp) m'") (auto simp: find_dedupe_def find_None_iff)
    with find_dedupe_Some [OF x] memory_invD(6) [OF inv' r(1), of x] r(5) p(1) key show ?thesis by simp
  qed
  moreover have "me_labels later = me_labels env" using assms(2,3) by (simp add: sane_def)
  moreover have "check_existing inp viewer owner r acl = Inr ()"
  proof -
    have "scope_as_str s = ''owner-global'' \<longleftrightarrow> s = SOwnerGlobal" for s by (cases s) simp_all
    then show ?thesis using p assms(8,10) by (auto simp: check_existing_Inr)
  qed
  ultimately show ?thesis
    using r assms(9) by (cases "trim (in_source_id inp) = []")
      (simp_all add: remember_in_transaction_def assms(4) optional_labels_def labels_of_def ok_or_def Let_def)
qed


text \<open>
  The supersession of a memory is not journalled. The row of the superseded memory changes its status
  and its expiry, but no journal entry of it is written, so an export to another device has nothing
  of it, and the other device keeps the old memory as active beside its replacement.
\<close>

theorem supersession_is_not_journalled:
  assumes "reachable memory_init (memory_step parse) m" "sane parse env" "fresh \<notin> mr_id ` set (md_memories m)"
    and "remember_in_transaction env fresh inp viewer owner axes m = Inr (m', mid)" "m' \<noteq> m" "in_supersedes_id inp = Some old"
  shows "(\<exists>r \<in> set (md_memories m). mr_id r = old \<and> mr_status r = ''active'' \<and> superseded_row env r \<in> set (md_memories m'))
    \<and> latest ''memory'' old (md_sync m') = latest ''memory'' old (md_sync m)"
proof -
  have inv: "memory_inv parse m" by (rule ms.always_inv [OF assms(1)])
  from assms(4) show ?thesis
  proof (cases rule: remember_cases)
    case same
    with assms(5) show ?thesis by simp
  next
    case (written k acl pj vu source_id)
    note C = check_write_Inr [OF written(4)]
    note W = write_memory_spec [OF inv written(5) new_row_ok [OF assms(2) written(1)], simplified new_row_simps, OF refl conjunct1 [OF conjunct2 [OF C]]]
    have "old \<noteq> mid" using C assms(6) by auto
    obtain m1 where "supersede env inp m = Inr m1" using written(5) by (auto simp: write_memory_def result_simps)
    then obtain r where r: "r \<in> set (md_memories m)" "mr_id r = old" "mr_status r = ''active''" using supersede_spec assms(6) by blast
    then have "after_supersede env inp r = superseded_row env r" using assms(6) by (simp add: after_supersede_def)
    with r \<open>old \<noteq> mid\<close> have "superseded_row env r \<in> set (md_memories m')" unfolding W(4) by auto
    with r W(6) \<open>old \<noteq> mid\<close> show ?thesis by auto
  qed
qed

section \<open>A concrete store\<close>

text \<open>Labels printed with an escape before every character, and read back.\<close>

definition ex_print :: "string list \<Rightarrow> string" where
  "ex_print labels = concat (map (\<lambda>s. concat (map (\<lambda>c. [CHR ''x'', c]) s) @ ''.'') labels)"

fun ex_read :: "string \<Rightarrow> string \<Rightarrow> string list" where
  "ex_read acc [] = []"
| "ex_read acc [k] = [acc]"
| "ex_read acc (k # c # rest) = (if k = CHR ''x'' then ex_read (acc @ [c]) rest else acc # ex_read [] (c # rest))"

lemma ex_read_label: "ex_read acc (concat (map (\<lambda>c. [CHR ''x'', c]) s) @ CHR ''.'' # rest) = (acc @ s) # ex_read [] rest"
proof (induction s arbitrary: acc)
  case Nil
  then show ?case by (cases rest) simp_all
qed simp

lemma ex_read_print: "ex_read [] (ex_print labels) = labels"
  by (induction labels) (simp_all add: ex_print_def ex_read_label)

definition ex_memory_env :: memory_env where
  "ex_memory_env = \<lparr>me_now = ''t'', me_text = \<lparr>env_parse = \<lambda>d. Some (int (length d)), env_render = \<lambda>_. ''r'', env_json = \<lambda>_. ''{}''\<rparr>,
     me_labels = \<lambda>s. Some (ex_read [] s), me_labels_json = ex_print, me_read_json = \<lambda>_. Some (JObject []),
     me_julian = \<lambda>d. Some (int (length d)), me_sync = ex_sync_env\<rparr>"

abbreviation ex_parse :: "string \<Rightarrow> string list option" where
  "ex_parse \<equiv> me_labels ex_memory_env"

lemma ex_memory_sane: "sane ex_parse ex_memory_env"
  by (simp add: sane_def ex_memory_env_def ex_read_print)

definition ex_memory_db :: memory_db where
  "ex_memory_db = \<lparr>md_memories = [], md_fts = [], md_revision = 0, md_sync = ex_sync ''a'', md_max_active = 10\<rparr>"

definition ex_memory :: "string option \<Rightarrow> string option \<Rightarrow> memory_input" where
  "ex_memory key old = \<lparr>in_kind = ''semantic'', in_project = ''w'', in_title = ''hi'', in_content = ''text'', in_source = ''s'', in_source_id = [],
     in_dedupe_key = key, in_confidence = Fin 1, in_importance = Fin 1, in_acl = [], in_provenance = JNull,
     in_supersedes_id = old, in_valid_until = None\<rparr>"

definition ex_axes :: memory_axes where
  "ex_axes = \<lparr>axes_content = CSemantic, axes_tier = TierDurable, axes_scope = SWorkspace\<rparr>"

lemma ex_memory_simps [simp]: "in_project (ex_memory key old) = ''w''" "in_source_id (ex_memory key old) = []"
  "in_dedupe_key (ex_memory key old) = key" "in_supersedes_id (ex_memory key old) = old"
  by (simp_all add: ex_memory_def)

lemma ex_memory_reachable: "reachable memory_init (memory_step parse) ex_memory_db"
  by (rule reachable_start) (simp add: memory_init_def ex_memory_db_def ex_sync_def)

lemma ex_memory_valid:
  assumes "key \<in> {None, Some ''k''}" "old \<in> {None, Some ''m1''}"
  shows "validate_input (me_text ex_memory_env) (ex_memory key old) = Inr (KSemantic, [''w''], ''{}'', None)"
proof -
  have t: "trim ''w'' = ''w''" "trim ''hi'' = ''hi''" "trim ''text'' = ''text''" "trim ''s'' = ''s''" "trim ''k'' = ''k''" "trim ''m1'' = ''m1''" "trim ''semantic'' = ''semantic''"
    by (rule trim_plain; simp add: byte_def)+
  show ?thesis using assms
    by (elim insertE emptyE)
      (simp_all add: validate_input_def ex_memory_def ex_memory_env_def kind_parse_def t validate_text_def any_control_def byte_def is_control_def
        memory_limits normalize_acl_def sort_dedup_def ensure_def in_unit_def is_finite_def to_ascii_lowercase_def lower_byte_def)
qed

definition ex_row_of :: "string \<Rightarrow> string option \<Rightarrow> string option \<Rightarrow> memory_row" where
  "ex_row_of mid key old = new_memory_row ex_memory_env mid (ex_memory key old) ex_axes mid [''w''] ''{}'' None"

text \<open>A first memory, and a second one that supersedes it.\<close>

lemma ex_first:
  "\<exists>m. remember_in_transaction ex_memory_env ''m1'' (ex_memory (Some ''k'') None) [''w''] False ex_axes ex_memory_db = Inr (m, ''m1'')
     \<and> md_memories m = [ex_row_of ''m1'' (Some ''k'') None] \<and> md_max_active m = 10 \<and> md_revision m = 1"
proof -
  let ?r = "ex_row_of ''m1'' (Some ''k'') None" and ?inp = "ex_memory (Some ''k'') None"
  let ?m = "index_memory ?r (ex_memory_db\<lparr>md_memories := [?r]\<rparr>)"
  have "journal_inv (md_sync ?m)" by (simp add: journal_inv_def index_memory_def ex_memory_db_def ex_sync_def)
  then obtain st where st: "journal_memory ex_memory_env ''m1'' ?m = Inr (?m\<lparr>md_sync := st\<rparr>)" using journal_memory_spec by blast
  have w: "write_memory ex_memory_env ?inp ?r ex_memory_db = Inr (bump_memory_revision (?m\<lparr>md_sync := st\<rparr>))"
    using st by (simp add: write_memory_def supersede_def put_memory_def ex_memory_db_def find_memory_def ensure_def ex_row_of_def)
  have "remember_in_transaction ex_memory_env ''m1'' ?inp [''w''] False ex_axes ex_memory_db = Inr (bump_memory_revision (?m\<lparr>md_sync := st\<rparr>), ''m1'')"
    using w ex_memory_valid [of "Some ''k''" None]
    by (simp add: remember_in_transaction_def find_dedupe_def ex_memory_db_def optional_labels_def check_write_def
        supersession_target_def ensure_def active_count_def ex_row_of_def Let_def)
  then show ?thesis by (auto simp: bump_memory_revision_def index_memory_def ex_memory_db_def)
qed

definition ex_first_db :: memory_db where
  "ex_first_db = fst (remember_scoped_with_axes ex_memory_env ''m1'' (ex_memory (Some ''k'') None) [''w''] False ex_axes ex_memory_db)"

lemma ex_first_spec: "remember_in_transaction ex_memory_env ''m1'' (ex_memory (Some ''k'') None) [''w''] False ex_axes ex_memory_db = Inr (ex_first_db, ''m1'')"
  "md_memories ex_first_db = [ex_row_of ''m1'' (Some ''k'') None]" "md_max_active ex_first_db = 10" "reachable memory_init (memory_step ex_parse) ex_first_db"
proof -
  obtain m where m: "remember_in_transaction ex_memory_env ''m1'' (ex_memory (Some ''k'') None) [''w''] False ex_axes ex_memory_db = Inr (m, ''m1'')"
    "md_memories m = [ex_row_of ''m1'' (Some ''k'') None]" "md_max_active m = 10" using ex_first by blast
  have eq: "ex_first_db = m" by (simp add: ex_first_db_def remember_scoped_with_axes_def m(1) ex_axes_def [symmetric]) (simp add: ex_axes_def)
  show "remember_in_transaction ex_memory_env ''m1'' (ex_memory (Some ''k'') None) [''w''] False ex_axes ex_memory_db = Inr (ex_first_db, ''m1'')"
    "md_memories ex_first_db = [ex_row_of ''m1'' (Some ''k'') None]" "md_max_active ex_first_db = 10" by (simp_all add: eq m)
  show "reachable memory_init (memory_step ex_parse) ex_first_db"
    unfolding eq by (rule reachable_step [OF ex_memory_reachable step_transaction [OF ex_memory_sane _ m(1)]]) (simp add: ex_memory_db_def)
qed

theorem memory_store_consistent_witness:
  "md_memories ex_first_db \<noteq> [] \<and> set (md_fts ex_first_db) = {(''m1'', ''hi'', ''text'')}"
proof -
  have "set (md_fts ex_first_db) = (\<lambda>r. (mr_id r, mr_title r, mr_content r)) ` {r \<in> set (md_memories ex_first_db). mr_status r \<noteq> ''retracted''}"
    using memory_store_consistent [OF ex_first_spec(4) rtranclp.rtrancl_refl] by blast
  moreover have "{r \<in> set (md_memories ex_first_db). mr_status r \<noteq> ''retracted''} = {ex_row_of ''m1'' (Some ''k'') None}"
    by (auto simp: ex_first_spec(2) ex_row_of_def)
  ultimately show ?thesis by (simp add: ex_first_spec(2)) (simp add: ex_row_of_def new_memory_row_def ex_memory_def)
qed

theorem forgotten_stays_erased_witness:
  "(case forget_memory_scoped ex_memory_env ''m1'' [''w''] False ex_first_db of (m, r) \<Rightarrow> r = Inr True \<and> ''m1'' \<notin> fst ` set (md_fts m))"
proof -
  obtain m res where run: "forget_memory_scoped ex_memory_env ''m1'' [''w''] False ex_first_db = (m, res)" by fastforce
  have "memory_inv ex_parse ex_first_db" by (rule ms.always_inv [OF ex_first_spec(4)])
  have row: "find (\<lambda>r. mr_id r = ''m1'' \<and> mr_status r = ''active'') (md_memories ex_first_db) = Some (ex_row_of ''m1'' (Some ''k'') None)"
    by (simp add: ex_first_spec(2) ex_row_of_def)
  have acl: "labels_of ex_memory_env (ex_row_of ''m1'' (Some ''k'') None) = Inr [''w'']" "mr_scope (ex_row_of ''m1'' (Some ''k'') None) = ''workspace''"
    by (simp_all add: labels_of_def ex_row_of_def new_memory_row_def ok_or_def ex_axes_def ex_memory_env_def ex_read_print)
  let ?m1 = "ex_first_db\<lparr>md_memories := map (\<lambda>r. if mr_id r = ''m1'' \<and> mr_status r = ''active'' then retracted_row ex_memory_env r else r) (md_memories ex_first_db),
      md_fts := filter (\<lambda>f. fst f \<noteq> ''m1'') (md_fts ex_first_db)\<rparr>"
  obtain st where "journal_memory ex_memory_env ''m1'' ?m1 = Inr (?m1\<lparr>md_sync := st\<rparr>)"
    using journal_memory_spec [of ?m1 ex_memory_env "''m1''"] memory_invD(4) [OF \<open>memory_inv ex_parse ex_first_db\<close>] by auto
  then have "forget_memory_scoped ex_memory_env ''m1'' [''w''] False ex_first_db = (bump_memory_revision (?m1\<lparr>md_sync := st\<rparr>), Inr True)"
    by (simp add: forget_memory_scoped_def row acl ensure_def acl_allows_def)
  then have "res = Inr True" using run by simp
  with forgotten_stays_erased [OF ex_first_spec(4) ex_memory_sane run [unfolded \<open>res = Inr True\<close>] rtranclp.rtrancl_refl] run
  show ?thesis by simp
qed

lemma ex_acl: "me_labels ex_memory_env (mr_acl_json (ex_row_of mid key old)) = Some [''w'']"
  by (simp add: ex_row_of_def new_memory_row_def ex_memory_env_def ex_read_print)

text \<open>The second memory supersedes the first.\<close>

lemma ex_second: "\<exists>m. remember_in_transaction ex_memory_env ''m2'' (ex_memory None (Some ''m1'')) [''w''] False ex_axes ex_first_db = Inr (m, ''m2'')
    \<and> m \<noteq> ex_first_db"
proof -
  let ?inp = "ex_memory None (Some ''m1'')" and ?old = "ex_row_of ''m1'' (Some ''k'') None" and ?new = "ex_row_of ''m2'' None (Some ''m1'')"
  have inv: "memory_inv ex_parse ex_first_db" by (rule ms.always_inv [OF ex_first_spec(4)])
  have old: "mr_id ?old = ''m1''" "mr_status ?old = ''active''" "mr_project ?old = ''w''" "mr_scope ?old = ''workspace''" "mr_dedupe_key ?old = Some ''k''"
    by (simp_all add: ex_row_of_def new_memory_row_def ex_axes_def)
  have new: "mr_id ?new = ''m2''" "mr_dedupe_key ?new = None" by (simp_all add: ex_row_of_def)
  let ?m1 = "ex_first_db\<lparr>md_memories := [superseded_row ex_memory_env ?old, ?new]\<rparr>"
  have "journal_inv (md_sync (index_memory ?new ?m1))" using memory_invD(4) [OF inv] by (simp add: index_memory_def)
  then obtain st where st: "journal_memory ex_memory_env ''m2'' (index_memory ?new ?m1) = Inr ((index_memory ?new ?m1)\<lparr>md_sync := st\<rparr>)"
    using journal_memory_spec by blast
  have "supersede ex_memory_env ?inp ex_first_db = Inr (ex_first_db\<lparr>md_memories := [superseded_row ex_memory_env ?old]\<rparr>)"
    by (simp add: supersede_def ex_first_spec(2) old ensure_def superseded_row_def)
  moreover have "put_memory ?new (ex_first_db\<lparr>md_memories := [superseded_row ex_memory_env ?old]\<rparr>) = Inr ?m1"
    by (simp add: put_memory_def find_memory_def old new ensure_def superseded_row_def)
  ultimately have "write_memory ex_memory_env ?inp ?new ex_first_db = Inr (bump_memory_revision ((index_memory ?new ?m1)\<lparr>md_sync := st\<rparr>))"
    using st by (simp add: write_memory_def new)
  moreover have "check_write ex_memory_env ?inp [''w''] False None ''m2'' ex_first_db = Inr ()"
    by (simp add: check_write_def supersession_target_def ex_first_spec(2,3) old optional_labels_def labels_of_def ok_or_def ex_acl check_target_def
        ensure_def acl_allows_def active_count_def Let_def)
  ultimately have "remember_in_transaction ex_memory_env ''m2'' ?inp [''w''] False ex_axes ex_first_db
      = Inr (bump_memory_revision ((index_memory ?new ?m1)\<lparr>md_sync := st\<rparr>), ''m2'')"
    using ex_memory_valid [of None "Some ''m1''"] by (simp add: remember_in_transaction_def find_dedupe_def optional_labels_def ex_row_of_def Let_def)
  moreover have "md_memories (bump_memory_revision ((index_memory ?new ?m1)\<lparr>md_sync := st\<rparr>)) \<noteq> md_memories ex_first_db"
    by (simp add: bump_memory_revision_def index_memory_def ex_first_spec(2))
  ultimately show ?thesis by metis
qed

definition ex_second_db :: memory_db where
  "ex_second_db = fst (remember_scoped_with_axes ex_memory_env ''m2'' (ex_memory None (Some ''m1'')) [''w''] False ex_axes ex_first_db)"

lemma ex_second_spec: "remember_in_transaction ex_memory_env ''m2'' (ex_memory None (Some ''m1'')) [''w''] False ex_axes ex_first_db = Inr (ex_second_db, ''m2'')"
  "ex_second_db \<noteq> ex_first_db" "''m2'' \<notin> mr_id ` set (md_memories ex_first_db)"
proof -
  obtain m where m: "remember_in_transaction ex_memory_env ''m2'' (ex_memory None (Some ''m1'')) [''w''] False ex_axes ex_first_db = Inr (m, ''m2'')"
    "m \<noteq> ex_first_db" using ex_second by blast
  have "ex_second_db = m" by (simp add: ex_second_db_def remember_scoped_with_axes_def m(1) ex_axes_def [symmetric]) (simp add: ex_axes_def)
  with m show "remember_in_transaction ex_memory_env ''m2'' (ex_memory None (Some ''m1'')) [''w''] False ex_axes ex_first_db = Inr (ex_second_db, ''m2'')"
    "ex_second_db \<noteq> ex_first_db" by simp_all
  show "''m2'' \<notin> mr_id ` set (md_memories ex_first_db)" by (simp add: ex_first_spec(2) ex_row_of_def)
qed

theorem supersession_is_not_journalled_witness:
  "superseded_row ex_memory_env (ex_row_of ''m1'' (Some ''k'') None) \<in> set (md_memories ex_second_db)
   \<and> latest ''memory'' ''m1'' (md_sync ex_second_db) = latest ''memory'' ''m1'' (md_sync ex_first_db)"
  using supersession_is_not_journalled [OF ex_first_spec(4) ex_memory_sane ex_second_spec(3,1,2), of "''m1''"]
  by (simp add: ex_first_spec(2))

theorem remember_respects_visibility_witness:
  "(case remember_scoped_with_axes ex_memory_env ''m2'' (ex_memory None (Some ''m1'')) [''w''] False ex_axes ex_first_db of (m, r) \<Rightarrow>
      ex_row_of ''m1'' (Some ''k'') None \<notin> set (md_memories m)
      \<and> in_supersedes_id (ex_memory None (Some ''m1'')) = Some (mr_id (ex_row_of ''m1'' (Some ''k'') None)))"
proof -
  obtain m r where run: "remember_scoped_with_axes ex_memory_env ''m2'' (ex_memory None (Some ''m1'')) [''w''] False ex_axes ex_first_db = (m, r)" by fastforce
  then have m: "m = ex_second_db" by (simp add: ex_second_db_def)
  have inv: "memory_inv ex_parse ex_second_db"
    using remember_keeps [OF ms.always_inv [OF ex_first_spec(4)] ex_memory_sane ex_second_spec(3,1)] by simp
  have "superseded_row ex_memory_env (ex_row_of ''m1'' (Some ''k'') None) \<in> set (md_memories ex_second_db)"
  proof -
    obtain m1 m2 where s: "supersede ex_memory_env (ex_memory None (Some ''m1'')) ex_first_db = Inr m1"
      and p: "put_memory (ex_row_of ''m2'' None (Some ''m1'')) m1 = Inr m2" and j: "\<exists>m3. journal_memory ex_memory_env ''m2'' (index_memory (ex_row_of ''m2'' None (Some ''m1'')) m2) = Inr m3 \<and> ex_second_db = bump_memory_revision m3"
      using ex_second_spec(1,2)
      by (cases rule: remember_cases [OF ex_second_spec(1)])
        (auto simp: write_memory_def bindE_Inr_iff ex_memory_valid ex_row_of_def)
    have "md_memories m1 = [superseded_row ex_memory_env (ex_row_of ''m1'' (Some ''k'') None)]"
      using conjunct1 [OF supersede_spec [OF s]] by (simp add: ex_first_spec(2) after_supersede_def) (simp add: ex_row_of_def)
    moreover obtain st where eq: "ex_second_db = bump_memory_revision ((index_memory (ex_row_of ''m2'' None (Some ''m1'')) m2)\<lparr>md_sync := st\<rparr>)"
      using j by (auto dest!: journal_memory_frame)
    have "md_memories ex_second_db = md_memories m2" unfolding eq by (simp add: bump_memory_revision_def index_memory_def)
    ultimately show ?thesis using put_memory_spec(2) [OF p] by (simp add: superseded_row_def ex_row_of_def)
  qed
  then have "ex_row_of ''m1'' (Some ''k'') None \<notin> set (md_memories ex_second_db)"
    using memory_invD(7) [OF inv] by (fastforce simp: superseded_row_def ex_row_of_def new_memory_row_def)
  with remember_respects_visibility [OF ex_first_spec(4) ex_memory_sane ex_second_spec(3) run] run
  show ?thesis by (simp add: m ex_first_spec(2))
qed

theorem remember_retry_is_noop_witness:
  "remember_in_transaction ex_memory_env ''m9'' (ex_memory (Some ''k'') None) [''w''] False ex_axes ex_first_db = Inr (ex_first_db, ''m1'')"
  by (rule remember_retry_is_noop [OF ex_memory_reachable ex_memory_sane ex_memory_sane refl _ ex_first_spec(1) _ _ ex_memory_valid])
    (simp_all add: ex_memory_db_def ex_axes_def acl_allows_def)


end
