(* ===== verification/CandidateStore.thy ===== *)
theory CandidateStore
  imports MemoryStore Consolidation AuditLog
begin

text \<open>
  Observation candidates in the store (\<open>crates/core/src/store.rs\<close>): proposals, their review, the persistent
  consolidation jobs and the promotion of a candidate to a memory. A row of the table
  \<open>memory_candidates\<close> is the candidate it decodes to; the clock and fresh identifiers are parameters.
\<close>

section \<open>Tables\<close>

record job =
  jb_id :: string
  jb_candidate :: string
  jb_policy :: string
  jb_classification :: string
  jb_decision :: string
  jb_status :: string
  jb_priority :: nat
  jb_attempts :: nat
  jb_last_error :: "string option"
  jb_memory :: "string option"
  jb_reason :: "string option"
  jb_explanation :: "string option"
  jb_supporting :: "string option"
  jb_created_at :: string
  jb_updated_at :: string

record candidate_db =
  cd_memory :: memory_db
  cd_candidates :: "candidate list"
  cd_jobs :: "job list"
  cd_paused :: bool
  cd_audit :: "audit_event list"

text \<open>\<open>me_julian\<close> counts milliseconds, the instants of \<open>kv_cons\<close> nanoseconds; \<open>kv_date_ok\<close> is chrono's range.\<close>

record candidate_env =
  kv_memory :: memory_env
  kv_class :: class_env
  kv_cons :: cons_env
  kv_candidate_text :: text_env
  kv_ids_json :: "string list \<Rightarrow> string"
  kv_date_ok :: "int \<Rightarrow> bool"

datatype candidate_error =
    InvalidCandidate observation_error
  | InvalidAxes memory_error
  | InvalidPolicy policy_error
  | FromStore store_error
  | SensitiveCandidate
  | CandidateOwnerRequired
  | SessionScope
  | NoPrincipal
  | CandidateDenied
  | DifferentProposal
  | CandidateLimit
  | CandidateRate
  | CandidateKeyTaken
  | NoCandidate
  | NotPending
  | BadExpiry
  | CandidateExpired
  | ConsolidationPaused
  | QueueFull
  | JobKeyTaken
  | DateOverflow
  | NotClaimed
  | ChangedState
  | CandidateDisappeared

definition MAX_CANDIDATES_PER_PROJECT :: nat where "MAX_CANDIDATES_PER_PROJECT = 1000"
definition MAX_CANDIDATES_PER_PRINCIPAL_PER_HOUR :: nat where "MAX_CANDIDATES_PER_PRINCIPAL_PER_HOUR = 100"

definition kv_now :: "candidate_env \<Rightarrow> string" where
  "kv_now env = me_now (kv_memory env)"

definition memory_candidate :: "string \<Rightarrow> candidate_db \<Rightarrow> candidate option" where
  "memory_candidate cid d = find (\<lambda>c. cand_id c = cid) (cd_candidates d)"

text \<open>Events of the store itself; the log keeps ten thousand.\<close>

definition audit :: "candidate_env \<Rightarrow> string \<Rightarrow> string \<Rightarrow> string option \<Rightarrow> string option \<Rightarrow> string \<Rightarrow> nat option \<Rightarrow> candidate_db \<Rightarrow> candidate_db" where
  "audit env who action project source outcome n d =
     d\<lparr>cd_audit := fst (record_audit (kv_now env) who action project source outcome n 0 10000 (cd_audit d))\<rparr>"

definition update_jobs :: "(job \<Rightarrow> bool) \<Rightarrow> (job \<Rightarrow> job) \<Rightarrow> candidate_db \<Rightarrow> candidate_db" where
  "update_jobs p f d = d\<lparr>cd_jobs := map (\<lambda>j. if p j then f j else j) (cd_jobs d)\<rparr>"

definition update_candidates :: "(candidate \<Rightarrow> bool) \<Rightarrow> (candidate \<Rightarrow> candidate) \<Rightarrow> candidate_db \<Rightarrow> candidate_db" where
  "update_candidates p f d = d\<lparr>cd_candidates := map (\<lambda>c. if p c then f c else c) (cd_candidates d)\<rparr>"

definition open_job :: "job \<Rightarrow> bool" where
  "open_job j \<longleftrightarrow> jb_status j \<in> set [''queued'', ''running'', ''retry'', ''paused'']"

definition closed_job :: "job \<Rightarrow> bool" where
  "closed_job j \<longleftrightarrow> jb_status j \<in> set [''complete'', ''cancelled'', ''dead-letter'']"

definition close_job :: "string \<Rightarrow> string \<Rightarrow> string \<Rightarrow> job \<Rightarrow> job" where
  "close_job status reason now j = j\<lparr>jb_status := status, jb_last_error := Some reason, jb_updated_at := now\<rparr>"

section \<open>Expiry and authorization\<close>

definition expired :: "candidate_env \<Rightarrow> candidate \<Rightarrow> bool" where
  "expired env c \<longleftrightarrow> cand_status c = ''pending'' \<and>
     (case me_julian (kv_memory env) (cand_expires_at c) of None \<Rightarrow> False
      | Some x \<Rightarrow> (case me_julian (kv_memory env) (kv_now env) of None \<Rightarrow> False | Some y \<Rightarrow> x \<le> y))"

definition expire_memory_candidates :: "candidate_env \<Rightarrow> candidate_db \<Rightarrow> candidate_db" where
  "expire_memory_candidates env d =
     (let gone = filter (expired env) (cd_candidates d);
          d1 = update_jobs (\<lambda>j. open_job j \<and> jb_candidate j \<in> set (map cand_id gone)) (close_job ''dead-letter'' ''candidate-expired'' (kv_now env)) d;
          d2 = update_candidates (expired env) (\<lambda>c. c\<lparr>cand_status := ''expired'', cand_updated_at := kv_now env\<rparr>) d1 in
      if gone = [] then d2
      else audit env ''system'' ''memory.candidate.expire'' None None ''succeeded'' (Some (length gone)) d2)"

text \<open>The guard of every operation on a stored candidate.\<close>

definition authorize_candidate :: "string \<Rightarrow> string list \<Rightarrow> bool \<Rightarrow> candidate \<Rightarrow> (candidate_error, memory_scope) result" where
  "authorize_candidate who labels owner c =
     bindE (ensure (owner \<or> acl_allows (cand_acl c) labels) CandidateDenied) (\<lambda>_.
     bindE (map_err InvalidAxes (scope_parse (cand_scope c))) (\<lambda>scope.
     bindE (ensure (scope \<noteq> SPrincipal \<or> cand_created_by c = who \<or> owner) CandidateDenied) (\<lambda>_.
     bindE (ensure (scope \<noteq> SOwnerGlobal \<or> owner) CandidateOwnerRequired) (\<lambda>_. Inr scope))))"

section \<open>Proposals\<close>

definition same_proposal :: "candidate \<Rightarrow> candidate_input \<Rightarrow> validated_candidate \<Rightarrow> bool" where
  "same_proposal c inp v \<longleftrightarrow> cand_status c = ''pending'' \<and> cand_observation_kind c = observation_as_str (vc_observation_kind v)
     \<and> cand_content_type c = content_as_str (vc_content_type v) \<and> cand_retention_tier c = tier_as_str (vc_retention_tier v)
     \<and> cand_scope c = scope_as_str (vc_scope v) \<and> cand_title c = ci_title inp \<and> cand_content c = ci_content inp
     \<and> cand_source c = ci_source inp \<and> cand_source_id c = ci_source_id inp
     \<and> float_le (cand_confidence c) (ci_confidence inp) \<and> float_le (ci_confidence inp) (cand_confidence c)
     \<and> float_le (cand_importance c) (ci_importance inp) \<and> float_le (ci_importance inp) (cand_importance c)
     \<and> cand_sensitivity c = sensitivity_as_str (vc_sensitivity v) \<and> cand_acl c = vc_acl v
     \<and> cand_provenance c = vc_provenance v \<and> cand_expires_at c = vc_expires_at v"

definition new_candidate :: "candidate_env \<Rightarrow> string \<Rightarrow> string \<Rightarrow> candidate_input \<Rightarrow> validated_candidate \<Rightarrow> candidate" where
  "new_candidate env cid who inp v =
     \<lparr>cand_id = cid, cand_observation_kind = observation_as_str (vc_observation_kind v), cand_content_type = content_as_str (vc_content_type v),
      cand_retention_tier = tier_as_str (vc_retention_tier v), cand_scope = scope_as_str (vc_scope v), cand_created_by = who,
      cand_project = ci_project inp, cand_title = ci_title inp, cand_content = ci_content inp, cand_source = ci_source inp,
      cand_source_id = ci_source_id inp, cand_dedupe_key = ci_dedupe_key inp, cand_confidence = ci_confidence inp,
      cand_importance = ci_importance inp, cand_sensitivity = sensitivity_as_str (vc_sensitivity v), cand_status = ''pending'',
      cand_acl = vc_acl v, cand_provenance = vc_provenance v, cand_expires_at = vc_expires_at v, cand_rejection_reason = None,
      cand_created_at = kv_now env, cand_updated_at = kv_now env\<rparr>"

definition same_key :: "string \<Rightarrow> string \<Rightarrow> string \<Rightarrow> string option \<Rightarrow> candidate \<Rightarrow> bool" where
  "same_key project scope who key c \<longleftrightarrow> key \<noteq> None \<and> cand_project c = project \<and> cand_scope c = scope \<and> cand_created_by c = who \<and> cand_dedupe_key c = key"

definition pending_in :: "candidate_env \<Rightarrow> string \<Rightarrow> candidate \<Rightarrow> bool" where
  "pending_in env project c \<longleftrightarrow> cand_project c = project \<and> cand_status c = ''pending'' \<and> julian_after (kv_memory env) (cand_expires_at c) (kv_now env)"

text \<open>\<open>julianday(created_at)>=julianday(now,'-1 hour')\<close>.\<close>

definition recent_by :: "candidate_env \<Rightarrow> string \<Rightarrow> candidate \<Rightarrow> bool" where
  "recent_by env who c \<longleftrightarrow> cand_created_by c = who \<and>
     (case me_julian (kv_memory env) (cand_created_at c) of None \<Rightarrow> False
      | Some x \<Rightarrow> (case me_julian (kv_memory env) (kv_now env) of None \<Rightarrow> False | Some y \<Rightarrow> y - 3600000 \<le> x))"

text \<open>The checks that precede the transaction.\<close>

definition check_proposal :: "candidate_env \<Rightarrow> candidate_input \<Rightarrow> string \<Rightarrow> string list \<Rightarrow> bool \<Rightarrow> (candidate_error, validated_candidate) result" where
  "check_proposal env inp who labels owner =
     bindE (map_err InvalidCandidate (validate_candidate (kv_candidate_text env) (ce_now (kv_cons env)) inp)) (\<lambda>v.
     bindE (ensure (vc_sensitivity v = Normal) SensitiveCandidate) (\<lambda>_.
     bindE (ensure (vc_scope v \<noteq> SOwnerGlobal \<or> owner) CandidateOwnerRequired) (\<lambda>_.
     bindE (ensure (vc_scope v \<noteq> SSession) SessionScope) (\<lambda>_.
     bindE (ensure (trim who \<noteq> []) NoPrincipal) (\<lambda>_.
     bindE (ensure (owner \<or> acl_allows (vc_acl v) labels) CandidateDenied) (\<lambda>_. Inr v))))))"

definition insert_candidate :: "candidate \<Rightarrow> candidate_db \<Rightarrow> (candidate_error, candidate_db) result" where
  "insert_candidate c d =
     bindE (ensure (\<not> list_ex (\<lambda>x. cand_id x = cand_id c \<or> same_key (cand_project c) (cand_scope c) (cand_created_by c) (cand_dedupe_key c) x)
        (cd_candidates d)) CandidateKeyTaken) (\<lambda>_.
     Inr (d\<lparr>cd_candidates := cd_candidates d @ [c]\<rparr>))"

definition propose_memory_candidate :: "candidate_env \<Rightarrow> string \<Rightarrow> candidate_input \<Rightarrow> string \<Rightarrow> string list \<Rightarrow> bool \<Rightarrow> candidate_db
    \<Rightarrow> candidate_db \<times> (candidate_error, candidate) result" where
  "propose_memory_candidate env fresh inp who labels owner d =
     (case check_proposal env inp who labels owner of Inl e \<Rightarrow> (d, Inl e)
      | Inr v \<Rightarrow>
        let d = expire_memory_candidates env d in
        (case find (same_key (ci_project inp) (scope_as_str (vc_scope v)) who (ci_dedupe_key inp)) (cd_candidates d) of
           Some c \<Rightarrow> (d, if same_proposal c inp v then Inr c else Inl DifferentProposal)
         | None \<Rightarrow>
           if \<not> length (filter (pending_in env (ci_project inp)) (cd_candidates d)) < MAX_CANDIDATES_PER_PROJECT then (d, Inl CandidateLimit)
           else if \<not> length (filter (recent_by env who) (cd_candidates d)) < MAX_CANDIDATES_PER_PRINCIPAL_PER_HOUR then (d, Inl CandidateRate)
           else (case insert_candidate (new_candidate env fresh who inp v) d of Inl e \<Rightarrow> (d, Inl e)
             | Inr d \<Rightarrow> (d, ok_or (memory_candidate fresh d) CandidateDisappeared))))"

section \<open>Classification\<close>

definition class_filter :: "candidate \<Rightarrow> memory_filter" where
  "class_filter c = \<lparr>mf_project = Some (cand_project c), mf_kind = None, mf_content_type = Some (cand_content_type c),
     mf_retention_tier = Some (cand_retention_tier c), mf_scope = Some (cand_scope c)\<rparr>"

definition classify_memory_candidate :: "candidate_env \<Rightarrow> string \<Rightarrow> string \<Rightarrow> string list \<Rightarrow> bool \<Rightarrow> candidate_db
    \<Rightarrow> candidate_db \<times> (candidate_error, classification) result" where
  "classify_memory_candidate env cid who labels owner d =
     (let d = expire_memory_candidates env d in
      (d, bindE (ok_or (memory_candidate cid d) NoCandidate) (\<lambda>c.
          bindE (ensure (owner \<or> acl_allows (cand_acl c) labels) CandidateDenied) (\<lambda>_.
          bindE (ensure (cand_sensitivity c = sensitivity_as_str Normal) SensitiveCandidate) (\<lambda>_.
          bindE (map_err InvalidAxes (scope_parse (cand_scope c))) (\<lambda>scope.
          bindE (ensure (scope \<noteq> SPrincipal \<or> cand_created_by c = who \<or> owner) CandidateDenied) (\<lambda>_.
          bindE (ensure (scope \<noteq> SOwnerGlobal \<or> owner) CandidateOwnerRequired) (\<lambda>_.
          bindE (map_err FromStore (export_memories (kv_memory env) (class_filter c) MAX_MEMORY_EXPORT_LIMIT
              (if owner then [''*''] else labels) owner (cd_memory d))) (\<lambda>memories.
          Inr (classify (kv_class env) c memories))))))))))"

section \<open>Consolidation\<close>

record outcome =
  oc_candidate :: string
  oc_status :: string
  oc_decision :: decision_report
  oc_memory :: "string option"
  oc_attempts :: nat

definition u32_of :: "nat \<Rightarrow> nat" where
  "u32_of n = min n (2 ^ 32 - 1)"

definition promotable :: "decision_report \<Rightarrow> bool" where
  "promotable r \<longleftrightarrow> dr_decision r \<in> {AutoRetain, Approve, WorkingRetention}"

text \<open>A full store turns every promotion into a review.\<close>

definition apply_capacity :: "nat \<Rightarrow> nat \<Rightarrow> decision_report \<Rightarrow> decision_report" where
  "apply_capacity highest active r = (if highest \<le> active \<and> promotable r
     then r\<lparr>dr_decision := Review, dr_reason_code := ''capacity'',
       dr_explanation := ''active memory capacity is full; review, expire, forget, or supersede a record first''\<rparr> else r)"

definition insert_job :: "job \<Rightarrow> candidate_db \<Rightarrow> (candidate_error, candidate_db) result" where
  "insert_job j d = bindE (ensure (\<not> list_ex (\<lambda>x. jb_id x = jb_id j \<or> jb_candidate x = jb_candidate j \<and> jb_policy x = jb_policy j) (cd_jobs d)) JobKeyTaken)
     (\<lambda>_. Inr (d\<lparr>cd_jobs := cd_jobs d @ [j]\<rparr>))"

definition new_job :: "candidate_env \<Rightarrow> string \<Rightarrow> string \<Rightarrow> string \<Rightarrow> decision_report \<Rightarrow> string list \<Rightarrow> string \<Rightarrow> string option \<Rightarrow> job" where
  "new_job env jid cid identity r supporting status reason =
     \<lparr>jb_id = jid, jb_candidate = cid, jb_policy = identity, jb_classification = dr_classification r, jb_decision = decision_as_str (dr_decision r),
      jb_status = status, jb_priority = dr_queue_priority r, jb_attempts = 0, jb_last_error = reason, jb_memory = None,
      jb_reason = Some (dr_reason_code r), jb_explanation = Some (dr_explanation r), jb_supporting = Some (kv_ids_json env supporting),
      jb_created_at = kv_now env, jb_updated_at = kv_now env\<rparr>"

definition job_for :: "string \<Rightarrow> string \<Rightarrow> job \<Rightarrow> bool" where
  "job_for cid identity j \<longleftrightarrow> jb_candidate j = cid \<and> jb_policy j = identity"

definition reconcile_audit :: "candidate_env \<Rightarrow> candidate \<Rightarrow> string \<Rightarrow> candidate_db \<Rightarrow> candidate_db" where
  "reconcile_audit env c status = audit env ''system'' ''memory.consolidation.reconcile'' (Some (cand_project c)) (Some ''candidate'') status (Some 1)"

text \<open>A candidate that is no longer pending closes its jobs and reports the job that settled it.\<close>

definition reconcile_terminal :: "candidate_env \<Rightarrow> consolidation_policy \<Rightarrow> string \<Rightarrow> string \<Rightarrow> candidate \<Rightarrow> decision_report \<Rightarrow> string list
    \<Rightarrow> candidate_db \<Rightarrow> (candidate_error, candidate_db \<times> outcome) result" where
  "reconcile_terminal env p identity fresh c r supporting d =
     (let cid = cand_id c; status = (if cand_status c = ''accepted'' then ''cancelled'' else ''dead-letter'');
          reason = ''candidate-terminal:'' @ cand_status c;
          d1 = update_jobs (\<lambda>j. job_for cid identity j \<and> open_job j) (close_job status reason (kv_now env)) d;
          found = (\<lambda>j. (reconcile_audit env c (jb_status j) d1,
            \<lparr>oc_candidate = cid, oc_status = jb_status j, oc_decision = r, oc_memory = jb_memory j, oc_attempts = u32_of (jb_attempts j)\<rparr>));
          settled = \<lparr>oc_candidate = cid, oc_status = status, oc_decision = r, oc_memory = None, oc_attempts = 0\<rparr> in
      (case find (\<lambda>j. job_for cid (policy_version p) j \<and> closed_job j) (cd_jobs d) of
         Some j \<Rightarrow> Inr (found j)
       | None \<Rightarrow>
         if list_ex (\<lambda>j. job_for cid identity j \<and> open_job j) (cd_jobs d1)
         then Inr (reconcile_audit env c status (update_jobs (\<lambda>j. job_for cid identity j \<and> open_job j) (close_job status reason (kv_now env)) d1), settled)
         else (case find (\<lambda>j. job_for cid identity j \<and> closed_job j) (cd_jobs d1) of
             Some j \<Rightarrow> Inr (found j)
           | None \<Rightarrow> bindE (insert_job (new_job env fresh cid identity r supporting status (Some reason)) d1) (\<lambda>d2.
               Inr (reconcile_audit env c status d2, settled)))))"

text \<open>Whether a job waiting for a retry may run: the last change plus the backoff has passed.\<close>

definition retry_ready :: "candidate_env \<Rightarrow> consolidation_policy \<Rightarrow> job \<Rightarrow> (candidate_error, bool) result" where
  "retry_ready env p j = (case ce_parse (kv_cons env) (jb_updated_at j) of None \<Rightarrow> Inr False
     | Some t \<Rightarrow> let seconds = min (int (retry_backoff_seconds p)) (2 ^ 63 - 1); due = t + seconds * 1000000000 in
         if seconds \<le> 9223372036854775 \<and> kv_date_ok env due then Inr (due \<le> ce_now (kv_cons env)) else Inl DateOverflow)"

definition requeue_job :: "candidate_env \<Rightarrow> decision_report \<Rightarrow> string list \<Rightarrow> string \<Rightarrow> job \<Rightarrow> job" where
  "requeue_job env r supporting status j = j\<lparr>jb_status := status, jb_classification := dr_classification r,
     jb_decision := decision_as_str (dr_decision r), jb_updated_at := kv_now env, jb_reason := Some (dr_reason_code r),
     jb_explanation := Some (dr_explanation r), jb_supporting := Some (kv_ids_json env supporting)\<rparr>"

text \<open>Scheduling: the job of a candidate under a policy, queued, or the outcome that stands.\<close>

datatype schedule = Standing outcome | Scheduled string

definition schedule_job :: "candidate_env \<Rightarrow> consolidation_policy \<Rightarrow> string \<Rightarrow> bool \<Rightarrow> string \<Rightarrow> string \<Rightarrow> decision_report \<Rightarrow> string list
    \<Rightarrow> candidate_db \<Rightarrow> (candidate_error, candidate_db \<times> schedule) result" where
  "schedule_job env p identity explicit fresh cid r supporting d = (case find (job_for cid identity) (cd_jobs d) of
       Some j \<Rightarrow>
         let standing = Standing \<lparr>oc_candidate = cid, oc_status = jb_status j, oc_decision = r, oc_memory = jb_memory j, oc_attempts = u32_of (jb_attempts j)\<rparr> in
         bindE (if jb_status j = ''retry'' \<and> dr_decision r \<noteq> Review then retry_ready env p j else Inr True) (\<lambda>ready.
         if \<not> ready then Inr (d, standing)
         else if jb_status j \<in> set [''retry'', ''queued'', ''running''] \<or> explicit \<and> jb_status j = ''paused'' \<and> promotable r
         then Inr (update_jobs (\<lambda>x. jb_id x = jb_id j) (\<lambda>x. (requeue_job env r supporting ''queued'' x)\<lparr>jb_last_error := None\<rparr>) d, Scheduled (jb_id j))
         else Inr (d, standing))
     | None \<Rightarrow>
         bindE (ensure (length (filter open_job (cd_jobs d)) < max_queue p) QueueFull) (\<lambda>_.
         bindE (insert_job (new_job env fresh cid identity r supporting (if promotable r \<or> dr_decision r = Reject then ''queued'' else ''paused'') None) d) (\<lambda>d.
         Inr (d, Scheduled fresh))))"

definition consolidation_audit :: "candidate_env \<Rightarrow> candidate \<Rightarrow> string \<Rightarrow> candidate_db \<Rightarrow> candidate_db" where
  "consolidation_audit env c status = audit env ''system'' ''memory.consolidation'' (Some (cand_project c)) (Some ''candidate'') status (Some 1)"

text \<open>The memory a candidate becomes.\<close>

definition promotion_axes :: "candidate \<Rightarrow> decision_report \<Rightarrow> (candidate_error, memory_axes) result" where
  "promotion_axes c r = map_err InvalidAxes (with_overrides (cand_content_type c) (Some (cand_content_type c))
     (Some (if dr_decision r = WorkingRetention then ''working'' else cand_retention_tier c)) (Some (cand_scope c)))"

definition promotion_input :: "candidate \<Rightarrow> classification \<Rightarrow> decision_report \<Rightarrow> memory_axes \<Rightarrow> memory_input" where
  "promotion_input c cls r axes =
     \<lparr>in_kind = legacy_kind axes, in_project = cand_project c, in_title = cand_title c, in_content = cand_content c, in_source = cand_source c,
      in_source_id = cand_source_id c, in_dedupe_key = cand_dedupe_key c, in_confidence = cand_confidence c, in_importance = cand_importance c,
      in_acl = cand_acl c,
      in_provenance = JObject [(''candidate'', cand_provenance c), (''cortana_consolidation'', JObject [(''classification'', JString (dr_classification r)),
        (''decision'', JString (decision_as_str (dr_decision r))), (''policy_version'', JString (dr_policy_version r)), (''reason_code'', JString (dr_reason_code r))])],
      in_supersedes_id = (if cc_classification cls = ''supersession'' then (case cc_supporting cls of [] \<Rightarrow> None | i # _ \<Rightarrow> Some i) else None),
      in_valid_until = dr_expires_at r\<rparr>"

text \<open>The second transaction: the job is claimed and its decision carried out. A failure to write the memory
  rolls back and puts the job to retry or to the dead letters; other errors roll back and are returned.\<close>

definition execute_job :: "candidate_env \<Rightarrow> consolidation_policy \<Rightarrow> string \<Rightarrow> string \<Rightarrow> candidate \<Rightarrow> classification \<Rightarrow> decision_report \<Rightarrow> string list \<Rightarrow> bool
    \<Rightarrow> candidate_db \<Rightarrow> (candidate_error, candidate_db \<times> outcome) result" where
  "execute_job env p jid fresh c cls r labels owner d =
     (let cid = cand_id c; now = kv_now env;
          attempt = min (1 + (case find (\<lambda>j. jb_id j = jid) (cd_jobs d) of None \<Rightarrow> 0 | Some j \<Rightarrow> jb_attempts j)) (2 ^ 63 - 1);
          claim = (\<lambda>j. jb_id j = jid \<and> jb_status j \<in> set [''queued'', ''retry'']);
          d1 = update_jobs claim (\<lambda>j. j\<lparr>jb_status := ''running'', jb_attempts := attempt, jb_updated_at := now\<rparr>) d;
          pending = (\<lambda>x. cand_id x = cid \<and> cand_status x = ''pending'');
          finish = (\<lambda>d status memory. (consolidation_audit env c status d,
             \<lparr>oc_candidate = cid, oc_status = status, oc_decision = r, oc_memory = memory, oc_attempts = u32_of attempt\<rparr>)) in
      bindE (ensure (length (filter claim (cd_jobs d)) = 1) NotClaimed) (\<lambda>_.
      if promotable r then
        bindE (promotion_axes c r) (\<lambda>axes.
        case remember_in_transaction (kv_memory env) fresh (promotion_input c cls r axes) labels owner axes (cd_memory d1) of
          Inl _ \<Rightarrow> let status = (if max_retries p < attempt then ''dead-letter'' else ''retry'') in
            Inr (finish (update_jobs (\<lambda>j. jb_id j = jid) (close_job status ''canonical-write-failed'' now) d) status None)
        | Inr (m, mid) \<Rightarrow>
            bindE (ensure (length (filter pending (cd_candidates d1)) = 1) ChangedState) (\<lambda>_.
            Inr (finish (update_jobs (\<lambda>j. jb_id j = jid) (\<lambda>j. j\<lparr>jb_status := ''complete'', jb_memory := Some mid, jb_updated_at := now\<rparr>)
              (update_candidates pending (\<lambda>x. x\<lparr>cand_status := ''accepted'', cand_updated_at := now\<rparr>) (d1\<lparr>cd_memory := m\<rparr>))) ''accepted'' (Some mid))))
      else if dr_decision r = Reject then
        bindE (ensure (length (filter pending (cd_candidates d1)) = 1) ChangedState) (\<lambda>_.
        Inr (finish (update_jobs (\<lambda>j. jb_id j = jid) (close_job ''dead-letter'' (dr_reason_code r) now)
          (update_candidates pending (\<lambda>x. x\<lparr>cand_status := ''rejected'', cand_rejection_reason := Some (dr_reason_code r), cand_updated_at := now\<rparr>) d1)) ''rejected'' None))
      else Inr (finish d1 ''review'' None)))"

text \<open>What happens to a pending candidate: scheduling is committed before the work begins; \<open>start\<close> is the
  state an error before that goes back to.\<close>

definition consolidate_pending :: "candidate_env \<Rightarrow> consolidation_policy \<Rightarrow> string \<Rightarrow> bool \<Rightarrow> string \<Rightarrow> string \<Rightarrow> candidate \<Rightarrow> classification \<Rightarrow> decision_report
    \<Rightarrow> string list \<Rightarrow> bool \<Rightarrow> candidate_db \<Rightarrow> candidate_db \<Rightarrow> candidate_db \<times> (candidate_error, outcome) result" where
  "consolidate_pending env p identity explicit fresh_job fresh_memory c cls r labels owner start d0 =
     (let cid = cand_id c; supporting = cc_supporting cls;
          d = update_jobs (\<lambda>j. job_for cid (policy_version p) j \<and> open_job j) (close_job ''cancelled'' ''legacy-policy-identity-unknown'' (kv_now env)) d0 in
      (case schedule_job env p identity explicit fresh_job cid r supporting d of
         Inl e \<Rightarrow> (start, Inl e)
       | Inr (d, Standing oc) \<Rightarrow> (d, Inr oc)
       | Inr (d, Scheduled jid) \<Rightarrow>
           if dr_decision r = Review
           then (consolidation_audit env c ''review'' (update_jobs (\<lambda>j. jb_id j = jid \<and> open_job j) (requeue_job env r supporting ''paused'') d),
             Inr \<lparr>oc_candidate = cid, oc_status = ''review'', oc_decision = r, oc_memory = None, oc_attempts = 0\<rparr>)
           else (case execute_job env p jid fresh_memory c cls r labels owner d of
               Inl e \<Rightarrow> (d, Inl e) | Inr (d, oc) \<Rightarrow> (d, Inr oc))))"

text \<open>The checks and the decision that precede the transaction.\<close>

definition evaluate_candidate :: "candidate_env \<Rightarrow> consolidation_policy \<Rightarrow> string \<Rightarrow> string \<Rightarrow> string list \<Rightarrow> bool \<Rightarrow> bool \<Rightarrow> bool \<Rightarrow> candidate_db
    \<Rightarrow> (candidate_error, candidate \<times> classification \<times> decision_report) result" where
  "evaluate_candidate env p cid who labels owner approval replacing d =
     bindE (ok_or (memory_candidate cid d) NoCandidate) (\<lambda>c.
     bindE (authorize_candidate who labels owner c) (\<lambda>scope.
     bindE (snd (classify_memory_candidate env cid who labels owner d)) (\<lambda>cls.
     bindE (map_err InvalidPolicy (evaluate (kv_cons env) c cls p \<lparr>explicit_approval = approval, explicit_supersession = replacing,
        same_scope = (scope \<noteq> SPrincipal \<or> cand_created_by c = who), reviewer = None\<rparr>)) (\<lambda>r.
     Inr (c, cls, r)))))"

definition cancel_stale :: "candidate_env \<Rightarrow> string \<Rightarrow> candidate \<Rightarrow> candidate_db \<Rightarrow> candidate_db" where
  "cancel_stale env identity c d =
     (let stale = (\<lambda>j. jb_candidate j = cand_id c \<and> jb_policy j \<noteq> identity \<and> open_job j);
          n = length (filter stale (cd_jobs d));
          d1 = update_jobs stale (close_job ''cancelled'' ''superseded-policy'' (kv_now env)) d in
      if n = 0 then d1
      else audit env ''system'' ''memory.consolidation.policy'' (Some (cand_project c)) (Some ''candidate'') ''cancelled'' (Some n) d1)"

definition consolidate_with_action :: "candidate_env \<Rightarrow> consolidation_policy \<Rightarrow> string \<Rightarrow> string \<Rightarrow> string \<Rightarrow> string \<Rightarrow> string list \<Rightarrow> bool \<Rightarrow> bool \<Rightarrow> bool
    \<Rightarrow> candidate_db \<Rightarrow> candidate_db \<times> (candidate_error, outcome) result" where
  "consolidate_with_action env p fresh_job fresh_memory cid who labels owner approval replacing d0 =
     (case map_err InvalidPolicy (bindE (validate_policy p) (\<lambda>_. policy_identity (kv_cons env) p)) of Inl e \<Rightarrow> (d0, Inl e)
      | Inr identity \<Rightarrow>
        let d = expire_memory_candidates env d0 in
        (case evaluate_candidate env p cid who labels owner approval replacing d of Inl e \<Rightarrow> (d, Inl e)
         | Inr (c, cls, r0) \<Rightarrow>
           let d = fst (classify_memory_candidate env cid who labels owner d);
               r = apply_capacity (min (max_active (ceilings p)) (md_max_active (cd_memory d))) (active_count (kv_memory env) (cd_memory d)) r0 in
           if cd_paused d then (d, Inl ConsolidationPaused)
           else let d1 = cancel_stale env identity c d in
             if cand_status c \<noteq> ''pending'' then
               (case reconcile_terminal env p identity fresh_job c r (cc_supporting cls) d1 of Inl e \<Rightarrow> (d, Inl e) | Inr (d2, oc) \<Rightarrow> (d2, Inr oc))
             else consolidate_pending env p identity approval fresh_job fresh_memory c cls r labels owner d d1))"

definition consolidate_memory_candidate :: "candidate_env \<Rightarrow> consolidation_policy \<Rightarrow> string \<Rightarrow> string \<Rightarrow> string \<Rightarrow> string \<Rightarrow> string list \<Rightarrow> bool \<Rightarrow> bool
    \<Rightarrow> candidate_db \<Rightarrow> candidate_db \<times> (candidate_error, outcome) result" where
  "consolidate_memory_candidate env p fresh_job fresh_memory cid who labels owner approval =
     consolidate_with_action env p fresh_job fresh_memory cid who labels owner approval False"

definition supersede_memory_candidate :: "candidate_env \<Rightarrow> consolidation_policy \<Rightarrow> string \<Rightarrow> string \<Rightarrow> string \<Rightarrow> string \<Rightarrow> string list \<Rightarrow> bool
    \<Rightarrow> candidate_db \<Rightarrow> candidate_db \<times> (candidate_error, outcome) result" where
  "supersede_memory_candidate env p fresh_job fresh_memory cid who labels owner =
     consolidate_with_action env p fresh_job fresh_memory cid who labels owner True True"

section \<open>Review\<close>

definition pause_memory_consolidation :: "candidate_env \<Rightarrow> candidate_db \<Rightarrow> candidate_db \<times> nat" where
  "pause_memory_consolidation env d =
     (let waiting = (\<lambda>j. jb_status j \<in> set [''queued'', ''retry'', ''running'']); n = length (filter waiting (cd_jobs d)) in
      (audit env ''system'' ''memory.consolidation.pause'' None None ''paused'' (Some n)
        (update_jobs waiting (\<lambda>j. j\<lparr>jb_status := ''paused'', jb_updated_at := kv_now env\<rparr>) (d\<lparr>cd_paused := True\<rparr>)), n))"

definition resume_memory_consolidation :: "candidate_env \<Rightarrow> candidate_db \<Rightarrow> candidate_db \<times> nat" where
  "resume_memory_consolidation env d =
     (let waiting = (\<lambda>j. jb_status j = ''paused''); n = length (filter waiting (cd_jobs d)) in
      (audit env ''system'' ''memory.consolidation.resume'' None None ''queued'' (Some n)
        (update_jobs waiting (\<lambda>j. j\<lparr>jb_status := ''queued'', jb_updated_at := kv_now env\<rparr>) (d\<lparr>cd_paused := False\<rparr>)), n))"

definition update_candidate_status :: "candidate_env \<Rightarrow> string \<Rightarrow> string \<Rightarrow> string \<Rightarrow> string list \<Rightarrow> bool \<Rightarrow> bool \<Rightarrow> candidate_db
    \<Rightarrow> candidate_db \<times> (candidate_error, bool) result" where
  "update_candidate_status env cid status who labels owner redact d =
     (let pending = (\<lambda>c. cand_id c = cid \<and> cand_status c = ''pending''); now = kv_now env in
      (case find pending (cd_candidates d) of None \<Rightarrow> (d, Inr False)
       | Some c \<Rightarrow>
         if \<not> ((owner \<or> cand_scope c \<noteq> ''owner-global'') \<and> (cand_scope c \<noteq> ''principal'' \<or> cand_created_by c = who) \<and> (owner \<or> acl_allows (cand_acl c) labels))
         then (d, Inl CandidateDenied)
         else (update_jobs (\<lambda>j. jb_candidate j = cid \<and> open_job j) (close_job ''cancelled'' status now)
             (update_candidates pending (\<lambda>c. if redact then c\<lparr>cand_status := status, cand_content := [], cand_provenance := JObject [],
                   cand_rejection_reason := Some ''redacted'', cand_updated_at := now\<rparr>
                 else c\<lparr>cand_status := status, cand_updated_at := now\<rparr>) d), Inr True)))"

definition cancel_memory_candidate :: "candidate_env \<Rightarrow> string \<Rightarrow> string \<Rightarrow> string list \<Rightarrow> bool \<Rightarrow> candidate_db \<Rightarrow> candidate_db \<times> (candidate_error, bool) result" where
  "cancel_memory_candidate env cid who labels owner = update_candidate_status env cid ''cancelled'' who labels owner False"

definition redact_memory_candidate :: "candidate_env \<Rightarrow> string \<Rightarrow> string \<Rightarrow> string list \<Rightarrow> bool \<Rightarrow> candidate_db \<Rightarrow> candidate_db \<times> (candidate_error, bool) result" where
  "redact_memory_candidate env cid who labels owner = update_candidate_status env cid ''redacted'' who labels owner True"

definition input_of_candidate :: "string \<Rightarrow> string \<Rightarrow> candidate \<Rightarrow> candidate_input" where
  "input_of_candidate title content c = \<lparr>ci_observation_kind = cand_observation_kind c, ci_content_type = cand_content_type c,
     ci_retention_tier = cand_retention_tier c, ci_scope = cand_scope c, ci_project = cand_project c, ci_title = title, ci_content = content,
     ci_source = cand_source c, ci_source_id = cand_source_id c, ci_dedupe_key = cand_dedupe_key c, ci_confidence = cand_confidence c,
     ci_importance = cand_importance c, ci_sensitivity = cand_sensitivity c, ci_acl = cand_acl c, ci_provenance = cand_provenance c,
     ci_expires_at = cand_expires_at c\<rparr>"

text \<open>A change of a pending candidate cancels its open jobs; a candidate that is not pending is left alone.\<close>

definition change_pending :: "candidate_env \<Rightarrow> string \<Rightarrow> string \<Rightarrow> (candidate \<Rightarrow> candidate) \<Rightarrow> candidate_db \<Rightarrow> candidate_db \<times> (candidate_error, candidate option) result" where
  "change_pending env cid reason f d =
     (let pending = (\<lambda>c. cand_id c = cid \<and> cand_status c = ''pending'') in
      if \<not> list_ex pending (cd_candidates d) then (d, Inr None)
      else let d1 = update_jobs (\<lambda>j. jb_candidate j = cid \<and> open_job j) (close_job ''cancelled'' reason (kv_now env)) (update_candidates pending f d) in
        (d1, Inr (memory_candidate cid d1)))"

definition edit_memory_candidate :: "candidate_env \<Rightarrow> string \<Rightarrow> string \<Rightarrow> string \<Rightarrow> string \<Rightarrow> string list \<Rightarrow> bool \<Rightarrow> candidate_db
    \<Rightarrow> candidate_db \<times> (candidate_error, candidate option) result" where
  "edit_memory_candidate env cid title content who labels owner d0 =
     (let d = expire_memory_candidates env d0 in
      (case memory_candidate cid d of None \<Rightarrow> (d, Inr None)
       | Some c \<Rightarrow> (case bindE (authorize_candidate who labels owner c) (\<lambda>_.
             map_err InvalidCandidate (validate_candidate (kv_candidate_text env) (ce_now (kv_cons env)) (input_of_candidate title content c))) of
           Inl e \<Rightarrow> (d, Inl e)
         | Inr _ \<Rightarrow> change_pending env cid ''candidate-edited'' (\<lambda>c. c\<lparr>cand_title := title, cand_content := content, cand_updated_at := kv_now env\<rparr>) d)))"

definition set_memory_candidate_working :: "candidate_env \<Rightarrow> string \<Rightarrow> string \<Rightarrow> string list \<Rightarrow> bool \<Rightarrow> candidate_db
    \<Rightarrow> candidate_db \<times> (candidate_error, candidate option) result" where
  "set_memory_candidate_working env cid who labels owner d0 =
     (let d = expire_memory_candidates env d0 in
      (case memory_candidate cid d of None \<Rightarrow> (d, Inr None)
       | Some c \<Rightarrow> (case authorize_candidate who labels owner c of Inl e \<Rightarrow> (d, Inl e)
         | Inr _ \<Rightarrow> change_pending env cid ''candidate-retention-changed'' (\<lambda>c. c\<lparr>cand_retention_tier := ''working'', cand_updated_at := kv_now env\<rparr>) d)))"

text \<open>\<open>ORDER BY updated_at DESC,id DESC LIMIT 1\<close> over the failed jobs of a candidate.\<close>

definition last_failed :: "string \<Rightarrow> candidate_db \<Rightarrow> job option" where
  "last_failed cid d = (case rev (sort_key (\<lambda>j. (jb_updated_at j, jb_id j)) (filter (\<lambda>j. jb_candidate j = cid \<and> jb_status j \<in> set [''dead-letter'', ''retry'']) (cd_jobs d))) of
     [] \<Rightarrow> None | j # _ \<Rightarrow> Some j)"

definition retry_memory_candidate :: "candidate_env \<Rightarrow> string \<Rightarrow> string \<Rightarrow> string list \<Rightarrow> bool \<Rightarrow> candidate_db
    \<Rightarrow> candidate_db \<times> (candidate_error, bool) result" where
  "retry_memory_candidate env cid who labels owner d =
     (case bindE (ensure (\<not> cd_paused d) ConsolidationPaused) (\<lambda>_.
        bindE (ok_or (memory_candidate cid d) NoCandidate) (\<lambda>c.
        bindE (ensure (cand_status c = ''pending'') NotPending) (\<lambda>_.
        bindE (ok_or (ce_parse (kv_cons env) (cand_expires_at c)) BadExpiry) (\<lambda>t.
        bindE (ensure (ce_now (kv_cons env) < t) CandidateExpired) (\<lambda>_.
        authorize_candidate who labels owner c))))) of
       Inl e \<Rightarrow> (d, Inl e)
     | Inr _ \<Rightarrow> (case last_failed cid d of None \<Rightarrow> (d, Inr False)
         | Some j \<Rightarrow> (update_jobs (\<lambda>x. jb_id x = jb_id j)
             (\<lambda>x. x\<lparr>jb_status := ''queued'', jb_attempts := 0, jb_last_error := None, jb_updated_at := kv_now env\<rparr>) d, Inr True)))"

section \<open>Recovery\<close>

definition pending_jobs :: "string \<Rightarrow> nat \<Rightarrow> candidate_db \<Rightarrow> (string \<times> string) list" where
  "pending_jobs identity limit d = map (\<lambda>j. (jb_candidate j, jb_decision j)) (take limit
     (sort_key (\<lambda>j. (- int (jb_priority j), jb_created_at j, jb_id j))
       (filter (\<lambda>j. jb_policy j = identity \<and> jb_status j \<in> set [''queued'', ''retry'', ''running'']) (cd_jobs d))))"

text \<open>\<open>fresh\<close> gives the identifiers of each step.\<close>

fun recover_jobs :: "candidate_env \<Rightarrow> consolidation_policy \<Rightarrow> (nat \<Rightarrow> string \<times> string) \<Rightarrow> nat \<Rightarrow> string \<Rightarrow> string list \<Rightarrow> bool \<Rightarrow> (string \<times> string) list
    \<Rightarrow> candidate_db \<Rightarrow> candidate_db \<times> (candidate_error, outcome list) result" where
  "recover_jobs env p fresh k who labels owner [] d = (d, Inr [])"
| "recover_jobs env p fresh k who labels owner ((cid, decision) # rest) d =
     (case consolidate_memory_candidate env p (fst (fresh k)) (snd (fresh k)) cid who labels owner (decision = decision_as_str Approve) d of
        (d, Inl e) \<Rightarrow> (audit env who ''memory.consolidation.recovery'' None (Some ''candidate'') ''failed'' None d, Inl e)
      | (d, Inr oc) \<Rightarrow> (case recover_jobs env p fresh (k + 1) who labels owner rest d of
            (d, Inl e) \<Rightarrow> (d, Inl e) | (d, Inr ocs) \<Rightarrow> (d, Inr (oc # ocs))))"

definition process_pending_memory_consolidation :: "candidate_env \<Rightarrow> consolidation_policy \<Rightarrow> (nat \<Rightarrow> string \<times> string) \<Rightarrow> string \<Rightarrow> string list \<Rightarrow> bool \<Rightarrow> nat
    \<Rightarrow> candidate_db \<Rightarrow> candidate_db \<times> (candidate_error, outcome list) result" where
  "process_pending_memory_consolidation env p fresh who labels owner limit d =
     (if \<not> owner then (d, Inl CandidateOwnerRequired)
      else (case map_err InvalidPolicy (bindE (validate_policy p) (\<lambda>_. policy_identity (kv_cons env) p)) of Inl e \<Rightarrow> (d, Inl e)
        | Inr identity \<Rightarrow> recover_jobs env p fresh 0 who labels owner (pending_jobs identity (clamp limit 1 (max_queue p)) d) d))"

end
