(* ===== verification/CandidateLife.thy ===== *)
theory CandidateLife
  imports CandidateStore
begin

text \<open>
  The life of observation candidates and of their consolidation jobs: the invariant every operation of
  \<open>CandidateStore\<close> keeps, and what may reach the memories.
\<close>

section \<open>The invariant\<close>

text \<open>An open job belongs to a pending candidate and has not counted an attempt; a complete job names its
  memory and its candidate is accepted; a candidate has one complete job at most.\<close>

definition job_ok :: "candidate list \<Rightarrow> bool \<Rightarrow> job \<Rightarrow> bool" where
  "job_ok cs paused j \<longleftrightarrow> jb_status j \<in> {''queued'', ''retry'', ''paused'', ''complete'', ''cancelled'', ''dead-letter''}
     \<and> (open_job j \<longrightarrow> jb_attempts j = 0 \<and> (\<exists>c \<in> set cs. cand_id c = jb_candidate j \<and> cand_status c = ''pending''))
     \<and> (jb_status j = ''complete'' \<longrightarrow> jb_memory j \<noteq> None \<and> (\<exists>c \<in> set cs. cand_id c = jb_candidate j \<and> cand_status c = ''accepted''))
     \<and> (paused \<longrightarrow> jb_status j \<notin> {''queued'', ''retry''})"

definition completed :: "job \<Rightarrow> bool" where
  "completed j \<longleftrightarrow> jb_status j = ''complete''"

definition final_job :: "job \<Rightarrow> bool" where
  "final_job j \<longleftrightarrow> jb_status j = ''complete'' \<or> jb_status j = ''cancelled''"

definition candidate_inv :: "candidate_db \<Rightarrow> bool" where
  "candidate_inv d \<longleftrightarrow> distinct (map cand_id (cd_candidates d)) \<and> distinct (map jb_id (cd_jobs d))
     \<and> distinct (map (\<lambda>j. (jb_candidate j, jb_policy j)) (cd_jobs d)) \<and> distinct (map jb_candidate (filter completed (cd_jobs d)))
     \<and> list_all (job_ok (cd_candidates d) (cd_paused d)) (cd_jobs d)"

text \<open>The life of a candidate: it keeps its identity, and once settled never changes; nor does a job that is complete or cancelled.\<close>

definition candidate_life :: "candidate \<Rightarrow> candidate \<Rightarrow> bool" where
  "candidate_life c c' \<longleftrightarrow> cand_id c' = cand_id c \<and> cand_created_by c' = cand_created_by c \<and> cand_project c' = cand_project c
     \<and> cand_acl c' = cand_acl c \<and> (cand_status c \<noteq> ''pending'' \<longrightarrow> c' = c)"

definition candidates_grow :: "candidate_db \<Rightarrow> candidate_db \<Rightarrow> bool" where
  "candidates_grow d d' \<longleftrightarrow> (\<forall>c \<in> set (cd_candidates d). \<exists>c' \<in> set (cd_candidates d'). candidate_life c c')
     \<and> (\<forall>j \<in> set (cd_jobs d). final_job j \<longrightarrow> j \<in> set (cd_jobs d'))"

definition keeps_candidates :: "candidate_db \<Rightarrow> candidate_db \<Rightarrow> bool" where
  "keeps_candidates d d' \<longleftrightarrow> (candidate_inv d \<longrightarrow> candidate_inv d' \<and> candidates_grow d d')"

lemma candidate_life_trans: "candidate_life a b \<Longrightarrow> candidate_life b c \<Longrightarrow> candidate_life a c"
  by (auto simp: candidate_life_def)

lemma candidates_grow_refl: "candidates_grow d d"
  by (auto simp: candidates_grow_def candidate_life_def)

lemma candidates_grow_trans: "candidates_grow a b \<Longrightarrow> candidates_grow b c \<Longrightarrow> candidates_grow a c"
  unfolding candidates_grow_def by (blast intro: candidate_life_trans)

lemma keeps_candidates_refl: "keeps_candidates d d"
  by (simp add: keeps_candidates_def candidates_grow_refl)

lemma keeps_candidates_trans: "keeps_candidates a b \<Longrightarrow> keeps_candidates b c \<Longrightarrow> keeps_candidates a c"
  using candidates_grow_trans by (auto simp: keeps_candidates_def)

text \<open>Every operation rewrites rows in place; this is what has to be shown of the rewriting.\<close>

lemma keeps_candidates_map:
  assumes "cd_candidates d' = map g (cd_candidates d)" "cd_jobs d' = map h (cd_jobs d)"
    and "\<And>c. c \<in> set (cd_candidates d) \<Longrightarrow> candidate_life c (g c)"
    and "\<And>j. jb_id (h j) = jb_id j \<and> jb_candidate (h j) = jb_candidate j \<and> jb_policy (h j) = jb_policy j"
    and "\<And>j. candidate_inv d \<Longrightarrow> j \<in> set (cd_jobs d) \<Longrightarrow> (final_job j \<longrightarrow> h j = j) \<and> (completed (h j) \<longrightarrow> completed j)"
    and "\<And>j. candidate_inv d \<Longrightarrow> j \<in> set (cd_jobs d) \<Longrightarrow> job_ok (cd_candidates d) (cd_paused d) j \<Longrightarrow> job_ok (map g (cd_candidates d)) (cd_paused d') (h j)"
  shows "keeps_candidates d d'"
proof -
  have ids: "map (cand_id \<circ> g) (cd_candidates d) = map cand_id (cd_candidates d)"
    using assms(3) by (intro map_cong) (auto simp: candidate_life_def)
  have "candidate_inv d'" if inv: "candidate_inv d"
  proof -
    have "completed (h j) \<longleftrightarrow> completed j" if "j \<in> set (cd_jobs d)" for j
    proof
      assume "completed j"
      then have "final_job j" by (simp add: completed_def final_job_def)
      with assms(5) [OF inv that] have "h j = j" by blast
      with \<open>completed j\<close> show "completed (h j)" by (simp only:)
    qed (use assms(5) [OF inv that] in blast)
    then have "filter (completed \<circ> h) (cd_jobs d) = filter completed (cd_jobs d)" by (intro filter_cong) simp_all
    then show ?thesis using inv assms(6) [OF inv] by (simp add: candidate_inv_def assms(1,2,4) ids comp_def [of _ h] list_all_iff filter_map)
  qed
  moreover have "candidates_grow d d'" if inv: "candidate_inv d"
  proof -
    have "j \<in> set (cd_jobs d')" if "j \<in> set (cd_jobs d)" "final_job j" for j
    proof -
      have "j = h j" using assms(5) [OF inv that(1)] that(2) by (metis (full_types))
      then show ?thesis unfolding assms(2) set_map using that(1) by (rule image_eqI)
    qed
    then show ?thesis using assms(1,3) by (auto simp: candidates_grow_def)
  qed
  ultimately show ?thesis by (simp add: keeps_candidates_def)
qed

lemma keeps_same_tables: "cd_candidates d' = cd_candidates d \<Longrightarrow> cd_jobs d' = cd_jobs d \<Longrightarrow> cd_paused d' = cd_paused d \<Longrightarrow> keeps_candidates d d'"
  by (simp add: keeps_candidates_def candidate_inv_def candidates_grow_def) (auto simp: candidate_life_def)

lemma audit_simps [simp]: "cd_candidates (audit env w a pr so r n d) = cd_candidates d" "cd_jobs (audit env w a pr so r n d) = cd_jobs d"
  "cd_paused (audit env w a pr so r n d) = cd_paused d" "cd_memory (audit env w a pr so r n d) = cd_memory d"
  by (simp_all add: audit_def)

lemma update_simps [simp]: "cd_candidates (update_jobs p f d) = cd_candidates d" "cd_paused (update_jobs p f d) = cd_paused d"
  "cd_memory (update_jobs p f d) = cd_memory d" "cd_jobs (update_jobs p f d) = map (\<lambda>j. if p j then f j else j) (cd_jobs d)"
  "cd_candidates (update_candidates q g d) = map (\<lambda>c. if q c then g c else c) (cd_candidates d)" "cd_paused (update_candidates q g d) = cd_paused d"
  "cd_memory (update_candidates q g d) = cd_memory d" "cd_jobs (update_candidates q g d) = cd_jobs d"
  by (simp_all add: update_jobs_def update_candidates_def)

lemma closed_ok: "job_ok cs paused j \<Longrightarrow> open_job j \<Longrightarrow> status \<in> {''cancelled'', ''dead-letter''} \<Longrightarrow> job_ok cs' paused' (close_job status reason now j)"
  by (auto simp: job_ok_def close_job_def open_job_def)

lemma close_job_keys [simp]: "jb_id (close_job s r n j) = jb_id j" "jb_candidate (close_job s r n j) = jb_candidate j" "jb_policy (close_job s r n j) = jb_policy j"
  "jb_status (close_job s r n j) = s" "jb_memory (close_job s r n j) = jb_memory j"
  by (simp_all add: close_job_def)

lemma job_ok_open: "job_ok cs paused j \<Longrightarrow> open_job j \<Longrightarrow> jb_attempts j = 0 \<and> (\<exists>c \<in> set cs. cand_id c = jb_candidate j \<and> cand_status c = ''pending'')"
  by (simp add: job_ok_def)

lemma job_ok_complete: "job_ok cs paused j \<Longrightarrow> jb_status j = ''complete'' \<Longrightarrow> jb_memory j \<noteq> None \<and> (\<exists>c \<in> set cs. cand_id c = jb_candidate j \<and> cand_status c = ''accepted'')"
  by (simp add: job_ok_def)

lemma job_okI:
  assumes "jb_status j \<in> {''queued'', ''retry'', ''paused'', ''complete'', ''cancelled'', ''dead-letter''}"
    and "open_job j \<Longrightarrow> jb_attempts j = 0" "open_job j \<Longrightarrow> \<exists>c \<in> set cs. cand_id c = jb_candidate j \<and> cand_status c = ''pending''"
    and "jb_status j = ''complete'' \<Longrightarrow> jb_memory j \<noteq> None" "jb_status j = ''complete'' \<Longrightarrow> \<exists>c \<in> set cs. cand_id c = jb_candidate j \<and> cand_status c = ''accepted''"
    and "paused \<Longrightarrow> jb_status j \<notin> {''queued'', ''retry''}"
  shows "job_ok cs paused j"
  using assms unfolding job_ok_def by blast

text \<open>A job that is left alone while candidates change.\<close>

lemma job_ok_same:
  assumes ok: "job_ok cs paused j" and life: "\<And>c. c \<in> set cs \<Longrightarrow> candidate_life c (g c)"
    and still: "\<And>c. c \<in> set cs \<Longrightarrow> open_job j \<Longrightarrow> jb_candidate j = cand_id c \<Longrightarrow> cand_status c = ''pending'' \<Longrightarrow> cand_status (g c) = ''pending''"
  shows "job_ok (map g cs) paused j"
proof (rule job_okI)
  show "jb_status j \<in> {''queued'', ''retry'', ''paused'', ''complete'', ''cancelled'', ''dead-letter''}" using ok by (simp add: job_ok_def)
  show "paused \<Longrightarrow> jb_status j \<notin> {''queued'', ''retry''}" using ok by (simp add: job_ok_def)
  show "open_job j \<Longrightarrow> jb_attempts j = 0" using job_ok_open [OF ok] by simp
  show "jb_status j = ''complete'' \<Longrightarrow> jb_memory j \<noteq> None" using job_ok_complete [OF ok] by simp
  show "\<exists>c \<in> set (map g cs). cand_id c = jb_candidate j \<and> cand_status c = ''pending''" if op: "open_job j"
  proof -
    obtain c where c: "c \<in> set cs" "cand_id c = jb_candidate j" "cand_status c = ''pending''" using job_ok_open [OF ok op] by blast
    with life [of c] still [of c] op have "cand_id (g c) = jb_candidate j \<and> cand_status (g c) = ''pending''" by (simp add: candidate_life_def)
    with c(1) show ?thesis by auto
  qed
  show "\<exists>c \<in> set (map g cs). cand_id c = jb_candidate j \<and> cand_status c = ''accepted''" if co: "jb_status j = ''complete''"
  proof -
    obtain c where c: "c \<in> set cs" "cand_id c = jb_candidate j" "cand_status c = ''accepted''" using job_ok_complete [OF ok co] by blast
    with life [of c] have "g c = c" by (simp add: candidate_life_def)
    with c show ?thesis by (metis image_eqI set_map)
  qed
qed

text \<open>Closing jobs while candidates change: every open job of a changed candidate must be closed.\<close>

lemma keeps_settle:
  assumes closing: "s \<in> {''cancelled'', ''dead-letter''}" "\<And>j. p j \<Longrightarrow> open_job j"
    and q: "\<And>c. q c \<Longrightarrow> cand_status c = ''pending'' \<and> candidate_life c (g c)"
    and closes: "\<And>c j. q c \<Longrightarrow> open_job j \<Longrightarrow> jb_candidate j = cand_id c \<Longrightarrow> c \<in> set (cd_candidates d) \<Longrightarrow> p j \<or> cand_status (g c) = ''pending''"
  shows "keeps_candidates d (update_jobs p (close_job s r n) (update_candidates q g d))"
proof (rule keeps_candidates_map)
  show "cd_candidates (update_jobs p (close_job s r n) (update_candidates q g d)) = map (\<lambda>c. if q c then g c else c) (cd_candidates d)" by simp
  show "cd_jobs (update_jobs p (close_job s r n) (update_candidates q g d)) = map (\<lambda>j. if p j then close_job s r n j else j) (cd_jobs d)" by simp
  show life: "candidate_life c (if q c then g c else c)" for c using q by (auto simp: candidate_life_def)
  show "jb_id (if p j then close_job s r n j else j) = jb_id j \<and> jb_candidate (if p j then close_job s r n j else j) = jb_candidate j
      \<and> jb_policy (if p j then close_job s r n j else j) = jb_policy j" for j by simp
  show "(final_job j \<longrightarrow> (if p j then close_job s r n j else j) = j) \<and> (completed (if p j then close_job s r n j else j) \<longrightarrow> completed j)" for j
  proof (cases "p j")
    case True
    with closing(2) have "open_job j" by blast
    then have "\<not> final_job j" unfolding open_job_def final_job_def by force
    moreover have "s \<noteq> ''complete''" using closing(1) by force
    ultimately show ?thesis by (simp add: completed_def True)
  qed simp
  fix j
  assume "j \<in> set (cd_jobs d)" and ok: "job_ok (cd_candidates d) (cd_paused d) j"
  show "job_ok (map (\<lambda>c. if q c then g c else c) (cd_candidates d)) (cd_paused (update_jobs p (close_job s r n) (update_candidates q g d)))
      (if p j then close_job s r n j else j)"
  proof (cases "p j")
    case True
    with ok closing closed_ok show ?thesis by simp
  next
    case False
    have "job_ok (map (\<lambda>c. if q c then g c else c) (cd_candidates d)) (cd_paused d) j"
    proof (rule job_ok_same [OF ok life])
      show "cand_status (if q c then g c else c) = ''pending''"
        if "c \<in> set (cd_candidates d)" "open_job j" "jb_candidate j = cand_id c" "cand_status c = ''pending''" for c
        using closes [of c j] that False by simp
    qed
    with False show ?thesis by simp
  qed
qed

lemma update_commute: "update_candidates q g (update_jobs p f d) = update_jobs p f (update_candidates q g d)"
  by (simp add: update_candidates_def update_jobs_def)

lemma keeps_close:
  assumes "s \<in> {''cancelled'', ''dead-letter''}" "\<And>j. p j \<Longrightarrow> open_job j"
  shows "keeps_candidates d (update_jobs p (close_job s r n) d)"
  using keeps_settle [of s p "\<lambda>_. False" "\<lambda>c. c" d r n] assms by (simp add: update_candidates_def)

lemma keeps_audit: "keeps_candidates d (audit env w a pr so r n d)"
  by (rule keeps_same_tables) simp_all

lemma expire_keeps: "keeps_candidates d (expire_memory_candidates env d)"
proof -
  let ?gone = "filter (expired env) (cd_candidates d)"
  have "keeps_candidates d (update_candidates (expired env) (\<lambda>c. c\<lparr>cand_status := ''expired'', cand_updated_at := kv_now env\<rparr>)
      (update_jobs (\<lambda>j. open_job j \<and> jb_candidate j \<in> set (map cand_id ?gone)) (close_job ''dead-letter'' ''candidate-expired'' (kv_now env)) d))"
    (is "keeps_candidates d ?d1") unfolding update_commute
  proof (rule keeps_settle)
    show "cand_status c = ''pending'' \<and> candidate_life c (c\<lparr>cand_status := ''expired'', cand_updated_at := kv_now env\<rparr>)" if "expired env c" for c
      using that by (simp add: expired_def candidate_life_def)
  qed auto
  moreover have "keeps_candidates ?d1 (expire_memory_candidates env d)"
    unfolding expire_memory_candidates_def Let_def by (split if_split) (intro conjI impI keeps_audit keeps_candidates_refl)
  ultimately show ?thesis using keeps_candidates_trans by blast
qed

lemma update_jobs_mem: "j \<in> set (cd_jobs d) \<Longrightarrow> p j \<Longrightarrow> f j \<in> set (cd_jobs (update_jobs p f d))"
  by force

lemma grow_rows: "cs' = map g cs \<Longrightarrow> (\<And>c. candidate_life c (g c)) \<Longrightarrow> \<forall>c \<in> set cs. \<exists>c' \<in> set cs'. candidate_life c c'"
  by auto

text \<open>Changing the jobs only.\<close>

lemma keeps_jobs:
  assumes keys: "\<And>j. p j \<Longrightarrow> jb_id (f j) = jb_id j \<and> jb_candidate (f j) = jb_candidate j \<and> jb_policy (f j) = jb_policy j"
    and same: "\<And>j. candidate_inv d \<Longrightarrow> j \<in> set (cd_jobs d) \<Longrightarrow> p j \<Longrightarrow> \<not> final_job j \<and> \<not> completed (f j)"
    and ok: "\<And>j. candidate_inv d \<Longrightarrow> j \<in> set (cd_jobs d) \<Longrightarrow> p j \<Longrightarrow> job_ok (cd_candidates d) (cd_paused d) j \<Longrightarrow> job_ok (cd_candidates d) (cd_paused d) (f j)"
  shows "keeps_candidates d (update_jobs p f d)"
proof (rule keeps_candidates_map [where g = "\<lambda>c. c" and h = "\<lambda>j. if p j then f j else j"])
  show "candidate_life c c" for c by (simp add: candidate_life_def)
qed (simp_all add: keys same ok)

lemma set_subset_appendI: "set xs \<subseteq> set (xs @ ys)"
  by simp

lemma job_ok_more: "job_ok cs paused j \<Longrightarrow> set cs \<subseteq> set cs' \<Longrightarrow> job_ok cs' paused j"
  unfolding job_ok_def by blast

lemma insert_candidate_keeps: "insert_candidate c d = Inr d' \<Longrightarrow> keeps_candidates d d'"
proof -
  assume "insert_candidate c d = Inr d'"
  then have d': "d' = d\<lparr>cd_candidates := cd_candidates d @ [c]\<rparr>" and fresh: "cand_id c \<notin> cand_id ` set (cd_candidates d)"
    by (force simp: insert_candidate_def result_simps list_ex_iff split: if_split_asm)+
  show ?thesis
    unfolding keeps_candidates_def candidate_inv_def candidates_grow_def candidate_life_def final_job_def d' using fresh
    by (auto simp: list_all_iff job_ok_more [OF _ set_subset_appendI])
qed

lemma insert_jobD: "insert_job j d = Inr d' \<Longrightarrow> d' = d\<lparr>cd_jobs := cd_jobs d @ [j]\<rparr>"
  by (simp add: insert_job_def bindE_ensure split: if_split_asm)

lemma insert_job_keeps:
  assumes "insert_job j d = Inr d'" "candidate_inv d \<Longrightarrow> job_ok (cd_candidates d) (cd_paused d) j" "\<not> completed j"
  shows "keeps_candidates d d'"
proof -
  note d' = insert_jobD [OF assms(1)]
  have fresh: "jb_id j \<notin> jb_id ` set (cd_jobs d)"
    and key: "(jb_candidate j, jb_policy j) \<notin> (\<lambda>j. (jb_candidate j, jb_policy j)) ` set (cd_jobs d)"
    using assms(1) by (force simp: insert_job_def result_simps list_ex_iff split: if_split_asm)+
  show ?thesis
    unfolding keeps_candidates_def candidates_grow_def candidate_life_def using fresh key assms(2,3)
    by (auto simp: d' list_all_iff candidate_inv_def)
qed

lemma propose_keeps: "keeps_candidates d (fst (propose_memory_candidate env fresh inp who labels owner d))"
  using expire_keeps [of d env]
  by (auto simp: propose_memory_candidate_def Let_def keeps_candidates_refl split: sum.splits option.splits
      intro: keeps_candidates_trans insert_candidate_keeps)

lemma classify_keeps: "keeps_candidates d (fst (classify_memory_candidate env cid who labels owner d))"
  using expire_keeps by (simp add: classify_memory_candidate_def Let_def)

lemma cancel_stale_keeps: "keeps_candidates d (cancel_stale env identity c d)"
  unfolding cancel_stale_def Let_def
  by (split if_split) (auto intro!: keeps_close intro: keeps_candidates_trans [OF keeps_close keeps_audit])

lemma reconcile_audit_keeps: "keeps_candidates d (reconcile_audit env c status d)"
  by (simp add: reconcile_audit_def keeps_audit)

lemma closed_job_ok: "jb_status j \<in> {''cancelled'', ''dead-letter''} \<Longrightarrow> job_ok cs paused j"
  by (auto simp: job_ok_def open_job_def)

lemma reconcile_terminal_keeps:
  assumes "reconcile_terminal env p identity fresh c r supporting d = Inr (d', oc)"
  shows "keeps_candidates d d'"
proof -
  define status where "status = (if cand_status c = ''accepted'' then ''cancelled'' else ''dead-letter'')"
  have st: "status \<in> {''cancelled'', ''dead-letter''}" by (simp add: status_def)
  define close where "close = update_jobs (\<lambda>j. job_for (cand_id c) identity j \<and> open_job j) (close_job status (''candidate-terminal:'' @ cand_status c) (kv_now env))"
  have close: "keeps_candidates d (close d)" for d unfolding close_def by (rule keeps_close [OF st]) simp
  have new: "keeps_candidates e e'" if "insert_job (new_job env fresh (cand_id c) identity r supporting status reason) e = Inr e'" for e e' reason
    using that by (rule insert_job_keeps) (use st in \<open>auto simp: new_job_def completed_def intro!: closed_job_ok\<close>)
  note def = assms [unfolded reconcile_terminal_def Let_def, folded close_def status_def]
  show ?thesis
  proof (cases "find (\<lambda>j. job_for (cand_id c) (policy_version p) j \<and> closed_job j) (cd_jobs d)")
    case (Some j)
    with def have "d' = reconcile_audit env c (jb_status j) (close d)" by (simp add: close_def status_def)
    then show ?thesis using close reconcile_audit_keeps keeps_candidates_trans by blast
  next
    case None
    note def = def [unfolded None option.case]
    show ?thesis
    proof (cases "list_ex (\<lambda>j. job_for (cand_id c) identity j \<and> open_job j) (cd_jobs (close d))")
      case True
      with def have "d' = reconcile_audit env c status (close (close d))" by (simp add: close_def status_def)
      then show ?thesis using close reconcile_audit_keeps keeps_candidates_trans by blast
    next
      case False
      show ?thesis
      proof (cases "find (\<lambda>j. job_for (cand_id c) identity j \<and> closed_job j) (cd_jobs (close d))")
        case (Some j)
        with def False have "d' = reconcile_audit env c (jb_status j) (close d)" by (simp add: close_def status_def)
        then show ?thesis using close reconcile_audit_keeps keeps_candidates_trans by blast
      next
        case None
        with def False obtain e reason where "insert_job (new_job env fresh (cand_id c) identity r supporting status reason) (close d) = Inr e"
            "d' = reconcile_audit env c status e"
          by (auto simp: close_def status_def elim!: bindE_InrE)
        then show ?thesis using keeps_candidates_trans [OF close keeps_candidates_trans [OF new reconcile_audit_keeps]] by simp
      qed
    qed
  qed
qed

text \<open>What scheduling leaves behind: the job it names, queued for a decision to carry out.\<close>

definition scheduled :: "string \<Rightarrow> string \<Rightarrow> string \<Rightarrow> candidate_db \<Rightarrow> bool" where
  "scheduled jid cid identity d \<longleftrightarrow> (\<exists>j \<in> set (cd_jobs d). jb_id j = jid \<and> job_for cid identity j \<and> open_job j)"

definition sole_policy :: "string \<Rightarrow> string \<Rightarrow> candidate_db \<Rightarrow> bool" where
  "sole_policy cid identity d \<longleftrightarrow> (\<forall>j \<in> set (cd_jobs d). open_job j \<and> jb_candidate j = cid \<longrightarrow> jb_policy j = identity)"

lemma requeue_keys [simp]: "jb_id (requeue_job env r su st j) = jb_id j" "jb_candidate (requeue_job env r su st j) = jb_candidate j"
  "jb_policy (requeue_job env r su st j) = jb_policy j" "jb_status (requeue_job env r su st j) = st" "jb_memory (requeue_job env r su st j) = jb_memory j"
  "jb_attempts (requeue_job env r su st j) = jb_attempts j"
  by (simp_all add: requeue_job_def)

lemma requeue_ok:
  assumes "job_ok cs paused j" "open_job j" "st = ''paused'' \<or> (st = ''queued'' \<and> \<not> paused)"
    "jb_status k = st" "jb_candidate k = jb_candidate j" "jb_attempts k = jb_attempts j"
  shows "job_ok cs paused k"
proof (rule job_okI)
  from job_ok_open [OF assms(1,2)] assms(5,6) show "jb_attempts k = 0" "\<exists>c\<in>set cs. cand_id c = jb_candidate k \<and> cand_status c = ''pending''" by auto
qed (use assms(3,4) in auto)

lemma new_job_ok:
  assumes "c \<in> set cs" "cand_id c = cid" "cand_status c = ''pending''" "\<not> paused"
  shows "job_ok cs paused (new_job env jid cid identity r supporting (if b then ''queued'' else ''paused'') None)"
  using assms by (cases b) (auto intro!: job_okI simp: new_job_def)

lemma same_row: "candidate_inv d \<Longrightarrow> i \<in> set (cd_jobs d) \<Longrightarrow> j \<in> set (cd_jobs d) \<Longrightarrow> jb_id i = jb_id j \<Longrightarrow> i = j"
  unfolding candidate_inv_def by (meson distinct_map inj_onD)

lemma same_key_row: "candidate_inv d \<Longrightarrow> i \<in> set (cd_jobs d) \<Longrightarrow> j \<in> set (cd_jobs d) \<Longrightarrow> jb_candidate i = jb_candidate j \<Longrightarrow> jb_policy i = jb_policy j \<Longrightarrow> i = j"
  unfolding candidate_inv_def distinct_map by (auto dest: inj_onD)

lemma schedule_job_keeps:
  assumes "schedule_job env p identity explicit fresh cid r supporting d = Inr (d', s)" "\<not> cd_paused d"
    and "c \<in> set (cd_candidates d)" "cand_id c = cid" "cand_status c = ''pending''"
  shows "keeps_candidates d d' \<and> cd_candidates d' = cd_candidates d \<and> cd_memory d' = cd_memory d \<and> cd_paused d' = cd_paused d
    \<and> (candidate_inv d \<and> sole_policy cid identity d \<longrightarrow> sole_policy cid identity d') \<and> (\<forall>jid. s = Scheduled jid \<longrightarrow> scheduled jid cid identity d')"
proof (cases "find (job_for cid identity) (cd_jobs d)")
  case None
  then obtain e where e: "insert_job (new_job env fresh cid identity r supporting (if promotable r \<or> dr_decision r = Reject then ''queued'' else ''paused'') None) d = Inr e"
    and "d' = e" "s = Scheduled fresh"
    using assms(1) by (auto simp: schedule_job_def result_simps split: if_split_asm elim!: bindE_InrE)
  moreover have "keeps_candidates d e"
    using e by (rule insert_job_keeps) (use assms(2-5) new_job_ok in \<open>auto simp: new_job_def completed_def\<close>)
  moreover have "e = d\<lparr>cd_jobs := cd_jobs d @ [new_job env fresh cid identity r supporting (if promotable r \<or> dr_decision r = Reject then ''queued'' else ''paused'') None]\<rparr>"
    by (rule insert_jobD [OF e])
  ultimately show ?thesis
    by (auto simp: sole_policy_def scheduled_def new_job_def job_for_def open_job_def)
next
  case (Some j)
  let ?f = "\<lambda>x. (requeue_job env r supporting ''queued'' x)\<lparr>jb_last_error := None\<rparr>"
  from find_Some_set [OF Some] have j: "j \<in> set (cd_jobs d)" "job_for cid identity j" by auto
  consider "d' = d" "\<forall>jid. s \<noteq> Scheduled jid" | "open_job j" "d' = update_jobs (\<lambda>x. jb_id x = jb_id j) ?f d" "s = Scheduled (jb_id j)"
    using assms(1) Some by (auto simp: schedule_job_def Let_def open_job_def split: if_split_asm elim!: bindE_InrE)
  then show ?thesis
  proof cases
    case 1
    then show ?thesis by (simp add: keeps_candidates_refl)
  next
    case 2
    have "keeps_candidates d d'" unfolding 2(2)
    proof (rule keeps_jobs)
      fix x assume inv: "candidate_inv d" "x \<in> set (cd_jobs d)" "jb_id x = jb_id j"
      from same_row [OF inv(1,2) j(1) inv(3)] 2(1) have x: "open_job x" by simp
      then show "\<not> final_job x \<and> \<not> completed (?f x)" by (auto simp: completed_def open_job_def final_job_def)
      show "job_ok (cd_candidates d) (cd_paused d) (?f x)" if "job_ok (cd_candidates d) (cd_paused d) x"
        using that x by (rule requeue_ok [where st = "''queued''"]) (simp_all add: assms(2))
    qed simp
    moreover have "scheduled (jb_id j) cid identity d'"
    proof -
      have "?f j \<in> set (cd_jobs d')" unfolding 2(2) by (rule update_jobs_mem [OF j(1)]) simp
      moreover have "jb_id (?f j) = jb_id j \<and> job_for cid identity (?f j) \<and> open_job (?f j)" using j(2) by (simp add: job_for_def open_job_def)
      ultimately show ?thesis unfolding scheduled_def by blast
    qed
    moreover have "sole_policy cid identity d'" if inv: "candidate_inv d \<and> sole_policy cid identity d"
      unfolding sole_policy_def
    proof (intro ballI impI)
      fix y assume y: "y \<in> set (cd_jobs d')" "open_job y \<and> jb_candidate y = cid"
      then obtain x where x: "x \<in> set (cd_jobs d)" "y = (if jb_id x = jb_id j then ?f x else x)" by (auto simp: 2(2))
      show "jb_policy y = identity"
      proof (cases "jb_id x = jb_id j")
        case True
        with same_row [of d x j] inv x j show ?thesis by (simp add: job_for_def)
      next
        case False
        with inv x y show ?thesis by (simp add: sole_policy_def)
      qed
    qed
    ultimately show ?thesis using 2 by simp
  qed
qed

text \<open>Carrying a decision out: the candidate settles, and the job that settles it is its only open one.\<close>

lemma settle_one:
  assumes cs: "cd_candidates d' = map (\<lambda>x. if cand_id x = cid \<and> cand_status x = ''pending'' then g x else x) (cd_candidates d)"
    and js: "cd_jobs d' = map (\<lambda>j. if jb_id j = jid then f j else j) (cd_jobs d)" and "cd_paused d' = cd_paused d"
    and g: "\<And>x. cand_status x = ''pending'' \<Longrightarrow> candidate_life x (g x) \<and> cand_status (g x) = st"
    and f: "\<And>j. jb_id (f j) = jb_id j \<and> jb_candidate (f j) = jb_candidate j \<and> jb_policy (f j) = jb_policy j"
    and fst: "\<And>j. jb_status (f j) = js" "js = ''dead-letter'' \<or> js = ''complete'' \<and> (\<forall>j. jb_memory (f j) \<noteq> None) \<and> st = ''accepted''"
    and sch: "scheduled jid cid identity d" and sole: "sole_policy cid identity d"
  shows "keeps_candidates d d'"
proof -
  have life: "candidate_life x (if cand_id x = cid \<and> cand_status x = ''pending'' then g x else x)" for x using g by (auto simp: candidate_life_def)
  have "candidate_inv d' \<and> candidates_grow d d'" if inv: "candidate_inv d"
  proof -
    obtain j where j: "j \<in> set (cd_jobs d)" "jb_id j = jid" "jb_candidate j = cid" "jb_policy j = identity" "open_job j"
      using sch by (auto simp: scheduled_def job_for_def)
    have ok: "job_ok (cd_candidates d) (cd_paused d) x" if "x \<in> set (cd_jobs d)" for x using inv that by (simp add: candidate_inv_def list_all_iff)
    obtain c where c: "c \<in> set (cd_candidates d)" "cand_id c = cid" "cand_status c = ''pending''" using job_ok_open [OF ok [OF j(1)] j(5)] j(3) by blast
    have others: "\<not> (open_job x \<and> jb_candidate x = cid)" if "x \<in> set (cd_jobs d)" "jb_id x \<noteq> jid" for x
      using same_key_row [OF inv that(1) j(1)] sole that j by (auto simp: sole_policy_def)
    have none_complete: "jb_candidate x \<noteq> cid" if "x \<in> set (cd_jobs d)" "completed x" for x
    proof
      assume "jb_candidate x = cid"
      with job_ok_complete [OF ok [OF that(1)]] that(2) obtain a where "a \<in> set (cd_candidates d)" "cand_id a = cid" "cand_status a = ''accepted''"
        by (auto simp: completed_def)
      with c inv show False by (auto simp: candidate_inv_def distinct_map dest: inj_onD)
    qed
    have jobs: "job_ok (cd_candidates d') (cd_paused d') (if jb_id x = jid then f x else x)" if x: "x \<in> set (cd_jobs d)" for x
    proof (cases "jb_id x = jid")
      case True
      with same_row [OF inv x j(1)] j have [simp]: "x = j" by simp
      show ?thesis
      proof (cases "js = ''dead-letter''")
        case True
        with fst(1) show ?thesis using j(2) by (simp add: closed_job_ok)
      next
        case False
        with fst(2) have js: "js = ''complete''" and mem: "jb_memory (f j) \<noteq> None" and st: "st = ''accepted''" by auto
        have "g c \<in> set (cd_candidates d')" "cand_id (g c) = cid" "cand_status (g c) = ''accepted''"
          using c g [of c] st by (auto simp: cs candidate_life_def)
        then show ?thesis using fst(1) mem js f j(2,3) by (auto intro!: job_okI simp: open_job_def)
      qed
    next
      case False
      have "job_ok (cd_candidates d') (cd_paused d) x" unfolding cs
        by (rule job_ok_same [OF ok [OF x] life]) (use others [OF x False] in simp)
      with False assms(3) show ?thesis by simp
    qed
    have comp: "distinct (map jb_candidate (filter completed (cd_jobs d')))"
    proof -
      have "distinct (map jb_id (cd_jobs d'))" using inv f by (simp add: js candidate_inv_def comp_def if_distrib [of jb_id] cong: if_cong)
      then have "distinct (filter completed (cd_jobs d'))" by (simp add: distinct_map)
      moreover have one: "x = y" if "x \<in> set (cd_jobs d)" "y \<in> set (cd_jobs d)" "jb_candidate x = jb_candidate y"
          "completed x \<or> jb_id x = jid" "completed y \<or> jb_id y = jid" for x y
      proof -
        have inj: "completed x \<Longrightarrow> completed y \<Longrightarrow> x = y" using inv that(1-3) by (auto simp: candidate_inv_def distinct_map dest: inj_onD)
        have "z = j" if "z \<in> set (cd_jobs d)" "jb_id z = jid" for z using same_row [OF inv that(1) j(1)] that(2) j(2) by simp
        then show ?thesis using that inj none_complete j(3) by metis
      qed
      have "inj_on jb_candidate (set (filter completed (cd_jobs d')))"
      proof (rule inj_onI)
        fix a b assume "a \<in> set (filter completed (cd_jobs d'))" "b \<in> set (filter completed (cd_jobs d'))" and eq: "jb_candidate a = jb_candidate b"
        then obtain x y where x: "x \<in> set (cd_jobs d)" "a = (if jb_id x = jid then f x else x)" "completed a"
          and y: "y \<in> set (cd_jobs d)" "b = (if jb_id y = jid then f y else y)" "completed b" by (auto simp: js)
        have "x = y"
        proof (rule one [OF x(1) y(1)])
          show "jb_candidate x = jb_candidate y" using eq x(2) y(2) f by (auto split: if_split_asm)
          show "completed x \<or> jb_id x = jid" "completed y \<or> jb_id y = jid" using x(2,3) y(2,3) by auto
        qed
        with x(2) y(2) show "a = b" by simp
      qed
      ultimately show ?thesis by (simp add: distinct_map)
    qed
    have ids: "map (\<lambda>x. cand_id (if cand_id x = cid \<and> cand_status x = ''pending'' then g x else x)) (cd_candidates d) = map cand_id (cd_candidates d)"
      using life by (simp add: candidate_life_def)
    have keys: "map (\<lambda>x. jb_id (if jb_id x = jid then f x else x)) (cd_jobs d) = map jb_id (cd_jobs d)"
      "map (\<lambda>x. (jb_candidate (if jb_id x = jid then f x else x), jb_policy (if jb_id x = jid then f x else x))) (cd_jobs d)
        = map (\<lambda>x. (jb_candidate x, jb_policy x)) (cd_jobs d)" using f by simp_all
    have "list_all (job_ok (cd_candidates d') (cd_paused d')) (cd_jobs d')" 
      unfolding list_all_iff js set_map by (rule ballI, erule imageE, simp only: jobs)
    moreover have "distinct (map cand_id (cd_candidates d'))" "distinct (map jb_id (cd_jobs d'))" "distinct (map (\<lambda>j. (jb_candidate j, jb_policy j)) (cd_jobs d'))"
      unfolding cs js map_map comp_def ids keys using inv by (simp_all add: candidate_inv_def)
    moreover have "x \<in> set (cd_jobs d')" if "x \<in> set (cd_jobs d)" "final_job x" for x
    proof -
      have "jb_id x \<noteq> jid" using same_row [OF inv that(1) j(1)] j(2,5) that(2) by (auto simp: final_job_def open_job_def)
      with that(1) show ?thesis by (force simp: js)
    qed
    then have "candidates_grow d d'" using grow_rows [OF cs life] by (simp add: candidates_grow_def)
    ultimately show ?thesis using comp by (simp add: candidate_inv_def)
  qed
  then show ?thesis by (simp add: keeps_candidates_def)
qed

lemma consolidation_audit_keeps: "keeps_candidates d (consolidation_audit env c status d)"
  by (simp add: consolidation_audit_def keeps_audit)

lemma consolidation_audit_simps [simp]: "cd_memory (consolidation_audit env c status d) = cd_memory d"
  "cd_candidates (consolidation_audit env c status d) = cd_candidates d" "cd_jobs (consolidation_audit env c status d) = cd_jobs d"
  "cd_paused (consolidation_audit env c status d) = cd_paused d"
  by (simp_all add: consolidation_audit_def)

lemma candidate_life_update: "cand_status x = ''pending'' \<Longrightarrow> candidate_life x (x\<lparr>cand_status := s, cand_updated_at := n\<rparr>)"
  "cand_status x = ''pending'' \<Longrightarrow> candidate_life x (x\<lparr>cand_status := s, cand_rejection_reason := r, cand_updated_at := n\<rparr>)"
  by (simp_all add: candidate_life_def)

lemma decision_cases: "promotable r \<or> dr_decision r = Reject \<or> dr_decision r = Review"
  by (cases "dr_decision r") (simp_all add: promotable_def)

lemma update_jobs_twice:
  assumes "\<And>j. jb_id (g j) = jb_id j"
  shows "update_jobs (\<lambda>j. jb_id j = jid) f (update_jobs (\<lambda>j. jb_id j = jid \<and> q j) g d) = update_jobs (\<lambda>j. jb_id j = jid) (\<lambda>j. f (if q j then g j else j)) d"
  using assms by (auto simp: update_jobs_def intro!: arg_cong [where f = "\<lambda>js. cd_jobs_update (\<lambda>_. js) d"])

lemma execute_job_cases:
  assumes "execute_job env p jid fresh c cls r labels owner d = Inr (d', oc)" "dr_decision r \<noteq> Review"
  obtains (wrote) axes m mid f where "promotable r" "promotion_axes c r = Inr axes"
      "remember_in_transaction (kv_memory env) fresh (promotion_input c cls r axes) labels owner axes (cd_memory d) = Inr (m, mid)"
      "oc_status oc = ''accepted''" "oc_memory oc = Some mid"
      "cd_memory d' = m" "cd_paused d' = cd_paused d"
      "cd_candidates d' = map (\<lambda>x. if cand_id x = cand_id c \<and> cand_status x = ''pending'' then x\<lparr>cand_status := ''accepted'', cand_updated_at := kv_now env\<rparr> else x) (cd_candidates d)"
      "cd_jobs d' = map (\<lambda>j. if jb_id j = jid then f j\<lparr>jb_status := ''complete'', jb_memory := Some mid, jb_updated_at := kv_now env\<rparr> else j) (cd_jobs d)"
      "\<And>j. jb_id (f j) = jb_id j \<and> jb_candidate (f j) = jb_candidate j \<and> jb_policy (f j) = jb_policy j"
  | (failed) status where "promotable r" "d' = consolidation_audit env c status (update_jobs (\<lambda>j. jb_id j = jid) (close_job status ''canonical-write-failed'' (kv_now env)) d)"
      "status = ''retry'' \<or> status = ''dead-letter''" "oc_status oc = status" "oc_memory oc = None"
  | (rejected) f where "dr_decision r = Reject" "oc_status oc = ''rejected''" "oc_memory oc = None"
      "cd_memory d' = cd_memory d" "cd_paused d' = cd_paused d"
      "cd_candidates d' = map (\<lambda>x. if cand_id x = cand_id c \<and> cand_status x = ''pending'' then x\<lparr>cand_status := ''rejected'', cand_rejection_reason := Some (dr_reason_code r), cand_updated_at := kv_now env\<rparr> else x) (cd_candidates d)"
      "cd_jobs d' = map (\<lambda>j. if jb_id j = jid then close_job ''dead-letter'' (dr_reason_code r) (kv_now env) (f j) else j) (cd_jobs d)"
      "\<And>j. jb_id (f j) = jb_id j \<and> jb_candidate (f j) = jb_candidate j \<and> jb_policy (f j) = jb_policy j"
proof -
  define attempt where "attempt = min (1 + (case find (\<lambda>j. jb_id j = jid) (cd_jobs d) of None \<Rightarrow> 0 | Some j \<Rightarrow> jb_attempts j)) (2 ^ 63 - 1 :: nat)"
  define f where "f j = (if jb_status j \<in> set [''queued'', ''retry''] then j\<lparr>jb_status := ''running'', jb_attempts := attempt, jb_updated_at := kv_now env\<rparr> else j)" for j :: job
  have f: "jb_id (f j) = jb_id j \<and> jb_candidate (f j) = jb_candidate j \<and> jb_policy (f j) = jb_policy j" for j by (simp add: f_def)
  define claim where "claim = update_jobs (\<lambda>j. jb_id j = jid \<and> jb_status j \<in> set [''queued'', ''retry''])
      (\<lambda>j. j\<lparr>jb_status := ''running'', jb_attempts := attempt, jb_updated_at := kv_now env\<rparr>) d"
  have jobs: "map (\<lambda>j. if jb_id j = jid then g j else j) (cd_jobs claim) = map (\<lambda>j. if jb_id j = jid then g (f j) else j) (cd_jobs d)" for g
    by (auto simp: claim_def f_def)
  have tables: "cd_candidates claim = cd_candidates d" "cd_memory claim = cd_memory d" "cd_paused claim = cd_paused d" by (simp_all add: claim_def)
  note def = assms(1) [unfolded execute_job_def Let_def attempt_def [symmetric], folded claim_def]
  have claimed: "length (filter (\<lambda>j. jb_id j = jid \<and> jb_status j \<in> set [''queued'', ''retry'']) (cd_jobs d)) = 1"
    using def by (simp add: bindE_ensure split: if_split_asm)
  note def = def [unfolded claimed ensure_def, simplified]
  show thesis
  proof (cases "promotable r")
    case True
    with def obtain axes where axes: "promotion_axes c r = Inr axes" by (auto elim!: bindE_InrE)
    note def = def [unfolded axes bindE.simps tables, simplified True, simplified]
    show thesis
    proof (cases "remember_in_transaction (kv_memory env) fresh (promotion_input c cls r axes) labels owner axes (cd_memory d)")
      case (Inl e)
      show thesis
        by (rule failed [of "if max_retries p < attempt then ''dead-letter'' else ''retry''"]) (use True def Inl in \<open>auto split: if_split_asm\<close>)
    next
      case (Inr mm)
      obtain m mid where mm: "mm = (m, mid)" by force
      show thesis
        by (rule wrote [OF True axes Inr [unfolded mm], where f = f]) (use def Inr mm f in \<open>auto simp: jobs tables bindE_ensure split: if_split_asm\<close>)
    qed
  next
    case False
    then have R: "dr_decision r = Reject" using decision_cases assms(2) by blast
    show thesis
      by (rule rejected [OF R, where f = f]) (use def False R f in \<open>auto simp: jobs tables bindE_ensure split: if_split_asm\<close>)
  qed
qed

lemma execute_job_keeps:
  assumes ex: "execute_job env p jid fresh c cls r labels owner d = Inr (d', oc)" "dr_decision r \<noteq> Review" and "\<not> cd_paused d"
    and sch: "scheduled jid (cand_id c) identity d" and sole: "sole_policy (cand_id c) identity d"
  shows "keeps_candidates d d'"
  using ex
proof (cases rule: execute_job_cases)
  case (wrote axes m mid f)
  show ?thesis
    by (rule settle_one [OF wrote(8,9) wrote(7) _ _ _ _ sch sole, where st = "''accepted''" and js = "''complete''"])
      (simp_all add: candidate_life_update wrote(10))
next
  case (rejected f)
  show ?thesis
    by (rule settle_one [OF rejected(6,7) rejected(5) _ _ _ _ sch sole, where st = "''rejected''" and js = "''dead-letter''"])
      (simp_all add: candidate_life_update rejected(8))
next
  case (failed status)
  from sch obtain j where j: "j \<in> set (cd_jobs d)" "jb_id j = jid" "open_job j" by (auto simp: scheduled_def)
  have "keeps_candidates d (update_jobs (\<lambda>j. jb_id j = jid) (close_job status ''canonical-write-failed'' (kv_now env)) d)"
  proof (rule keeps_jobs)
    fix x assume inv: "candidate_inv d" "x \<in> set (cd_jobs d)" "jb_id x = jid"
    from same_row [OF inv(1,2) j(1)] inv(3) j have x: "open_job x" by simp
    then show "\<not> final_job x \<and> \<not> completed (close_job status ''canonical-write-failed'' (kv_now env) x)"
      using failed(3) by (auto simp: completed_def open_job_def final_job_def)
    show "job_ok (cd_candidates d) (cd_paused d) (close_job status ''canonical-write-failed'' (kv_now env) x)" if ok: "job_ok (cd_candidates d) (cd_paused d) x"
      using failed(3)
    proof
      assume "status = ''retry''"
      with job_ok_open [OF ok x] \<open>\<not> cd_paused d\<close> show ?thesis by (intro job_okI) (auto simp: close_job_def)
    qed (simp add: closed_job_ok)
  qed simp
  then show ?thesis unfolding failed(2) using consolidation_audit_keeps keeps_candidates_trans by blast
qed

lemma sole_after_stale: "cand_id c = cid \<Longrightarrow> sole_policy cid identity (cancel_stale env identity c d)"
  by (auto simp: sole_policy_def cancel_stale_def Let_def open_job_def)

lemma sole_close: "sole_policy cid identity d \<Longrightarrow> s \<in> {''cancelled'', ''dead-letter''} \<Longrightarrow> sole_policy cid identity (update_jobs p (close_job s r n) d)"
  by (auto simp: sole_policy_def open_job_def)

lemma consolidate_pending_cases:
  assumes "consolidate_pending env p identity explicit fj fm c cls r labels owner start d0 = (d', res)"
  obtains (nothing) e where "d' = start" "res = Inl e"
  | (standing) d oc where "d = update_jobs (\<lambda>j. job_for (cand_id c) (policy_version p) j \<and> open_job j) (close_job ''cancelled'' ''legacy-policy-identity-unknown'' (kv_now env)) d0"
      "schedule_job env p identity explicit fj (cand_id c) r (cc_supporting cls) d = Inr (d', Standing oc)" "res = Inr oc"
  | (working) d jid d1 where "d = update_jobs (\<lambda>j. job_for (cand_id c) (policy_version p) j \<and> open_job j) (close_job ''cancelled'' ''legacy-policy-identity-unknown'' (kv_now env)) d0"
      "schedule_job env p identity explicit fj (cand_id c) r (cc_supporting cls) d = Inr (d1, Scheduled jid)"
      "dr_decision r = Review \<and> d' = consolidation_audit env c ''review'' (update_jobs (\<lambda>j. jb_id j = jid \<and> open_job j) (requeue_job env r (cc_supporting cls) ''paused'') d1)
        \<and> (\<exists>oc. res = Inr oc \<and> oc_memory oc = None)
      \<or> dr_decision r \<noteq> Review \<and> (d' = d1 \<and> (\<exists>e. res = Inl e) \<or> (\<exists>oc. execute_job env p jid fm c cls r labels owner d1 = Inr (d', oc) \<and> res = Inr oc))"
  using assms unfolding consolidate_pending_def Let_def
  by (auto split: sum.splits prod.splits schedule.splits if_split_asm)

lemma consolidate_pending_keeps:
  assumes "c \<in> set (cd_candidates d0)" "cand_status c = ''pending''" "\<not> cd_paused d0"
    and "keeps_candidates a start" "keeps_candidates a d0" "candidate_inv a" "sole_policy (cand_id c) identity d0"
  shows "keeps_candidates a (fst (consolidate_pending env p identity explicit fj fm c cls r labels owner start d0))"
proof -
  obtain d' res where run: "consolidate_pending env p identity explicit fj fm c cls r labels owner start d0 = (d', res)" by force
  let ?d = "update_jobs (\<lambda>j. job_for (cand_id c) (policy_version p) j \<and> open_job j) (close_job ''cancelled'' ''legacy-policy-identity-unknown'' (kv_now env)) d0"
  have d: "keeps_candidates a ?d" by (rule keeps_candidates_trans [OF assms(5) keeps_close]) auto
  with assms(6) have inv: "candidate_inv ?d" by (simp add: keeps_candidates_def)
  have sole: "sole_policy (cand_id c) identity ?d" by (rule sole_close [OF assms(7)]) simp
  have sched: "schedule_job env p identity explicit fj (cand_id c) r (cc_supporting cls) ?d = Inr (d1, s) \<Longrightarrow>
      keeps_candidates a d1 \<and> \<not> cd_paused d1 \<and> sole_policy (cand_id c) identity d1 \<and> (\<forall>jid. s = Scheduled jid \<longrightarrow> scheduled jid (cand_id c) identity d1)" for d1 s
    using schedule_job_keeps [where d = ?d and c = c] assms(1-3) inv sole keeps_candidates_trans [OF d] by fastforce
  from run have "keeps_candidates a d'"
  proof (cases rule: consolidate_pending_cases)
    case nothing
    with assms(4) show ?thesis by simp
  next
    case (standing d oc)
    with sched show ?thesis by blast
  next
    case (working d jid d1)
    with sched have s: "keeps_candidates a d1" "\<not> cd_paused d1" "sole_policy (cand_id c) identity d1" "scheduled jid (cand_id c) identity d1" by auto
    have "keeps_candidates d1 (update_jobs (\<lambda>j. jb_id j = jid \<and> open_job j) (requeue_job env r (cc_supporting cls) ''paused'') d1)"
      by (rule keeps_jobs) (auto simp: completed_def open_job_def final_job_def intro: requeue_ok [where st = "''paused''"])
    then have "keeps_candidates a (consolidation_audit env c ''review'' (update_jobs (\<lambda>j. jb_id j = jid \<and> open_job j) (requeue_job env r (cc_supporting cls) ''paused'') d1))"
      using s(1) consolidation_audit_keeps keeps_candidates_trans by blast
    moreover have "keeps_candidates a d'" if "execute_job env p jid fm c cls r labels owner d1 = Inr (d', oc)" "dr_decision r \<noteq> Review" for oc
      using keeps_candidates_trans [OF s(1) execute_job_keeps [OF that s(2,4,3)]] .
    ultimately show ?thesis using working(3) s(1) by auto
  qed
  then show ?thesis by (simp add: run)
qed

lemma expired_gone: "c \<in> set (cd_candidates (expire_memory_candidates env d)) \<Longrightarrow> \<not> expired env c"
  by (auto simp: expire_memory_candidates_def Let_def expired_def split: if_split_asm)

lemma expire_nothing:
  assumes "\<And>c. c \<in> set (cd_candidates d) \<Longrightarrow> \<not> expired env c"
  shows "expire_memory_candidates env d = d"
proof -
  have "filter (expired env) (cd_candidates d) = []" using assms by (simp add: filter_empty_conv)
  moreover have "update_candidates (expired env) g d = d" for g using assms by (simp add: update_candidates_def map_idI)
  ultimately show ?thesis by (simp add: expire_memory_candidates_def update_jobs_def)
qed

lemma expire_idem [simp]: "expire_memory_candidates env (expire_memory_candidates env d) = expire_memory_candidates env d"
  by (rule expire_nothing [OF expired_gone])

lemma expire_same [simp]: "cd_memory (expire_memory_candidates env d) = cd_memory d" "cd_paused (expire_memory_candidates env d) = cd_paused d"
  by (simp_all add: expire_memory_candidates_def Let_def)

lemma cancel_stale_same [simp]: "cd_memory (cancel_stale env i c d) = cd_memory d" "cd_paused (cancel_stale env i c d) = cd_paused d"
  "cd_candidates (cancel_stale env i c d) = cd_candidates d"
  by (simp_all add: cancel_stale_def Let_def)

lemma consolidate_cases:
  assumes "consolidate_with_action env p fj fm cid who labels owner approval replacing d0 = (d', res)"
  obtains (nothing) e where "d' = d0 \<or> d' = expire_memory_candidates env d0" "res = Inl e"
  | (terminal) identity c cls r0 r supporting oc where "cand_status c \<noteq> ''pending''" "res = Inr oc"
      "reconcile_terminal env p identity fj c r supporting (cancel_stale env identity c (expire_memory_candidates env d0)) = Inr (d', oc)"
      "evaluate_candidate env p cid who labels owner approval replacing (expire_memory_candidates env d0) = Inr (c, cls, r0)"
  | (pending) identity c cls r0 r where "policy_identity (kv_cons env) p = Inr identity" "cand_status c = ''pending''" "\<not> cd_paused d0"
      "evaluate_candidate env p cid who labels owner approval replacing (expire_memory_candidates env d0) = Inr (c, cls, r0)"
      "r = apply_capacity (min (max_active (ceilings p)) (md_max_active (cd_memory d0))) (active_count (kv_memory env) (cd_memory d0)) r0"
      "consolidate_pending env p identity approval fj fm c cls r labels owner (expire_memory_candidates env d0)
         (cancel_stale env identity c (expire_memory_candidates env d0)) = (d', res)"
  using assms unfolding consolidate_with_action_def Let_def classify_memory_candidate_def fst_conv expire_idem expire_same
  by (auto simp: result_simps split: sum.splits prod.splits if_split_asm elim!: bindE_InrE)

lemma evaluated_row: "evaluate_candidate env p cid who labels owner a s d = Inr (c, cls, r) \<Longrightarrow> c \<in> set (cd_candidates d) \<and> cand_id c = cid"
  by (auto simp: evaluate_candidate_def memory_candidate_def result_simps dest!: find_Some_set elim!: bindE_InrE)

lemma consolidate_keeps: "keeps_candidates d0 (fst (consolidate_with_action env p fj fm cid who labels owner approval replacing d0))"
proof -
  obtain d' res where run: "consolidate_with_action env p fj fm cid who labels owner approval replacing d0 = (d', res)" by force
  have stale: "keeps_candidates d0 (cancel_stale env i c (expire_memory_candidates env d0))" for i c
    using keeps_candidates_trans [OF expire_keeps cancel_stale_keeps] .
  from run have "keeps_candidates d0 d'"
  proof (cases rule: consolidate_cases)
    case nothing
    then show ?thesis using keeps_candidates_refl expire_keeps by blast
  next
    case (terminal identity c cls r0 r supporting oc)
    then show ?thesis using keeps_candidates_trans [OF stale reconcile_terminal_keeps] by blast
  next
    case (pending identity c cls r0 r)
    show ?thesis
    proof (cases "candidate_inv d0")
      case True
      have "keeps_candidates d0 (fst (consolidate_pending env p identity approval fj fm c cls r labels owner (expire_memory_candidates env d0)
         (cancel_stale env identity c (expire_memory_candidates env d0))))"
        by (rule consolidate_pending_keeps [OF _ pending(2) _ expire_keeps stale True sole_after_stale])
          (use pending(3) evaluated_row [OF pending(4)] in simp_all)
      with pending(6) show ?thesis by simp
    qed (simp add: keeps_candidates_def)
  qed
  then show ?thesis by (simp add: run)
qed

lemma requeue_all:
  assumes "cd_candidates d' = cd_candidates d" "cd_jobs d' = map (\<lambda>j. if q j then j\<lparr>jb_status := st, jb_updated_at := n\<rparr> else j) (cd_jobs d)"
    and q: "\<And>j. q j \<Longrightarrow> open_job j" and st: "st = ''paused'' \<or> st = ''queued'' \<and> \<not> cd_paused d'"
    and waiting: "\<And>j. cd_paused d' \<Longrightarrow> \<not> q j \<Longrightarrow> jb_status j \<notin> {''queued'', ''retry''}"
  shows "keeps_candidates d d'"
proof (rule keeps_candidates_map [where g = "\<lambda>c. c", OF _ assms(2)])
  show "cd_candidates d' = map (\<lambda>c. c) (cd_candidates d)" using assms(1) by simp
  show "candidate_life c c" for c by (simp add: candidate_life_def)
  show "jb_id (if q j then j\<lparr>jb_status := st, jb_updated_at := n\<rparr> else j) = jb_id j \<and> jb_candidate (if q j then j\<lparr>jb_status := st, jb_updated_at := n\<rparr> else j) = jb_candidate j
      \<and> jb_policy (if q j then j\<lparr>jb_status := st, jb_updated_at := n\<rparr> else j) = jb_policy j" for j by simp
  show "(final_job j \<longrightarrow> (if q j then j\<lparr>jb_status := st, jb_updated_at := n\<rparr> else j) = j)
      \<and> (completed (if q j then j\<lparr>jb_status := st, jb_updated_at := n\<rparr> else j) \<longrightarrow> completed j)" for j
    using st q [of j] by (auto simp: completed_def open_job_def final_job_def)
  fix j assume ok: "job_ok (cd_candidates d) (cd_paused d) j"
  show "job_ok (map (\<lambda>c. c) (cd_candidates d)) (cd_paused d') (if q j then j\<lparr>jb_status := st, jb_updated_at := n\<rparr> else j)"
  proof (cases "q j")
    case True
    have "job_ok (cd_candidates d) False j" using ok by (auto simp: job_ok_def)
    with job_ok_open [OF ok q [OF True]] True st show ?thesis by (auto intro!: job_okI)
  next
    case False
    with ok waiting [of j] show ?thesis unfolding job_ok_def by auto
  qed
qed

lemma pause_keeps: "keeps_candidates d (fst (pause_memory_consolidation env d))"
  by (rule requeue_all [where q = "\<lambda>j. jb_status j \<in> set [''queued'', ''retry'', ''running'']" and st = "''paused''"])
    (auto simp: pause_memory_consolidation_def Let_def open_job_def)

lemma resume_keeps: "keeps_candidates d (fst (resume_memory_consolidation env d))"
  by (rule requeue_all [where q = "\<lambda>j. jb_status j = ''paused''" and st = "''queued''"])
    (auto simp: resume_memory_consolidation_def Let_def open_job_def)

lemma update_status_keeps:
  assumes "status \<noteq> ''pending''"
  shows "keeps_candidates d (fst (update_candidate_status env cid status who labels owner redact d))"
proof -
  have "keeps_candidates d (update_jobs (\<lambda>j. jb_candidate j = cid \<and> open_job j) (close_job ''cancelled'' status (kv_now env))
      (update_candidates (\<lambda>c. cand_id c = cid \<and> cand_status c = ''pending'') g d))"
    if "\<And>c. cand_status c = ''pending'' \<Longrightarrow> candidate_life c (g c)" for g
    by (rule keeps_settle) (use that in auto)
  then show ?thesis
    by (auto simp: update_candidate_status_def Let_def keeps_candidates_refl candidate_life_def split: option.splits)
qed

lemma change_pending_keeps:
  assumes "\<And>c. cand_status c = ''pending'' \<Longrightarrow> candidate_life c (f c)"
  shows "keeps_candidates d (fst (change_pending env cid reason f d))"
proof -
  have "keeps_candidates d (update_jobs (\<lambda>j. jb_candidate j = cid \<and> open_job j) (close_job ''cancelled'' reason (kv_now env))
      (update_candidates (\<lambda>c. cand_id c = cid \<and> cand_status c = ''pending'') f d))"
    by (rule keeps_settle) (use assms in auto)
  then show ?thesis by (simp add: change_pending_def Let_def keeps_candidates_refl)
qed

lemma edit_keeps: "keeps_candidates d (fst (edit_memory_candidate env cid title content who labels owner d))"
  by (auto simp: edit_memory_candidate_def Let_def expire_keeps candidate_life_def split: option.splits sum.splits
      intro!: keeps_candidates_trans [OF expire_keeps change_pending_keeps])

lemma working_keeps: "keeps_candidates d (fst (set_memory_candidate_working env cid who labels owner d))"
  by (auto simp: set_memory_candidate_working_def Let_def expire_keeps candidate_life_def split: option.splits sum.splits
      intro!: keeps_candidates_trans [OF expire_keeps change_pending_keeps])

lemma first_mem: "(case ys of [] \<Rightarrow> None | y # _ \<Rightarrow> Some y) = Some x \<Longrightarrow> x \<in> set ys"
  by (cases ys) auto

lemma last_failed_row: "last_failed cid d = Some j \<Longrightarrow> j \<in> set (cd_jobs d) \<and> jb_candidate j = cid \<and> jb_status j \<in> {''dead-letter'', ''retry''}"
  unfolding last_failed_def by (drule first_mem) simp

lemma retry_keeps: "keeps_candidates d (fst (retry_memory_candidate env cid who labels owner d))"
proof -
  have "keeps_candidates d (update_jobs (\<lambda>x. jb_id x = jb_id j) (\<lambda>x. x\<lparr>jb_status := ''queued'', jb_attempts := 0, jb_last_error := None, jb_updated_at := n\<rparr>) d)"
    if j: "last_failed cid d = Some j" and run: "\<not> cd_paused d" and c: "c \<in> set (cd_candidates d)" "cand_id c = cid" "cand_status c = ''pending''" for j c n
  proof (rule keeps_jobs)
    fix x assume inv: "candidate_inv d" "x \<in> set (cd_jobs d)" "jb_id x = jb_id j"
    from last_failed_row [OF j] same_row [OF inv(1,2) _ inv(3)] have x: "x = j" by simp
    from last_failed_row [OF j] show "\<not> final_job x \<and> \<not> completed (x\<lparr>jb_status := ''queued'', jb_attempts := 0, jb_last_error := None, jb_updated_at := n\<rparr>)"
      by (auto simp: completed_def final_job_def x)
    show "job_ok (cd_candidates d) (cd_paused d) (x\<lparr>jb_status := ''queued'', jb_attempts := 0, jb_last_error := None, jb_updated_at := n\<rparr>)"
      using run c last_failed_row [OF j] by (intro job_okI) (auto simp: x)
  qed simp
  then show ?thesis
    by (auto simp: retry_memory_candidate_def keeps_candidates_refl memory_candidate_def result_simps split: option.splits sum.splits elim!: bindE_InrE dest!: find_Some_set)
qed

lemma recover_keeps: "keeps_candidates d (fst (recover_jobs env p fresh k who labels owner xs d))"
proof (induction xs arbitrary: k d)
  case (Cons x xs)
  obtain cid decision where x: "x = (cid, decision)" by force
  let ?run = "consolidate_memory_candidate env p (fst (fresh k)) (snd (fresh k)) cid who labels owner (decision = decision_as_str Approve) d"
  have one: "keeps_candidates d (fst ?run)" by (simp add: consolidate_memory_candidate_def consolidate_keeps)
  obtain d1 r1 where run: "?run = (d1, r1)" by force
  with one have one: "keeps_candidates d d1" by simp
  have rest: "keeps_candidates d (fst (recover_jobs env p fresh (k + 1) who labels owner xs d1))" by (rule keeps_candidates_trans [OF one Cons.IH])
  obtain d2 r2 where more: "recover_jobs env p fresh (k + 1) who labels owner xs d1 = (d2, r2)" by force
  show ?case
    using keeps_candidates_trans [OF one keeps_audit] rest by (cases r1; cases r2) (simp_all add: x run [simplified] more [simplified])
qed (simp add: keeps_candidates_refl)

lemma process_keeps: "keeps_candidates d (fst (process_pending_memory_consolidation env p fresh who labels owner n d))"
  by (auto simp: process_pending_memory_consolidation_def keeps_candidates_refl recover_keeps split: sum.splits)

section \<open>What reaches the memories\<close>

lemma find_life: "(\<And>c. cand_id (g c) = cand_id c) \<Longrightarrow> find (\<lambda>c. cand_id c = cid) (map g cs) = map_option g (find (\<lambda>c. cand_id c = cid) cs)"
  by (induction cs) auto

text \<open>Expiry leaves a candidate that is still pending as it was.\<close>

lemma expire_candidates: "cd_candidates (expire_memory_candidates env d)
    = map (\<lambda>c. if expired env c then c\<lparr>cand_status := ''expired'', cand_updated_at := kv_now env\<rparr> else c) (cd_candidates d)"
  by (simp add: expire_memory_candidates_def Let_def)

lemma pending_before:
  assumes "memory_candidate cid (expire_memory_candidates env d) = Some c" "cand_status c = ''pending''"
  shows "memory_candidate cid d = Some c"
  using assms unfolding memory_candidate_def expire_candidates by (subst (asm) find_life) (auto split: if_split_asm)

lemma schedule_memory: "schedule_job env p identity explicit fresh cid r supporting d = Inr (d', s) \<Longrightarrow> cd_memory d' = cd_memory d \<and> cd_candidates d' = cd_candidates d"
  by (auto simp: schedule_job_def Let_def dest!: insert_jobD split: option.splits if_split_asm elim!: bindE_InrE)

lemma pending_promotion:
  assumes "consolidate_pending env p identity explicit fj fm c cls r labels owner start d0 = (d', res)" "cd_memory start = cd_memory d0" "cd_memory d' \<noteq> cd_memory d0"
  obtains axes mid oc where "promotable r" "promotion_axes c r = Inr axes"
    "remember_in_transaction (kv_memory env) fm (promotion_input c cls r axes) labels owner axes (cd_memory d0) = Inr (cd_memory d', mid)"
    "res = Inr oc" "oc_status oc = ''accepted''" "oc_memory oc = Some mid"
    "cd_candidates d' = map (\<lambda>x. if cand_id x = cand_id c \<and> cand_status x = ''pending'' then x\<lparr>cand_status := ''accepted'', cand_updated_at := kv_now env\<rparr> else x) (cd_candidates d0)"
  using assms(1)
proof (cases rule: consolidate_pending_cases)
  case (working d jid d1)
  from schedule_memory [OF working(2)] working(1) have d1: "cd_memory d1 = cd_memory d0" "cd_candidates d1 = cd_candidates d0" by simp_all
  then obtain oc where ex: "execute_job env p jid fm c cls r labels owner d1 = Inr (d', oc)" "dr_decision r \<noteq> Review" "res = Inr oc"
    using working(3) assms(3) by auto
  from ex(1,2) show thesis
  proof (cases rule: execute_job_cases)
    case (wrote axes m mid f)
    show thesis by (rule that [OF wrote(1,2) _ ex(3) wrote(4,5)]) (use wrote d1 in simp_all)
  qed (use assms(3) d1 in simp_all)
qed (use assms in \<open>auto dest: schedule_memory\<close>)

lemma reconcile_memory: "reconcile_terminal env p identity fresh c r supporting d = Inr (d', oc) \<Longrightarrow> cd_memory d' = cd_memory d \<and> cd_candidates d' = cd_candidates d"
  by (auto simp: reconcile_terminal_def reconcile_audit_def Let_def dest!: insert_jobD split: option.splits if_split_asm elim!: bindE_InrE)

lemma evaluated:
  assumes "evaluate_candidate env p cid who labels owner approval replacing d = Inr (c, cls, r)"
  obtains scope where "memory_candidate cid d = Some c" "authorize_candidate who labels owner c = Inr scope"
    "evaluate (kv_cons env) c cls p \<lparr>explicit_approval = approval, explicit_supersession = replacing,
        same_scope = (scope \<noteq> SPrincipal \<or> cand_created_by c = who), reviewer = None\<rparr> = Inr r"
  using assms by (auto simp: evaluate_candidate_def result_simps elim!: bindE_InrE)

lemma evaluate_commit:
  assumes "evaluate env c cls p ctx = Inr r" "promotable r"
  shows "policy_enabled p \<and> cand_status c = ''pending'' \<and> cand_sensitivity c = ''normal'' \<and> same_scope ctx
    \<and> pred_option (\<lambda>t. ce_now env < t) (ce_parse env (cand_expires_at c))
    \<and> (cc_classification cls = ''supersession'' \<longrightarrow> explicit_supersession ctx) \<and> cc_classification cls \<noteq> ''contradiction''
    \<and> (release_authorized p \<or> explicit_approval ctx \<or> explicit_supersession ctx)"
proof -
  obtain dec rc ex pr where dec: "decide env c cls p ctx = (dec, rc, ex, pr)" by (metis prod_cases4)
  with assms have "commits dec" by (auto simp: evaluate_def promotable_def commits_def Let_def result_simps elim!: bindE_InrE)
  from decide_commits [OF dec this] show ?thesis by blast
qed


section \<open>Steps\<close>

text \<open>Recovery is a series of consolidations, with an entry of the audit log where one fails.\<close>

inductive candidate_step :: "candidate_db \<Rightarrow> candidate_db \<Rightarrow> bool" where
  step_propose: "propose_memory_candidate env fresh inp who labels owner d = (d', res) \<Longrightarrow> candidate_step d d'"
| step_classify: "classify_memory_candidate env cid who labels owner d = (d', res') \<Longrightarrow> candidate_step d d'"
| step_consolidate: "consolidate_with_action env p fj fm cid who labels owner approval replacing d = (d', out) \<Longrightarrow> candidate_step d d'"
| step_recovery: "candidate_step d (audit env who ''memory.consolidation.recovery'' None (Some ''candidate'') ''failed'' None d)"
| step_pause: "pause_memory_consolidation env d = (d', n) \<Longrightarrow> candidate_step d d'"
| step_resume: "resume_memory_consolidation env d = (d', n) \<Longrightarrow> candidate_step d d'"
| step_cancel: "cancel_memory_candidate env cid who labels owner d = (d', done') \<Longrightarrow> candidate_step d d'"
| step_redact: "redact_memory_candidate env cid who labels owner d = (d', done') \<Longrightarrow> candidate_step d d'"
| step_edit: "edit_memory_candidate env cid title content who labels owner d = (d', row) \<Longrightarrow> candidate_step d d'"
| step_working: "set_memory_candidate_working env cid who labels owner d = (d', row) \<Longrightarrow> candidate_step d d'"
| step_retry: "retry_memory_candidate env cid who labels owner d = (d', done') \<Longrightarrow> candidate_step d d'"
| step_memory: "candidate_step d (d\<lparr>cd_memory := m\<rparr>)"

definition candidate_init :: "candidate_db \<Rightarrow> bool" where
  "candidate_init d \<longleftrightarrow> cd_candidates d = [] \<and> cd_jobs d = []"

lemma kept_result: "keeps_candidates d (fst e) \<Longrightarrow> e = (d', r) \<Longrightarrow> keeps_candidates d d'"
  by simp

lemma memory_keeps: "keeps_candidates d (d\<lparr>cd_memory := m\<rparr>)"
  by (rule keeps_same_tables) simp_all

lemma cancel_redact_keeps: "keeps_candidates d (fst (cancel_memory_candidate env cid who labels owner d))"
  "keeps_candidates d (fst (redact_memory_candidate env cid who labels owner d))"
  by (simp_all add: cancel_memory_candidate_def redact_memory_candidate_def update_status_keeps)

lemmas operations_keep = propose_keeps classify_keeps consolidate_keeps pause_keeps resume_keeps edit_keeps working_keeps retry_keeps cancel_redact_keeps

lemma candidate_step_keeps: "candidate_step d d' \<Longrightarrow> keeps_candidates d d'"
  by (erule candidate_step.cases) (auto intro: operations_keep [THEN kept_result] keeps_audit memory_keeps)

interpretation cs: stepwise candidate_init candidate_step candidate_inv candidates_grow
proof
  show "candidate_inv d" if "candidate_init d" for d using that by (simp add: candidate_init_def candidate_inv_def)
qed (use candidate_step_keeps candidates_grow_refl candidates_grow_trans in \<open>auto simp: keeps_candidates_def\<close>)

lemma recover_steps: "candidate_step\<^sup>*\<^sup>* d (fst (recover_jobs env p fresh k who labels owner xs d))"
proof (induction xs arbitrary: k d)
  case (Cons x xs)
  obtain cid decision where x: "x = (cid, decision)" by force
  obtain d1 r1 where run: "consolidate_memory_candidate env p (fst (fresh k)) (snd (fresh k)) cid who labels owner (decision = decision_as_str Approve) d = (d1, r1)" by force
  then have one: "candidate_step d d1" unfolding consolidate_memory_candidate_def by (rule step_consolidate)
  obtain d2 r2 where more: "recover_jobs env p fresh (k + 1) who labels owner xs d1 = (d2, r2)" by force
  have rest: "candidate_step\<^sup>*\<^sup>* d d2" 
    using converse_rtranclp_into_rtranclp [OF one Cons.IH [of d1 "k + 1"]] by (simp add: more [simplified])
  define d3 where "d3 = audit env who ''memory.consolidation.recovery'' None (Some ''candidate'') ''failed'' None d1"
  have "candidate_step d1 d3" unfolding d3_def by (rule step_recovery)
  with one have "candidate_step\<^sup>*\<^sup>* d d3" by (meson r_into_rtranclp rtranclp.rtrancl_into_rtrancl)
  moreover have "fst (recover_jobs env p fresh k who labels owner (x # xs) d)
      \<in> {d2, d3}"
    by (cases r1; cases r2) (simp_all add: d3_def x run [simplified] more [simplified])
  ultimately show ?case using rest by (elim insertE emptyE; simp only:)
qed simp

text \<open>Recovery stays among these steps.\<close>

lemma process_steps: "candidate_step\<^sup>*\<^sup>* d (fst (process_pending_memory_consolidation env p fresh who labels owner n d))"
  by (auto simp: process_pending_memory_consolidation_def recover_steps split: sum.splits)

text \<open>A cancelled job stands for its candidate under its policy.\<close>

lemma cancelled_stands:
  assumes "candidate_inv d" "j \<in> set (cd_jobs d)" "jb_status j = ''cancelled''"
  shows "schedule_job env p (jb_policy j) explicit fresh (jb_candidate j) r supporting d = Inr (d, Standing
    \<lparr>oc_candidate = jb_candidate j, oc_status = ''cancelled'', oc_decision = r, oc_memory = jb_memory j, oc_attempts = u32_of (jb_attempts j)\<rparr>)"
proof -
  have "find (job_for (jb_candidate j) (jb_policy j)) (cd_jobs d) = Some j"
  proof -
    have "distinct (map (\<lambda>j. (jb_candidate j, jb_policy j)) (cd_jobs d))" using assms(1) by (simp add: candidate_inv_def)
    from find_key_unique [OF this assms(2)] show ?thesis by (simp add: job_for_def [abs_def])
  qed
  then show ?thesis using assms(3) by (simp add: schedule_job_def Let_def)
qed

lemma cancelled_blocks:
  assumes inv: "candidate_inv d" and j: "j \<in> set (cd_jobs d)" "jb_status j = ''cancelled''"
    and p: "policy_identity (kv_cons env) p = Inr (jb_policy j)"
    and run: "consolidate_with_action env p fj fm (jb_candidate j) who labels owner approval replacing d = (d', res)"
  shows "cd_memory d' = cd_memory d \<and> (\<forall>c oc. memory_candidate (jb_candidate j) d' = Some c \<and> cand_status c = ''pending'' \<and> res = Inr oc \<longrightarrow> oc_status oc = ''cancelled'')"
  using run
proof (cases rule: consolidate_cases)
  case (terminal identity c cls r0 r supporting oc)
  from reconcile_memory [OF terminal(3)] have "cd_memory d' = cd_memory d" and same: "cd_candidates d' = cd_candidates (expire_memory_candidates env d)" by simp_all
  moreover have "memory_candidate (jb_candidate j) d' = Some c"
    using terminal(4) by (rule evaluated) (simp add: memory_candidate_def same)
  ultimately show ?thesis using terminal(1) by simp
next
  case (pending identity c cls r0 r)
  have cid: "cand_id c = jb_candidate j" using evaluated_row [OF pending(4)] by simp
  have id: "identity = jb_policy j" using p pending(1) by simp
  let ?d0 = "cancel_stale env identity c (expire_memory_candidates env d)"
  let ?d1 = "update_jobs (\<lambda>j. job_for (cand_id c) (policy_version p) j \<and> open_job j) (close_job ''cancelled'' ''legacy-policy-identity-unknown'' (kv_now env)) ?d0"
  have "keeps_candidates d ?d1"
    by (rule keeps_candidates_trans [OF keeps_candidates_trans [OF expire_keeps cancel_stale_keeps] keeps_close]) auto
  with inv j have d1: "candidate_inv ?d1" "j \<in> set (cd_jobs ?d1)" by (auto simp: keeps_candidates_def candidates_grow_def final_job_def)
  note stands = cancelled_stands [OF d1 j(2), of env p approval fj r "cc_supporting cls", folded cid id]
  have "consolidate_pending env p identity approval fj fm c cls r labels owner (expire_memory_candidates env d) ?d0
      = (?d1, Inr \<lparr>oc_candidate = cand_id c, oc_status = ''cancelled'', oc_decision = r, oc_memory = jb_memory j, oc_attempts = u32_of (jb_attempts j)\<rparr>)"
    unfolding consolidate_pending_def Let_def stands by simp
  with pending(6) show ?thesis by auto
qed auto

lemma row_unique: "candidate_inv d \<Longrightarrow> c \<in> set (cd_candidates d) \<Longrightarrow> c' \<in> set (cd_candidates d) \<Longrightarrow> cand_id c = cand_id c' \<Longrightarrow> c = c'"
  unfolding candidate_inv_def by (meson distinct_map inj_onD)

lemma expire_jobs: "cd_jobs (expire_memory_candidates env d) = map (\<lambda>j. if open_job j \<and> jb_candidate j \<in> set (map cand_id (filter (expired env) (cd_candidates d)))
    then close_job ''dead-letter'' ''candidate-expired'' (kv_now env) j else j) (cd_jobs d)"
  by (simp only: expire_memory_candidates_def Let_def if_distrib [of cd_jobs] audit_simps update_simps if_cancel)

text \<open>An edit cancels the open jobs of its candidate.\<close>

lemma edit_cancels:
  assumes inv: "candidate_inv d" and edit: "edit_memory_candidate env cid title content who labels owner d = (d1, Inr (Some c))"
    and j: "j \<in> set (cd_jobs d)" "open_job j" "jb_candidate j = cid"
  shows "close_job ''cancelled'' ''candidate-edited'' (kv_now env) j \<in> set (cd_jobs d1)"
proof -
  let ?d = "expire_memory_candidates env d" and ?f = "\<lambda>c. c\<lparr>cand_title := title, cand_content := content, cand_updated_at := kv_now env\<rparr>"
  have change: "change_pending env cid ''candidate-edited'' ?f ?d = (d1, Inr (Some c))"
    using edit by (auto simp: edit_memory_candidate_def Let_def split: option.splits sum.splits)
  then obtain a where a: "a \<in> set (cd_candidates ?d)" "cand_id a = cid" "cand_status a = ''pending''"
    by (auto simp: change_pending_def Let_def list_ex_iff split: if_split_asm)
  have "candidate_inv ?d" using expire_keeps inv by (auto simp: keeps_candidates_def)
  have none: "\<not> (expired env b \<and> cand_id b = cid)" if b: "b \<in> set (cd_candidates d)" for b
  proof
    assume x: "expired env b \<and> cand_id b = cid"
    then have "b\<lparr>cand_status := ''expired'', cand_updated_at := kv_now env\<rparr> \<in> set (cd_candidates ?d)" using b by (force simp: expire_candidates)
    then have "b\<lparr>cand_status := ''expired'', cand_updated_at := kv_now env\<rparr> = a"
      by (rule row_unique [OF \<open>candidate_inv ?d\<close> _ a(1)]) (simp add: a(2) x)
    from arg_cong [OF this, of cand_status] a(3) show False by simp
  qed
  have out: "jb_candidate j \<notin> set (map cand_id (filter (expired env) (cd_candidates d)))"
  proof
    assume "jb_candidate j \<in> set (map cand_id (filter (expired env) (cd_candidates d)))"
    then obtain b where "b \<in> set (cd_candidates d)" "expired env b" "cand_id b = cid" using j(3) by auto
    with none [of b] show False by blast
  qed
  have "j \<in> set (cd_jobs ?d)"
    unfolding expire_jobs set_map by (rule image_eqI [OF _ j(1)]) (use out in simp)
  with change j show ?thesis
    by (auto simp: change_pending_def Let_def split: if_split_asm intro!: update_jobs_mem)
qed

lemma filter_key: "distinct (map k xs) \<Longrightarrow> x \<in> set xs \<Longrightarrow> p x \<Longrightarrow> filter (\<lambda>y. k y = k x \<and> p y) xs = [x]"
proof (induction xs)
  case (Cons y xs)
  show ?case
  proof (cases "x = y")
    case True
    have "filter (\<lambda>y. k y = k x \<and> p y) xs = []" using Cons.prems(1) unfolding True filter_empty_conv by (auto simp: image_iff)
    with True Cons.prems show ?thesis by simp
  next
    case False
    with Cons.prems(1,2) have "k y \<noteq> k x" by auto
    with False Cons show ?thesis by simp
  qed
qed simp

section \<open>Properties\<close>

text \<open>
  C38. The life of candidates and of their jobs. In every state the operations reach, a job that is open belongs to
  a pending candidate and has no attempt counted; a complete job names its memory and its candidate is accepted;
  a candidate has one complete job at most, so it never becomes two memories; while consolidation is paused no job
  is queued or to be retried. And whatever happens afterwards, every candidate stays, with its creator, project and
  labels, and one that is no longer pending never changes again; nor does a complete or cancelled job.
\<close>

theorem candidates_settle_once:
  assumes "reachable candidate_init candidate_step d" "candidate_step\<^sup>*\<^sup>* d d'"
  shows "(\<forall>j \<in> set (cd_jobs d). jb_status j \<in> {''queued'', ''running'', ''retry'', ''paused''} \<longrightarrow>
        jb_attempts j = 0 \<and> (\<exists>c \<in> set (cd_candidates d). cand_id c = jb_candidate j \<and> cand_status c = ''pending''))
    \<and> (\<forall>j \<in> set (cd_jobs d). jb_status j = ''complete'' \<longrightarrow>
        jb_memory j \<noteq> None \<and> (\<exists>c \<in> set (cd_candidates d). cand_id c = jb_candidate j \<and> cand_status c = ''accepted''))
    \<and> (\<forall>i \<in> set (cd_jobs d). \<forall>j \<in> set (cd_jobs d). jb_status i = ''complete'' \<and> jb_status j = ''complete'' \<and> jb_candidate i = jb_candidate j \<longrightarrow> i = j)
    \<and> (cd_paused d \<longrightarrow> (\<forall>j \<in> set (cd_jobs d). jb_status j \<notin> {''queued'', ''retry'', ''running''}))
    \<and> (\<forall>c \<in> set (cd_candidates d). \<exists>c' \<in> set (cd_candidates d'). cand_id c' = cand_id c \<and> cand_created_by c' = cand_created_by c
        \<and> cand_project c' = cand_project c \<and> cand_acl c' = cand_acl c \<and> (cand_status c \<noteq> ''pending'' \<longrightarrow> c' = c))
    \<and> (\<forall>j \<in> set (cd_jobs d). jb_status j \<in> {''complete'', ''cancelled''} \<longrightarrow> j \<in> set (cd_jobs d'))"
proof -
  have inv: "candidate_inv d" by (rule cs.always_inv [OF assms(1)])
  then have ok: "job_ok (cd_candidates d) (cd_paused d) j" if "j \<in> set (cd_jobs d)" for j using that by (simp add: candidate_inv_def list_all_iff)
  have "candidates_grow d d'" by (rule cs.always_grow [OF assms])
  moreover have "i = j" if "i \<in> set (cd_jobs d)" "j \<in> set (cd_jobs d)" "completed i" "completed j" "jb_candidate i = jb_candidate j" for i j
    using inv that by (auto simp: candidate_inv_def distinct_map dest: inj_onD)
  moreover have "jb_status j \<notin> {''queued'', ''retry'', ''running''}" if "cd_paused d" "j \<in> set (cd_jobs d)" for j
    using ok [OF that(2)] that(1) by (auto simp: job_ok_def)
  ultimately show ?thesis
    using job_ok_open [OF ok] job_ok_complete [OF ok]
    unfolding candidates_grow_def candidate_life_def completed_def final_job_def by (auto simp: open_job_def)
qed

text \<open>
  C40. A failing promotion is retried forever. When the memory of a queued job cannot be written, the memories and the
  candidates stay as they were and the job goes to retry, with the attempt reported but not counted: the stored
  number of attempts is still zero, so under a policy that allows a retry at all no job is ever given up.
\<close>

theorem failing_promotion_is_not_counted:
  assumes "reachable candidate_init candidate_step d" and j: "j \<in> set (cd_jobs d)" "jb_status j = ''queued''" "jb_id j = jid"
    and "1 \<le> max_retries p" "promotable r" "promotion_axes c r = Inr axes"
    and fails: "remember_in_transaction (kv_memory env) fm (promotion_input c cls r axes) labels owner axes (cd_memory d) = Inl e"
  shows "\<exists>d' oc. execute_job env p jid fm c cls r labels owner d = Inr (d', oc) \<and> oc_status oc = ''retry'' \<and> oc_attempts oc = 1 \<and> oc_memory oc = None
    \<and> cd_memory d' = cd_memory d \<and> cd_candidates d' = cd_candidates d
    \<and> (\<exists>j' \<in> set (cd_jobs d'). jb_id j' = jid \<and> jb_status j' = ''retry'' \<and> jb_attempts j' = 0 \<and> jb_last_error j' = Some ''canonical-write-failed'')"
proof -
  have inv: "candidate_inv d" by (rule cs.always_inv [OF assms(1)])
  then have "distinct (map jb_id (cd_jobs d))" by (simp add: candidate_inv_def)
  have "job_ok (cd_candidates d) (cd_paused d) j" using inv j(1) by (simp add: candidate_inv_def list_all_iff)
  from job_ok_open [OF this] j(2) have none: "jb_attempts j = 0" by (simp add: open_job_def)
  have f: "find (\<lambda>j. jb_id j = jid) (cd_jobs d) = Some j" using find_key_unique [OF \<open>distinct (map jb_id (cd_jobs d))\<close> j(1)] j(3) by simp
  have "filter (\<lambda>j. jb_id j = jid \<and> jb_status j \<in> set [''queued'', ''retry'']) (cd_jobs d) = [j]"
    using filter_key [OF \<open>distinct (map jb_id (cd_jobs d))\<close> j(1), of "\<lambda>j. jb_status j \<in> set [''queued'', ''retry'']"] j(2,3) by simp
  then have ex: "execute_job env p jid fm c cls r labels owner d =
      Inr (consolidation_audit env c ''retry'' (update_jobs (\<lambda>j. jb_id j = jid) (close_job ''retry'' ''canonical-write-failed'' (kv_now env)) d),
        \<lparr>oc_candidate = cand_id c, oc_status = ''retry'', oc_decision = r, oc_memory = None, oc_attempts = 1\<rparr>)"
    using assms(5-) f none by (simp add: execute_job_def Let_def ensure_def u32_of_def)
  have mem: "close_job ''retry'' ''canonical-write-failed'' (kv_now env) j
      \<in> set (cd_jobs (update_jobs (\<lambda>j. jb_id j = jid) (close_job ''retry'' ''canonical-write-failed'' (kv_now env)) d))"
    by (rule update_jobs_mem) (rule j)+
  show ?thesis
    by (rule exI, rule exI, rule conjI [OF ex])
      (use none j(3) in \<open>simp add: close_job_def del: update_simps(4); intro bexI [OF _ mem]; simp add: close_job_def\<close>)
qed

text \<open>
  C39. An edited candidate can no longer be consolidated. Once a pending candidate with an open job is edited, the job is
  cancelled, and whatever else happens then, consolidating the candidate under the same policy never changes the
  memories again: while the candidate is pending, every consolidation that succeeds reports the cancelled job.
\<close>

theorem edited_candidate_is_stuck:
  assumes reach: "reachable candidate_init candidate_step d" and edit: "edit_memory_candidate env cid title content who labels owner d = (d1, Inr (Some c))"
    and j: "j \<in> set (cd_jobs d)" "jb_status j \<in> {''queued'', ''retry'', ''paused''}" "jb_candidate j = cid"
    and steps: "candidate_step\<^sup>*\<^sup>* d1 d2" and p: "policy_identity (kv_cons env') p = Inr (jb_policy j)"
    and run: "consolidate_with_action env' p fj fm cid who' labels' owner' approval replacing d2 = (d3, res)"
  shows "cd_memory d3 = cd_memory d2 \<and> (\<forall>c oc. memory_candidate cid d3 = Some c \<and> cand_status c = ''pending'' \<and> res = Inr oc \<longrightarrow> oc_status oc = ''cancelled'')"
proof -
  let ?j = "close_job ''cancelled'' ''candidate-edited'' (kv_now env) j"
  have "open_job j" using j(2) by (auto simp: open_job_def)
  with edit_cancels [OF cs.always_inv [OF reach] edit j(1) _ j(3)] have j1: "?j \<in> set (cd_jobs d1)" by simp
  have reach1: "reachable candidate_init candidate_step d1" by (rule reachable_step [OF reach step_edit [OF edit]])
  have "?j \<in> set (cd_jobs d2)"
    using cs.always_grow [OF reach1 steps] j1 by (auto simp: candidates_grow_def final_job_def)
  from cancelled_blocks [OF cs.always_inv [OF reachable_steps [OF reach1 steps]] this, unfolded close_job_keys j(3), OF refl p run]
  show ?thesis .
qed

text \<open>
  Proposals stay within bounds and touch nothing else. A proposal that succeeds leaves memories and jobs alone and
  returns a stored, pending candidate of normal sensitivity; if it stored a new one, the project holds no more than
  a thousand candidates that can still be reviewed, and every candidate stored before is there still.
\<close>

theorem proposals_are_bounded:
  assumes "propose_memory_candidate env fresh inp who labels owner d = (d', Inr c)"
  shows "cd_memory d' = cd_memory d \<and> cand_status c = ''pending'' \<and> cand_sensitivity c = ''normal'' \<and> c \<in> set (cd_candidates d')
    \<and> (owner \<or> acl_allows (cand_acl c) labels) \<and> cand_scope c \<noteq> ''session''
    \<and> (length (cd_candidates d') = length (cd_candidates d)
      \<or> length (cd_candidates d') = length (cd_candidates d) + 1 \<and> length (filter (pending_in env (ci_project inp)) (cd_candidates d')) \<le> 1000
        \<and> length (filter (recent_by env who) (cd_candidates d')) \<le> 100)"
proof -
  let ?d = "expire_memory_candidates env d"
  obtain v where v: "check_proposal env inp who labels owner = Inr v" using assms by (auto simp: propose_memory_candidate_def split: sum.splits)
  then have ok: "vc_sensitivity v = Normal" "vc_scope v \<noteq> SSession" "owner \<or> acl_allows (vc_acl v) labels"
    by (auto simp: check_proposal_def result_simps split: if_split_asm elim!: bindE_InrE)
  have session: "scope_as_str (vc_scope v) \<noteq> ''session''" using ok(2) by (cases "vc_scope v") simp_all
  have len: "length (cd_candidates ?d) = length (cd_candidates d)" by (simp add: expire_candidates)
  show ?thesis
  proof (cases "find (same_key (ci_project inp) (scope_as_str (vc_scope v)) who (ci_dedupe_key inp)) (cd_candidates ?d)")
    case (Some a)
    with assms v have "d' = ?d" "c = a" "same_proposal c inp v" by (auto simp: propose_memory_candidate_def Let_def split: if_split_asm)
    with find_Some_set [OF Some] ok session len show ?thesis by (simp add: same_proposal_def)
  next
    case None
    let ?c = "new_candidate env fresh who inp v"
    from None assms v have room: "length (filter (pending_in env (ci_project inp)) (cd_candidates ?d)) < 1000" "length (filter (recent_by env who) (cd_candidates ?d)) < 100"
      and ins: "insert_candidate ?c ?d = Inr d'" and c: "memory_candidate fresh d' = Some c"
      by (auto simp: propose_memory_candidate_def Let_def MAX_CANDIDATES_PER_PROJECT_def MAX_CANDIDATES_PER_PRINCIPAL_PER_HOUR_def result_simps split: if_split_asm sum.splits)
    from ins have d': "d' = ?d\<lparr>cd_candidates := cd_candidates ?d @ [?c]\<rparr>" and new: "fresh \<notin> cand_id ` set (cd_candidates ?d)"
      by (force simp: insert_candidate_def result_simps list_ex_iff new_candidate_def split: if_split_asm)+
    have "c = ?c" using c new by (auto simp: memory_candidate_def d' find_append find_None_iff new_candidate_def split: option.splits dest: find_Some_set)
    with d' len room ok session show ?thesis by (auto simp: new_candidate_def)
  qed
qed

section \<open>Examples\<close>

definition ex_kv :: candidate_env where
  "ex_kv = \<lparr>kv_memory = ex_memory_env\<lparr>me_julian := \<lambda>s. Some (if s = ''e'' then 1 else 0)\<rparr>, kv_class = ex_class_env, kv_cons = ex_cons_env,
     kv_candidate_text = \<lparr>env_parse = \<lambda>_. Some 1, env_render = \<lambda>_. ''e'', env_json = \<lambda>_. ''{}''\<rparr>, kv_ids_json = \<lambda>_. ''[]'', kv_date_ok = \<lambda>_. True\<rparr>"

definition ex_proposal :: candidate_input where
  "ex_proposal = \<lparr>ci_observation_kind = ''user-authored'', ci_content_type = ''semantic'', ci_retention_tier = ''durable'', ci_scope = ''workspace'',
     ci_project = ''p'', ci_title = ''t'', ci_content = ''abc'', ci_source = ''s'', ci_source_id = ''i'', ci_dedupe_key = None, ci_confidence = Fin 1,
     ci_importance = Fin 1, ci_sensitivity = ''normal'', ci_acl = [], ci_provenance = JObject [], ci_expires_at = ''e''\<rparr>"

definition ex_empty_db :: candidate_db where
  "ex_empty_db = \<lparr>cd_memory = ex_memory_db, cd_candidates = [], cd_jobs = [], cd_paused = False, cd_audit = []\<rparr>"

definition ex_stored :: candidate where
  "ex_stored = ex_candidate ''t'' ''abc''"

definition ex_candidate_db :: candidate_db where
  "ex_candidate_db = ex_empty_db\<lparr>cd_candidates := [ex_stored]\<rparr>"

lemma ex_plain: "trim ''p'' = ''p''" "trim ''t'' = ''t''" "trim ''abc'' = ''abc''" "trim ''s'' = ''s''" "trim ''i'' = ''i''" "trim ''o'' = ''o''" "trim ''e'' = ''e''"
  "trim ''semantic'' = ''semantic''" "trim ''durable'' = ''durable''" "trim ''workspace'' = ''workspace''" "trim ''normal'' = ''normal''" "trim ''user-authored'' = ''user-authored''"
  by (rule trim_plain; simp add: byte_def)+

lemma ex_parsed: "observation_parse ''user-authored'' = Inr UserAuthored" "content_parse ''semantic'' = Inr CSemantic" "tier_parse ''durable'' = Inr TierDurable"
  "scope_parse ''workspace'' = Inr SWorkspace" "sensitivity_parse ''normal'' = Inr Normal"
  using observation_roundtrip [of UserAuthored] scope_roundtrip [of SWorkspace] sensitivity_roundtrip [of Normal]
  by (simp_all add: content_parse_def tier_parse_def ex_plain to_ascii_lowercase_def lower_byte_def byte_def)

lemma ex_labels: "normalize_acl ''p'' [] = Inr [''p'']" "normalize_acl ''p'' [''p''] = Inr [''p'']"
  by (simp_all add: normalize_acl_def validate_text_def ensure_def sort_dedup_def memory_limits ex_plain any_control_def byte_def is_control_def)

lemma ex_proposal_valid: "check_proposal ex_kv ex_proposal ''o'' [''p''] False = Inr \<lparr>vc_observation_kind = UserAuthored, vc_content_type = CSemantic,
   vc_retention_tier = TierDurable, vc_scope = SWorkspace, vc_sensitivity = Normal, vc_acl = [''p''], vc_provenance = JObject [], vc_expires_at = ''e''\<rparr>"
  by (simp add: check_proposal_def validate_candidate_def ex_kv_def ex_proposal_def ex_parsed ex_labels ensure_def obs_validate_text_def ex_plain
    candidate_limits in_unit_def is_finite_def ex_cons_env_def MAX_CANDIDATE_TTL_def days_def any_control_def byte_def is_control_def is_object_def acl_allows_def ok_or_def)

lemma ex_stored_simps [simp]: "cand_id ex_stored = ''c''" "cand_acl ex_stored = [''p'']" "cand_sensitivity ex_stored = ''normal''" "cand_scope ex_stored = ''workspace''"
  "cand_status ex_stored = ''pending''" "cand_created_by ex_stored = ''o''" "cand_retention_tier ex_stored = ''durable''" "cand_content ex_stored = ''abc''"
  "cand_confidence ex_stored = Fin 1" "cand_importance ex_stored = Fin 1" "cand_content_type ex_stored = ''semantic''" "cand_project ex_stored = ''p''"
  by (simp_all add: ex_stored_def ex_candidate_def)

lemma ex_candidate_db_simps [simp]: "cd_candidates ex_candidate_db = [ex_stored]" "cd_jobs ex_candidate_db = []" "cd_memory ex_candidate_db = ex_memory_db"
  "cd_paused ex_candidate_db = False"
  by (simp_all add: ex_candidate_db_def ex_empty_db_def)

lemma ex_not_expired: "\<not> expired ex_kv ex_stored"
  by (simp add: expired_def ex_kv_def ex_stored_def ex_candidate_def ex_memory_env_def kv_now_def)

lemma ex_expire: "expire_memory_candidates ex_kv ex_candidate_db = ex_candidate_db" "expire_memory_candidates ex_kv ex_empty_db = ex_empty_db"
  by (rule expire_nothing, simp add: ex_candidate_db_def ex_empty_db_def ex_not_expired)+

lemma ex_proposed: "propose_memory_candidate ex_kv ''c'' ex_proposal ''o'' [''p''] False ex_empty_db = (ex_candidate_db, Inr ex_stored)"
  by (simp add: propose_memory_candidate_def ex_proposal_valid ex_expire Let_def)
    (simp add: ex_empty_db_def ex_candidate_db_def insert_candidate_def ensure_def memory_candidate_def ok_or_def new_candidate_def ex_proposal_def ex_stored_def
      ex_candidate_def kv_now_def ex_kv_def ex_memory_env_def MAX_CANDIDATES_PER_PROJECT_def MAX_CANDIDATES_PER_PRINCIPAL_PER_HOUR_def)

lemma ex_candidate_reachable: "reachable candidate_init candidate_step ex_candidate_db"
proof -
  have "reachable candidate_init candidate_step ex_empty_db" by (rule reachable_start) (simp add: candidate_init_def ex_empty_db_def)
  then show ?thesis using step_propose [OF ex_proposed] by (rule reachable_step)
qed

lemma ex_kv_simps [simp]: "kv_class ex_kv = ex_class_env" "kv_cons ex_kv = ex_cons_env" "kv_now ex_kv = ''t''"
  by (simp_all add: ex_kv_def kv_now_def ex_memory_env_def)

definition ex_class_of :: classification where
  "ex_class_of = classify ex_class_env ex_stored []"

lemma ex_class_simps [simp]: "cc_classification ex_class_of = ''new''" "cc_supporting ex_class_of = []"
  by (simp_all add: ex_class_of_def classify_def below_floor_def matches_def List.map_filter_def ex_class_env_def ex_plain report_def)

lemma ex_classified: "classify_memory_candidate ex_kv ''c'' ''o'' [''p''] False ex_candidate_db = (ex_candidate_db, Inr ex_class_of)"
proof -
  have "export_memories (kv_memory ex_kv) (class_filter ex_stored) MAX_MEMORY_EXPORT_LIMIT [''p''] False ex_memory_db = Inr []"
    using scope_roundtrip [of SWorkspace]
    by (simp add: export_memories_def class_filter_def normalize_filter_def ex_parsed ensure_def ex_memory_db_def)
  then show ?thesis
    by (simp add: classify_memory_candidate_def ex_expire memory_candidate_def ok_or_def acl_allows_def ensure_def ex_parsed ex_class_of_def)
qed

definition ex_decision :: decision_report where
  "ex_decision = \<lparr>dr_candidate_id = ''c'', dr_policy_version = CONSOLIDATION_POLICY_VERSION @ '':d'', dr_decision = AutoRetain, dr_classification = ''new'',
     dr_reason_code = ''thresholds-met'',
     dr_explanation = ''candidate is non-sensitive, in-scope, non-conflicting, and meets automatic retention thresholds'', dr_queue_priority = 8, dr_expires_at = Some ''t''\<rparr>"

lemma ex_identity: "map_err InvalidPolicy (bindE (validate_policy ex_policy) (\<lambda>_. policy_identity ex_cons_env ex_policy)) = Inr (CONSOLIDATION_POLICY_VERSION @ '':d'')"
  by (simp add: consolidation_eval)

lemma ex_floor: "\<lfloor>17 / 2 :: rat\<rfloor> = 8"
  by (rule floor_unique) simp_all

lemma ex_evaluated: "evaluate_candidate ex_kv ex_policy ''c'' ''o'' [''p''] False False False ex_candidate_db = Inr (ex_stored, ex_class_of, ex_decision)"
  by (simp add: evaluate_candidate_def ex_classified memory_candidate_def ok_or_def authorize_candidate_def acl_allows_def ensure_def ex_parsed)
    (simp add: ex_decision_def consolidation_eval ex_stored_def ex_floor)

lemma ex_kind: "kind_parse ''semantic'' = Inr KSemantic"
  using kind_roundtrip [of KSemantic] by simp

lemma ex_axes_of: "promotion_axes ex_stored ex_decision = Inr ex_axes"
  by (simp add: promotion_axes_def ex_decision_def with_overrides_def from_legacy_kind_def ex_kind ex_parsed ex_axes_def unwrap_or_def)

definition ex_promotion :: memory_input where
  "ex_promotion = promotion_input ex_stored ex_class_of ex_decision ex_axes"

lemma ex_promotion_simps [simp]: "in_kind ex_promotion = ''semantic''" "in_project ex_promotion = ''p''" "in_title ex_promotion = ''t''" "in_content ex_promotion = ''abc''"
  "in_source ex_promotion = ''s''" "in_source_id ex_promotion = ''i''" "in_dedupe_key ex_promotion = None" "in_confidence ex_promotion = Fin 1"
  "in_importance ex_promotion = Fin 1" "in_acl ex_promotion = [''p'']" "in_supersedes_id ex_promotion = None" "in_valid_until ex_promotion = Some ''t''"
  by (simp_all add: ex_promotion_def promotion_input_def ex_axes_def legacy_kind_def) (simp_all add: ex_stored_def ex_candidate_def ex_decision_def)

lemma ex_promotion_provenance: "in_provenance ex_promotion \<noteq> JNull"
  by (simp add: ex_promotion_def promotion_input_def)

lemma ex_promotion_valid: "validate_input (me_text (kv_memory ex_kv)) ex_promotion = Inr (KSemantic, [''p''], ''{}'', Some ''r'')"
  by (simp add: validate_input_def ex_kind ex_labels ex_plain validate_text_def any_control_def byte_def is_control_def memory_limits ensure_def in_unit_def
    is_finite_def normalize_valid_until_def ok_or_def ex_promotion_provenance Let_def) (simp add: ex_kv_def ex_memory_env_def)

lemma ex_promoted: "\<exists>m. remember_in_transaction (kv_memory ex_kv) ''m1'' ex_promotion [''p''] False ex_axes ex_memory_db = Inr (m, ''m1'') \<and> md_memories m \<noteq> []"
proof -
  let ?env = "kv_memory ex_kv"
  let ?r = "new_memory_row ?env ''m1'' ex_promotion ex_axes ''i'' [''p''] ''{}'' (Some ''r'')"
  let ?m = "index_memory ?r (ex_memory_db\<lparr>md_memories := [?r]\<rparr>)"
  have "journal_inv (md_sync ?m)" by (simp add: journal_inv_def index_memory_def ex_memory_db_def ex_sync_def)
  then obtain st where st: "journal_memory ?env ''m1'' ?m = Inr (?m\<lparr>md_sync := st\<rparr>)" using journal_memory_spec by blast
  have w: "write_memory ?env ex_promotion ?r ex_memory_db = Inr (bump_memory_revision (?m\<lparr>md_sync := st\<rparr>))"
    using st by (simp add: write_memory_def supersede_def put_memory_def ex_memory_db_def find_memory_def ensure_def)
  have "remember_in_transaction ?env ''m1'' ex_promotion [''p''] False ex_axes ex_memory_db = Inr (bump_memory_revision (?m\<lparr>md_sync := st\<rparr>), ''m1'')"
    using w ex_promotion_valid
    by (simp add: remember_in_transaction_def find_dedupe_def ex_memory_db_def optional_labels_def check_write_def ex_plain
        supersession_target_def ensure_def active_count_def Let_def)
  then show ?thesis by (auto simp: bump_memory_revision_def index_memory_def ex_memory_db_def)
qed

definition ex_run :: "candidate_db \<times> (candidate_error, outcome) result" where
  "ex_run = consolidate_with_action ex_kv ex_policy ''j1'' ''m1'' ''c'' ''o'' [''p''] False False False ex_candidate_db"

lemma ex_run_changes: "cd_memory (fst ex_run) \<noteq> ex_memory_db"
proof -
  obtain m where m: "remember_in_transaction (kv_memory ex_kv) ''m1'' ex_promotion [''p''] False ex_axes ex_memory_db = Inr (m, ''m1'')" "md_memories m \<noteq> []"
    using ex_promoted by blast
  have r: "apply_capacity (min (max_active (ceilings ex_policy)) (md_max_active ex_memory_db)) (active_count (kv_memory ex_kv) ex_memory_db) ex_decision = ex_decision"
    by (simp add: apply_capacity_def active_count_def ex_memory_db_def consolidation_eval)
  have stale: "cancel_stale ex_kv i ex_stored ex_candidate_db = ex_candidate_db" for i
    by (simp add: cancel_stale_def update_jobs_def)
  let ?identity = "CONSOLIDATION_POLICY_VERSION @ '':d''"
  define d1 where "d1 = ex_candidate_db\<lparr>cd_jobs := [new_job ex_kv ''j1'' ''c'' ?identity ex_decision [] ''queued'' None]\<rparr>"
  have p: "promotable ex_decision" by (simp add: promotable_def ex_decision_def)
  have none: "update_jobs q f ex_candidate_db = ex_candidate_db" for q f by (simp add: update_jobs_def)
  have s: "schedule_job ex_kv ex_policy ?identity False ''j1'' ''c'' ex_decision [] ex_candidate_db = Inr (d1, Scheduled ''j1'')"
    by (simp add: schedule_job_def insert_job_def ensure_def p d1_def consolidation_eval)
  have x: "\<exists>d2 oc. execute_job ex_kv ex_policy ''j1'' ''m1'' ex_stored ex_class_of ex_decision [''p''] False d1 = Inr (d2, oc) \<and> cd_memory d2 = m"
    using m(1) by (simp add: execute_job_def Let_def d1_def new_job_def p ensure_def ex_axes_of ex_promotion_def [symmetric])
  have "cd_memory (fst (consolidate_pending ex_kv ex_policy ?identity False ''j1'' ''m1'' ex_stored ex_class_of ex_decision [''p''] False ex_candidate_db ex_candidate_db)) = m"
    using x by (auto simp: consolidate_pending_def Let_def none s) (simp add: ex_decision_def)
  then have "cd_memory (fst ex_run) = m"
    by (simp add: ex_run_def consolidate_with_action_def ex_identity ex_expire ex_evaluated ex_classified r stale)
  with m(2) show ?thesis by (auto simp: ex_memory_db_def)
qed


theorem candidates_settle_once_witness:
  "\<exists>c' \<in> set (cd_candidates (fst ex_run)). cand_id c' = ''c'' \<and> cand_created_by c' = ''o''"
proof -
  have "candidate_step ex_candidate_db (fst ex_run)"
    using step_consolidate [of ex_kv ex_policy "''j1''" "''m1''" "''c''" "''o''" "[''p'']" False False False ex_candidate_db "fst ex_run" "snd ex_run"] by (simp add: ex_run_def)
  then have "candidate_step\<^sup>*\<^sup>* ex_candidate_db (fst ex_run)" by (rule r_into_rtranclp)
  from candidates_settle_once [OF ex_candidate_reachable this] show ?thesis by auto
qed

text \<open>A job that waits: reviewed under a policy that is not enabled, then resumed.\<close>

definition ex_off :: consolidation_policy where
  "ex_off = ex_policy\<lparr>policy_enabled := False\<rparr>"

definition ex_review :: decision_report where
  "ex_review = ex_decision\<lparr>dr_decision := Review, dr_reason_code := ''disabled'',
     dr_explanation := ''consolidation is disabled; explicit memory writes and retrieval remain available'', dr_expires_at := Some ''t''\<rparr>"

lemma ex_off_evaluated: "evaluate_candidate ex_kv ex_off ''c'' ''o'' [''p''] False False False ex_candidate_db = Inr (ex_stored, ex_class_of, ex_review)"
  by (simp add: evaluate_candidate_def ex_classified memory_candidate_def ok_or_def authorize_candidate_def acl_allows_def ensure_def ex_parsed)
    (simp add: ex_off_def ex_review_def ex_decision_def consolidation_eval ex_stored_def ex_floor)

lemma ex_off_identity: "map_err InvalidPolicy (bindE (validate_policy ex_off) (\<lambda>_. policy_identity ex_cons_env ex_off)) = Inr (CONSOLIDATION_POLICY_VERSION @ '':d'')"
  by (simp add: ex_off_def consolidation_eval)

definition ex_waiting_db :: candidate_db where
  "ex_waiting_db = fst (resume_memory_consolidation ex_kv (fst (consolidate_with_action ex_kv ex_off ''j1'' ''m1'' ''c'' ''o'' [''p''] False False False ex_candidate_db)))"

definition ex_job :: job where
  "ex_job = (requeue_job ex_kv ex_review [] ''paused'' (new_job ex_kv ''j1'' ''c'' (CONSOLIDATION_POLICY_VERSION @ '':d'') ex_review [] ''paused'' None))
     \<lparr>jb_status := ''queued'', jb_updated_at := ''t''\<rparr>"

lemma ex_waiting: "cd_jobs ex_waiting_db = [ex_job]" "cd_candidates ex_waiting_db = [ex_stored]" "cd_memory ex_waiting_db = ex_memory_db"
proof -
  let ?identity = "CONSOLIDATION_POLICY_VERSION @ '':d''"
  have r: "apply_capacity n k ex_review = ex_review" for n k by (simp add: apply_capacity_def promotable_def ex_review_def)
  have stale: "cancel_stale ex_kv i ex_stored ex_candidate_db = ex_candidate_db" for i by (simp add: cancel_stale_def update_jobs_def)
  have none: "update_jobs q f ex_candidate_db = ex_candidate_db" for q f by (simp add: update_jobs_def)
  have review: "\<not> promotable ex_review" "dr_decision ex_review = Review" by (simp_all add: promotable_def ex_review_def)
  have s: "schedule_job ex_kv ex_off ?identity False ''j1'' ''c'' ex_review [] ex_candidate_db
      = Inr (ex_candidate_db\<lparr>cd_jobs := [new_job ex_kv ''j1'' ''c'' ?identity ex_review [] ''paused'' None]\<rparr>, Scheduled ''j1'')"
    by (simp add: schedule_job_def insert_job_def ensure_def review) (simp add: ex_off_def consolidation_eval)
  have paused: "update_jobs (\<lambda>j. jb_id j = ''j1'' \<and> open_job j) f (ex_candidate_db\<lparr>cd_jobs := [new_job ex_kv ''j1'' ''c'' ?identity ex_review [] ''paused'' None]\<rparr>)
      = ex_candidate_db\<lparr>cd_jobs := [f (new_job ex_kv ''j1'' ''c'' ?identity ex_review [] ''paused'' None)]\<rparr>" for f
    by (simp add: update_jobs_def) (simp add: new_job_def open_job_def)
  have run: "fst (consolidate_with_action ex_kv ex_off ''j1'' ''m1'' ''c'' ''o'' [''p''] False False False ex_candidate_db)
      = consolidation_audit ex_kv ex_stored ''review'' (ex_candidate_db\<lparr>cd_jobs := [requeue_job ex_kv ex_review [] ''paused'' (new_job ex_kv ''j1'' ''c'' ?identity ex_review [] ''paused'' None)]\<rparr>)"
    by (simp add: consolidate_with_action_def ex_off_identity ex_expire ex_off_evaluated ex_classified r stale consolidate_pending_def none s review paused Let_def)
  show "cd_jobs ex_waiting_db = [ex_job]" "cd_candidates ex_waiting_db = [ex_stored]" "cd_memory ex_waiting_db = ex_memory_db"
    unfolding ex_waiting_db_def run by (simp_all add: resume_memory_consolidation_def ex_job_def Let_def)
qed

lemma ex_waiting_reachable: "reachable candidate_init candidate_step ex_waiting_db"
proof -
  obtain d r where d: "consolidate_with_action ex_kv ex_off ''j1'' ''m1'' ''c'' ''o'' [''p''] False False False ex_candidate_db = (d, r)" by force
  have "reachable candidate_init candidate_step d" by (rule reachable_step [OF ex_candidate_reachable step_consolidate [OF d]])
  moreover have "candidate_step d ex_waiting_db"
    using step_resume [of ex_kv d ex_waiting_db "snd (resume_memory_consolidation ex_kv d)"] by (simp add: ex_waiting_db_def d)
  ultimately show ?thesis by (rule reachable_step)
qed

lemma ex_job_simps [simp]: "jb_status ex_job = ''queued''" "jb_id ex_job = ''j1''" "jb_candidate ex_job = ''c''" "jb_policy ex_job = CONSOLIDATION_POLICY_VERSION @ '':d''"
  by (simp_all add: ex_job_def new_job_def)

theorem failing_promotion_is_not_counted_witness:
  "\<exists>d' oc. execute_job ex_kv ex_policy ''j1'' ''m1'' (ex_stored\<lparr>cand_title := []\<rparr>) ex_class_of ex_decision [''p''] False ex_waiting_db = Inr (d', oc)
    \<and> oc_status oc = ''retry''"
proof -
  let ?c = "ex_stored\<lparr>cand_title := []\<rparr>"
  have axes: "promotion_axes ?c ex_decision = Inr ex_axes" 
    by (simp add: promotion_axes_def ex_decision_def with_overrides_def from_legacy_kind_def ex_kind ex_parsed ex_axes_def unwrap_or_def)
  have "validate_input (me_text (kv_memory ex_kv)) (promotion_input ?c ex_class_of ex_decision ex_axes) = Inl (TextFault ''title'' TextEmpty)"
    by (simp add: validate_input_def promotion_input_def legacy_kind_def ex_axes_def ex_kind validate_text_def ex_plain ensure_def
      any_control_def byte_def is_control_def memory_limits)
  then have "remember_in_transaction (kv_memory ex_kv) ''m1'' (promotion_input ?c ex_class_of ex_decision ex_axes) [''p''] False ex_axes (cd_memory ex_waiting_db)
      = Inl (InvalidMemory (TextFault ''title'' TextEmpty))"
    by (simp add: remember_in_transaction_def)
  from failing_promotion_is_not_counted [OF ex_waiting_reachable _ _ _ _ _ axes this, of ex_job "''j1''" ex_policy] show ?thesis
    by (auto simp: ex_waiting promotable_def ex_decision_def consolidation_eval)
qed

definition ex_after_edit :: "candidate_db \<times> (candidate_error, candidate option) result" where
  "ex_after_edit = edit_memory_candidate ex_kv ''c'' ''t'' ''abcd'' ''o'' [''p''] False ex_waiting_db"

lemma ex_edit: "\<exists>d1 c. ex_after_edit = (d1, Inr (Some c)) \<and> cd_memory d1 = ex_memory_db"
proof -
  have quiet: "expire_memory_candidates ex_kv ex_waiting_db = ex_waiting_db" by (rule expire_nothing) (simp add: ex_waiting ex_not_expired)
  have "trim ''abcd'' = ''abcd''" by (rule trim_plain) (simp add: byte_def)
  then have "is_ok (validate_candidate (kv_candidate_text ex_kv) (ce_now ex_cons_env) (input_of_candidate ''t'' ''abcd'' ex_stored))"
    by (simp add: validate_candidate_def input_of_candidate_def ex_kv_def ex_stored_def ex_candidate_def ex_parsed ex_labels ensure_def obs_validate_text_def ex_plain
      candidate_limits in_unit_def is_finite_def ex_cons_env_def MAX_CANDIDATE_TTL_def days_def any_control_def byte_def is_control_def is_object_def ok_or_def)
  then obtain v where v: "validate_candidate (kv_candidate_text ex_kv) (ce_now ex_cons_env) (input_of_candidate ''t'' ''abcd'' ex_stored) = Inr v"
    by (auto simp: is_ok_iff)
  show ?thesis
    by (simp add: ex_after_edit_def edit_memory_candidate_def quiet memory_candidate_def ex_waiting authorize_candidate_def ex_parsed acl_allows_def ensure_def v
      change_pending_def Let_def)
qed

theorem edited_candidate_is_stuck_witness:
  "cd_memory (fst (consolidate_with_action ex_kv ex_policy ''j2'' ''m1'' ''c'' ''o'' [''p''] False True False (fst ex_after_edit))) = ex_memory_db"
proof -
  obtain d1 c where d1: "ex_after_edit = (d1, Inr (Some c))" "cd_memory d1 = ex_memory_db" using ex_edit by blast
  obtain d3 res where run: "consolidate_with_action ex_kv ex_policy ''j2'' ''m1'' ''c'' ''o'' [''p''] False True False d1 = (d3, res)" by force
  have p: "policy_identity (kv_cons ex_kv) ex_policy = Inr (jb_policy ex_job)" by (simp add: consolidation_eval)
  from edited_candidate_is_stuck [OF ex_waiting_reachable d1(1) [unfolded ex_after_edit_def] _ _ _ rtranclp.rtrancl_refl p run]
  show ?thesis by (simp add: ex_waiting run d1)
qed

theorem proposals_are_bounded_witness:
  "length (filter (pending_in ex_kv ''p'') (cd_candidates ex_candidate_db)) \<le> 1000 \<and> cd_memory ex_candidate_db = cd_memory ex_empty_db"
  using proposals_are_bounded [OF ex_proposed] by (simp add: ex_proposal_def)

end
