(* ===== verification/Spec2Isabelle.thy ===== *)
theory Spec2Isabelle
  imports Tenant Team Consolidation Chunking ContextBundle Provider KnowledgeGraph Fleet SyncSources CandidateLife
begin

text \<open>
  A verification library for Cortana, a local-first memory and knowledge service written in Rust
  (\<open>crates/core\<close>, \<open>crates/retrieval\<close>, \<open>crates/server\<close>, \<open>crates/mcp\<close>, the command line in \<open>src/\<close> and a
  desktop application). The library models the decisions of the core crate and of the commands over
  it: who may act, what is accepted and kept, how documents are cut, embedded and stored, how
  candidates become memories, and how devices agree. Each definition keeps the name and the order of
  tests of the function it translates; theorems are referred to by name.

  \<^bold>\<open>Parts of the program and their theories.\<close>

  \<^item> Tenants (\<open>Tenant\<close>, \<open>crates/core/src/tenant.rs\<close>). A control plane keeps a registry of tenants as
    a JSON value in its own database, and one data plane per tenant in a directory; the operations act
    on the record \<open>tenant_plane\<close>, the registry cell and the file tree of \<open>Disk\<close>.
    \<open>tenant_registry_invariant\<close>, \<open>tenant_lifecycle\<close>, \<open>data_destroyed_only_by_confirmed_purge\<close>. How
    \<open>Store::open\<close> ends and what a failing removal of a directory has destroyed are outcomes given to
    the call.
  \<^item> Team workspaces (\<open>Team\<close>, \<open>crates/core/src/team.rs\<close>): members and roles, invitations, removal,
    two-phase deletion, the single authorization entry point. \<open>team_membership_invariant\<close>,
    \<open>membership_needs_consent\<close>, \<open>removal_is_immediate\<close>, \<open>deletion_receipt_is_overwritten\<close>.
  \<^item> Memory records (\<open>Memory\<close>, \<open>crates/core/src/memory.rs\<close>): axes, validation, access labels, expiry
    and the full-text query built from a user's words (\<open>fts_query_no_injection\<close>).
  \<^item> Memories in the store (\<open>MemoryStore\<close>, \<open>crates/core/src/store.rs\<close>). The record \<open>memory_db\<close> holds the
    tables \<open>memories\<close> and \<open>memories_fts\<close>, the revision, the journal and the configured limit.
    \<open>remember_in_transaction\<close> deduplicates, supersedes, bounds, indexes, journals and counts;
    \<open>forget_memory_scoped\<close> retracts; \<open>export_memories\<close> reads. \<open>memory_store_consistent\<close> is its invariant,
    \<open>forgotten_stays_erased\<close>, \<open>remember_respects_visibility\<close>, \<open>remember_retry_is_noop\<close> and
    \<open>active_limit_holds\<close> its promises, \<open>supersession_is_not_journalled\<close> a flaw.
  \<^item> Observation candidates (\<open>Observation\<close>, \<open>observation.rs\<close>): what an agent may propose.
    Classification (\<open>Classification\<close>, \<open>classification.rs\<close>) compares a candidate with the visible
    memories, optionally through a model provider whose answer is checked
    (\<open>provider_output_is_contained\<close>). Consolidation (\<open>Consolidation\<close>, \<open>consolidation.rs\<close>) decides by
    policy (\<open>commit_needs_authority\<close>) and has an in-memory queue (\<open>queue_invariant\<close>).
  \<^item> Candidates in the store (\<open>CandidateStore\<close>, \<open>CandidateLife\<close>, \<open>store.rs\<close>). The record \<open>candidate_db\<close>
    adds to a \<open>memory_db\<close> the candidates, their consolidation jobs, the pause and the audit trail.
    Consolidation expires, authorizes, classifies, evaluates, applies the capacity, cancels the jobs of
    other policies, schedules a job and carries it out in a second transaction. \<open>CandidateLife\<close> shows
    what every operation keeps (\<open>candidates_settle_once\<close>), what may become a memory
    (\<open>promotion_needs_authority\<close>), and two flaws of the job's life (\<open>edited_candidate_is_stuck\<close>,
    \<open>failing_promotion_is_not_counted\<close>); \<open>proposals_are_bounded\<close> is about proposals.
  \<^item> Document chunking (\<open>Chunking\<close>, \<open>chunking.rs\<close> and \<open>detect_language\<close> of \<open>code_intelligence.rs\<close>):
    \<open>bounded_ranges_tile_the_content\<close>, \<open>chunk_document_spec\<close>, \<open>small_target_never_returns\<close>.
  \<^item> The document corpus (\<open>Corpus\<close>, \<open>store.rs\<close>): documents, chunks, full text, links, code index, tenant
    quotas and the staged vectors. \<open>corpus_stays_consistent\<close>, \<open>upsert_installs\<close>,
    \<open>reconcile_removes_the_unseen\<close>, \<open>quota_accounting\<close>. \<open>Rebuild\<close> (\<open>src/main.rs\<close>) stages a new embedding
    generation page by page and commits it: \<open>rebuild_all_or_nothing\<close>, \<open>rebuild_completes\<close>.
  \<^item> Sources (\<open>SourceConfig\<close>, \<open>config.rs\<close> and \<open>main.rs\<close>): validation of the configuration and
    normalisation of what a source delivers (\<open>sources_are_scoped\<close>). \<open>Ingest\<close> and \<open>SyncSources\<close>
    (\<open>main.rs\<close>) embed a batch with concurrent requests, ingest a stream of documents, read a connector's
    spool or a directory and reconcile: \<open>batch_equals_sequence\<close>,
    \<open>interrupted_batch_commits_a_prefix\<close>, \<open>ingestion_installs_every_document\<close>,
    \<open>only_complete_runs_remove\<close>. \<open>SyncRuns\<close> (\<open>store.rs\<close>) records the runs
    (\<open>run_history_is_bounded_and_final\<close>).
  \<^item> Synchronisation of devices (\<open>SyncEngine\<close>, \<open>sync_engine.rs\<close> over three tables of \<open>store.rs\<close>): a
    journal of revisions per object, export and import between paired devices, conflicts, watermarks
    and compaction. \<open>journal_is_authoritative\<close>, \<open>import_is_all_or_nothing\<close>,
    \<open>concurrent_edits_converge\<close>, \<open>export_leaves_no_gap\<close>.
  \<^item> Devices (\<open>device_identity.rs\<close>): \<open>Crypto\<close> has key derivation and sealing over primitives that are
    parameters with their laws, \<open>DeviceIdentity\<close> the registry with enrolment, rotation, revocation and
    recovery (\<open>device_registry_invariant\<close>, \<open>device_vault_refinement\<close>), \<open>SyncBundle\<close> the sealed bundles
    (\<open>paired_devices_exchange\<close>), \<open>SyncCommands\<close> (\<open>main.rs\<close>) the commands that compose them with the
    engine (\<open>synchronisation_is_import\<close>), \<open>Fleet\<close> (\<open>fleet.rs\<close>) task grants and result envelopes
    (\<open>task_grant_lifecycle\<close>, \<open>results_reach_their_owner\<close>), \<open>Relay\<close> (\<open>crates/server/src/relay.rs\<close>) the
    mailboxes of the relay (\<open>relay_refines_mailboxes\<close>, \<open>uploaded_bundle_is_kept\<close>), \<open>AuditLog\<close> the
    bounded audit trail.
  \<^item> Contracts with consumers: context bundles under a budget (\<open>ContextBundle\<close>, \<open>context.rs\<close>,
    \<open>contracts.rs\<close>: \<open>context_within_budget\<close>), authentication (\<open>Auth\<close>, \<open>auth.rs\<close> and the choice of a
    principal in \<open>crates/server/src/api.rs\<close>: \<open>authentication_is_sound\<close>), identity mappings
    (\<open>Integration\<close>, \<open>integration.rs\<close>: \<open>mapping_lifecycle\<close>), the provider contract (\<open>Provider\<close>,
    \<open>provider.rs\<close>: \<open>provider_authorization\<close>, \<open>replay_guard_refines_window\<close>) and the knowledge graph
    (\<open>KnowledgeGraph\<close>, \<open>knowledge_graph.rs\<close>: \<open>relationship_never_widens_access\<close>).

  \<^bold>\<open>How the library is built.\<close> \<open>Prelude\<close> holds the result type, the collections of simplification rules and
  the locales \<open>step_invariant\<close> (initial states, a step relation and an invariant every step keeps) and its
  extension \<open>stepwise\<close> (with a preorder along which every step moves). Tenants, teams, the queue, the
  journal, mappings, the relay, the device registry, the corpus, the runs, the memories and the
  candidates interpret them in their own theories, so that a property of all reachable states rests on
  one lemma per operation. \<open>Disk\<close> has the file tree with the locale \<open>marked_planes\<close> of directories that
  carry an identity marker, which the tenant and team planes interpret; \<open>Team\<close> interprets
  \<open>ranked_policy\<close> on its access matrix. \<open>Text\<close> holds the Rust string operations, \<open>Values\<close> the numbers and
  JSON values. This root theory puts classification and consolidation together in
  \<open>decision_reads_closest_match\<close>.

  \<^bold>\<open>How Rust appears.\<close>

  \<^item> A Rust string is the list of its UTF-8 bytes, so \<open>len()\<close> is \<open>length\<close> and slices are byte ranges;
    where the validity of the encoding matters it is the hypothesis \<open>wf_utf8\<close>. Which characters
    beyond ASCII are alphanumeric is a parameter.
  \<^item> A function returning \<open>Result\<close> returns a sum whose left side is an error datatype with one
    constructor per message of the source; a method that mutates its state returns the new
    state with the result, on the error paths too, so that partial effects stay visible: what a
    transaction rolls back is the old state, what was committed before the error is not.
  \<^item> A table is the list of its rows in the order of their insertion; unique columns are tested where rows
    are inserted. Times are integers in nanoseconds, or texts where the store compares them as such. The
    clock, RFC 3339, UUIDs, digests, embeddings and the outcomes of system calls are fields of a
    record given to each call; one reading of the clock stands for the readings within one call.
  \<^item> JSON cells hold the value that was written to them, or a text that does not parse, which every load
    reports as an error. Floating point numbers are \<open>float_val\<close>: a rational, an infinity or not a number;
    where a result is rounded, rounding is a parameter. Digests are lists of bytes as machine words.
  \<^item> Concurrent embedding requests answer in an order that is a parameter; cancellation and the time limit
    are the outcomes of numbered checks.
  \<^item> The chunking loop may run forever, so it is a partial function into \<open>option\<close>:
    \<open>bounded_ranges_tile_the_content\<close> shows that it returns for every well-formed text and every target of
    at least four bytes, the size of the longest character, and \<open>small_target_never_returns\<close> that below
    this it need not. The loop of a rebuild ends because each page leaves fewer chunks after the last
    identifier, and \<open>rebuild_completes\<close> gives its result. Every other loop recurses on a list or on the
    remaining length; there is no fuel.

  \<^bold>\<open>What is not modelled.\<close> Failures of SQLite itself (a transaction either runs as written or reports the
  error its checks raise), but for those that come after a commit or between two effects: opening a
  store, and the compaction after an import, which \<open>import_is_all_or_nothing\<close> tells apart. Which rows
  satisfy the constraints of the synchronised tables and how SQLite turns numbers into text is a
  parameter. Directories are told apart by the components of their paths, so symbolic links are not
  followed. A panic is an outcome of its own where the source can run into one with input from
  outside (the expiry of an invitation, the offsets of the code parser). The symbol offsets of the code parser, the text index and its ranking, the embedding
  services and the model providers are outside the program, so the searches over them (recall and
  retrieval, pages and statistics of the store) would be models of SQLite's ranking and not of this
  code. The HTTP and MCP servers, connectors, OAuth flows, the exports and the user interfaces are
  input and output around the operations modelled here; migrations rewrite tables this model starts
  with.
\<close>

section \<open>Classification and consolidation together\<close>

text \<open>
  What consolidation decides about a pending candidate depends on its closest eligible match only.
  The other memories may contradict it: the decision is the one that would be made if they did not
  exist. An automatic retention therefore says that the closest match has the same normalised text or
  is no conflict, and nothing about the others; the witness retains automatically, as an exact
  duplicate, a candidate that contradicts another visible memory, although against that memory alone
  it is a contradiction held for review.
\<close>

lemma evaluate_class:
  "cc_classification a = cc_classification b \<Longrightarrow> evaluate env c a p ctx = evaluate env c b p ctx"
  by (simp add: evaluate_def decide_def Let_def)

lemma match_of_memory: "match_of env c m = Some x \<Longrightarrow> mt_memory x = m"
  by (auto simp: match_of_def Let_def split: if_splits)

theorem decision_reads_closest_match:
  assumes "cand_status c = ''pending''" "\<not> below_floor kenv c" "matches kenv c memories = best # rest"
  shows "evaluate cenv c (classify kenv c memories) p ctx = evaluate cenv c (classify kenv c [mt_memory best]) p ctx
    \<and> (evaluate cenv c (classify kenv c memories) p ctx = Inr r \<and> dr_decision r = AutoRetain
        \<longrightarrow> mt_exact best \<or> \<not> mt_supersession best \<and> \<not> mt_contradiction best)"
proof
  have "best \<in> set (matches kenv c memories)" using assms(3) by simp
  then obtain m where m: "eligible kenv c m" "match_of kenv c m = Some best" by (auto simp: set_matches)
  then have "matches kenv c [mt_memory best] = [best]"
    by (simp add: match_of_memory matches_def List.map_filter_simps)
  from classify_best(2) [OF assms(1,2) this] classify_best(2) [OF assms]
  show "evaluate cenv c (classify kenv c memories) p ctx = evaluate cenv c (classify kenv c [mt_memory best]) p ctx"
    by (intro evaluate_class) simp
  show "evaluate cenv c (classify kenv c memories) p ctx = Inr r \<and> dr_decision r = AutoRetain
        \<longrightarrow> mt_exact best \<or> \<not> mt_supersession best \<and> \<not> mt_contradiction best"
  proof
    assume r: "evaluate cenv c (classify kenv c memories) p ctx = Inr r \<and> dr_decision r = AutoRetain"
    obtain d rc ex pr where d: "decide cenv c (classify kenv c memories) p ctx = (d, rc, ex, pr)" by (metis prod_cases4)
    with r have "d = AutoRetain" by (auto simp: evaluate_def bindE_Inr_iff)
    with decide_auto d have "retainable (cc_classification (classify kenv c memories))" by blast
    with classify_best(2) [OF assms] have "retainable (class_as_str (match_class kenv c best))" by simp
    then show "mt_exact best \<or> \<not> mt_supersession best \<and> \<not> mt_contradiction best"
      by (auto simp: match_class_def retainable_def split: if_splits)
  qed
qed

definition hidden_candidate :: candidate where
  "hidden_candidate = ex_candidate ''run'' ''abc''"

definition repeated_memory :: memory_record where
  "repeated_memory = Classification.ex_memory ''a'' ''run'' ''abc''"

definition opposite_memory :: memory_record where
  "opposite_memory = Classification.ex_memory ''b'' ''run'' ''not abc''"

lemma hidden_texts:
  "normalized_text ''run'' ''abc'' = ''run abc''" "normalized_text ''run'' ''not abc'' = ''run not abc''"
  by (simp_all add: normalized_text_def trim_word_def alnum_char_def is_ascii_alnum_def split_ws.simps text_eval char_eval)

lemma hidden_words: "words ''run abc'' = [''run'', ''abc'']" "words ''run not abc'' = [''run'', ''not'', ''abc'']"
  by (simp_all add: words_def split_ws.simps text_eval)

lemmas hidden_eval = match_of_def Let_def hidden_texts token_similarity_def hidden_words polarity_conflict_def
  has_negation_def has_change_marker_def preference_value_conflict_def hidden_candidate_def repeated_memory_def
  opposite_memory_def ex_candidate_def Classification.ex_memory_def ex_class_env_def REINFORCEMENT_THRESHOLD_def

lemma hidden_matches:
  "\<exists>x. match_of ex_class_env hidden_candidate repeated_memory = Some x \<and> mt_memory x = repeated_memory
     \<and> mt_similarity x = 1 \<and> mt_exact x"
  "\<exists>y. match_of ex_class_env hidden_candidate opposite_memory = Some y \<and> mt_memory y = opposite_memory
     \<and> mt_similarity y = 4 / 5 \<and> \<not> mt_exact y \<and> mt_contradiction y \<and> \<not> mt_supersession y"
  by (simp_all add: hidden_eval char_eval)

theorem decision_reads_closest_match_witness:
  "cc_classification (classify ex_class_env hidden_candidate [opposite_memory]) = ''contradiction''
   \<and> evaluate ex_cons_env hidden_candidate (classify ex_class_env hidden_candidate [opposite_memory, repeated_memory]) ex_policy ex_context
     = evaluate ex_cons_env hidden_candidate (classify ex_class_env hidden_candidate [repeated_memory]) ex_policy ex_context
   \<and> (\<exists>r. evaluate ex_cons_env hidden_candidate (classify ex_class_env hidden_candidate [opposite_memory, repeated_memory])
        ex_policy ex_context = Inr r \<and> dr_decision r = AutoRetain)"
proof -
  obtain x y where x: "match_of ex_class_env hidden_candidate repeated_memory = Some x" "mt_memory x = repeated_memory"
      "mt_similarity x = 1" "mt_exact x"
    and y: "match_of ex_class_env hidden_candidate opposite_memory = Some y" "mt_memory y = opposite_memory"
      "mt_similarity y = 4 / 5" "\<not> mt_exact y" "mt_contradiction y" "\<not> mt_supersession y"
    using hidden_matches by blast
  have el: "eligible ex_class_env hidden_candidate repeated_memory" "eligible ex_class_env hidden_candidate opposite_memory"
    by (simp_all add: hidden_candidate_def repeated_memory_def opposite_memory_def ex_eligible)
  have one: "matches ex_class_env hidden_candidate [opposite_memory] = [y]"
    using y(1) el by (simp add: matches_def List.map_filter_simps)
  have two: "matches ex_class_env hidden_candidate [opposite_memory, repeated_memory] = [x, y]"
    using x(1,3) y(1,3) el by (simp add: matches_def List.map_filter_simps less_eq_prod_def)
  have ok: "cand_status hidden_candidate = ''pending''" "\<not> below_floor ex_class_env hidden_candidate"
    using ex_not_below [of "''abc''" "''run''"] by (simp_all add: hidden_candidate_def ex_candidate_def text_eval)
  have dup: "cc_classification (classify ex_class_env hidden_candidate [opposite_memory, repeated_memory]) = ''exact-duplicate''"
    using classify_best(2) [OF ok two] x(4) by (simp add: match_class_def)
  have "cc_classification (classify ex_class_env hidden_candidate [opposite_memory]) = ''contradiction''"
    using classify_best(2) [OF ok one] y(4-6) by (simp add: match_class_def)
  moreover from dup have "\<exists>r. evaluate ex_cons_env hidden_candidate
      (classify ex_class_env hidden_candidate [opposite_memory, repeated_memory]) ex_policy ex_context = Inr r
      \<and> dr_decision r = AutoRetain"
    by (simp add: hidden_candidate_def consolidation_eval Let_def)
  moreover have "evaluate ex_cons_env hidden_candidate (classify ex_class_env hidden_candidate [opposite_memory, repeated_memory])
      ex_policy ex_context = evaluate ex_cons_env hidden_candidate (classify ex_class_env hidden_candidate [repeated_memory])
      ex_policy ex_context"
    using decision_reads_closest_match [OF ok two, of ex_cons_env ex_policy ex_context] x(2) by simp
  ultimately show ?thesis by blast
qed

end
